(* ===== verification/Prelude.thy ===== *)
theory Prelude
  imports Main "HOL-Library.Sublist"
begin

text \<open>
  Shared vocabulary of the development: identifiers and times, the result type of
  operations that may throw, the automation collections the component theories fill,
  and generic lemmas on lists and partial maps.

  \<^item> \<open>uuid\<close>: database identifiers. The code only compares them, so they are
    natural numbers handed out in order by the store (\<open>next_id\<close> of the database state).
  \<^item> \<open>time\<close>: a JavaScript \<open>Date\<close>, as milliseconds since the epoch.
  \<^item> \<open>'e + 'a\<close>: \<open>Inl\<close> a thrown error, \<open>Inr\<close> a returned value.
\<close>

type_synonym uuid = nat
type_synonym time = int

named_theorems tx_simps \<open>equations that evaluate store primitives\<close>
named_theorems inv_intros \<open>preservation of the store invariant\<close>
named_theorems frame_simps \<open>tables an operation leaves alone\<close>

section \<open>Results that may be errors\<close>

fun bind_res :: "'e + 'a \<Rightarrow> ('a \<Rightarrow> 'e + 'b) \<Rightarrow> 'e + 'b" where
  "bind_res (Inl e) f = Inl e"
| "bind_res (Inr a) f = f a"

lemma bind_res_Inr_iff:
  "bind_res m f = Inr b \<longleftrightarrow> (\<exists>a. m = Inr a \<and> f a = Inr b)"
  by (cases m) auto

lemma bind_res_assoc: "bind_res (bind_res m f) g = bind_res m (\<lambda>x. bind_res (f x) g)"
  by (cases m) auto

text \<open>The traversal that stops at the first error, as a loop that may throw does.\<close>

fun map_res :: "('a \<Rightarrow> 'e + 'b) \<Rightarrow> 'a list \<Rightarrow> 'e + 'b list" where
  "map_res f [] = Inr []"
| "map_res f (x # xs) =
     (case f x of Inl e \<Rightarrow> Inl e
      | Inr y \<Rightarrow> (case map_res f xs of Inl e \<Rightarrow> Inl e | Inr ys \<Rightarrow> Inr (y # ys)))"

lemma map_res_Inr_length: "map_res f xs = Inr ys \<Longrightarrow> length ys = length xs"
  by (induction xs arbitrary: ys) (auto split: sum.splits)

lemma map_res_total: "(\<And>x. x \<in> set xs \<Longrightarrow> f x = Inr (g x)) \<Longrightarrow> map_res f xs = Inr (map g xs)"
  by (induction xs) auto

section \<open>Actions on a state that may throw\<close>

text \<open>
  An asynchronous operation, awaited: it takes a state to a result and the state it leaves, also
  when it throws, so that a handler continues from there.
\<close>

type_synonym ('e, 'w, 'a) action = "'w \<Rightarrow> ('e + 'a) \<times> 'w"

definition return_act :: "'a \<Rightarrow> ('e, 'w, 'a) action" where
  "return_act a w = (Inr a, w)"

definition throw_act :: "'e \<Rightarrow> ('e, 'w, 'a) action" where
  "throw_act e w = (Inl e, w)"

definition bind_act :: "('e, 'w, 'a) action \<Rightarrow> ('a \<Rightarrow> ('e, 'w, 'b) action) \<Rightarrow> ('e, 'w, 'b) action" where
  "bind_act m f w = (case m w of (Inl e, w') \<Rightarrow> (Inl e, w') | (Inr a, w') \<Rightarrow> f a w')"

definition catch_act :: "('e, 'w, 'a) action \<Rightarrow> ('e \<Rightarrow> ('e, 'w, 'a) action) \<Rightarrow> ('e, 'w, 'a) action" where
  "catch_act m h w = (case m w of (Inl e, w') \<Rightarrow> h e w' | (Inr a, w') \<Rightarrow> (Inr a, w'))"

definition of_res :: "'e + 'a \<Rightarrow> ('e, 'w, 'a) action" where
  "of_res r w = (r, w)"

lemma bind_act_Inr:
  "bind_act m f w = (Inr b, w') \<longleftrightarrow> (\<exists>a w1. m w = (Inr a, w1) \<and> f a w1 = (Inr b, w'))"
  by (auto simp: bind_act_def split: prod.splits sum.splits)

lemma catch_act_Inr:
  "catch_act m h w = (Inr b, w') \<longleftrightarrow>
     m w = (Inr b, w') \<or> (\<exists>e w1. m w = (Inl e, w1) \<and> h e w1 = (Inr b, w'))"
  by (auto simp: catch_act_def split: prod.splits sum.splits)

lemma prim_act_Inr [simp]:
  "return_act a w = (Inr b, w') \<longleftrightarrow> b = a \<and> w' = w"
  "throw_act e w = (Inr b, w') \<longleftrightarrow> False"
  "of_res r w = (Inr b, w') \<longleftrightarrow> r = Inr b \<and> w' = w"
  by (auto simp: return_act_def throw_act_def of_res_def)

lemma bind_act_cases:
  assumes "bind_act m f w = (r, w')"
  obtains e where "m w = (Inl e, w')" "r = Inl e" | a w1 where "m w = (Inr a, w1)" "f a w1 = (r, w')"
  using assms by (auto simp: bind_act_def split: prod.splits sum.splits)

text \<open>What every value satisfies that an action returns.\<close>

definition returns :: "('a \<Rightarrow> bool) \<Rightarrow> ('e, 'w, 'a) action \<Rightarrow> bool" where
  "returns Q m \<longleftrightarrow> (\<forall>w b w'. m w = (Inr b, w') \<longrightarrow> Q b)"

lemma returns_bind: "(\<And>a. returns Q (f a)) \<Longrightarrow> returns Q (bind_act m f)"
  by (auto simp: returns_def bind_act_Inr)

lemma returns_catch: "returns Q m \<Longrightarrow> (\<And>e. returns Q (h e)) \<Longrightarrow> returns Q (catch_act m h)"
  unfolding returns_def catch_act_Inr by metis

lemma returns_return: "Q a \<Longrightarrow> returns Q (return_act a)"
  by (simp add: returns_def)

lemma returns_throw: "returns Q (throw_act e)"
  by (simp add: returns_def)

section \<open>Lists\<close>

definition distinct_by :: "('a \<Rightarrow> 'b) \<Rightarrow> 'a list \<Rightarrow> bool" where
  "distinct_by f xs \<longleftrightarrow> distinct (map f xs)"

lemma distinct_by_Nil [simp]: "distinct_by f []"
  by (simp add: distinct_by_def)

lemma distinct_by_Cons [simp]:
  "distinct_by f (x # xs) \<longleftrightarrow> f x \<notin> f ` set xs \<and> distinct_by f xs"
  by (simp add: distinct_by_def)

lemma distinct_by_append_single:
  "distinct_by f (xs @ [x]) \<longleftrightarrow> distinct_by f xs \<and> f x \<notin> f ` set xs"
  by (auto simp: distinct_by_def)

text \<open>\<open>Array.prototype.find\<close> / a query that returns the first matching row.\<close>

fun find_first_opt :: "('a \<Rightarrow> bool) \<Rightarrow> 'a list \<Rightarrow> 'a option" where
  "find_first_opt p [] = None"
| "find_first_opt p (x # xs) = (if p x then Some x else find_first_opt p xs)"

lemma find_first_opt_Some: "find_first_opt p xs = Some x \<Longrightarrow> x \<in> set xs \<and> p x"
  by (induction xs) (auto split: if_splits)

lemma find_first_opt_None: "find_first_opt p xs = None \<longleftrightarrow> (\<forall>x\<in>set xs. \<not> p x)"
  by (induction xs) auto

lemma filter_eq_upt_snoc:
  "map f xs = [1..<Suc n] \<Longrightarrow> f x = Suc n \<Longrightarrow> map f (xs @ [x]) = [1..<Suc (Suc n)]"
  by simp

lemma sorted_wrt_filter_idx: "sorted_wrt r xs \<Longrightarrow> sorted_wrt r (filter p xs)"
  by (induction xs) auto

section \<open>Partial maps\<close>

lemma map_upd_some [simp]: "(m(k \<mapsto> v)) k = Some v"
  by simp

lemma dom_upd_existing: "m k = Some v \<Longrightarrow> dom (m(k \<mapsto> w)) = dom m"
  by auto

end
