(* ===== verification/Contracts.thy ===== *)
theory Contracts
  imports Prelude
begin

text \<open>
  The shared contracts of \<open>packages/contracts\<close>: the enumerations of
  \<open>events.ts\<close>, \<open>api.ts\<close> and \<open>project-type.ts\<close>, the payloads of run events and
  \<open>validateRunEventPayload\<close>, the run job, and the agent outputs of
  \<open>packages/agents/src/schemas.ts\<close> as far as other code reads them.

  A payload or an output that satisfies its Zod schema is a value of the typed
  constructor for that schema; whatever the schema rejects is the \<open>Invalid\<close>
  constructor. Checks that depend on values (lengths, ranges, uniqueness) are written
  out as predicates. A typed value stands for the result of the parse, so the strings a
  schema trims are trimmed in it; a parse of a parsed value returns it unchanged. Strings are lists of code units of the range 0 to 255, as JavaScript
  counts them; text outside that range is not represented.
\<close>

section \<open>JSON\<close>

datatype json =
    JNull
  | JBool bool
  | JNum int
  | JStr string
  | JArr "json list"
  | JObj "(string \<times> json) list"

section \<open>Enumerations\<close>

datatype run_status = PENDING | RUNNING | PAUSED | COMPLETED | FAILED | CANCELLED

datatype agent_name =
    Sophia | Mike | Emma | Bob | Alex | David | Sarah | Adrian | CustomerSuccess

fun agent_string :: "agent_name \<Rightarrow> string" where
  "agent_string Sophia = ''Sophia''"
| "agent_string Mike = ''Mike''"
| "agent_string Emma = ''Emma''"
| "agent_string Bob = ''Bob''"
| "agent_string Alex = ''Alex''"
| "agent_string David = ''David''"
| "agent_string Sarah = ''Sarah''"
| "agent_string Adrian = ''Adrian''"
| "agent_string CustomerSuccess = ''CustomerSuccess''"

datatype run_command = CmdStart | CmdResume | CmdApprove | CmdRetry

datatype approval_scope = ScopePlan | ScopeContent

datatype project_type = GENERAL | CLIENT_PORTAL

datatype workspace_plan = FREE | PRO | MAX

datatype workspace_role = OWNER | ADMIN | MEMBER

datatype skip_reason = NOT_REQUIRED_FOR_PROJECT_TYPE | PLAN_NOT_ENTITLED

text \<open>\<open>TERMINAL_RUN_STATUSES\<close> of \<open>control-api/src/app.ts\<close>.\<close>

fun terminal_run_status :: "run_status \<Rightarrow> bool" where
  "terminal_run_status COMPLETED = True"
| "terminal_run_status FAILED = True"
| "terminal_run_status CANCELLED = True"
| "terminal_run_status _ = False"

text \<open>\<open>PROJECT_TYPE_AGENTS\<close>: which agents a run needs, in run order.\<close>

fun agentsRequiredFor :: "project_type \<Rightarrow> agent_name list" where
  "agentsRequiredFor GENERAL = [Sophia, Mike, Emma, Bob, Alex, David, Sarah, Adrian]"
| "agentsRequiredFor CLIENT_PORTAL = [Mike, Emma, Bob, Alex, David]"

definition isRequiredForProjectType :: "project_type \<Rightarrow> agent_name \<Rightarrow> bool" where
  "isRequiredForProjectType t a \<longleftrightarrow> (\<exists>b \<in> set (agentsRequiredFor t). b = a)"

section \<open>Strings\<close>

text \<open>\<open>String.prototype.trim\<close>: its white space within the modelled range.\<close>

definition is_space :: "char \<Rightarrow> bool" where
  "is_space c \<longleftrightarrow> c \<in> {CHR '' '', CHR 0x09, CHR 0x0A, CHR 0x0B, CHR 0x0C, CHR 0x0D, CHR 0xA0}"

definition js_trim :: "string \<Rightarrow> string" where
  "js_trim s = rev (dropWhile is_space (rev (dropWhile is_space s)))"

lemma length_js_trim: "length (js_trim s) \<le> length s"
  unfolding js_trim_def
  by (metis length_dropWhile_le le_trans length_rev)

definition lower_char :: "char \<Rightarrow> char" where
  "lower_char c = (let n = (of_char c :: nat) in
     if 65 \<le> n \<and> n \<le> 90 \<or> 192 \<le> n \<and> n \<le> 222 \<and> n \<noteq> 215 then char_of (n + 32) else c)"

definition js_toLowerCase :: "string \<Rightarrow> string" where
  "js_toLowerCase s = map lower_char s"

definition js_includes :: "string \<Rightarrow> string \<Rightarrow> bool" where
  "js_includes s sub \<longleftrightarrow> list_ex (prefix sub) (suffixes s)"

lemma js_includes_iff: "js_includes s sub \<longleftrightarrow> sublist sub s"
proof -
  have "js_includes s sub \<longleftrightarrow> (\<exists>t. suffix t s \<and> prefix sub t)"
    by (auto simp: js_includes_def list_ex_iff)
  also have "\<dots> \<longleftrightarrow> sublist sub s"
    by (auto simp: sublist_def prefix_def suffix_def)
  finally show ?thesis .
qed

text \<open>\<open>String(n)\<close> of an integer.\<close>

fun nat_string :: "nat \<Rightarrow> string" where
  "nat_string n = (if n < 10 then [char_of (48 + n)] else nat_string (n div 10) @ [char_of (48 + n mod 10)])"

declare nat_string.simps [simp del]

definition int_string :: "int \<Rightarrow> string" where
  "int_string i = (if i < 0 then ''-'' @ nat_string (nat (- i)) else nat_string (nat i))"

section \<open>Project file paths\<close>

fun split_on :: "char \<Rightarrow> string \<Rightarrow> string list" where
  "split_on c [] = [[]]"
| "split_on c (x # xs) =
     (if x = c then [] # split_on c xs
      else (case split_on c xs of [] \<Rightarrow> [[x]] | y # ys \<Rightarrow> (x # y) # ys))"

lemma split_on_nonempty: "split_on c s \<noteq> []"
  by (induction s) (auto split: list.splits)

lemma split_on_append: "split_on c (xs @ c # ys) = split_on c xs @ split_on c ys"
  by (induction xs) (auto split: list.splits simp: split_on_nonempty)

lemma split_on_plain: "c \<notin> set xs \<Longrightarrow> split_on c xs = [xs]"
  by (induction xs) auto

lemma split_on_first:
  "split_on c s = a # rest \<Longrightarrow> (rest = [] \<and> s = a) \<or> (\<exists>t. s = a @ c # t \<and> split_on c t = rest)"
proof (induction s arbitrary: a)
  case (Cons x s)
  show ?case
  proof (cases "x = c")
    case False
    with Cons.prems obtain y ys where "split_on c s = y # ys" "a = x # y" "rest = ys"
      using split_on_nonempty [of c s] by (auto split: list.splits)
    with Cons.IH [of y] show ?thesis by auto
  qed (use Cons.prems in auto)
qed simp

text \<open>\<open>ProjectFilePathSchema\<close>: the parsed value is the trimmed string.\<close>

definition valid_project_file_path :: "string \<Rightarrow> bool" where
  "valid_project_file_path p \<longleftrightarrow>
     (let s = js_trim p in
       1 \<le> length s \<and> length s \<le> 1024 \<and> \<not> prefix ''/'' s \<and>
       CHR 0x5C \<notin> set s \<and> ''..'' \<notin> set (split_on (CHR ''/'') s))"

section \<open>Agent outputs\<close>

record generated_file =
  gf_path :: string
  gf_content :: string
  gf_expectedVersion :: nat

datatype risk = SAFE | DESTRUCTIVE
datatype severity = INFO | WARNING | BLOCKING

record mike_output =
  requiresApproval :: bool
  mike_rest :: json

record planned_route =
  route_method :: string
  route_path :: string

record bob_output =
  bob_routes :: "planned_route list"
  bob_rest :: json

record alex_output =
  alex_files :: "generated_file list"
  alex_rest :: json

record david_migration =
  mig_path :: string
  mig_risk :: risk

record david_output =
  schemaPrismaPath :: string
  david_migrations :: "david_migration list"
  seedPath :: string
  david_files :: "generated_file list"
  david_findings :: "severity list"
  destructiveChanges :: "string list"
  david_rest :: json

record route_metadata =
  md_routePath :: string
  md_canonicalUrl :: "string option"

record sarah_output =
  routeMetadata :: "route_metadata list"
  seoPackage :: json

record adrian_output =
  ctaVariants :: "json list"
  adVariants :: "json list"
  contentPackage :: json

datatype agent_output =
    OSophia json
  | OMike mike_output
  | OEmma json
  | OBob bob_output
  | OAlex alex_output
  | ODavid david_output
  | OSarah sarah_output
  | OAdrian adrian_output
  | OCustomerSuccess json
  | OInvalid json

text \<open>
  \<open>AgentGeneratedFilesSchema\<close>: between 1 and 200 files, each with a valid path and a
  bounded content, no path twice, and a \<open>package.json\<close> that parses as JSON.
  \<open>JSON.parse\<close> is the parameter \<open>json_ok\<close>.
\<close>

definition valid_generated_file :: "generated_file \<Rightarrow> bool" where
  "valid_generated_file f \<longleftrightarrow>
     valid_project_file_path (gf_path f) \<and> length (gf_content f) \<le> 2000000"

definition valid_generated_files :: "(string \<Rightarrow> bool) \<Rightarrow> generated_file list \<Rightarrow> bool" where
  "valid_generated_files json_ok fs \<longleftrightarrow>
     1 \<le> length fs \<and> length fs \<le> 200 \<and> list_all valid_generated_file fs \<and>
     distinct (map gf_path fs) \<and>
     list_all (\<lambda>f. gf_path f = ''package.json'' \<longrightarrow> json_ok (gf_content f)) fs"

text \<open>The cross-field refinements of \<open>DavidOutputSchema\<close>.\<close>

definition valid_david_output :: "(string \<Rightarrow> bool) \<Rightarrow> david_output \<Rightarrow> bool" where
  "valid_david_output json_ok d \<longleftrightarrow>
     valid_generated_files json_ok (david_files d) \<and>
     1 \<le> length (david_migrations d) \<and> length (david_migrations d) \<le> 50 \<and>
     distinct (map mig_path (david_migrations d)) \<and>
     list_all (\<lambda>m. mig_path m \<in> gf_path ` set (david_files d)) (david_migrations d) \<and>
     seedPath d \<in> gf_path ` set (david_files d) \<and>
     list_all (\<lambda>m. mig_risk m = DESTRUCTIVE \<longrightarrow> mig_path m \<in> set (destructiveChanges d))
       (david_migrations d) \<and>
     list_all (\<lambda>c. case find_first_opt (\<lambda>m. mig_path m = c) (david_migrations d) of
                    None \<Rightarrow> False | Some m \<Rightarrow> mig_risk m = DESTRUCTIVE) (destructiveChanges d)"

text \<open>A destructive migration is disclosed exactly when some change is listed.\<close>

lemma valid_david_destructive_iff:
  assumes "valid_david_output json_ok d"
  shows "(\<exists>m \<in> set (david_migrations d). mig_risk m = DESTRUCTIVE) \<longleftrightarrow> destructiveChanges d \<noteq> []"
proof
  assume "\<exists>m \<in> set (david_migrations d). mig_risk m = DESTRUCTIVE"
  with assms show "destructiveChanges d \<noteq> []"
    by (auto simp: valid_david_output_def list_all_iff)
next
  assume "destructiveChanges d \<noteq> []"
  then obtain c where "c \<in> set (destructiveChanges d)" by (cases "destructiveChanges d") auto
  with assms obtain m where "find_first_opt (\<lambda>m. mig_path m = c) (david_migrations d) = Some m"
      and "mig_risk m = DESTRUCTIVE"
    by (auto simp: valid_david_output_def list_all_iff split: option.splits)
  then show "\<exists>m \<in> set (david_migrations d). mig_risk m = DESTRUCTIVE"
    by (auto dest: find_first_opt_Some)
qed

text \<open>\<open>getAgentManifest(a).outputSchema\<close> accepts a value exactly when it is agent \<open>a\<close>'s.\<close>

definition output_matches :: "(string \<Rightarrow> bool) \<Rightarrow> agent_name \<Rightarrow> agent_output \<Rightarrow> bool" where
  "output_matches j a v \<longleftrightarrow>
     (case v of
        OSophia _ \<Rightarrow> a = Sophia
      | OMike _ \<Rightarrow> a = Mike
      | OEmma _ \<Rightarrow> a = Emma
      | OBob _ \<Rightarrow> a = Bob
      | OAlex x \<Rightarrow> a = Alex \<and> valid_generated_files j (alex_files x)
      | ODavid d \<Rightarrow> a = David \<and> valid_david_output j d
      | OSarah _ \<Rightarrow> a = Sarah
      | OAdrian _ \<Rightarrow> a = Adrian
      | OCustomerSuccess _ \<Rightarrow> a = CustomerSuccess
      | OInvalid _ \<Rightarrow> False)"

section \<open>Run events\<close>

datatype command_status = SUCCEEDED | CMD_FAILED

datatype validation_step =
    Install | PrismaValidate | Lint | Typecheck | Test | Build | PreviewStart | PreviewHealth
  | DbStart | DbMigrate | DbSeed | Acceptance

datatype preview_event_status = PvReady | PvStopped | PvExpired | PvError

datatype database_status =
    DbQueued | DbProvisioning | DbHealthCheck | DbMigrating | DbReady | DbActive
  | DbSuspended | DbFailed | DbDeleting | DbDeleted

datatype artifact_type = AgentOutput agent_name | SeoPackage | ContentPackage

record step_progress =
  pr_session :: uuid
  pr_ordinal :: nat
  pr_step :: validation_step
  pr_status :: command_status
  pr_exitCode :: int
  pr_durationMs :: int
  pr_stdout :: string
  pr_stderr :: string

datatype run_event_body =
    RunStatusChanged run_status run_status run_command nat
  | TaskCreated uuid agent_name nat string
  | TaskSkipped uuid agent_name nat string "skip_reason option"
  | TaskStarted uuid agent_name nat nat
  | TaskProgress step_progress
  | TaskCompleted uuid agent_name nat nat
  | TaskFailed uuid agent_name nat nat json
  | ArtifactCreated uuid agent_name artifact_type "uuid option"
  | ApprovalRequired approval_scope string
  | LegacyApprovalRequired string
  | SandboxReady uuid
  | PreviewUpdated uuid preview_event_status "string option" time
  | IntegrationStatusChanged uuid uuid nat database_status "string option"
  | RunCompleted time
  | RunFailed json
  | CodeGenerated "uuid option" "string list" nat
  | ReleaseAssessmentStarted string nat
  | ReleaseReady string nat nat
  | ReleaseBlocked string nat
  | ReleaseCriterionKeyUnresolved string string "string list"
  | ApprovalReminderDue time
  | RunDataPurged time

text \<open>
  \<open>validateRunEventPayload\<close>: the payload as stored, or \<open>None\<close> where the schema throws.
  A reason is trimmed, and a legacy approval event without a scope is given the scope its
  text names (\<open>normalizeApprovalRequiredEventPayload\<close>). Event types whose schema only
  asks for a JSON value pass unchanged; so do payloads whose remaining fields are built by
  the writer from parsed values (identifiers, \<open>Date.toISOString()\<close>, and the gateway URL that
  \<open>PreviewTicketSigner.issue\<close> composes from a parsed base URL).
\<close>

definition bounded_text :: "nat \<Rightarrow> string \<Rightarrow> bool" where
  "bounded_text n s \<longleftrightarrow> 1 \<le> length (js_trim s) \<and> length (js_trim s) \<le> n"

definition normalizeApprovalRequired :: "approval_scope option \<Rightarrow> string \<Rightarrow> (approval_scope \<times> string) option" where
  "normalizeApprovalRequired sc reason =
     (if \<not> bounded_text 2000 reason then None
      else (case sc of
              Some s \<Rightarrow> Some (s, js_trim reason)
            | None \<Rightarrow> Some (if js_includes (js_toLowerCase (js_trim reason)) ''content''
                            then ScopeContent else ScopePlan, js_trim reason)))"

definition valid_progress :: "step_progress \<Rightarrow> bool" where
  "valid_progress p \<longleftrightarrow> 0 < pr_ordinal p \<and> 0 \<le> pr_durationMs p \<and>
     length (pr_stdout p) \<le> 64012 \<and> length (pr_stderr p) \<le> 64012"

definition validateRunEventPayload :: "run_event_body \<Rightarrow> run_event_body option" where
  "validateRunEventPayload e =
     (case e of
        TaskProgress p \<Rightarrow> (if valid_progress p then Some e else None)
      | ApprovalRequired sc r \<Rightarrow>
          map_option (\<lambda>(s, t). ApprovalRequired s t) (normalizeApprovalRequired (Some sc) r)
      | LegacyApprovalRequired r \<Rightarrow>
          map_option (\<lambda>(s, t). ApprovalRequired s t) (normalizeApprovalRequired None r)
      | IntegrationStatusChanged i oid v st m \<Rightarrow>
          (if st = DbActive then None
           else (case m of
                   None \<Rightarrow> Some e
                 | Some t \<Rightarrow> (if bounded_text 2000 t
                               then Some (IntegrationStatusChanged i oid v st (Some (js_trim t)))
                               else None)))
      | ReleaseAssessmentStarted _ n \<Rightarrow> (if 0 < n then Some e else None)
      | ReleaseBlocked _ n \<Rightarrow> (if 0 < n then Some e else None)
      | ReleaseCriterionKeyUnresolved _ s ks \<Rightarrow>
          (if 1 \<le> length s \<and> length s \<le> 120 \<and> 1 \<le> length ks \<and> length ks \<le> 50 \<and>
              list_all (\<lambda>k. 1 \<le> length k \<and> length k \<le> 200) ks then Some e else None)
      | _ \<Rightarrow> Some e)"

text \<open>Validation is idempotent: what is stored is accepted unchanged when it is read back.\<close>

lemma dropWhile_rev_dropWhile:
  "dropWhile p (rev (dropWhile p (rev (dropWhile p s)))) = rev (dropWhile p (rev (dropWhile p s)))"
proof (cases "dropWhile p s")
  case Nil
  show ?thesis unfolding Nil by simp
next
  case (Cons a as)
  then have a: "\<not> p a" by (metis hd_dropWhile list.distinct(1) list.sel(1))
  have "dropWhile p (rev as @ [a]) = dropWhile p (rev as) @ [a] \<or> dropWhile p (rev as @ [a]) = [a]"
    using a by (cases "\<exists>x\<in>set as. \<not> p x") (auto simp: dropWhile_append)
  with Cons a show ?thesis by auto
qed

lemma js_trim_idem [simp]: "js_trim (js_trim s) = js_trim s"
proof -
  let ?t = "rev (dropWhile is_space (rev (dropWhile is_space s)))"
  have "dropWhile is_space ?t = ?t" by (rule dropWhile_rev_dropWhile)
  then show ?thesis unfolding js_trim_def by (metis dropWhile_idem rev_rev_ident)
qed

lemma bounded_text_trim [simp]: "bounded_text n (js_trim s) = bounded_text n s"
  by (simp add: bounded_text_def)

lemma validateRunEventPayload_idem:
  "validateRunEventPayload e = Some e' \<Longrightarrow> validateRunEventPayload e' = Some e'"
  by (cases e) (auto simp: validateRunEventPayload_def normalizeApprovalRequired_def split: if_splits option.splits)

section \<open>Run jobs\<close>

record run_job =
  job_runId :: uuid
  job_command :: run_command
  job_controlVersion :: nat
  job_reason :: "string option"
  job_approvalScope :: "approval_scope option"

end
