(* ===== verification/WorkerErrors.thy ===== *)
theory WorkerErrors
  imports Contracts
begin

text \<open>
  \<open>orchestrator-worker/src/errors.ts\<close> and \<open>findValidationFailure\<close> of \<open>repair.ts\<close>:
  thrown values, their cause chains and their classification.

  A thrown JavaScript value is a reference into a heap of error objects, so that a
  \<open>cause\<close> chain may be cyclic; primitives and \<open>null\<close> carry no properties. The code walks
  a chain for at most ten objects and remembers the objects it has seen. The lemmas show
  that the memory is an optimisation: every walk equals a search of the first ten
  objects of the chain.
\<close>

section \<open>Thrown values\<close>

datatype js_value = JSUndefined | JSPrim | JSRef nat

datatype err_class =
    ClsRunStopped string
  | ClsZodError
  | ClsFileConflict string nat nat
  | ClsError
  | ClsNotError

record err_node =
  en_class :: err_class
  en_name :: "string option"
  en_message :: string
  en_code :: "string option"
  en_retryable :: "bool option"
  en_step :: "string option"
  en_exitCode :: "int option"
  en_output :: "string option"
  en_cause :: "js_value option"

type_synonym err_heap = "(nat \<times> err_node) list"
type_synonym thrown = "err_heap \<times> js_value"

definition node_of :: "err_heap \<Rightarrow> js_value \<Rightarrow> err_node option" where
  "node_of h v = (case v of JSRef i \<Rightarrow> map_of h i | _ \<Rightarrow> None)"

definition plain_error :: "err_class \<Rightarrow> string \<Rightarrow> string \<Rightarrow> err_node" where
  "plain_error c name msg =
     \<lparr>en_class = c, en_name = Some name, en_message = msg, en_code = None, en_retryable = None,
      en_step = None, en_exitCode = None, en_output = None, en_cause = None\<rparr>"

definition throw_node :: "err_node \<Rightarrow> thrown" where
  "throw_node n = ([(0, n)], JSRef 0)"

definition RunStoppedError :: "string \<Rightarrow> string \<Rightarrow> thrown" where
  "RunStoppedError msg status = throw_node (plain_error (ClsRunStopped status) ''RunStoppedError'' msg)"

definition GeneratedFileConflictError :: "string \<Rightarrow> nat \<Rightarrow> nat \<Rightarrow> thrown" where
  "GeneratedFileConflictError path e a =
     throw_node ((plain_error (ClsFileConflict path e a) ''GeneratedFileConflictError'' path)
                   \<lparr>en_retryable := Some False\<rparr>)"

definition ZodError :: thrown where
  "ZodError = throw_node (plain_error ClsZodError ''ZodError'' ''invalid'')"

definition GenericError :: "string \<Rightarrow> thrown" where
  "GenericError msg = throw_node (plain_error ClsError ''Error'' msg)"

text \<open>A request the database refuses, as Prisma reports it: the code is the Prisma code.\<close>

definition PrismaError :: "string \<Rightarrow> thrown" where
  "PrismaError code =
     throw_node ((plain_error ClsError ''PrismaClientKnownRequestError'' code)\<lparr>en_code := Some code\<rparr>)"

section \<open>Walking the cause chain\<close>

definition is_run_stopped :: "err_node \<Rightarrow> bool" where
  "is_run_stopped n = (case en_class n of ClsRunStopped _ \<Rightarrow> True | _ \<Rightarrow> False)"

fun find_stopped_loop :: "nat \<Rightarrow> err_heap \<Rightarrow> js_value list \<Rightarrow> js_value \<Rightarrow> err_node option" where
  "find_stopped_loop 0 h seen cur = None"
| "find_stopped_loop (Suc d) h seen cur =
     (if cur = JSUndefined then None
      else case node_of h cur of
        None \<Rightarrow> None
      | Some n \<Rightarrow>
          (if is_run_stopped n then Some n
           else if cur \<in> set seen then None
           else case en_cause n of
                  None \<Rightarrow> None
                | Some c \<Rightarrow> find_stopped_loop d h (cur # seen) c))"

definition findRunStoppedError :: "thrown \<Rightarrow> err_node option" where
  "findRunStoppedError e = find_stopped_loop 10 (fst e) [] (snd e)"

fun retryable_loop :: "nat \<Rightarrow> err_heap \<Rightarrow> js_value list \<Rightarrow> js_value \<Rightarrow> bool" where
  "retryable_loop 0 h seen cur = True"
| "retryable_loop (Suc d) h seen cur =
     (if cur = JSUndefined then True
      else case node_of h cur of
        None \<Rightarrow> True
      | Some n \<Rightarrow>
          (case en_retryable n of
             Some r \<Rightarrow> r
           | None \<Rightarrow>
               (if cur \<in> set seen then True
                else case en_cause n of
                       None \<Rightarrow> True
                     | Some c \<Rightarrow> retryable_loop d h (cur # seen) c)))"

definition isRetryableError :: "thrown \<Rightarrow> bool" where
  "isRetryableError e =
     (case node_of (fst e) (snd e) of
        Some n \<Rightarrow>
          (case en_class n of
             ClsZodError \<Rightarrow> False
           | ClsFileConflict _ _ _ \<Rightarrow> False
           | _ \<Rightarrow> retryable_loop 10 (fst e) [] (snd e))
      | None \<Rightarrow> retryable_loop 10 (fst e) [] (snd e))"

datatype failure_reason =
  FAILED_BUDGET_EXHAUSTED | FAILED_PROVIDER | FAILED_VALIDATION | FAILED_INTERNAL

definition BUDGET_EXHAUSTION_CODES :: "string list" where
  "BUDGET_EXHAUSTION_CODES = [''PROVIDER_BUDGET_EXCEEDED'', ''WORKSPACE_BUDGET_EXCEEDED'']"

definition PROVIDER_ERROR_NAMES :: "string list" where
  "PROVIDER_ERROR_NAMES = [''ProviderBudgetError'', ''ModelGatewayError'', ''SandboxProviderError'']"

definition node_code :: "err_node \<Rightarrow> string" where
  "node_code n = (case en_code n of Some c \<Rightarrow> c | None \<Rightarrow> [])"

definition node_name :: "err_node \<Rightarrow> string" where
  "node_name n = (case en_name n of Some c \<Rightarrow> c | None \<Rightarrow> [])"

definition is_budget_node :: "err_node \<Rightarrow> bool" where
  "is_budget_node n \<longleftrightarrow> node_code n \<in> set BUDGET_EXHAUSTION_CODES"

definition is_validation_node :: "err_node \<Rightarrow> bool" where
  "is_validation_node n \<longleftrightarrow>
     node_name n = ''SandboxValidationError'' \<or> node_code n = ''SANDBOX_VALIDATION_FAILED''"

definition is_provider_node :: "err_node \<Rightarrow> bool" where
  "is_provider_node n \<longleftrightarrow> node_name n \<in> set PROVIDER_ERROR_NAMES"

definition finish_class :: "bool \<Rightarrow> failure_reason" where
  "finish_class p = (if p then FAILED_PROVIDER else FAILED_INTERNAL)"

fun classify_loop :: "nat \<Rightarrow> err_heap \<Rightarrow> js_value list \<Rightarrow> bool \<Rightarrow> js_value \<Rightarrow> failure_reason" where
  "classify_loop 0 h seen p cur = finish_class p"
| "classify_loop (Suc d) h seen p cur =
     (case node_of h cur of
        None \<Rightarrow> finish_class p
      | Some n \<Rightarrow>
          (if cur \<in> set seen then finish_class p
           else if is_budget_node n then FAILED_BUDGET_EXHAUSTED
           else if is_validation_node n then FAILED_VALIDATION
           else classify_loop d h (cur # seen) (p \<or> is_provider_node n)
                  (case en_cause n of Some c \<Rightarrow> c | None \<Rightarrow> JSUndefined)))"

definition classifyRunFailure :: "thrown \<Rightarrow> failure_reason" where
  "classifyRunFailure e = classify_loop 10 (fst e) [] False (snd e)"

record validation_failure =
  vf_step :: string
  vf_exitCode :: int
  vf_output :: string

definition node_validation_failure :: "err_node \<Rightarrow> validation_failure option" where
  "node_validation_failure n =
     (if en_name n = Some ''SandboxValidationError'' then
        (case (en_step n, en_exitCode n) of
           (Some s, Some x) \<Rightarrow>
             Some \<lparr>vf_step = s, vf_exitCode = x,
                   vf_output = (case en_output n of Some t \<Rightarrow> t | None \<Rightarrow> [])\<rparr>
         | _ \<Rightarrow> None)
      else None)"

fun find_validation_loop :: "nat \<Rightarrow> err_heap \<Rightarrow> js_value \<Rightarrow> validation_failure option" where
  "find_validation_loop 0 h cur = None"
| "find_validation_loop (Suc d) h cur =
     (case node_of h cur of
        None \<Rightarrow> None
      | Some n \<Rightarrow>
          (case node_validation_failure n of
             Some f \<Rightarrow> Some f
           | None \<Rightarrow>
               find_validation_loop d h (case en_cause n of Some c \<Rightarrow> c | None \<Rightarrow> JSUndefined)))"

definition findValidationFailure :: "thrown \<Rightarrow> validation_failure option" where
  "findValidationFailure e = find_validation_loop 10 (fst e) (snd e)"

record worker_error =
  we_code :: string
  we_name :: string
  we_message :: string
  we_retryable :: bool
  we_reason :: failure_reason

definition effective_node :: "thrown \<Rightarrow> err_node option" where
  "effective_node e =
     (case findRunStoppedError e of Some n \<Rightarrow> Some n | None \<Rightarrow> node_of (fst e) (snd e))"

definition toWorkerError :: "thrown \<Rightarrow> worker_error" where
  "toWorkerError e =
     (let eff = effective_node e;
          is_err = (case eff of Some n \<Rightarrow> en_class n \<noteq> ClsNotError | None \<Rightarrow> False);
          name = (if is_err then node_name (the eff) else ''UnknownError'')
      in \<lparr>we_code = (case eff of Some n \<Rightarrow> (case en_code n of Some c \<Rightarrow> c | None \<Rightarrow> name) | None \<Rightarrow> name),
          we_name = name,
          we_message = (if is_err then en_message (the eff) else ''Orchestration failed''),
          we_retryable = isRetryableError e,
          we_reason = classifyRunFailure e\<rparr>)"

fun reason_string :: "failure_reason \<Rightarrow> string" where
  "reason_string FAILED_BUDGET_EXHAUSTED = ''FAILED_BUDGET_EXHAUSTED''"
| "reason_string FAILED_PROVIDER = ''FAILED_PROVIDER''"
| "reason_string FAILED_VALIDATION = ''FAILED_VALIDATION''"
| "reason_string FAILED_INTERNAL = ''FAILED_INTERNAL''"

definition worker_error_json :: "worker_error \<Rightarrow> json" where
  "worker_error_json w =
     JObj [(''code'', JStr (we_code w)), (''name'', JStr (we_name w)),
           (''message'', JStr (we_message w)), (''retryable'', JBool (we_retryable w)),
           (''reason'', JStr (reason_string (we_reason w)))]"

section \<open>The walks as searches of the chain\<close>

text \<open>The first \<open>d\<close> error objects along the cause chain, with no memory of visited ones.\<close>

definition next_value :: "err_node \<Rightarrow> js_value" where
  "next_value n = (case en_cause n of Some c \<Rightarrow> c | None \<Rightarrow> JSUndefined)"

fun chain :: "nat \<Rightarrow> err_heap \<Rightarrow> js_value \<Rightarrow> err_node list" where
  "chain 0 h v = []"
| "chain (Suc d) h v = (case node_of h v of None \<Rightarrow> [] | Some n \<Rightarrow> n # chain d h (next_value n))"

text \<open>
  The visited objects are closed under \<open>cause\<close> except for the current one; so meeting a
  visited object again means that the rest of the chain holds visited objects only.
\<close>

definition visited :: "err_heap \<Rightarrow> js_value list \<Rightarrow> js_value \<Rightarrow> bool" where
  "visited h seen cur \<longleftrightarrow>
     (\<forall>v \<in> set seen. \<forall>n. node_of h v = Some n \<longrightarrow> next_value n \<in> insert cur (set seen))"

lemma visited_Nil [simp]: "visited h [] cur"
  by (simp add: visited_def)

lemma visited_step:
  "visited h seen cur \<Longrightarrow> node_of h cur = Some n \<Longrightarrow> visited h (cur # seen) (next_value n)"
  by (auto simp: visited_def)

lemma chain_visited:
  assumes "visited h seen cur" and "cur \<in> set seen"
  shows "\<forall>n \<in> set (chain d h cur). \<exists>v \<in> set seen. node_of h v = Some n"
  using assms
proof (induction d arbitrary: cur)
  case 0
  then show ?case by simp
next
  case (Suc d)
  show ?case
  proof (cases "node_of h cur")
    case None
    then show ?thesis by simp
  next
    case (Some n)
    from Suc.prems Some have nxt: "next_value n \<in> set seen"
      by (auto simp: visited_def)
    with Suc.prems have "visited h seen (next_value n)"
      by (auto simp: visited_def)
    from Suc.IH [OF this nxt] Some Suc.prems show ?thesis by auto
  qed
qed

lemma node_of_JSUndefined [simp]: "node_of h JSUndefined = None"
  by (simp add: node_of_def)

lemma chain_JSUndefined [simp]: "chain d h JSUndefined = []"
  by (cases d) simp_all

lemma find_stopped_loop_chain:
  assumes "visited h seen cur"
    and "\<forall>v \<in> set seen. \<forall>n. node_of h v = Some n \<longrightarrow> \<not> is_run_stopped n"
  shows "find_stopped_loop d h seen cur = find_first_opt is_run_stopped (chain d h cur)"
  using assms
proof (induction d arbitrary: seen cur)
  case 0
  then show ?case by simp
next
  case (Suc d)
  show ?case
  proof (cases "node_of h cur")
    case None
    then show ?thesis by simp
  next
    case (Some n)
    show ?thesis
    proof (cases "is_run_stopped n \<or> cur \<in> set seen")
      case True
      moreover have "find_first_opt is_run_stopped (chain (Suc d) h cur) = None"
        if "cur \<in> set seen"
        using chain_visited [OF Suc.prems(1) that, of "Suc d"] Suc.prems(2)
        by (auto simp: find_first_opt_None)
      ultimately show ?thesis using Some by auto
    next
      case False
      have "find_stopped_loop d h (cur # seen) (next_value n)
            = find_first_opt is_run_stopped (chain d h (next_value n))"
        using Suc.IH [OF visited_step [OF Suc.prems(1) Some]] Suc.prems(2) False Some by auto
      with False Some show ?thesis
        by (auto simp: next_value_def split: option.splits)
    qed
  qed
qed

lemma findRunStoppedError_chain:
  "findRunStoppedError e = find_first_opt is_run_stopped (chain 10 (fst e) (snd e))"
  unfolding findRunStoppedError_def by (rule find_stopped_loop_chain) auto

lemma retryable_loop_chain:
  assumes "visited h seen cur"
    and "\<forall>v \<in> set seen. \<forall>n. node_of h v = Some n \<longrightarrow> en_retryable n = None"
  shows "retryable_loop d h seen cur =
    (case find_first_opt (\<lambda>n. en_retryable n \<noteq> None) (chain d h cur) of
       Some n \<Rightarrow> the (en_retryable n) | None \<Rightarrow> True)"
  using assms
proof (induction d arbitrary: seen cur)
  case 0
  then show ?case by simp
next
  case (Suc d)
  let ?p = "\<lambda>n::err_node. en_retryable n \<noteq> None"
  show ?case
  proof (cases "node_of h cur")
    case None
    then show ?thesis by simp
  next
    case (Some n)
    show ?thesis
    proof (cases "?p n \<or> cur \<in> set seen")
      case True
      moreover have "find_first_opt ?p (chain (Suc d) h cur) = None" if "cur \<in> set seen"
        using chain_visited [OF Suc.prems(1) that, of "Suc d"] Suc.prems(2)
        by (auto simp: find_first_opt_None)
      ultimately show ?thesis using Some by (auto split: option.splits)
    next
      case False
      have "retryable_loop d h (cur # seen) (next_value n) =
          (case find_first_opt ?p (chain d h (next_value n)) of
             Some n \<Rightarrow> the (en_retryable n) | None \<Rightarrow> True)"
        using Suc.IH [OF visited_step [OF Suc.prems(1) Some]] Suc.prems(2) False Some by auto
      with False Some show ?thesis
        by (auto simp: next_value_def split: option.splits)
    qed
  qed
qed

text \<open>
  Classification: a budget or validation error anywhere in the first ten objects decides,
  the outermost first; else a provider error anywhere; else internal.
\<close>

definition classify_spec :: "bool \<Rightarrow> err_node list \<Rightarrow> failure_reason" where
  "classify_spec p ns =
     (case find_first_opt (\<lambda>n. is_budget_node n \<or> is_validation_node n) ns of
        Some n \<Rightarrow> (if is_budget_node n then FAILED_BUDGET_EXHAUSTED else FAILED_VALIDATION)
      | None \<Rightarrow> finish_class (p \<or> (\<exists>n \<in> set ns. is_provider_node n)))"

lemma classify_spec_Cons:
  "classify_spec p (n # ns) =
     (if is_budget_node n then FAILED_BUDGET_EXHAUSTED
      else if is_validation_node n then FAILED_VALIDATION
      else classify_spec (p \<or> is_provider_node n) ns)"
  by (auto simp: classify_spec_def split: option.splits)

lemma classify_loop_chain:
  assumes "visited h seen cur"
    and "\<forall>v \<in> set seen. \<forall>n. node_of h v = Some n \<longrightarrow>
            \<not> is_budget_node n \<and> \<not> is_validation_node n \<and> (is_provider_node n \<longrightarrow> p)"
  shows "classify_loop d h seen p cur = classify_spec p (chain d h cur)"
  using assms
proof (induction d arbitrary: seen cur p)
  case 0
  then show ?case by (simp add: classify_spec_def)
next
  case (Suc d)
  show ?case
  proof (cases "node_of h cur")
    case None
    then show ?thesis by (simp add: classify_spec_def)
  next
    case (Some n)
    show ?thesis
    proof (cases "cur \<in> set seen")
      case True
      have vis: "\<forall>m \<in> set (chain (Suc d) h cur).
          \<not> is_budget_node m \<and> \<not> is_validation_node m \<and> (is_provider_node m \<longrightarrow> p)"
        using chain_visited [OF Suc.prems(1) True, of "Suc d"] Suc.prems(2) by blast
      then have "find_first_opt (\<lambda>n. is_budget_node n \<or> is_validation_node n)
          (chain (Suc d) h cur) = None"
        by (auto simp: find_first_opt_None)
      moreover from vis have "(p \<or> (\<exists>m \<in> set (chain (Suc d) h cur). is_provider_node m)) = p"
        by blast
      ultimately have "classify_spec p (chain (Suc d) h cur) = finish_class p"
        unfolding classify_spec_def by simp
      with True Some show ?thesis by simp
    next
      case False
      show ?thesis
      proof (cases "is_budget_node n \<or> is_validation_node n")
        case True
        with False Some show ?thesis by (auto simp: classify_spec_Cons)
      next
        case decided: False
        have "classify_loop d h (cur # seen) (p \<or> is_provider_node n) (next_value n)
            = classify_spec (p \<or> is_provider_node n) (chain d h (next_value n))"
          using Suc.IH [OF visited_step [OF Suc.prems(1) Some], of "p \<or> is_provider_node n"]
            Suc.prems(2) decided Some by auto
        with False Some decided show ?thesis
          by (simp add: classify_spec_Cons next_value_def)
      qed
    qed
  qed
qed

lemma classifyRunFailure_chain:
  "classifyRunFailure e = classify_spec False (chain 10 (fst e) (snd e))"
  unfolding classifyRunFailure_def by (rule classify_loop_chain) auto

lemma find_validation_loop_chain:
  "find_validation_loop d h cur =
     (case find_first_opt (\<lambda>n. node_validation_failure n \<noteq> None) (chain d h cur) of
        Some n \<Rightarrow> node_validation_failure n | None \<Rightarrow> None)"
  by (induction d arbitrary: cur)
     (auto simp: next_value_def split: option.splits)

lemma findValidationFailure_classified:
  "findValidationFailure e \<noteq> None \<Longrightarrow>
     classifyRunFailure e \<in> {FAILED_VALIDATION, FAILED_BUDGET_EXHAUSTED}"
proof -
  assume "findValidationFailure e \<noteq> None"
  then obtain n where n: "n \<in> set (chain 10 (fst e) (snd e))" "node_validation_failure n \<noteq> None"
    unfolding findValidationFailure_def find_validation_loop_chain
    by (auto dest: find_first_opt_Some split: option.splits)
  then have "is_validation_node n"
    by (auto simp: node_validation_failure_def is_validation_node_def node_name_def
        split: if_splits)
  with n(1) have "find_first_opt (\<lambda>n. is_budget_node n \<or> is_validation_node n)
      (chain 10 (fst e) (snd e)) \<noteq> None"
    by (auto simp: find_first_opt_None)
  then show ?thesis
    unfolding classifyRunFailure_chain classify_spec_def by auto
qed

text \<open>The errors the worker itself throws.\<close>

lemma node_of_throw_node [simp]: "node_of (fst (throw_node n)) (snd (throw_node n)) = Some n"
  by (simp add: throw_node_def node_of_def)

lemma chain_throw_node [simp]:
  "en_cause n = None \<Longrightarrow> chain (Suc d) (fst (throw_node n)) (snd (throw_node n)) = [n]"
  by (simp add: next_value_def)

lemma chain_10_throw_node [simp]:
  "en_cause n = None \<Longrightarrow> chain 10 (fst (throw_node n)) (snd (throw_node n)) = [n]"
  using chain_throw_node [of n 9] by simp

lemma findRunStoppedError_RunStoppedError [simp]:
  "findRunStoppedError (RunStoppedError msg st) =
     Some (plain_error (ClsRunStopped st) ''RunStoppedError'' msg)"
  by (simp add: findRunStoppedError_chain RunStoppedError_def plain_error_def is_run_stopped_def)

lemma findRunStoppedError_other [simp]:
  "findRunStoppedError ZodError = None"
  "findRunStoppedError (GenericError m) = None"
  "findRunStoppedError (PrismaError m) = None"
  "findRunStoppedError (GeneratedFileConflictError p a b) = None"
  by (simp_all add: findRunStoppedError_chain ZodError_def GenericError_def PrismaError_def
      GeneratedFileConflictError_def plain_error_def is_run_stopped_def)

lemma isRetryableError_thrown [simp]:
  "\<not> isRetryableError ZodError"
  "\<not> isRetryableError (GeneratedFileConflictError p a b)"
  "isRetryableError (GenericError m)"
  "isRetryableError (PrismaError m)"
  by (simp_all add: isRetryableError_def ZodError_def GenericError_def PrismaError_def
      GeneratedFileConflictError_def plain_error_def node_of_def throw_node_def numeral_eq_Suc)

end
