(* ===== verification/Database.thy ===== *)
theory Database
  imports WorkerErrors "HOL-Library.AList"
begin

text \<open>
  The PostgreSQL store behind the repositories (\<open>packages/db/prisma/schema.prisma\<close>), as
  far as the modelled repositories use it, and the primitives they share:
  \<open>touchActiveRun\<close> and \<open>appendEvent\<close> of \<open>orchestrator-worker/src/repository.ts\<close> and the
  latest-version lookup of project files.

  A table with a generated key is an association list from keys to rows; \<open>map_of\<close> is a
  lookup by primary key and \<open>AList.update\<close> writes a row. A transaction is a function
  from a database to a thrown error or a result with the next database: a throw returns no
  database, which is the rollback. A statement that would break a unique constraint throws
  the Prisma error P2002, a missing row in \<open>update\<close> or \<open>findUniqueOrThrow\<close> throws P2025.
  The columns \<open>created_at\<close> and \<open>updated_at\<close>, which the database maintains itself, are
  left out.
\<close>

section \<open>Rows\<close>

record run =
  r_workspaceId :: uuid
  r_projectId :: uuid
  r_status :: run_status
  r_prompt :: string
  r_idempotencyKey :: "string option"
  r_eventSequence :: nat
  r_controlVersion :: nat
  r_error :: "json option"
  r_checkpoint :: "json option"
  r_startedAt :: "time option"
  r_pausedAt :: "time option"
  r_completedAt :: "time option"
  r_cancelledAt :: "time option"
  r_lastHeartbeatAt :: "time option"
  r_reminderSentAt :: "time option"
  r_purgedAt :: "time option"

datatype task_status =
    T_PENDING | T_RUNNING | T_WAITING_FOR_APPROVAL | T_COMPLETED | T_FAILED | T_CANCELLED | T_SKIPPED

record task =
  t_runId :: uuid
  t_agentName :: agent_name
  t_description :: string
  t_ordinal :: nat
  t_status :: task_status
  t_attempt :: nat
  t_input :: "json option"
  t_output :: "agent_output option"
  t_error :: "json option"
  t_startedAt :: "time option"
  t_completedAt :: "time option"

record event_row =
  e_runId :: uuid
  e_sequence :: nat
  e_body :: run_event_body

record project_file =
  pf_projectId :: uuid
  pf_path :: string
  pf_content :: string
  pf_version :: nat

datatype artifact_status = VALIDATED | SUPERSEDED

record migration_artifact =
  ma_workspaceId :: uuid
  ma_projectId :: uuid
  ma_sourceRunId :: uuid
  ma_agentTaskId :: uuid
  ma_status :: artifact_status
  ma_schemaPath :: string
  ma_schemaHash :: string
  ma_migrationPaths :: "string list"
  ma_seedPath :: string
  ma_destructive :: bool
  ma_findings :: "severity list"

datatype session_status = S_PROVISIONING | S_VALIDATING | S_READY | S_FAILED | S_TERMINATED

record sandbox_session =
  s_workspaceId :: uuid
  s_projectId :: uuid
  s_runId :: uuid
  s_externalId :: string
  s_attempt :: nat
  s_status :: session_status
  s_expiresAt :: time
  s_error :: "json option"
  s_terminatedAt :: "time option"

record sandbox_command =
  c_sessionId :: uuid
  c_ordinal :: nat
  c_name :: string
  c_command :: string
  c_status :: command_status
  c_exitCode :: int
  c_stdout :: string
  c_stderr :: string
  c_durationMs :: int
  c_startedAt :: time
  c_completedAt :: time

datatype preview_status = P_READY | P_STOPPED

record preview_session =
  p_workspaceId :: uuid
  p_projectId :: uuid
  p_runId :: uuid
  p_status :: preview_status
  p_gatewayUrl :: string
  p_processId :: int
  p_expiresAt :: time
  p_readyAt :: time
  p_stoppedAt :: "time option"
  p_error :: "json option"

record project =
  pj_workspaceId :: uuid
  pj_name :: string
  pj_slug :: string
  pj_description :: "string option"
  pj_type :: project_type
  pj_archivedAt :: "time option"

text \<open>
  An attachment is created when an upload is announced; \<open>at_scanVersion\<close> counts its completed uploads.
  The column \<open>createdAt\<close> is the position in the table.
\<close>

datatype attachment_status =
    AT_AWAITING_UPLOAD | AT_QUARANTINED | AT_SCANNING | AT_CLEAN | AT_REJECTED | AT_FAILED | AT_EXPIRED

record attachment =
  at_workspaceId :: uuid
  at_projectId :: uuid
  at_fileName :: string
  at_declaredContentType :: string
  at_detectedContentType :: "string option"
  at_sizeBytes :: nat
  at_quarantineObjectKey :: string
  at_cleanObjectKey :: "string option"
  at_etag :: "string option"
  at_sha256 :: "string option"
  at_status :: attachment_status
  at_scanVersion :: nat
  at_failureCode :: "string option"
  at_scanMetadata :: "json option"
  at_uploadExpiresAt :: time
  at_scannedAt :: "time option"

record run_attachment =
  ra_runId :: uuid
  ra_attachmentId :: uuid
  ra_fileName :: string
  ra_contentType :: string
  ra_sizeBytes :: nat
  ra_sha256 :: string
  ra_objectKey :: string

record db =
  runs :: "(uuid \<times> run) list"
  tasks :: "(uuid \<times> task) list"
  events :: "event_row list"
  files :: "project_file list"
  artifacts :: "(uuid \<times> migration_artifact) list"
  sessions :: "(uuid \<times> sandbox_session) list"
  commands :: "sandbox_command list"
  previews :: "(uuid \<times> preview_session) list"
  projects :: "(uuid \<times> project) list"
  workspace_plans :: "(uuid \<times> workspace_plan) list"
  memberships :: "((uuid \<times> uuid) \<times> workspace_role) list"
  attachments :: "(uuid \<times> attachment) list"
  run_attachments :: "run_attachment list"
  next_id :: uuid

definition empty_db :: db where
  "empty_db = \<lparr>runs = [], tasks = [], events = [], files = [], artifacts = [], sessions = [],
     commands = [], previews = [], projects = [], workspace_plans = [], memberships = [],
     attachments = [], run_attachments = [], next_id = 1\<rparr>"

type_synonym 'a tx = "db \<Rightarrow> thrown + 'a \<times> db"

abbreviation run_of :: "db \<Rightarrow> uuid \<Rightarrow> run option" where
  "run_of d i \<equiv> map_of (runs d) i"

abbreviation task_of :: "db \<Rightarrow> uuid \<Rightarrow> task option" where
  "task_of d i \<equiv> map_of (tasks d) i"

definition set_run :: "uuid \<Rightarrow> run \<Rightarrow> db \<Rightarrow> db" where
  "set_run i r d = d\<lparr>runs := AList.update i r (runs d)\<rparr>"

definition set_task :: "uuid \<Rightarrow> task \<Rightarrow> db \<Rightarrow> db" where
  "set_task i t d = d\<lparr>tasks := AList.update i t (tasks d)\<rparr>"

lemma run_of_set_run [simp]: "run_of (set_run i r d) = (run_of d)(i \<mapsto> r)"
  by (rule ext) (simp add: set_run_def update_conv)

lemma task_of_set_task [simp]: "task_of (set_task i t d) = (task_of d)(i \<mapsto> t)"
  by (rule ext) (simp add: set_task_def update_conv)

lemma set_run_frame [simp]:
  "tasks (set_run i r d) = tasks d" "events (set_run i r d) = events d"
  "files (set_run i r d) = files d" "next_id (set_run i r d) = next_id d"
  "artifacts (set_run i r d) = artifacts d" "sessions (set_run i r d) = sessions d"
  "commands (set_run i r d) = commands d" "previews (set_run i r d) = previews d"
  "projects (set_run i r d) = projects d" "workspace_plans (set_run i r d) = workspace_plans d"
  "memberships (set_run i r d) = memberships d" "attachments (set_run i r d) = attachments d"
  "run_attachments (set_run i r d) = run_attachments d"
  by (simp_all add: set_run_def)

lemma set_task_frame [simp]:
  "runs (set_task i t d) = runs d" "events (set_task i t d) = events d"
  "files (set_task i t d) = files d" "next_id (set_task i t d) = next_id d"
  "artifacts (set_task i t d) = artifacts d" "sessions (set_task i t d) = sessions d"
  "projects (set_task i t d) = projects d" "memberships (set_task i t d) = memberships d"
  "previews (set_task i t d) = previews d" "workspace_plans (set_task i t d) = workspace_plans d"
  by (simp_all add: set_task_def)

section \<open>Statements\<close>

text \<open>\<open>agentRun.updateMany\<close> with the primary key and a predicate: the compare-and-set.\<close>

definition updateMany_run :: "uuid \<Rightarrow> (run \<Rightarrow> bool) \<Rightarrow> (run \<Rightarrow> run) \<Rightarrow> db \<Rightarrow> nat \<times> db" where
  "updateMany_run i q f d =
     (case run_of d i of
        Some r \<Rightarrow> (if q r then (1, set_run i (f r) d) else (0, d))
      | None \<Rightarrow> (0, d))"

lemma updateMany_run_eq1:
  "updateMany_run i q f d = (n, d') \<Longrightarrow> n = 1 \<longleftrightarrow> (\<exists>r. run_of d i = Some r \<and> q r)"
  by (auto simp: updateMany_run_def split: option.splits if_splits)

definition touchActiveRun :: "uuid \<Rightarrow> nat \<Rightarrow> time \<Rightarrow> db \<Rightarrow> bool \<times> db" where
  "touchActiveRun i cv now d =
     (let (n, d') = updateMany_run i (\<lambda>r. r_status r = RUNNING \<and> r_controlVersion r = cv)
                      (\<lambda>r. r\<lparr>r_lastHeartbeatAt := Some now\<rparr>) d
      in (n = 1, d'))"

definition appendEvent :: "uuid \<Rightarrow> run_event_body \<Rightarrow> db \<Rightarrow> thrown + db" where
  "appendEvent i body d =
     (case validateRunEventPayload body of
        None \<Rightarrow> Inl ZodError
      | Some b \<Rightarrow>
          (case run_of d i of
             None \<Rightarrow> Inl (PrismaError ''P2025'')
           | Some r \<Rightarrow>
               (let s = Suc (r_eventSequence r);
                    d' = set_run i (r\<lparr>r_eventSequence := s\<rparr>) d
                in if list_ex (\<lambda>e. e_runId e = i \<and> e_sequence e = s) (events d)
                   then Inl (PrismaError ''P2002'')
                   else Inr (d'\<lparr>events := events d @ [\<lparr>e_runId = i, e_sequence = s, e_body = b\<rparr>]\<rparr>))))"

fun appendEvents :: "uuid \<Rightarrow> run_event_body list \<Rightarrow> db \<Rightarrow> thrown + db" where
  "appendEvents i [] d = Inr d"
| "appendEvents i (b # bs) d = bind_res (appendEvent i b d) (appendEvents i bs)"

text \<open>\<open>findFirst\<close> ordered by descending version.\<close>

fun max_version :: "project_file list \<Rightarrow> project_file option" where
  "max_version [] = None"
| "max_version (f # fs) =
     (case max_version fs of
        None \<Rightarrow> Some f
      | Some g \<Rightarrow> (if pf_version g < pf_version f then Some f else Some g))"

definition file_rows :: "uuid \<Rightarrow> string \<Rightarrow> db \<Rightarrow> project_file list" where
  "file_rows pid path d = filter (\<lambda>f. pf_projectId f = pid \<and> pf_path f = path) (files d)"

definition latest_file :: "uuid \<Rightarrow> string \<Rightarrow> db \<Rightarrow> project_file option" where
  "latest_file pid path d = max_version (file_rows pid path d)"

definition create_file :: "project_file \<Rightarrow> db \<Rightarrow> thrown + db" where
  "create_file f d =
     (if list_ex (\<lambda>g. pf_projectId g = pf_projectId f \<and> pf_path g = pf_path f \<and>
                      pf_version g = pf_version f) (files d)
      then Inl (PrismaError ''P2002'')
      else Inr (d\<lparr>files := files d @ [f]\<rparr>))"

text \<open>\<open>agentTask.findUnique\<close> by the key (run, ordinal), and \<open>agentTask.create\<close>.\<close>

definition task_at :: "uuid \<Rightarrow> nat \<Rightarrow> db \<Rightarrow> (uuid \<times> task) option" where
  "task_at i ord d = find_first_opt (\<lambda>(k, t). t_runId t = i \<and> t_ordinal t = ord) (tasks d)"

definition create_task :: "task \<Rightarrow> db \<Rightarrow> thrown + uuid \<times> db" where
  "create_task t d =
     (case task_at (t_runId t) (t_ordinal t) d of
        Some _ \<Rightarrow> Inl (PrismaError ''P2002'')
      | None \<Rightarrow> Inr (next_id d, d\<lparr>tasks := AList.update (next_id d) t (tasks d), next_id := Suc (next_id d)\<rparr>))"

section \<open>The store invariant\<close>

text \<open>
  What every transaction keeps: the events of a run are numbered 1, 2, \<open>\<dots>\<close>,
  \<open>event_sequence\<close> in the order they were written, so replay after any sequence number is
  complete and in order; the versions of a path are 1, 2, \<open>\<dots>\<close> with no gap, so version
  zero means exactly that the path does not exist; keys are unique and below the next
  fresh one; a run has one task per ordinal.
\<close>

definition events_ok :: "db \<Rightarrow> bool" where
  "events_ok d \<longleftrightarrow> (\<forall>i. map e_sequence (filter (\<lambda>e. e_runId e = i) (events d)) =
      (case run_of d i of None \<Rightarrow> [] | Some r \<Rightarrow> [1..<Suc (r_eventSequence r)]))"

definition files_ok :: "db \<Rightarrow> bool" where
  "files_ok d \<longleftrightarrow> (\<forall>pid path. map pf_version (file_rows pid path d) =
      [1..<Suc (length (file_rows pid path d))])"

definition keys_ok :: "db \<Rightarrow> bool" where
  "keys_ok d \<longleftrightarrow> distinct (map fst (runs d)) \<and> distinct (map fst (tasks d)) \<and>
     (\<forall>k \<in> fst ` set (runs d). k < next_id d) \<and> (\<forall>k \<in> fst ` set (tasks d). k < next_id d) \<and>
     (\<forall>k \<in> fst ` set (artifacts d). k < next_id d) \<and> (\<forall>k \<in> fst ` set (sessions d). k < next_id d)"

definition tasks_ok :: "db \<Rightarrow> bool" where
  "tasks_ok d \<longleftrightarrow> (\<forall>k1 k2 t1 t2. task_of d k1 = Some t1 \<longrightarrow> task_of d k2 = Some t2 \<longrightarrow>
      t_runId t1 = t_runId t2 \<longrightarrow> t_ordinal t1 = t_ordinal t2 \<longrightarrow> k1 = k2)"

definition db_ok :: "db \<Rightarrow> bool" where
  "db_ok d \<longleftrightarrow> events_ok d \<and> files_ok d \<and> keys_ok d \<and> tasks_ok d"

lemma db_ok_empty [simp]: "db_ok empty_db"
  by (simp add: db_ok_def events_ok_def files_ok_def keys_ok_def tasks_ok_def empty_db_def
      file_rows_def)

text \<open>Frames: parts of the invariant that do not read what a statement writes.\<close>

lemma events_ok_cong:
  assumes "events d' = events d"
    and "\<And>i. map_option r_eventSequence (run_of d' i) = map_option r_eventSequence (run_of d i)"
  shows "events_ok d' = events_ok d"
proof -
  have "(case run_of d' i of None \<Rightarrow> [] | Some r \<Rightarrow> [1..<Suc (r_eventSequence r)])
      = (case run_of d i of None \<Rightarrow> [] | Some r \<Rightarrow> [1..<Suc (r_eventSequence r)])" for i
    using assms(2) [of i] by (cases "run_of d' i"; cases "run_of d i") auto
  with assms(1) show ?thesis by (simp add: events_ok_def)
qed

lemma files_ok_cong: "files d' = files d \<Longrightarrow> files_ok d' = files_ok d"
  by (simp add: files_ok_def file_rows_def)

lemma tasks_ok_cong: "tasks d' = tasks d \<Longrightarrow> tasks_ok d' = tasks_ok d"
  by (simp add: tasks_ok_def)

lemma fst_set_update: "fst ` set (AList.update k v al) = insert k (fst ` set al)"
  by (induction al) auto

lemma db_ok_set_run:
  assumes "db_ok d" and "run_of d i = Some r" and "r_eventSequence r' = r_eventSequence r"
  shows "db_ok (set_run i r' d)"
proof -
  have "i \<in> fst ` set (runs d)" using assms(2) by (metis domI dom_map_of_conv_image_fst)
  then have "keys_ok (set_run i r' d)"
    using assms(1)
    by (auto simp: db_ok_def keys_ok_def set_run_def fst_set_update distinct_update)
  moreover have "events_ok (set_run i r' d) = events_ok d"
    using assms(2,3) by (intro events_ok_cong) auto
  moreover have "files_ok (set_run i r' d) = files_ok d" by (rule files_ok_cong) simp
  moreover have "tasks_ok (set_run i r' d) = tasks_ok d" by (rule tasks_ok_cong) simp
  ultimately show ?thesis using assms(1) by (simp add: db_ok_def)
qed

lemma db_ok_updateMany_run [inv_intros]:
  assumes "db_ok d" and "updateMany_run i q f d = (n, d')"
    and "\<And>r. r_eventSequence (f r) = r_eventSequence r"
  shows "db_ok d'"
  using assms by (auto simp: updateMany_run_def db_ok_set_run split: option.splits if_splits)

lemma db_ok_touch [inv_intros]: "db_ok d \<Longrightarrow> touchActiveRun i cv now d = (b, d') \<Longrightarrow> db_ok d'"
  by (auto simp: touchActiveRun_def split: prod.splits intro: db_ok_updateMany_run)

lemma touchActiveRun_True:
  "touchActiveRun i cv now d = (True, d') \<longleftrightarrow>
     (\<exists>r. run_of d i = Some r \<and> r_status r = RUNNING \<and> r_controlVersion r = cv \<and>
          d' = set_run i (r\<lparr>r_lastHeartbeatAt := Some now\<rparr>) d)"
  by (auto simp: touchActiveRun_def updateMany_run_def split: option.splits)

lemma touchActiveRun_False:
  "touchActiveRun i cv now d = (False, d') \<longleftrightarrow>
     d' = d \<and> \<not> (\<exists>r. run_of d i = Some r \<and> r_status r = RUNNING \<and> r_controlVersion r = cv)"
  by (auto simp: touchActiveRun_def updateMany_run_def split: option.splits)

text \<open>Under the invariant the unique constraint on (run, sequence) never fires.\<close>

lemma events_ok_fresh:
  assumes "events_ok d" and "run_of d i = Some r"
  shows "\<not> list_ex (\<lambda>e. e_runId e = i \<and> e_sequence e = Suc (r_eventSequence r)) (events d)"
proof
  assume "list_ex (\<lambda>e. e_runId e = i \<and> e_sequence e = Suc (r_eventSequence r)) (events d)"
  then have "Suc (r_eventSequence r) \<in> set (map e_sequence (filter (\<lambda>e. e_runId e = i) (events d)))"
    by (force simp: list_ex_iff)
  moreover have "map e_sequence (filter (\<lambda>e. e_runId e = i) (events d)) = [1..<Suc (r_eventSequence r)]"
    using assms by (simp add: events_ok_def)
  ultimately have "Suc (r_eventSequence r) \<in> set [1..<Suc (r_eventSequence r)]" by simp
  then show False by simp
qed

lemma appendEvent_Inr:
  "appendEvent i body d = Inr d' \<longleftrightarrow>
     (\<exists>b r. validateRunEventPayload body = Some b \<and> run_of d i = Some r \<and>
        \<not> list_ex (\<lambda>e. e_runId e = i \<and> e_sequence e = Suc (r_eventSequence r)) (events d) \<and>
        d' = (set_run i (r\<lparr>r_eventSequence := Suc (r_eventSequence r)\<rparr>) d)
               \<lparr>events := events d @ [\<lparr>e_runId = i, e_sequence = Suc (r_eventSequence r), e_body = b\<rparr>]\<rparr>)"
  by (auto simp: appendEvent_def Let_def split: option.splits if_splits)

lemma appendEvent_total:
  assumes "events_ok d" and "run_of d i = Some r" and "validateRunEventPayload body = Some b"
  shows "appendEvent i body d =
    Inr ((set_run i (r\<lparr>r_eventSequence := Suc (r_eventSequence r)\<rparr>) d)
           \<lparr>events := events d @ [\<lparr>e_runId = i, e_sequence = Suc (r_eventSequence r), e_body = b\<rparr>]\<rparr>)"
  using assms events_ok_fresh [OF assms(1,2)] by (simp add: appendEvent_def)

lemma db_ok_appendEvent [inv_intros]:
  assumes ok: "db_ok d" and app: "appendEvent i body d = Inr d'"
  shows "db_ok d'"
proof -
  from app obtain b r where r: "run_of d i = Some r"
    and d': "d' = (set_run i (r\<lparr>r_eventSequence := Suc (r_eventSequence r)\<rparr>) d)
        \<lparr>events := events d @ [\<lparr>e_runId = i, e_sequence = Suc (r_eventSequence r), e_body = b\<rparr>]\<rparr>"
    by (auto simp: appendEvent_Inr)
  have "i \<in> fst ` set (runs d)" using r by (metis domI dom_map_of_conv_image_fst)
  then have "keys_ok d'"
    using ok by (auto simp: d' db_ok_def keys_ok_def set_run_def fst_set_update distinct_update)
  moreover have "events_ok d'"
    using ok r by (auto simp: d' db_ok_def events_ok_def set_run_def update_conv')
  moreover have "files_ok d' = files_ok d" by (rule files_ok_cong) (simp add: d')
  moreover have "tasks_ok d' = tasks_ok d" by (rule tasks_ok_cong) (simp add: d')
  ultimately show ?thesis using ok by (simp add: db_ok_def)
qed

lemma db_ok_appendEvents [inv_intros]:
  "db_ok d \<Longrightarrow> appendEvents i bs d = Inr d' \<Longrightarrow> db_ok d'"
  by (induction bs arbitrary: d) (auto simp: bind_res_Inr_iff dest: db_ok_appendEvent)

lemma appendEvent_frame:
  assumes "appendEvent i body d = Inr d'"
  shows "tasks d' = tasks d" and "files d' = files d" and "artifacts d' = artifacts d"
    and "sessions d' = sessions d" and "next_id d' = next_id d" and "projects d' = projects d"
    and "memberships d' = memberships d" and "workspace_plans d' = workspace_plans d" and "previews d' = previews d"
  using assms by (auto simp: appendEvent_Inr)

text \<open>An event changes no column of a run but its event counter.\<close>

definition same_run_control :: "run \<Rightarrow> run \<Rightarrow> bool" where
  "same_run_control r r' \<longleftrightarrow> r'\<lparr>r_eventSequence := 0, r_lastHeartbeatAt := None\<rparr>
     = r\<lparr>r_eventSequence := 0, r_lastHeartbeatAt := None\<rparr>"

lemma same_run_control_refl [simp]: "same_run_control r r"
  by (simp add: same_run_control_def)

lemma same_run_control_trans:
  "same_run_control r s \<Longrightarrow> same_run_control s t \<Longrightarrow> same_run_control r t"
  by (simp add: same_run_control_def)

lemma same_run_control_upd [simp]:
  "same_run_control r (r\<lparr>r_eventSequence := n\<rparr>)" "same_run_control r (r\<lparr>r_lastHeartbeatAt := h\<rparr>)"
  by (simp_all add: same_run_control_def)

lemma same_run_controlD:
  assumes "same_run_control r r'"
  shows "r_status r' = r_status r" "r_controlVersion r' = r_controlVersion r"
    "r_projectId r' = r_projectId r" "r_workspaceId r' = r_workspaceId r"
    "r_pausedAt r' = r_pausedAt r" "r_reminderSentAt r' = r_reminderSentAt r"
    "r_error r' = r_error r" "r_prompt r' = r_prompt r" "r_startedAt r' = r_startedAt r"
    "r_completedAt r' = r_completedAt r" "r_cancelledAt r' = r_cancelledAt r"
    "r_idempotencyKey r' = r_idempotencyKey r" "r_purgedAt r' = r_purgedAt r"
  using assms by (cases r; cases r'; simp add: same_run_control_def)+

text \<open>
  The run table of one database refines another's: same runs, and nothing of them changed
  except event counters and heartbeats. Worker transactions that do not end a run are of
  this kind.
\<close>

definition runs_kept :: "db \<Rightarrow> db \<Rightarrow> bool" where
  "runs_kept d d' \<longleftrightarrow> (\<forall>i. rel_option same_run_control (run_of d i) (run_of d' i))"

lemma runs_kept_refl [simp]: "runs_kept d d"
  by (simp add: runs_kept_def option.rel_refl)

lemma runs_kept_trans: "runs_kept d d1 \<Longrightarrow> runs_kept d1 d2 \<Longrightarrow> runs_kept d d2"
  unfolding runs_kept_def
proof
  fix i
  assume "\<forall>i. rel_option same_run_control (run_of d i) (run_of d1 i)"
    and "\<forall>i. rel_option same_run_control (run_of d1 i) (run_of d2 i)"
  then have "rel_option same_run_control (run_of d i) (run_of d1 i)"
    and "rel_option same_run_control (run_of d1 i) (run_of d2 i)" by blast+
  then show "rel_option same_run_control (run_of d i) (run_of d2 i)"
    by (auto simp: option_rel_Some1 option_rel_Some2 elim!: option.rel_cases
        intro: same_run_control_trans)
qed

lemma runs_kept_eq: "runs d' = runs d \<Longrightarrow> runs_kept d d'"
  by (simp add: runs_kept_def option.rel_refl)

lemma runs_kept_set_run:
  "run_of d i = Some r \<Longrightarrow> same_run_control r r' \<Longrightarrow> runs_kept d (set_run i r' d)"
  by (simp add: runs_kept_def option.rel_refl)

lemma runs_kept_touch: "touchActiveRun i cv now d = (b, d') \<Longrightarrow> runs_kept d d'"
  by (cases b) (auto simp: touchActiveRun_True touchActiveRun_False runs_kept_set_run)

lemma runs_kept_appendEvent: "appendEvent i body d = Inr d' \<Longrightarrow> runs_kept d d'"
  by (auto simp: appendEvent_Inr runs_kept_def option.rel_refl set_run_def update_conv')

lemma runs_kept_appendEvents: "appendEvents i bs d = Inr d' \<Longrightarrow> runs_kept d d'"
  by (induction bs arbitrary: d)
     (auto simp: bind_res_Inr_iff dest: runs_kept_appendEvent intro: runs_kept_trans)

section \<open>Project files\<close>

lemma max_version_None [simp]: "max_version fs = None \<longleftrightarrow> fs = []"
  by (cases fs) (auto split: option.splits)

lemma max_version_Some:
  "max_version fs = Some f \<Longrightarrow> f \<in> set fs \<and> (\<forall>g \<in> set fs. pf_version g \<le> pf_version f)"
proof (induction fs arbitrary: f)
  case Nil
  then show ?case by simp
next
  case (Cons x xs)
  show ?case
  proof (cases "max_version xs")
    case None
    with Cons.prems show ?thesis by simp
  next
    case (Some g)
    from Cons.IH [OF Some] have "g \<in> set xs" "\<forall>h \<in> set xs. pf_version h \<le> pf_version g" by auto
    with Cons.prems Some show ?thesis by (fastforce split: if_splits)
  qed
qed

text \<open>The version of the latest revision of a path is the number of its revisions.\<close>

definition current_version :: "uuid \<Rightarrow> string \<Rightarrow> db \<Rightarrow> nat" where
  "current_version pid path d = (case latest_file pid path d of None \<Rightarrow> 0 | Some f \<Rightarrow> pf_version f)"

lemma current_version_length:
  assumes "files_ok d"
  shows "current_version pid path d = length (file_rows pid path d)"
proof (cases "latest_file pid path d")
  case None
  then show ?thesis by (simp add: current_version_def latest_file_def)
next
  case (Some f)
  let ?rows = "file_rows pid path d"
  from assms have vs: "map pf_version ?rows = [1..<Suc (length ?rows)]"
    by (simp add: files_ok_def)
  from Some have f: "f \<in> set ?rows" "\<forall>g \<in> set ?rows. pf_version g \<le> pf_version f"
    by (auto simp: latest_file_def dest: max_version_Some)
  then have "?rows \<noteq> []" by auto
  then have "length ?rows \<in> set (map pf_version ?rows)" by (simp add: vs Suc_le_eq)
  then have "length ?rows \<le> pf_version f" using f(2) by auto
  moreover from f(1) have "pf_version f \<in> set (map pf_version ?rows)" by simp
  then have "pf_version f \<le> length ?rows" unfolding vs by auto
  ultimately show ?thesis using Some by (simp add: current_version_def)
qed

lemma db_ok_create_file [inv_intros]:
  assumes ok: "db_ok d" and cf: "create_file f d = Inr d'"
    and v: "pf_version f = Suc (current_version (pf_projectId f) (pf_path f) d)"
  shows "db_ok d'"
proof -
  from cf have d': "d' = d\<lparr>files := files d @ [f]\<rparr>"
    by (auto simp: create_file_def split: if_splits)
  have fok: "files_ok d" using ok by (simp add: db_ok_def)
  have "files_ok d'"
    unfolding files_ok_def
  proof (intro allI)
    fix pid path
    have rows: "file_rows pid path d' = file_rows pid path d @
        (if pf_projectId f = pid \<and> pf_path f = path then [f] else [])"
      by (simp add: d' file_rows_def)
    have "map pf_version (file_rows pid path d) = [1..<Suc (length (file_rows pid path d))]"
      using fok by (simp add: files_ok_def)
    then show "map pf_version (file_rows pid path d') = [1..<Suc (length (file_rows pid path d'))]"
      using v current_version_length [OF fok] by (simp add: rows)
  qed
  moreover have "events_ok d' = events_ok d" by (rule events_ok_cong) (simp_all add: d')
  moreover have "tasks_ok d' = tasks_ok d" by (rule tasks_ok_cong) (simp add: d')
  moreover have "keys_ok d' = keys_ok d" by (simp add: d' keys_ok_def)
  ultimately show ?thesis using ok by (simp add: db_ok_def)
qed

text \<open>The next version is always free: under the invariant a create at it cannot conflict.\<close>

lemma create_file_next:
  assumes "files_ok d" and "pf_version f = Suc (current_version (pf_projectId f) (pf_path f) d)"
  shows "create_file f d = Inr (d\<lparr>files := files d @ [f]\<rparr>)"
proof -
  let ?rows = "file_rows (pf_projectId f) (pf_path f) d"
  have "map pf_version ?rows = [1..<Suc (length ?rows)]"
    using assms(1) by (simp add: files_ok_def)
  then have "\<forall>g \<in> set ?rows. pf_version g \<in> set [1..<Suc (length ?rows)]"
    by (metis image_eqI set_map)
  then have "\<forall>g \<in> set ?rows. pf_version g \<noteq> pf_version f"
    using assms(2) current_version_length [OF assms(1)] by fastforce
  then show ?thesis
    by (auto simp: create_file_def list_ex_iff file_rows_def)
qed

section \<open>Tasks\<close>

lemma task_at_Some:
  "task_at i ord d = Some (k, t) \<Longrightarrow> (k, t) \<in> set (tasks d) \<and> t_runId t = i \<and> t_ordinal t = ord"
  by (auto simp: task_at_def dest: find_first_opt_Some)

lemma task_at_task_of:
  "keys_ok d \<Longrightarrow> task_at i ord d = Some (k, t) \<Longrightarrow> task_of d k = Some t"
  by (auto simp: keys_ok_def dest!: task_at_Some)

lemma task_at_None:
  "task_at i ord d = None \<Longrightarrow> task_of d k = Some t \<Longrightarrow> \<not> (t_runId t = i \<and> t_ordinal t = ord)"
  by (auto simp: task_at_def find_first_opt_None dest: map_of_SomeD)

lemma db_ok_set_task [inv_intros]:
  assumes ok: "db_ok d" and t: "task_of d k = Some t"
    and same: "t_runId t' = t_runId t" "t_ordinal t' = t_ordinal t"
  shows "db_ok (set_task k t' d)"
proof -
  have "k \<in> fst ` set (tasks d)" using t by (metis domI dom_map_of_conv_image_fst)
  then have "keys_ok (set_task k t' d)"
    using ok by (auto simp: db_ok_def keys_ok_def set_task_def fst_set_update distinct_update)
  moreover have "events_ok (set_task k t' d) = events_ok d" by (rule events_ok_cong) simp_all
  moreover have "files_ok (set_task k t' d) = files_ok d" by (rule files_ok_cong) simp
  moreover have "tasks_ok (set_task k t' d)"
  proof -
    have tk: "tasks_ok d" using ok by (simp add: db_ok_def)
    then show ?thesis
      using t same unfolding tasks_ok_def task_of_set_task
      by (metis (no_types, opaque_lifting) fun_upd_apply option.inject)
  qed
  ultimately show ?thesis using ok by (simp add: db_ok_def)
qed

lemma create_task_Inr:
  "create_task t d = Inr (k, d') \<longleftrightarrow>
     task_at (t_runId t) (t_ordinal t) d = None \<and> k = next_id d \<and>
     d' = d\<lparr>tasks := AList.update (next_id d) t (tasks d), next_id := Suc (next_id d)\<rparr>"
  by (auto simp: create_task_def split: option.splits)

lemma db_ok_create_task [inv_intros]:
  assumes ok: "db_ok d" and ct: "create_task t d = Inr (k, d')"
  shows "db_ok d'"
proof -
  from ct have none: "task_at (t_runId t) (t_ordinal t) d = None"
    and d': "d' = d\<lparr>tasks := AList.update (next_id d) t (tasks d), next_id := Suc (next_id d)\<rparr>"
    by (auto simp: create_task_Inr)
  have keys: "keys_ok d" and tk: "tasks_ok d" using ok by (auto simp: db_ok_def)
  have "keys_ok d'"
    using keys by (auto simp: d' keys_ok_def fst_set_update distinct_update less_Suc_eq)
  moreover have "events_ok d' = events_ok d" by (rule events_ok_cong) (simp_all add: d')
  moreover have "files_ok d' = files_ok d" by (rule files_ok_cong) (simp add: d')
  moreover have "tasks_ok d'"
  proof -
    have upd: "task_of d' = (task_of d)(next_id d \<mapsto> t)" by (rule ext) (simp add: d' update_conv)
    have "\<And>j u. task_of d j = Some u \<Longrightarrow> \<not> (t_runId u = t_runId t \<and> t_ordinal u = t_ordinal t)"
      using task_at_None [OF none] by blast
    with tk show ?thesis
      unfolding tasks_ok_def upd
      by (metis (no_types, lifting) fun_upd_apply option.inject)
  qed
  ultimately show ?thesis using ok by (simp add: db_ok_def)
qed

end
