(* ===== verification/RunRepository.thy ===== *)
theory RunRepository
  imports Database "HOL-Library.Char_ord" "HOL-Library.List_Lexorder"
begin

text \<open>
  \<open>PrismaWorkerRepository\<close> of \<open>orchestrator-worker/src/repository.ts\<close>: the transactions by
  which a worker drives a run. Every one of them is a function of type \<open>'a tx\<close>; one that
  starts with \<open>touchActiveRun\<close> is atomic here, because the compare-and-set it starts with
  holds the row lock of the run until it commits. \<open>claimRun\<close> reads before it locks, so it
  takes the interference between its read and its compare-and-set as an argument.

  Parameters: \<open>json_ok\<close> (\<open>JSON.parse\<close> succeeds), \<open>sha256\<close> (\<open>createHash("sha256")\<close> of
  \<open>node:crypto\<close>, hexadecimal) and \<open>output_json\<close>, the JSON value a typed agent output is.
\<close>

record externals =
  json_ok :: "string \<Rightarrow> bool"
  sha256 :: "string \<Rightarrow> string"
  output_json :: "agent_output \<Rightarrow> json"

section \<open>Claiming a run\<close>

record run_execution =
  x_id :: uuid
  x_workspaceId :: uuid
  x_projectId :: uuid
  x_status :: run_status
  x_prompt :: string
  x_controlVersion :: nat

definition toRunExecutionRecord :: "uuid \<Rightarrow> run \<Rightarrow> run_execution" where
  "toRunExecutionRecord i r =
     \<lparr>x_id = i, x_workspaceId = r_workspaceId r, x_projectId = r_projectId r,
      x_status = r_status r, x_prompt = r_prompt r, x_controlVersion = r_controlVersion r\<rparr>"

datatype claim_result = Ready run_execution | Missing | Stale run_status nat

definition claimRun :: "(db \<Rightarrow> db) \<Rightarrow> run_job \<Rightarrow> time \<Rightarrow> claim_result tx" where
  "claimRun env job now d =
     (case run_of d (job_runId job) of
        None \<Rightarrow> Inr (Missing, d)
      | Some cur \<Rightarrow>
          (if r_status cur = RUNNING \<and> r_controlVersion cur = job_controlVersion job + 1
           then Inr (Ready (toRunExecutionRecord (job_runId job) cur), d)
           else if r_status cur \<noteq> PENDING \<or> r_controlVersion cur \<noteq> job_controlVersion job
           then Inr (Stale (r_status cur) (r_controlVersion cur), d)
           else
             (let (n, d1) = updateMany_run (job_runId job)
                    (\<lambda>r. r_status r = PENDING \<and> r_controlVersion r = job_controlVersion job)
                    (\<lambda>r. r\<lparr>r_status := RUNNING, r_controlVersion := r_controlVersion r + 1,
                           r_startedAt := Some (case r_startedAt cur of Some t \<Rightarrow> t | None \<Rightarrow> now),
                           r_lastHeartbeatAt := Some now\<rparr>) (env d)
              in case run_of d1 (job_runId job) of
                   None \<Rightarrow> Inl (PrismaError ''P2025'')
                 | Some r \<Rightarrow>
                     (if n \<noteq> 1 then Inr (Stale (r_status r) (r_controlVersion r), d1)
                      else bind_res
                             (appendEvent (job_runId job)
                                (RunStatusChanged PENDING RUNNING (job_command job) (r_controlVersion r)) d1)
                             (\<lambda>d2. Inr (Ready (toRunExecutionRecord (job_runId job) r), d2))))))"

section \<open>Tasks\<close>

record worker_task =
  wt_id :: uuid
  wt_runId :: uuid
  wt_agentName :: agent_name
  wt_description :: string
  wt_ordinal :: nat
  wt_status :: task_status
  wt_attempt :: nat
  wt_output :: "agent_output option"

definition toWorkerTaskRecord :: "uuid \<Rightarrow> task \<Rightarrow> worker_task" where
  "toWorkerTaskRecord k t =
     \<lparr>wt_id = k, wt_runId = t_runId t, wt_agentName = t_agentName t,
      wt_description = t_description t, wt_ordinal = t_ordinal t, wt_status = t_status t,
      wt_attempt = t_attempt t, wt_output = t_output t\<rparr>"

record prepare_task_input =
  pt_runId :: uuid
  pt_expectedControlVersion :: nat
  pt_agentName :: agent_name
  pt_description :: string
  pt_ordinal :: nat
  pt_input :: json
  pt_now :: time
  pt_skipReason :: "skip_reason option"

datatype task_result = TaskOk worker_task | TaskStopped

definition new_task :: "prepare_task_input \<Rightarrow> task_status \<Rightarrow> task" where
  "new_task i st =
     \<lparr>t_runId = pt_runId i, t_agentName = pt_agentName i, t_description = pt_description i,
      t_ordinal = pt_ordinal i, t_status = st, t_attempt = 0, t_input = Some (pt_input i),
      t_output = None, t_error = None, t_startedAt = None, t_completedAt = None\<rparr>"

definition prepareTask :: "prepare_task_input \<Rightarrow> task_result tx" where
  "prepareTask i d =
     (let (active, d1) = touchActiveRun (pt_runId i) (pt_expectedControlVersion i) (pt_now i) d
      in if \<not> active then Inr (TaskStopped, d1)
         else case task_at (pt_runId i) (pt_ordinal i) d1 of
                Some (k, t) \<Rightarrow> Inr (TaskOk (toWorkerTaskRecord k t), d1)
              | None \<Rightarrow>
                  bind_res (create_task (new_task i T_PENDING) d1) (\<lambda>(k, d2).
                  bind_res (appendEvent (pt_runId i)
                      (TaskCreated k (pt_agentName i) (pt_ordinal i) (pt_description i)) d2) (\<lambda>d3.
                  Inr (TaskOk (toWorkerTaskRecord k (new_task i T_PENDING)), d3))))"

definition skipTask :: "prepare_task_input \<Rightarrow> task_result tx" where
  "skipTask i d =
     (let (active, d1) = touchActiveRun (pt_runId i) (pt_expectedControlVersion i) (pt_now i) d
      in if \<not> active then Inr (TaskStopped, d1)
         else case task_at (pt_runId i) (pt_ordinal i) d1 of
                Some (k, t) \<Rightarrow> Inr (TaskOk (toWorkerTaskRecord k t), d1)
              | None \<Rightarrow>
                  bind_res (create_task (new_task i T_SKIPPED) d1) (\<lambda>(k, d2).
                  bind_res (appendEvent (pt_runId i)
                      (TaskSkipped k (pt_agentName i) (pt_ordinal i) (pt_description i) (pt_skipReason i)) d2)
                    (\<lambda>d3. Inr (TaskOk (toWorkerTaskRecord k (new_task i T_SKIPPED)), d3))))"

definition startTask :: "uuid \<Rightarrow> nat \<Rightarrow> uuid \<Rightarrow> time \<Rightarrow> task_result tx" where
  "startTask runId cv taskId now d =
     (let (active, d1) = touchActiveRun runId cv now d
      in if \<not> active then Inr (TaskStopped, d1)
         else case task_of d1 taskId of
                None \<Rightarrow> Inl (PrismaError ''P2025'')
              | Some t \<Rightarrow>
                  (if t_status t = T_COMPLETED then Inr (TaskOk (toWorkerTaskRecord taskId t), d1)
                   else
                     (let t' = t\<lparr>t_status := T_RUNNING, t_attempt := t_attempt t + 1,
                                 t_startedAt := Some now, t_completedAt := None, t_error := None\<rparr>
                      in bind_res (appendEvent runId
                             (TaskStarted taskId (t_agentName t') (t_ordinal t') (t_attempt t'))
                             (set_task taskId t' d1))
                           (\<lambda>d3. Inr (TaskOk (toWorkerTaskRecord taskId t'), d3)))))"

section \<open>Generated files\<close>

record file_plan =
  fp_path :: string
  fp_content :: string
  fp_actualVersion :: nat
  fp_shouldWrite :: bool

datatype conflict = Conflict string nat nat

text \<open>Every compare-and-set is checked before any revision is written.\<close>

fun plan_files :: "uuid \<Rightarrow> db \<Rightarrow> generated_file list \<Rightarrow> conflict + file_plan list" where
  "plan_files pid d [] = Inr []"
| "plan_files pid d (f # fs) =
     (let latest = latest_file pid (gf_path f) d;
          actual = (case latest of None \<Rightarrow> 0 | Some g \<Rightarrow> pf_version g)
      in if actual \<noteq> gf_expectedVersion f
         then Inl (Conflict (gf_path f) (gf_expectedVersion f) actual)
         else bind_res (plan_files pid d fs)
                (\<lambda>ps. Inr (\<lparr>fp_path = gf_path f, fp_content = gf_content f, fp_actualVersion = actual,
                           fp_shouldWrite = (map_option pf_content latest \<noteq> Some (gf_content f))\<rparr> # ps)))"

fun write_plans :: "uuid \<Rightarrow> file_plan list \<Rightarrow> db \<Rightarrow> thrown + string list \<times> db" where
  "write_plans pid [] d = Inr ([], d)"
| "write_plans pid (p # ps) d =
     (if \<not> fp_shouldWrite p then write_plans pid ps d
      else bind_res (create_file \<lparr>pf_projectId = pid, pf_path = fp_path p, pf_content = fp_content p,
                                  pf_version = fp_actualVersion p + 1\<rparr> d)
             (\<lambda>d1. bind_res (write_plans pid ps d1) (\<lambda>(paths, d2). Inr (fp_path p # paths, d2))))"

section \<open>Completing a task\<close>

record complete_task_input =
  ct_runId :: uuid
  ct_expectedControlVersion :: nat
  ct_taskId :: uuid
  ct_output :: agent_output
  ct_generatedFiles :: "generated_file list option"
  ct_now :: time

datatype complete_result = CompleteOk worker_task | CompleteStopped | CompleteConflict string nat nat

record artifact_plan =
  ap_schemaPath :: string
  ap_schemaHash :: string
  ap_migrationPaths :: "string list"
  ap_seedPath :: string
  ap_destructive :: bool
  ap_findings :: "severity list"

text \<open>David's output must parse, must hold no blocking finding, and its schema must exist.\<close>

definition david_artifact :: "externals \<Rightarrow> uuid \<Rightarrow> agent_output \<Rightarrow> db \<Rightarrow> thrown + artifact_plan" where
  "david_artifact X pid out d =
     (case out of
        ODavid v \<Rightarrow>
          (if \<not> output_matches (json_ok X) David out then Inl ZodError
           else if list_ex (\<lambda>s. s = BLOCKING) (david_findings v)
           then Inl (GenericError ''David data-policy report contains a blocking finding'')
           else case latest_file pid (schemaPrismaPath v) d of
                  None \<Rightarrow> Inl (GenericError ''David referenced a missing Prisma schema'')
                | Some s \<Rightarrow>
                    Inr \<lparr>ap_schemaPath = schemaPrismaPath v, ap_schemaHash = sha256 X (pf_content s),
                         ap_migrationPaths = map mig_path (david_migrations v), ap_seedPath = seedPath v,
                         ap_destructive = (0 < length (destructiveChanges v)),
                         ap_findings = david_findings v\<rparr>)
      | _ \<Rightarrow> Inl ZodError)"

definition supersede_artifacts :: "uuid \<Rightarrow> uuid \<Rightarrow> db \<Rightarrow> db" where
  "supersede_artifacts pid taskId d =
     d\<lparr>artifacts := map (\<lambda>(k, a). (k, if ma_projectId a = pid \<and> ma_status a = VALIDATED \<and>
                                      ma_agentTaskId a \<noteq> taskId
                                   then a\<lparr>ma_status := SUPERSEDED\<rparr> else a)) (artifacts d)\<rparr>"

definition upsert_artifact :: "run \<Rightarrow> uuid \<Rightarrow> uuid \<Rightarrow> artifact_plan \<Rightarrow> db \<Rightarrow> uuid \<times> db" where
  "upsert_artifact r runId taskId p d =
     (case find_first_opt (\<lambda>(k, a). ma_agentTaskId a = taskId) (artifacts d) of
        Some (k, a) \<Rightarrow>
          (k, d\<lparr>artifacts := AList.update k
                  (a\<lparr>ma_status := VALIDATED, ma_schemaPath := ap_schemaPath p,
                     ma_schemaHash := ap_schemaHash p, ma_migrationPaths := ap_migrationPaths p,
                     ma_seedPath := ap_seedPath p, ma_destructive := ap_destructive p,
                     ma_findings := ap_findings p\<rparr>) (artifacts d)\<rparr>)
      | None \<Rightarrow>
          (next_id d,
           d\<lparr>artifacts := AList.update (next_id d)
                \<lparr>ma_workspaceId = r_workspaceId r, ma_projectId = r_projectId r, ma_sourceRunId = runId,
                 ma_agentTaskId = taskId, ma_status = VALIDATED, ma_schemaPath = ap_schemaPath p,
                 ma_schemaHash = ap_schemaHash p, ma_migrationPaths = ap_migrationPaths p,
                 ma_seedPath = ap_seedPath p, ma_destructive = ap_destructive p,
                 ma_findings = ap_findings p\<rparr> (artifacts d),
             next_id := Suc (next_id d)\<rparr>))"

definition completion_events ::
    "uuid \<Rightarrow> task \<Rightarrow> uuid option \<Rightarrow> string list option \<Rightarrow> run_event_body list" where
  "completion_events k t art paths =
     [TaskCompleted k (t_agentName t) (t_ordinal t) (t_attempt t),
      ArtifactCreated k (t_agentName t) (AgentOutput (t_agentName t)) art]
     @ (if t_agentName t = Sarah then [ArtifactCreated k Sarah SeoPackage None] else [])
     @ (if t_agentName t = Adrian then [ArtifactCreated k Adrian ContentPackage None] else [])
     @ (case paths of None \<Rightarrow> [] | Some ps \<Rightarrow> [CodeGenerated (Some k) ps (length ps)])"

text \<open>The commit part of \<open>completeTask\<close>, after every compare-and-set has passed.\<close>

definition commit_task :: "externals \<Rightarrow> complete_task_input \<Rightarrow> run \<Rightarrow> task \<Rightarrow> file_plan list \<Rightarrow> complete_result tx" where
  "commit_task X i r t plans d1 =
     bind_res (write_plans (r_projectId r) plans d1) (\<lambda>(paths, d2).
     bind_res (if t_agentName t = David
               then (case david_artifact X (r_projectId r) (ct_output i) d2 of
                       Inl e \<Rightarrow> Inl e | Inr p \<Rightarrow> Inr (Some p))
               else Inr None) (\<lambda>plan.
       (let t' = t\<lparr>t_status := T_COMPLETED, t_output := Some (ct_output i), t_error := None,
                   t_completedAt := Some (ct_now i)\<rparr>;
            d3 = set_task (ct_taskId i) t' d2;
            (art, d4) = (case plan of
                           None \<Rightarrow> (None, d3)
                         | Some p \<Rightarrow>
                             (let (a, d') = upsert_artifact r (ct_runId i) (ct_taskId i) p
                                              (supersede_artifacts (r_projectId r) (ct_taskId i) d3)
                              in (Some a, d')))
        in bind_res (appendEvents (ct_runId i)
               (completion_events (ct_taskId i) t' art
                  (case ct_generatedFiles i of None \<Rightarrow> None | Some _ \<Rightarrow> Some paths)) d4)
             (\<lambda>d5. Inr (CompleteOk (toWorkerTaskRecord (ct_taskId i) t'), d5)))))"

definition completeTask :: "externals \<Rightarrow> complete_task_input \<Rightarrow> complete_result tx" where
  "completeTask X i d =
     (let (active, d1) = touchActiveRun (ct_runId i) (ct_expectedControlVersion i) (ct_now i) d
      in if \<not> active then Inr (CompleteStopped, d1)
         else case task_of d1 (ct_taskId i) of
                None \<Rightarrow> Inl (PrismaError ''P2025'')
              | Some t \<Rightarrow>
                  (if t_status t = T_COMPLETED
                   then Inr (CompleteOk (toWorkerTaskRecord (ct_taskId i) t), d1)
                   else case run_of d1 (ct_runId i) of
                          None \<Rightarrow> Inl (PrismaError ''P2025'')
                        | Some r \<Rightarrow>
                            (case plan_files (r_projectId r) d1
                                    (case ct_generatedFiles i of None \<Rightarrow> [] | Some fs \<Rightarrow> fs) of
                               Inl (Conflict p e a) \<Rightarrow> Inr (CompleteConflict p e a, d1)
                             | Inr plans \<Rightarrow> commit_task X i r t plans d1)))"

datatype apply_result = ApplyOk "string list" | ApplyStopped | ApplyConflict string nat nat

definition applyGeneratedFiles :: "uuid \<Rightarrow> nat \<Rightarrow> generated_file list \<Rightarrow> time \<Rightarrow> apply_result tx" where
  "applyGeneratedFiles runId cv fs now d =
     (let (active, d1) = touchActiveRun runId cv now d
      in if \<not> active then Inr (ApplyStopped, d1)
         else case run_of d1 runId of
                None \<Rightarrow> Inl (PrismaError ''P2025'')
              | Some r \<Rightarrow>
                  (case plan_files (r_projectId r) d1 fs of
                     Inl (Conflict p e a) \<Rightarrow> Inr (ApplyConflict p e a, d1)
                   | Inr plans \<Rightarrow>
                       bind_res (write_plans (r_projectId r) plans d1) (\<lambda>(paths, d2).
                       bind_res (appendEvent runId (CodeGenerated None paths (length paths)) d2)
                         (\<lambda>d3. Inr (ApplyOk paths, d3)))))"

definition failTask :: "uuid \<Rightarrow> nat \<Rightarrow> uuid \<Rightarrow> json \<Rightarrow> time \<Rightarrow> bool tx" where
  "failTask runId cv taskId err now d =
     (let (active, d1) = touchActiveRun runId cv now d
      in if \<not> active then Inr (False, d1)
         else case task_of d1 taskId of
                None \<Rightarrow> Inl (PrismaError ''P2025'')
              | Some t \<Rightarrow>
                  bind_res (appendEvent runId
                      (TaskFailed taskId (t_agentName t) (t_ordinal t) (t_attempt t) err)
                      (set_task taskId (t\<lparr>t_status := T_FAILED, t_error := Some err,
                                         t_completedAt := Some now\<rparr>) d1))
                    (\<lambda>d3. Inr (True, d3)))"

text \<open>\<open>findMany\<close> with \<open>distinct: ["filePath"]\<close>: the latest revision of every path, by path.\<close>

definition listProjectFiles :: "uuid \<Rightarrow> db \<Rightarrow> project_file list" where
  "listProjectFiles pid d =
     (let paths = sort (remdups (map pf_path (filter (\<lambda>f. pf_projectId f = pid) (files d))))
      in List.map_filter (\<lambda>p. latest_file pid p d) paths)"

section \<open>Ending and pausing a run\<close>

definition requestApproval :: "uuid \<Rightarrow> nat \<Rightarrow> approval_scope \<Rightarrow> string \<Rightarrow> time \<Rightarrow> bool tx" where
  "requestApproval runId cv scope reason now d =
     (let (n, d1) = updateMany_run runId (\<lambda>r. r_status r = RUNNING \<and> r_controlVersion r = cv)
            (\<lambda>r. r\<lparr>r_status := PAUSED, r_controlVersion := r_controlVersion r + 1,
                   r_pausedAt := Some now, r_lastHeartbeatAt := Some now\<rparr>) d
      in if n \<noteq> 1 then Inr (False, d1)
         else bind_res (appendEvent runId (ApprovalRequired scope reason) d1) (\<lambda>d2. Inr (True, d2)))"

definition completeRun :: "uuid \<Rightarrow> nat \<Rightarrow> time \<Rightarrow> bool tx" where
  "completeRun runId cv now d =
     (let (n, d1) = updateMany_run runId (\<lambda>r. r_status r = RUNNING \<and> r_controlVersion r = cv)
            (\<lambda>r. r\<lparr>r_status := COMPLETED, r_controlVersion := r_controlVersion r + 1,
                   r_completedAt := Some now, r_lastHeartbeatAt := Some now\<rparr>) d
      in if n \<noteq> 1 then Inr (False, d1)
         else bind_res (appendEvent runId (RunCompleted now) d1) (\<lambda>d2. Inr (True, d2)))"

definition failRun :: "uuid \<Rightarrow> nat \<Rightarrow> json \<Rightarrow> time \<Rightarrow> bool tx" where
  "failRun runId cv err now d =
     (let (n, d1) = updateMany_run runId (\<lambda>r. r_status r = RUNNING \<and> r_controlVersion r = cv)
            (\<lambda>r. r\<lparr>r_status := FAILED, r_controlVersion := r_controlVersion r + 1,
                   r_error := Some err, r_completedAt := Some now, r_lastHeartbeatAt := Some now\<rparr>) d
      in if n \<noteq> 1 then Inr (False, d1)
         else bind_res (appendEvent runId (RunFailed err) d1) (\<lambda>d2. Inr (True, d2)))"

definition getWorkspacePlan :: "uuid \<Rightarrow> db \<Rightarrow> thrown + workspace_plan" where
  "getWorkspacePlan w d =
     (case map_of (workspace_plans d) w of None \<Rightarrow> Inl (PrismaError ''P2025'') | Some p \<Rightarrow> Inr p)"

definition getProjectType :: "uuid \<Rightarrow> db \<Rightarrow> thrown + project_type" where
  "getProjectType p d =
     (case map_of (projects d) p of None \<Rightarrow> Inl (PrismaError ''P2025'') | Some j \<Rightarrow> Inr (pj_type j))"

section \<open>Writing files\<close>

lemma create_file_Inr:
  "create_file f d = Inr d' \<longleftrightarrow>
     d' = d\<lparr>files := files d @ [f]\<rparr> \<and>
     (\<forall>g \<in> set (file_rows (pf_projectId f) (pf_path f) d). pf_version g \<noteq> pf_version f)"
  by (auto simp: create_file_def list_ex_iff file_rows_def)

text \<open>A create that succeeds at a version not above the next one is at the next one.\<close>

lemma create_file_at_next:
  assumes ok: "files_ok d" and cf: "create_file f d = Inr d'"
    and v: "1 \<le> pf_version f" "pf_version f \<le> Suc (current_version (pf_projectId f) (pf_path f) d)"
  shows "pf_version f = Suc (current_version (pf_projectId f) (pf_path f) d)"
proof (rule ccontr)
  let ?rows = "file_rows (pf_projectId f) (pf_path f) d"
  assume "pf_version f \<noteq> Suc (current_version (pf_projectId f) (pf_path f) d)"
  with v have "pf_version f \<in> set [1..<Suc (length ?rows)]"
    by (auto simp: current_version_length [OF ok])
  also have "[1..<Suc (length ?rows)] = map pf_version ?rows" using ok by (simp add: files_ok_def)
  finally show False using cf by (auto simp: create_file_Inr)
qed

lemma current_version_create_file:
  assumes "db_ok d" and "create_file f d = Inr d'"
    and "pf_version f = Suc (current_version (pf_projectId f) (pf_path f) d)"
  shows "current_version pid path d' = current_version pid path d +
    (if pf_projectId f = pid \<and> pf_path f = path then 1 else 0)"
proof -
  have "db_ok d'" using assms by (rule db_ok_create_file)
  then have "files_ok d'" "files_ok d" using assms(1) by (auto simp: db_ok_def)
  then show ?thesis
    using assms(2) by (simp add: current_version_length create_file_Inr) (auto simp: file_rows_def)
qed

lemma write_plans_ok:
  assumes "db_ok d" and "\<forall>p \<in> set ps. fp_actualVersion p \<le> current_version pid (fp_path p) d"
    and "write_plans pid ps d = Inr (paths, d')"
  shows "db_ok d' \<and> runs d' = runs d \<and> tasks d' = tasks d \<and> events d' = events d \<and>
         artifacts d' = artifacts d \<and> next_id d' = next_id d"
  using assms
proof (induction ps arbitrary: d paths)
  case Nil
  then show ?case by simp
next
  case (Cons p ps)
  show ?case
  proof (cases "fp_shouldWrite p")
    case False
    with Cons show ?thesis by simp
  next
    case True
    let ?f = "\<lparr>pf_projectId = pid, pf_path = fp_path p, pf_content = fp_content p,
               pf_version = fp_actualVersion p + 1\<rparr>"
    from Cons.prems(3) True obtain d1 paths1 where d1: "create_file ?f d = Inr d1"
      and rest: "write_plans pid ps d1 = Inr (paths1, d')"
      by (auto simp: bind_res_Inr_iff)
    have fok: "files_ok d" using Cons.prems(1) by (simp add: db_ok_def)
    have nxt: "pf_version ?f = Suc (current_version (pf_projectId ?f) (pf_path ?f) d)"
      using create_file_at_next [OF fok d1] Cons.prems(2) by simp
    have ok1: "db_ok d1" using Cons.prems(1) d1 nxt by (rule db_ok_create_file)
    have "\<forall>q \<in> set ps. fp_actualVersion q \<le> current_version pid (fp_path q) d1"
      using Cons.prems(2) current_version_create_file [OF Cons.prems(1) d1 nxt]
      by (auto simp: trans_le_add1)
    from Cons.IH [OF ok1 this rest] d1 show ?thesis by (auto simp: create_file_Inr)
  qed
qed

definition plan_fits :: "uuid \<Rightarrow> db \<Rightarrow> file_plan \<Rightarrow> bool" where
  "plan_fits pid d p \<longleftrightarrow> fp_actualVersion p = current_version pid (fp_path p) d \<and>
     fp_shouldWrite p = (map_option pf_content (latest_file pid (fp_path p) d) \<noteq> Some (fp_content p))"

lemma plan_files_Cons:
  "plan_files pid d (f # fs) =
     (if current_version pid (gf_path f) d \<noteq> gf_expectedVersion f
      then Inl (Conflict (gf_path f) (gf_expectedVersion f) (current_version pid (gf_path f) d))
      else bind_res (plan_files pid d fs)
             (\<lambda>ps. Inr (\<lparr>fp_path = gf_path f, fp_content = gf_content f,
                fp_actualVersion = current_version pid (gf_path f) d,
                fp_shouldWrite =
                  (map_option pf_content (latest_file pid (gf_path f) d) \<noteq> Some (gf_content f))\<rparr> # ps)))"
  by (simp add: Let_def current_version_def)

declare plan_files.simps(2) [simp del]

lemma plan_files_actual:
  "plan_files pid d fs = Inr ps \<Longrightarrow>
     map fp_path ps = map gf_path fs \<and> map fp_content ps = map gf_content fs \<and>
     map fp_actualVersion ps = map gf_expectedVersion fs \<and> (\<forall>p \<in> set ps. plan_fits pid d p)"
  by (induction fs arbitrary: ps)
     (auto simp: plan_files_Cons bind_res_Inr_iff plan_fits_def split: if_splits)

lemma plan_files_le:
  "plan_files pid d fs = Inr ps \<Longrightarrow>
     \<forall>p \<in> set ps. fp_actualVersion p \<le> current_version pid (fp_path p) d"
  by (drule plan_files_actual) (auto simp: plan_fits_def)

lemma plan_files_Inl:
  "plan_files pid d fs = Inl (Conflict p e a) \<Longrightarrow>
     \<exists>f \<in> set fs. gf_path f = p \<and> gf_expectedVersion f = e \<and> a = current_version pid p d \<and> a \<noteq> e"
  by (induction fs) (auto simp: plan_files_Cons split: if_splits elim!: bind_res.elims)

section \<open>Fencing\<close>

text \<open>
  The worker's interface to the store: a transaction made with a control version. A stale
  one is answered \<open>stopped\<close> and writes nothing; any other keeps the store invariant, leaves
  the control columns of every run alone and only appends to the event log of its run.
\<close>

definition active :: "uuid \<Rightarrow> nat \<Rightarrow> db \<Rightarrow> bool" where
  "active i cv d \<longleftrightarrow> (\<exists>r. run_of d i = Some r \<and> r_status r = RUNNING \<and> r_controlVersion r = cv)"

definition log_extends :: "uuid \<Rightarrow> db \<Rightarrow> db \<Rightarrow> bool" where
  "log_extends i d d' \<longleftrightarrow> (\<exists>es. events d' = events d @ es \<and> (\<forall>e \<in> set es. e_runId e = i))"

lemma log_extends_refl [simp]: "log_extends i d d"
  by (simp add: log_extends_def)

lemma log_extends_trans: "log_extends i d d1 \<Longrightarrow> log_extends i d1 d2 \<Longrightarrow> log_extends i d d2"
  by (auto simp: log_extends_def)

lemma log_extends_same: "events d' = events d \<Longrightarrow> log_extends i d d'"
  by (auto simp: log_extends_def)

lemma log_extends_appendEvent: "appendEvent i b d = Inr d' \<Longrightarrow> log_extends i d d'"
  by (auto simp: appendEvent_Inr log_extends_def)

lemma log_extends_appendEvents: "appendEvents i bs d = Inr d' \<Longrightarrow> log_extends i d d'"
  by (induction bs arbitrary: d)
     (auto simp: bind_res_Inr_iff dest: log_extends_appendEvent intro: log_extends_trans)

lemma runs_kept_active: "runs_kept d d' \<Longrightarrow> active i cv d' = active i cv d"
proof -
  assume "runs_kept d d'"
  then have "rel_option same_run_control (run_of d i) (run_of d' i)" by (simp add: runs_kept_def)
  then show ?thesis
    by (cases "run_of d i"; cases "run_of d' i") (auto simp: active_def dest: same_run_controlD)
qed

locale fenced_transaction =
  fixes f :: "'a tx" and i :: uuid and cv :: nat and stopped :: 'a
  assumes stale: "\<not> active i cv d \<Longrightarrow> f d = Inr (stopped, d)"
    and keeps_ok: "db_ok d \<Longrightarrow> f d = Inr (x, d') \<Longrightarrow> db_ok d'"
    and keeps_runs: "f d = Inr (x, d') \<Longrightarrow> runs_kept d d'"
    and extends_log: "f d = Inr (x, d') \<Longrightarrow> log_extends i d d'"
begin

lemma effect_needs_active: "f d = Inr (x, d') \<Longrightarrow> d' \<noteq> d \<or> x \<noteq> stopped \<Longrightarrow> active i cv d"
  using stale [of d] by auto

lemma still_active: "f d = Inr (x, d') \<Longrightarrow> active i cv d' = active i cv d"
  by (rule runs_kept_active) (rule keeps_runs)

lemma status_kept:
  assumes "f d = Inr (x, d')" and "run_of d j = Some r"
  shows "\<exists>r'. run_of d' j = Some r' \<and> r_status r' = r_status r \<and> r_controlVersion r' = r_controlVersion r"
proof -
  have "rel_option same_run_control (run_of d j) (run_of d' j)"
    using keeps_runs [OF assms(1)] by (simp add: runs_kept_def)
  with assms(2) show ?thesis
    by (cases "run_of d' j") (auto dest: same_run_controlD)
qed

text \<open>Once another actor has moved the run on, the holder of an old version is cut off for good.\<close>

lemma cut_off:
  assumes "\<And>d. active i cv (env d) \<Longrightarrow> active i cv d" and "\<not> active i cv d"
  shows "f (env d) = Inr (stopped, env d) \<and> \<not> active i cv (env d)"
  using assms stale by blast

end

lemma stale_touch: "\<not> active i cv d \<Longrightarrow> touchActiveRun i cv now d = (False, d)"
  by (auto simp: touchActiveRun_False active_def)

lemma runs_kept_set_task [simp]: "runs_kept d (set_task k t d)"
  by (rule runs_kept_eq) simp

lemma runs_kept_create_task: "create_task t d = Inr (k, d') \<Longrightarrow> runs_kept d d'"
  by (rule runs_kept_eq) (auto simp: create_task_Inr)

lemma log_extends_touch: "touchActiveRun i cv now d = (b, d') \<Longrightarrow> log_extends i d d'"
  by (cases b) (auto simp: touchActiveRun_True touchActiveRun_False log_extends_def)

lemma log_extends_create_task: "create_task t d = Inr (k, d') \<Longrightarrow> log_extends i d d'"
  by (auto simp: create_task_Inr log_extends_def)

lemma log_extends_set_task [simp]: "log_extends i d (set_task k t d)"
  by (simp add: log_extends_def)

text \<open>One predicate for the three laws a committing step has to keep, closed under sequencing.\<close>

definition good_step :: "uuid \<Rightarrow> db \<Rightarrow> db \<Rightarrow> bool" where
  "good_step i d d' \<longleftrightarrow> (db_ok d \<longrightarrow> db_ok d') \<and> runs_kept d d' \<and> log_extends i d d'"

lemma good_step_refl [simp]: "good_step i d d"
  by (simp add: good_step_def)

lemma good_step_trans: "good_step i d d1 \<Longrightarrow> good_step i d1 d2 \<Longrightarrow> good_step i d d2"
  unfolding good_step_def using runs_kept_trans log_extends_trans by blast

lemma good_touch: "touchActiveRun i cv now d = (b, d') \<Longrightarrow> good_step i d d'"
  by (auto simp: good_step_def intro: db_ok_touch runs_kept_touch log_extends_touch)

lemma good_appendEvent: "appendEvent i b d = Inr d' \<Longrightarrow> good_step i d d'"
  by (auto simp: good_step_def intro: db_ok_appendEvent runs_kept_appendEvent log_extends_appendEvent)

lemma good_appendEvents: "appendEvents i bs d = Inr d' \<Longrightarrow> good_step i d d'"
  by (auto simp: good_step_def intro: db_ok_appendEvents runs_kept_appendEvents log_extends_appendEvents)

lemma good_create_task: "create_task t d = Inr (k, d') \<Longrightarrow> good_step i d d'"
  by (auto simp: good_step_def intro: db_ok_create_task runs_kept_create_task log_extends_create_task)

lemma good_set_task:
  "task_of d k = Some t \<Longrightarrow> t_runId t' = t_runId t \<Longrightarrow> t_ordinal t' = t_ordinal t \<Longrightarrow>
     good_step i d (set_task k t' d)"
  by (auto simp: good_step_def intro: db_ok_set_task)

lemma good_write_plans:
  "write_plans pid ps d = Inr (paths, d') \<Longrightarrow>
   \<forall>p \<in> set ps. fp_actualVersion p \<le> current_version pid (fp_path p) d \<Longrightarrow>
   db_ok d \<Longrightarrow> good_step i d d' \<and> tasks d' = tasks d"
  using write_plans_ok [of d ps pid paths d']
  by (auto simp: good_step_def intro: runs_kept_eq log_extends_same)

end
