(* ===== verification/Samples.thy ===== *)
theory Samples
  imports RunRepository
begin

text \<open>
  One concrete store the witnesses of the component theories evaluate on: workspace 1 with
  user 7 as its owner, project 2, run 3 claimed at control version 1, its task 4 of Alex in
  progress, and one revision of \<open>app/page.tsx\<close>.
\<close>

definition sample_run :: run where
  "sample_run =
     \<lparr>r_workspaceId = 1, r_projectId = 2, r_status = RUNNING, r_prompt = ''make it'',
      r_idempotencyKey = Some ''k1'', r_eventSequence = 1, r_controlVersion = 1, r_error = None,
      r_checkpoint = None, r_startedAt = Some 100, r_pausedAt = None, r_completedAt = None,
      r_cancelledAt = None, r_lastHeartbeatAt = Some 100, r_reminderSentAt = None, r_purgedAt = None\<rparr>"

definition sample_task :: task where
  "sample_task =
     \<lparr>t_runId = 3, t_agentName = Alex, t_description = ''d'', t_ordinal = 5, t_status = T_RUNNING,
      t_attempt = 1, t_input = None, t_output = None, t_error = None, t_startedAt = Some 100,
      t_completedAt = None\<rparr>"

definition sample_file :: project_file where
  "sample_file = \<lparr>pf_projectId = 2, pf_path = ''app/page.tsx'', pf_content = ''v1'', pf_version = 1\<rparr>"

definition sample_project :: project where
  "sample_project = \<lparr>pj_workspaceId = 1, pj_name = ''p'', pj_slug = ''p'', pj_description = None,
     pj_type = GENERAL, pj_archivedAt = None\<rparr>"

definition sample_db :: db where
  "sample_db = empty_db
     \<lparr>runs := [(3, sample_run)], tasks := [(4, sample_task)],
      events := [\<lparr>e_runId = 3, e_sequence = 1, e_body = RunStatusChanged PENDING RUNNING CmdStart 1\<rparr>],
      files := [sample_file], projects := [(2, sample_project)], workspace_plans := [(1, PRO)],
      memberships := [((1, 7), OWNER)], next_id := 10\<rparr>"

definition sample_externals :: externals where
  "sample_externals = \<lparr>json_ok = (\<lambda>s. s \<noteq> []), sha256 = (\<lambda>s. s), output_json = (\<lambda>_. JNull)\<rparr>"

lemmas sample_defs = sample_db_def sample_run_def sample_task_def sample_file_def sample_project_def
  empty_db_def sample_externals_def

lemma db_ok_sample: "db_ok sample_db"
proof -
  have "events_ok sample_db"
    by (auto simp: events_ok_def sample_defs)
  moreover have "files_ok sample_db"
    by (auto simp: files_ok_def file_rows_def sample_defs)
  moreover have "keys_ok sample_db"
    by (simp add: keys_ok_def sample_defs)
  moreover have "tasks_ok sample_db"
    by (auto simp: tasks_ok_def sample_defs split: if_splits)
  ultimately show ?thesis by (simp add: db_ok_def)
qed

end
