(* ===== verification/RunTransactions.thy ===== *)
theory RunTransactions
  imports RunRepository Samples
begin

text \<open>
  The laws of the worker's task transactions: each is an instance of the interface
  \<open>fenced_transaction\<close>, and the functional behaviour of completing a task and of writing
  generated files.
\<close>

section \<open>Every transaction is a good step\<close>

lemma good_prepareTask:
  assumes "prepareTask p d = Inr (x, d')"
  shows "good_step (pt_runId p) d d'"
proof -
  obtain b d1 where t: "touchActiveRun (pt_runId p) (pt_expectedControlVersion p) (pt_now p) d = (b, d1)"
    by (cases "touchActiveRun (pt_runId p) (pt_expectedControlVersion p) (pt_now p) d")
  note g1 = good_touch [OF t]
  from assms t show ?thesis
    by (auto simp: prepareTask_def bind_res_Inr_iff split: if_splits option.splits
        intro: g1 good_step_trans [OF g1] good_step_trans [OF good_create_task] good_appendEvent)
qed

lemma good_skipTask:
  assumes "skipTask p d = Inr (x, d')"
  shows "good_step (pt_runId p) d d'"
proof -
  obtain b d1 where t: "touchActiveRun (pt_runId p) (pt_expectedControlVersion p) (pt_now p) d = (b, d1)"
    by (cases "touchActiveRun (pt_runId p) (pt_expectedControlVersion p) (pt_now p) d")
  note g1 = good_touch [OF t]
  from assms t show ?thesis
    by (auto simp: skipTask_def bind_res_Inr_iff split: if_splits option.splits
        intro: g1 good_step_trans [OF g1] good_step_trans [OF good_create_task] good_appendEvent)
qed

lemma good_set_task_append:
  assumes "task_of d k = Some t" and "appendEvent i b (set_task k t' d) = Inr d'"
    and "t_runId t' = t_runId t" and "t_ordinal t' = t_ordinal t"
  shows "good_step i d d'"
  using good_set_task [OF assms(1,3,4)] good_appendEvent [OF assms(2)] by (rule good_step_trans)

lemma good_startTask:
  assumes "startTask i cv k now d = Inr (x, d')"
  shows "good_step i d d'"
proof -
  obtain b d1 where t: "touchActiveRun i cv now d = (b, d1)"
    by (cases "touchActiveRun i cv now d")
  have "good_step i d1 d'"
    using assms t
    by (auto simp: startTask_def Let_def bind_res_Inr_iff split: if_splits option.splits
        elim!: good_set_task_append)
  with good_touch [OF t] show ?thesis by (rule good_step_trans)
qed

lemma good_failTask:
  assumes "failTask i cv k err now d = Inr (x, d')"
  shows "good_step i d d'"
proof -
  obtain b d1 where t: "touchActiveRun i cv now d = (b, d1)"
    by (cases "touchActiveRun i cv now d")
  have "good_step i d1 d'"
    using assms t
    by (auto simp: failTask_def bind_res_Inr_iff split: if_splits option.splits
        elim!: good_set_task_append)
  with good_touch [OF t] show ?thesis by (rule good_step_trans)
qed

text \<open>Sequencing after a first step: the invariant of the first state feeds the second.\<close>

lemma good_step_db_ok:
  "good_step i d d1 \<Longrightarrow> (db_ok d1 \<Longrightarrow> good_step i d1 d2) \<Longrightarrow> runs_kept d1 d2 \<Longrightarrow>
     log_extends i d1 d2 \<Longrightarrow> good_step i d d2"
  unfolding good_step_def using runs_kept_trans log_extends_trans by blast

lemma write_plans_frame:
  "write_plans pid ps d = Inr (paths, d') \<Longrightarrow>
     runs d' = runs d \<and> tasks d' = tasks d \<and> events d' = events d \<and> artifacts d' = artifacts d \<and>
     next_id d' = next_id d"
  by (induction ps arbitrary: d paths)
     (auto simp: bind_res_Inr_iff create_file_Inr split: if_splits)

lemma good_write_plans_ok:
  assumes "write_plans pid ps d = Inr (paths, d')"
    and "\<forall>p \<in> set ps. fp_actualVersion p \<le> current_version pid (fp_path p) d"
  shows "good_step i d d'"
  using write_plans_frame [OF assms(1)] write_plans_ok [OF _ assms(2,1)]
  by (auto simp: good_step_def intro: runs_kept_eq log_extends_same)

lemma good_applyGeneratedFiles:
  assumes "applyGeneratedFiles i cv fs now d = Inr (x, d')"
  shows "good_step i d d'"
proof -
  obtain b d1 where t: "touchActiveRun i cv now d = (b, d1)"
    by (cases "touchActiveRun i cv now d")
  note g1 = good_touch [OF t]
  from assms t show ?thesis
    by (auto simp: applyGeneratedFiles_def bind_res_Inr_iff
        split: if_splits option.splits sum.splits conflict.splits
        intro: g1 good_step_trans [OF g1] good_step_trans [OF good_write_plans_ok] good_appendEvent
        dest: plan_files_le)
qed

lemma keys_ok_supersede: "keys_ok (supersede_artifacts pid k d) = keys_ok d"
  by (auto simp: keys_ok_def supersede_artifacts_def image_image split_def)

lemma good_supersede: "good_step i d (supersede_artifacts pid k d)"
proof -
  have "events_ok (supersede_artifacts pid k d) = events_ok d"
    by (rule events_ok_cong) (simp_all add: supersede_artifacts_def)
  moreover have "files_ok (supersede_artifacts pid k d) = files_ok d"
    by (rule files_ok_cong) (simp add: supersede_artifacts_def)
  moreover have "tasks_ok (supersede_artifacts pid k d) = tasks_ok d"
    by (rule tasks_ok_cong) (simp add: supersede_artifacts_def)
  ultimately show ?thesis
    by (simp add: good_step_def db_ok_def keys_ok_supersede)
       (simp add: supersede_artifacts_def runs_kept_eq log_extends_same)
qed

lemma keys_below_update:
  fixes n :: nat
  assumes "\<forall>j \<in> fst ` set al. j < n" and "k < n'" and "n \<le> n'"
  shows "\<forall>j \<in> fst ` set (AList.update k v al). j < n'"
  using assms unfolding fst_set_update by (metis insert_iff less_le_trans)

lemma keys_ok_mono:
  assumes "keys_ok d" and "runs d' = runs d" and "tasks d' = tasks d" and "sessions d' = sessions d"
    and "next_id d \<le> next_id d'" and "\<forall>k \<in> fst ` set (artifacts d'). k < next_id d'"
  shows "keys_ok d'"
  using assms unfolding keys_ok_def by (metis less_le_trans)

lemma good_upsert_artifact:
  assumes "upsert_artifact r j k p d = (a, d')"
  shows "good_step i d d'"
proof -
  have frame: "runs d' = runs d" "events d' = events d" "files d' = files d" "tasks d' = tasks d"
    "sessions d' = sessions d" "next_id d \<le> next_id d'"
    using assms by (auto simp: upsert_artifact_def split: option.splits)
  have "keys_ok d'" if k: "keys_ok d"
  proof -
    have "\<forall>k \<in> fst ` set (artifacts d). k < next_id d" using k by (simp add: keys_ok_def)
    note up = keys_below_update [OF this]
    have "\<forall>k \<in> fst ` set (artifacts d'). k < next_id d'"
    proof (cases "find_first_opt (\<lambda>(ka, a). ma_agentTaskId a = k) (artifacts d)")
      case None
      then have "next_id d' = Suc (next_id d)"
          "\<exists>v. artifacts d' = AList.update (next_id d) v (artifacts d)"
        using assms by (auto simp: upsert_artifact_def)
      then obtain v where "next_id d' = Suc (next_id d)"
          "artifacts d' = AList.update (next_id d) v (artifacts d)" by blast
      then show ?thesis using up [of "next_id d" "Suc (next_id d)" v] by simp
    next
      case (Some q)
      then have "fst q \<in> fst ` set (artifacts d)" by (auto dest: find_first_opt_Some)
      then have "fst q < next_id d" using k by (auto simp: keys_ok_def)
      moreover obtain v where "next_id d' = next_id d" "artifacts d' = AList.update (fst q) v (artifacts d)"
        using assms Some by (auto simp: upsert_artifact_def split: prod.splits)
      ultimately show ?thesis using up [of "fst q" "next_id d" v] by simp
    qed
    with k frame show ?thesis by (intro keys_ok_mono [OF k]) auto
  qed
  moreover have "events_ok d' = events_ok d" by (rule events_ok_cong) (simp_all add: frame)
  moreover have "files_ok d' = files_ok d" by (rule files_ok_cong) (simp add: frame)
  moreover have "tasks_ok d' = tasks_ok d" by (rule tasks_ok_cong) (simp add: frame)
  ultimately show ?thesis
    using frame by (auto simp: good_step_def db_ok_def intro: runs_kept_eq log_extends_same)
qed

lemma good_commit_task:
  assumes c: "commit_task X p r t ps d = Inr (x, d')"
    and t: "task_of d (ct_taskId p) = Some t"
    and le: "\<forall>q \<in> set ps. fp_actualVersion q \<le> current_version (r_projectId r) (fp_path q) d"
  shows "good_step (ct_runId p) d d'"
proof -
  from c obtain paths d2 where w: "write_plans (r_projectId r) ps d = Inr (paths, d2)"
    by (auto simp: commit_task_def bind_res_Inr_iff)
  have g2: "good_step (ct_runId p) d d2" using w le by (rule good_write_plans_ok)
  have t2: "task_of d2 (ct_taskId p) = Some t" using write_plans_frame [OF w] t by simp
  let ?t' = "t\<lparr>t_status := T_COMPLETED, t_output := Some (ct_output p), t_error := None,
               t_completedAt := Some (ct_now p)\<rparr>"
  have g3: "good_step (ct_runId p) d2 (set_task (ct_taskId p) ?t' d2)"
    using t2 by (rule good_set_task) simp_all
  let ?d3 = "set_task (ct_taskId p) ?t' d2"
  have "good_step (ct_runId p) ?d3 d'"
  proof (cases "t_agentName t = David")
    case False
    with c w show ?thesis
      by (auto simp: commit_task_def Let_def bind_res_Inr_iff intro: good_appendEvents)
  next
    case True
    with c w obtain pl a d4 bs where
        "upsert_artifact r (ct_runId p) (ct_taskId p) pl
           (supersede_artifacts (r_projectId r) (ct_taskId p) ?d3) = (a, d4)"
      and "appendEvents (ct_runId p) bs d4 = Inr d'"
      by (auto simp: commit_task_def Let_def bind_res_Inr_iff split: sum.splits prod.splits)
    then show ?thesis
      using good_supersede good_upsert_artifact good_appendEvents good_step_trans by metis
  qed
  with good_step_trans [OF g2 g3] show ?thesis by (rule good_step_trans)
qed

lemma good_completeTask:
  assumes "completeTask X p d = Inr (x, d')"
  shows "good_step (ct_runId p) d d'"
proof -
  obtain b d1 where t: "touchActiveRun (ct_runId p) (ct_expectedControlVersion p) (ct_now p) d = (b, d1)"
    by (cases "touchActiveRun (ct_runId p) (ct_expectedControlVersion p) (ct_now p) d")
  have "good_step (ct_runId p) d1 d'"
    using assms t
    by (auto simp: completeTask_def split: if_splits option.splits sum.splits conflict.splits
        elim!: good_commit_task dest: plan_files_le)
  with good_touch [OF t] show ?thesis by (rule good_step_trans)
qed

section \<open>The fenced interface, interpreted\<close>

lemma fenced_transactionI:
  assumes "\<And>d. \<not> active i cv d \<Longrightarrow> f d = Inr (stopped, d)"
    and "\<And>d x d'. f d = Inr (x, d') \<Longrightarrow> good_step i d d'"
  shows "fenced_transaction f i cv stopped"
  using assms by unfold_locales (auto simp: good_step_def)

interpretation prepare: fenced_transaction "prepareTask p" "pt_runId p"
    "pt_expectedControlVersion p" TaskStopped for p
  by (rule fenced_transactionI) (simp add: prepareTask_def stale_touch, rule good_prepareTask)

interpretation skip: fenced_transaction "skipTask p" "pt_runId p"
    "pt_expectedControlVersion p" TaskStopped for p
  by (rule fenced_transactionI) (simp add: skipTask_def stale_touch, rule good_skipTask)

interpretation start: fenced_transaction "startTask i cv k now" i cv TaskStopped for i cv k now
  by (rule fenced_transactionI) (simp add: startTask_def stale_touch, rule good_startTask)

interpretation complete: fenced_transaction "completeTask X p" "ct_runId p"
    "ct_expectedControlVersion p" CompleteStopped for X p
  by (rule fenced_transactionI) (simp add: completeTask_def stale_touch, rule good_completeTask)

interpretation fail: fenced_transaction "failTask i cv k err now" i cv False for i cv k err now
  by (rule fenced_transactionI) (simp add: failTask_def stale_touch, rule good_failTask)

interpretation repair: fenced_transaction "applyGeneratedFiles i cv fs now" i cv ApplyStopped
    for i cv fs now
  by (rule fenced_transactionI)
     (simp add: applyGeneratedFiles_def stale_touch, rule good_applyGeneratedFiles)

section \<open>What writing a set of files does\<close>

definition plan_row :: "uuid \<Rightarrow> file_plan \<Rightarrow> project_file" where
  "plan_row pid p = \<lparr>pf_projectId = pid, pf_path = fp_path p, pf_content = fp_content p,
                     pf_version = fp_actualVersion p + 1\<rparr>"

lemma plan_fits_other_path:
  assumes "files d1 = files d @ [f]" and "fp_path q \<noteq> pf_path f"
  shows "plan_fits pid d1 q = plan_fits pid d q"
proof -
  have "file_rows pid (fp_path q) d1 = file_rows pid (fp_path q) d"
    using assms by (simp add: file_rows_def)
  then show ?thesis by (simp add: plan_fits_def current_version_def latest_file_def)
qed

text \<open>Plans for distinct paths are all written: no unique constraint can fire between them.\<close>

lemma write_plans_total:
  assumes "db_ok d" and "distinct (map fp_path ps)" and "\<forall>p \<in> set ps. plan_fits pid d p"
  shows "write_plans pid ps d =
    Inr (map fp_path (filter fp_shouldWrite ps),
         d\<lparr>files := files d @ map (plan_row pid) (filter fp_shouldWrite ps)\<rparr>)"
  using assms
proof (induction ps arbitrary: d)
  case Nil
  then show ?case by simp
next
  case (Cons p ps)
  show ?case
  proof (cases "fp_shouldWrite p")
    case False
    with Cons show ?thesis by simp
  next
    case True
    let ?f = "plan_row pid p"
    let ?d1 = "d\<lparr>files := files d @ [?f]\<rparr>"
    have nxt: "pf_version ?f = Suc (current_version (pf_projectId ?f) (pf_path ?f) d)"
      using Cons.prems(3) by (simp add: plan_row_def plan_fits_def)
    have cf: "create_file ?f d = Inr ?d1"
      using Cons.prems(1) nxt by (intro create_file_next) (simp_all add: db_ok_def)
    have "db_ok ?d1" using Cons.prems(1) cf nxt by (rule db_ok_create_file)
    moreover have "\<forall>q \<in> set ps. plan_fits pid ?d1 q"
    proof
      fix q assume q: "q \<in> set ps"
      then have "fp_path q \<in> fp_path ` set ps" by (rule imageI)
      then have "fp_path q \<noteq> pf_path ?f" using Cons.prems(2) by (auto simp: plan_row_def)
      then have "plan_fits pid ?d1 q = plan_fits pid d q" by (intro plan_fits_other_path) simp_all
      with q Cons.prems(3) show "plan_fits pid ?d1 q" by simp
    qed
    ultimately have "write_plans pid ps ?d1 = Inr (map fp_path (filter fp_shouldWrite ps),
        ?d1\<lparr>files := files ?d1 @ map (plan_row pid) (filter fp_shouldWrite ps)\<rparr>)"
      using Cons.prems(2) by (intro Cons.IH) simp_all
    with True cf show ?thesis by (simp add: plan_row_def)
  qed
qed

lemma max_version_snoc:
  "\<forall>g \<in> set fs. pf_version g < pf_version f \<Longrightarrow> max_version (fs @ [f]) = Some f"
  by (induction fs) auto

lemma filter_path_distinct:
  "distinct (map fp_path ps) \<Longrightarrow> p \<in> set ps \<Longrightarrow> filter (\<lambda>q. fp_path q = fp_path p) ps = [p]"
proof (induction ps)
  case Nil
  then show ?case by simp
next
  case (Cons q qs)
  show ?case
  proof (cases "p = q")
    case True
    with Cons.prems(1) have "\<forall>r \<in> set qs. fp_path r \<noteq> fp_path p"
      by (metis distinct.simps(2) image_eqI list.simps(9) set_map)
    then have "filter (\<lambda>q. fp_path q = fp_path p) qs = []" by (simp add: filter_empty_conv)
    with True show ?thesis by simp
  next
    case False
    with Cons.prems have "p \<in> set qs" "fp_path q \<noteq> fp_path p" by auto
    with Cons show ?thesis by simp
  qed
qed

lemma filter_path_planned:
  assumes "distinct (map fp_path ps)" and "p \<in> set ps"
  shows "filter (\<lambda>q. fp_shouldWrite q \<and> fp_path q = fp_path p) ps = (if fp_shouldWrite p then [p] else [])"
proof -
  have "filter (\<lambda>q. fp_shouldWrite q \<and> fp_path q = fp_path p) ps
      = filter fp_shouldWrite (filter (\<lambda>q. fp_path q = fp_path p) ps)"
    by (simp add: conj_commute)
  then show ?thesis using filter_path_distinct [OF assms] by simp
qed

text \<open>Each planned path ends with the planned content; every other path keeps its revisions.\<close>

lemma written_rows:
  assumes ok: "db_ok d" and fit: "\<forall>p \<in> set ps. plan_fits pid d p" and dist: "distinct (map fp_path ps)"
    and d': "files d' = files d @ map (plan_row pid) (filter fp_shouldWrite ps)"
    and p: "p \<in> set ps"
  shows "map_option pf_content (latest_file pid (fp_path p) d') = Some (fp_content p) \<and>
    current_version pid (fp_path p) d' =
      fp_actualVersion p + (if fp_shouldWrite p then 1 else 0)"
proof -
  have rows: "file_rows pid (fp_path p) d' = file_rows pid (fp_path p) d @
      (if fp_shouldWrite p then [plan_row pid p] else [])"
    using filter_path_planned [OF dist p]
    by (simp add: d' file_rows_def filter_map o_def plan_row_def conj_commute)
  have f: "fp_actualVersion p = current_version pid (fp_path p) d"
    "fp_shouldWrite p = (map_option pf_content (latest_file pid (fp_path p) d) \<noteq> Some (fp_content p))"
    using fit p by (auto simp: plan_fits_def)
  show ?thesis
  proof (cases "fp_shouldWrite p")
    case False
    then have "latest_file pid (fp_path p) d' = latest_file pid (fp_path p) d"
      using rows by (simp add: latest_file_def)
    with f False show ?thesis by (simp add: current_version_def)
  next
    case True
    have "\<forall>g \<in> set (file_rows pid (fp_path p) d). pf_version g < pf_version (plan_row pid p)"
    proof
      fix g assume g: "g \<in> set (file_rows pid (fp_path p) d)"
      then obtain h where h: "latest_file pid (fp_path p) d = Some h"
        by (cases "latest_file pid (fp_path p) d") (auto simp: latest_file_def)
      then have "pf_version g \<le> pf_version h"
        using g unfolding latest_file_def by (auto dest: max_version_Some)
      with h f show "pf_version g < pf_version (plan_row pid p)"
        by (simp add: plan_row_def current_version_def)
    qed
    then have "latest_file pid (fp_path p) d' = Some (plan_row pid p)"
      using rows True by (simp add: latest_file_def max_version_snoc)
    with True show ?thesis by (simp add: plan_row_def current_version_def)
  qed
qed

lemma unwritten_rows:
  assumes "files d' = files d @ map (plan_row pid) ps" and "j \<noteq> pid \<or> path \<notin> fp_path ` set ps"
  shows "file_rows j path d' = file_rows j path d"
  using assms by (auto simp: file_rows_def filter_empty_conv plan_row_def)

lemma files_supersede [simp]: "files (supersede_artifacts pid k d) = files d"
  by (simp add: supersede_artifacts_def)

lemma files_upsert: "upsert_artifact r j k pl d = (a, d') \<Longrightarrow> files d' = files d"
  by (auto simp: upsert_artifact_def split: option.splits)

lemma files_appendEvents: "appendEvents i bs d = Inr d' \<Longrightarrow> files d' = files d"
  by (induction bs arbitrary: d) (auto simp: bind_res_Inr_iff dest: appendEvent_frame(2))

lemma commit_task_files:
  assumes c: "commit_task X p r t ps d = Inr (x, d')" and ok: "db_ok d"
    and dist: "distinct (map fp_path ps)" and fit: "\<forall>q \<in> set ps. plan_fits (r_projectId r) d q"
  shows "files d' = files d @ map (plan_row (r_projectId r)) (filter fp_shouldWrite ps)"
proof -
  let ?d2 = "d\<lparr>files := files d @ map (plan_row (r_projectId r)) (filter fp_shouldWrite ps)\<rparr>"
  let ?d3 = "set_task (ct_taskId p) (t\<lparr>t_status := T_COMPLETED, t_output := Some (ct_output p),
    t_error := None, t_completedAt := Some (ct_now p)\<rparr>) ?d2"
  note w = write_plans_total [OF ok dist fit]
  obtain d4 bs where a: "appendEvents (ct_runId p) bs d4 = Inr d'" and f: "files d4 = files ?d3"
  proof (cases "t_agentName t = David")
    case False
    with c w that [of _ ?d3] show ?thesis
      by (auto simp: commit_task_def Let_def bind_res_Inr_iff)
  next
    case True
    with c w obtain pl art d4 bs where
        "upsert_artifact r (ct_runId p) (ct_taskId p) pl
           (supersede_artifacts (r_projectId r) (ct_taskId p) ?d3) = (art, d4)"
      and "appendEvents (ct_runId p) bs d4 = Inr d'"
      by (auto simp: commit_task_def Let_def bind_res_Inr_iff split: sum.splits prod.splits)
    with that [of bs d4] show ?thesis by (simp add: files_upsert)
  qed
  from files_appendEvents [OF a] f show ?thesis by simp
qed

section \<open>Properties\<close>

lemma completeTask_cases:
  assumes "completeTask X p d = Inr (x, d')" and "task_of d (ct_taskId p) = Some t"
    and "t_status t \<noteq> T_COMPLETED" and "x \<noteq> CompleteStopped"
  obtains d1 r where
    "touchActiveRun (ct_runId p) (ct_expectedControlVersion p) (ct_now p) d = (True, d1)"
    "run_of d1 (ct_runId p) = Some r" "files d1 = files d" "tasks d1 = tasks d" "events d1 = events d"
    "artifacts d1 = artifacts d" "map_option r_projectId (run_of d (ct_runId p)) = Some (r_projectId r)"
    "(case plan_files (r_projectId r) d1 (case ct_generatedFiles p of None \<Rightarrow> [] | Some fs \<Rightarrow> fs) of
        Inl (Conflict q e a) \<Rightarrow> x = CompleteConflict q e a \<and> d' = d1
      | Inr ps \<Rightarrow> commit_task X p r t ps d1 = Inr (x, d'))"
proof -
  obtain b d1 where t: "touchActiveRun (ct_runId p) (ct_expectedControlVersion p) (ct_now p) d = (b, d1)"
    by (cases "touchActiveRun (ct_runId p) (ct_expectedControlVersion p) (ct_now p) d")
  with assms have b by (auto simp: completeTask_def split: if_splits)
  with t obtain r where r: "run_of d (ct_runId p) = Some r"
      and d1: "d1 = set_run (ct_runId p) (r\<lparr>r_lastHeartbeatAt := Some (ct_now p)\<rparr>) d"
    by (auto simp: touchActiveRun_True)
  show ?thesis
  proof (rule that)
    show "touchActiveRun (ct_runId p) (ct_expectedControlVersion p) (ct_now p) d = (True, d1)"
      using t \<open>b\<close> by simp
    show "run_of d1 (ct_runId p) = Some (r\<lparr>r_lastHeartbeatAt := Some (ct_now p)\<rparr>)"
      by (simp add: d1)
    show "(case plan_files (r_projectId (r\<lparr>r_lastHeartbeatAt := Some (ct_now p)\<rparr>)) d1
              (case ct_generatedFiles p of None \<Rightarrow> [] | Some fs \<Rightarrow> fs) of
        Inl (Conflict q e a) \<Rightarrow> x = CompleteConflict q e a \<and> d' = d1
      | Inr ps \<Rightarrow> commit_task X p (r\<lparr>r_lastHeartbeatAt := Some (ct_now p)\<rparr>) t ps d1 = Inr (x, d'))"
      using assms t \<open>b\<close> r
      by (auto simp: completeTask_def d1 split: sum.splits conflict.splits)
  qed (use r in \<open>simp_all add: d1\<close>)
qed

lemma same_files_rows: "files d1 = files d \<Longrightarrow> file_rows j path d1 = file_rows j path d"
  by (simp add: file_rows_def)

lemma same_files_current: "files d1 = files d \<Longrightarrow> current_version j path d1 = current_version j path d"
  by (simp add: current_version_def latest_file_def file_rows_def)

lemma completeTask_ok_commits:
  assumes c: "completeTask X p d = Inr (CompleteOk w, d')" and ok: "db_ok d"
    and t: "task_of d (ct_taskId p) = Some t" "t_status t \<noteq> T_COMPLETED"
    and r: "run_of d (ct_runId p) = Some r" and fs: "ct_generatedFiles p = Some fs"
    and dist: "distinct (map gf_path fs)"
  obtains ps d1 where "db_ok d1" "files d1 = files d" "plan_files (r_projectId r) d1 fs = Inr ps"
    "distinct (map fp_path ps)" "\<forall>q \<in> set ps. plan_fits (r_projectId r) d1 q"
    "files d' = files d1 @ map (plan_row (r_projectId r)) (filter fp_shouldWrite ps)"
proof -
  from c t obtain d1 r1 where touch:
      "touchActiveRun (ct_runId p) (ct_expectedControlVersion p) (ct_now p) d = (True, d1)"
    and "files d1 = files d" "r_projectId r1 = r_projectId r"
    and cs: "(case plan_files (r_projectId r1) d1 fs of
        Inl (Conflict q e a) \<Rightarrow> CompleteOk w = CompleteConflict q e a \<and> d' = d1
      | Inr ps \<Rightarrow> commit_task X p r1 t ps d1 = Inr (CompleteOk w, d'))"
    using r fs by (elim completeTask_cases) auto
  have ok1: "db_ok d1" using ok touch by (rule db_ok_touch)
  from cs obtain ps where ps: "plan_files (r_projectId r) d1 fs = Inr ps"
      and cm: "commit_task X p r1 t ps d1 = Inr (CompleteOk w, d')"
    using \<open>r_projectId r1 = r_projectId r\<close> by (auto split: sum.splits conflict.splits)
  note pa = plan_files_actual [OF ps]
  then have "distinct (map fp_path ps)" using dist by simp
  moreover have "\<forall>q \<in> set ps. plan_fits (r_projectId r) d1 q" using pa by simp
  ultimately show ?thesis
    using that [OF ok1 \<open>files d1 = files d\<close> ps] commit_task_files [OF cm ok1]
      \<open>r_projectId r1 = r_projectId r\<close> by simp
qed

text \<open>C1: When the worker completes a task with generated files and the store accepts it,
  the store held exactly the version each file expected; afterwards every generated path's
  latest revision has the generated content at the expected version (content unchanged) or
  the next one (content changed), and no revision of any other path or project was touched.\<close>

theorem completeTask_files:
  assumes "completeTask X p d = Inr (CompleteOk w, d')" and "db_ok d"
    and "task_of d (ct_taskId p) = Some t" and "t_status t \<noteq> T_COMPLETED"
    and "run_of d (ct_runId p) = Some r" and "ct_generatedFiles p = Some fs"
    and "distinct (map gf_path fs)"
  shows "(\<forall>f \<in> set fs.
      current_version (r_projectId r) (gf_path f) d = gf_expectedVersion f \<and>
      map_option pf_content (latest_file (r_projectId r) (gf_path f) d') = Some (gf_content f) \<and>
      current_version (r_projectId r) (gf_path f) d' = gf_expectedVersion f +
        (if map_option pf_content (latest_file (r_projectId r) (gf_path f) d) = Some (gf_content f)
         then 0 else 1)) \<and>
    (\<forall>j path. j \<noteq> r_projectId r \<or> path \<notin> gf_path ` set fs \<longrightarrow> file_rows j path d' = file_rows j path d)"
proof -
  let ?pid = "r_projectId r"
  from assms obtain ps d1 where ok1: "db_ok d1" and f1: "files d1 = files d"
    and pl: "plan_files ?pid d1 fs = Inr ps" and dist: "distinct (map fp_path ps)"
    and fit: "\<forall>q \<in> set ps. plan_fits ?pid d1 q"
    and f': "files d' = files d1 @ map (plan_row ?pid) (filter fp_shouldWrite ps)"
    by (rule completeTask_ok_commits)
  note pa = plan_files_actual [OF pl]
  have lat: "latest_file ?pid q d1 = latest_file ?pid q d" for q
    using f1 by (simp add: latest_file_def file_rows_def)
  have cur: "current_version ?pid q d1 = current_version ?pid q d" for q
    using lat by (simp add: current_version_def)
  have "\<forall>f \<in> set fs. \<exists>q \<in> set ps. fp_path q = gf_path f \<and> fp_content q = gf_content f \<and>
      fp_actualVersion q = gf_expectedVersion f"
  proof
    fix f assume "f \<in> set fs"
    then obtain n where n: "n < length fs" "fs ! n = f" by (auto simp: in_set_conv_nth)
    have len: "length ps = length fs" using pa by (metis length_map)
    then have "ps ! n \<in> set ps" "fp_path (ps ! n) = gf_path f"
      "fp_content (ps ! n) = gf_content f" "fp_actualVersion (ps ! n) = gf_expectedVersion f"
      using n pa by (metis nth_map nth_mem)+
    then show "\<exists>q \<in> set ps. fp_path q = gf_path f \<and> fp_content q = gf_content f \<and>
        fp_actualVersion q = gf_expectedVersion f" by blast
  qed
  moreover have "gf_path ` set fs = fp_path ` set ps" using pa by (metis set_map)
  ultimately show ?thesis
    using written_rows [OF ok1 fit dist f'] unwritten_rows [OF f'] fit same_files_rows [OF f1]
    by (fastforce simp: plan_fits_def lat cur)
qed

definition sample_complete :: complete_task_input where
  "sample_complete = \<lparr>ct_runId = 3, ct_expectedControlVersion = 1, ct_taskId = 4,
     ct_output = OAlex \<lparr>alex_files = [], alex_rest = JNull\<rparr>,
     ct_generatedFiles = Some [\<lparr>gf_path = ''app/page.tsx'', gf_content = ''v2'', gf_expectedVersion = 1\<rparr>],
     ct_now = 200\<rparr>"

definition is_complete_ok :: "thrown + complete_result \<times> db \<Rightarrow> bool" where
  "is_complete_ok x = (case x of Inr (CompleteOk w, d) \<Rightarrow> True | _ \<Rightarrow> False)"

lemma is_complete_ok_ex: "is_complete_ok x \<Longrightarrow> \<exists>w d'. x = Inr (CompleteOk w, d')"
  by (auto simp: is_complete_ok_def split: sum.splits complete_result.splits)

theorem completeTask_files_witness:
  "\<exists>w d'. completeTask sample_externals sample_complete sample_db = Inr (CompleteOk w, d') \<and>
     current_version 2 ''app/page.tsx'' d' = 2"
proof -
  have "is_complete_ok (completeTask sample_externals sample_complete sample_db)"
    by code_simp
  then obtain w d' where c: "completeTask sample_externals sample_complete sample_db = Inr (CompleteOk w, d')"
    by (auto dest: is_complete_ok_ex)
  have "current_version (r_projectId sample_run) ''app/page.tsx'' d' = 2"
    using completeTask_files [OF c db_ok_sample, of sample_task sample_run
        "[\<lparr>gf_path = ''app/page.tsx'', gf_content = ''v2'', gf_expectedVersion = 1\<rparr>]"]
    by (simp add: sample_complete_def sample_defs latest_file_def file_rows_def)
  with c show ?thesis by (auto simp: sample_run_def)
qed

text \<open>A file conflict is atomic: when some generated file does not expect the current
  version of its path, completing the task answers with that path, its expected and its
  actual version, and no file, task, event or artifact changes, so a manual edit is never
  overwritten and never half overwritten.\<close>

lemma completeTask_conflict_atomic:
  assumes "completeTask X p d = Inr (CompleteConflict path e a, d')"
    and "run_of d (ct_runId p) = Some r"
  shows "(\<exists>fs. ct_generatedFiles p = Some fs \<and>
            (\<exists>f \<in> set fs. gf_path f = path \<and> gf_expectedVersion f = e)) \<and>
         a = current_version (r_projectId r) path d \<and> a \<noteq> e \<and>
         files d' = files d \<and> tasks d' = tasks d \<and> events d' = events d \<and> artifacts d' = artifacts d"
proof -
  obtain b d1 where tch: "touchActiveRun (ct_runId p) (ct_expectedControlVersion p) (ct_now p) d = (b, d1)"
    by (cases "touchActiveRun (ct_runId p) (ct_expectedControlVersion p) (ct_now p) d")
  with assms have b by (auto simp: completeTask_def split: if_splits)
  with assms tch obtain t where "task_of d (ct_taskId p) = Some t" "t_status t \<noteq> T_COMPLETED"
    by (auto simp: completeTask_def touchActiveRun_True split: if_splits option.splits)
  with assms(1) obtain d1 r1 where "files d1 = files d" "tasks d1 = tasks d" "events d1 = events d"
      "artifacts d1 = artifacts d" "map_option r_projectId (run_of d (ct_runId p)) = Some (r_projectId r1)"
      and cs: "(case plan_files (r_projectId r1) d1 (case ct_generatedFiles p of None \<Rightarrow> [] | Some fs \<Rightarrow> fs) of
        Inl (Conflict q e' a') \<Rightarrow> CompleteConflict path e a = CompleteConflict q e' a' \<and> d' = d1
      | Inr ps \<Rightarrow> commit_task X p r1 t ps d1 = Inr (CompleteConflict path e a, d'))"
    by (elim completeTask_cases) auto
  moreover have "commit_task X p r1 t ps d1 \<noteq> Inr (CompleteConflict path e a, d')" for ps
    by (auto simp: commit_task_def Let_def bind_res_Inr_iff split: if_splits sum.splits prod.splits)
  ultimately have "plan_files (r_projectId r) d1 (case ct_generatedFiles p of None \<Rightarrow> [] | Some fs \<Rightarrow> fs)
      = Inl (Conflict path e a)" "d' = d1"
    using assms(2) by (auto split: sum.splits conflict.splits)
  then have "(\<exists>f \<in> set (case ct_generatedFiles p of None \<Rightarrow> [] | Some fs \<Rightarrow> fs).
      gf_path f = path \<and> gf_expectedVersion f = e) \<and>
      a = current_version (r_projectId r) path d1 \<and> a \<noteq> e"
    by (auto dest!: plan_files_Inl)
  moreover have "current_version (r_projectId r) path d1 = current_version (r_projectId r) path d"
    using \<open>files d1 = files d\<close> by (rule same_files_current)
  ultimately show ?thesis
    using \<open>d' = d1\<close> \<open>files d1 = files d\<close> \<open>tasks d1 = tasks d\<close> \<open>events d1 = events d\<close>
      \<open>artifacts d1 = artifacts d\<close>
    by (cases "ct_generatedFiles p") auto
qed

definition sample_conflict :: complete_task_input where
  "sample_conflict = sample_complete
     \<lparr>ct_generatedFiles := Some [\<lparr>gf_path = ''new.ts'', gf_content = ''x'', gf_expectedVersion = 0\<rparr>,
        \<lparr>gf_path = ''app/page.tsx'', gf_content = ''v2'', gf_expectedVersion = 0\<rparr>]\<rparr>"

definition conflict_of :: "thrown + complete_result \<times> db \<Rightarrow> (string \<times> nat \<times> nat) option" where
  "conflict_of x = (case x of Inr (CompleteConflict q e a, d) \<Rightarrow> Some (q, e, a) | _ \<Rightarrow> None)"

lemma conflict_of_Some: "conflict_of x = Some (q, e, a) \<Longrightarrow> \<exists>d'. x = Inr (CompleteConflict q e a, d')"
  by (auto simp: conflict_of_def split: sum.splits complete_result.splits)

text \<open>Redelivery is harmless: completing a task that is already completed answers with
  the stored output and writes nothing but the heartbeat of the run, whatever output and
  files the repeated attempt carries.\<close>

lemma completeTask_idempotent:
  assumes "active (ct_runId p) (ct_expectedControlVersion p) d"
    and "task_of d (ct_taskId p) = Some t" and "t_status t = T_COMPLETED"
  shows "\<exists>r. run_of d (ct_runId p) = Some r \<and>
    completeTask X p d = Inr (CompleteOk (toWorkerTaskRecord (ct_taskId p) t),
      set_run (ct_runId p) (r\<lparr>r_lastHeartbeatAt := Some (ct_now p)\<rparr>) d)"
proof -
  from assms(1) obtain r where r: "run_of d (ct_runId p) = Some r" "r_status r = RUNNING"
      "r_controlVersion r = ct_expectedControlVersion p"
    by (auto simp: active_def)
  then have "touchActiveRun (ct_runId p) (ct_expectedControlVersion p) (ct_now p) d =
      (True, set_run (ct_runId p) (r\<lparr>r_lastHeartbeatAt := Some (ct_now p)\<rparr>) d)"
    by (simp add: touchActiveRun_True)
  with assms r show ?thesis by (simp add: completeTask_def)
qed

definition sample_done_db :: db where
  "sample_done_db = sample_db\<lparr>tasks := [(4, sample_task\<lparr>t_status := T_COMPLETED\<rparr>)]\<rparr>"



end
