(* ===== verification/SandboxRepository.thy ===== *)
theory SandboxRepository
  imports RunTransactions
begin

text \<open>
  The sandbox half of \<open>PrismaWorkerRepository\<close> (\<open>orchestrator-worker/src/repository.ts\<close>):
  sandbox sessions, their recorded commands and preview sessions, for a run that is being
  validated and for the preview of a finished run that is opened again
  (\<open>preview-reopen.ts\<close>). The provider column is always E2B. A preview has the key of its
  sandbox session, so the table \<open>previews\<close> is keyed by that one number.
\<close>

section \<open>Statements\<close>

abbreviation session_of :: "db \<Rightarrow> uuid \<Rightarrow> sandbox_session option" where
  "session_of d \<equiv> map_of (sessions d)"

abbreviation preview_of :: "db \<Rightarrow> uuid \<Rightarrow> preview_session option" where
  "preview_of d \<equiv> map_of (previews d)"

definition set_session :: "uuid \<Rightarrow> sandbox_session \<Rightarrow> db \<Rightarrow> db" where
  "set_session k s d = d\<lparr>sessions := AList.update k s (sessions d)\<rparr>"

definition set_preview :: "uuid \<Rightarrow> preview_session \<Rightarrow> db \<Rightarrow> db" where
  "set_preview k p d = d\<lparr>previews := AList.update k p (previews d)\<rparr>"

lemma session_of_set_session [simp]: "session_of (set_session k s d) = (session_of d)(k \<mapsto> s)"
  by (rule ext) (simp add: set_session_def update_conv)

lemma preview_of_set_preview [simp]: "preview_of (set_preview k p d) = (preview_of d)(k \<mapsto> p)"
  by (rule ext) (simp add: set_preview_def update_conv)

lemma set_session_frame [simp]:
  "runs (set_session k s d) = runs d" "tasks (set_session k s d) = tasks d"
  "events (set_session k s d) = events d" "files (set_session k s d) = files d"
  "previews (set_session k s d) = previews d" "commands (set_session k s d) = commands d"
  "next_id (set_session k s d) = next_id d" "artifacts (set_session k s d) = artifacts d"
  by (simp_all add: set_session_def)

lemma set_preview_frame [simp]:
  "runs (set_preview k p d) = runs d" "tasks (set_preview k p d) = tasks d"
  "events (set_preview k p d) = events d" "files (set_preview k p d) = files d"
  "sessions (set_preview k p d) = sessions d" "commands (set_preview k p d) = commands d"
  "next_id (set_preview k p d) = next_id d" "artifacts (set_preview k p d) = artifacts d"
  by (simp_all add: set_preview_def)

text \<open>\<open>@@unique([provider, externalId])\<close>: another session holds the sandbox already.\<close>

definition external_taken :: "uuid option \<Rightarrow> string \<Rightarrow> db \<Rightarrow> bool" where
  "external_taken own x d \<longleftrightarrow> list_ex (\<lambda>(k, s). s_externalId s = x \<and> Some k \<noteq> own) (sessions d)"

definition create_session :: "sandbox_session \<Rightarrow> db \<Rightarrow> thrown + uuid \<times> db" where
  "create_session s d =
     (if external_taken None (s_externalId s) d \<or>
         list_ex (\<lambda>(k, t). s_runId t = s_runId s \<and> s_attempt t = s_attempt s) (sessions d)
      then Inl (PrismaError ''P2002'')
      else Inr (next_id d, (set_session (next_id d) s d)\<lparr>next_id := Suc (next_id d)\<rparr>))"

text \<open>\<open>sandboxSession.updateMany\<close> by key and run.\<close>

definition updateMany_session ::
    "uuid \<Rightarrow> (sandbox_session \<Rightarrow> bool) \<Rightarrow> (sandbox_session \<Rightarrow> sandbox_session) \<Rightarrow> db \<Rightarrow> nat \<times> db" where
  "updateMany_session k q f d =
     (case session_of d k of
        Some s \<Rightarrow> (if q s then (1, set_session k (f s) d) else (0, d))
      | None \<Rightarrow> (0, d))"

section \<open>Sessions of a run\<close>

record create_session_input =
  cs_run :: run_execution
  cs_attempt :: nat
  cs_externalId :: string
  cs_expiresAt :: time
  cs_now :: time

datatype session_result = SessionOk uuid | SessionStopped

definition createSandboxSession :: "create_session_input \<Rightarrow> session_result tx" where
  "createSandboxSession i d =
     (let r = cs_run i;
          (active, d1) = touchActiveRun (x_id r) (x_controlVersion r) (cs_now i) d
      in if \<not> active then Inr (SessionStopped, d1)
         else case find_first_opt (\<lambda>(k, s). s_runId s = x_id r \<and> s_attempt s = cs_attempt i) (sessions d1) of
                Some (k, s) \<Rightarrow>
                  (if external_taken (Some k) (cs_externalId i) d1 then Inl (PrismaError ''P2002'')
                   else Inr (SessionOk k,
                          set_session k (s\<lparr>s_externalId := cs_externalId i, s_status := S_PROVISIONING,
                                           s_expiresAt := cs_expiresAt i, s_error := None,
                                           s_terminatedAt := None\<rparr>) d1))
              | None \<Rightarrow>
                  bind_res (create_session
                      \<lparr>s_workspaceId = x_workspaceId r, s_projectId = x_projectId r, s_runId = x_id r,
                       s_externalId = cs_externalId i, s_attempt = cs_attempt i,
                       s_status = S_PROVISIONING, s_expiresAt = cs_expiresAt i, s_error = None,
                       s_terminatedAt = None\<rparr> d1)
                    (\<lambda>(k, d2). Inr (SessionOk k, d2)))"

definition markSandboxFilesRestored :: "uuid \<Rightarrow> nat \<Rightarrow> uuid \<Rightarrow> time \<Rightarrow> bool tx" where
  "markSandboxFilesRestored runId cv sid now d =
     (let (active, d1) = touchActiveRun runId cv now d
      in if \<not> active then Inr (False, d1)
         else let (n, d2) = updateMany_session sid (\<lambda>s. s_runId s = runId)
                              (\<lambda>s. s\<lparr>s_status := S_VALIDATING\<rparr>) d1
              in if n \<noteq> 1 then Inr (False, d2)
                 else bind_res (appendEvent runId (SandboxReady sid) d2) (\<lambda>d3. Inr (True, d3)))"

section \<open>Recorded commands\<close>

text \<open>\<open>String.prototype.slice(0, 64_000)\<close> and the marker: at most 64,012 code units.\<close>

definition truncateDiagnostic :: "string \<Rightarrow> string" where
  "truncateDiagnostic v = (if length v \<le> 64000 then v else take 64000 v @ ''\<newline>[truncated]'')"

fun step_name :: "validation_step \<Rightarrow> string" where
  "step_name Install = ''install''"
| "step_name PrismaValidate = ''prisma-validate''"
| "step_name Lint = ''lint''"
| "step_name Typecheck = ''typecheck''"
| "step_name Test = ''test''"
| "step_name Build = ''build''"
| "step_name PreviewStart = ''preview-start''"
| "step_name PreviewHealth = ''preview-health''"
| "step_name DbStart = ''db-start''"
| "step_name DbMigrate = ''db-migrate''"
| "step_name DbSeed = ''db-seed''"
| "step_name Acceptance = ''acceptance''"

definition upper_char :: "char \<Rightarrow> char" where
  "upper_char c = (if (97::nat) \<le> of_char c \<and> of_char c \<le> (122::nat) then char_of (of_char c - (32::nat)) else c)"

definition toSandboxCommandName :: "validation_step \<Rightarrow> string" where
  "toSandboxCommandName s = map (\<lambda>c. upper_char (if c = CHR ''-'' then CHR ''_'' else c)) (step_name s)"

text \<open>The enumeration \<open>SandboxCommandName\<close> of the database schema.\<close>

definition sandbox_command_names :: "string list" where
  "sandbox_command_names =
     [''INSTALL'', ''PRISMA_VALIDATE'', ''LINT'', ''TYPECHECK'', ''TEST'', ''BUILD'', ''PREVIEW_START'',
      ''PREVIEW_HEALTH'', ''ACCEPTANCE'', ''DB_START'', ''DB_MIGRATE'', ''DB_SEED'']"

record step_report =
  st_ordinal :: nat
  st_name :: validation_step
  st_command :: string
  st_exitCode :: int
  st_stdout :: string
  st_stderr :: string
  st_durationMs :: int
  st_startedAt :: time
  st_completedAt :: time

record record_command_input =
  rc_runId :: uuid
  rc_expectedControlVersion :: nat
  rc_sessionId :: uuid
  rc_step :: step_report
  rc_now :: time

definition command_row :: "uuid \<Rightarrow> step_report \<Rightarrow> sandbox_command" where
  "command_row sid s =
     \<lparr>c_sessionId = sid, c_ordinal = st_ordinal s, c_name = toSandboxCommandName (st_name s),
      c_command = st_command s, c_status = (if st_exitCode s = 0 then SUCCEEDED else CMD_FAILED),
      c_exitCode = st_exitCode s, c_stdout = truncateDiagnostic (st_stdout s),
      c_stderr = truncateDiagnostic (st_stderr s), c_durationMs = st_durationMs s,
      c_startedAt = st_startedAt s, c_completedAt = st_completedAt s\<rparr>"

definition same_command_key :: "uuid \<Rightarrow> nat \<Rightarrow> sandbox_command \<Rightarrow> bool" where
  "same_command_key sid n c \<longleftrightarrow> c_sessionId c = sid \<and> c_ordinal c = n"

text \<open>The upsert: the row of the key (session, ordinal) is replaced, or added.\<close>

definition upsert_command :: "sandbox_command \<Rightarrow> db \<Rightarrow> db" where
  "upsert_command c d =
     (if list_ex (same_command_key (c_sessionId c) (c_ordinal c)) (commands d)
      then d\<lparr>commands := map (\<lambda>c'. if same_command_key (c_sessionId c) (c_ordinal c) c' then c else c')
                            (commands d)\<rparr>
      else d\<lparr>commands := commands d @ [c]\<rparr>)"

definition progress_of :: "uuid \<Rightarrow> step_report \<Rightarrow> step_progress" where
  "progress_of sid s =
     \<lparr>pr_session = sid, pr_ordinal = st_ordinal s, pr_step = st_name s,
      pr_status = (if st_exitCode s = 0 then SUCCEEDED else CMD_FAILED), pr_exitCode = st_exitCode s,
      pr_durationMs = st_durationMs s, pr_stdout = truncateDiagnostic (st_stdout s),
      pr_stderr = truncateDiagnostic (st_stderr s)\<rparr>"

definition recordSandboxCommand :: "record_command_input \<Rightarrow> bool tx" where
  "recordSandboxCommand i d =
     (let (active, d1) = touchActiveRun (rc_runId i) (rc_expectedControlVersion i) (rc_now i) d
      in if \<not> active then Inr (False, d1)
         else if \<not> (case session_of d1 (rc_sessionId i) of None \<Rightarrow> False | Some s \<Rightarrow> s_runId s = rc_runId i)
         then Inr (False, d1)
         else bind_res
                (appendEvent (rc_runId i) (TaskProgress (progress_of (rc_sessionId i) (rc_step i)))
                   (upsert_command (command_row (rc_sessionId i) (rc_step i)) d1))
                (\<lambda>d2. Inr (True, d2)))"

section \<open>Previews\<close>

record preview_ready_input =
  pv_run :: run_execution
  pv_sessionId :: uuid
  pv_gatewayUrl :: string
  pv_processId :: int
  pv_expiresAt :: time
  pv_now :: time

definition upsert_preview :: "preview_ready_input \<Rightarrow> db \<Rightarrow> db" where
  "upsert_preview i d =
     (case preview_of d (pv_sessionId i) of
        Some p \<Rightarrow> set_preview (pv_sessionId i)
          (p\<lparr>p_status := P_READY, p_gatewayUrl := pv_gatewayUrl i, p_processId := pv_processId i,
             p_expiresAt := pv_expiresAt i, p_readyAt := pv_now i, p_stoppedAt := None, p_error := None\<rparr>) d
      | None \<Rightarrow> set_preview (pv_sessionId i)
          \<lparr>p_workspaceId = x_workspaceId (pv_run i), p_projectId = x_projectId (pv_run i),
           p_runId = x_id (pv_run i), p_status = P_READY, p_gatewayUrl = pv_gatewayUrl i,
           p_processId = pv_processId i, p_expiresAt = pv_expiresAt i, p_readyAt = pv_now i,
           p_stoppedAt = None, p_error = None\<rparr> d)"

definition recordPreviewReady :: "preview_ready_input \<Rightarrow> bool tx" where
  "recordPreviewReady i d =
     (let r = pv_run i;
          (active, d1) = touchActiveRun (x_id r) (x_controlVersion r) (pv_now i) d
      in if \<not> active then Inr (False, d1)
         else let (n, d2) = updateMany_session (pv_sessionId i) (\<lambda>s. s_runId s = x_id r)
                              (\<lambda>s. s\<lparr>s_status := S_READY, s_error := None\<rparr>) d1
              in if n \<noteq> 1 then Inr (False, d2)
                 else bind_res
                        (appendEvent (x_id r)
                           (PreviewUpdated (pv_sessionId i) PvReady (Some (pv_gatewayUrl i)) (pv_expiresAt i))
                           (upsert_preview i d2))
                        (\<lambda>d3. Inr (True, d3)))"

definition markSandboxFailed :: "uuid \<Rightarrow> json \<Rightarrow> time \<Rightarrow> unit tx" where
  "markSandboxFailed sid err now d =
     Inr ((), snd (updateMany_session sid (\<lambda>_. True)
                (\<lambda>s. s\<lparr>s_status := S_FAILED, s_error := Some err, s_terminatedAt := Some now\<rparr>) d))"

definition markPreviewStopped :: "uuid \<Rightarrow> time \<Rightarrow> unit tx" where
  "markPreviewStopped sid now d =
     (case session_of d sid of
        None \<Rightarrow> Inr ((), d)
      | Some s \<Rightarrow>
          (let d1 = set_session sid (s\<lparr>s_status := S_TERMINATED, s_terminatedAt := Some now\<rparr>) d
           in case preview_of d sid of
                None \<Rightarrow> Inr ((), d1)
              | Some p \<Rightarrow>
                  bind_res
                    (appendEvent (s_runId s) (PreviewUpdated sid PvStopped None (p_expiresAt p))
                       (set_preview sid (p\<lparr>p_status := P_STOPPED, p_stoppedAt := Some now\<rparr>) d1))
                    (\<lambda>d2. Inr ((), d2))))"

section \<open>Opening the preview of a finished run again\<close>

definition PREVIEW_REOPEN_FIRST_ATTEMPT :: nat where
  "PREVIEW_REOPEN_FIRST_ATTEMPT = 1001"

record reopen_input =
  ro_projectId :: uuid
  ro_workspaceId :: uuid
  ro_runId :: uuid
  ro_externalId :: string
  ro_expiresAt :: time

text \<open>\<open>_max.attempt ?? 0\<close> over the sessions of a run.\<close>

definition max_attempt :: "uuid \<Rightarrow> db \<Rightarrow> nat" where
  "max_attempt i d = foldr max (map (s_attempt \<circ> snd) (filter (\<lambda>(k, s). s_runId s = i) (sessions d))) 0"

definition createPreviewReopenSession :: "reopen_input \<Rightarrow> uuid option tx" where
  "createPreviewReopenSession i d =
     (case run_of d (ro_runId i) of
        None \<Rightarrow> Inr (None, d)
      | Some r \<Rightarrow>
          (if r_projectId r \<noteq> ro_projectId i \<or> r_workspaceId r \<noteq> ro_workspaceId i \<or> r_status r \<noteq> COMPLETED
           then Inr (None, d)
           else bind_res (create_session
                  \<lparr>s_workspaceId = ro_workspaceId i, s_projectId = ro_projectId i, s_runId = ro_runId i,
                   s_externalId = ro_externalId i,
                   s_attempt = max (PREVIEW_REOPEN_FIRST_ATTEMPT - 1) (max_attempt (ro_runId i) d) + 1,
                   s_status = S_PROVISIONING, s_expiresAt = ro_expiresAt i, s_error = None,
                   s_terminatedAt = None\<rparr> d)
                (\<lambda>(k, d1). Inr (Some k, d1))))"

record reopened_input =
  rp_sessionId :: uuid
  rp_projectId :: uuid
  rp_workspaceId :: uuid
  rp_runId :: uuid
  rp_gatewayUrl :: string
  rp_processId :: int
  rp_expiresAt :: time
  rp_now :: time

definition recordPreviewReopened :: "reopened_input \<Rightarrow> unit tx" where
  "recordPreviewReopened i d =
     (case session_of d (rp_sessionId i) of
        None \<Rightarrow> Inl (PrismaError ''P2025'')
      | Some s \<Rightarrow>
          (let d1 = set_session (rp_sessionId i) (s\<lparr>s_status := S_READY, s_error := None\<rparr>) d
           in if preview_of d1 (rp_sessionId i) \<noteq> None then Inl (PrismaError ''P2002'')
              else bind_res
                     (appendEvent (rp_runId i)
                        (PreviewUpdated (rp_sessionId i) PvReady (Some (rp_gatewayUrl i)) (rp_expiresAt i))
                        (set_preview (rp_sessionId i)
                           \<lparr>p_workspaceId = rp_workspaceId i, p_projectId = rp_projectId i,
                            p_runId = rp_runId i, p_status = P_READY, p_gatewayUrl = rp_gatewayUrl i,
                            p_processId = rp_processId i, p_expiresAt = rp_expiresAt i,
                            p_readyAt = rp_now i, p_stoppedAt = None, p_error = None\<rparr> d1))
                     (\<lambda>d2. Inr ((), d2))))"

definition recordPreviewReopenFailed :: "uuid \<Rightarrow> uuid option \<Rightarrow> json \<Rightarrow> time \<Rightarrow> unit tx" where
  "recordPreviewReopenFailed runId sid err now d =
     (let d1 = (case sid of
                  None \<Rightarrow> d
                | Some k \<Rightarrow> snd (updateMany_session k (\<lambda>_. True)
                     (\<lambda>s. s\<lparr>s_status := S_FAILED, s_error := Some err, s_terminatedAt := Some now\<rparr>) d))
      in bind_res
           (appendEvent runId (PreviewUpdated (case sid of Some k \<Rightarrow> k | None \<Rightarrow> runId) PvError None now) d1)
           (\<lambda>d2. Inr ((), d2)))"

end
