(* ===== verification/SandboxLaws.thy ===== *)
theory SandboxLaws
  imports SandboxRepository
begin

text \<open>
  The laws of the sandbox transactions: the four of a running worker are instances of
  \<open>fenced_transaction\<close>, the tables keep their unique keys, a validation step is recorded
  whatever its diagnostics are, and the attempt numbers of reopened previews are fresh.
\<close>

section \<open>Diagnostics and names\<close>

lemma length_truncateDiagnostic: "length (truncateDiagnostic v) \<le> 64012"
  by (simp add: truncateDiagnostic_def)

lemma truncateDiagnostic_prefix: "prefix (take 64000 v) (truncateDiagnostic v)"
  by (simp add: truncateDiagnostic_def)

lemma truncateDiagnostic_short: "length v \<le> 64000 \<Longrightarrow> truncateDiagnostic v = v"
  by (simp add: truncateDiagnostic_def)

lemma toSandboxCommandName_table:
  "toSandboxCommandName Install = ''INSTALL''"
  "toSandboxCommandName PrismaValidate = ''PRISMA_VALIDATE''"
  "toSandboxCommandName Lint = ''LINT''"
  "toSandboxCommandName Typecheck = ''TYPECHECK''"
  "toSandboxCommandName Test = ''TEST''"
  "toSandboxCommandName Build = ''BUILD''"
  "toSandboxCommandName PreviewStart = ''PREVIEW_START''"
  "toSandboxCommandName PreviewHealth = ''PREVIEW_HEALTH''"
  "toSandboxCommandName DbStart = ''DB_START''"
  "toSandboxCommandName DbMigrate = ''DB_MIGRATE''"
  "toSandboxCommandName DbSeed = ''DB_SEED''"
  "toSandboxCommandName Acceptance = ''ACCEPTANCE''"
  by code_simp+

lemma toSandboxCommandName_db: "toSandboxCommandName s \<in> set sandbox_command_names"
  by (cases s) (simp_all add: toSandboxCommandName_table sandbox_command_names_def)

lemma toSandboxCommandName_inj: "toSandboxCommandName s = toSandboxCommandName t \<longleftrightarrow> s = t"
  by (cases s; cases t) (simp_all add: toSandboxCommandName_table)

section \<open>Good steps\<close>

text \<open>A step that leaves every table alone that \<open>good_step\<close> reads.\<close>

lemma good_step_other:
  assumes "runs d' = runs d" "tasks d' = tasks d" "events d' = events d" "files d' = files d"
    and "fst ` set (artifacts d') = fst ` set (artifacts d)"
    and "next_id d \<le> next_id d'"
    and "\<And>k. k \<in> fst ` set (sessions d') \<Longrightarrow> k \<in> fst ` set (sessions d) \<or> k < next_id d'"
  shows "good_step i d d'"
proof -
  have "keys_ok d \<Longrightarrow> keys_ok d'"
    using assms(6,7) unfolding keys_ok_def assms(1,2,5) by (meson less_le_trans)
  moreover have "events_ok d' = events_ok d" by (rule events_ok_cong) (simp_all add: assms)
  moreover have "files_ok d' = files_ok d" by (rule files_ok_cong) (simp add: assms)
  moreover have "tasks_ok d' = tasks_ok d" by (rule tasks_ok_cong) (simp add: assms)
  ultimately have "db_ok d \<longrightarrow> db_ok d'" by (simp add: db_ok_def)
  moreover have "runs_kept d d'" using assms(1) by (rule runs_kept_eq)
  moreover have "log_extends i d d'" using assms(3) by (rule log_extends_same)
  ultimately show ?thesis by (simp add: good_step_def)
qed

lemma session_key_in: "session_of d k = Some s \<Longrightarrow> k \<in> fst ` set (sessions d)"
  by (force dest: map_of_SomeD)

lemma good_set_session: "session_of d k = Some s \<Longrightarrow> good_step i d (set_session k s' d)"
  by (rule good_step_other)
     (auto simp: set_session_def fst_set_update dest: session_key_in)

lemma good_set_preview: "good_step i d (set_preview k p d)"
  by (rule good_step_other) (auto simp: set_preview_def)

lemma good_upsert_preview: "good_step i d (upsert_preview p d)"
  by (auto simp: upsert_preview_def good_set_preview split: option.splits)

lemma good_upsert_command: "good_step i d (upsert_command c d)"
  by (rule good_step_other) (auto simp: upsert_command_def split: if_splits)

lemma create_session_Inr:
  "create_session s d = Inr (k, d') \<longleftrightarrow>
     k = next_id d \<and> d' = (set_session (next_id d) s d)\<lparr>next_id := Suc (next_id d)\<rparr> \<and>
     \<not> external_taken None (s_externalId s) d \<and>
     \<not> list_ex (\<lambda>(k, t). s_runId t = s_runId s \<and> s_attempt t = s_attempt s) (sessions d)"
  by (auto simp: create_session_def)

lemma good_create_session: "create_session s d = Inr (k, d') \<Longrightarrow> good_step i d d'"
  by (rule good_step_other) (auto simp: create_session_Inr set_session_def fst_set_update)

lemma updateMany_session_cases:
  "updateMany_session k q f d = (n, d') \<Longrightarrow>
     (\<exists>s. session_of d k = Some s \<and> q s \<and> n = 1 \<and> d' = set_session k (f s) d) \<or> n = 0 \<and> d' = d"
  by (auto simp: updateMany_session_def split: option.splits if_splits)

lemma good_updateMany_session: "updateMany_session k q f d = (n, d') \<Longrightarrow> good_step i d d'"
  by (auto dest!: updateMany_session_cases intro: good_set_session)

lemma find_session_of:
  assumes "distinct (map fst (sessions d))"
    and "find_first_opt (\<lambda>(k, s). q k s) (sessions d) = Some (k, s)"
  shows "session_of d k = Some s"
  using assms by (auto dest!: find_first_opt_Some)

text \<open>An update of a row found by a scan keeps the keys, whether or not they are unique.\<close>

lemma good_set_session_in:
  assumes "(k, s) \<in> set (sessions d)"
  shows "good_step i d (set_session k s' d)"
proof -
  from assms have "k \<in> fst ` set (sessions d)" by force
  then show ?thesis by (intro good_step_other) (auto simp: set_session_def fst_set_update)
qed

lemma good_createSandboxSession:
  assumes "createSandboxSession p d = Inr (x, d')"
  shows "good_step (x_id (cs_run p)) d d'"
proof -
  obtain b d1 where t: "touchActiveRun (x_id (cs_run p)) (x_controlVersion (cs_run p)) (cs_now p) d = (b, d1)"
    by (cases "touchActiveRun (x_id (cs_run p)) (x_controlVersion (cs_run p)) (cs_now p) d")
  have "good_step (x_id (cs_run p)) d1 d'"
    using assms t
    by (auto simp: createSandboxSession_def Let_def bind_res_Inr_iff split: if_splits option.splits
        dest!: find_first_opt_Some intro: good_set_session_in good_create_session)
  with good_touch [OF t] show ?thesis by (rule good_step_trans)
qed

lemma good_markSandboxFilesRestored:
  assumes "markSandboxFilesRestored i cv sid now d = Inr (x, d')"
  shows "good_step i d d'"
proof -
  obtain b d1 where t: "touchActiveRun i cv now d = (b, d1)"
    by (cases "touchActiveRun i cv now d")
  obtain n d2 where u: "updateMany_session sid (\<lambda>s. s_runId s = i) (\<lambda>s. s\<lparr>s_status := S_VALIDATING\<rparr>) d1 = (n, d2)"
    by (cases "updateMany_session sid (\<lambda>s. s_runId s = i) (\<lambda>s. s\<lparr>s_status := S_VALIDATING\<rparr>) d1")
  have "good_step i d1 d'" using assms t u
    by (auto simp: markSandboxFilesRestored_def bind_res_Inr_iff split: if_splits
        intro: good_updateMany_session good_step_trans [OF good_updateMany_session] good_appendEvent)
  with good_touch [OF t] show ?thesis by (rule good_step_trans)
qed

lemma good_recordSandboxCommand:
  assumes "recordSandboxCommand p d = Inr (x, d')"
  shows "good_step (rc_runId p) d d'"
proof -
  obtain b d1 where t: "touchActiveRun (rc_runId p) (rc_expectedControlVersion p) (rc_now p) d = (b, d1)"
    by (cases "touchActiveRun (rc_runId p) (rc_expectedControlVersion p) (rc_now p) d")
  have "good_step (rc_runId p) d1 d'"
    using assms t
    by (auto simp: recordSandboxCommand_def bind_res_Inr_iff split: if_splits option.splits
        intro: good_step_trans [OF good_upsert_command] good_appendEvent)
  with good_touch [OF t] show ?thesis by (rule good_step_trans)
qed

lemma good_recordPreviewReady:
  assumes "recordPreviewReady p d = Inr (x, d')"
  shows "good_step (x_id (pv_run p)) d d'"
proof -
  let ?i = "x_id (pv_run p)"
  obtain b d1 where t: "touchActiveRun ?i (x_controlVersion (pv_run p)) (pv_now p) d = (b, d1)"
    by (cases "touchActiveRun ?i (x_controlVersion (pv_run p)) (pv_now p) d")
  obtain n d2 where u: "updateMany_session (pv_sessionId p) (\<lambda>s. s_runId s = ?i)
      (\<lambda>s. s\<lparr>s_status := S_READY, s_error := None\<rparr>) d1 = (n, d2)"
    by (cases "updateMany_session (pv_sessionId p) (\<lambda>s. s_runId s = ?i)
      (\<lambda>s. s\<lparr>s_status := S_READY, s_error := None\<rparr>) d1")
  have "good_step ?i d1 d'"
  proof (cases b)
    case False
    with assms t show ?thesis by (simp add: recordPreviewReady_def Let_def)
  next
    case True
    have "good_step ?i d1 d2" using u by (rule good_updateMany_session)
    moreover have "good_step ?i d2 d'" using assms t u True
      by (auto simp: recordPreviewReady_def Let_def bind_res_Inr_iff split: if_splits
          intro: good_step_trans [OF good_upsert_preview] good_appendEvent)
    ultimately show ?thesis by (rule good_step_trans)
  qed
  with good_touch [OF t] show ?thesis by (rule good_step_trans)
qed

interpretation session: fenced_transaction "createSandboxSession p" "x_id (cs_run p)"
    "x_controlVersion (cs_run p)" SessionStopped for p
  by (rule fenced_transactionI) (simp add: createSandboxSession_def stale_touch, rule good_createSandboxSession)

interpretation restored: fenced_transaction "markSandboxFilesRestored i cv sid now" i cv False for i cv sid now
  by (rule fenced_transactionI)
     (simp add: markSandboxFilesRestored_def stale_touch, rule good_markSandboxFilesRestored)

interpretation command: fenced_transaction "recordSandboxCommand p" "rc_runId p"
    "rc_expectedControlVersion p" False for p
  by (rule fenced_transactionI) (simp add: recordSandboxCommand_def stale_touch, rule good_recordSandboxCommand)

interpretation ready: fenced_transaction "recordPreviewReady p" "x_id (pv_run p)"
    "x_controlVersion (pv_run p)" False for p
  by (rule fenced_transactionI)
     (simp add: recordPreviewReady_def Let_def stale_touch, rule good_recordPreviewReady)

section \<open>The tables of the sandbox\<close>

text \<open>
  The unique constraints as an invariant: session keys are distinct and old, a run has one
  session per attempt, a sandbox one session, a session one command per ordinal, and a
  preview belongs to a session.
\<close>

definition session_clash :: "sandbox_session \<Rightarrow> sandbox_session \<Rightarrow> bool" where
  "session_clash s t \<longleftrightarrow> (s_runId s = s_runId t \<and> s_attempt s = s_attempt t) \<or> s_externalId s = s_externalId t"

definition sessions_unique :: "(uuid \<Rightarrow> sandbox_session option) \<Rightarrow> bool" where
  "sessions_unique m \<longleftrightarrow>
     (\<forall>k1 k2 s1 s2. m k1 = Some s1 \<longrightarrow> m k2 = Some s2 \<longrightarrow> session_clash s1 s2 \<longrightarrow> k1 = k2)"

lemma session_clash_sym: "session_clash s t = session_clash t s"
  by (auto simp: session_clash_def)

lemma sessions_unique_upd:
  assumes "sessions_unique m" and "\<And>j t. m j = Some t \<Longrightarrow> j \<noteq> k \<Longrightarrow> \<not> session_clash t s"
  shows "sessions_unique (m(k \<mapsto> s))"
  unfolding sessions_unique_def
proof (intro allI impI)
  fix k1 k2 s1 s2
  assume a: "(m(k \<mapsto> s)) k1 = Some s1" "(m(k \<mapsto> s)) k2 = Some s2" "session_clash s1 s2"
  consider "k1 = k" "k2 = k" | "k1 = k" "k2 \<noteq> k" | "k1 \<noteq> k" "k2 = k" | "k1 \<noteq> k" "k2 \<noteq> k" by blast
  then show "k1 = k2"
  proof cases
    case 2
    with a assms(2) [of k2 s2] show ?thesis by (auto simp: session_clash_sym)
  next
    case 3
    with a assms(2) [of k1 s1] show ?thesis by auto
  next
    case 4
    with a assms(1) show ?thesis unfolding sessions_unique_def by auto
  qed simp
qed

definition sandbox_ok :: "db \<Rightarrow> bool" where
  "sandbox_ok d \<longleftrightarrow> distinct (map fst (sessions d)) \<and>
     (\<forall>k \<in> fst ` set (sessions d). k < next_id d) \<and> sessions_unique (session_of d) \<and>
     distinct (map (\<lambda>c. (c_sessionId c, c_ordinal c)) (commands d)) \<and>
     dom (preview_of d) \<subseteq> dom (session_of d)"

text \<open>The steps that touch these tables.\<close>

inductive sandbox_step :: "db \<Rightarrow> db \<Rightarrow> bool" where
  create: "createSandboxSession p d = Inr (x, d') \<Longrightarrow> sandbox_step d d'"
| restored: "markSandboxFilesRestored i cv sid now d = Inr (b, d') \<Longrightarrow> sandbox_step d d'"
| command: "recordSandboxCommand c d = Inr (b, d') \<Longrightarrow> sandbox_step d d'"
| ready: "recordPreviewReady r d = Inr (b, d') \<Longrightarrow> sandbox_step d d'"
| failed: "markSandboxFailed sid err now d = Inr (u, d') \<Longrightarrow> sandbox_step d d'"
| stopped: "markPreviewStopped sid now d = Inr (u, d') \<Longrightarrow> sandbox_step d d'"
| reopen: "createPreviewReopenSession o' d = Inr (k, d') \<Longrightarrow> sandbox_step d d'"
| reopened: "recordPreviewReopened q d = Inr (u, d') \<Longrightarrow> sandbox_step d d'"
| reopen_failed: "recordPreviewReopenFailed i so err now d = Inr (u, d') \<Longrightarrow> sandbox_step d d'"

lemma sandbox_ok_cong:
  assumes "sessions d' = sessions d" "commands d' = commands d" "previews d' = previews d"
    and "next_id d \<le> next_id d'"
  shows "sandbox_ok d \<Longrightarrow> sandbox_ok d'"
  using assms(4) unfolding sandbox_ok_def assms(1-3) by (meson less_le_trans)

lemma sandbox_ok_touch: "touchActiveRun i cv now d = (b, d') \<Longrightarrow> sandbox_ok d \<Longrightarrow> sandbox_ok d'"
  by (cases b; erule sandbox_ok_cong [rotated 4])
     (auto simp: touchActiveRun_True touchActiveRun_False)

lemma appendEvent_sandbox_frame:
  assumes "appendEvent i b d = Inr d'"
  shows "sessions d' = sessions d" "commands d' = commands d" "previews d' = previews d" "next_id d' = next_id d"
  using assms by (auto simp: appendEvent_Inr set_run_def)

lemma sandbox_ok_append:
  assumes "appendEvent i b d = Inr d'" and "sandbox_ok d"
  shows "sandbox_ok d'"
  using appendEvent_sandbox_frame [OF assms(1)] assms(2) by (intro sandbox_ok_cong [of d' d]) simp_all

lemma external_takenI:
  "session_of d j = Some t \<Longrightarrow> Some j \<noteq> own \<Longrightarrow> external_taken own (s_externalId t) d"
  by (auto simp: external_taken_def list_ex_iff dest: map_of_SomeD)

text \<open>A session is rewritten in place, keeping its run, attempt and sandbox.\<close>

lemma sandbox_ok_set_session:
  assumes ok: "sandbox_ok d" and s: "session_of d k = Some s"
    and same: "s_runId s' = s_runId s" "s_attempt s' = s_attempt s"
    and ext: "s_externalId s' = s_externalId s \<or> \<not> external_taken (Some k) (s_externalId s') d"
  shows "sandbox_ok (set_session k s' d)"
proof -
  have k: "k \<in> fst ` set (sessions d)" using s by (rule session_key_in)
  have uniq: "sessions_unique (session_of d)" using ok by (simp add: sandbox_ok_def)
  have "\<not> session_clash t s'" if j: "session_of d j = Some t" "j \<noteq> k" for j t
  proof -
    have "\<not> session_clash t s" using uniq j s unfolding sessions_unique_def by blast
    moreover have "external_taken (Some k) (s_externalId t) d" using j by (simp add: external_takenI)
    ultimately show ?thesis using same ext unfolding session_clash_def by metis
  qed
  with uniq have "sessions_unique (session_of (set_session k s' d))"
    unfolding session_of_set_session by (rule sessions_unique_upd)
  moreover have "distinct (map fst (sessions (set_session k s' d)))"
    using ok by (simp add: sandbox_ok_def set_session_def distinct_update)
  moreover have "\<forall>j \<in> fst ` set (sessions (set_session k s' d)). j < next_id d"
    using ok k by (auto simp: sandbox_ok_def set_session_def fst_set_update)
  moreover have "dom (preview_of d) \<subseteq> dom (session_of (set_session k s' d))"
    using ok unfolding sandbox_ok_def session_of_set_session by auto
  ultimately show ?thesis using ok unfolding sandbox_ok_def by simp
qed

lemma sandbox_ok_set_preview:
  assumes "sandbox_ok d" and "session_of d k = Some s"
  shows "sandbox_ok (set_preview k p d)"
proof -
  have "k \<in> dom (session_of d)" using assms(2) by (rule domI)
  then have "dom (preview_of (set_preview k p d)) \<subseteq> dom (session_of d)"
    using assms(1) unfolding sandbox_ok_def preview_of_set_preview dom_fun_upd by simp
  then show ?thesis using assms(1) unfolding sandbox_ok_def by simp
qed

lemma sandbox_ok_create_session:
  assumes ok: "sandbox_ok d" and c: "create_session s d = Inr (k, d')"
  shows "sandbox_ok d'"
proof -
  let ?d = "set_session (next_id d) s d"
  from c have d': "d' = ?d\<lparr>next_id := Suc (next_id d)\<rparr>" by (simp add: create_session_Inr)
  have "\<not> session_clash t s" if "session_of d j = Some t" for j t
    using c external_takenI [OF that, of None] that
    by (auto simp: create_session_Inr session_clash_def list_ex_iff dest!: map_of_SomeD)
  then have "sessions_unique (session_of d')"
    using ok sessions_unique_upd [of "session_of d" "next_id d" s]
    by (simp add: sandbox_ok_def d' fun_upd_def set_session_def update_conv')
  moreover have "distinct (map fst (sessions d'))"
    using ok by (simp add: d' sandbox_ok_def set_session_def distinct_update)
  moreover have "\<forall>j \<in> fst ` set (sessions d'). j < next_id d'"
    using ok by (auto simp: d' sandbox_ok_def set_session_def fst_set_update)
  moreover have "dom (preview_of d') \<subseteq> dom (session_of d')"
    using ok unfolding sandbox_ok_def d' by auto
  moreover have "commands d' = commands d" by (simp add: d')
  ultimately show ?thesis using ok unfolding sandbox_ok_def by simp
qed

lemma sandbox_ok_upsert_command:
  assumes "sandbox_ok d"
  shows "sandbox_ok (upsert_command c d)"
proof -
  let ?key = "\<lambda>c. (c_sessionId c, c_ordinal c)"
  have "distinct (map ?key (commands (upsert_command c d)))"
  proof (cases "list_ex (same_command_key (c_sessionId c) (c_ordinal c)) (commands d)")
    case True
    then have "map ?key (commands (upsert_command c d)) = map ?key (commands d)"
      by (simp add: upsert_command_def) (auto simp: same_command_key_def)
    with assms show ?thesis by (simp add: sandbox_ok_def)
  next
    case False
    then have "?key c \<notin> ?key ` set (commands d)"
      by (auto simp: list_ex_iff same_command_key_def)
    with False assms show ?thesis by (simp add: upsert_command_def sandbox_ok_def)
  qed
  then show ?thesis using assms by (auto simp: sandbox_ok_def upsert_command_def)
qed

lemma sandbox_ok_updateMany_session:
  assumes "updateMany_session k q f d = (n, d')" and "sandbox_ok d"
    and "\<And>s. s_runId (f s) = s_runId s \<and> s_attempt (f s) = s_attempt s \<and> s_externalId (f s) = s_externalId s"
  shows "sandbox_ok d'"
  using updateMany_session_cases [OF assms(1)] assms(2,3)
  by (auto intro: sandbox_ok_set_session)

text \<open>Both invariants of one step, so that the steps of a transaction chain.\<close>

definition tables_ok :: "db \<Rightarrow> bool" where
  "tables_ok d \<longleftrightarrow> db_ok d \<and> sandbox_ok d"

lemma tables_ok_good: "good_step i d d' \<Longrightarrow> (sandbox_ok d \<Longrightarrow> sandbox_ok d') \<Longrightarrow> tables_ok d \<Longrightarrow> tables_ok d'"
  by (auto simp: tables_ok_def good_step_def)

lemma tables_ok_touch: "touchActiveRun i cv now d = (b, d') \<Longrightarrow> tables_ok d \<Longrightarrow> tables_ok d'"
  by (rule tables_ok_good [OF good_touch]) (auto intro: sandbox_ok_touch)

lemma tables_ok_append: "appendEvent i b d = Inr d' \<Longrightarrow> tables_ok d \<Longrightarrow> tables_ok d'"
  by (rule tables_ok_good [OF good_appendEvent]) (auto intro: sandbox_ok_append)

lemma tables_ok_set_session:
  assumes "session_of d k = Some s" and "tables_ok d"
    and "s_runId s' = s_runId s" "s_attempt s' = s_attempt s"
    and "s_externalId s' = s_externalId s \<or> \<not> external_taken (Some k) (s_externalId s') d"
  shows "tables_ok (set_session k s' d)"
  using good_set_session [OF assms(1)] _ assms(2)
  by (rule tables_ok_good) (rule sandbox_ok_set_session [OF _ assms(1,3-5)])

lemma tables_ok_updateMany_session:
  assumes "updateMany_session k q f d = (n, d')" and "tables_ok d"
    and "\<And>s. s_runId (f s) = s_runId s \<and> s_attempt (f s) = s_attempt s \<and> s_externalId (f s) = s_externalId s"
  shows "tables_ok d'"
  using updateMany_session_cases [OF assms(1)] assms(2,3) by (auto intro: tables_ok_set_session)

lemma tables_ok_set_preview: "tables_ok d \<Longrightarrow> session_of d k = Some s \<Longrightarrow> tables_ok (set_preview k p d)"
  by (rule tables_ok_good [OF good_set_preview]) (auto intro: sandbox_ok_set_preview)

lemma tables_ok_upsert_preview:
  "tables_ok d \<Longrightarrow> session_of d (pv_sessionId i) = Some s \<Longrightarrow> tables_ok (upsert_preview i d)"
  by (auto simp: upsert_preview_def split: option.splits intro: tables_ok_set_preview)

lemma tables_ok_create_session: "create_session s d = Inr (k, d') \<Longrightarrow> tables_ok d \<Longrightarrow> tables_ok d'"
  by (rule tables_ok_good [OF good_create_session]) (auto intro: sandbox_ok_create_session)

lemma tables_ok_upsert_command: "tables_ok d \<Longrightarrow> tables_ok (upsert_command c d)"
  by (rule tables_ok_good [OF good_upsert_command]) (auto intro: sandbox_ok_upsert_command)

lemmas tables_ok_intros = tables_ok_append tables_ok_set_session tables_ok_set_preview
  tables_ok_upsert_preview tables_ok_create_session tables_ok_upsert_command tables_ok_touch

lemma tables_ok_find:
  assumes "tables_ok d" and "find_first_opt (\<lambda>(k, s). q k s) (sessions d) = Some (k, s)"
  shows "session_of d k = Some s"
  using assms(1) find_session_of [OF _ assms(2)] by (simp add: tables_ok_def sandbox_ok_def)

lemma tables_ok_create:
  assumes "createSandboxSession p d = Inr (x, d')" and "tables_ok d"
  shows "tables_ok d'"
proof -
  obtain b d1 where t: "touchActiveRun (x_id (cs_run p)) (x_controlVersion (cs_run p)) (cs_now p) d = (b, d1)"
    by (cases "touchActiveRun (x_id (cs_run p)) (x_controlVersion (cs_run p)) (cs_now p) d")
  note ok1 = tables_ok_touch [OF t assms(2)]
  from assms(1) t ok1 show ?thesis
    by (auto simp: createSandboxSession_def Let_def bind_res_Inr_iff split: if_splits option.splits
        intro: tables_ok_create_session intro!: tables_ok_set_session dest: tables_ok_find [OF ok1])
qed

lemma tables_ok_restored:
  assumes "markSandboxFilesRestored i cv sid now d = Inr (x, d')" and "tables_ok d"
  shows "tables_ok d'"
proof -
  obtain b d1 where t: "touchActiveRun i cv now d = (b, d1)" by (cases "touchActiveRun i cv now d")
  obtain n d2 where u: "updateMany_session sid (\<lambda>s. s_runId s = i) (\<lambda>s. s\<lparr>s_status := S_VALIDATING\<rparr>) d1 = (n, d2)"
    by (cases "updateMany_session sid (\<lambda>s. s_runId s = i) (\<lambda>s. s\<lparr>s_status := S_VALIDATING\<rparr>) d1")
  note ok1 = tables_ok_touch [OF t assms(2)]
  have ok2: "tables_ok d2" using u ok1 by (rule tables_ok_updateMany_session) simp
  from assms(1) t u ok1 ok2 show ?thesis
    by (auto simp: markSandboxFilesRestored_def bind_res_Inr_iff split: if_splits intro: tables_ok_append)
qed

lemma tables_ok_command:
  assumes "recordSandboxCommand p d = Inr (x, d')" and "tables_ok d"
  shows "tables_ok d'"
proof -
  obtain b d1 where t: "touchActiveRun (rc_runId p) (rc_expectedControlVersion p) (rc_now p) d = (b, d1)"
    by (cases "touchActiveRun (rc_runId p) (rc_expectedControlVersion p) (rc_now p) d")
  from assms(1) t tables_ok_touch [OF t assms(2)] show ?thesis
    by (auto simp: recordSandboxCommand_def bind_res_Inr_iff split: if_splits option.splits
        intro: tables_ok_append tables_ok_upsert_command)
qed

lemma tables_ok_ready:
  assumes "recordPreviewReady p d = Inr (x, d')" and "tables_ok d"
  shows "tables_ok d'"
proof -
  let ?i = "x_id (pv_run p)" and ?f = "\<lambda>s. s\<lparr>s_status := S_READY, s_error := None\<rparr>"
  obtain b d1 where t: "touchActiveRun ?i (x_controlVersion (pv_run p)) (pv_now p) d = (b, d1)"
    by (cases "touchActiveRun ?i (x_controlVersion (pv_run p)) (pv_now p) d")
  note ok1 = tables_ok_touch [OF t assms(2)]
  obtain n d2 where u: "updateMany_session (pv_sessionId p) (\<lambda>s. s_runId s = ?i) ?f d1 = (n, d2)"
    by (cases "updateMany_session (pv_sessionId p) (\<lambda>s. s_runId s = ?i) ?f d1")
  have ok2: "tables_ok d2" using u ok1 by (rule tables_ok_updateMany_session) simp
  have "n = 1 \<Longrightarrow> \<exists>s. session_of d2 (pv_sessionId p) = Some s"
    using updateMany_session_cases [OF u] by auto
  with assms(1) t u ok1 ok2 show ?thesis
    by (auto simp: recordPreviewReady_def Let_def bind_res_Inr_iff split: if_splits
        intro: tables_ok_append tables_ok_upsert_preview)
qed

lemma tables_ok_stopped:
  assumes "markPreviewStopped sid now d = Inr (u, d')" and ok: "tables_ok d"
  shows "tables_ok d'"
proof (cases "session_of d sid")
  case None
  with assms show ?thesis by (simp add: markPreviewStopped_def)
next
  case (Some s)
  then have ok1: "tables_ok (set_session sid (s\<lparr>s_status := S_TERMINATED, s_terminatedAt := Some now\<rparr>) d)"
    using ok by (rule tables_ok_set_session) simp_all
  note pre = tables_ok_set_preview [OF ok1, of sid "s\<lparr>s_status := S_TERMINATED, s_terminatedAt := Some now\<rparr>"]
  from assms Some ok1 show ?thesis
    by (auto simp: markPreviewStopped_def Let_def bind_res_Inr_iff split: option.splits
        elim!: tables_ok_append intro!: pre)
qed

lemma tables_ok_reopened:
  assumes "recordPreviewReopened q d = Inr (u, d')" and ok: "tables_ok d"
  shows "tables_ok d'"
proof (cases "session_of d (rp_sessionId q)")
  case None
  with assms show ?thesis by (simp add: recordPreviewReopened_def)
next
  case (Some s)
  then have ok1: "tables_ok (set_session (rp_sessionId q) (s\<lparr>s_status := S_READY, s_error := None\<rparr>) d)"
    using ok by (rule tables_ok_set_session) simp_all
  note pre = tables_ok_set_preview [OF ok1, of "rp_sessionId q" "s\<lparr>s_status := S_READY, s_error := None\<rparr>"]
  from assms Some show ?thesis
    by (auto simp: recordPreviewReopened_def Let_def bind_res_Inr_iff split: if_splits
        elim!: tables_ok_append intro!: pre)
qed

lemma tables_ok_step: "sandbox_step d d' \<Longrightarrow> tables_ok d \<Longrightarrow> tables_ok d'"
proof (induction rule: sandbox_step.induct)
  case (failed sid err now d u d')
  obtain n e where u: "updateMany_session sid (\<lambda>_. True)
      (\<lambda>s. s\<lparr>s_status := S_FAILED, s_error := Some err, s_terminatedAt := Some now\<rparr>) d = (n, e)"
    by (cases "updateMany_session sid (\<lambda>_. True)
      (\<lambda>s. s\<lparr>s_status := S_FAILED, s_error := Some err, s_terminatedAt := Some now\<rparr>) d")
  from failed u tables_ok_updateMany_session [OF u] show ?case by (simp add: markSandboxFailed_def)
next
  case (reopen_failed i so err now d u d')
  show ?case
  proof (cases so)
    case None
    with reopen_failed show ?thesis
      by (auto simp: recordPreviewReopenFailed_def bind_res_Inr_iff intro: tables_ok_append)
  next
    case (Some k)
    obtain n e where u: "updateMany_session k (\<lambda>_. True)
        (\<lambda>s. s\<lparr>s_status := S_FAILED, s_error := Some err, s_terminatedAt := Some now\<rparr>) d = (n, e)"
      by (cases "updateMany_session k (\<lambda>_. True)
        (\<lambda>s. s\<lparr>s_status := S_FAILED, s_error := Some err, s_terminatedAt := Some now\<rparr>) d")
    from reopen_failed Some u tables_ok_updateMany_session [OF u] show ?thesis
      by (auto simp: recordPreviewReopenFailed_def bind_res_Inr_iff intro: tables_ok_append)
  qed
next
  case (reopen o' d k d')
  then show ?case
    by (auto simp: createPreviewReopenSession_def bind_res_Inr_iff split: option.splits if_splits
        intro: tables_ok_create_session)
qed (blast intro: tables_ok_create tables_ok_restored tables_ok_command tables_ok_ready
      tables_ok_stopped tables_ok_reopened)+

end
