(* ===== verification/SandboxProperties.thy ===== *)
theory SandboxProperties
  imports SandboxLaws
begin

text \<open>
  The properties of sandbox sessions, recorded validation steps and previews, over the laws
  of \<open>SandboxLaws\<close>.
\<close>

section \<open>A recorded step\<close>

lemma valid_progress_of:
  "0 < st_ordinal s \<Longrightarrow> 0 \<le> st_durationMs s \<Longrightarrow> valid_progress (progress_of sid s)"
  by (simp add: valid_progress_def progress_of_def length_truncateDiagnostic)

lemma upsert_command_frame [simp]:
  "runs (upsert_command c d) = runs d" "events (upsert_command c d) = events d"
  "sessions (upsert_command c d) = sessions d"
  by (simp_all add: upsert_command_def)

lemma commands_upsert:
  "filter (same_command_key (c_sessionId c) (c_ordinal c)) (commands (upsert_command c d)) \<noteq> [] \<and>
   c \<in> set (commands (upsert_command c d))"
  by (auto simp: upsert_command_def list_ex_iff filter_empty_conv same_command_key_def)

lemma upsert_command_only:
  "c' \<in> set (commands (upsert_command c d)) \<Longrightarrow> same_command_key (c_sessionId c) (c_ordinal c) c' \<Longrightarrow> c' = c"
  by (auto simp: upsert_command_def list_ex_iff same_command_key_def split: if_splits)

text \<open>Recording a validation step of an active run never throws, however long the step's
  diagnostics are: the truncated output always fits the event schema. The step's row is the
  only one of its key (session, ordinal), carries a name of the database enumeration and the
  status its exit code says, and exactly one progress event is appended.\<close>

lemma recordSandboxCommand_records:
  assumes "events_ok d" and "active (rc_runId i) (rc_expectedControlVersion i) d"
    and "session_of d (rc_sessionId i) = Some s" and "s_runId s = rc_runId i"
    and "0 < st_ordinal (rc_step i)" and "0 \<le> st_durationMs (rc_step i)"
  shows "\<exists>d'. recordSandboxCommand i d = Inr (True, d') \<and>
    (\<forall>c \<in> set (commands d'). c_sessionId c = rc_sessionId i \<and> c_ordinal c = st_ordinal (rc_step i) \<longrightarrow>
       c = command_row (rc_sessionId i) (rc_step i)) \<and>
    command_row (rc_sessionId i) (rc_step i) \<in> set (commands d') \<and>
    c_name (command_row (rc_sessionId i) (rc_step i)) \<in> set sandbox_command_names \<and>
    map e_body (events d') = map e_body (events d) @ [TaskProgress (progress_of (rc_sessionId i) (rc_step i))]"
proof -
  let ?c = "command_row (rc_sessionId i) (rc_step i)"
  let ?b = "TaskProgress (progress_of (rc_sessionId i) (rc_step i))"
  obtain r where r: "run_of d (rc_runId i) = Some r"
    and act: "r_status r = RUNNING" "r_controlVersion r = rc_expectedControlVersion i"
    using assms(2) by (auto simp: active_def)
  let ?d1 = "set_run (rc_runId i) (r\<lparr>r_lastHeartbeatAt := Some (rc_now i)\<rparr>) d"
  have t: "touchActiveRun (rc_runId i) (rc_expectedControlVersion i) (rc_now i) d = (True, ?d1)"
    using r act by (simp add: touchActiveRun_True)
  have ev: "events_ok (upsert_command ?c ?d1)"
    using assms(1) events_ok_cong [of "upsert_command ?c ?d1" d] r by simp
  have "validateRunEventPayload ?b = Some ?b"
    using assms(5,6) by (simp add: validateRunEventPayload_def valid_progress_of)
  with ev have "\<exists>d2. appendEvent (rc_runId i) ?b (upsert_command ?c ?d1) = Inr d2 \<and>
      commands d2 = commands (upsert_command ?c ?d1) \<and>
      map e_body (events d2) = map e_body (events d) @ [?b]"
    by (subst appendEvent_total [where r = "r\<lparr>r_lastHeartbeatAt := Some (rc_now i)\<rparr>"])
       (simp_all add: set_run_def update_conv')
  then obtain d2 where a: "appendEvent (rc_runId i) ?b (upsert_command ?c ?d1) = Inr d2"
    and cm: "commands d2 = commands (upsert_command ?c ?d1)"
    and es: "map e_body (events d2) = map e_body (events d) @ [?b]" by blast
  have "sessions ?d1 = sessions d" by simp
  with t a assms(3,4) have "recordSandboxCommand i d = Inr (True, d2)"
    by (simp add: recordSandboxCommand_def)
  moreover have "\<forall>c \<in> set (commands d2). c_sessionId c = rc_sessionId i \<and> c_ordinal c = st_ordinal (rc_step i) \<longrightarrow> c = ?c"
    using upsert_command_only [of _ ?c ?d1] by (auto simp: cm same_command_key_def command_row_def)
  moreover have "?c \<in> set (commands d2)" using commands_upsert [of ?c ?d1] by (simp add: cm)
  moreover have "c_name ?c \<in> set sandbox_command_names"
    by (simp add: command_row_def toSandboxCommandName_db)
  ultimately show ?thesis using es by blast
qed

definition sample_session :: sandbox_session where
  "sample_session = \<lparr>s_workspaceId = 1, s_projectId = 2, s_runId = 3, s_externalId = ''sb'', s_attempt = 1,
     s_status = S_VALIDATING, s_expiresAt = 900, s_error = None, s_terminatedAt = None\<rparr>"

definition sandbox_db :: db where
  "sandbox_db = sample_db\<lparr>sessions := [(5, sample_session)]\<rparr>"

definition sample_step :: record_command_input where
  "sample_step = \<lparr>rc_runId = 3, rc_expectedControlVersion = 1, rc_sessionId = 5,
     rc_step = \<lparr>st_ordinal = 1, st_name = Install, st_command = ''npm ci'', st_exitCode = 1,
       st_stdout = replicate 100000 CHR ''x'', st_stderr = [], st_durationMs = 12, st_startedAt = 100,
       st_completedAt = 112\<rparr>, rc_now = 112\<rparr>"

lemma events_ok_sandbox: "events_ok sandbox_db"
  using db_ok_sample events_ok_cong [of sandbox_db sample_db] by (simp add: db_ok_def sandbox_db_def)

section \<open>Reopened previews\<close>

lemma le_foldr_max: "x \<in> set xs \<Longrightarrow> x \<le> foldr max xs (0::nat)"
  by (induction xs) auto

lemma attempt_in_table_le:
  assumes "(k, s) \<in> set (sessions d)" and "s_runId s = i"
  shows "s_attempt s \<le> max_attempt i d"
proof -
  have "s_attempt s \<in> set (map (s_attempt \<circ> snd) (filter (\<lambda>(k, s). s_runId s = i) (sessions d)))"
    using assms by force
  then show ?thesis unfolding max_attempt_def by (rule le_foldr_max)
qed

text \<open>Opening the preview of a run again gets a session exactly when the run is a
  completed run of that project and workspace; its attempt number is above 1,000 and above
  every attempt the run has used, so it can collide with none of them: the only way the
  transaction can throw is that another session already holds the same sandbox.\<close>

lemma reopen_attempt_fresh:
  "case run_of d (ro_runId i) of
     Some r \<Rightarrow>
       (if r_projectId r = ro_projectId i \<and> r_workspaceId r = ro_workspaceId i \<and> r_status r = COMPLETED
        then (if external_taken None (ro_externalId i) d
              then createPreviewReopenSession i d = Inl (PrismaError ''P2002'')
              else (\<exists>d' s. createPreviewReopenSession i d = Inr (Some (next_id d), d') \<and>
                      session_of d' (next_id d) = Some s \<and> s_runId s = ro_runId i \<and>
                      PREVIEW_REOPEN_FIRST_ATTEMPT \<le> s_attempt s \<and>
                      (\<forall>k t. session_of d k = Some t \<and> s_runId t = ro_runId i \<longrightarrow> s_attempt t < s_attempt s)))
        else createPreviewReopenSession i d = Inr (None, d))
   | None \<Rightarrow> createPreviewReopenSession i d = Inr (None, d)"
proof (cases "run_of d (ro_runId i)")
  case None
  then show ?thesis by (simp add: createPreviewReopenSession_def)
next
  case (Some r)
  let ?n = "max (PREVIEW_REOPEN_FIRST_ATTEMPT - 1) (max_attempt (ro_runId i) d) + 1"
  let ?s = "\<lparr>s_workspaceId = ro_workspaceId i, s_projectId = ro_projectId i, s_runId = ro_runId i,
             s_externalId = ro_externalId i, s_attempt = ?n, s_status = S_PROVISIONING,
             s_expiresAt = ro_expiresAt i, s_error = None, s_terminatedAt = None\<rparr>"
  have free: "\<not> list_ex (\<lambda>(k, t). s_runId t = ro_runId i \<and> s_attempt t = ?n) (sessions d)"
    using attempt_in_table_le [of _ _ d "ro_runId i"] by (fastforce simp: list_ex_iff)
  have above: "session_of d k = Some t \<and> s_runId t = ro_runId i \<longrightarrow> s_attempt t < ?n" for k t
    using attempt_in_table_le [of k t d "ro_runId i"] by (auto dest: map_of_SomeD)
  have c: "create_session ?s d = (if external_taken None (ro_externalId i) d then Inl (PrismaError ''P2002'')
      else Inr (next_id d, (set_session (next_id d) ?s d)\<lparr>next_id := Suc (next_id d)\<rparr>))"
    using free by (simp add: create_session_def)
  have low: "PREVIEW_REOPEN_FIRST_ATTEMPT \<le> ?n" by simp
  have sess: "session_of ((set_session (next_id d) ?s d)\<lparr>next_id := Suc (next_id d)\<rparr>) (next_id d) = Some ?s"
    by (simp add: set_session_def update_conv')
  show ?thesis
  proof (cases "r_projectId r = ro_projectId i \<and> r_workspaceId r = ro_workspaceId i \<and> r_status r = COMPLETED")
    case False
    with Some show ?thesis by (auto simp: createPreviewReopenSession_def)
  next
    case ready: True
    have "createPreviewReopenSession i d = (if external_taken None (ro_externalId i) d then Inl (PrismaError ''P2002'')
      else Inr (Some (next_id d), (set_session (next_id d) ?s d)\<lparr>next_id := Suc (next_id d)\<rparr>))"
      using Some ready c by (simp add: createPreviewReopenSession_def)
    moreover have "s_attempt ?s = ?n" "s_runId ?s = ro_runId i" by simp_all
    ultimately show ?thesis using Some ready sess low above
      by (simp del: max.bounded_iff) (metis (no_types, lifting))
  qed
qed

definition finished_db :: db where
  "finished_db = sandbox_db\<lparr>runs := [(3, sample_run\<lparr>r_status := COMPLETED\<rparr>)]\<rparr>"

definition sample_reopen :: reopen_input where
  "sample_reopen = \<lparr>ro_projectId = 2, ro_workspaceId = 1, ro_runId = 3, ro_externalId = ''sb2'', ro_expiresAt = 950\<rparr>"

section \<open>The tables\<close>



section \<open>A stopped preview\<close>

text \<open>Stopping the preview of a session (what a validation lease does when it is revoked)
  always succeeds on a store that satisfies the invariant and has the session's run: the
  session is terminated, its preview, if there is one, is stopped and the stop is the last
  event of the run, and every other session and preview is unchanged.\<close>

lemma markPreviewStopped_stops:
  assumes "db_ok d" and "session_of d sid = Some s" and "run_of d (s_runId s) = Some r"
  shows "\<exists>d'. markPreviewStopped sid now d = Inr ((), d') \<and>
    map_option s_status (session_of d' sid) = Some S_TERMINATED \<and>
    (\<forall>k. k \<noteq> sid \<longrightarrow> session_of d' k = session_of d k \<and> preview_of d' k = preview_of d k) \<and>
    (case preview_of d sid of
       None \<Rightarrow> events d' = events d \<and> preview_of d' sid = None
     | Some p \<Rightarrow> map_option p_status (preview_of d' sid) = Some P_STOPPED \<and>
         map e_body (events d') = map e_body (events d) @ [PreviewUpdated sid PvStopped None (p_expiresAt p)])"
proof (cases "preview_of d sid")
  case None
  with assms(2) show ?thesis by (simp add: markPreviewStopped_def)
next
  case (Some p)
  let ?d1 = "set_session sid (s\<lparr>s_status := S_TERMINATED, s_terminatedAt := Some now\<rparr>) d"
  let ?d2 = "set_preview sid (p\<lparr>p_status := P_STOPPED, p_stoppedAt := Some now\<rparr>) ?d1"
  let ?b = "PreviewUpdated sid PvStopped None (p_expiresAt p)"
  have ev: "events_ok ?d2" using assms(1) events_ok_cong [of ?d2 d] by (simp add: db_ok_def)
  have "validateRunEventPayload ?b = Some ?b" by (simp add: validateRunEventPayload_def)
  with ev assms(3) have a: "appendEvent (s_runId s) ?b ?d2 =
      Inr ((set_run (s_runId s) (r\<lparr>r_eventSequence := Suc (r_eventSequence r)\<rparr>) ?d2)
             \<lparr>events := events ?d2 @ [\<lparr>e_runId = s_runId s, e_sequence = Suc (r_eventSequence r), e_body = ?b\<rparr>]\<rparr>)"
    by (intro appendEvent_total) simp_all
  have st: "markPreviewStopped sid now d = bind_res (appendEvent (s_runId s) ?b ?d2) (\<lambda>d2. Inr ((), d2))"
    using assms(2) Some by (simp add: markPreviewStopped_def Let_def)
  show ?thesis
    unfolding st a using Some
    by (simp add: set_run_def set_session_def set_preview_def update_conv')
qed

definition preview_db :: db where
  "preview_db = sandbox_db\<lparr>previews := [(5, \<lparr>p_workspaceId = 1, p_projectId = 2, p_runId = 3,
     p_status = P_READY, p_gatewayUrl = ''u'', p_processId = 7, p_expiresAt = 900, p_readyAt = 200,
     p_stoppedAt = None, p_error = None\<rparr>)]\<rparr>"

end
