(* ===== verification/RunGraph.thy ===== *)
theory RunGraph
  imports RunTransactions
begin

text \<open>
  \<open>orchestrator-worker/src/graph.ts\<close>: the graph that runs the agents of a run in order, the
  plan gate before Alex and the content gate at the end.

  A node is an action on a world: the store, a counter of the store operations performed so
  far, and logs of the agent calls, of the validations of the processor and of the preview
  leases it was granted and revoked. Other actors run between any two store
  operations: before the \<open>n\<close>-th one the store becomes \<open>g_env n\<close> of itself. A throw keeps the
  world it happens in, so that a handler continues from it; the operation that threw is
  rolled back.

  Parameters: the agents (a language model behind \<open>AgentRuntime.execute\<close>), the attachment
  loader (object storage) and the clock. The graph library runs the nodes along the edges
  one after another and stops at the first throw; what it carries over from an earlier
  invocation of the same run (its checkpoint) arrives in the \<open>outputs\<close> of the first state.
\<close>

section \<open>Actions\<close>

record reference_file =
  rf_id :: uuid
  rf_mimeType :: string

record agent_request =
  rq_agent :: agent_name
  rq_runId :: uuid
  rq_prompt :: string
  rq_upstream :: "(agent_name \<times> agent_output) list"
  rq_files :: "project_file list"
  rq_projectType :: "project_type option"
  rq_references :: "reference_file list"

record world =
  w_db :: db
  w_tick :: nat
  w_calls :: "agent_request list"
  w_validations :: "(uuid \<times> nat) list"
  w_leases :: nat
  w_revocations :: nat

type_synonym 'a act = "(thrown, world, 'a) action"

record graph_options =
  g_ext :: externals
  g_env :: "nat \<Rightarrow> db \<Rightarrow> db"
  g_now :: "nat \<Rightarrow> time"
  g_execute :: "nat \<Rightarrow> agent_request \<Rightarrow> thrown + agent_output"
  g_load :: "(nat \<Rightarrow> uuid \<Rightarrow> thrown + reference_file list) option"

definition run_tx :: "graph_options \<Rightarrow> (time \<Rightarrow> 'a tx) \<Rightarrow> 'a act" where
  "run_tx G t w =
     (let d = g_env G (w_tick w) (w_db w); n = Suc (w_tick w)
      in case t (g_now G (w_tick w)) d of
           Inl e \<Rightarrow> (Inl e, w\<lparr>w_db := d, w_tick := n\<rparr>)
         | Inr (a, d') \<Rightarrow> (Inr a, w\<lparr>w_db := d', w_tick := n\<rparr>))"

definition query :: "(db \<Rightarrow> thrown + 'a) \<Rightarrow> 'a tx" where
  "query q d = (case q d of Inl e \<Rightarrow> Inl e | Inr a \<Rightarrow> Inr (a, d))"

definition load_refs :: "graph_options \<Rightarrow> uuid \<Rightarrow> reference_file list act" where
  "load_refs G i w =
     (case g_load G of None \<Rightarrow> (Inr [], w) | Some f \<Rightarrow> (f (w_tick w) i, w))"

definition execute_agent :: "graph_options \<Rightarrow> agent_request \<Rightarrow> agent_output act" where
  "execute_agent G q w =
     (g_execute G (length (w_calls w)) q, w\<lparr>w_calls := w_calls w @ [q]\<rparr>)"

section \<open>The state of the graph\<close>

record run_state =
  rs_runId :: uuid
  rs_workspaceId :: uuid
  rs_projectId :: uuid
  rs_prompt :: string
  rs_command :: run_command
  rs_approvalScope :: "approval_scope option"
  rs_controlVersion :: nat
  rs_approvalBypassConsumed :: bool
  rs_outputs :: "(agent_name \<times> agent_output) list"

text \<open>What a node returns: the reducer of \<open>outputs\<close> merges, the flag is replaced if given.\<close>

record state_update =
  su_outputs :: "(agent_name \<times> agent_output) list"
  su_bypass :: "bool option"

definition no_update :: state_update where
  "no_update = \<lparr>su_outputs = [], su_bypass = None\<rparr>"

definition merge_outputs ::
    "(agent_name \<times> agent_output) list \<Rightarrow> (agent_name \<times> agent_output) list \<Rightarrow> (agent_name \<times> agent_output) list" where
  "merge_outputs cur upd = foldl (\<lambda>m (a, v). AList.update a v m) cur upd"

definition apply_update :: "state_update \<Rightarrow> run_state \<Rightarrow> run_state" where
  "apply_update u s =
     s\<lparr>rs_outputs := merge_outputs (rs_outputs s) (su_outputs u),
       rs_approvalBypassConsumed :=
         (case su_bypass u of None \<Rightarrow> rs_approvalBypassConsumed s | Some b \<Rightarrow> b)\<rparr>"

section \<open>Task definitions and entitlement\<close>

fun task_ordinal :: "agent_name \<Rightarrow> nat" where
  "task_ordinal Sophia = 1"
| "task_ordinal Mike = 2"
| "task_ordinal Emma = 3"
| "task_ordinal Bob = 4"
| "task_ordinal Alex = 5"
| "task_ordinal David = 6"
| "task_ordinal Sarah = 7"
| "task_ordinal Adrian = 8"
| "task_ordinal CustomerSuccess = 9"

fun task_description :: "agent_name \<Rightarrow> string" where
  "task_description Sophia = ''Analyze market, ICP, competition, pricing, positioning, and evidence gaps''"
| "task_description Mike = ''Plan the run and dependency graph''"
| "task_description Emma = ''Produce structured product requirements''"
| "task_description Bob = ''Produce architecture and Prisma schema''"
| "task_description Alex = ''Generate application files and commands''"
| "task_description David = ''Review schema and generate migrations, seed data, and data policies''"
| "task_description Sarah = ''Generate SEO artifacts and deterministic metadata findings''"
| "task_description Adrian = ''Generate growth copy variants and evidence requirements''"
| "task_description CustomerSuccess =
     ''Produce onboarding plan, activation milestones, health review, and retention proposals''"

definition premium_agent :: "agent_name \<Rightarrow> bool" where
  "premium_agent a \<longleftrightarrow> a \<in> {Sophia, Sarah, Adrian}"

definition isEntitled :: "workspace_plan \<Rightarrow> agent_name \<Rightarrow> bool" where
  "isEntitled p a \<longleftrightarrow> \<not> premium_agent a \<or> p \<noteq> FREE"

section \<open>Upstream outputs\<close>

text \<open>The eight graph agents, each parsed if present, in the order of the code.\<close>

definition graph_agents :: "agent_name list" where
  "graph_agents = [Sophia, Mike, Emma, Bob, Alex, David, Sarah, Adrian]"

definition parse_output :: "externals \<Rightarrow> agent_name \<Rightarrow> agent_output \<Rightarrow> thrown + agent_output" where
  "parse_output X a v = (if output_matches (json_ok X) a v then Inr v else Inl ZodError)"

definition parse_present ::
    "externals \<Rightarrow> (agent_name \<times> agent_output) list \<Rightarrow> agent_name \<Rightarrow> thrown + (agent_name \<times> agent_output) list" where
  "parse_present X outs a =
     (case map_of outs a of
        None \<Rightarrow> Inr []
      | Some v \<Rightarrow> bind_res (parse_output X a v) (\<lambda>v'. Inr [(a, v')]))"

definition parseUpstreamOutputs ::
    "externals \<Rightarrow> (agent_name \<times> agent_output) list \<Rightarrow> thrown + (agent_name \<times> agent_output) list" where
  "parseUpstreamOutputs X outs =
     bind_res (map_res (parse_present X outs) graph_agents) (\<lambda>xs. Inr (concat xs))"

section \<open>The deterministic checks of Sarah's output\<close>

fun js_join :: "string \<Rightarrow> string list \<Rightarrow> string" where
  "js_join sep [] = []"
| "js_join sep [x] = x"
| "js_join sep (x # xs) = x @ sep @ js_join sep xs"

text \<open>\<open>[...new Set(xs)]\<close> keeps the first occurrences, in order.\<close>

fun unique_first :: "'a list \<Rightarrow> 'a list" where
  "unique_first [] = []"
| "unique_first (x # xs) = x # filter (\<lambda>y. y \<noteq> x) (unique_first xs)"

lemma set_unique_first [simp]: "set (unique_first xs) = set xs"
  by (induction xs) auto

definition missing_route_metadata :: "sarah_output \<Rightarrow> bob_output \<Rightarrow> string list" where
  "missing_route_metadata s b =
     filter (\<lambda>p. p \<notin> set (map md_routePath (routeMetadata s)))
       (unique_first (map route_path (bob_routes b)))"

definition canonical_urls :: "sarah_output \<Rightarrow> string list" where
  "canonical_urls s = List.map_filter md_canonicalUrl (routeMetadata s)"

definition duplicate_canonicals :: "sarah_output \<Rightarrow> string list" where
  "duplicate_canonicals s =
     filter (\<lambda>u. 1 < count_list (canonical_urls s) u) (unique_first (canonical_urls s))"

definition DeterministicSeoValidationError :: "string \<Rightarrow> thrown" where
  "DeterministicSeoValidationError msg =
     throw_node ((plain_error ClsError ''DeterministicSeoValidationError'' msg)\<lparr>en_retryable := Some False\<rparr>)"

definition seo_message :: "string list \<Rightarrow> string list \<Rightarrow> string" where
  "seo_message missing dups =
     ''Sarah output failed deterministic SEO checks: '' @ js_join ''; ''
       ((if missing = [] then [] else [''missing route metadata for: '' @ js_join '', '' missing])
        @ (if dups = [] then [] else [''duplicate canonical URLs detected: '' @ js_join '', '' dups]))"

definition enforceDeterministicSeoChecks ::
    "externals \<Rightarrow> agent_output \<Rightarrow> (agent_name \<times> agent_output) list \<Rightarrow> thrown + unit" where
  "enforceDeterministicSeoChecks X out up =
     bind_res (parse_output X Sarah out) (\<lambda>v.
       case (v, map_of up Bob) of
         (OSarah s, Some (OBob b)) \<Rightarrow>
           (let missing = missing_route_metadata s b; dups = duplicate_canonicals s
            in if missing = [] \<and> dups = [] then Inr ()
               else Inl (DeterministicSeoValidationError (seo_message missing dups)))
       | _ \<Rightarrow> Inr ())"

section \<open>Agent nodes\<close>

definition skip_reason_of :: "graph_options \<Rightarrow> agent_name \<Rightarrow> run_state \<Rightarrow> project_type \<Rightarrow> skip_reason option act" where
  "skip_reason_of G a s pt =
     (if \<not> isRequiredForProjectType pt a then return_act (Some NOT_REQUIRED_FOR_PROJECT_TYPE)
      else if premium_agent a
      then bind_act (run_tx G (\<lambda>_. query (getWorkspacePlan (rs_workspaceId s))))
             (\<lambda>p. return_act (if isEntitled p a then None else Some PLAN_NOT_ENTITLED))
      else return_act None)"

definition node_input ::
    "externals \<Rightarrow> agent_name \<Rightarrow> run_state \<Rightarrow> (agent_name \<times> agent_output) list \<Rightarrow> skip_reason option \<Rightarrow> time
       \<Rightarrow> prepare_task_input" where
  "node_input X a s up sr now =
     \<lparr>pt_runId = rs_runId s, pt_expectedControlVersion = rs_controlVersion s, pt_agentName = a,
      pt_description = task_description a, pt_ordinal = task_ordinal a,
      pt_input = JObj [(''prompt'', JStr (rs_prompt s)), (''upstreamOutputs'',
        JObj (map (\<lambda>(b, v). (agent_string b, output_json X v)) up))], pt_now = now,
      pt_skipReason = sr\<rparr>"

definition restore_output :: "graph_options \<Rightarrow> agent_name \<Rightarrow> worker_task \<Rightarrow> state_update act" where
  "restore_output G a t =
     (case wt_output t of
        None \<Rightarrow> throw_act ZodError
      | Some v \<Rightarrow> bind_act (of_res (parse_output (g_ext G) a v))
                   (\<lambda>v'. return_act \<lparr>su_outputs = [(a, v')], su_bypass = None\<rparr>))"

definition generated_files_of ::
    "externals \<Rightarrow> agent_name \<Rightarrow> agent_output \<Rightarrow> thrown + generated_file list option" where
  "generated_files_of X a out =
     (if a = Alex \<or> a = David
      then bind_res (parse_output X a out) (\<lambda>v.
             case v of OAlex x \<Rightarrow> Inr (Some (alex_files x))
                     | ODavid x \<Rightarrow> Inr (Some (david_files x))
                     | _ \<Rightarrow> Inl ZodError)
      else Inr None)"

text \<open>
  The body of the \<open>try\<close>, between the start of the task and its completion: what is read
  for the call, the call, and what is done with its output.
\<close>

definition finish_agent ::
    "graph_options \<Rightarrow> agent_name \<Rightarrow> run_state \<Rightarrow> (agent_name \<times> agent_output) list \<Rightarrow> uuid \<Rightarrow> agent_output
       \<Rightarrow> state_update act" where
  "finish_agent G a s up taskId out =
     bind_act (if a = Sarah then of_res (enforceDeterministicSeoChecks (g_ext G) out up)
               else return_act ()) (\<lambda>_.
     bind_act (of_res (generated_files_of (g_ext G) a out)) (\<lambda>gen.
     bind_act (run_tx G (\<lambda>now. completeTask (g_ext G)
        \<lparr>ct_runId = rs_runId s, ct_expectedControlVersion = rs_controlVersion s, ct_taskId = taskId,
         ct_output = out, ct_generatedFiles = gen, ct_now = now\<rparr>)) (\<lambda>r.
       case r of
         CompleteStopped \<Rightarrow>
           throw_act (RunStoppedError ''Run stopped before the agent result could be applied'' ''stopped'')
       | CompleteConflict p e v \<Rightarrow> throw_act (GeneratedFileConflictError p e v)
       | CompleteOk _ \<Rightarrow> return_act \<lparr>su_outputs = [(a, out)], su_bypass = None\<rparr>)))"

definition agent_call ::
    "graph_options \<Rightarrow> agent_name \<Rightarrow> run_state \<Rightarrow> (agent_name \<times> agent_output) list \<Rightarrow> project_type
       \<Rightarrow> agent_request act" where
  "agent_call G a s up pt =
     bind_act (if a = Alex \<or> a = David
               then run_tx G (\<lambda>_. query (\<lambda>d. Inr (listProjectFiles (rs_projectId s) d)))
               else return_act []) (\<lambda>current.
     bind_act (if a = Sophia \<or> a = Emma then load_refs G (rs_runId s) else return_act []) (\<lambda>refs.
     return_act \<lparr>rq_agent = a, rq_runId = rs_runId s, rq_prompt = rs_prompt s, rq_upstream = up,
         rq_files = current, rq_projectType = Some pt, rq_references = refs\<rparr>))"

definition attempt_agent ::
    "graph_options \<Rightarrow> agent_name \<Rightarrow> run_state \<Rightarrow> (agent_name \<times> agent_output) list \<Rightarrow> project_type \<Rightarrow> uuid
       \<Rightarrow> state_update act" where
  "attempt_agent G a s up pt taskId =
     bind_act (agent_call G a s up pt) (\<lambda>q.
     bind_act (execute_agent G q) (finish_agent G a s up taskId))"

definition instance_of_stopped :: "thrown \<Rightarrow> bool" where
  "instance_of_stopped e =
     (case node_of (fst e) (snd e) of Some n \<Rightarrow> is_run_stopped n | None \<Rightarrow> False)"

definition on_agent_error :: "graph_options \<Rightarrow> run_state \<Rightarrow> uuid \<Rightarrow> thrown \<Rightarrow> state_update act" where
  "on_agent_error G s taskId e =
     (if instance_of_stopped e then throw_act e
      else bind_act (run_tx G (\<lambda>now. failTask (rs_runId s) (rs_controlVersion s) taskId
                                   (worker_error_json (toWorkerError e)) now)) (\<lambda>failed.
             if \<not> failed
             then throw_act (RunStoppedError ''Run stopped while the task result was in flight'' ''stopped'')
             else throw_act e))"

text \<open>A prepared task: restored if it is completed, else started and attempted.\<close>

definition start_agent ::
    "graph_options \<Rightarrow> agent_name \<Rightarrow> run_state \<Rightarrow> (agent_name \<times> agent_output) list \<Rightarrow> project_type
       \<Rightarrow> worker_task \<Rightarrow> state_update act" where
  "start_agent G a s up pt t =
     (if wt_status t = T_COMPLETED then restore_output G a t
      else bind_act (run_tx G (\<lambda>now. startTask (rs_runId s) (rs_controlVersion s) (wt_id t) now)) (\<lambda>r.
        case r of
          TaskStopped \<Rightarrow> throw_act (RunStoppedError ''Run stopped before task execution'' ''stopped'')
        | TaskOk t2 \<Rightarrow>
            (if wt_status t2 = T_COMPLETED then restore_output G a t2
             else catch_act (attempt_agent G a s up pt (wt_id t2)) (on_agent_error G s (wt_id t2)))))"

definition skip_agent ::
    "graph_options \<Rightarrow> agent_name \<Rightarrow> run_state \<Rightarrow> (agent_name \<times> agent_output) list \<Rightarrow> skip_reason
       \<Rightarrow> state_update act" where
  "skip_agent G a s up sr =
     bind_act (run_tx G (\<lambda>now. skipTask (node_input (g_ext G) a s up (Some sr) now))) (\<lambda>r.
       case r of
         TaskStopped \<Rightarrow>
           throw_act (RunStoppedError ''Run stopped before the skipped task could be recorded'' ''stopped'')
       | TaskOk _ \<Rightarrow> return_act no_update)"

definition prepare_agent ::
    "graph_options \<Rightarrow> agent_name \<Rightarrow> run_state \<Rightarrow> (agent_name \<times> agent_output) list \<Rightarrow> project_type
       \<Rightarrow> state_update act" where
  "prepare_agent G a s up pt =
     bind_act (run_tx G (\<lambda>now. prepareTask (node_input (g_ext G) a s up None now))) (\<lambda>r.
       case r of
         TaskStopped \<Rightarrow> throw_act (RunStoppedError ''Run stopped before task preparation'' ''stopped'')
       | TaskOk t \<Rightarrow> start_agent G a s up pt t)"

definition runAgent :: "graph_options \<Rightarrow> agent_name \<Rightarrow> run_state \<Rightarrow> state_update act" where
  "runAgent G a s =
     bind_act (of_res (parseUpstreamOutputs (g_ext G) (rs_outputs s))) (\<lambda>up.
     bind_act (run_tx G (\<lambda>_. query (getProjectType (rs_projectId s)))) (\<lambda>pt.
     bind_act (skip_reason_of G a s pt) (\<lambda>reason.
       case reason of
         Some sr \<Rightarrow> skip_agent G a s up sr
       | None \<Rightarrow> prepare_agent G a s up pt)))"

section \<open>The gates\<close>

definition runHasReferences :: "graph_options \<Rightarrow> uuid \<Rightarrow> bool act" where
  "runHasReferences G i = bind_act (load_refs G i) (\<lambda>refs. return_act (0 < length refs))"

definition pause_for :: "graph_options \<Rightarrow> run_state \<Rightarrow> approval_scope \<Rightarrow> string \<Rightarrow> string \<Rightarrow> string \<Rightarrow> state_update act" where
  "pause_for G s scope reason waiting gone =
     bind_act (run_tx G (\<lambda>now. requestApproval (rs_runId s) (rs_controlVersion s) scope reason now)) (\<lambda>paused.
       throw_act (RunStoppedError (if paused then waiting else gone) (if paused then ''PAUSED'' else ''stopped'')))"

definition approvalGate :: "graph_options \<Rightarrow> run_state \<Rightarrow> state_update act" where
  "approvalGate G s =
     (case map_of (rs_outputs s) Mike of
        None \<Rightarrow> throw_act ZodError
      | Some v \<Rightarrow>
          bind_act (of_res (parse_output (g_ext G) Mike v)) (\<lambda>v'.
            case v' of
              OMike mike \<Rightarrow>
                (if map_of (rs_outputs s) Alex \<noteq> None then return_act no_update
                 else bind_act (if requiresApproval mike then return_act True
                                else runHasReferences G (rs_runId s)) (\<lambda>needed.
                   if \<not> needed then return_act no_update
                   else if rs_command s = CmdApprove \<and> rs_approvalScope s = Some ScopePlan \<and>
                           \<not> rs_approvalBypassConsumed s
                   then return_act (no_update\<lparr>su_bypass := Some True\<rparr>)
                   else pause_for G s ScopePlan
                          ''Approve the product and architecture plan before code generation''
                          ''Run is waiting for plan approval''
                          ''Run stopped before approval could be requested''))
            | _ \<Rightarrow> throw_act ZodError))"

definition contentApprovalGate :: "graph_options \<Rightarrow> run_state \<Rightarrow> state_update act" where
  "contentApprovalGate G s =
     (case map_of (rs_outputs s) Adrian of
        None \<Rightarrow> return_act no_update
      | Some v \<Rightarrow>
          bind_act (of_res (parse_output (g_ext G) Adrian v)) (\<lambda>v'.
            case v' of
              OAdrian adrian \<Rightarrow>
                (if ctaVariants adrian = [] \<and> adVariants adrian = [] then return_act no_update
                 else if rs_command s = CmdApprove \<and> rs_approvalScope s = Some ScopeContent \<and>
                         \<not> rs_approvalBypassConsumed s
                 then return_act (no_update\<lparr>su_bypass := Some True\<rparr>)
                 else pause_for G s ScopeContent
                        ''Approve content variants before applying copy changes''
                        ''Run is waiting for content approval''
                        ''Run stopped before content approval could be requested'')
            | _ \<Rightarrow> throw_act ZodError))"

section \<open>The graph\<close>

datatype graph_node = AgentNode agent_name | PlanGate | ContentGate

definition before_plan_gate :: "graph_node list" where
  "before_plan_gate = [AgentNode Sophia, AgentNode Mike, AgentNode Emma, AgentNode Bob]"

definition after_plan_gate :: "graph_node list" where
  "after_plan_gate = [AgentNode Alex, AgentNode David, AgentNode Sarah, AgentNode Adrian, ContentGate]"

definition graph_nodes :: "graph_node list" where
  "graph_nodes = before_plan_gate @ PlanGate # after_plan_gate"

fun node_action :: "graph_options \<Rightarrow> graph_node \<Rightarrow> run_state \<Rightarrow> state_update act" where
  "node_action G (AgentNode a) = runAgent G a"
| "node_action G PlanGate = approvalGate G"
| "node_action G ContentGate = contentApprovalGate G"

fun run_nodes :: "graph_options \<Rightarrow> graph_node list \<Rightarrow> run_state \<Rightarrow> run_state act" where
  "run_nodes G [] s = return_act s"
| "run_nodes G (n # ns) s = bind_act (node_action G n s) (\<lambda>u. run_nodes G ns (apply_update u s))"

definition runGraph :: "graph_options \<Rightarrow> run_state \<Rightarrow> run_state act" where
  "runGraph G s = run_nodes G graph_nodes s"

end
