(* ===== verification/RouteCoverage.thy ===== *)
theory RouteCoverage
  imports RunGraph
begin

text \<open>
  \<open>orchestrator-worker/src/route-coverage.ts\<close>: the planned routes against the files of a
  project. The regular expressions are written out as predicates on strings.
\<close>

section \<open>Normal forms of routes\<close>

definition ROUTE_COVERAGE_STEP :: string where
  "ROUTE_COVERAGE_STEP = ''route-coverage''"

text \<open>\<open>^pre[^c]+post$\<close>: a non-empty middle without the character \<open>c\<close>.\<close>

definition wrapped :: "string \<Rightarrow> string \<Rightarrow> char \<Rightarrow> string \<Rightarrow> bool" where
  "wrapped pre post c s \<longleftrightarrow>
     prefix pre s \<and> suffix post s \<and> length pre + length post < length s \<and>
     c \<notin> set (take (length s - length pre - length post) (drop (length pre) s))"

definition word_char :: "char \<Rightarrow> bool" where
  "word_char c \<longleftrightarrow> (let n = (of_char c :: nat) in
     (48 \<le> n \<and> n \<le> 57) \<or> (65 \<le> n \<and> n \<le> 90) \<or> (97 \<le> n \<and> n \<le> 122) \<or> n = 95)"

definition normalize_segment :: "string \<Rightarrow> string" where
  "normalize_segment s =
     (if wrapped ''[[...'' '']]'' (CHR '']'') s then ''[[...]]''
      else if wrapped ''[...'' '']'' (CHR '']'') s then ''[...]''
      else if wrapped ''['' '']'' (CHR '']'') s then ''[]''
      else if (prefix '':'' s \<and> 1 < length s \<and> list_all word_char (tl s)) \<or> wrapped ''{'' ''}'' (CHR ''}'') s
      then ''[]''
      else s)"

definition route_segments :: "string \<Rightarrow> string list" where
  "route_segments p =
     filter (\<lambda>s. 0 < length s)
       (split_on (CHR ''/'') (takeWhile (\<lambda>c. c \<noteq> CHR ''?'' \<and> c \<noteq> CHR ''#'') p))"

definition normalizeRoutePath :: "string \<Rightarrow> string" where
  "normalizeRoutePath p = ''/'' @ js_join ''/'' (map normalize_segment (route_segments p))"

section \<open>The route a file serves\<close>

definition strip_src :: "string \<Rightarrow> string" where
  "strip_src p = (if prefix ''src/'' p then drop 4 p else p)"

definition source_extensions :: "string list" where
  "source_extensions = [''.tsx'', ''.ts'', ''.jsx'', ''.js'', ''.mjs'']"

definition is_app_entry :: "string \<Rightarrow> bool" where
  "is_app_entry f \<longleftrightarrow> (\<exists>b \<in> set [''page'', ''route'']. \<exists>e \<in> set source_extensions. f = b @ e)"

definition source_extension :: "string \<Rightarrow> string option" where
  "source_extension f = find_first_opt (\<lambda>e. suffix e f) source_extensions"

text \<open>\<open>^\(.*\)$\<close>: a route group; the dot matches no line terminator.\<close>

definition is_route_group :: "string \<Rightarrow> bool" where
  "is_route_group s \<longleftrightarrow> prefix ''('' s \<and> suffix '')'' s \<and> 2 \<le> length s \<and>
     CHR 0x0A \<notin> set s \<and> CHR 0x0D \<notin> set s"

definition routeServedByFile :: "string \<Rightarrow> string option" where
  "routeServedByFile p =
     (let segments = split_on (CHR ''/'') (strip_src p); fileName = last segments
      in if hd segments = ''app'' then
           (if \<not> is_app_entry fileName then None
            else Some (normalizeRoutePath (js_join ''/''
                   (filter (\<lambda>s. \<not> is_route_group s \<and> \<not> prefix ''@'' s) (butlast (tl segments))))))
         else if hd segments = ''pages'' then
           (case source_extension fileName of
              None \<Rightarrow> None
            | Some e \<Rightarrow>
                (let base = take (length fileName - length e) fileName
                 in if prefix ''_'' base then None
                    else Some (normalizeRoutePath (js_join ''/''
                           (butlast (tl segments) @ (if base = ''index'' then [] else [base]))))))
         else None)"

section \<open>Missing routes\<close>

definition uses_file_routing :: "string list \<Rightarrow> bool" where
  "uses_file_routing ps \<longleftrightarrow>
     list_ex (\<lambda>p. prefix ''app/'' (strip_src p) \<or> prefix ''pages/'' (strip_src p)) ps"

fun missing_loop :: "string list \<Rightarrow> string list \<Rightarrow> planned_route list \<Rightarrow> planned_route list" where
  "missing_loop served seen [] = []"
| "missing_loop served seen (r # rs) =
     (if \<not> prefix ''/'' (route_path r) then missing_loop served seen rs
      else (let n = normalizeRoutePath (route_path r)
            in if n \<in> set served \<or> n \<in> set seen then missing_loop served seen rs
               else r # missing_loop served (n # seen) rs))"

definition findMissingRoutes :: "planned_route list \<Rightarrow> string list \<Rightarrow> planned_route list" where
  "findMissingRoutes planned paths =
     (if \<not> uses_file_routing paths then []
      else missing_loop (List.map_filter routeServedByFile paths) [] planned)"

definition describeMissingRoutes :: "planned_route list \<Rightarrow> string" where
  "describeMissingRoutes ms = js_join [CHR 0x0A] (map (\<lambda>r. route_method r @ '' '' @ route_path r) ms)"

section \<open>What is reported\<close>

definition served_by :: "string list \<Rightarrow> planned_route \<Rightarrow> bool" where
  "served_by paths r \<longleftrightarrow> (\<exists>p \<in> set paths. routeServedByFile p = Some (normalizeRoutePath (route_path r)))"

lemma map_filter_served:
  "n \<in> set (List.map_filter routeServedByFile paths) \<longleftrightarrow> (\<exists>p \<in> set paths. routeServedByFile p = Some n)"
  by (force simp: List.map_filter_def)

lemma missing_loop_set:
  "r \<in> set (missing_loop served seen rs) \<Longrightarrow>
     r \<in> set rs \<and> prefix ''/'' (route_path r) \<and> normalizeRoutePath (route_path r) \<notin> set served \<and>
     normalizeRoutePath (route_path r) \<notin> set seen"
proof (induction rs arbitrary: seen)
  case (Cons x rs)
  from Cons.prems Cons.IH [of seen] Cons.IH [of "normalizeRoutePath (route_path x) # seen"]
  show ?case by (auto simp: Let_def split: if_splits)
qed simp

lemma missing_loop_complete:
  "r \<in> set rs \<Longrightarrow> prefix ''/'' (route_path r) \<Longrightarrow> normalizeRoutePath (route_path r) \<notin> set served \<Longrightarrow>
     normalizeRoutePath (route_path r) \<in> set seen \<or>
     (\<exists>m \<in> set (missing_loop served seen rs).
        normalizeRoutePath (route_path m) = normalizeRoutePath (route_path r))"
proof (induction rs arbitrary: seen)
  case (Cons x rs)
  show ?case
  proof (cases "r = x")
    case True
    with Cons.prems show ?thesis by (auto simp: Let_def)
  next
    case False
    with Cons.prems have "r \<in> set rs" by simp
    with Cons.prems Cons.IH [of seen] Cons.IH [of "normalizeRoutePath (route_path x) # seen"]
    show ?thesis by (auto simp: Let_def)
  qed
qed simp

lemma missing_loop_distinct:
  "distinct (map (\<lambda>r. normalizeRoutePath (route_path r)) (missing_loop served seen rs))"
  by (induction rs arbitrary: seen) (auto simp: Let_def dest: missing_loop_set)



section \<open>Repaired routes\<close>

lemma split_on_join:
  "ss \<noteq> [] \<Longrightarrow> (\<And>s. s \<in> set ss \<Longrightarrow> c \<notin> set s) \<Longrightarrow> split_on c (js_join [c] ss) = ss"
  by (induction "[c]" ss rule: js_join.induct) (auto simp: split_on_plain split_on_append)

lemma set_js_join: "set (js_join sep ss) \<subseteq> set sep \<union> \<Union> (set ` set ss)"
  by (induction sep ss rule: js_join.induct) auto

definition plain_segment :: "string \<Rightarrow> bool" where
  "plain_segment s \<longleftrightarrow> s \<noteq> [] \<and> CHR ''/'' \<notin> set s \<and> CHR ''?'' \<notin> set s \<and> CHR ''#'' \<notin> set s \<and>
     \<not> is_route_group s \<and> \<not> prefix ''@'' s"

lemma takeWhile_plain:
  assumes "list_all plain_segment ss"
  shows "takeWhile (\<lambda>c. c \<noteq> CHR ''?'' \<and> c \<noteq> CHR ''#'') (js_join ''/'' ss) = js_join ''/'' ss"
  unfolding takeWhile_eq_all_conv
  using set_js_join [of "''/''" ss] assms by (fastforce simp: list_all_iff plain_segment_def)

lemma route_segments_plain: "list_all plain_segment ss \<Longrightarrow> route_segments (js_join ''/'' ss) = ss"
proof (cases "ss = []")
  case False
  assume plain: "list_all plain_segment ss"
  then have "split_on (CHR ''/'') (js_join ''/'' ss) = ss"
    using False by (intro split_on_join) (auto simp: list_all_iff plain_segment_def)
  moreover have "filter (\<lambda>s. 0 < length s) ss = ss"
    using plain by (auto simp: filter_id_conv list_all_iff plain_segment_def)
  ultimately show ?thesis by (simp add: route_segments_def takeWhile_plain plain)
qed (simp add: route_segments_def)

lemma route_segments_slash: "route_segments (''/'' @ p) = route_segments p"
  by (simp add: route_segments_def)

lemma slash_free: "list_all plain_segment ss \<Longrightarrow> s \<in> set ss \<Longrightarrow> CHR ''/'' \<notin> set s"
  by (auto simp: list_all_iff plain_segment_def)

text \<open>The file the repair asks for repairs the route. For a route whose segments are not
  route groups or parallel slots, the App Router page \<open>app/<path>/page.tsx\<close>, with or without a
  leading \<open>src/\<close>, serves exactly that route, so a route created as instructed is no longer
  reported missing; the root route is the case without segments.\<close>

lemma repaired_route_is_served:
  assumes "list_all plain_segment ss" and "pre = [] \<or> pre = ''src/''"
  shows "routeServedByFile (pre @ js_join ''/'' (''app'' # ss @ [''page.tsx''])) =
    Some (normalizeRoutePath (''/'' @ js_join ''/'' ss))"
proof -
  let ?p = "js_join ''/'' (''app'' # ss @ [''page.tsx''])"
  have "\<not> prefix ''src/'' ?p" by (cases "ss @ [''page.tsx'']") auto
  then have "strip_src (pre @ ?p) = ?p" using assms(2) by (auto simp: strip_src_def)
  moreover have "split_on (CHR ''/'') ?p = ''app'' # ss @ [''page.tsx'']"
    using slash_free [OF assms(1)] by (intro split_on_join) auto
  moreover have "is_app_entry ''page.tsx''" by (simp add: is_app_entry_def source_extensions_def)
  moreover have "filter (\<lambda>s. \<not> is_route_group s \<and> \<not> prefix ''@'' s) ss = ss"
    using assms(1) by (auto simp: filter_id_conv list_all_iff plain_segment_def)
  ultimately show ?thesis
    using route_segments_slash by (simp add: routeServedByFile_def normalizeRoutePath_def Let_def)
qed

end
