(* ===== verification/GraphLaws.thy ===== *)
theory GraphLaws
  imports RunGraph
begin

text \<open>
  Laws of the actions of the run graph. A reflexive and transitive relation between worlds
  that the primitive actions keep is kept by every action built from them; the locale
  \<open>world_relation\<close> proves this once, and is interpreted for the log of agent calls and for
  the store invariant.
\<close>

section \<open>Relations that actions keep\<close>

locale world_relation =
  fixes R :: "world \<Rightarrow> world \<Rightarrow> bool"
  assumes R_refl: "R w w" and R_trans: "R w1 w2 \<Longrightarrow> R w2 w3 \<Longrightarrow> R w1 w3"
begin

definition keeps :: "'a act \<Rightarrow> bool" where
  "keeps m \<longleftrightarrow> (\<forall>w r w'. m w = (r, w') \<longrightarrow> R w w')"

lemma keepsD: "keeps m \<Longrightarrow> m w = (r, w') \<Longrightarrow> R w w'"
  by (simp add: keeps_def)

lemma keeps_return: "keeps (return_act a)"
  by (simp add: keeps_def return_act_def R_refl)

lemma keeps_throw: "keeps (throw_act e)"
  by (simp add: keeps_def throw_act_def R_refl)

lemma keeps_of_res: "keeps (of_res r)"
  by (simp add: keeps_def of_res_def R_refl)

lemma keeps_load: "keeps (load_refs G i)"
  by (simp add: keeps_def load_refs_def R_refl split: option.splits)

lemma keeps_bind:
  assumes "keeps m" and "\<And>a. keeps (f a)"
  shows "keeps (bind_act m f)"
  unfolding keeps_def
proof (intro allI impI)
  fix w r w'
  assume b: "bind_act m f w = (r, w')"
  obtain x w1 where m: "m w = (x, w1)" by (cases "m w")
  with assms(1) have "R w w1" by (rule keepsD)
  moreover have "R w1 w'"
    using b m keepsD [OF assms(2)] R_refl by (cases x) (auto simp: bind_act_def)
  ultimately show "R w w'" by (rule R_trans)
qed

lemma keeps_catch:
  assumes "keeps m" and "\<And>e. keeps (h e)"
  shows "keeps (catch_act m h)"
  unfolding keeps_def
proof (intro allI impI)
  fix w r w'
  assume b: "catch_act m h w = (r, w')"
  obtain x w1 where m: "m w = (x, w1)" by (cases "m w")
  with assms(1) have "R w w1" by (rule keepsD)
  moreover have "R w1 w'"
    using b m keepsD [OF assms(2)] R_refl by (cases x) (auto simp: catch_act_def)
  ultimately show "R w w'" by (rule R_trans)
qed

lemmas keeps_intros = keeps_return keeps_throw keeps_of_res keeps_load

text \<open>An agent node keeps the relation if its store operations and its one call do.\<close>

lemma keeps_runAgent:
  assumes tx: "\<And>q. keeps (run_tx G (\<lambda>_. query q) :: project_type act)"
      "\<And>q. keeps (run_tx G (\<lambda>_. query q) :: workspace_plan act)"
      "\<And>q. keeps (run_tx G (\<lambda>_. query q) :: project_file list act)"
      "\<And>p. keeps (run_tx G (\<lambda>now. skipTask (p now)))"
      "\<And>p. keeps (run_tx G (\<lambda>now. prepareTask (p now)))"
      "\<And>k. keeps (run_tx G (\<lambda>now. startTask (rs_runId s) (rs_controlVersion s) k now))"
      "\<And>p. keeps (run_tx G (\<lambda>now. completeTask (g_ext G) (p now)))"
      "\<And>k e. keeps (run_tx G (\<lambda>now. failTask (rs_runId s) (rs_controlVersion s) k e now))"
    and call: "\<And>q. rq_agent q = a \<Longrightarrow> keeps (execute_agent G q)"
  shows "keeps (runAgent G a s)"
proof -
  have restore: "keeps (restore_output G a t)" for t
    unfolding restore_output_def by (auto split: option.split intro!: keeps_bind keeps_intros)
  have finish: "keeps (finish_agent G a s up k out)" for up k out
    unfolding finish_agent_def
    by (intro keeps_bind) (auto split: complete_result.split intro!: keeps_intros tx)
  have attempt: "keeps (attempt_agent G a s up pt k)" for up pt k
    unfolding keeps_def
  proof (intro allI impI)
    fix w r w'
    assume "attempt_agent G a s up pt k w = (r, w')"
    moreover obtain x w1 where q: "agent_call G a s up pt w = (x, w1)" by (rule prod.exhaust)
    moreover have "keeps (agent_call G a s up pt)"
      unfolding agent_call_def by (intro keeps_bind) (auto intro!: keeps_intros tx)
    moreover have "x = Inr q \<Longrightarrow> rq_agent q = a" for q
      using q by (auto simp: agent_call_def bind_act_def return_act_def split: prod.splits sum.splits)
    then have "x = Inr q \<Longrightarrow> keeps (bind_act (execute_agent G q) (finish_agent G a s up k))" for q
      by (intro keeps_bind call finish) auto
    ultimately show "R w w'"
      by (cases x) (auto simp: attempt_agent_def bind_act_def [of "agent_call G a s up pt"]
          dest!: keepsD intro: R_trans)
  qed
  have error: "keeps (on_agent_error G s k e)" for k e
    unfolding on_agent_error_def by (auto intro!: keeps_bind keeps_intros tx)
  have skip: "keeps (skip_reason_of G a s pt)" for pt
    unfolding skip_reason_of_def by (auto intro!: keeps_bind keeps_intros tx)
  show ?thesis
    unfolding runAgent_def skip_agent_def prepare_agent_def start_agent_def
    by (auto split: option.split task_result.split
        intro!: keeps_bind keeps_catch keeps_intros tx restore attempt error skip)
qed

lemma keeps_run_nodes:
  "(\<And>n s. n \<in> set ns \<Longrightarrow> keeps (node_action G n s)) \<Longrightarrow> keeps (run_nodes G ns s)"
  by (induction ns arbitrary: s) (auto intro!: keeps_bind keeps_return)

lemma keeps_approvalGate:
  "(\<And>p. keeps (run_tx G (\<lambda>now. requestApproval (rs_runId s) (rs_controlVersion s) ScopePlan p now))) \<Longrightarrow>
     keeps (approvalGate G s)"
  unfolding approvalGate_def pause_for_def runHasReferences_def
  by (auto split: option.split agent_output.split intro!: keeps_bind keeps_intros)

lemma keeps_contentGate:
  "(\<And>p. keeps (run_tx G (\<lambda>now. requestApproval (rs_runId s) (rs_controlVersion s) ScopeContent p now))) \<Longrightarrow>
     keeps (contentApprovalGate G s)"
  unfolding contentApprovalGate_def pause_for_def
  by (auto split: option.split agent_output.split intro!: keeps_bind keeps_intros)

end

section \<open>The log of agent calls\<close>

definition calls_of :: "agent_name set \<Rightarrow> world \<Rightarrow> world \<Rightarrow> bool" where
  "calls_of A w w' \<longleftrightarrow> (\<exists>qs. w_calls w' = w_calls w @ qs \<and> (\<forall>q \<in> set qs. rq_agent q \<in> A))"

interpretation calls: world_relation "calls_of A" for A
  by unfold_locales (auto simp: calls_of_def)

lemma calls_run_tx: "calls.keeps A (run_tx G t)"
  by (auto simp: calls.keeps_def calls_of_def run_tx_def Let_def split: sum.splits)

lemma calls_execute: "rq_agent q \<in> A \<Longrightarrow> calls.keeps A (execute_agent G q)"
  by (auto simp: calls.keeps_def calls_of_def execute_agent_def)

lemma calls_runAgent: "a \<in> A \<Longrightarrow> calls.keeps A (runAgent G a s)"
  by (rule calls.keeps_runAgent) (auto intro: calls_run_tx calls_execute)

lemma calls_approvalGate: "calls.keeps A (approvalGate G s)"
  by (rule calls.keeps_approvalGate) (rule calls_run_tx)

lemma calls_contentGate: "calls.keeps A (contentApprovalGate G s)"
  by (rule calls.keeps_contentGate) (rule calls_run_tx)

lemma calls_node:
  assumes "\<And>a. n = AgentNode a \<Longrightarrow> a \<in> A"
  shows "calls.keeps A (node_action G n s)"
  using assms by (cases n) (simp_all add: calls_runAgent calls_approvalGate calls_contentGate)

section \<open>The store invariant\<close>

definition store_kept :: "world \<Rightarrow> world \<Rightarrow> bool" where
  "store_kept w w' \<longleftrightarrow> (db_ok (w_db w) \<longrightarrow> db_ok (w_db w'))"

interpretation store: world_relation store_kept
  by unfold_locales (auto simp: store_kept_def)

definition env_ok :: "graph_options \<Rightarrow> bool" where
  "env_ok G \<longleftrightarrow> (\<forall>n d. db_ok d \<longrightarrow> db_ok (g_env G n d))"

lemma store_run_tx:
  assumes env: "env_ok G" and t: "\<And>now d x d'. db_ok d \<Longrightarrow> t now d = Inr (x, d') \<Longrightarrow> db_ok d'"
  shows "store.keeps (run_tx G t)"
  unfolding store.keeps_def store_kept_def
proof (intro allI impI)
  fix w r w'
  assume run: "run_tx G t w = (r, w')" and ok: "db_ok (w_db w)"
  let ?d = "g_env G (w_tick w) (w_db w)"
  have ok1: "db_ok ?d" using env ok by (simp add: env_ok_def)
  show "db_ok (w_db w')"
  proof (cases "t (g_now G (w_tick w)) ?d")
    case (Inl e)
    with run ok1 show ?thesis by (auto simp: run_tx_def Let_def)
  next
    case (Inr p)
    then obtain x d' where "t (g_now G (w_tick w)) ?d = Inr (x, d')" by (cases p) auto
    with run t [OF ok1 this] show ?thesis by (auto simp: run_tx_def Let_def)
  qed
qed

lemma query_Inr: "query q d = Inr (x, d') \<longleftrightarrow> q d = Inr x \<and> d' = d"
  by (auto simp: query_def split: sum.splits)

lemma db_ok_requestApproval:
  assumes ok: "db_ok d" and r: "requestApproval i cv sc reason now d = Inr (b, d')"
  shows "db_ok d'"
proof -
  obtain n d1 where u: "updateMany_run i (\<lambda>r. r_status r = RUNNING \<and> r_controlVersion r = cv)
      (\<lambda>r. r\<lparr>r_status := PAUSED, r_controlVersion := r_controlVersion r + 1,
             r_pausedAt := Some now, r_lastHeartbeatAt := Some now\<rparr>) d = (n, d1)"
    by (rule prod.exhaust)
  have "db_ok d1" using ok u by (rule db_ok_updateMany_run) simp
  with r u show ?thesis
    by (auto simp: requestApproval_def bind_res_Inr_iff split: if_splits intro: db_ok_appendEvent)
qed

lemma store_query: "env_ok G \<Longrightarrow> store.keeps (run_tx G (\<lambda>_. query q))"
  by (rule store_run_tx) (auto simp: query_Inr)

lemma store_execute: "store.keeps (execute_agent G q)"
  by (simp add: store.keeps_def store_kept_def execute_agent_def)

lemma store_runAgent:
  assumes "env_ok G"
  shows "store.keeps (runAgent G a s)"
proof (rule store.keeps_runAgent)
  show "store.keeps (run_tx G (\<lambda>now. skipTask (p now)))" for p
    by (rule store_run_tx [OF assms]) (rule skip.keeps_ok)
  show "store.keeps (run_tx G (\<lambda>now. prepareTask (p now)))" for p
    by (rule store_run_tx [OF assms]) (rule prepare.keeps_ok)
  show "store.keeps (run_tx G (\<lambda>now. startTask (rs_runId s) (rs_controlVersion s) k now))" for k
    by (rule store_run_tx [OF assms]) (rule start.keeps_ok)
  show "store.keeps (run_tx G (\<lambda>now. completeTask (g_ext G) (p now)))" for p
    by (rule store_run_tx [OF assms]) (rule complete.keeps_ok)
  show "store.keeps (run_tx G (\<lambda>now. failTask (rs_runId s) (rs_controlVersion s) k e now))" for k e
    by (rule store_run_tx [OF assms]) (rule fail.keeps_ok)
qed (rule store_query [OF assms] store_execute)+

lemma store_node:
  assumes "env_ok G"
  shows "store.keeps (node_action G n s)"
proof (cases n)
  case (AgentNode a)
  then show ?thesis using store_runAgent [OF assms] by simp
next
  case PlanGate
  have "store.keeps (run_tx G (\<lambda>now. requestApproval (rs_runId s) (rs_controlVersion s) ScopePlan p now))" for p
    by (rule store_run_tx [OF assms]) (rule db_ok_requestApproval)
  then show ?thesis using PlanGate store.keeps_approvalGate by simp
next
  case ContentGate
  have "store.keeps (run_tx G (\<lambda>now. requestApproval (rs_runId s) (rs_controlVersion s) ScopeContent p now))" for p
    by (rule store_run_tx [OF assms]) (rule db_ok_requestApproval)
  then show ?thesis using ContentGate store.keeps_contentGate by simp
qed

section \<open>What a node returns\<close>

lemmas returns_intros = returns_bind returns_catch returns_return returns_throw

definition own_update :: "agent_name \<Rightarrow> state_update \<Rightarrow> bool" where
  "own_update a u \<longleftrightarrow> fst ` set (su_outputs u) \<subseteq> {a} \<and> su_bypass u = None"

lemma own_single [simp]: "own_update a \<lparr>su_outputs = [(a, v)], su_bypass = None\<rparr>"
  by (simp add: own_update_def)

lemma own_no_update [simp]: "own_update a no_update"
  by (simp add: own_update_def no_update_def)

lemma restore_own: "returns (own_update a) (restore_output G a t)"
  unfolding restore_output_def by (auto split: option.split intro!: returns_intros)

lemma attempt_own: "returns (own_update a) (attempt_agent G a s up pt k)"
  unfolding attempt_agent_def finish_agent_def
  by (intro returns_bind) (auto split: complete_result.split intro!: returns_intros)

lemma error_own: "returns (own_update a) (on_agent_error G s k e)"
  unfolding on_agent_error_def by (auto intro!: returns_intros)

lemma runAgent_returns_own: "returns (own_update a) (runAgent G a s)"
  unfolding runAgent_def skip_agent_def prepare_agent_def start_agent_def
  by (intro returns_bind)
     (auto split: option.split task_result.split intro!: returns_intros restore_own attempt_own error_own)

lemma runAgent_own: "runAgent G a s w = (Inr u, w') \<Longrightarrow> own_update a u"
  using runAgent_returns_own [of a G s] unfolding returns_def by blast

lemma map_of_merge_other: "a \<notin> fst ` set upd \<Longrightarrow> map_of (merge_outputs cur upd) a = map_of cur a"
proof (induction upd rule: rev_induct)
  case Nil
  then show ?case by (simp add: merge_outputs_def)
next
  case (snoc p upd)
  then show ?case by (cases p) (auto simp: merge_outputs_def update_conv')
qed

lemma map_of_merge_single [simp]: "map_of (merge_outputs cur [(a, v)]) = (map_of cur)(a \<mapsto> v)"
  by (simp add: merge_outputs_def update_conv')

lemma merge_outputs_Nil [simp]: "merge_outputs cur [] = cur"
  by (simp add: merge_outputs_def)

lemma apply_update_keeps [simp]:
  "rs_runId (apply_update u s) = rs_runId s" "rs_command (apply_update u s) = rs_command s"
  "rs_approvalScope (apply_update u s) = rs_approvalScope s"
  "rs_controlVersion (apply_update u s) = rs_controlVersion s"
  "rs_projectId (apply_update u s) = rs_projectId s" "rs_workspaceId (apply_update u s) = rs_workspaceId s"
  by (simp_all add: apply_update_def)

lemma run_nodes_append:
  "run_nodes G (ns @ ms) s = bind_act (run_nodes G ns s) (run_nodes G ms)"
proof (induction ns arbitrary: s)
  case Nil
  then show ?case by (rule ext) (simp add: bind_act_def return_act_def)
next
  case (Cons n ns)
  show ?case
    by (rule ext) (simp add: Cons bind_act_def split: prod.split sum.split)
qed

text \<open>Agent nodes leave the command, the approval and every other agent's output alone.\<close>

lemma run_agent_nodes_frame:
  assumes "run_nodes G (map AgentNode as) s w = (Inr s', w')" and "b \<notin> set as"
  shows "rs_command s' = rs_command s \<and> rs_approvalScope s' = rs_approvalScope s \<and>
    rs_approvalBypassConsumed s' = rs_approvalBypassConsumed s \<and> rs_runId s' = rs_runId s \<and>
    rs_controlVersion s' = rs_controlVersion s \<and> map_of (rs_outputs s') b = map_of (rs_outputs s) b"
  using assms
proof (induction as arbitrary: s w)
  case Nil
  then show ?case by simp
next
  case (Cons a as)
  then obtain u w1 where u: "runAgent G a s w = (Inr u, w1)"
    and rest: "run_nodes G (map AgentNode as) (apply_update u s) w1 = (Inr s', w')"
    by (auto simp: bind_act_Inr)
  have own: "own_update a u" using u by (rule runAgent_own)
  with Cons.prems(2) have "map_of (rs_outputs (apply_update u s)) b = map_of (rs_outputs s) b"
    by (auto simp: apply_update_def own_update_def intro!: map_of_merge_other)
  with Cons.IH [OF rest] Cons.prems(2) own show ?case
    by (auto simp: apply_update_def own_update_def)
qed

end
