(* ===== verification/GraphProperties.thy ===== *)
theory GraphProperties
  imports GraphLaws
begin

text \<open>
  The properties of the run graph: which agents may be called and when, what the gates let
  through, that a completed task is never executed again, and that the store invariant
  survives every run, whatever the other actors do between two operations.
\<close>

section \<open>The gates\<close>

definition new_calls :: "world \<Rightarrow> world \<Rightarrow> agent_request list" where
  "new_calls w w' = drop (length (w_calls w)) (w_calls w')"

lemma calls_of_new: "calls_of A w w' \<Longrightarrow> q \<in> set (new_calls w w') \<Longrightarrow> rq_agent q \<in> A"
  by (auto simp: calls_of_def new_calls_def)

definition no_references :: "graph_options \<Rightarrow> nat \<Rightarrow> uuid \<Rightarrow> bool" where
  "no_references G n i \<longleftrightarrow> (case g_load G of None \<Rightarrow> True | Some f \<Rightarrow> f n i = Inr [])"

lemma runHasReferences_Inr:
  "runHasReferences G i w = (Inr b, w') \<Longrightarrow> w' = w \<and> (\<not> b \<longrightarrow> no_references G (w_tick w) i)"
  by (auto simp: runHasReferences_def bind_act_Inr load_refs_def no_references_def split: option.splits)

lemma pause_for_never_passes: "pause_for G s sc r a b w \<noteq> (Inr u, w')"
  by (auto simp: pause_for_def bind_act_Inr)

definition approves :: "run_state \<Rightarrow> approval_scope \<Rightarrow> bool" where
  "approves s sc \<longleftrightarrow> rs_command s = CmdApprove \<and> rs_approvalScope s = Some sc \<and> \<not> rs_approvalBypassConsumed s"

lemma approvalGate_passes:
  assumes "approvalGate G s w = (Inr u, w')"
  obtains mike where "map_of (rs_outputs s) Mike = Some (OMike mike)"
    and "map_of (rs_outputs s) Alex \<noteq> None \<or> approves s ScopePlan \<or>
         \<not> requiresApproval mike \<and> no_references G (w_tick w) (rs_runId s)"
proof -
  from assms obtain v where v: "map_of (rs_outputs s) Mike = Some v" "output_matches (json_ok (g_ext G)) Mike v"
    by (auto simp: approvalGate_def bind_act_Inr parse_output_def split: option.splits if_splits)
  then obtain mike where m: "v = OMike mike" by (cases v) (auto simp: output_matches_def)
  have "map_of (rs_outputs s) Alex \<noteq> None \<or> approves s ScopePlan \<or>
      \<not> requiresApproval mike \<and> no_references G (w_tick w) (rs_runId s)"
  proof (cases "map_of (rs_outputs s) Alex = None \<and> \<not> approves s ScopePlan")
    case True
    with assms v m obtain needed w1 where n: "(if requiresApproval mike then return_act True
        else runHasReferences G (rs_runId s)) w = (Inr needed, w1)" and "\<not> needed"
      by (auto simp: approvalGate_def bind_act_Inr parse_output_def approves_def pause_for_never_passes
          split: if_splits)
    then show ?thesis by (auto split: if_splits dest: runHasReferences_Inr)
  qed auto
  with v m that show ?thesis by blast
qed

text \<open>C4: Code is generated only from an approved plan. If an invocation of the graph calls
  Alex, then the job carried the approval of the plan, or an earlier invocation of this run
  already produced Alex's output, or the plan in force (Mike's output after the planning
  agents ran) did not ask for approval and the run carries no uploaded references. This
  holds for any agents and any interference, so no reference text can switch the gate off.\<close>

theorem code_generation_needs_approval:
  assumes "runGraph G s w = (res, w')" and "q \<in> set (new_calls w w')" and "rq_agent q = Alex"
  shows "approves s ScopePlan \<or> map_of (rs_outputs s) Alex \<noteq> None \<or>
    (\<exists>s1 w1 mike. run_nodes G before_plan_gate s w = (Inr s1, w1) \<and>
       map_of (rs_outputs s1) Mike = Some (OMike mike) \<and> \<not> requiresApproval mike \<and>
       no_references G (w_tick w1) (rs_runId s))"
proof -
  let ?A = "{Sophia, Mike, Emma, Bob}"
  have before: "before_plan_gate = map AgentNode [Sophia, Mike, Emma, Bob]"
    by (simp add: before_plan_gate_def)
  obtain r1 w1 where first: "run_nodes G before_plan_gate s w = (r1, w1)" by (rule prod.exhaust)
  have "calls.keeps ?A (run_nodes G before_plan_gate s)"
    by (intro calls.keeps_run_nodes calls_node) (auto simp: before_plan_gate_def)
  then have c1: "calls_of ?A w w1" using first by (rule calls.keepsD)
  have graph: "runGraph G s w = bind_act (run_nodes G before_plan_gate s) (run_nodes G (PlanGate # after_plan_gate)) w"
    by (simp add: runGraph_def graph_nodes_def run_nodes_append)
  show ?thesis
  proof (cases r1)
    case (Inl e)
    with graph first assms(1) have "w' = w1" by (simp add: bind_act_def)
    with calls_of_new [OF c1] assms(2,3) show ?thesis by fastforce
  next
    case (Inr s1)
    with first have nodes: "run_nodes G (map AgentNode [Sophia, Mike, Emma, Bob]) s w = (Inr s1, w1)"
      by (simp only: before)
    note frame = run_agent_nodes_frame [OF nodes, of Alex]
    obtain r2 w2 where gate: "approvalGate G s1 w1 = (r2, w2)" by (rule prod.exhaust)
    have "calls_of ?A w1 w2" using calls_approvalGate gate by (rule calls.keepsD)
    with c1 have c2: "calls_of ?A w w2" by (rule calls.R_trans)
    show ?thesis
    proof (cases r2)
      case (Inl e)
      with graph first Inr gate assms(1) have "w' = w2" by (simp add: bind_act_def)
      with calls_of_new [OF c2] assms(2,3) show ?thesis by fastforce
    next
      case pass: (Inr u)
      with gate approvalGate_passes obtain mike where "map_of (rs_outputs s1) Mike = Some (OMike mike)"
        and "map_of (rs_outputs s1) Alex \<noteq> None \<or> approves s1 ScopePlan \<or>
             \<not> requiresApproval mike \<and> no_references G (w_tick w1) (rs_runId s1)" by blast
      with frame first Inr show ?thesis by (auto simp: approves_def)
    qed
  qed
qed

text \<open>The plan gate once code exists: if the run already has Alex's output (as a run that
  waits for its content approval has), the gate lets it through and consumes no approval.
  Without it, a plan that requires approval is let through only by an approval of the plan,
  consumed by it; any other command, an approval of content and a resume included, pauses
  the run again for the plan (status PAUSED, next control version, an approval event), or
  reports that the run has moved on.\<close>

lemma plan_gate_decision:
  assumes "map_of (rs_outputs s) Mike = Some (OMike mike)" and "requiresApproval mike"
  shows "approvalGate G s w =
    (if map_of (rs_outputs s) Alex \<noteq> None then (Inr no_update, w)
     else if approves s ScopePlan then (Inr (no_update\<lparr>su_bypass := Some True\<rparr>), w)
     else (let d = g_env G (w_tick w) (w_db w); w1 = w\<lparr>w_db := d, w_tick := Suc (w_tick w)\<rparr>
           in case requestApproval (rs_runId s) (rs_controlVersion s) ScopePlan
                     ''Approve the product and architecture plan before code generation''
                     (g_now G (w_tick w)) d of
                Inl e \<Rightarrow> (Inl e, w1)
              | Inr (paused, d') \<Rightarrow>
                  (Inl (if paused then RunStoppedError ''Run is waiting for plan approval'' ''PAUSED''
                        else RunStoppedError ''Run stopped before approval could be requested'' ''stopped''),
                   w1\<lparr>w_db := d'\<rparr>)))"
  using assms
  by (simp add: approvalGate_def output_matches_def parse_output_def of_res_def bind_act_def return_act_def
      throw_act_def approves_def pause_for_def run_tx_def Let_def split: sum.split prod.split)

section \<open>Agent nodes\<close>

text \<open>The store at the step that prepares the task, after the reads that precede it.\<close>

definition prepare_tick :: "agent_name \<Rightarrow> world \<Rightarrow> nat" where
  "prepare_tick a w = w_tick w + (if premium_agent a then 2 else 1)"

definition prepare_store :: "graph_options \<Rightarrow> agent_name \<Rightarrow> world \<Rightarrow> db" where
  "prepare_store G a w =
     (let d1 = g_env G (w_tick w) (w_db w); d2 = g_env G (Suc (w_tick w)) d1
      in if premium_agent a then g_env G (Suc (Suc (w_tick w))) d2 else d2)"

lemma run_query:
  "run_tx G (\<lambda>_. query q) w =
     (q (g_env G (w_tick w) (w_db w)),
      w\<lparr>w_db := g_env G (w_tick w) (w_db w), w_tick := Suc (w_tick w)\<rparr>)"
  by (auto simp: run_tx_def query_def Let_def split: sum.split)

lemma calls_none: "calls_of {} w w' \<Longrightarrow> w_calls w' = w_calls w"
  by (auto simp: calls_of_def)

lemma no_call: "calls.keeps {} m \<Longrightarrow> m w = (r, w') \<Longrightarrow> w_calls w' = w_calls w"
  by (rule calls_none) (rule calls.keepsD)

lemma no_call_restore: "calls.keeps {} (restore_output G a t)"
  unfolding restore_output_def by (auto split: option.split intro!: calls.keeps_bind calls.keeps_intros)

lemma no_call_error: "calls.keeps {} (on_agent_error G s k e)"
  unfolding on_agent_error_def by (auto intro!: calls.keeps_bind calls.keeps_intros calls_run_tx)

lemma no_call_skip_reason: "calls.keeps {} (skip_reason_of G a s pt)"
  unfolding skip_reason_of_def by (auto intro!: calls.keeps_bind calls.keeps_intros calls_run_tx)

definition one_call :: "agent_name \<Rightarrow> world \<Rightarrow> world \<Rightarrow> bool" where
  "one_call a w w' \<longleftrightarrow> w_calls w' = w_calls w \<or> (\<exists>q. w_calls w' = w_calls w @ [q] \<and> rq_agent q = a)"

lemma no_call_agent_call: "calls.keeps {} (agent_call G a s up pt)"
  unfolding agent_call_def by (intro calls.keeps_bind) (auto intro!: calls.keeps_intros calls_run_tx)

lemma no_call_finish: "calls.keeps {} (finish_agent G a s up k out)"
  unfolding finish_agent_def
  by (intro calls.keeps_bind) (auto split: complete_result.split intro!: calls.keeps_intros calls_run_tx)

lemma agent_call_agent: "agent_call G a s up pt w = (Inr q, w') \<Longrightarrow> rq_agent q = a"
  by (auto simp: agent_call_def bind_act_Inr)

lemma attempt_one_call:
  assumes "attempt_agent G a s up pt k w = (r, w')"
  shows "one_call a w w'"
  using assms unfolding attempt_agent_def
proof (rule bind_act_cases)
  fix e
  assume "agent_call G a s up pt w = (Inl e, w')"
  then show ?thesis by (simp add: one_call_def no_call [OF no_call_agent_call])
next
  fix q w1
  assume q: "agent_call G a s up pt w = (Inr q, w1)"
    and "bind_act (execute_agent G q) (finish_agent G a s up k) w1 = (r, w')"
  note q = no_call [OF no_call_agent_call q] agent_call_agent [OF q]
  from \<open>bind_act _ _ w1 = (r, w')\<close> show ?thesis
    by (rule bind_act_cases)
       (auto simp: one_call_def execute_agent_def q dest: no_call [OF no_call_finish])
qed

lemma attempt_catch_one_call:
  assumes "catch_act (attempt_agent G a s up pt k) (on_agent_error G s k') w = (r, w')"
  shows "one_call a w w'"
proof -
  obtain x w1 where m: "attempt_agent G a s up pt k w = (x, w1)" by (rule prod.exhaust)
  have "w_calls w' = w_calls w1"
    using assms m no_call [OF no_call_error] by (cases x) (auto simp: catch_act_def)
  with attempt_one_call [OF m] show ?thesis by (simp add: one_call_def)
qed

text \<open>How a node reaches its agent: the reads, the preparation and the start.\<close>

lemma one_call_same: "w_calls w1 = w_calls w \<Longrightarrow> one_call a w1 w' \<Longrightarrow> one_call a w w'"
  by (simp add: one_call_def)

lemma run_tx_Inr:
  "run_tx G t w = (Inr x, w') \<longleftrightarrow>
     (\<exists>d'. t (g_now G (w_tick w)) (g_env G (w_tick w) (w_db w)) = Inr (x, d') \<and>
       w' = w\<lparr>w_db := d', w_tick := Suc (w_tick w)\<rparr>)"
  by (auto simp: run_tx_def Let_def split: sum.splits)

lemma skip_reason_none:
  assumes "skip_reason_of G a s pt w1 = (Inr None, w2)"
  shows "isRequiredForProjectType pt a \<and>
    (if premium_agent a
     then w2 = w1\<lparr>w_db := g_env G (w_tick w1) (w_db w1), w_tick := Suc (w_tick w1)\<rparr> \<and>
       (\<exists>p. getWorkspacePlan (rs_workspaceId s) (g_env G (w_tick w1) (w_db w1)) = Inr p \<and> p \<noteq> FREE)
     else w2 = w1)"
  using assms by (auto simp: skip_reason_of_def bind_act_Inr run_query isEntitled_def split: if_splits)

lemma start_agent_one_call:
  assumes "start_agent G a s up pt t w = (r, w')"
  shows "one_call a w w' \<and> (wt_status t = T_COMPLETED \<longrightarrow> w_calls w' = w_calls w)"
proof (cases "wt_status t = T_COMPLETED")
  case True
  with assms show ?thesis
    by (auto simp: start_agent_def one_call_def dest: no_call [OF no_call_restore])
next
  case False
  with assms show ?thesis
    by (auto simp: start_agent_def throw_act_def one_call_def elim!: bind_act_cases
        split: task_result.splits if_splits
        dest!: no_call [OF calls_run_tx] no_call [OF no_call_restore] attempt_catch_one_call)
qed

lemma no_call_skip: "calls.keeps {} (skip_agent G a s up sr)"
  unfolding skip_agent_def
  by (auto split: task_result.split intro!: calls.keeps_bind calls.keeps_intros calls_run_tx)

lemma no_call_of_res: "calls.keeps {} (of_res x)"
  by (rule calls.keeps_of_res)

lemma prepare_agent_called:
  assumes "prepare_agent G a s up pt w = (r, w')" and "w_calls w' \<noteq> w_calls w"
  obtains t w1 where "run_tx G (\<lambda>now. prepareTask (node_input (g_ext G) a s up None now)) w = (Inr (TaskOk t), w1)"
    "wt_status t \<noteq> T_COMPLETED" "one_call a w w'"
  using assms(1) unfolding prepare_agent_def
proof (rule bind_act_cases)
  fix e assume "run_tx G (\<lambda>now. prepareTask (node_input (g_ext G) a s up None now)) w = (Inl e, w')"
  with assms(2) no_call [OF calls_run_tx] show thesis by fastforce
next
  fix x w1
  assume p: "run_tx G (\<lambda>now. prepareTask (node_input (g_ext G) a s up None now)) w = (Inr x, w1)"
    and rest: "(case x of
         TaskOk t \<Rightarrow> start_agent G a s up pt t
       | TaskStopped \<Rightarrow> throw_act (RunStoppedError ''Run stopped before task preparation'' ''stopped'')) w1 = (r, w')"
  have c: "w_calls w1 = w_calls w" using no_call [OF calls_run_tx p] .
  with rest assms(2) obtain t where "x = TaskOk t" "start_agent G a s up pt t w1 = (r, w')"
    by (cases x) (auto simp: throw_act_def)
  with that p c assms(2) start_agent_one_call show thesis by (metis one_call_same)
qed

lemma runAgent_called:
  assumes run: "runAgent G a s w = (r, w')" and called: "w_calls w' \<noteq> w_calls w"
  obtains up pt w2 where
    "getProjectType (rs_projectId s) (g_env G (w_tick w) (w_db w)) = Inr pt"
    "skip_reason_of G a s pt (w\<lparr>w_db := g_env G (w_tick w) (w_db w), w_tick := Suc (w_tick w)\<rparr>) = (Inr None, w2)"
    "w_calls w2 = w_calls w" "prepare_agent G a s up pt w2 = (r, w')"
proof -
  let ?w1 = "w\<lparr>w_db := g_env G (w_tick w) (w_db w), w_tick := Suc (w_tick w)\<rparr>"
  from run called obtain up pt where pt: "getProjectType (rs_projectId s) (g_env G (w_tick w) (w_db w)) = Inr pt"
    and sk: "bind_act (skip_reason_of G a s pt) (\<lambda>reason.
       case reason of Some sr \<Rightarrow> skip_agent G a s up sr | None \<Rightarrow> prepare_agent G a s up pt) ?w1 = (r, w')"
    by (auto simp: runAgent_def bind_act_def [of "of_res _"] bind_act_def [of "run_tx G (\<lambda>_. query _)"]
        of_res_def run_query split: sum.splits)
  from sk show thesis
  proof (rule bind_act_cases)
    fix e assume "skip_reason_of G a s pt ?w1 = (Inl e, w')"
    with called no_call [OF no_call_skip_reason] show thesis by fastforce
  next
    fix reason w2
    assume reason: "skip_reason_of G a s pt ?w1 = (Inr reason, w2)"
      and rest: "(case reason of Some sr \<Rightarrow> skip_agent G a s up sr | None \<Rightarrow> prepare_agent G a s up pt) w2 = (r, w')"
    have c: "w_calls w2 = w_calls w" using no_call [OF no_call_skip_reason reason] by simp
    with rest called have "reason = None" "prepare_agent G a s up pt w2 = (r, w')"
      by (cases reason; simp add: no_call [OF no_call_skip])+
    with that pt reason c show thesis by blast
  qed
qed

lemma prepareTask_task:
  assumes "prepareTask p d = Inr (TaskOk t, d')"
  shows "active (pt_runId p) (pt_expectedControlVersion p) d"
    and "task_at (pt_runId p) (pt_ordinal p) d = Some (k, u) \<Longrightarrow> wt_status t = t_status u"
proof -
  show "active (pt_runId p) (pt_expectedControlVersion p) d"
    using prepare.effect_needs_active [OF assms] by simp
  show "wt_status t = t_status u" if "task_at (pt_runId p) (pt_ordinal p) d = Some (k, u)"
  proof -
    obtain b d1 where touch: "touchActiveRun (pt_runId p) (pt_expectedControlVersion p) (pt_now p) d = (b, d1)"
      by (rule prod.exhaust)
    have "task_at i n d1 = task_at i n d" for i n
      using touch by (cases b) (auto simp: touchActiveRun_True touchActiveRun_False task_at_def)
    with assms that touch show ?thesis
      by (auto simp: prepareTask_def toWorkerTaskRecord_def split: if_splits)
  qed
qed

text \<open>C5: A node calls its agent at most once, and only if the project type, read at that
  moment, requires the agent; for the premium agents Sophia, Sarah and Adrian only if the
  plan of the workspace, read then, is not the free one; and only if at the preparation of
  the task the run was running at the job's control version and the agent's task was not
  already completed. So completed work is never paid for twice.\<close>

theorem agent_called_only_if:
  assumes "runAgent G a s w = (r, w')" and "w_calls w' \<noteq> w_calls w"
  shows "(\<exists>pt. getProjectType (rs_projectId s) (g_env G (w_tick w) (w_db w)) = Inr pt \<and>
            a \<in> set (agentsRequiredFor pt)) \<and>
    (a \<notin> {Sophia, Sarah, Adrian} \<or>
       (\<exists>p. getWorkspacePlan (rs_workspaceId s)
              (g_env G (Suc (w_tick w)) (g_env G (w_tick w) (w_db w))) = Inr p \<and> p \<noteq> FREE)) \<and>
    active (rs_runId s) (rs_controlVersion s) (prepare_store G a w) \<and>
    (\<nexists>k t. task_at (rs_runId s) (task_ordinal a) (prepare_store G a w) = Some (k, t) \<and> t_status t = T_COMPLETED) \<and>
    (\<exists>q. w_calls w' = w_calls w @ [q] \<and> rq_agent q = a)"
proof -
  from assms obtain up pt w2 where
    pt: "getProjectType (rs_projectId s) (g_env G (w_tick w) (w_db w)) = Inr pt"
    and sk: "skip_reason_of G a s pt (w\<lparr>w_db := g_env G (w_tick w) (w_db w), w_tick := Suc (w_tick w)\<rparr>) = (Inr None, w2)"
    and c2: "w_calls w2 = w_calls w" and pr: "prepare_agent G a s up pt w2 = (r, w')"
    by (rule runAgent_called)
  note dec = skip_reason_none [OF sk]
  have store: "g_env G (w_tick w2) (w_db w2) = prepare_store G a w"
    using dec by (auto simp: prepare_store_def Let_def split: if_splits)
  obtain t w3 where p: "run_tx G (\<lambda>now. prepareTask (node_input (g_ext G) a s up None now)) w2 = (Inr (TaskOk t), w3)"
    and t: "wt_status t \<noteq> T_COMPLETED" and one: "one_call a w2 w'"
    using pr assms(2) c2 by (metis prepare_agent_called)
  from p obtain d' where "prepareTask (node_input (g_ext G) a s up None (g_now G (w_tick w2)))
      (prepare_store G a w) = Inr (TaskOk t, d')" by (auto simp: run_tx_Inr store)
  note prep = prepareTask_task [OF this]
  have "active (rs_runId s) (rs_controlVersion s) (prepare_store G a w)"
    using prep(1) by (simp add: node_input_def)
  moreover have "\<nexists>k t. task_at (rs_runId s) (task_ordinal a) (prepare_store G a w) = Some (k, t) \<and> t_status t = T_COMPLETED"
    using prep(2) t by (force simp: node_input_def)
  moreover have "\<exists>q. w_calls w' = w_calls w @ [q] \<and> rq_agent q = a"
    using one assms(2) c2 by (simp add: one_call_def)
  ultimately show ?thesis
    using pt dec by (auto simp: isRequiredForProjectType_def premium_agent_def)
qed

section \<open>The whole graph\<close>

text \<open>C9: However a graph invocation ends, and whatever other actors do between two of its
  store operations, as long as they keep the store invariant, the invariant holds afterwards:
  gap-free event numbers, gap-free file versions, one task per ordinal.\<close>

theorem graph_keeps_store:
  assumes "\<And>n d. db_ok d \<Longrightarrow> db_ok (g_env G n d)" and "runGraph G s w = (res, w')" and "db_ok (w_db w)"
  shows "db_ok (w_db w')"
proof -
  have "env_ok G" using assms(1) by (simp add: env_ok_def)
  then have "store.keeps (runGraph G s)"
    unfolding runGraph_def by (intro store.keeps_run_nodes store_node)
  with assms(2,3) show ?thesis by (auto dest: store.keepsD simp: store_kept_def)
qed

text \<open>
  The witnesses run the graph on the sample store: the job approves the plan, the planning
  agents answer and Alex fails.
\<close>

fun sample_execute :: "nat \<Rightarrow> agent_request \<Rightarrow> thrown + agent_output" where
  "sample_execute n q =
     (case rq_agent q of
        Sophia \<Rightarrow> Inr (OSophia JNull)
      | Mike \<Rightarrow> Inr (OMike \<lparr>requiresApproval = True, mike_rest = JNull\<rparr>)
      | Emma \<Rightarrow> Inr (OEmma JNull)
      | Bob \<Rightarrow> Inr (OBob \<lparr>bob_routes = [], bob_rest = JNull\<rparr>)
      | _ \<Rightarrow> Inl (GenericError ''no answer''))"

definition sample_graph :: graph_options where
  "sample_graph = \<lparr>g_ext = sample_externals, g_env = (\<lambda>_ d. d), g_now = (\<lambda>n. int n), g_execute = sample_execute,
     g_load = None\<rparr>"

definition sample_state :: run_state where
  "sample_state = \<lparr>rs_runId = 3, rs_workspaceId = 1, rs_projectId = 2, rs_prompt = ''p'', rs_command = CmdApprove,
     rs_approvalScope = Some ScopePlan, rs_controlVersion = 1, rs_approvalBypassConsumed = False, rs_outputs = []\<rparr>"

definition sample_world :: world where
  "sample_world = \<lparr>w_db = sample_db, w_tick = 0, w_calls = [], w_validations = [], w_leases = 0,
     w_revocations = 0\<rparr>"

definition alex_calls :: "graph_options \<Rightarrow> run_state \<Rightarrow> world \<Rightarrow> bool" where
  "alex_calls G s w = list_ex (\<lambda>q. rq_agent q = Alex) (new_calls w (snd (runGraph G s w)))"

lemma sample_alex_calls: "alex_calls sample_graph sample_state sample_world"
  by code_simp

theorem code_generation_needs_approval_witness:
  "\<exists>res w' q. runGraph sample_graph sample_state sample_world = (res, w') \<and> q \<in> set (new_calls sample_world w') \<and>
     rq_agent q = Alex \<and> approves sample_state ScopePlan"
proof -
  obtain res w' where run: "runGraph sample_graph sample_state sample_world = (res, w')" by (rule prod.exhaust)
  with sample_alex_calls obtain q where q: "q \<in> set (new_calls sample_world w')" "rq_agent q = Alex"
    by (auto simp: alex_calls_def list_ex_iff)
  with code_generation_needs_approval [OF run q] run show ?thesis
    by (auto simp: sample_state_def approves_def)
qed

theorem agent_called_only_if_witness:
  "\<exists>r w'. runAgent sample_graph Sophia sample_state sample_world = (r, w') \<and>
     (\<exists>q. w_calls w' = w_calls sample_world @ [q] \<and> rq_agent q = Sophia)"
proof -
  obtain r w' where run: "runAgent sample_graph Sophia sample_state sample_world = (r, w')" by (rule prod.exhaust)
  have "length (w_calls (snd (runAgent sample_graph Sophia sample_state sample_world))) = 1" by code_simp
  then have "w_calls w' \<noteq> w_calls sample_world" using run by (auto simp: sample_world_def)
  from agent_called_only_if [OF run this] run show ?thesis by blast
qed

theorem graph_keeps_store_witness:
  "\<exists>res w'. runGraph sample_graph sample_state sample_world = (res, w') \<and> db_ok (w_db w')"
proof -
  obtain res w' where run: "runGraph sample_graph sample_state sample_world = (res, w')" by (rule prod.exhaust)
  have "db_ok (w_db sample_world)" by (simp add: sample_world_def db_ok_sample)
  with graph_keeps_store [OF _ run] run show ?thesis by (auto simp: sample_graph_def)
qed

section \<open>Deterministic checks and failures\<close>

lemma filter_count_nil: "filter (\<lambda>u. 1 < count_list xs u) (unique_first xs) = [] \<longleftrightarrow> distinct xs"
proof -
  have "(\<forall>u \<in> set xs. count_list xs u \<le> 1) \<longleftrightarrow> distinct xs"
  proof (induction xs)
    case (Cons x xs)
    have "count_list xs x = 0 \<longleftrightarrow> x \<notin> set xs" by (rule count_list_0_iff)
    with Cons show ?case by (auto simp: le_Suc_eq)
  qed simp
  then show ?thesis by (simp add: filter_empty_conv not_less)
qed

lemma seo_error_not_retryable: "\<not> isRetryableError (DeterministicSeoValidationError msg)"
  by (simp add: DeterministicSeoValidationError_def isRetryableError_def throw_node_def plain_error_def
      node_of_def numeral_nat)

text \<open>Sarah's output passes the deterministic checks exactly when it has metadata for every
  route Bob planned and no two entries share a canonical URL; anything else is an error that
  is not retried.\<close>

lemma seo_checks_exact:
  assumes "map_of up Bob = Some (OBob b)"
  shows "(enforceDeterministicSeoChecks X (OSarah s) up = Inr () \<longleftrightarrow>
      route_path ` set (bob_routes b) \<subseteq> md_routePath ` set (routeMetadata s) \<and> distinct (canonical_urls s)) \<and>
    (\<forall>e. enforceDeterministicSeoChecks X (OSarah s) up = Inl e \<longrightarrow> \<not> isRetryableError e)"
proof -
  have "missing_route_metadata s b = [] \<longleftrightarrow>
      route_path ` set (bob_routes b) \<subseteq> md_routePath ` set (routeMetadata s)"
    by (auto simp: missing_route_metadata_def filter_empty_conv)
  moreover have "duplicate_canonicals s = [] \<longleftrightarrow> distinct (canonical_urls s)"
    unfolding duplicate_canonicals_def by (rule filter_count_nil)
  moreover have "enforceDeterministicSeoChecks X (OSarah s) up =
      (if missing_route_metadata s b = [] \<and> duplicate_canonicals s = [] then Inr ()
       else Inl (DeterministicSeoValidationError (seo_message (missing_route_metadata s b) (duplicate_canonicals s))))"
    using assms
    by (simp add: enforceDeterministicSeoChecks_def parse_output_def output_matches_def Let_def)
  ultimately show ?thesis
    by (simp add: seo_error_not_retryable del: split_paired_All)
qed

text \<open>A failing agent. When the attempt fails with an error that is not a stop, and the run
  is still running at the job's version, the task ends FAILED with the classified error, the
  failure is the last event of the run, and the same error is thrown on to the processor. If
  the run has moved on meanwhile, nothing is written and the node reports the stop instead.\<close>

lemma agent_failure_recorded:
  assumes "db_ok d" and "d = g_env G (w_tick w) (w_db w)" and "\<not> instance_of_stopped e"
    and "task_of d k = Some t"
  shows "case on_agent_error G s k e w of (r, w') \<Rightarrow>
    (if active (rs_runId s) (rs_controlVersion s) d
     then r = Inl e \<and>
       map_option t_status (task_of (w_db w') k) = Some T_FAILED \<and>
       map e_body (events (w_db w')) = map e_body (events d) @
         [TaskFailed k (t_agentName t) (t_ordinal t) (t_attempt t) (worker_error_json (toWorkerError e))]
     else r = Inl (RunStoppedError ''Run stopped while the task result was in flight'' ''stopped'') \<and>
       w_db w' = d)"
proof (cases "active (rs_runId s) (rs_controlVersion s) d")
  case False
  with assms show ?thesis
    by (simp add: on_agent_error_def bind_act_def run_tx_def fail.stale throw_act_def Let_def)
next
  case True
  let ?err = "worker_error_json (toWorkerError e)" and ?now = "g_now G (w_tick w)"
  let ?b = "TaskFailed k (t_agentName t) (t_ordinal t) (t_attempt t) ?err"
  from True obtain r where r: "run_of d (rs_runId s) = Some r" "r_status r = RUNNING"
      "r_controlVersion r = rs_controlVersion s" by (auto simp: active_def)
  let ?d1 = "set_run (rs_runId s) (r\<lparr>r_lastHeartbeatAt := Some ?now\<rparr>) d"
  let ?d2 = "set_task k (t\<lparr>t_status := T_FAILED, t_error := Some ?err, t_completedAt := Some ?now\<rparr>) ?d1"
  have t: "touchActiveRun (rs_runId s) (rs_controlVersion s) ?now d = (True, ?d1)"
    using r by (simp add: touchActiveRun_True)
  have "events_ok ?d2" using assms(1) r events_ok_cong [of ?d2 d] by (simp add: db_ok_def)
  moreover have "run_of ?d2 (rs_runId s) = Some (r\<lparr>r_lastHeartbeatAt := Some ?now\<rparr>)" by simp
  moreover have "validateRunEventPayload ?b = Some ?b" by (simp add: validateRunEventPayload_def)
  ultimately obtain d3 where a: "appendEvent (rs_runId s) ?b ?d2 = Inr d3"
    and ev: "events d3 = events ?d2 @ [\<lparr>e_runId = rs_runId s, e_sequence = Suc (r_eventSequence r), e_body = ?b\<rparr>]"
    and tk: "tasks d3 = tasks ?d2"
    using appendEvent_total by fastforce
  have "failTask (rs_runId s) (rs_controlVersion s) k ?err ?now d = Inr (True, d3)"
    using t assms(4) a by (simp add: failTask_def)
  then show ?thesis
    using assms(2,3) True ev tk
    by (simp add: on_agent_error_def bind_act_def run_tx_def Let_def throw_act_def)
qed

end
