(* ===== verification/Processor.thy ===== *)
theory Processor
  imports Repair GraphProperties
begin

text \<open>
  \<open>orchestrator-worker/src/processor.ts\<close>: one job of the run queue, from the claim of the run
  to its completion, failure or hand-back to the queue.

  The validator and the release assessor are interfaces of the processor and parameters here:
  a step takes the operation counter and the store to a result and the store it leaves. A
  lease is the step that revokes it. What the checkpointer of the graph library carries over
  from an earlier job of the same run is the parameter \<open>carried\<close>.
\<close>

type_synonym 'a step = "nat \<Rightarrow> db \<Rightarrow> (thrown + 'a) \<times> db"

definition step_act :: "'a step \<Rightarrow> 'a act" where
  "step_act f w = (case f (w_tick w) (w_db w) of (r, d) \<Rightarrow> (r, w\<lparr>w_db := d, w_tick := Suc (w_tick w)\<rparr>))"

record processor_options =
  po_graph :: graph_options
  po_validator :: "(run_execution \<Rightarrow> nat \<Rightarrow> unit step option step) option"
  po_assessor :: "(run_execution \<Rightarrow> nat \<Rightarrow> unit step) option"
  po_repairer :: bool
  po_maxRepairAttempts :: nat

datatype process_result =
    PCompleted | PFailed | PStopped string | PSkippedMissing | PSkippedStale

definition REPAIR_ATTEMPT_STRIDE :: nat where
  "REPAIR_ATTEMPT_STRIDE = 100"

section \<open>The claim\<close>

definition claim_act :: "graph_options \<Rightarrow> run_job \<Rightarrow> claim_result act" where
  "claim_act G job w =
     (let n = w_tick w; d = g_env G n (w_db w)
      in case claimRun (g_env G (Suc n)) job (g_now G n) d of
           Inl e \<Rightarrow> (Inl e, w\<lparr>w_db := g_env G (Suc n) d, w_tick := n + 2\<rparr>)
         | Inr (c, d') \<Rightarrow> (Inr c, w\<lparr>w_db := d', w_tick := n + 2\<rparr>))"

section \<open>Route coverage\<close>

definition swallow_unless_stopped :: "'a act \<Rightarrow> 'a \<Rightarrow> 'a act" where
  "swallow_unless_stopped m a =
     catch_act m (\<lambda>e. if findRunStoppedError e \<noteq> None then throw_act e else return_act a)"

definition entry_route :: planned_route where
  "entry_route = \<lparr>route_method = ''GET'', route_path = ''/''\<rparr>"

definition repairMissingRoutes ::
    "processor_options \<Rightarrow> run_execution \<Rightarrow> (agent_name \<times> agent_output) list \<Rightarrow> nat act" where
  "repairMissingRoutes P run outputs =
     (if \<not> po_repairer P \<or> po_maxRepairAttempts P < 1 then return_act 0
      else swallow_unless_stopped
        (bind_act (of_res (parseUpstreamOutputs (g_ext (po_graph P)) outputs)) (\<lambda>up.
           case map_of up Bob of
             Some (OBob b) \<Rightarrow>
               bind_act (run_tx (po_graph P) (\<lambda>_. query (\<lambda>d. Inr (listProjectFiles (x_projectId run) d)))) (\<lambda>fs.
                 let missing = findMissingRoutes (entry_route # bob_routes b) (map pf_path fs)
                 in if missing = [] then return_act 0
                    else bind_act (repair (po_graph P) run
                             \<lparr>vf_step = ROUTE_COVERAGE_STEP, vf_exitCode = 1, vf_output = describeMissingRoutes missing\<rparr>
                             up 1)
                           (\<lambda>repaired. return_act (if repaired then 1 else 0)))
           | _ \<Rightarrow> return_act 0)) 0)"

section \<open>Validation and its repairs\<close>

definition validate_act :: "processor_options \<Rightarrow> run_execution \<Rightarrow> nat \<Rightarrow> unit step option act" where
  "validate_act P run n w =
     (case po_validator P of
        None \<Rightarrow> (Inr None, w)
      | Some v \<Rightarrow>
          (case step_act (v run n) (w\<lparr>w_validations := w_validations w @ [(x_id run, n)]\<rparr>) of
             (Inr (Some l), w1) \<Rightarrow> (Inr (Some l), w1\<lparr>w_leases := Suc (w_leases w1)\<rparr>)
           | res \<Rightarrow> res))"

definition try_repair ::
    "processor_options \<Rightarrow> run_execution \<Rightarrow> (agent_name \<times> agent_output) list \<Rightarrow> validation_failure \<Rightarrow> nat
       \<Rightarrow> bool act" where
  "try_repair P run outputs f used =
     swallow_unless_stopped
       (bind_act (of_res (parseUpstreamOutputs (g_ext (po_graph P)) outputs))
          (\<lambda>up. repair (po_graph P) run f up (used + 1))) False"

function validation_loop ::
    "processor_options \<Rightarrow> run_execution \<Rightarrow> (agent_name \<times> agent_output) list \<Rightarrow> nat \<Rightarrow> nat
       \<Rightarrow> (unit step option \<times> nat) act" where
  "validation_loop P run outputs attempt used w =
     (let n = attempt + used * REPAIR_ATTEMPT_STRIDE
      in case validate_act P run n w of
           (Inr lease, w1) \<Rightarrow> (Inr (lease, n), w1)
         | (Inl e, w1) \<Rightarrow>
             (case findValidationFailure e of
                None \<Rightarrow> (Inl e, w1)
              | Some f \<Rightarrow>
                  (if \<not> po_repairer P \<or> po_maxRepairAttempts P \<le> used \<or> \<not> isRepairableValidationStep (vf_step f)
                   then (Inl e, w1)
                   else case try_repair P run outputs f used w1 of
                          (Inl e2, w2) \<Rightarrow> (Inl e2, w2)
                        | (Inr repaired, w2) \<Rightarrow>
                            (if \<not> repaired then (Inl e, w2)
                             else validation_loop P run outputs attempt (Suc used) w2))))"
  by pat_completeness auto
termination
  by (relation "measure (\<lambda>(P, run, outputs, attempt, used, w). po_maxRepairAttempts P - used)") auto

declare validation_loop.simps [simp del]

section \<open>The end of a job\<close>

definition revoke_act :: "unit step option \<Rightarrow> unit act" where
  "revoke_act lease w =
     (case lease of
        None \<Rightarrow> (Inr (), w)
      | Some l \<Rightarrow> step_act l (w\<lparr>w_revocations := Suc (w_revocations w)\<rparr>))"

definition assess_act :: "processor_options \<Rightarrow> run_execution \<Rightarrow> nat \<Rightarrow> unit act" where
  "assess_act P run n =
     (case po_assessor P of
        None \<Rightarrow> return_act ()
      | Some f \<Rightarrow> catch_act (step_act (f run n)) (\<lambda>_. return_act ()))"

definition conclude :: "processor_options \<Rightarrow> run_execution \<Rightarrow> unit step option \<Rightarrow> nat \<Rightarrow> process_result act" where
  "conclude P run lease n =
     bind_act (assess_act P run n) (\<lambda>_.
     bind_act (run_tx (po_graph P) (completeRun (x_id run) (x_controlVersion run))) (\<lambda>completed.
       if completed then return_act PCompleted
       else bind_act (revoke_act lease) (\<lambda>_. return_act (PStopped ''stale''))))"

definition stopped_status :: "err_node \<Rightarrow> string" where
  "stopped_status n = (case en_class n of ClsRunStopped s \<Rightarrow> s | _ \<Rightarrow> [])"

definition on_run_error ::
    "processor_options \<Rightarrow> run_execution \<Rightarrow> int \<Rightarrow> int \<Rightarrow> unit step option \<Rightarrow> thrown \<Rightarrow> process_result act" where
  "on_run_error P run attempt maxAttempts lease e =
     bind_act (catch_act (revoke_act lease) (\<lambda>_. return_act ())) (\<lambda>_.
       case findRunStoppedError e of
         Some n \<Rightarrow> return_act (PStopped (stopped_status n))
       | None \<Rightarrow>
           (if isRetryableError e \<and> attempt < maxAttempts then throw_act e
            else bind_act (run_tx (po_graph P)
                    (failRun (x_id run) (x_controlVersion run) (worker_error_json (toWorkerError e))))
                  (\<lambda>failed. return_act (if failed then PFailed else PStopped ''stale''))))"

section \<open>A job\<close>

definition first_state ::
    "(agent_name \<times> agent_output) list \<Rightarrow> run_job \<Rightarrow> run_execution \<Rightarrow> run_state" where
  "first_state carried job run =
     \<lparr>rs_runId = x_id run, rs_workspaceId = x_workspaceId run, rs_projectId = x_projectId run,
      rs_prompt = x_prompt run, rs_command = job_command job, rs_approvalScope = job_approvalScope job,
      rs_controlVersion = x_controlVersion run, rs_approvalBypassConsumed = False, rs_outputs = carried\<rparr>"

definition produce ::
    "processor_options \<Rightarrow> (agent_name \<times> agent_output) list \<Rightarrow> run_job \<Rightarrow> run_execution \<Rightarrow> int
       \<Rightarrow> (unit step option \<times> nat) act" where
  "produce P carried job run attempt =
     bind_act (runGraph (po_graph P) (first_state carried job run)) (\<lambda>final.
     bind_act (repairMissingRoutes P run (rs_outputs final)) (\<lambda>used.
     validation_loop P run (rs_outputs final) (nat attempt) used))"

definition run_claimed ::
    "processor_options \<Rightarrow> (agent_name \<times> agent_output) list \<Rightarrow> run_job \<Rightarrow> run_execution \<Rightarrow> int \<Rightarrow> int
       \<Rightarrow> process_result act" where
  "run_claimed P carried job run attempt maxAttempts w =
     (case produce P carried job run attempt w of
        (Inl e, w1) \<Rightarrow> on_run_error P run attempt maxAttempts None e w1
      | (Inr (lease, n), w1) \<Rightarrow>
          catch_act (conclude P run lease n) (on_run_error P run attempt maxAttempts lease) w1)"

definition valid_run_job :: "run_job \<Rightarrow> bool" where
  "valid_run_job j \<longleftrightarrow> (case job_reason j of None \<Rightarrow> True | Some r \<Rightarrow> bounded_text 2000 r)"

definition RangeError :: "string \<Rightarrow> thrown" where
  "RangeError msg = throw_node (plain_error ClsError ''RangeError'' msg)"

definition process_run ::
    "processor_options \<Rightarrow> (agent_name \<times> agent_output) list \<Rightarrow> run_job \<Rightarrow> int \<Rightarrow> int \<Rightarrow> process_result act" where
  "process_run P carried job attempt maxAttempts =
     (if \<not> valid_run_job job then throw_act ZodError
      else if attempt < 1 \<or> maxAttempts < attempt
      then throw_act (RangeError ''Invalid worker attempt metadata'')
      else bind_act (claim_act (po_graph P) job) (\<lambda>claim.
             case claim of
               Missing \<Rightarrow> return_act PSkippedMissing
             | Stale _ _ \<Rightarrow> return_act PSkippedStale
             | Ready run \<Rightarrow> run_claimed P carried job run attempt maxAttempts))"

end
