(* ===== verification/ProcessorProperties.thy ===== *)
theory ProcessorProperties
  imports Processor SandboxRepository
begin

text \<open>
  The properties of a queue job: which jobs are dropped, what each outcome says about the
  store, how many validations a job may cost and under which attempt numbers, and that a
  preview lease survives a job only if the run was completed.
\<close>

section \<open>The claim\<close>

lemma claimRun_ready:
  assumes "claimRun env job now d = Inr (Ready run, d')"
  shows "x_id run = job_runId job \<and> x_controlVersion run = job_controlVersion job + 1 \<and> x_status run = RUNNING"
  using assms
  by (auto simp: claimRun_def updateMany_run_def bind_res_Inr_iff toRunExecutionRecord_def Let_def
      split: option.splits if_splits)

text \<open>A job is obeyed only in the state it was issued for. If, when the worker reads it,
  the run is neither pending at the job's control version nor already running at the next
  one (a redelivery of the same job), the job is skipped: no agent is called, nothing is
  validated and the store is not written. A job for a run that does not exist is skipped too.\<close>

lemma stale_job_is_skipped:
  assumes "valid_run_job job" and "1 \<le> attempt" and "attempt \<le> maxAttempts"
    and "d = g_env (po_graph P) (w_tick w) (w_db w)"
    and "\<And>r. run_of d (job_runId job) = Some r \<Longrightarrow>
           \<not> (r_status r = PENDING \<and> r_controlVersion r = job_controlVersion job) \<and>
           \<not> (r_status r = RUNNING \<and> r_controlVersion r = job_controlVersion job + 1)"
  shows "process_run P carried job attempt maxAttempts w =
    (Inr (if run_of d (job_runId job) = None then PSkippedMissing else PSkippedStale),
     w\<lparr>w_db := d, w_tick := w_tick w + 2\<rparr>)"
proof (cases "run_of d (job_runId job)")
  case None
  with assms(1-4) show ?thesis
    by (simp add: process_run_def bind_act_def claim_act_def claimRun_def return_act_def Let_def)
next
  case (Some r)
  with assms(5) [OF Some] have "claimRun (g_env (po_graph P) (Suc (w_tick w))) job (g_now (po_graph P) (w_tick w)) d
      = Inr (Stale (r_status r) (r_controlVersion r), d)"
    by (auto simp: claimRun_def)
  with Some assms(1-4) show ?thesis
    by (simp add: process_run_def bind_act_def claim_act_def return_act_def Let_def)
qed

definition sample_processor :: processor_options where
  "sample_processor = \<lparr>po_graph = sample_graph, po_validator = None, po_assessor = None, po_repairer = False,
     po_maxRepairAttempts = 0\<rparr>"

definition sample_job :: run_job where
  "sample_job = \<lparr>job_runId = 3, job_command = CmdResume, job_controlVersion = 5, job_reason = None,
     job_approvalScope = None\<rparr>"

section \<open>Logs that only the processor writes\<close>

definition logs_same :: "world \<Rightarrow> world \<Rightarrow> bool" where
  "logs_same w w' \<longleftrightarrow> w_validations w' = w_validations w \<and> w_leases w' = w_leases w \<and>
     w_revocations w' = w_revocations w"

interpretation logs: world_relation logs_same
  by unfold_locales (auto simp: logs_same_def)

lemma logs_run_tx: "logs.keeps (run_tx G t)"
  by (auto simp: logs.keeps_def logs_same_def run_tx_def Let_def split: sum.splits)

lemma logs_execute: "logs.keeps (execute_agent G q)"
  by (simp add: logs.keeps_def logs_same_def execute_agent_def)

lemma logs_step: "logs.keeps (step_act f)"
  by (auto simp: logs.keeps_def logs_same_def step_act_def split: prod.splits)

lemma logs_claim: "logs.keeps (claim_act G job)"
  by (auto simp: logs.keeps_def logs_same_def claim_act_def Let_def split: sum.splits)

lemma logs_node: "logs.keeps (node_action G n s)"
proof (cases n)
  case (AgentNode a)
  have "logs.keeps (runAgent G a s)" by (rule logs.keeps_runAgent) (rule logs_run_tx logs_execute)+
  with AgentNode show ?thesis by simp
next
  case PlanGate
  then show ?thesis using logs.keeps_approvalGate [OF logs_run_tx] by simp
next
  case ContentGate
  then show ?thesis using logs.keeps_contentGate [OF logs_run_tx] by simp
qed

lemma logs_runGraph: "logs.keeps (runGraph G s)"
  unfolding runGraph_def by (intro logs.keeps_run_nodes logs_node)

lemma logs_repair: "logs.keeps (repair G run f up n)"
  unfolding repair_def apply_repair_def
  by (auto split: option.split apply_result.split
      intro!: logs.keeps_bind logs.keeps_intros logs_run_tx logs_execute)

lemma logs_swallow: "logs.keeps m \<Longrightarrow> logs.keeps (swallow_unless_stopped m a)"
  unfolding swallow_unless_stopped_def by (auto intro!: logs.keeps_catch logs.keeps_intros)

lemma logs_repairMissingRoutes: "logs.keeps (repairMissingRoutes P run outs)"
  unfolding repairMissingRoutes_def Let_def
  by (auto split: option.split agent_output.split
      intro!: logs_swallow logs.keeps_bind logs.keeps_intros logs_run_tx logs_repair)

lemma logs_try_repair: "logs.keeps (try_repair P run outs f used)"
  unfolding try_repair_def by (intro logs_swallow logs.keeps_bind logs.keeps_of_res logs_repair)

lemma logs_assess: "logs.keeps (assess_act P run n)"
  unfolding assess_act_def by (auto split: option.split intro!: logs.keeps_catch logs.keeps_intros logs_step)

section \<open>The validations of a job\<close>

definition attempts_from :: "uuid \<Rightarrow> nat \<Rightarrow> nat \<Rightarrow> nat \<Rightarrow> (uuid \<times> nat) list" where
  "attempts_from i a u k = map (\<lambda>j. (i, a + j * REPAIR_ATTEMPT_STRIDE)) [u..<u + k]"

lemma attempts_from_Suc: "attempts_from i a u (Suc k) = (i, a + u * REPAIR_ATTEMPT_STRIDE) # attempts_from i a (Suc u) k"
  by (simp add: attempts_from_def upt_conv_Cons)

lemma validate_act_logs:
  assumes "validate_act P run n w = (r, w')"
  shows "w_validations w' = w_validations w @ (if po_validator P = None then [] else [(x_id run, n)]) \<and>
    w_revocations w' = w_revocations w \<and>
    w_leases w' = w_leases w + (case r of Inr (Some l) \<Rightarrow> 1 | _ \<Rightarrow> 0)"
  using assms
  by (auto simp: validate_act_def step_act_def split: option.splits sum.splits prod.splits)

lemma validation_loop_logs:
  assumes "validation_loop P run outs a u w = (r, w')"
  shows "(\<exists>k. w_validations w' = w_validations w @ attempts_from (x_id run) a u k \<and>
              u + k \<le> Suc (max u (po_maxRepairAttempts P))) \<and>
    w_revocations w' = w_revocations w \<and>
    w_leases w' = w_leases w + (case r of Inr (Some l, n) \<Rightarrow> 1 | _ \<Rightarrow> 0)"
  using assms
proof (induction P run outs a u w rule: validation_loop.induct)
  case (1 P run outs a u w)
  let ?n = "a + u * REPAIR_ATTEMPT_STRIDE"
  obtain x w1 where v: "validate_act P run ?n w = (x, w1)" by (rule prod.exhaust)
  note log1 = validate_act_logs [OF v]
  have one: "\<exists>k. w_validations w1 = w_validations w @ attempts_from (x_id run) a u k \<and> k \<le> 1"
    using log1 by (cases "po_validator P") (auto simp: attempts_from_def intro: exI [of _ 0] exI [of _ 1])
  show ?case
  proof (cases "\<exists>e f w2. x = Inl e \<and> findValidationFailure e = Some f \<and>
      \<not> (\<not> po_repairer P \<or> po_maxRepairAttempts P \<le> u \<or> \<not> isRepairableValidationStep (vf_step f)) \<and>
      try_repair P run outs f u w1 = (Inr True, w2)")
    case True
    then obtain e f w2 where e: "x = Inl e" "findValidationFailure e = Some f"
      and c: "\<not> (\<not> po_repairer P \<or> po_maxRepairAttempts P \<le> u \<or> \<not> isRepairableValidationStep (vf_step f))"
      and t: "try_repair P run outs f u w1 = (Inr True, w2)" by blast
    have rec: "validation_loop P run outs a (Suc u) w2 = (r, w')"
      using 1(2) v e c t by (simp add: validation_loop.simps [of P run outs a u w] Let_def)
    from 1(1) [OF refl v [symmetric] e(1,2) c t [symmetric] refl _ rec] obtain k where
      k: "w_validations w' = w_validations w2 @ attempts_from (x_id run) a (Suc u) k"
        "Suc u + k \<le> Suc (max (Suc u) (po_maxRepairAttempts P))"
        "w_revocations w' = w_revocations w2"
        "w_leases w' = w_leases w2 + (case r of Inr (Some l, n) \<Rightarrow> 1 | _ \<Rightarrow> 0)" by auto
    have same: "logs_same w1 w2" using logs_try_repair t by (rule logs.keepsD)
    show ?thesis
    proof (cases "po_validator P")
      case None
      with v e show ?thesis by (simp add: validate_act_def)
    next
      case (Some val)
      with k log1 same e c show ?thesis
        by (intro conjI exI [of _ "Suc k"]) (auto simp: attempts_from_Suc logs_same_def)
    qed
  next
    case False
    have "\<exists>w2. logs_same w1 w' \<and> (case r of Inr (Some l, n) \<Rightarrow> 1 | _ \<Rightarrow> 0) =
        (case x of Inr (Some l) \<Rightarrow> 1 | _ \<Rightarrow> (0::nat))"
    proof (cases x)
      case (Inr lease)
      with 1(2) v show ?thesis
        by (auto simp: validation_loop.simps [of P run outs a u w] Let_def logs_same_def split: option.splits)
    next
      case (Inl e)
      with 1(2) v False show ?thesis
        using logs.keepsD [OF logs_try_repair, of P run outs _ u w1]
        by (auto simp: validation_loop.simps [of P run outs a u w] Let_def logs.R_refl
            split: option.splits if_splits prod.splits sum.splits)
    qed
    with log1 one show ?thesis by (auto simp: logs_same_def)
  qed
qed

lemma swallow_returns:
  "returns Q m \<Longrightarrow> Q a \<Longrightarrow> returns Q (swallow_unless_stopped m a)"
  unfolding swallow_unless_stopped_def by (auto intro!: returns_catch returns_return returns_throw)

lemma repairMissingRoutes_bound:
  "returns (\<lambda>u. u \<le> 1 \<and> u \<le> po_maxRepairAttempts P) (repairMissingRoutes P run outs)"
proof (cases "\<not> po_repairer P \<or> po_maxRepairAttempts P < 1")
  case True
  then show ?thesis by (auto simp: repairMissingRoutes_def intro: returns_return)
next
  case False
  then show ?thesis
    by (auto simp: repairMissingRoutes_def Let_def split: option.split agent_output.split
        intro!: swallow_returns returns_bind returns_return)
qed

text \<open>What a job did to the logs, with the number of the first repair used.\<close>

lemma produce_logs:
  assumes "produce P carried job run attempt w = (r, w')"
  shows "(\<exists>u k. w_validations w' = w_validations w @ attempts_from (x_id run) (nat attempt) u k \<and>
              u + k \<le> Suc (po_maxRepairAttempts P)) \<and>
    w_revocations w' = w_revocations w \<and>
    w_leases w' = w_leases w + (case r of Inr (Some l, n) \<Rightarrow> 1 | _ \<Rightarrow> 0)"
proof -
  have none: "attempts_from (x_id run) (nat attempt) 0 0 = []" by (simp add: attempts_from_def)
  obtain x w1 where g: "runGraph (po_graph P) (first_state carried job run) w = (x, w1)" by (rule prod.exhaust)
  have s1: "logs_same w w1" using logs_runGraph g by (rule logs.keepsD)
  show ?thesis
  proof (cases x)
    case (Inl e)
    with assms g s1 show ?thesis
      by (auto simp: produce_def bind_act_def logs_same_def none intro!: exI [of _ 0])
  next
    case (Inr final)
    obtain y w2 where m: "repairMissingRoutes P run (rs_outputs final) w1 = (y, w2)" by (rule prod.exhaust)
    have s2: "logs_same w1 w2" using logs_repairMissingRoutes m by (rule logs.keepsD)
    show ?thesis
    proof (cases y)
      case (Inl e)
      with assms g m s1 s2 \<open>x = Inr final\<close> show ?thesis
        by (auto simp: produce_def bind_act_def logs_same_def none intro!: exI [of _ 0])
    next
      case (Inr u)
      then have "u \<le> po_maxRepairAttempts P"
        using repairMissingRoutes_bound [of P run "rs_outputs final"] m by (auto simp: returns_def)
      moreover have "validation_loop P run (rs_outputs final) (nat attempt) u w2 = (r, w')"
        using assms g m Inr \<open>x = Inr final\<close> by (simp add: produce_def bind_act_def)
      ultimately show ?thesis
        using validation_loop_logs s1 s2 unfolding logs_same_def by (metis max_absorb2)
    qed
  qed
qed

lemma revoke_logs:
  "revoke_act lease w = (r, w') \<Longrightarrow> w_validations w' = w_validations w \<and> w_leases w' = w_leases w \<and>
     w_revocations w' = w_revocations w + (if lease = None then 0 else 1)"
  by (auto simp: revoke_act_def step_act_def split: option.splits prod.splits)

lemma on_run_error_logs:
  assumes "on_run_error P run a m lease e w = (r, w')"
  shows "w_validations w' = w_validations w \<and> w_leases w' = w_leases w \<and>
    w_revocations w' = w_revocations w + (if lease = None then 0 else 1)"
proof -
  obtain x w1 where v: "revoke_act lease w = (x, w1)" by (rule prod.exhaust)
  then have c: "catch_act (revoke_act lease) (\<lambda>_. return_act ()) w = (Inr (), w1)"
    by (cases x) (auto simp: catch_act_def return_act_def)
  let ?k = "case findRunStoppedError e of
         Some n \<Rightarrow> return_act (PStopped (stopped_status n))
       | None \<Rightarrow>
           (if isRetryableError e \<and> a < m then throw_act e
            else bind_act (run_tx (po_graph P)
                    (failRun (x_id run) (x_controlVersion run) (worker_error_json (toWorkerError e))))
                  (\<lambda>failed. return_act (if failed then PFailed else PStopped ''stale'')))"
  have "logs.keeps ?k" by (auto split: option.split intro!: logs.keeps_bind logs.keeps_intros logs_run_tx)
  moreover have "?k w1 = (r, w')" using assms c by (simp add: on_run_error_def bind_act_def)
  ultimately have "logs_same w1 w'" by (rule logs.keepsD)
  with revoke_logs [OF v] show ?thesis by (simp add: logs_same_def)
qed

lemma on_run_error_result: "returns (\<lambda>r. r \<noteq> PCompleted) (on_run_error P run a m lease e)"
  unfolding on_run_error_def
  by (intro returns_bind) (auto split: option.split if_splits intro!: returns_bind returns_return returns_throw)

lemma on_run_error_not_completed: "on_run_error P run a m lease e w = (r, w') \<Longrightarrow> r \<noteq> Inr PCompleted"
  using on_run_error_result [of P run a m lease e] unfolding returns_def by blast

lemma conclude_logs:
  assumes "conclude P run lease n w = (r, w')"
  shows "w_validations w' = w_validations w \<and> w_leases w' = w_leases w \<and>
    (w_revocations w' = w_revocations w + (if lease = None then 0 else 1) \<or> w_revocations w' = w_revocations w) \<and>
    (r = Inr PCompleted \<longrightarrow> w_revocations w' = w_revocations w) \<and>
    ((\<exists>x. r = Inr x \<and> x \<noteq> PCompleted) \<longrightarrow> w_revocations w' = w_revocations w + (if lease = None then 0 else 1))"
proof -
  let ?tx = "run_tx (po_graph P) (completeRun (x_id run) (x_controlVersion run))"
  obtain y w1 where y: "assess_act P run n w = (y, w1)" by (rule prod.exhaust)
  obtain z w2 where z: "?tx w1 = (z, w2)" by (rule prod.exhaust)
  obtain v w3 where v: "revoke_act lease w2 = (v, w3)" by (rule prod.exhaust)
  have "logs_same w w1" using logs_assess y by (rule logs.keepsD)
  moreover have "logs_same w1 w2" using logs_run_tx z by (rule logs.keepsD)
  moreover note revoke_logs [OF v]
  ultimately show ?thesis using assms y z v
    by (auto simp: conclude_def bind_act_def return_act_def logs_same_def split: sum.splits if_splits)
qed

lemma run_claimed_logs:
  assumes "run_claimed P carried job run a m w = (r, w')"
  shows "(\<exists>u k. w_validations w' = w_validations w @ attempts_from (x_id run) (nat a) u k \<and>
              u + k \<le> Suc (po_maxRepairAttempts P)) \<and>
    (r = Inr PCompleted \<longrightarrow> w_revocations w' = w_revocations w) \<and>
    (r \<noteq> Inr PCompleted \<and> w_leases w' \<noteq> w_leases w \<longrightarrow> w_revocations w < w_revocations w')"
proof -
  obtain x w1 where p: "produce P carried job run a w = (x, w1)" by (rule prod.exhaust)
  note log1 = produce_logs [OF p]
  show ?thesis
  proof (cases x)
    case (Inl e)
    with assms p have err: "on_run_error P run a m None e w1 = (r, w')" by (simp add: run_claimed_def)
    then have "r \<noteq> Inr PCompleted" by (rule on_run_error_not_completed)
    with on_run_error_logs [OF err] log1 Inl show ?thesis by auto
  next
    case (Inr ln)
    obtain lease n where ln: "ln = (lease, n)" by (cases ln)
    obtain y w2 where c: "conclude P run lease n w1 = (y, w2)" by (rule prod.exhaust)
    note log2 = conclude_logs [OF c]
    have fin: "catch_act (conclude P run lease n) (on_run_error P run a m lease) w1 = (r, w')"
      using assms p Inr ln by (simp add: run_claimed_def)
    show ?thesis
    proof (cases y)
      case (Inl e)
      with fin c have err: "on_run_error P run a m lease e w2 = (r, w')" by (simp add: catch_act_def)
      then have "r \<noteq> Inr PCompleted" by (rule on_run_error_not_completed)
      with on_run_error_logs [OF err] log1 log2 \<open>x = Inr ln\<close> ln show ?thesis
        by (auto split: option.splits)
    next
      case (Inr res)
      with fin c have "r = Inr res" "w' = w2" by (simp_all add: catch_act_def)
      with log1 log2 \<open>x = Inr ln\<close> ln Inr show ?thesis by (auto split: option.splits)
    qed
  qed
qed

lemma attempt_numbers:
  assumes "1 \<le> a1" "a1 \<le> 100" "1 \<le> a2" "a2 \<le> 100" "j1 \<le> (3::nat)" "j2 \<le> (3::nat)"
  shows "a1 + j1 * REPAIR_ATTEMPT_STRIDE < PREVIEW_REOPEN_FIRST_ATTEMPT"
    and "a1 + j1 * REPAIR_ATTEMPT_STRIDE = a2 + j2 * REPAIR_ATTEMPT_STRIDE \<Longrightarrow> a1 = a2 \<and> j1 = j2"
proof -
  show "a1 + j1 * REPAIR_ATTEMPT_STRIDE < PREVIEW_REOPEN_FIRST_ATTEMPT"
    using assms by (simp add: REPAIR_ATTEMPT_STRIDE_def PREVIEW_REOPEN_FIRST_ATTEMPT_def)
  assume "a1 + j1 * REPAIR_ATTEMPT_STRIDE = a2 + j2 * REPAIR_ATTEMPT_STRIDE"
  then have eq: "a1 + j1 * 100 = a2 + j2 * 100" by (simp add: REPAIR_ATTEMPT_STRIDE_def)
  have "\<not> j1 < j2" "\<not> j2 < j1" using eq assms by linarith+
  with eq show "a1 = a2 \<and> j1 = j2" by simp
qed



section \<open>Leases and outcomes\<close>

lemma process_run_cases:
  assumes "process_run P carried job attempt maxAttempts w = (r, w')"
  obtains "logs_same w w'" "r \<noteq> Inr PCompleted" "r \<noteq> Inr PFailed"
  | run w1 where "logs_same w w1" "x_id run = job_runId job" "x_controlVersion run = job_controlVersion job + 1"
      "run_claimed P carried job run attempt maxAttempts w1 = (r, w')"
proof (cases "valid_run_job job \<and> \<not> (attempt < 1 \<or> maxAttempts < attempt)")
  case False
  with assms that(1) show ?thesis
    by (auto simp: process_run_def throw_act_def logs.R_refl split: if_splits)
next
  case True
  obtain c w1 where c: "claim_act (po_graph P) job w = (c, w1)" by (rule prod.exhaust)
  have s1: "logs_same w w1" using logs_claim c by (rule logs.keepsD)
  show ?thesis
  proof (cases "\<exists>run. c = Inr (Ready run)")
    case ready: True
    then obtain run where run: "c = Inr (Ready run)" ..
    with c have "x_id run = job_runId job \<and> x_controlVersion run = job_controlVersion job + 1"
      by (auto simp: claim_act_def Let_def dest: claimRun_ready split: sum.splits)
    moreover have "run_claimed P carried job run attempt maxAttempts w1 = (r, w')"
      using assms True c run by (simp add: process_run_def bind_act_def)
    ultimately show ?thesis using that(2) s1 by blast
  next
    case False
    with assms True c have "w' = w1 \<and> r \<noteq> Inr PCompleted \<and> r \<noteq> Inr PFailed"
      by (auto simp: process_run_def bind_act_def return_act_def split: sum.splits claim_result.splits)
    with that(1) s1 show ?thesis by blast
  qed
qed



definition ended :: "run_status \<Rightarrow> nat \<Rightarrow> uuid \<Rightarrow> (run \<Rightarrow> run_event_body \<Rightarrow> bool) \<Rightarrow> db \<Rightarrow> bool" where
  "ended st cv i Q d \<longleftrightarrow> (\<exists>r es e. run_of d i = Some r \<and> r_status r = st \<and> r_controlVersion r = cv \<and>
     events d = es @ [e] \<and> e_runId e = i \<and> Q r (e_body e))"

lemma completeRun_ended:
  "completeRun i cv now d = Inr (True, d') \<Longrightarrow>
     ended COMPLETED (Suc cv) i (\<lambda>r b. b = RunCompleted now \<and> r_completedAt r = Some now) d'"
  by (auto simp: completeRun_def updateMany_run_def bind_res_Inr_iff appendEvent_Inr ended_def set_run_def
      update_conv' validateRunEventPayload_def split: option.splits if_splits)

lemma failRun_ended:
  "failRun i cv err now d = Inr (True, d') \<Longrightarrow>
     ended FAILED (Suc cv) i (\<lambda>r b. b = RunFailed err \<and> r_error r = Some err) d'"
  by (auto simp: failRun_def updateMany_run_def bind_res_Inr_iff appendEvent_Inr ended_def set_run_def
      update_conv' validateRunEventPayload_def split: option.splits if_splits)

lemma on_run_error_failed:
  assumes "on_run_error P run a m lease e w = (Inr PFailed, w')"
  shows "ended FAILED (Suc (x_controlVersion run)) (x_id run)
    (\<lambda>r b. b = RunFailed (worker_error_json (toWorkerError e)) \<and> r_error r = Some (worker_error_json (toWorkerError e)))
    (w_db w') \<and> \<not> (isRetryableError e \<and> a < m)"
  using assms
  by (auto simp: on_run_error_def bind_act_Inr run_tx_Inr split: option.splits if_splits dest!: failRun_ended)

lemma conclude_completed:
  "conclude P run lease n w = (Inr PCompleted, w') \<Longrightarrow>
     ended COMPLETED (Suc (x_controlVersion run)) (x_id run)
       (\<lambda>r b. \<exists>t. b = RunCompleted t \<and> r_completedAt r = Some t) (w_db w')"
  by (auto simp: conclude_def bind_act_Inr run_tx_Inr ended_def split: if_splits dest!: completeRun_ended)

lemma conclude_not_failed: "conclude P run lease n w \<noteq> (Inr PFailed, w')"
  by (auto simp: conclude_def bind_act_Inr split: if_splits)

text \<open>C7: What a job reports is what the store holds. If a job reports that the run completed,
  the run is COMPLETED two control versions after the one the job was issued for and the last
  event is its completion at the recorded time. If it reports a failure, the run is FAILED at
  that version with a recorded error, the last event is the failure with the same error, and
  the error was either not retryable or met on the last attempt.\<close>

theorem job_outcome_in_store:
  assumes "process_run P carried job attempt maxAttempts w = (Inr out, w')"
  shows "(out = PCompleted \<longrightarrow> ended COMPLETED (job_controlVersion job + 2) (job_runId job)
            (\<lambda>r b. \<exists>t. b = RunCompleted t \<and> r_completedAt r = Some t) (w_db w')) \<and>
    (out = PFailed \<longrightarrow> (\<exists>e. \<not> (isRetryableError e \<and> attempt < maxAttempts) \<and>
       ended FAILED (job_controlVersion job + 2) (job_runId job)
         (\<lambda>r b. b = RunFailed (worker_error_json (toWorkerError e)) \<and>
            r_error r = Some (worker_error_json (toWorkerError e))) (w_db w')))"
  using assms
proof (rule process_run_cases)
  assume "Inr out \<noteq> (Inr PCompleted :: thrown + process_result)" "Inr out \<noteq> (Inr PFailed :: thrown + process_result)"
  then show ?thesis by simp
next
  fix run w1
  assume id: "x_id run = job_runId job" "x_controlVersion run = job_controlVersion job + 1"
    and run: "run_claimed P carried job run attempt maxAttempts w1 = (Inr out, w')"
  obtain x w2 where p: "produce P carried job run attempt w1 = (x, w2)" by (rule prod.exhaust)
  show ?thesis
  proof (cases x)
    case (Inl e)
    with run p have err: "on_run_error P run attempt maxAttempts None e w2 = (Inr out, w')"
      by (simp add: run_claimed_def)
    have "out \<noteq> PCompleted" using on_run_error_not_completed [OF err] by simp
    with err on_run_error_failed id show ?thesis by fastforce
  next
    case (Inr ln)
    obtain lease n where ln: "ln = (lease, n)" by (cases ln)
    from run p Inr ln have "catch_act (conclude P run lease n) (on_run_error P run attempt maxAttempts lease) w2
        = (Inr out, w')" by (simp add: run_claimed_def)
    then consider "conclude P run lease n w2 = (Inr out, w')"
      | e w3 where "on_run_error P run attempt maxAttempts lease e w3 = (Inr out, w')"
      by (auto simp: catch_act_Inr)
    then show ?thesis
    proof cases
      case 1
      with conclude_completed conclude_not_failed id show ?thesis by fastforce
    next
      case 2
      have "out \<noteq> PCompleted" using on_run_error_not_completed [OF 2] by simp
      with 2 on_run_error_failed id show ?thesis by fastforce
    qed
  qed
qed

definition failing_job :: run_job where
  "failing_job = \<lparr>job_runId = 3, job_command = CmdApprove, job_controlVersion = 0, job_reason = None,
     job_approvalScope = Some ScopePlan\<rparr>"

definition reports_failure :: "(thrown + process_result) \<times> world \<Rightarrow> bool" where
  "reports_failure x = (case fst x of Inr PFailed \<Rightarrow> True | _ \<Rightarrow> False)"

lemma failing_job_fails: "reports_failure (process_run sample_processor [] failing_job 3 3 sample_world)"
  by code_simp

theorem job_outcome_in_store_witness:
  "\<exists>w'. process_run sample_processor [] failing_job 3 3 sample_world = (Inr PFailed, w') \<and>
     ended FAILED 2 3 (\<lambda>r b. \<exists>j. b = RunFailed j \<and> r_error r = Some j) (w_db w')"
proof -
  obtain r w' where run: "process_run sample_processor [] failing_job 3 3 sample_world = (r, w')" by (rule prod.exhaust)
  with failing_job_fails have "r = Inr PFailed"
    by (auto simp: reports_failure_def split: sum.splits process_result.splits)
  with job_outcome_in_store [of sample_processor "[]" failing_job 3 3 sample_world PFailed w'] run show ?thesis
    by (auto simp: failing_job_def ended_def)
qed

end
