(* ===== verification/Budget.thy ===== *)
theory Budget
  imports Database
begin

text \<open>
  \<open>orchestrator-worker/src/model-budget.ts\<close>: the durable ledger of provider spend and the
  gateway that reserves a worst case before every model call and settles it afterwards.

  Amounts are integers in micro-USD; the columns are 32-bit, and a statement whose result
  does not fit throws and rolls its transaction back. The row lock that every transaction
  takes first makes it atomic. Floating-point pricing enters as parameters: the raw cost of a
  request and its product with the safety multiplier, rounded up. So do the byte length of a
  text and the decoding of a base64 reference (\<open>Buffer\<close> of Node) and the provider itself.
\<close>

section \<open>The ledger\<close>

record budget_row =
  b_total :: int
  b_reserved :: int
  b_actual :: int

record ledger =
  l_runs :: "(uuid \<times> budget_row) list"
  l_windows :: "((uuid \<times> int) \<times> int) list"

definition fits_int4 :: "int \<Rightarrow> bool" where
  "fits_int4 n \<longleftrightarrow> - 2147483648 \<le> n \<and> n \<le> 2147483647"

abbreviation budget_of :: "ledger \<Rightarrow> uuid \<Rightarrow> budget_row option" where
  "budget_of l \<equiv> map_of (l_runs l)"

abbreviation window_of :: "ledger \<Rightarrow> uuid \<times> int \<Rightarrow> int option" where
  "window_of l \<equiv> map_of (l_windows l)"

definition set_budget :: "uuid \<Rightarrow> budget_row \<Rightarrow> ledger \<Rightarrow> ledger" where
  "set_budget i b l = l\<lparr>l_runs := AList.update i b (l_runs l)\<rparr>"

definition set_window :: "uuid \<times> int \<Rightarrow> int \<Rightarrow> ledger \<Rightarrow> ledger" where
  "set_window k n l = l\<lparr>l_windows := AList.update k n (l_windows l)\<rparr>"

lemma budget_of_set [simp]: "budget_of (set_budget i b l) = (budget_of l)(i \<mapsto> b)"
  by (rule ext) (simp add: set_budget_def update_conv)

lemma window_of_set [simp]: "window_of (set_window k n l) = (window_of l)(k \<mapsto> n)"
  by (rule ext) (simp add: set_window_def update_conv)

lemma ledger_frame [simp]:
  "window_of (set_budget i b l) = window_of l" "budget_of (set_window k n l) = budget_of l"
  by (simp_all add: set_budget_def set_window_def)

text \<open>\<open>CHECK ("reserved_usd_micros" >= 0)\<close>, \<open>reserved <= total\<close> and the column width.\<close>

definition row_fits :: "budget_row \<Rightarrow> bool" where
  "row_fits b \<longleftrightarrow> 0 < b_total b \<and> fits_int4 (b_total b) \<and> 0 \<le> b_reserved b \<and> b_reserved b \<le> b_total b \<and>
     0 \<le> b_actual b \<and> fits_int4 (b_actual b)"

section \<open>The store\<close>

record reserve_input =
  ri_runId :: uuid
  ri_reservation :: int
  ri_total :: int
  ri_workspaceCap :: "int option"

datatype budget_scope = ScopeRun | ScopeWorkspace

record reserve_result =
  rr_accepted :: bool
  rr_remaining :: int
  rr_exhausted :: "budget_scope option"
  rr_windowDate :: "int option"

definition RangeErr :: "string \<Rightarrow> thrown" where
  "RangeErr msg = throw_node (plain_error ClsError ''RangeError'' msg)"

definition workspace_of :: "db \<Rightarrow> uuid \<Rightarrow> uuid option" where
  "workspace_of d i = map_option r_workspaceId (run_of d i)"

text \<open>\<open>INSERT \<dots> ON CONFLICT (run_id) DO NOTHING\<close>, with its foreign key and checks.\<close>

definition init_budget :: "db \<Rightarrow> uuid \<Rightarrow> int \<Rightarrow> ledger \<Rightarrow> thrown + ledger" where
  "init_budget d i tot l =
     (if \<not> fits_int4 tot then Inl (PrismaError ''P2010'')
      else case budget_of l i of
             Some _ \<Rightarrow> Inr l
           | None \<Rightarrow>
               (if run_of d i = None then Inl (PrismaError ''P2010'')
                else Inr (set_budget i \<lparr>b_total = tot, b_reserved = 0, b_actual = 0\<rparr> l)))"

definition init_window :: "uuid \<times> int \<Rightarrow> ledger \<Rightarrow> ledger" where
  "init_window k l = (case window_of l k of Some _ \<Rightarrow> l | None \<Rightarrow> set_window k 0 l)"

definition update_budget :: "uuid \<Rightarrow> (budget_row \<Rightarrow> budget_row) \<Rightarrow> ledger \<Rightarrow> thrown + ledger" where
  "update_budget i f l =
     (case budget_of l i of
        None \<Rightarrow> Inr l
      | Some b \<Rightarrow> (if row_fits (f b) then Inr (set_budget i (f b) l) else Inl (PrismaError ''P2010'')))"

definition update_window :: "uuid \<times> int \<Rightarrow> (int \<Rightarrow> int) \<Rightarrow> ledger \<Rightarrow> thrown + ledger" where
  "update_window k f l =
     (case window_of l k of
        None \<Rightarrow> Inr l
      | Some n \<Rightarrow> (if 0 \<le> f n \<and> fits_int4 (f n) then Inr (set_window k (f n) l) else Inl (PrismaError ''P2010'')))"

definition charge_window :: "db \<Rightarrow> int \<Rightarrow> reserve_input \<Rightarrow> ledger \<Rightarrow> thrown + (int \<times> bool) \<times> ledger" where
  "charge_window d day i l =
     (case ri_workspaceCap i of
        None \<Rightarrow> Inr ((0, True), l)
      | Some cap \<Rightarrow>
          (case workspace_of d (ri_runId i) of
             None \<Rightarrow> Inl (GenericError ''Workspace budget window could not be initialized'')
           | Some ws \<Rightarrow>
               (let l1 = init_window (ws, day) l;
                    used = (case window_of l1 (ws, day) of Some n \<Rightarrow> n | None \<Rightarrow> 0);
                    remaining = max 0 (cap - used)
                in if remaining < ri_reservation i then Inr ((remaining, False), l1)
                   else bind_res (update_window (ws, day) (\<lambda>n. n + ri_reservation i) l1)
                          (\<lambda>l2. Inr ((remaining, True), l2)))))"

definition reserve :: "db \<Rightarrow> int \<Rightarrow> reserve_input \<Rightarrow> ledger \<Rightarrow> thrown + reserve_result \<times> ledger" where
  "reserve d day i l =
     (if ri_reservation i \<le> 0 then Inl (RangeErr ''reservationUsdMicros must be a positive integer'')
      else if ri_total i \<le> 0 then Inl (RangeErr ''totalBudgetUsdMicros must be a positive integer'')
      else if (case ri_workspaceCap i of None \<Rightarrow> False | Some c \<Rightarrow> c \<le> 0)
      then Inl (RangeErr ''workspaceDailyBudgetUsdMicros must be a positive integer'')
      else
        bind_res (init_budget d (ri_runId i) (ri_total i) l) (\<lambda>l1.
        case budget_of l1 (ri_runId i) of
          None \<Rightarrow> Inl (GenericError ''Provider budget ledger row could not be initialized'')
        | Some b \<Rightarrow>
            (let remaining = max 0 (min (b_total b) (ri_total i) - b_reserved b)
             in if remaining < ri_reservation i
                then Inr (\<lparr>rr_accepted = False, rr_remaining = remaining, rr_exhausted = Some ScopeRun,
                           rr_windowDate = None\<rparr>, l1)
                else bind_res (charge_window d day i l1) (\<lambda>((left, ok), l2).
                  if \<not> ok
                  then Inr (\<lparr>rr_accepted = False, rr_remaining = left, rr_exhausted = Some ScopeWorkspace,
                             rr_windowDate = None\<rparr>, l2)
                  else bind_res (update_budget (ri_runId i) (\<lambda>b. b\<lparr>b_reserved := b_reserved b + ri_reservation i\<rparr>) l2)
                    (\<lambda>l3. Inr (\<lparr>rr_accepted = True, rr_remaining = remaining - ri_reservation i,
                                rr_exhausted = None,
                                rr_windowDate = (case ri_workspaceCap i of None \<Rightarrow> None | Some _ \<Rightarrow> Some day)\<rparr>,
                               l3))))))"

definition release :: "db \<Rightarrow> uuid \<Rightarrow> int \<Rightarrow> int option \<Rightarrow> ledger \<Rightarrow> thrown + ledger" where
  "release d i amount wdate l =
     (if amount \<le> 0 then Inl (RangeErr ''releaseUsdMicros must be a positive integer'')
      else bind_res (update_budget i (\<lambda>b. b\<lparr>b_reserved := max 0 (b_reserved b - amount)\<rparr>) l) (\<lambda>l1.
        case wdate of
          None \<Rightarrow> Inr l1
        | Some day \<Rightarrow>
            (case workspace_of d i of
               None \<Rightarrow> Inr l1
             | Some ws \<Rightarrow> update_window (ws, day) (\<lambda>n. max 0 (n - amount)) l1)))"

definition recordActual :: "uuid \<Rightarrow> int \<Rightarrow> ledger \<Rightarrow> thrown + ledger" where
  "recordActual i amount l =
     (if amount < 0 then Inl (RangeErr ''actualUsdMicros must be a non-negative integer'')
      else update_budget i (\<lambda>b. b\<lparr>b_actual := b_actual b + amount\<rparr>) l)"

section \<open>Settling a reservation\<close>

text \<open>\<open>SETTLED_COST_MARGIN\<close> is 1.25, exact in binary: \<open>Math.ceil(actual * 1.25)\<close>.\<close>

definition settled_cost :: "int \<Rightarrow> int" where
  "settled_cost actual = (5 * actual + 3) div 4"

definition reservationToRelease :: "int \<Rightarrow> int option \<Rightarrow> int" where
  "reservationToRelease reservation actual =
     (case actual of
        None \<Rightarrow> 0
      | Some a \<Rightarrow> (if a < 0 then 0 else max 0 (reservation - settled_cost a)))"

section \<open>The gateway\<close>

datatype model_policy = flagship | balanced | fast | fallback

datatype model_reference =
    FileReference string string string
  | ImageReference string string string

record model_request =
  mr_policy :: model_policy
  mr_input :: string
  mr_references :: "model_reference list"
  mr_instructions :: "string option"
  mr_maxOutputTokens :: "int option"
  mr_runId :: "string option"

record model_response =
  ms_outputText :: string
  ms_cost :: "int option"

datatype stream_event = TextDelta string | StreamCompleted model_response

record gateway_options =
  go_total :: int
  go_workspaceCap :: "int option"
  go_resolveModel :: "model_policy \<Rightarrow> string"
  go_outputLimits :: "(string \<times> int) list"
  go_priced :: "string \<Rightarrow> bool"
  go_cost :: "string \<Rightarrow> nat \<Rightarrow> int \<Rightarrow> int"
  go_byteLength :: "string \<Rightarrow> nat"
  go_base64 :: "string \<Rightarrow> nat option"
  go_utf8 :: "string \<Rightarrow> bool"
  go_parseId :: "string \<Rightarrow> uuid option"

definition ProviderBudgetError :: "string \<Rightarrow> string \<Rightarrow> thrown" where
  "ProviderBudgetError code msg =
     throw_node ((plain_error ClsError ''ProviderBudgetError'' msg)
                   \<lparr>en_code := Some code, en_retryable := Some False\<rparr>)"

definition REQUEST_OVERHEAD_TOKEN_RESERVE :: nat where
  "REQUEST_OVERHEAD_TOKEN_RESERVE = 2048"

definition resolveMaxOutputTokens :: "int option \<Rightarrow> string \<Rightarrow> (string \<times> int) list \<Rightarrow> thrown + int" where
  "resolveMaxOutputTokens requested model limits =
     (case requested of
        None \<Rightarrow> Inl (ProviderBudgetError ''PROVIDER_BUDGET_OUTPUT_LIMIT_REQUIRED''
                  ''Budgeted provider calls require an explicit positive maxOutputTokens value'')
      | Some n \<Rightarrow>
          (if n < 1
           then Inl (ProviderBudgetError ''PROVIDER_BUDGET_OUTPUT_LIMIT_REQUIRED''
                  ''Budgeted provider calls require an explicit positive maxOutputTokens value'')
           else case map_of limits model of
                  None \<Rightarrow> Inl (ProviderBudgetError ''PROVIDER_MODEL_NOT_BUDGETED''
                            (''Model '' @ model @ '' has no approved output-token limit''))
                | Some limit \<Rightarrow> Inr (min n limit)))"

fun boundedTextReferenceBytes :: "gateway_options \<Rightarrow> model_reference list \<Rightarrow> thrown + nat" where
  "boundedTextReferenceBytes O' [] = Inr 0"
| "boundedTextReferenceBytes O' (ImageReference f m b # rs) =
     Inl (ProviderBudgetError ''PROVIDER_BUDGET_REFERENCES_UNSUPPORTED''
       ''Budgeted provider execution currently permits only UTF-8 text/plain references; PDF and image references remain disabled'')"
| "boundedTextReferenceBytes O' (FileReference f m b # rs) =
     (if m \<noteq> ''text/plain''
      then Inl (ProviderBudgetError ''PROVIDER_BUDGET_REFERENCES_UNSUPPORTED''
        ''Budgeted provider execution currently permits only UTF-8 text/plain references; PDF and image references remain disabled'')
      else case go_base64 O' b of
             None \<Rightarrow> Inl (ProviderBudgetError ''PROVIDER_BUDGET_REFERENCE_INVALID''
                       (''Text reference '' @ f @ '' is not canonical base64''))
           | Some n \<Rightarrow>
               (if \<not> go_utf8 O' b
                then Inl (ProviderBudgetError ''PROVIDER_BUDGET_REFERENCE_INVALID''
                       (''Text reference '' @ f @ '' is not valid UTF-8''))
                else bind_res (boundedTextReferenceBytes O' rs) (\<lambda>k. Inr (n + k))))"

text \<open>\<open>Math.max(1, Math.ceil(raw * multiplier))\<close> with the product as the parameter \<open>go_cost\<close>.\<close>

definition estimateTextRequestReservationUsdMicros :: "gateway_options \<Rightarrow> model_request \<Rightarrow> string \<Rightarrow> thrown + int" where
  "estimateTextRequestReservationUsdMicros O' q model =
     bind_res (resolveMaxOutputTokens (mr_maxOutputTokens q) model (go_outputLimits O')) (\<lambda>tokens.
       if \<not> go_priced O' model
       then Inl (ProviderBudgetError ''PROVIDER_MODEL_NOT_BUDGETED''
              (''Model '' @ model @ '' has no approved pricing configuration''))
       else bind_res (boundedTextReferenceBytes O' (mr_references q)) (\<lambda>refBytes.
         Inr (max 1 (go_cost O' model
           (go_byteLength O' (mr_input q)
            + go_byteLength O' (case mr_instructions q of None \<Rightarrow> [] | Some t \<Rightarrow> t)
            + refBytes + REQUEST_OVERHEAD_TOKEN_RESERVE) tokens))))"

record reserved_call =
  rc_run :: uuid
  rc_request :: model_request
  rc_reservation :: int
  rc_windowDate :: "int option"

text \<open>\<open>#reserve\<close>: everything that is decided before the store is asked.\<close>

definition plan_call :: "gateway_options \<Rightarrow> model_request \<Rightarrow> thrown + uuid \<times> model_request \<times> int" where
  "plan_call O' q =
     (if go_total O' = 0
      then Inl (ProviderBudgetError ''PROVIDER_BUDGET_DISABLED''
             ''Provider execution is disabled because no per-run provider budget is configured'')
      else if (case mr_runId q of None \<Rightarrow> True | Some rid \<Rightarrow> js_trim rid = [])
      then Inl (ProviderBudgetError ''PROVIDER_BUDGET_CONTEXT_MISSING''
                  ''Provider calls require a run_id budget context'')
      else
        (let model = go_resolveModel O' (mr_policy q)
         in bind_res (resolveMaxOutputTokens (mr_maxOutputTokens q) model (go_outputLimits O')) (\<lambda>tokens.
              let clamped = q\<lparr>mr_maxOutputTokens := Some tokens\<rparr>
              in bind_res (estimateTextRequestReservationUsdMicros O' clamped model) (\<lambda>amount.
                 case go_parseId O' (js_trim (the (mr_runId q))) of
                   None \<Rightarrow> Inl (PrismaError ''P2010'')
                 | Some run \<Rightarrow> Inr (run, clamped, amount)))))"

definition reserve_call ::
    "gateway_options \<Rightarrow> (reserve_input \<Rightarrow> 'l \<Rightarrow> thrown + reserve_result \<times> 'l) \<Rightarrow> model_request \<Rightarrow> 'l
       \<Rightarrow> (thrown + reserved_call) \<times> 'l" where
  "reserve_call O' store_reserve q l =
     (case plan_call O' q of
        Inl e \<Rightarrow> (Inl e, l)
      | Inr (run, clamped, amount) \<Rightarrow>
          (case store_reserve \<lparr>ri_runId = run, ri_reservation = amount, ri_total = go_total O',
                              ri_workspaceCap = go_workspaceCap O'\<rparr> l of
             Inl e \<Rightarrow> (Inl e, l)
           | Inr (r, l1) \<Rightarrow>
               (if rr_accepted r
                then (Inr \<lparr>rc_run = run, rc_request = clamped, rc_reservation = amount,
                           rc_windowDate = rr_windowDate r\<rparr>, l1)
                else if rr_exhausted r = Some ScopeWorkspace
                then (Inl (ProviderBudgetError ''WORKSPACE_BUDGET_EXCEEDED''
                        (''Provider request reservation '' @ int_string amount
                         @ '' micro-USD exceeds the remaining daily workspace budget ''
                         @ int_string (rr_remaining r) @ '' micro-USD'')), l1)
                else (Inl (ProviderBudgetError ''PROVIDER_BUDGET_EXCEEDED''
                        (''Provider request reservation '' @ int_string amount
                         @ '' micro-USD exceeds remaining run budget ''
                         @ int_string (rr_remaining r) @ '' micro-USD'')), l1))))"

text \<open>\<open>#recordActual\<close>: both writes in one \<open>try\<close>; a failed write keeps the ledger it fails on.\<close>

definition settle_call ::
    "(uuid \<Rightarrow> int \<Rightarrow> 'l \<Rightarrow> thrown + 'l) \<Rightarrow> (uuid \<Rightarrow> int \<Rightarrow> int option \<Rightarrow> 'l \<Rightarrow> thrown + 'l)
       \<Rightarrow> reserved_call \<Rightarrow> model_response \<Rightarrow> 'l \<Rightarrow> 'l" where
  "settle_call store_actual store_release c resp l =
     (case ms_cost resp of
        None \<Rightarrow> l
      | Some a \<Rightarrow>
          (if a < 0 then l
           else case store_actual (rc_run c) a l of
                  Inl e \<Rightarrow> l
                | Inr l1 \<Rightarrow>
                    (let amount = reservationToRelease (rc_reservation c) (Some a)
                     in if amount \<le> 0 then l1
                        else case store_release (rc_run c) amount (rc_windowDate c) l1 of
                               Inl e \<Rightarrow> l1
                             | Inr l2 \<Rightarrow> l2)))"

text \<open>\<open>generate\<close>: a provider error keeps the whole reservation.\<close>

definition generate ::
    "gateway_options \<Rightarrow> (reserve_input \<Rightarrow> 'l \<Rightarrow> thrown + reserve_result \<times> 'l)
       \<Rightarrow> (uuid \<Rightarrow> int \<Rightarrow> 'l \<Rightarrow> thrown + 'l) \<Rightarrow> (uuid \<Rightarrow> int \<Rightarrow> int option \<Rightarrow> 'l \<Rightarrow> thrown + 'l)
       \<Rightarrow> (model_request \<Rightarrow> thrown + model_response) \<Rightarrow> model_request \<Rightarrow> 'l
       \<Rightarrow> (thrown + model_response) \<times> 'l" where
  "generate O' store_reserve store_actual store_release provider q l =
     (case reserve_call O' store_reserve q l of
        (Inl e, l1) \<Rightarrow> (Inl e, l1)
      | (Inr c, l1) \<Rightarrow>
          (case provider (rc_request c) of
             Inl e \<Rightarrow> (Inl e, l1)
           | Inr resp \<Rightarrow> (Inr resp, settle_call store_actual store_release c resp l1)))"

text \<open>\<open>stream\<close>: every completed event settles before it is passed on.\<close>

fun settle_events ::
    "(uuid \<Rightarrow> int \<Rightarrow> 'l \<Rightarrow> thrown + 'l) \<Rightarrow> (uuid \<Rightarrow> int \<Rightarrow> int option \<Rightarrow> 'l \<Rightarrow> thrown + 'l)
       \<Rightarrow> reserved_call \<Rightarrow> stream_event list \<Rightarrow> 'l \<Rightarrow> 'l" where
  "settle_events sa sr c [] l = l"
| "settle_events sa sr c (StreamCompleted resp # es) l = settle_events sa sr c es (settle_call sa sr c resp l)"
| "settle_events sa sr c (TextDelta t # es) l = settle_events sa sr c es l"

definition stream ::
    "gateway_options \<Rightarrow> (reserve_input \<Rightarrow> 'l \<Rightarrow> thrown + reserve_result \<times> 'l)
       \<Rightarrow> (uuid \<Rightarrow> int \<Rightarrow> 'l \<Rightarrow> thrown + 'l) \<Rightarrow> (uuid \<Rightarrow> int \<Rightarrow> int option \<Rightarrow> 'l \<Rightarrow> thrown + 'l)
       \<Rightarrow> (model_request \<Rightarrow> stream_event list \<times> thrown option) \<Rightarrow> model_request \<Rightarrow> 'l
       \<Rightarrow> (thrown option \<times> stream_event list) \<times> 'l" where
  "stream O' store_reserve store_actual store_release provider q l =
     (case reserve_call O' store_reserve q l of
        (Inl e, l1) \<Rightarrow> ((Some e, []), l1)
      | (Inr c, l1) \<Rightarrow>
          (case provider (rc_request c) of
             (es, failure) \<Rightarrow> ((failure, es), settle_events store_actual store_release c es l1)))"

end
