(* ===== verification/BudgetProperties.thy ===== *)
theory BudgetProperties
  imports Budget Samples
begin

text \<open>
  The interface the gateway needs of a budget store, as the locale \<open>budget_store\<close>, its
  interpretation on the PostgreSQL ledger, and the ceiling on real spend that follows for any
  interleaving of the calls of any number of workers.
\<close>

section \<open>What the gateway relies on\<close>

locale budget_store =
  fixes store_reserve :: "reserve_input \<Rightarrow> 'l \<Rightarrow> thrown + reserve_result \<times> 'l"
    and store_actual :: "uuid \<Rightarrow> int \<Rightarrow> 'l \<Rightarrow> thrown + 'l"
    and store_release :: "uuid \<Rightarrow> int \<Rightarrow> int option \<Rightarrow> 'l \<Rightarrow> thrown + 'l"
    and reserved :: "'l \<Rightarrow> uuid \<Rightarrow> int"
    and ok :: "'l \<Rightarrow> bool"
  assumes reserve_ok: "ok l \<Longrightarrow> store_reserve i l = Inr (r, l') \<Longrightarrow> ok l'"
    and reserve_exact: "ok l \<Longrightarrow> store_reserve i l = Inr (r, l') \<Longrightarrow>
      reserved l' = (reserved l)(ri_runId i :=
        reserved l (ri_runId i) + (if rr_accepted r then ri_reservation i else 0))"
    and reserve_accepted: "ok l \<Longrightarrow> store_reserve i l = Inr (r, l') \<Longrightarrow> rr_accepted r \<Longrightarrow>
      0 < ri_reservation i \<and> reserved l' (ri_runId i) \<le> ri_total i"
    and actual_ok: "ok l \<Longrightarrow> store_actual j a l = Inr l' \<Longrightarrow> ok l' \<and> reserved l' = reserved l"
    and release_ok: "ok l \<Longrightarrow> store_release j a w l = Inr l' \<Longrightarrow>
      ok l' \<and> reserved l' = (reserved l)(j := max 0 (reserved l j - a))"

text \<open>What a finished call costs in the ledger: never less than its real cost or its bound.\<close>

definition charge :: "reserved_call \<Rightarrow> int option \<Rightarrow> int" where
  "charge c cost = (case cost of None \<Rightarrow> rc_reservation c
     | Some a \<Rightarrow> (if a < 0 then rc_reservation c else min (rc_reservation c) a))"

definition in_flight :: "uuid \<Rightarrow> reserved_call list \<Rightarrow> int" where
  "in_flight j cs = sum_list (map (\<lambda>c. if rc_run c = j then rc_reservation c else 0) cs)"

definition spent :: "uuid \<Rightarrow> (uuid \<times> int) list \<Rightarrow> int" where
  "spent j ps = sum_list (map (\<lambda>(k, a). if k = j then a else 0) ps)"

definition covered :: "int \<Rightarrow> (uuid \<Rightarrow> int) \<Rightarrow> reserved_call list \<Rightarrow> (uuid \<times> int) list \<Rightarrow> bool" where
  "covered T held cs ps \<longleftrightarrow> (\<forall>j. in_flight j cs + spent j ps \<le> held j \<and> held j \<le> T) \<and>
     (\<forall>c \<in> set cs. 0 < rc_reservation c) \<and> (\<forall>p \<in> set ps. 0 \<le> snd p)"

lemma in_flight_Cons: "in_flight j (c # cs) = (if rc_run c = j then rc_reservation c else 0) + in_flight j cs"
  by (simp add: in_flight_def)

lemma in_flight_remove1:
  "c \<in> set cs \<Longrightarrow> in_flight j cs = (if rc_run c = j then rc_reservation c else 0) + in_flight j (remove1 c cs)"
  unfolding in_flight_def by (rule sum_list_map_remove1)

lemma spent_Cons: "spent j ((k, a) # ps) = (if k = j then a else 0) + spent j ps"
  by (simp add: spent_def)

lemma in_flight_nonneg: "\<forall>c \<in> set cs. 0 < rc_reservation c \<Longrightarrow> 0 \<le> in_flight j cs"
  unfolding in_flight_def by (induction cs) auto

lemma spent_nonneg: "\<forall>p \<in> set ps. 0 \<le> snd p \<Longrightarrow> 0 \<le> spent j ps"
  unfolding spent_def by (induction ps) auto

lemma settled_cost_ge: "0 \<le> a \<Longrightarrow> a \<le> settled_cost a"
  by (simp add: settled_cost_def)

context budget_store begin

text \<open>A reservation that is accepted joins the calls in flight; any other changes no amount.\<close>

lemma reserve_call_covered:
  assumes "ok l" and "covered T (reserved l) cs ps" and "go_total O' \<le> T"
    and "reserve_call O' store_reserve q l = (res, l')"
  shows "ok l' \<and> covered T (reserved l') ((case res of Inr c \<Rightarrow> [c] | Inl e \<Rightarrow> []) @ cs) ps"
proof (cases "plan_call O' q")
  case (Inl e)
  with assms show ?thesis by (auto simp: reserve_call_def)
next
  case (Inr p)
  obtain run clamped amount where p: "p = (run, clamped, amount)" by (cases p)
  let ?i = "\<lparr>ri_runId = run, ri_reservation = amount, ri_total = go_total O', ri_workspaceCap = go_workspaceCap O'\<rparr>"
  show ?thesis
  proof (cases "store_reserve ?i l")
    case (Inl e)
    with Inr p assms show ?thesis by (auto simp: reserve_call_def)
  next
    case res: (Inr rl)
    obtain r l1 where rl: "rl = (r, l1)" by (cases rl)
    note ex = reserve_exact [OF assms(1) res [unfolded rl]] and ok1 = reserve_ok [OF assms(1) res [unfolded rl]]
    show ?thesis
    proof (cases "rr_accepted r")
      case False
      with assms Inr p res rl ex ok1 show ?thesis
        by (auto simp: reserve_call_def fun_upd_idem split: if_splits)
    next
      case True
      have "0 < amount" "reserved l1 run \<le> T"
        using reserve_accepted [OF assms(1) res [unfolded rl] True] assms(3) by auto
      with True assms Inr p res rl ex ok1 show ?thesis
        by (auto simp: reserve_call_def covered_def in_flight_Cons)
    qed
  qed
qed

text \<open>A settled call leaves the flight; the ledger keeps at least its charge.\<close>

lemma settle_call_covered:
  assumes "ok l" and cov: "covered T (reserved l) cs ps" and c: "c \<in> set cs"
  shows "let l' = settle_call store_actual store_release c resp l
    in ok l' \<and> covered T (reserved l') (remove1 c cs) ((rc_run c, charge c (ms_cost resp)) # ps)"
proof -
  have pos: "0 < rc_reservation c" using cov c by (simp add: covered_def)
  have rest: "\<forall>d \<in> set (remove1 c cs). 0 < rc_reservation d"
    using cov set_remove1_subset [of c cs] by (auto simp: covered_def)
  have paid: "\<forall>p \<in> set ps. 0 \<le> snd p" using cov by (simp add: covered_def)
  have ch: "0 \<le> charge c (ms_cost resp)" "charge c (ms_cost resp) \<le> rc_reservation c"
    using pos by (auto simp: charge_def split: option.split)
  have move: "covered T held (remove1 c cs) ((rc_run c, charge c (ms_cost resp)) # ps)"
    if "\<And>j. in_flight j (remove1 c cs) + spent j ps + (if rc_run c = j then charge c (ms_cost resp) else 0) \<le> held j"
      and "\<And>j. held j \<le> T" for held
  proof -
    have "in_flight j (remove1 c cs) + spent j ((rc_run c, charge c (ms_cost resp)) # ps) \<le> held j" for j
      using that(1) [of j] unfolding spent_Cons by linarith
    then show ?thesis using that(2) rest ch(1) cov by (auto simp: covered_def)
  qed
  have base: "in_flight j (remove1 c cs) + spent j ps + (if rc_run c = j then rc_reservation c else 0) \<le> reserved l j"
      "reserved l j \<le> T" for j
  proof -
    have "in_flight j cs + spent j ps \<le> reserved l j" and top: "reserved l j \<le> T"
      using cov by (auto simp: covered_def)
    then show "in_flight j (remove1 c cs) + spent j ps + (if rc_run c = j then rc_reservation c else 0) \<le> reserved l j"
      using in_flight_remove1 [OF c, of j] by linarith
    show "reserved l j \<le> T" by (rule top)
  qed
  have same: "covered T (reserved l) (remove1 c cs) ((rc_run c, charge c (ms_cost resp)) # ps)"
  proof (rule move)
    fix j
    show "in_flight j (remove1 c cs) + spent j ps + (if rc_run c = j then charge c (ms_cost resp) else 0) \<le> reserved l j"
      using base(1) [of j] ch(2) by (auto split: if_splits)
  qed (rule base(2))
  show ?thesis
  proof (cases "\<exists>a l1. ms_cost resp = Some a \<and> 0 \<le> a \<and> store_actual (rc_run c) a l = Inr l1")
    case False
    with same assms(1) show ?thesis
      by (auto simp: settle_call_def Let_def split: option.split sum.split)
  next
    case True
    then obtain a l1 where a: "ms_cost resp = Some a" "0 \<le> a" and l1: "store_actual (rc_run c) a l = Inr l1" by blast
    note act = actual_ok [OF assms(1) l1]
    let ?amount = "reservationToRelease (rc_reservation c) (Some a)"
    show ?thesis
    proof (cases "\<exists>l2. 0 < ?amount \<and> store_release (rc_run c) ?amount (rc_windowDate c) l1 = Inr l2")
      case False
      with a l1 act same show ?thesis
        by (auto simp: settle_call_def Let_def split: sum.split)
    next
      case True
      then obtain l2 where amt: "0 < ?amount" and l2: "store_release (rc_run c) ?amount (rc_windowDate c) l1 = Inr l2" by blast
      have rel: "ok l2" "reserved l2 = (reserved l)(rc_run c := max 0 (reserved l (rc_run c) - ?amount))"
        using release_ok [OF conjunct1 [OF act] l2] act by auto
      have "charge c (ms_cost resp) \<le> rc_reservation c - ?amount"
        using a settled_cost_ge [of a] amt by (auto simp: charge_def reservationToRelease_def max_def split: if_splits)
      then have le: "charge c (ms_cost resp) + ?amount \<le> rc_reservation c" by linarith
      have "covered T (reserved l2) (remove1 c cs) ((rc_run c, charge c (ms_cost resp)) # ps)"
      proof (rule move)
        fix j
        show "in_flight j (remove1 c cs) + spent j ps + (if rc_run c = j then charge c (ms_cost resp) else 0) \<le> reserved l2 j"
          using base(1) [of j] le unfolding rel(2) by (cases "rc_run c = j") auto
        have "reserved l2 j \<le> max 0 (reserved l j)" using amt unfolding rel(2) by (cases "rc_run c = j") auto
        moreover have "0 \<le> reserved l j"
          using base(1) [of j] in_flight_nonneg [OF rest, of j] paid pos by (auto split: if_splits dest: spent_nonneg [of _ j])
        ultimately show "reserved l2 j \<le> T" using base(2) [of j] by simp
      qed
      with a l1 l2 amt rel(1) show ?thesis by (simp add: settle_call_def Let_def)
    qed
  qed
qed

end

section \<open>The PostgreSQL ledger\<close>

definition reserved_of :: "ledger \<Rightarrow> uuid \<Rightarrow> int" where
  "reserved_of l j = (case budget_of l j of None \<Rightarrow> 0 | Some b \<Rightarrow> b_reserved b)"

definition ledger_ok :: "ledger \<Rightarrow> bool" where
  "ledger_ok l \<longleftrightarrow> (\<forall>j b. budget_of l j = Some b \<longrightarrow> row_fits b)"

lemma reserved_of_cong: "budget_of l' = budget_of l \<Longrightarrow> reserved_of l' = reserved_of l"
  by (rule ext) (simp add: reserved_of_def)

lemma ledger_ok_cong: "budget_of l' = budget_of l \<Longrightarrow> ledger_ok l' = ledger_ok l"
  by (simp add: ledger_ok_def)

lemma init_budget_laws:
  assumes "init_budget d i tot l = Inr l'" and "0 < tot"
  shows "reserved_of l' = reserved_of l \<and> (ledger_ok l \<longrightarrow> ledger_ok l') \<and> budget_of l' i \<noteq> None"
  using assms
  by (auto simp: init_budget_def reserved_of_def ledger_ok_def row_fits_def fits_int4_def fun_eq_iff
      split: option.splits if_splits)

lemma update_window_budget: "update_window k f l = Inr l' \<Longrightarrow> budget_of l' = budget_of l"
  by (auto simp: update_window_def split: option.splits if_splits)

lemma charge_window_budget: "charge_window d day i l = Inr (x, l') \<Longrightarrow> budget_of l' = budget_of l"
  by (auto simp: charge_window_def init_window_def bind_res_Inr_iff Let_def split: option.splits if_splits
      dest!: update_window_budget)

lemma update_budget_laws:
  assumes "update_budget i f l = Inr l'"
  shows "budget_of l' = (case budget_of l i of None \<Rightarrow> budget_of l | Some b \<Rightarrow> (budget_of l)(i \<mapsto> f b)) \<and>
    (ledger_ok l \<longrightarrow> ledger_ok l')"
  using assms by (auto simp: update_budget_def ledger_ok_def split: option.splits if_splits)

text \<open>An accepted or refused reservation, in one statement.\<close>

lemma reserve_laws:
  assumes "reserve d day i l = Inr (r, l')" and "ledger_ok l"
  shows "ledger_ok l' \<and>
    reserved_of l' = (reserved_of l)(ri_runId i :=
      reserved_of l (ri_runId i) + (if rr_accepted r then ri_reservation i else 0)) \<and>
    (rr_accepted r \<longrightarrow> 0 < ri_reservation i \<and> reserved_of l' (ri_runId i) \<le> ri_total i)"
proof -
  have pos: "0 < ri_reservation i" "0 < ri_total i"
    using assms(1) by (auto simp: reserve_def split: if_splits)
  from assms(1) pos obtain l1 b where l1: "init_budget d (ri_runId i) (ri_total i) l = Inr l1"
    and b: "budget_of l1 (ri_runId i) = Some b"
    by (auto simp: reserve_def bind_res_Inr_iff split: if_splits option.splits)
  note ini = init_budget_laws [OF l1 pos(2)]
  let ?rem = "max 0 (min (b_total b) (ri_total i) - b_reserved b)"
  have res0: "reserved_of l (ri_runId i) = b_reserved b"
    using ini b by (metis option.simps(5) reserved_of_def)
  show ?thesis
  proof (cases "?rem < ri_reservation i")
    case True
    with assms pos l1 b ini show ?thesis
      by (auto simp: reserve_def Let_def split: if_splits)
  next
    case False
    with assms pos l1 b obtain left ok l2 where cw: "charge_window d day i l1 = Inr ((left, ok), l2)"
      and rest: "(if \<not> ok
        then Inr (\<lparr>rr_accepted = False, rr_remaining = left, rr_exhausted = Some ScopeWorkspace, rr_windowDate = None\<rparr>, l2)
        else bind_res (update_budget (ri_runId i) (\<lambda>b. b\<lparr>b_reserved := b_reserved b + ri_reservation i\<rparr>) l2)
          (\<lambda>l3. Inr (\<lparr>rr_accepted = True, rr_remaining = ?rem - ri_reservation i, rr_exhausted = None,
             rr_windowDate = (case ri_workspaceCap i of None \<Rightarrow> None | Some _ \<Rightarrow> Some day)\<rparr>, l3))) = Inr (r, l')"
      by (auto simp: reserve_def bind_res_Inr_iff Let_def split: if_splits)
    note bud = charge_window_budget [OF cw]
    show ?thesis
    proof (cases ok)
      case False
      with rest have "l' = l2" "\<not> rr_accepted r" by auto
      with ini bud assms(2) show ?thesis
        using reserved_of_cong [OF bud] ledger_ok_cong [OF bud] by simp
    next
      case True
      with rest obtain l3 where up: "update_budget (ri_runId i) (\<lambda>b. b\<lparr>b_reserved := b_reserved b + ri_reservation i\<rparr>) l2 = Inr l3"
        and r: "rr_accepted r" "l' = l3" by (auto simp: bind_res_Inr_iff)
      have "budget_of l3 = (budget_of l1)(ri_runId i \<mapsto> b\<lparr>b_reserved := b_reserved b + ri_reservation i\<rparr>)"
        using update_budget_laws [OF up] b bud by simp
      then have "reserved_of l3 = (reserved_of l1)(ri_runId i := b_reserved b + ri_reservation i)"
        by (auto simp: reserved_of_def fun_eq_iff)
      moreover have "ledger_ok l3"
        using update_budget_laws [OF up] ledger_ok_cong [OF bud] ini assms(2) by simp
      moreover have "b_reserved b + ri_reservation i \<le> ri_total i"
        using \<open>\<not> ?rem < ri_reservation i\<close> pos by linarith
      ultimately show ?thesis using r pos ini res0 by simp
    qed
  qed
qed

lemma recordActual_laws:
  assumes "recordActual j a l = Inr l'" and "ledger_ok l"
  shows "ledger_ok l' \<and> reserved_of l' = reserved_of l"
proof -
  from assms(1) have up: "update_budget j (\<lambda>b. b\<lparr>b_actual := b_actual b + a\<rparr>) l = Inr l'"
    by (auto simp: recordActual_def split: if_splits)
  show ?thesis using update_budget_laws [OF up] assms(2)
    by (auto simp: reserved_of_def fun_eq_iff split: option.splits)
qed

lemma release_laws:
  assumes "release d j a w l = Inr l'" and "ledger_ok l"
  shows "ledger_ok l' \<and> reserved_of l' = (reserved_of l)(j := max 0 (reserved_of l j - a))"
proof -
  from assms(1) obtain l1 where a: "0 < a"
    and up: "update_budget j (\<lambda>b. b\<lparr>b_reserved := max 0 (b_reserved b - a)\<rparr>) l = Inr l1"
    and bud: "budget_of l' = budget_of l1"
    by (auto simp: release_def bind_res_Inr_iff split: if_splits option.splits dest: update_window_budget)
  have "reserved_of l1 = (reserved_of l)(j := max 0 (reserved_of l j - a))"
    using update_budget_laws [OF up] a by (auto simp: reserved_of_def fun_eq_iff split: option.splits)
  with update_budget_laws [OF up] reserved_of_cong [OF bud] ledger_ok_cong [OF bud] assms(2)
  show ?thesis by simp
qed

interpretation pg: budget_store "reserve d day" recordActual "release d" reserved_of ledger_ok for d day
  by unfold_locales (auto dest: reserve_laws recordActual_laws release_laws)

section \<open>Any interleaving of calls\<close>

text \<open>
  The calls of all workers as steps on one ledger: a call is admitted, by a worker whose run
  ceiling is at most \<open>T\<close> and whose daily ceiling is at most \<open>W\<close>, in any database state on
  any day; or a call in flight is settled with whatever response its provider gave. A call
  whose provider failed stays in flight: nothing releases its reservation.
\<close>

type_synonym spend_state = "ledger \<times> reserved_call list \<times> (uuid \<times> int) list"

inductive spend_step :: "int \<Rightarrow> int \<Rightarrow> spend_state \<Rightarrow> spend_state \<Rightarrow> bool" for T W where
  spend_admit: "go_total O' \<le> T \<Longrightarrow> (\<exists>cap \<le> W. go_workspaceCap O' = Some cap) \<Longrightarrow>
    reserve_call O' (reserve d day) q l = (res, l') \<Longrightarrow>
    spend_step T W (l, cs, ps) (l', (case res of Inr c \<Rightarrow> [c] | Inl e \<Rightarrow> []) @ cs, ps)"
| spend_settle: "c \<in> set cs \<Longrightarrow>
    spend_step T W (l, cs, ps)
      (settle_call recordActual (release d) c resp l, remove1 c cs, (rc_run c, charge c (ms_cost resp)) # ps)"

inductive_cases spend_stepE: "spend_step T W (l, cs, ps) s'"

definition windows_capped :: "int \<Rightarrow> ledger \<Rightarrow> bool" where
  "windows_capped W l \<longleftrightarrow> (\<forall>k n. window_of l k = Some n \<longrightarrow> n \<le> W)"

lemma windows_capped_cong: "window_of l' = window_of l \<Longrightarrow> windows_capped W l' = windows_capped W l"
  by (simp add: windows_capped_def)

lemma init_budget_window: "init_budget d i tot l = Inr l' \<Longrightarrow> window_of l' = window_of l"
  by (auto simp: init_budget_def split: option.splits if_splits)

lemma update_budget_window: "update_budget i f l = Inr l' \<Longrightarrow> window_of l' = window_of l"
  by (auto simp: update_budget_def split: option.splits if_splits)

lemma charge_window_capped:
  assumes "charge_window d day i l = Inr (x, l')" and "ri_workspaceCap i = Some cap" and "cap \<le> W" "0 < ri_reservation i"
    and "windows_capped W l" and "0 \<le> W"
  shows "windows_capped W l'"
  using assms
  by (auto simp: charge_window_def init_window_def update_window_def windows_capped_def bind_res_Inr_iff Let_def
      split: option.splits if_splits)

lemma reserve_capped:
  assumes "reserve d day i l = Inr (r, l')" and "ri_workspaceCap i = Some cap" and "cap \<le> W" "0 \<le> W"
    and "windows_capped W l"
  shows "windows_capped W l'"
proof -
  from assms(1) obtain l1 where l1: "init_budget d (ri_runId i) (ri_total i) l = Inr l1"
    by (auto simp: reserve_def bind_res_Inr_iff split: if_splits)
  have w1: "windows_capped W l1" using windows_capped_cong [OF init_budget_window [OF l1]] assms(5) by simp
  have pos: "0 < ri_reservation i" using assms(1) by (auto simp: reserve_def split: if_splits)
  from assms(1) l1 have "l' = l1 \<or> (\<exists>x l2. charge_window d day i l1 = Inr (x, l2) \<and>
      (l' = l2 \<or> (\<exists>f. update_budget (ri_runId i) f l2 = Inr l')))"
    by (auto simp: reserve_def bind_res_Inr_iff Let_def split: if_splits option.splits)
  then show ?thesis
    using w1 charge_window_capped [OF _ assms(2,3) pos w1 assms(4)] windows_capped_cong [OF update_budget_window] by blast
qed

lemma update_window_capped:
  assumes "update_window k f l = Inr l'" and "windows_capped W l" and "\<And>n. n \<le> W \<Longrightarrow> f n \<le> W"
  shows "windows_capped W l'"
proof (cases "window_of l k")
  case None
  with assms(1,2) show ?thesis by (simp add: update_window_def)
next
  case (Some n)
  with assms(2) have "n \<le> W" unfolding windows_capped_def by blast
  moreover have "l' = set_window k (f n) l"
    using assms(1) Some by (simp add: update_window_def split: if_splits)
  ultimately show ?thesis using assms(2,3) unfolding windows_capped_def by auto
qed

lemma release_capped:
  assumes "release d j a w l = Inr l'" and "0 \<le> W" and "windows_capped W l"
  shows "windows_capped W l'"
proof -
  let ?f = "\<lambda>b. b\<lparr>b_reserved := max 0 (b_reserved b - a)\<rparr>"
  from assms(1) have a: "0 < a" by (auto simp: release_def split: if_splits)
  let ?k = "\<lambda>l1. case w of None \<Rightarrow> Inr l1 | Some day \<Rightarrow> (case workspace_of d j of None \<Rightarrow> Inr l1
      | Some ws \<Rightarrow> update_window (ws, day) (\<lambda>n. max 0 (n - a)) l1)"
  from assms(1) a have "bind_res (update_budget j ?f l) ?k = Inr l'" by (simp add: release_def)
  then obtain l1 where up: "update_budget j ?f l = Inr l1" and bod: "?k l1 = Inr l'"
    unfolding bind_res_Inr_iff by blast
  have l1: "windows_capped W l1" using windows_capped_cong [OF update_budget_window [OF up]] assms(3) by simp
  have win: "windows_capped W l2" if "update_window k (\<lambda>n. max 0 (n - a)) l1 = Inr l2" for k l2
    using update_window_capped [OF that l1] a assms(2) by simp
  show ?thesis
  proof (cases w)
    case None
    with bod l1 show ?thesis by simp
  next
    case (Some day)
    show ?thesis
    proof (cases "workspace_of d j")
      case None
      with Some bod l1 show ?thesis by simp
    next
      case (Some ws)
      with \<open>w = Some day\<close> bod have "update_window (ws, day) (\<lambda>n. max 0 (n - a)) l1 = Inr l'" by simp
      then show ?thesis by (rule win)
    qed
  qed
qed

lemma settle_call_capped:
  assumes "0 \<le> W" and "windows_capped W l"
  shows "windows_capped W (settle_call recordActual (release d) c resp l)"
proof -
  have "windows_capped W l1" if "recordActual j a l = Inr l1" for j a l1
    using that assms(2) windows_capped_cong [OF update_budget_window]
    by (auto simp: recordActual_def split: if_splits)
  then show ?thesis
    using assms by (auto simp: settle_call_def Let_def dest: release_capped split: option.split sum.split)
qed

lemma reserve_call_capped:
  assumes "reserve_call O' (reserve d day) q l = (res, l')" and "go_workspaceCap O' = Some cap" and "cap \<le> W" "0 \<le> W"
    and "windows_capped W l"
  shows "windows_capped W l'"
  using assms by (auto simp: reserve_call_def dest: reserve_capped split: sum.splits prod.splits if_splits)

definition spend_ok :: "int \<Rightarrow> int \<Rightarrow> spend_state \<Rightarrow> bool" where
  "spend_ok T W s = (case s of (l, cs, ps) \<Rightarrow>
     ledger_ok l \<and> windows_capped W l \<and> covered T (reserved_of l) cs ps)"

lemma spend_ok_step:
  assumes "spend_step T W s s'" and "0 \<le> W" and "spend_ok T W s"
  shows "spend_ok T W s'"
  using assms(1)
proof cases
  case (spend_admit O' d day q l res l' cs ps)
  with assms(2,3) show ?thesis
    using pg.reserve_call_covered [of l T cs ps O' d day q res l'] reserve_call_capped [of O' d day q l res l' _ W]
    by (auto simp: spend_ok_def)
next
  case (spend_settle c cs l ps d resp)
  with assms(2,3) show ?thesis
    using pg.settle_call_covered [of l T cs ps c d resp] settle_call_capped [of W l d c resp]
    by (auto simp: spend_ok_def Let_def)
qed

lemma spend_ok_steps:
  assumes "(spend_step T W)\<^sup>*\<^sup>* s s'" and "0 \<le> W" and "spend_ok T W s"
  shows "spend_ok T W s'"
  using assms by (induction rule: rtranclp_induct) (auto intro: spend_ok_step)

definition empty_ledger :: ledger where
  "empty_ledger = \<lparr>l_runs = [], l_windows = []\<rparr>"

lemma spend_ok_empty: "0 \<le> T \<Longrightarrow> spend_ok T W (empty_ledger, [], [])"
  by (simp add: spend_ok_def empty_ledger_def ledger_ok_def windows_capped_def covered_def reserved_of_def
      in_flight_def spent_def)

section \<open>Properties\<close>

definition sample_options :: gateway_options where
  "sample_options = \<lparr>go_total = 100, go_workspaceCap = Some 80, go_resolveModel = (\<lambda>_. ''m''),
     go_outputLimits = [(''m'', 10)], go_priced = (\<lambda>_. True), go_cost = (\<lambda>_ _ n. 5 * n),
     go_byteLength = length, go_base64 = (\<lambda>_. None), go_utf8 = (\<lambda>_. True), go_parseId = (\<lambda>_. Some 3)\<rparr>"

definition sample_request :: model_request where
  "sample_request = \<lparr>mr_policy = fast, mr_input = ''hi'', mr_references = [], mr_instructions = None,
     mr_maxOutputTokens = Some 7, mr_runId = Some ''r''\<rparr>"

lemma sample_plan: "plan_call sample_options sample_request = Inr (3, sample_request, 35)"
  by code_simp

lemma sample_admit:
  "reserve_call sample_options (reserve sample_db 0) sample_request empty_ledger =
    (Inr \<lparr>rc_run = 3, rc_request = sample_request, rc_reservation = 35, rc_windowDate = Some 0\<rparr>,
     \<lparr>l_runs = [(3, \<lparr>b_total = 100, b_reserved = 35, b_actual = 0\<rparr>)], l_windows = [((1, 0), 35)]\<rparr>)"
  by code_simp



text \<open>A call whose reservation the ledger refuses never reaches the provider, holds nothing in
  the ledger, and fails with an error that is not retried and is classified as an exhausted budget.\<close>

lemma refused_call_is_final:
  assumes "ledger_ok l" and "plan_call O' q = Inr (run, clamped, amount)"
    and "reserve d day \<lparr>ri_runId = run, ri_reservation = amount, ri_total = go_total O',
           ri_workspaceCap = go_workspaceCap O'\<rparr> l = Inr (r, l')" and "\<not> rr_accepted r"
  shows "\<exists>e. (\<forall>provider. generate O' (reserve d day) recordActual (release d) provider q l = (Inl e, l')) \<and>
    \<not> isRetryableError e \<and> classifyRunFailure e = FAILED_BUDGET_EXHAUSTED \<and> reserved_of l' = reserved_of l"
proof -
  let ?code = "if rr_exhausted r = Some ScopeWorkspace then ''WORKSPACE_BUDGET_EXCEEDED'' else ''PROVIDER_BUDGET_EXCEEDED''"
  have "\<exists>msg. reserve_call O' (reserve d day) q l = (Inl (ProviderBudgetError ?code msg), l')"
    using assms(2-4) by (cases "rr_exhausted r = Some ScopeWorkspace") (auto simp: reserve_call_def)
  then obtain code msg where code: "code \<in> set BUDGET_EXHAUSTION_CODES"
    and e: "reserve_call O' (reserve d day) q l = (Inl (ProviderBudgetError code msg), l')"
    by (auto simp: BUDGET_EXHAUSTION_CODES_def split: if_splits)
  have "\<not> isRetryableError (ProviderBudgetError code msg)"
    by (simp add: ProviderBudgetError_def isRetryableError_def throw_node_def node_of_def plain_error_def
        numeral_eq_Suc)
  moreover have "classifyRunFailure (ProviderBudgetError code msg) = FAILED_BUDGET_EXHAUSTED"
    using code by (simp add: ProviderBudgetError_def classifyRunFailure_def throw_node_def node_of_def
        plain_error_def numeral_eq_Suc is_budget_node_def node_code_def)
  moreover have "reserved_of l' = reserved_of l"
    using reserve_laws [OF assms(3,1)] assms(4) by (simp add: fun_upd_idem)
  ultimately show ?thesis using e by (auto simp: generate_def)
qed

text \<open>A call that is planned is forwarded with at most the output tokens its model allows and
  nothing else changed, carries only UTF-8 text references, and reserves at least one micro-USD
  and at least the priced worst case of the clamped request.\<close>

lemma forwarded_request_bounded:
  assumes "plan_call O' q = Inr (run, clamped, amount)"
  shows "\<exists>asked limit. mr_maxOutputTokens q = Some asked \<and> 1 \<le> asked \<and>
    map_of (go_outputLimits O') (go_resolveModel O' (mr_policy q)) = Some limit \<and>
    clamped = q\<lparr>mr_maxOutputTokens := Some (min asked limit)\<rparr> \<and>
    go_priced O' (go_resolveModel O' (mr_policy q)) \<and> 1 \<le> amount \<and>
    (\<exists>bytes. boundedTextReferenceBytes O' (mr_references q) = Inr bytes \<and>
       go_cost O' (go_resolveModel O' (mr_policy q))
         (go_byteLength O' (mr_input q) + go_byteLength O' (case mr_instructions q of None \<Rightarrow> [] | Some t \<Rightarrow> t)
          + bytes + REQUEST_OVERHEAD_TOKEN_RESERVE) (min (min asked limit) limit) \<le> amount)"
  using assms
  by (auto simp: plan_call_def resolveMaxOutputTokens_def estimateTextRequestReservationUsdMicros_def
      bind_res_Inr_iff Let_def split: if_splits option.splits)

end
