(* ===== verification/ControlRepository.thy ===== *)
theory ControlRepository
  imports RunRepository "HOL-Library.Multiset"
begin

text \<open>
  \<open>PrismaControlRepository\<close> of \<open>control-api/src/repository.ts\<close>: the queries and
  transactions by which the HTTP API reads and controls runs, projects and files. It works
  on the same store as the worker.

  Where an operation reads before the statement that locks, what other clients commit in
  between is an argument \<open>env\<close>. Names and slugs of workspaces, which are only displayed, are
  not in the store; a workspace is a row of \<open>workspace_plans\<close>.
\<close>

section \<open>Errors of the repository\<close>

datatype repo_error =
    RepositoryConflictError string string
  | RepositoryAttachmentError "uuid list"
  | RepoThrown thrown

definition lift_repo :: "thrown + 'a \<Rightarrow> repo_error + 'a" where
  "lift_repo r = (case r of Inl e \<Rightarrow> Inl (RepoThrown e) | Inr a \<Rightarrow> Inr a)"

lemma lift_repo_simps [simp]: "lift_repo (Inl e) = Inl (RepoThrown e)" "lift_repo (Inr a) = Inr a"
  by (simp_all add: lift_repo_def)

text \<open>\<open>prismaErrorCode\<close>: a string \<open>code\<close> of the thrown value itself.\<close>

definition prismaErrorCode :: "repo_error \<Rightarrow> string option" where
  "prismaErrorCode e =
     (case e of
        RepoThrown t \<Rightarrow> (case node_of (fst t) (snd t) of Some n \<Rightarrow> en_code n | None \<Rightarrow> None)
      | _ \<Rightarrow> None)"

lemma prismaErrorCode_PrismaError [simp]: "prismaErrorCode (RepoThrown (PrismaError c)) = Some c"
  by (simp add: prismaErrorCode_def PrismaError_def throw_node_def node_of_def)

section \<open>Membership and visibility\<close>

definition member_of :: "db \<Rightarrow> uuid \<Rightarrow> uuid \<Rightarrow> bool" where
  "member_of d userId w \<longleftrightarrow> map_of (memberships d) (w, userId) \<noteq> None"

definition listWorkspaceMemberships :: "uuid \<Rightarrow> db \<Rightarrow> (uuid \<times> workspace_role) list" where
  "listWorkspaceMemberships userId d =
     map (\<lambda>((w, u), role). (w, role)) (filter (\<lambda>((w, u), role). u = userId) (memberships d))"

definition getWorkspaceMembership :: "uuid \<Rightarrow> uuid \<Rightarrow> db \<Rightarrow> workspace_role option" where
  "getWorkspaceMembership userId w d = map_of (memberships d) (w, userId)"

definition updateWorkspacePlan :: "uuid \<Rightarrow> workspace_plan \<Rightarrow> workspace_plan tx" where
  "updateWorkspacePlan w plan d =
     (case map_of (workspace_plans d) w of
        None \<Rightarrow> Inl (PrismaError ''P2025'')
      | Some _ \<Rightarrow> Inr (plan, d\<lparr>workspace_plans := AList.update w plan (workspace_plans d)\<rparr>))"

definition getProject :: "uuid \<Rightarrow> uuid \<Rightarrow> db \<Rightarrow> project option" where
  "getProject userId pid d =
     (case map_of (projects d) pid of
        None \<Rightarrow> None
      | Some p \<Rightarrow> (if pj_archivedAt p = None \<and> member_of d userId (pj_workspaceId p) then Some p else None))"

definition project_member :: "db \<Rightarrow> uuid \<Rightarrow> uuid \<Rightarrow> bool" where
  "project_member d userId pid \<longleftrightarrow>
     (case map_of (projects d) pid of None \<Rightarrow> False | Some p \<Rightarrow> member_of d userId (pj_workspaceId p))"

section \<open>Projects\<close>

record create_project_input =
  cp_workspaceId :: uuid
  cp_name :: string
  cp_slug :: string
  cp_description :: "string option"
  cp_projectType :: "project_type option"

definition insert_project :: "project \<Rightarrow> (uuid \<times> project) tx" where
  "insert_project p d =
     (if map_of (workspace_plans d) (pj_workspaceId p) = None then Inl (PrismaError ''P2003'')
      else if list_ex (\<lambda>(k, q). pj_workspaceId q = pj_workspaceId p \<and> pj_slug q = pj_slug p) (projects d)
      then Inl (PrismaError ''P2002'')
      else Inr ((next_id d, p), d\<lparr>projects := AList.update (next_id d) p (projects d), next_id := Suc (next_id d)\<rparr>))"

definition createProject :: "create_project_input \<Rightarrow> db \<Rightarrow> repo_error + (uuid \<times> project) \<times> db" where
  "createProject i d =
     (case lift_repo (insert_project
             \<lparr>pj_workspaceId = cp_workspaceId i, pj_name = cp_name i, pj_slug = cp_slug i,
              pj_description = cp_description i,
              pj_type = (case cp_projectType i of None \<Rightarrow> GENERAL | Some t \<Rightarrow> t), pj_archivedAt = None\<rparr> d) of
        Inr r \<Rightarrow> Inr r
      | Inl e \<Rightarrow>
          (if prismaErrorCode e = Some ''P2002''
           then Inl (RepositoryConflictError ''A project with this slug already exists in the workspace''
                       ''projects_workspace_id_slug_key'')
           else Inl e))"

section \<open>Runs\<close>

record run_record =
  rn_id :: uuid
  rn_workspaceId :: uuid
  rn_projectId :: uuid
  rn_status :: run_status
  rn_prompt :: string
  rn_eventSequence :: nat
  rn_controlVersion :: nat
  rn_error :: "json option"
  rn_pendingApproval :: "(approval_scope \<times> string) option"
  rn_startedAt :: "time option"
  rn_pausedAt :: "time option"
  rn_completedAt :: "time option"
  rn_cancelledAt :: "time option"

definition toRunRecord :: "uuid \<Rightarrow> run \<Rightarrow> run_record" where
  "toRunRecord i r =
     \<lparr>rn_id = i, rn_workspaceId = r_workspaceId r, rn_projectId = r_projectId r, rn_status = r_status r,
      rn_prompt = r_prompt r, rn_eventSequence = r_eventSequence r, rn_controlVersion = r_controlVersion r,
      rn_error = r_error r, rn_pendingApproval = None, rn_startedAt = r_startedAt r,
      rn_pausedAt = r_pausedAt r, rn_completedAt = r_completedAt r, rn_cancelledAt = r_cancelledAt r\<rparr>"

definition sameAttachmentIds :: "uuid list \<Rightarrow> uuid list \<Rightarrow> bool" where
  "sameAttachmentIds left right \<longleftrightarrow>
     length left = length right \<and> list_all (\<lambda>(a, b). a = b) (zip (sort left) (sort right))"

definition run_with_key :: "uuid \<Rightarrow> string \<Rightarrow> db \<Rightarrow> (uuid \<times> run) option" where
  "run_with_key pid key d =
     find_first_opt (\<lambda>(i, r). r_projectId r = pid \<and> r_idempotencyKey r = Some key) (runs d)"

definition attached_ids :: "uuid \<Rightarrow> db \<Rightarrow> uuid list" where
  "attached_ids i d = map ra_attachmentId (filter (\<lambda>a. ra_runId a = i) (run_attachments d))"

datatype create_run_result =
    CreatedRun run_record bool
  | CreateProjectNotFound
  | IdempotencyConflict run_record

text \<open>What an existing run with the same key answers, in both places that look for one.\<close>

definition replay_run :: "uuid \<Rightarrow> run \<Rightarrow> string \<Rightarrow> uuid list \<Rightarrow> db \<Rightarrow> create_run_result" where
  "replay_run i r prompt attachmentIds d =
     (if r_prompt r \<noteq> prompt \<or> \<not> sameAttachmentIds (attached_ids i d) attachmentIds
      then IdempotencyConflict (toRunRecord i r)
      else CreatedRun (toRunRecord i r) True)"

definition clean_attachments :: "uuid \<Rightarrow> uuid \<Rightarrow> uuid list \<Rightarrow> db \<Rightarrow> (uuid \<times> attachment) list" where
  "clean_attachments pid w ids d =
     (if ids = [] then []
      else filter (\<lambda>(k, a). k \<in> set ids \<and> at_projectId a = pid \<and> at_workspaceId a = w \<and>
                            at_status a = AT_CLEAN) (attachments d))"

definition new_run :: "uuid \<Rightarrow> uuid \<Rightarrow> string \<Rightarrow> string \<Rightarrow> run" where
  "new_run pid w prompt key =
     \<lparr>r_workspaceId = w, r_projectId = pid, r_status = PENDING, r_prompt = prompt,
      r_idempotencyKey = Some key, r_eventSequence = 0, r_controlVersion = 0, r_error = None,
      r_checkpoint = None, r_startedAt = None, r_pausedAt = None, r_completedAt = None,
      r_cancelledAt = None, r_lastHeartbeatAt = None, r_reminderSentAt = None, r_purgedAt = None\<rparr>"

definition insert_run :: "run \<Rightarrow> uuid tx" where
  "insert_run r d =
     (if map_of (projects d) (r_projectId r) = None then Inl (PrismaError ''P2003'')
      else if list_ex (\<lambda>(i, q). r_projectId q = r_projectId r \<and> r_idempotencyKey r \<noteq> None \<and>
                                r_idempotencyKey q = r_idempotencyKey r) (runs d)
      then Inl (PrismaError ''P2002'')
      else Inr (next_id d, (set_run (next_id d) r d)\<lparr>next_id := Suc (next_id d)\<rparr>))"

text \<open>The rows of \<open>createMany\<close>; a clean attachment without its scan results throws.\<close>

definition attachment_row :: "uuid \<Rightarrow> uuid \<times> attachment \<Rightarrow> repo_error + run_attachment" where
  "attachment_row i ka =
     (case ka of (k, a) \<Rightarrow>
       (case (at_detectedContentType a, at_sha256 a, at_cleanObjectKey a) of
          (Some t, Some h, Some key) \<Rightarrow>
            Inr \<lparr>ra_runId = i, ra_attachmentId = k, ra_fileName = at_fileName a, ra_contentType = t,
                 ra_sizeBytes = at_sizeBytes a, ra_sha256 = h, ra_objectKey = key\<rparr>
        | _ \<Rightarrow> Inl (RepositoryAttachmentError [k])))"

definition create_run_tx ::
    "(db \<Rightarrow> db) \<Rightarrow> uuid \<Rightarrow> uuid \<Rightarrow> string \<Rightarrow> string \<Rightarrow> uuid list \<Rightarrow> db
       \<Rightarrow> repo_error + create_run_result \<times> db" where
  "create_run_tx env userId pid prompt key ids d =
     (case getProject userId pid d of
        None \<Rightarrow> Inr (CreateProjectNotFound, d)
      | Some p \<Rightarrow>
          (case run_with_key pid key d of
             Some (i, r) \<Rightarrow> Inr (replay_run i r prompt ids d, d)
           | None \<Rightarrow>
               (let atts = clean_attachments pid (pj_workspaceId p) ids d;
                    invalid = filter (\<lambda>k. k \<notin> set (map fst atts)) ids
                in if invalid \<noteq> [] then Inl (RepositoryAttachmentError invalid)
                   else
                     bind_res (lift_repo (insert_run (new_run pid (pj_workspaceId p) prompt key) (env d))) (\<lambda>(i, d1).
                     bind_res (map_res (attachment_row i) atts) (\<lambda>rows.
                     Inr (CreatedRun (toRunRecord i (new_run pid (pj_workspaceId p) prompt key)) False,
                          d1\<lparr>run_attachments := run_attachments d1 @ rows\<rparr>))))))"

text \<open>The unique key decides a race: the loser rolls back and answers from the winner's run.\<close>

definition createRunWithIdempotency ::
    "(db \<Rightarrow> db) \<Rightarrow> uuid \<Rightarrow> uuid \<Rightarrow> string \<Rightarrow> string \<Rightarrow> uuid list \<Rightarrow> db
       \<Rightarrow> repo_error + create_run_result \<times> db" where
  "createRunWithIdempotency env userId pid prompt key ids d =
     (case create_run_tx env userId pid prompt key ids d of
        Inr r \<Rightarrow> Inr r
      | Inl e \<Rightarrow>
          (if prismaErrorCode e \<noteq> Some ''P2002'' then Inl e
           else case run_with_key pid key (env d) of
                  None \<Rightarrow> Inl e
                | Some (i, r) \<Rightarrow> Inr (replay_run i r prompt ids (env d), env d)))"

section \<open>Reading a run and its events\<close>

fun max_sequence :: "event_row list \<Rightarrow> event_row option" where
  "max_sequence [] = None"
| "max_sequence (e # es) =
     (case max_sequence es of
        None \<Rightarrow> Some e
      | Some f \<Rightarrow> (if e_sequence f < e_sequence e then Some e else Some f))"

definition loadPendingApproval :: "uuid \<Rightarrow> db \<Rightarrow> thrown + (approval_scope \<times> string) option" where
  "loadPendingApproval i d =
     (case max_sequence (filter (\<lambda>e. e_runId e = i) (events d)) of
        None \<Rightarrow> Inr None
      | Some e \<Rightarrow>
          (case e_body e of
             ApprovalRequired sc reason \<Rightarrow>
               (case normalizeApprovalRequired (Some sc) reason of None \<Rightarrow> Inl ZodError | Some a \<Rightarrow> Inr (Some a))
           | LegacyApprovalRequired reason \<Rightarrow>
               (case normalizeApprovalRequired None reason of None \<Rightarrow> Inl ZodError | Some a \<Rightarrow> Inr (Some a))
           | _ \<Rightarrow> Inr None))"

definition visible_run :: "uuid \<Rightarrow> uuid \<Rightarrow> db \<Rightarrow> run option" where
  "visible_run userId i d =
     (case run_of d i of
        None \<Rightarrow> None
      | Some r \<Rightarrow> (if project_member d userId (r_projectId r) then Some r else None))"

definition getRun :: "(db \<Rightarrow> db) \<Rightarrow> uuid \<Rightarrow> uuid \<Rightarrow> db \<Rightarrow> thrown + run_record option" where
  "getRun env userId i d =
     (case visible_run userId i d of
        None \<Rightarrow> Inr None
      | Some r \<Rightarrow>
          (if r_status r \<noteq> PAUSED then Inr (Some (toRunRecord i r))
           else bind_res (loadPendingApproval i (env d))
                  (\<lambda>a. Inr (Some ((toRunRecord i r)\<lparr>rn_pendingApproval := a\<rparr>)))))"

definition listRunEventsAfter :: "uuid \<Rightarrow> uuid \<Rightarrow> nat \<Rightarrow> nat \<Rightarrow> db \<Rightarrow> event_row list" where
  "listRunEventsAfter userId i sequence limit d =
     (if visible_run userId i d = None then []
      else take limit (sort_key e_sequence
             (filter (\<lambda>e. e_runId e = i \<and> sequence < e_sequence e) (events d))))"

text \<open>\<open>selectArtifactContent\<close> on the JSON value of a task's output; \<open>null\<close> is \<open>JNull\<close>.\<close>

definition json_field :: "string \<Rightarrow> json \<Rightarrow> json" where
  "json_field f v =
     (case v of JObj fs \<Rightarrow> (case map_of fs f of Some x \<Rightarrow> x | None \<Rightarrow> JNull) | _ \<Rightarrow> v)"

definition selectArtifactContent :: "artifact_type \<Rightarrow> json \<Rightarrow> json" where
  "selectArtifactContent t v =
     (case t of SeoPackage \<Rightarrow> json_field ''seoPackage'' v
      | ContentPackage \<Rightarrow> json_field ''contentPackage'' v
      | AgentOutput _ \<Rightarrow> v)"

record run_artifact =
  an_sequence :: nat
  an_taskId :: uuid
  an_type :: artifact_type
  an_content :: json

definition task_output_json :: "externals \<Rightarrow> uuid \<Rightarrow> uuid \<Rightarrow> db \<Rightarrow> json" where
  "task_output_json X i k d =
     (case task_of d k of
        Some t \<Rightarrow> (if t_runId t = i then (case t_output t of Some v \<Rightarrow> output_json X v | None \<Rightarrow> JNull) else JNull)
      | None \<Rightarrow> JNull)"

definition listRunArtifacts :: "externals \<Rightarrow> (db \<Rightarrow> db) \<Rightarrow> uuid \<Rightarrow> uuid \<Rightarrow> db \<Rightarrow> run_artifact list" where
  "listRunArtifacts X env userId i d =
     (if visible_run userId i d = None then []
      else List.map_filter (\<lambda>e.
             case e_body e of
               ArtifactCreated k a t art \<Rightarrow>
                 Some \<lparr>an_sequence = e_sequence e, an_taskId = k, an_type = t,
                       an_content = selectArtifactContent t (task_output_json X i k (env d))\<rparr>
             | _ \<Rightarrow> None)
           (sort_key e_sequence (filter (\<lambda>e. e_runId e = i) (events d))))"

section \<open>Controlling a run\<close>

record run_status_patch =
  sp_status :: run_status
  sp_pausedAt :: "time option option"
  sp_completedAt :: "time option option"
  sp_cancelledAt :: "time option option"
  sp_startedAt :: "time option option"
  sp_error :: "json option option"
  sp_reminderSentAt :: "time option option"

definition or_keep :: "'a option \<Rightarrow> 'a \<Rightarrow> 'a" where
  "or_keep p old = (case p of None \<Rightarrow> old | Some v \<Rightarrow> v)"

definition apply_patch :: "run_status_patch \<Rightarrow> run \<Rightarrow> run" where
  "apply_patch p r =
     r\<lparr>r_status := sp_status p, r_controlVersion := r_controlVersion r + 1,
       r_pausedAt := or_keep (sp_pausedAt p) (r_pausedAt r),
       r_completedAt := or_keep (sp_completedAt p) (r_completedAt r),
       r_cancelledAt := or_keep (sp_cancelledAt p) (r_cancelledAt r),
       r_startedAt := or_keep (sp_startedAt p) (r_startedAt r),
       r_error := or_keep (sp_error p) (r_error r),
       r_reminderSentAt := or_keep (sp_reminderSentAt p) (r_reminderSentAt r)\<rparr>"

definition transitionRun ::
    "(db \<Rightarrow> db) \<Rightarrow> uuid \<Rightarrow> uuid \<Rightarrow> run_status \<Rightarrow> nat \<Rightarrow> run_status_patch \<Rightarrow> run_record option tx" where
  "transitionRun env userId i st cv patch d =
     (if visible_run userId i d = None then Inr (None, d)
      else (let (n, d1) = updateMany_run i (\<lambda>r. r_status r = st \<and> r_controlVersion r = cv) (apply_patch patch) (env d)
            in if n \<noteq> 1 then Inr (None, d1)
               else case run_of d1 i of
                      None \<Rightarrow> Inl (PrismaError ''P2025'')
                    | Some r \<Rightarrow> Inr (Some (toRunRecord i r), d1)))"

definition markRunFailed :: "uuid \<Rightarrow> nat \<Rightarrow> json \<Rightarrow> time \<Rightarrow> db \<Rightarrow> db" where
  "markRunFailed i cv err now d =
     snd (updateMany_run i (\<lambda>r. r_status r = PENDING \<and> r_controlVersion r = cv)
            (\<lambda>r. r\<lparr>r_status := FAILED, r_completedAt := Some now, r_error := Some err\<rparr>) d)"

section \<open>Files\<close>

definition list_project_files :: "uuid \<Rightarrow> uuid \<Rightarrow> (db \<Rightarrow> db) \<Rightarrow> db \<Rightarrow> project_file list option" where
  "list_project_files userId pid env d =
     (if getProject userId pid d = None then None else Some (listProjectFiles pid (env d)))"

definition getProjectFile :: "uuid \<Rightarrow> uuid \<Rightarrow> string \<Rightarrow> nat option \<Rightarrow> db \<Rightarrow> project_file option" where
  "getProjectFile userId pid path version d =
     (if \<not> project_member d userId pid then None
      else case version of
             None \<Rightarrow> latest_file pid path d
           | Some v \<Rightarrow> max_version (filter (\<lambda>f. pf_version f = v) (file_rows pid path d)))"

datatype put_file_result = PutOk project_file | PutProjectNotFound | VersionConflict "nat option"

definition put_file_tx :: "uuid \<Rightarrow> uuid \<Rightarrow> generated_file \<Rightarrow> put_file_result tx" where
  "put_file_tx userId pid f d =
     (if getProject userId pid d = None then Inr (PutProjectNotFound, d)
      else (let latest = latest_file pid (gf_path f) d;
                actual = map_option pf_version latest
            in if \<not> (if gf_expectedVersion f = 0 then latest = None else actual = Some (gf_expectedVersion f))
               then Inr (VersionConflict actual, d)
               else (let row = \<lparr>pf_projectId = pid, pf_path = gf_path f, pf_content = gf_content f,
                                pf_version = (case actual of None \<Rightarrow> 0 | Some v \<Rightarrow> v) + 1\<rparr>
                     in bind_res (create_file row d) (\<lambda>d1. Inr (PutOk row, d1)))))"

text \<open>
  A serializable transaction: it takes effect at one moment, or the database aborts it with
  \<open>P2034\<close> because a concurrent one conflicts; \<open>aborted\<close> says which.
\<close>

definition putProjectFile ::
    "bool \<Rightarrow> (db \<Rightarrow> db) \<Rightarrow> uuid \<Rightarrow> uuid \<Rightarrow> generated_file \<Rightarrow> put_file_result tx" where
  "putProjectFile aborted env userId pid f d =
     (case (if aborted then Inl (PrismaError ''P2034'') else put_file_tx userId pid f d) of
        Inr r \<Rightarrow> Inr r
      | Inl e \<Rightarrow>
          (if prismaErrorCode (RepoThrown e) = Some ''P2002'' \<or> prismaErrorCode (RepoThrown e) = Some ''P2034''
           then Inr (VersionConflict (map_option pf_version
                       (getProjectFile userId pid (gf_path f) None (env d))), env d)
           else Inl e))"

end
