(* ===== verification/ControlApi.thy ===== *)
theory ControlApi
  imports ControlRepository
begin

text \<open>
  The route handlers of \<open>control-api/src/app.ts\<close> for projects, runs and files, with
  \<open>authorization.ts\<close>. A handler reads and changes the store through the repository and hands
  jobs to the queue; what other clients commit between two of its repository calls is an
  argument \<open>env\<close>, and whether the queue accepts the job is an argument too. Fastify's
  routing and the Zod schemas of the requests have accepted the input before a handler runs.
\<close>

section \<open>Errors\<close>

datatype api_failure =
    ApiError nat string string json
  | OtherError repo_error

text \<open>What \<open>setErrorHandler\<close> answers: the status and the code.\<close>

definition error_reply :: "api_failure \<Rightarrow> nat \<times> string" where
  "error_reply e = (case e of ApiError s code msg details \<Rightarrow> (s, code)
                    | OtherError _ \<Rightarrow> (500, ''INTERNAL_SERVER_ERROR''))"

definition ADMINISTRATIVE_ROLES :: "workspace_role list" where
  "ADMINISTRATIVE_ROLES = [OWNER, ADMIN]"

fun role_string :: "workspace_role \<Rightarrow> string" where
  "role_string OWNER = ''OWNER''"
| "role_string ADMIN = ''ADMIN''"
| "role_string MEMBER = ''MEMBER''"

definition insufficientWorkspaceRoleError :: "workspace_role \<Rightarrow> string \<Rightarrow> workspace_role list \<Rightarrow> api_failure" where
  "insufficientWorkspaceRoleError role operation required =
     ApiError 403 ''INSUFFICIENT_WORKSPACE_ROLE'' ''The workspace role does not allow this operation''
       (JObj [(''role'', JStr (role_string role)), (''operation'', JStr operation),
              (''requiredRoles'', JArr (map (\<lambda>r. JStr (role_string r)) required))])"

definition requireAdministrativeRole :: "workspace_role \<Rightarrow> string \<Rightarrow> api_failure + unit" where
  "requireAdministrativeRole role operation =
     (if role \<in> set ADMINISTRATIVE_ROLES then Inr ()
      else Inl (insufficientWorkspaceRoleError role operation ADMINISTRATIVE_ROLES))"

definition hasAdministrativeRole :: "workspace_role \<Rightarrow> bool" where
  "hasAdministrativeRole role \<longleftrightarrow> role \<in> set ADMINISTRATIVE_ROLES"

definition workspaceAccessDeniedError :: "uuid \<Rightarrow> api_failure" where
  "workspaceAccessDeniedError w =
     ApiError 404 ''WORKSPACE_ACCESS_DENIED'' ''Workspace access denied''
       (JObj [(''workspaceId'', JNum (int w))])"

definition PROJECT_NOT_FOUND :: api_failure where
  "PROJECT_NOT_FOUND = ApiError 404 ''PROJECT_NOT_FOUND'' ''Project not found'' JNull"

definition RUN_NOT_FOUND :: api_failure where
  "RUN_NOT_FOUND = ApiError 404 ''RUN_NOT_FOUND'' ''Run not found'' JNull"

section \<open>What a handler acts on\<close>

record control_state =
  k_db :: db
  k_queue :: "run_job list"

type_synonym 'a reply = "(api_failure + nat \<times> 'a) \<times> control_state"

record control_options =
  o_runExecutionEnabled :: bool
  o_enqueue_fails :: bool

definition requirePrincipal :: "uuid option \<Rightarrow> api_failure + uuid" where
  "requirePrincipal p =
     (case p of None \<Rightarrow> Inl (ApiError 401 ''AUTHENTICATION_REQUIRED'' ''Authentication required'' JNull)
      | Some u \<Rightarrow> Inr u)"

definition assertRunExecutionEnabled :: "control_options \<Rightarrow> api_failure + unit" where
  "assertRunExecutionEnabled opt =
     (if o_runExecutionEnabled opt then Inr ()
      else Inl (ApiError 503 ''RUN_EXECUTION_DISABLED'' ''Run execution is disabled by deployment policy'' JNull))"

definition providerFailure :: "string \<Rightarrow> string \<Rightarrow> json" where
  "providerFailure code msg = JObj [(''code'', JStr code), (''message'', JStr msg), (''retryable'', JBool True)]"

section \<open>Projects\<close>

definition createProject_route :: "uuid option \<Rightarrow> create_project_input \<Rightarrow> (db \<Rightarrow> db) \<Rightarrow> db \<Rightarrow> (api_failure + nat \<times> uuid \<times> project) \<times> db" where
  "createProject_route who i env d =
     (case requirePrincipal who of
        Inl e \<Rightarrow> (Inl e, d)
      | Inr u \<Rightarrow>
          (case getWorkspaceMembership u (cp_workspaceId i) d of
             None \<Rightarrow> (Inl (workspaceAccessDeniedError (cp_workspaceId i)), d)
           | Some role \<Rightarrow>
               (case requireAdministrativeRole role ''create_project'' of
                  Inl e \<Rightarrow> (Inl e, d)
                | Inr _ \<Rightarrow>
                    (case createProject i (env d) of
                       Inr (p, d') \<Rightarrow> (Inr (201, p), d')
                     | Inl (RepositoryConflictError msg c) \<Rightarrow>
                         (Inl (ApiError 409 ''PROJECT_SLUG_CONFLICT'' msg (JObj [(''constraint'', JStr c)])), env d)
                     | Inl e \<Rightarrow> (Inl (OtherError e), env d)))))"

definition getProject_route :: "uuid option \<Rightarrow> uuid \<Rightarrow> db \<Rightarrow> api_failure + nat \<times> project" where
  "getProject_route who pid d =
     bind_res (requirePrincipal who) (\<lambda>u.
       case getProject u pid d of None \<Rightarrow> Inl PROJECT_NOT_FOUND | Some p \<Rightarrow> Inr (200, p))"

section \<open>Creating a run\<close>

record create_run_input =
  ci_prompt :: string
  ci_idempotencyKey :: string
  ci_attachmentIds :: "uuid list"

definition start_job :: "run_record \<Rightarrow> run_job" where
  "start_job r = \<lparr>job_runId = rn_id r, job_command = CmdStart, job_controlVersion = rn_controlVersion r,
                  job_reason = None, job_approvalScope = None\<rparr>"

definition conflict_details :: "run_record \<Rightarrow> (run_status \<Rightarrow> string) \<Rightarrow> json" where
  "conflict_details r name = JObj [(''runId'', JNum (int (rn_id r))), (''status'', JStr (name (rn_status r))),
     (''controlVersion'', JNum (int (rn_controlVersion r)))]"

fun status_string :: "run_status \<Rightarrow> string" where
  "status_string PENDING = ''PENDING''"
| "status_string RUNNING = ''RUNNING''"
| "status_string PAUSED = ''PAUSED''"
| "status_string COMPLETED = ''COMPLETED''"
| "status_string FAILED = ''FAILED''"
| "status_string CANCELLED = ''CANCELLED''"

text \<open>\<open>env1\<close> runs inside the transaction, \<open>env2\<close> before the failed enqueue is recorded.\<close>

definition createRun_route ::
    "control_options \<Rightarrow> uuid option \<Rightarrow> uuid \<Rightarrow> create_run_input \<Rightarrow> (db \<Rightarrow> db) \<Rightarrow> (db \<Rightarrow> db) \<Rightarrow> time
       \<Rightarrow> control_state \<Rightarrow> run_record reply" where
  "createRun_route opt who pid i env1 env2 now s =
     (case bind_res (assertRunExecutionEnabled opt) (\<lambda>_. requirePrincipal who) of
        Inl e \<Rightarrow> (Inl e, s)
      | Inr u \<Rightarrow>
          (case createRunWithIdempotency env1 u pid (ci_prompt i) (ci_idempotencyKey i) (ci_attachmentIds i) (k_db s) of
             Inl (RepositoryAttachmentError ids) \<Rightarrow>
               (Inl (ApiError 409 ''RUN_ATTACHMENTS_NOT_READY''
                  ''Every run attachment must be clean and belong to the project''
                  (JObj [(''attachmentIds'', JArr (map (\<lambda>k. JNum (int k)) ids))])), s)
           | Inl e \<Rightarrow> (Inl (OtherError e), s)
           | Inr (CreateProjectNotFound, d1) \<Rightarrow> (Inl PROJECT_NOT_FOUND, s\<lparr>k_db := d1\<rparr>)
           | Inr (IdempotencyConflict r, d1) \<Rightarrow>
               (Inl (ApiError 409 ''IDEMPOTENCY_KEY_CONFLICT''
                  ''The idempotency key was already used for a different run request''
                  (conflict_details r status_string)), s\<lparr>k_db := d1\<rparr>)
           | Inr (CreatedRun r replayed, d1) \<Rightarrow>
               (if replayed then (Inr (200, r), s\<lparr>k_db := d1\<rparr>)
                else if o_enqueue_fails opt
                then (Inl (ApiError 503 ''RUN_QUEUE_UNAVAILABLE'' ''Run was persisted but could not be enqueued'' JNull),
                      s\<lparr>k_db := markRunFailed (rn_id r) (rn_controlVersion r)
                                  (providerFailure ''QUEUE_ENQUEUE_FAILED'' ''queue'') now (env2 d1)\<rparr>)
                else (Inr (201, r), s\<lparr>k_db := d1, k_queue := k_queue s @ [start_job r]\<rparr>))))"

section \<open>Controlling a run\<close>

datatype run_action = Pause | Resume | Approve | Cancel | Retry

fun action_string :: "run_action \<Rightarrow> string" where
  "action_string Pause = ''pause''"
| "action_string Resume = ''resume''"
| "action_string Approve = ''approve''"
| "action_string Cancel = ''cancel''"
| "action_string Retry = ''retry''"

definition no_patch :: "run_status \<Rightarrow> run_status_patch" where
  "no_patch st = \<lparr>sp_status = st, sp_pausedAt = None, sp_completedAt = None, sp_cancelledAt = None,
     sp_startedAt = None, sp_error = None, sp_reminderSentAt = None\<rparr>"

definition invalid_transition :: "run_action \<Rightarrow> run_status \<Rightarrow> api_failure" where
  "invalid_transition action st =
     ApiError 409 ''INVALID_RUN_TRANSITION''
       (''Action '' @ action_string action @ '' is not valid while run status is '' @ status_string st)
       (JObj [(''action'', JStr (action_string action)), (''currentStatus'', JStr (status_string st))])"

definition resolveRunTransition :: "run_action \<Rightarrow> run_status \<Rightarrow> time \<Rightarrow> api_failure + run_status_patch \<times> bool" where
  "resolveRunTransition action st now =
     (case action of
        Pause \<Rightarrow>
          (if st \<noteq> PENDING \<and> st \<noteq> RUNNING then Inl (invalid_transition action st)
           else Inr ((no_patch PAUSED)\<lparr>sp_pausedAt := Some (Some now)\<rparr>, False))
      | Cancel \<Rightarrow>
          (if st \<noteq> PENDING \<and> st \<noteq> RUNNING \<and> st \<noteq> PAUSED then Inl (invalid_transition action st)
           else Inr ((no_patch CANCELLED)\<lparr>sp_cancelledAt := Some (Some now)\<rparr>, False))
      | Retry \<Rightarrow>
          (if st \<noteq> FAILED then Inl (invalid_transition action st)
           else Inr ((no_patch PENDING)\<lparr>sp_error := Some None, sp_startedAt := Some None, sp_pausedAt := Some None,
                       sp_completedAt := Some None, sp_cancelledAt := Some None\<rparr>, True))
      | _ \<Rightarrow>
          (if st \<noteq> PAUSED then Inl (invalid_transition action st)
           else Inr ((no_patch PENDING)\<lparr>sp_pausedAt := Some None, sp_reminderSentAt := Some None\<rparr>, True)))"

definition concurrencyError :: "run_record option \<Rightarrow> api_failure" where
  "concurrencyError cur =
     ApiError 409 ''RUN_CONCURRENCY_CONFLICT'' ''The run changed before the action could be applied''
       (JObj [(''current'', case cur of None \<Rightarrow> JNull
          | Some r \<Rightarrow> JObj [(''status'', JStr (status_string (rn_status r))),
                            (''controlVersion'', JNum (int (rn_controlVersion r)))])])"

definition assertClientPreconditions :: "run_record \<Rightarrow> run_status option \<Rightarrow> nat option \<Rightarrow> api_failure + unit" where
  "assertClientPreconditions cur st cv =
     (if (st \<noteq> None \<and> st \<noteq> Some (rn_status cur)) \<or> (cv \<noteq> None \<and> cv \<noteq> Some (rn_controlVersion cur))
      then Inl (concurrencyError (Some cur)) else Inr ())"

record run_action_input =
  ai_action :: run_action
  ai_expectedStatus :: "run_status option"
  ai_expectedControlVersion :: "nat option"
  ai_reason :: "string option"
  ai_approvalScope :: "approval_scope option"

definition action_command :: "run_action \<Rightarrow> run_command" where
  "action_command a = (case a of Approve \<Rightarrow> CmdApprove | Retry \<Rightarrow> CmdRetry | _ \<Rightarrow> CmdResume)"

definition action_job :: "run_action_input \<Rightarrow> run_record \<Rightarrow> run_job" where
  "action_job i r =
     \<lparr>job_runId = rn_id r, job_command = action_command (ai_action i), job_controlVersion = rn_controlVersion r,
      job_reason = ai_reason i, job_approvalScope = (if ai_action i = Approve then ai_approvalScope i else None)\<rparr>"

text \<open>
  \<open>env1\<close> runs between the two queries of \<open>getRun\<close>, \<open>env2\<close> before the transition,
  \<open>env3\<close> inside it and \<open>env4\<close> after it.
\<close>

definition read_run :: "(db \<Rightarrow> db) \<Rightarrow> uuid \<Rightarrow> uuid \<Rightarrow> db \<Rightarrow> api_failure + run_record" where
  "read_run env u i d =
     (case getRun env u i d of
        Inl e \<Rightarrow> Inl (OtherError (RepoThrown e))
      | Inr None \<Rightarrow> Inl RUN_NOT_FOUND
      | Inr (Some r) \<Rightarrow> Inr r)"

definition plan_action :: "control_options \<Rightarrow> run_action_input \<Rightarrow> time \<Rightarrow> run_record \<Rightarrow> api_failure + run_status_patch \<times> bool" where
  "plan_action opt i now cur =
     bind_res (assertClientPreconditions cur (ai_expectedStatus i) (ai_expectedControlVersion i)) (\<lambda>_.
     bind_res (resolveRunTransition (ai_action i) (rn_status cur) now) (\<lambda>(patch, enqueue).
     if enqueue then bind_res (assertRunExecutionEnabled opt) (\<lambda>_. Inr (patch, enqueue)) else Inr (patch, enqueue)))"

definition controlRun_route ::
    "control_options \<Rightarrow> uuid option \<Rightarrow> uuid \<Rightarrow> run_action_input \<Rightarrow> (db \<Rightarrow> db) \<Rightarrow> (db \<Rightarrow> db) \<Rightarrow> (db \<Rightarrow> db)
       \<Rightarrow> (db \<Rightarrow> db) \<Rightarrow> time \<Rightarrow> control_state \<Rightarrow> run_record reply" where
  "controlRun_route opt who i a env1 env2 env3 env4 now s =
     (case bind_res (requirePrincipal who) (\<lambda>u. bind_res (read_run env1 u i (k_db s)) (\<lambda>cur.
             bind_res (plan_action opt a now cur) (\<lambda>plan. Inr (u, cur, plan)))) of
        Inl e \<Rightarrow> (Inl e, s)
      | Inr (u, cur, patch, enqueue) \<Rightarrow>
          (let d1 = env2 (k_db s)
           in case transitionRun env3 u (rn_id cur) (rn_status cur) (rn_controlVersion cur) patch d1 of
                Inl e \<Rightarrow> (Inl (OtherError (RepoThrown e)), s\<lparr>k_db := env3 d1\<rparr>)
              | Inr (None, d2) \<Rightarrow>
                  (case getRun env4 u (rn_id cur) d2 of
                     Inl e \<Rightarrow> (Inl (OtherError (RepoThrown e)), s\<lparr>k_db := d2\<rparr>)
                   | Inr latest \<Rightarrow> (Inl (concurrencyError latest), s\<lparr>k_db := d2\<rparr>))
              | Inr (Some r, d2) \<Rightarrow>
                  (if \<not> enqueue then (Inr (200, r), s\<lparr>k_db := d2\<rparr>)
                   else if o_enqueue_fails opt
                   then (Inl (ApiError 503 ''RUN_QUEUE_UNAVAILABLE''
                           ''Run state changed but execution could not be enqueued'' JNull),
                         s\<lparr>k_db := markRunFailed (rn_id r) (rn_controlVersion r)
                                     (providerFailure ''QUEUE_ENQUEUE_FAILED'' ''queue'') now (env4 d2)\<rparr>)
                   else (Inr (200, r), s\<lparr>k_db := d2, k_queue := k_queue s @ [action_job a r]\<rparr>))))"

section \<open>Reading runs and files\<close>

definition getRun_route :: "uuid option \<Rightarrow> uuid \<Rightarrow> (db \<Rightarrow> db) \<Rightarrow> db \<Rightarrow> api_failure + nat \<times> run_record" where
  "getRun_route who i env d =
     bind_res (requirePrincipal who) (\<lambda>u. bind_res (read_run env u i d) (\<lambda>r. Inr (200, r)))"

definition listRunArtifacts_route ::
    "externals \<Rightarrow> uuid option \<Rightarrow> uuid \<Rightarrow> (db \<Rightarrow> db) \<Rightarrow> (db \<Rightarrow> db) \<Rightarrow> (db \<Rightarrow> db) \<Rightarrow> db
       \<Rightarrow> api_failure + nat \<times> run_artifact list" where
  "listRunArtifacts_route X who i env1 env2 env3 d =
     bind_res (requirePrincipal who) (\<lambda>u. bind_res (read_run env1 u i d) (\<lambda>r.
       Inr (200, listRunArtifacts X env3 u (rn_id r) (env2 d))))"

definition listProjectFiles_route :: "uuid option \<Rightarrow> uuid \<Rightarrow> (db \<Rightarrow> db) \<Rightarrow> db \<Rightarrow> api_failure + nat \<times> project_file list" where
  "listProjectFiles_route who pid env d =
     bind_res (requirePrincipal who) (\<lambda>u.
       case list_project_files u pid env d of None \<Rightarrow> Inl PROJECT_NOT_FOUND | Some fs \<Rightarrow> Inr (200, fs))"

definition getProjectFile_route :: "uuid option \<Rightarrow> uuid \<Rightarrow> string \<Rightarrow> nat option \<Rightarrow> db \<Rightarrow> api_failure + nat \<times> project_file" where
  "getProjectFile_route who pid path version d =
     bind_res (requirePrincipal who) (\<lambda>u.
       case getProjectFile u pid path version d of
         None \<Rightarrow> Inl (ApiError 404 ''PROJECT_FILE_NOT_FOUND'' ''Project file not found'' JNull)
       | Some f \<Rightarrow> Inr (200, f))"

definition putProjectFile_route ::
    "bool \<Rightarrow> (db \<Rightarrow> db) \<Rightarrow> uuid option \<Rightarrow> uuid \<Rightarrow> generated_file \<Rightarrow> db \<Rightarrow> (api_failure + nat \<times> project_file) \<times> db" where
  "putProjectFile_route aborted env who pid f d =
     (case requirePrincipal who of
        Inl e \<Rightarrow> (Inl e, d)
      | Inr u \<Rightarrow>
          (case putProjectFile aborted env u pid f d of
             Inl e \<Rightarrow> (Inl (OtherError (RepoThrown e)), d)
           | Inr (PutProjectNotFound, d1) \<Rightarrow> (Inl PROJECT_NOT_FOUND, d1)
           | Inr (VersionConflict actual, d1) \<Rightarrow>
               (Inl (ApiError 409 ''PROJECT_FILE_VERSION_CONFLICT''
                  ''The project file has changed since it was read''
                  (JObj [(''expectedVersion'', JNum (int (gf_expectedVersion f))),
                         (''actualVersion'', case actual of None \<Rightarrow> JNull | Some v \<Rightarrow> JNum (int v))])), d1)
           | Inr (PutOk g, d1) \<Rightarrow> (Inr (if pf_version g = 1 then 201 else 200, g), d1)))"

section \<open>The event stream\<close>

definition parseLastEventId :: "(string \<Rightarrow> int option) \<Rightarrow> string option \<Rightarrow> api_failure + nat" where
  "parseLastEventId to_safe_integer v =
     (case v of
        None \<Rightarrow> Inr 0
      | Some t \<Rightarrow>
          (case to_safe_integer t of
             None \<Rightarrow> Inl (ApiError 400 ''INVALID_LAST_EVENT_ID'' ''Last-Event-ID must be a non-negative 32-bit integer'' JNull)
           | Some n \<Rightarrow>
               (if n < 0 \<or> n > 2147483647
                then Inl (ApiError 400 ''INVALID_LAST_EVENT_ID'' ''Last-Event-ID must be a non-negative 32-bit integer'' JNull)
                else Inr (nat n))))"

datatype stream_end = StreamOpen | StreamClosed

text \<open>
  The loop of \<open>streamRunEvents\<close>. Each round sees two moments of the store: the one at which
  it lists events and the one at which it reads the run again; the rounds end with the
  list, which is the connection limit or a disconnect.
\<close>

fun stream_rounds :: "uuid \<Rightarrow> uuid \<Rightarrow> nat \<Rightarrow> (db \<times> db) list \<Rightarrow> event_row list \<times> stream_end" where
  "stream_rounds u i cursor [] = ([], StreamOpen)"
| "stream_rounds u i cursor ((d1, d2) # rounds) =
     (let es = listRunEventsAfter u i cursor 100 d1;
          cursor' = (if es = [] then cursor else e_sequence (last es))
      in if length es = 100
         then (let (more, r) = stream_rounds u i cursor' rounds in (es @ more, r))
         else case visible_run u i d2 of
                None \<Rightarrow> (es, StreamClosed)
              | Some r \<Rightarrow>
                  (if terminal_run_status (r_status r) then (es, StreamClosed)
                   else (let (more, q) = stream_rounds u i cursor' rounds in (es @ more, q))))"

end
