(* ===== verification/Expiry.thy ===== *)
theory Expiry
  imports RunRepository
begin

text \<open>
  \<open>orchestrator-worker/src/approval-expiry.ts\<close>: the three sweepers that cancel runs paused
  too long, record a reminder for a paused run, and redact the data of an expired run. A
  batch reads its candidates first and then changes them one by one; what other clients
  commit before each change is the argument \<open>env\<close>, indexed by the candidate.
\<close>

section \<open>Candidates\<close>

definition oldest_first :: "nat \<Rightarrow> (run \<Rightarrow> time option) \<Rightarrow> (run \<Rightarrow> bool) \<Rightarrow> db \<Rightarrow> (uuid \<times> run) list" where
  "oldest_first limit at p d =
     take limit (sort_key (\<lambda>(i, r). case at r of Some t \<Rightarrow> t | None \<Rightarrow> 0) (filter (\<lambda>(i, r). p r) (runs d)))"

definition before :: "time option \<Rightarrow> time \<Rightarrow> bool" where
  "before t limit = (case t of None \<Rightarrow> False | Some x \<Rightarrow> x < limit)"

text \<open>
  A loop over the candidates. A throw ends it and the batch, but what was committed for
  earlier candidates stays.
\<close>

fun each_candidate ::
    "(uuid \<times> run \<Rightarrow> bool tx) \<Rightarrow> (uuid \<Rightarrow> db \<Rightarrow> db) \<Rightarrow> (uuid \<times> run) list \<Rightarrow> db \<Rightarrow> (thrown + uuid list) \<times> db" where
  "each_candidate change env [] d = (Inr [], d)"
| "each_candidate change env (c # cs) d =
     (case change c (env (fst c) d) of
        Inl e \<Rightarrow> (Inl e, env (fst c) d)
      | Inr (done, d1) \<Rightarrow>
          (case each_candidate change env cs d1 of
             (Inl e, d2) \<Rightarrow> (Inl e, d2)
           | (Inr ids, d2) \<Rightarrow> (Inr (if done then fst c # ids else ids), d2)))"

section \<open>Expiry\<close>

definition APPROVAL_EXPIRED_CODE :: string where
  "APPROVAL_EXPIRED_CODE = ''APPROVAL_EXPIRED''"

definition expiredError :: json where
  "expiredError = JObj [(''code'', JStr APPROVAL_EXPIRED_CODE), (''name'', JStr ''ApprovalExpired''),
     (''message'', JStr ''The run was paused longer than the allowed time and was cancelled. Start a new run to continue.''),
     (''retryable'', JBool False)]"

definition expire_due :: "time \<Rightarrow> run \<Rightarrow> bool" where
  "expire_due pausedBefore r \<longleftrightarrow> r_status r = PAUSED \<and> before (r_pausedAt r) pausedBefore"

definition expire_one :: "time \<Rightarrow> uuid \<times> run \<Rightarrow> bool tx" where
  "expire_one now c d =
     (let (n, d1) = updateMany_run (fst c)
            (\<lambda>r. r_status r = PAUSED \<and> r_controlVersion r = r_controlVersion (snd c))
            (\<lambda>r. r\<lparr>r_status := CANCELLED, r_cancelledAt := Some now,
                   r_controlVersion := r_controlVersion r + 1, r_error := Some expiredError\<rparr>) d
      in Inr (n = 1, d1))"

definition expirePausedRuns ::
    "(uuid \<Rightarrow> db \<Rightarrow> db) \<Rightarrow> time \<Rightarrow> time \<Rightarrow> nat \<Rightarrow> db \<Rightarrow> (thrown + uuid list) \<times> db" where
  "expirePausedRuns env pausedBefore now limit d =
     each_candidate (expire_one now) env (oldest_first limit r_pausedAt (expire_due pausedBefore) d) d"

section \<open>Reminders\<close>

definition remind_due :: "time \<Rightarrow> run \<Rightarrow> bool" where
  "remind_due pausedBefore r \<longleftrightarrow>
     r_status r = PAUSED \<and> before (r_pausedAt r) pausedBefore \<and> r_reminderSentAt r = None"

definition remind_one :: "time \<Rightarrow> uuid \<times> run \<Rightarrow> bool tx" where
  "remind_one now c d =
     (let (n, d1) = updateMany_run (fst c) (\<lambda>r. r_status r = PAUSED \<and> r_reminderSentAt r = None)
            (\<lambda>r. r\<lparr>r_reminderSentAt := Some now\<rparr>) d
      in if n \<noteq> 1 then Inr (False, d1)
         else bind_res (appendEvent (fst c)
                (ApprovalReminderDue (case r_pausedAt (snd c) of Some t \<Rightarrow> t | None \<Rightarrow> now)) d1)
              (\<lambda>d2. Inr (True, d2)))"

definition sendReminders ::
    "(uuid \<Rightarrow> db \<Rightarrow> db) \<Rightarrow> time \<Rightarrow> time \<Rightarrow> nat \<Rightarrow> db \<Rightarrow> (thrown + uuid list) \<times> db" where
  "sendReminders env pausedBefore now limit d =
     each_candidate (remind_one now) env (oldest_first limit r_pausedAt (remind_due pausedBefore) d) d"

section \<open>Data purge\<close>

definition PURGE_REDACTION_MARKER :: string where
  "PURGE_REDACTION_MARKER = ''[redacted: retention period elapsed -- see docs/design-partner-runbook.md]''"

text \<open>\<open>error: { path: ["code"], equals: APPROVAL_EXPIRED_CODE }\<close>\<close>

definition expired_error :: "json option \<Rightarrow> bool" where
  "expired_error e = (case e of
     Some (JObj fs) \<Rightarrow> map_of fs ''code'' = Some (JStr APPROVAL_EXPIRED_CODE) | _ \<Rightarrow> False)"

definition purge_due :: "time \<Rightarrow> run \<Rightarrow> bool" where
  "purge_due cancelledBefore r \<longleftrightarrow>
     r_status r = CANCELLED \<and> r_purgedAt r = None \<and> before (r_cancelledAt r) cancelledBefore \<and>
     expired_error (r_error r)"

definition redact_tasks :: "uuid \<Rightarrow> db \<Rightarrow> db" where
  "redact_tasks i d = d\<lparr>tasks := map (\<lambda>(k, t).
     (k, if t_runId t = i then t\<lparr>t_input := None, t_output := None\<rparr> else t)) (tasks d)\<rparr>"

definition drop_attachments :: "uuid \<Rightarrow> db \<Rightarrow> db" where
  "drop_attachments i d = d\<lparr>run_attachments := filter (\<lambda>a. ra_runId a \<noteq> i) (run_attachments d)\<rparr>"

definition purge_one :: "time \<Rightarrow> uuid \<times> run \<Rightarrow> bool tx" where
  "purge_one now c d =
     (let (n, d1) = updateMany_run (fst c) (\<lambda>r. r_status r = CANCELLED \<and> r_purgedAt r = None)
            (\<lambda>r. r\<lparr>r_prompt := PURGE_REDACTION_MARKER, r_checkpoint := None, r_purgedAt := Some now\<rparr>) d
      in if n \<noteq> 1 then Inr (False, d1)
         else bind_res (appendEvent (fst c)
                (RunDataPurged (case r_cancelledAt (snd c) of Some t \<Rightarrow> t | None \<Rightarrow> now))
                (drop_attachments (fst c) (redact_tasks (fst c) d1)))
              (\<lambda>d2. Inr (True, d2)))"

definition purgeExpiredRunData ::
    "(uuid \<Rightarrow> db \<Rightarrow> db) \<Rightarrow> time \<Rightarrow> time \<Rightarrow> nat \<Rightarrow> db \<Rightarrow> (thrown + uuid list) \<times> db" where
  "purgeExpiredRunData env cancelledBefore now limit d =
     each_candidate (purge_one now) env (oldest_first limit r_cancelledAt (purge_due cancelledBefore) d) d"

section \<open>A sweep\<close>

definition MAX_BATCHES_PER_SWEEP :: nat where
  "MAX_BATCHES_PER_SWEEP = 10"

definition DEFAULT_BATCH_SIZE :: nat where
  "DEFAULT_BATCH_SIZE = 100"

text \<open>
  The loop of \<open>sweepOnce\<close>: the count it returns, the batches it reports, the error it
  reports. The first argument counts the batches that are left.
\<close>

fun sweep_batches ::
    "nat \<Rightarrow> nat \<Rightarrow> (nat \<Rightarrow> db \<Rightarrow> (thrown + uuid list) \<times> db) \<Rightarrow> db
       \<Rightarrow> (nat \<times> uuid list list \<times> thrown option) \<times> db" where
  "sweep_batches 0 bsize batch d = ((0, [], None), d)"
| "sweep_batches (Suc k) bsize batch d =
     (case batch bsize d of
        (Inl e, d1) \<Rightarrow> ((0, [], Some e), d1)
      | (Inr ids, d1) \<Rightarrow>
          (if length ids < bsize then ((length ids, if ids = [] then [] else [ids], None), d1)
           else case sweep_batches k bsize batch d1 of
                  ((total', reported, err), d2) \<Rightarrow>
                    ((length ids + total', if ids = [] then reported else ids # reported, err), d2)))"

definition sweepOnce ::
    "(time \<Rightarrow> time \<Rightarrow> nat \<Rightarrow> db \<Rightarrow> (thrown + uuid list) \<times> db) \<Rightarrow> int \<Rightarrow> nat option \<Rightarrow> time \<Rightarrow> db
       \<Rightarrow> (nat \<times> uuid list list \<times> thrown option) \<times> db" where
  "sweepOnce repo afterMs batchSize now d =
     sweep_batches MAX_BATCHES_PER_SWEEP (case batchSize of None \<Rightarrow> DEFAULT_BATCH_SIZE | Some n \<Rightarrow> n)
       (repo (now - afterMs) now) d"

text \<open>The three sweepers; their constructors refuse a period that is not positive.\<close>

definition positive_period :: "string \<Rightarrow> int \<Rightarrow> thrown + unit" where
  "positive_period name ms =
     (if ms \<le> 0 then Inl (throw_node (plain_error ClsError ''RangeError'' (name @ '' must be a positive integer'')))
      else Inr ())"

definition ApprovalExpirySweeper ::
    "(uuid \<Rightarrow> db \<Rightarrow> db) \<Rightarrow> int \<Rightarrow> nat option \<Rightarrow> time \<Rightarrow> db \<Rightarrow> thrown + (nat \<times> uuid list list \<times> thrown option) \<times> db" where
  "ApprovalExpirySweeper env ttlMs batchSize now d =
     bind_res (positive_period ''ttlMs'' ttlMs) (\<lambda>_. Inr (sweepOnce (expirePausedRuns env) ttlMs batchSize now d))"

definition ApprovalReminderSweeper ::
    "(uuid \<Rightarrow> db \<Rightarrow> db) \<Rightarrow> int \<Rightarrow> nat option \<Rightarrow> time \<Rightarrow> db \<Rightarrow> thrown + (nat \<times> uuid list list \<times> thrown option) \<times> db" where
  "ApprovalReminderSweeper env afterMs batchSize now d =
     bind_res (positive_period ''afterMs'' afterMs) (\<lambda>_. Inr (sweepOnce (sendReminders env) afterMs batchSize now d))"

definition RunDataPurgeSweeper ::
    "(uuid \<Rightarrow> db \<Rightarrow> db) \<Rightarrow> int \<Rightarrow> nat option \<Rightarrow> time \<Rightarrow> db \<Rightarrow> thrown + (nat \<times> uuid list list \<times> thrown option) \<times> db" where
  "RunDataPurgeSweeper env afterMs batchSize now d =
     bind_res (positive_period ''afterMs'' afterMs) (\<lambda>_. Inr (sweepOnce (purgeExpiredRunData env) afterMs batchSize now d))"

end
