(* ===== verification/ExpiryLaws.thy ===== *)
theory ExpiryLaws
  imports Expiry
begin

text \<open>
  What a sweep achieves on a store that nobody else changes: the interface \<open>due_changes\<close> of a
  change that settles a due run, the count and the completeness of a sweep proved once from
  it, and its interpretations on the three changes of the sweepers.
\<close>

definition due_ids :: "(run \<Rightarrow> bool) \<Rightarrow> db \<Rightarrow> uuid set" where
  "due_ids p d = {i. \<exists>r. run_of d i = Some r \<and> p r}"

lemma finite_due_ids [simp]: "finite (due_ids p d)"
  by (rule finite_subset [OF _ finite_dom_map_of [of "runs d"]]) (auto simp: due_ids_def)

lemma oldest_first_candidates:
  assumes "distinct (map fst (runs d))"
  shows "distinct (map fst (oldest_first n at p d))"
    and "(i, r) \<in> set (oldest_first n at p d) \<Longrightarrow> run_of d i = Some r \<and> p r"
    and "length (oldest_first n at p d) = min n (card (due_ids p d))"
proof -
  let ?key = "\<lambda>(i, r). case at r of Some t \<Rightarrow> t | None \<Rightarrow> 0"
  let ?xs = "filter (\<lambda>(i, r). p r) (runs d)"
  have dist: "distinct (map fst ?xs)" using assms by (simp add: distinct_map_filter)
  then have "distinct (map fst (sort_key ?key ?xs))"
    unfolding distinct_map by (auto simp: inj_on_def)
  then show "distinct (map fst (oldest_first n at p d))"
    unfolding oldest_first_def by (metis distinct_take take_map)
  show "run_of d i = Some r \<and> p r" if "(i, r) \<in> set (oldest_first n at p d)"
    using that in_set_takeD [of "(i, r)" n "sort_key ?key ?xs"] assms
    by (auto simp: oldest_first_def map_of_eq_Some_iff)
  have "fst ` set ?xs = due_ids p d"
    using assms by (force simp: due_ids_def map_of_eq_Some_iff)
  then have "card (due_ids p d) = length ?xs"
    using distinct_card [OF dist] by simp
  then show "length (oldest_first n at p d) = min n (card (due_ids p d))"
    by (simp add: oldest_first_def)
qed

section \<open>The interface of a sweep\<close>

locale due_changes =
  fixes change :: "uuid \<times> run \<Rightarrow> bool tx"
    and due :: "run \<Rightarrow> bool"
    and at :: "run \<Rightarrow> time option"
  assumes settles: "db_ok d \<Longrightarrow> run_of d i = Some r \<Longrightarrow> due r \<Longrightarrow>
    \<exists>r' d'. change (i, r) d = Inr (True, d') \<and> db_ok d' \<and> run_of d' = (run_of d)(i \<mapsto> r') \<and> \<not> due r'"
begin

lemma quiet_candidates:
  assumes "db_ok d" and "distinct (map fst cs)" and "\<forall>(i, r) \<in> set cs. run_of d i = Some r \<and> due r"
  shows "\<exists>d'. each_candidate change (\<lambda>_ d. d) cs d = (Inr (map fst cs), d') \<and> db_ok d' \<and>
    due_ids due d' = due_ids due d - set (map fst cs)"
  using assms
proof (induction cs arbitrary: d)
  case Nil
  then show ?case by simp
next
  case (Cons c cs)
  obtain i r where c: "c = (i, r)" by (cases c)
  from Cons.prems c obtain r' d1 where d1: "change (i, r) d = Inr (True, d1)" "db_ok d1"
      "run_of d1 = (run_of d)(i \<mapsto> r')" "\<not> due r'"
    using settles [of d i r] by auto
  have "\<forall>(j, q) \<in> set cs. run_of d1 j = Some q \<and> due q"
    using Cons.prems c d1(3) by (force simp: rev_image_eqI)
  with Cons.prems d1(2) obtain d2 where d2: "each_candidate change (\<lambda>_ d. d) cs d1 = (Inr (map fst cs), d2)" "db_ok d2"
      "due_ids due d2 = due_ids due d1 - set (map fst cs)"
    using Cons.IH [of d1] by auto
  have "due_ids due d1 = due_ids due d - {i}" using d1(3,4) by (auto simp: due_ids_def)
  with c d1(1) d2 show ?case by auto
qed

lemma quiet_batch:
  assumes "db_ok d"
  shows "\<exists>ids d'. each_candidate change (\<lambda>_ d. d) (oldest_first n at due d) d = (Inr ids, d') \<and> db_ok d' \<and>
    length ids = min n (card (due_ids due d)) \<and> distinct ids \<and> set ids \<subseteq> due_ids due d \<and>
    due_ids due d' = due_ids due d - set ids"
proof -
  have keys: "distinct (map fst (runs d))" using assms by (simp add: db_ok_def keys_ok_def)
  note cand = oldest_first_candidates [OF keys, where at = at and n = n and p = due]
  have each: "\<forall>(i, r) \<in> set (oldest_first n at due d). run_of d i = Some r \<and> due r" using cand(2) by blast
  then have "set (map fst (oldest_first n at due d)) \<subseteq> due_ids due d" by (auto simp: due_ids_def)
  then show ?thesis using quiet_candidates [OF assms cand(1) each] cand(1,3) by (metis length_map)
qed

lemma quiet_sweep:
  assumes "db_ok d" and "0 < n" and "card (due_ids due d) \<le> k * n"
  shows "\<exists>reported d'. sweep_batches k n (\<lambda>l d. each_candidate change (\<lambda>_ d. d) (oldest_first l at due d) d) d
      = ((card (due_ids due d), reported, None), d') \<and> db_ok d' \<and> due_ids due d' = {}"
  using assms(1,3)
proof (induction k arbitrary: d)
  case 0
  then show ?case by simp
next
  case (Suc k)
  from quiet_batch [OF Suc.prems(1), of n] obtain ids d1 where
    b: "each_candidate change (\<lambda>_ d. d) (oldest_first n at due d) d = (Inr ids, d1)" "db_ok d1"
      "length ids = min n (card (due_ids due d))" "distinct ids" "set ids \<subseteq> due_ids due d"
      "due_ids due d1 = due_ids due d - set ids" by blast
  have card: "card (due_ids due d1) + length ids = card (due_ids due d)"
  proof -
    have "card (set ids) \<le> card (due_ids due d)" using b(5) by (simp add: card_mono)
    then show ?thesis using b(5,6) distinct_card [OF b(4)] by (simp add: card_Diff_subset)
  qed
  show ?case
  proof (cases "length ids < n")
    case True
    then have "card (due_ids due d1) = 0" using b(3) card by simp
    then show ?thesis using True b(1,2) card by simp
  next
    case False
    then have "card (due_ids due d1) \<le> k * n" using b(3) card Suc.prems(2) by simp
    from Suc.IH [OF b(2) this] obtain reported d2 where
      "sweep_batches k n (\<lambda>l d. each_candidate change (\<lambda>_ d. d) (oldest_first l at due d) d) d1
        = ((card (due_ids due d1), reported, None), d2)" "db_ok d2" "due_ids due d2 = {}" by blast
    with False b(1) card show ?thesis by simp
  qed
qed

end

section \<open>The three changes\<close>

lemma expire_settles:
  assumes "db_ok d" and "run_of d i = Some r" and "expire_due t r"
  shows "\<exists>r' d'. expire_one now (i, r) d = Inr (True, d') \<and> db_ok d' \<and> run_of d' = (run_of d)(i \<mapsto> r') \<and>
    \<not> expire_due t r'"
proof -
  let ?r = "r\<lparr>r_status := CANCELLED, r_cancelledAt := Some now,
    r_controlVersion := r_controlVersion r + 1, r_error := Some expiredError\<rparr>"
  have "db_ok (set_run i ?r d)" using assms(1,2) by (rule db_ok_set_run) simp
  moreover have "expire_one now (i, r) d = Inr (True, set_run i ?r d)"
    using assms by (simp add: expire_one_def updateMany_run_def expire_due_def)
  moreover have "\<not> expire_due t ?r" by (simp add: expire_due_def)
  ultimately show ?thesis by (metis run_of_set_run)
qed

interpretation expiring: due_changes "expire_one now" "expire_due t" r_pausedAt for now t
  by unfold_locales (rule expire_settles)

lemma append_run_of:
  "appendEvent i b d = Inr d' \<Longrightarrow> run_of d i = Some r \<Longrightarrow>
     run_of d' = (run_of d)(i \<mapsto> r\<lparr>r_eventSequence := Suc (r_eventSequence r)\<rparr>)"
  by (auto simp: appendEvent_Inr set_run_def update_conv')

lemma remind_settles:
  assumes "db_ok d" and "run_of d i = Some r" and "remind_due t r"
  shows "\<exists>r' d'. remind_one now (i, r) d = Inr (True, d') \<and> db_ok d' \<and> run_of d' = (run_of d)(i \<mapsto> r') \<and>
    \<not> remind_due t r'"
proof -
  let ?r = "r\<lparr>r_reminderSentAt := Some now\<rparr>"
  let ?b = "ApprovalReminderDue (case r_pausedAt r of Some t \<Rightarrow> t | None \<Rightarrow> now)"
  have ok1: "db_ok (set_run i ?r d)" using assms(1,2) by (rule db_ok_set_run) simp
  have row: "run_of (set_run i ?r d) i = Some ?r" by simp
  obtain d2 where app: "appendEvent i ?b (set_run i ?r d) = Inr d2"
    using appendEvent_total [OF _ row, of ?b ?b] ok1 by (auto simp: db_ok_def validateRunEventPayload_def)
  have "remind_one now (i, r) d = Inr (True, d2)"
    using assms app by (simp add: remind_one_def updateMany_run_def remind_due_def)
  moreover have "db_ok d2" using db_ok_appendEvent [OF ok1 app] .
  moreover have "run_of d2 = (run_of d)(i \<mapsto> ?r\<lparr>r_eventSequence := Suc (r_eventSequence ?r)\<rparr>)"
    by (rule ext) (simp add: append_run_of [OF app row])
  moreover have "\<not> remind_due t (?r\<lparr>r_eventSequence := Suc (r_eventSequence ?r)\<rparr>)"
    by (simp add: remind_due_def)
  ultimately show ?thesis by blast
qed

interpretation reminding: due_changes "remind_one now" "remind_due t" r_pausedAt for now t
  by unfold_locales (rule remind_settles)

lemma redact_frame [simp]:
  "runs (drop_attachments i d) = runs d" "runs (redact_tasks i d) = runs d"
  "events (drop_attachments i d) = events d" "events (redact_tasks i d) = events d"
  "files (drop_attachments i d) = files d" "files (redact_tasks i d) = files d"
  by (simp_all add: drop_attachments_def redact_tasks_def)

lemma task_of_redact:
  "map_of (map (\<lambda>(k, t). (k, if t_runId t = i then t\<lparr>t_input := None, t_output := None\<rparr> else t)) ts) k =
     map_option (\<lambda>t. if t_runId t = i then t\<lparr>t_input := None, t_output := None\<rparr> else t) (map_of ts k)"
  by (simp only: map_of_map o_apply)

lemma tasks_redact:
  "tasks (drop_attachments i (redact_tasks i d)) =
     map (\<lambda>(k, t). (k, if t_runId t = i then t\<lparr>t_input := None, t_output := None\<rparr> else t)) (tasks d)"
  unfolding drop_attachments_def redact_tasks_def by simp

lemma db_ok_redact: "db_ok d \<Longrightarrow> db_ok (drop_attachments i (redact_tasks i d))"
proof -
  let ?e = "drop_attachments i (redact_tasks i d)"
  assume ok: "db_ok d"
  have "events_ok ?e = events_ok d" by (rule events_ok_cong) simp_all
  moreover have "files_ok ?e = files_ok d" by (rule files_ok_cong) simp
  moreover have "keys_ok ?e = keys_ok d"
    by (simp add: keys_ok_def drop_attachments_def redact_tasks_def comp_def split_def image_image)
  moreover have "tasks_ok ?e"
    unfolding tasks_ok_def
  proof (intro allI impI)
    fix k1 k2 t1 t2
    assume a: "task_of ?e k1 = Some t1" "task_of ?e k2 = Some t2" "t_runId t1 = t_runId t2" "t_ordinal t1 = t_ordinal t2"
    let ?f = "\<lambda>t. if t_runId t = i then t\<lparr>t_input := None, t_output := None\<rparr> else t"
    have of_e: "task_of ?e k = map_option ?f (task_of d k)" for k
      unfolding tasks_redact task_of_redact ..
    from a(1,2) obtain u1 u2 where u: "task_of d k1 = Some u1" "t1 = ?f u1" "task_of d k2 = Some u2" "t2 = ?f u2"
      unfolding of_e by blast
    have same: "t_runId (?f u) = t_runId u" "t_ordinal (?f u) = t_ordinal u" for u
      by (cases "t_runId u = i"; simp)+
    have "t_runId u1 = t_runId u2" "t_ordinal u1 = t_ordinal u2"
      using a(3,4) unfolding u(2,4) same by simp_all
    with u(1,3) ok show "k1 = k2" unfolding db_ok_def tasks_ok_def by blast
  qed
  ultimately show ?thesis using ok by (simp add: db_ok_def)
qed

lemma purge_settles:
  assumes "db_ok d" and "run_of d i = Some r" and "purge_due t r"
  shows "\<exists>r' d'. purge_one now (i, r) d = Inr (True, d') \<and> db_ok d' \<and> run_of d' = (run_of d)(i \<mapsto> r') \<and>
    \<not> purge_due t r'"
proof -
  let ?r = "r\<lparr>r_prompt := PURGE_REDACTION_MARKER, r_checkpoint := None, r_purgedAt := Some now\<rparr>"
  let ?b = "RunDataPurged (case r_cancelledAt r of Some t \<Rightarrow> t | None \<Rightarrow> now)"
  let ?d1 = "drop_attachments i (redact_tasks i (set_run i ?r d))"
  have "db_ok (set_run i ?r d)" using assms(1,2) by (rule db_ok_set_run) simp
  then have ok1: "db_ok ?d1" by (rule db_ok_redact)
  have row: "run_of ?d1 i = Some ?r" by simp
  obtain d2 where app: "appendEvent i ?b ?d1 = Inr d2"
    using appendEvent_total [OF _ row, of ?b ?b] ok1 by (auto simp: db_ok_def validateRunEventPayload_def)
  have "purge_one now (i, r) d = Inr (True, d2)"
    using assms app by (simp add: purge_one_def updateMany_run_def purge_due_def)
  moreover have "db_ok d2" using db_ok_appendEvent [OF ok1 app] .
  moreover have "run_of d2 = (run_of d)(i \<mapsto> ?r\<lparr>r_eventSequence := Suc (r_eventSequence ?r)\<rparr>)"
    by (rule ext) (simp add: append_run_of [OF app row])
  moreover have "\<not> purge_due t (?r\<lparr>r_eventSequence := Suc (r_eventSequence ?r)\<rparr>)"
    by (simp add: purge_due_def)
  ultimately show ?thesis by blast
qed

interpretation purging: due_changes "purge_one now" "purge_due t" r_cancelledAt for now t
  by unfold_locales (rule purge_settles)

end
