(* ===== verification/RunLifecycle.thy ===== *)
theory RunLifecycle
  imports ControlApi ExpiryLaws SandboxLaws
begin

text \<open>
  The life of a run under all its actors at once: the HTTP API, the workers and the
  sweepers. \<open>run_edge\<close> is the abstract machine of one run, on its status, control version,
  error and prompt; \<open>system_step\<close> lists the transactions of the code, and every one of them
  is shown to take each run along edges of the machine. What holds along every path of
  the machine then holds for every interleaving of the code.
\<close>

section \<open>The abstract machine of a run\<close>

fun next_statuses :: "run_status \<Rightarrow> run_status list" where
  "next_statuses PENDING = [RUNNING, PAUSED, CANCELLED]"
| "next_statuses RUNNING = [PAUSED, COMPLETED, FAILED, CANCELLED]"
| "next_statuses PAUSED = [PENDING, CANCELLED]"
| "next_statuses FAILED = [PENDING]"
| "next_statuses COMPLETED = []"
| "next_statuses CANCELLED = []"

definition same_identity :: "run \<Rightarrow> run \<Rightarrow> bool" where
  "same_identity r r' \<longleftrightarrow> r_workspaceId r' = r_workspaceId r \<and> r_projectId r' = r_projectId r \<and>
     r_idempotencyKey r' = r_idempotencyKey r"

text \<open>What a status change may do to the error column.\<close>

definition error_moves :: "run \<Rightarrow> run \<Rightarrow> bool" where
  "error_moves r r' \<longleftrightarrow>
     (case r_status r' of
        FAILED \<Rightarrow> True
      | CANCELLED \<Rightarrow> r_error r' = r_error r \<or> (r_status r = PAUSED \<and> r_error r' = Some expiredError)
      | PENDING \<Rightarrow> (if r_status r = FAILED then r_error r' = None else r_error r' = r_error r)
      | _ \<Rightarrow> r_error r' = r_error r)"

definition edge_stay :: "run \<Rightarrow> run \<Rightarrow> bool" where
  "edge_stay r r' \<longleftrightarrow> r_status r' = r_status r \<and> r_controlVersion r' = r_controlVersion r \<and>
     r_error r' = r_error r \<and>
     (r_prompt r' = r_prompt r \<or>
      (r_status r = CANCELLED \<and> expired_error (r_error r) \<and> r_prompt r' = PURGE_REDACTION_MARKER))"

definition edge_unqueued :: "run \<Rightarrow> run \<Rightarrow> bool" where
  "edge_unqueued r r' \<longleftrightarrow> r_status r = PENDING \<and> r_status r' = FAILED \<and>
     r_controlVersion r' = r_controlVersion r \<and> r_prompt r' = r_prompt r"

definition edge_move :: "run \<Rightarrow> run \<Rightarrow> bool" where
  "edge_move r r' \<longleftrightarrow> r_status r' \<in> set (next_statuses (r_status r)) \<and>
     r_controlVersion r' = r_controlVersion r + 1 \<and> r_prompt r' = r_prompt r \<and> error_moves r r'"

definition run_edge :: "run \<Rightarrow> run \<Rightarrow> bool" where
  "run_edge r r' \<longleftrightarrow> same_identity r r' \<and> (edge_stay r r' \<or> edge_unqueued r r' \<or> edge_move r r')"

abbreviation run_path :: "run \<Rightarrow> run \<Rightarrow> bool" where
  "run_path \<equiv> run_edge\<^sup>*\<^sup>*"

lemma same_identity_refl [simp]: "same_identity r r"
  by (simp add: same_identity_def)

lemma same_identity_trans: "same_identity r s \<Longrightarrow> same_identity s t \<Longrightarrow> same_identity r t"
  by (simp add: same_identity_def)

lemma edge_work: "same_run_control r r' \<Longrightarrow> run_edge r r'"
  by (simp add: run_edge_def edge_stay_def same_identity_def same_run_controlD)

lemma path_identity: "run_path r r' \<Longrightarrow> same_identity r r'"
  by (induction rule: rtranclp_induct) (auto simp: run_edge_def intro: same_identity_trans)

text \<open>The version never falls, and at one version a run can only stay or fail unqueued.\<close>

definition behind :: "run \<Rightarrow> run \<Rightarrow> bool" where
  "behind r r' \<longleftrightarrow> r_controlVersion r < r_controlVersion r' \<or>
     (r_controlVersion r = r_controlVersion r' \<and>
      (r_status r' = r_status r \<or> (r_status r = PENDING \<and> r_status r' = FAILED)))"

lemma edge_behind: "run_edge r r' \<Longrightarrow> behind r r'"
  by (auto simp: run_edge_def behind_def edge_stay_def edge_unqueued_def edge_move_def)

lemma behind_trans: "behind r s \<Longrightarrow> behind s t \<Longrightarrow> behind r t"
  by (auto simp: behind_def)

lemma path_behind: "run_path r r' \<Longrightarrow> behind r r'"
  by (induction rule: rtranclp_induct) (auto simp: behind_def [of r r] dest: edge_behind intro: behind_trans)

text \<open>\<open>COMPLETED\<close> and \<open>CANCELLED\<close> are final.\<close>

definition final_status :: "run_status \<Rightarrow> bool" where
  "final_status st \<longleftrightarrow> st = COMPLETED \<or> st = CANCELLED"

lemma edge_final:
  assumes "run_edge r r'" and "final_status (r_status r)"
  shows "r_status r' = r_status r \<and> r_controlVersion r' = r_controlVersion r \<and> r_error r' = r_error r"
  using assms by (auto simp: run_edge_def final_status_def edge_stay_def edge_unqueued_def edge_move_def)

lemma path_final:
  assumes "run_path r r'" and "final_status (r_status r)"
  shows "r_status r' = r_status r \<and> r_controlVersion r' = r_controlVersion r \<and> r_error r' = r_error r"
  using assms by (induction rule: rtranclp_induct) (auto dest: edge_final)

text \<open>The prompt only ever changes by the redaction of an expired run.\<close>

lemma path_prompt:
  assumes "run_path r r'"
  shows "r_prompt r' = r_prompt r \<or>
    (r_status r' = CANCELLED \<and> expired_error (r_error r') \<and> r_prompt r' = PURGE_REDACTION_MARKER)"
  using assms
proof (induction rule: rtranclp_induct)
  case (step s t)
  then show ?case
    using edge_final [OF step.hyps(2)]
    by (auto simp: run_edge_def edge_stay_def edge_unqueued_def edge_move_def final_status_def)
qed simp

text \<open>Outside a failure a run carries no error unless it was cancelled for its age.\<close>

definition error_ok :: "run \<Rightarrow> bool" where
  "error_ok r \<longleftrightarrow> r_status r = FAILED \<or> r_error r = None \<or> (r_status r = CANCELLED \<and> r_error r = Some expiredError)"

lemma edge_error_ok: "run_edge r r' \<Longrightarrow> error_ok r \<Longrightarrow> error_ok r'"
  by (auto simp: run_edge_def edge_stay_def edge_unqueued_def edge_move_def error_ok_def error_moves_def
      split: run_status.splits if_splits)

lemma path_error_ok: "run_path r r' \<Longrightarrow> error_ok r \<Longrightarrow> error_ok r'"
  by (induction rule: rtranclp_induct) (auto dest: edge_error_ok)

section \<open>Stores whose runs moved along the machine\<close>

definition runs_advance :: "db \<Rightarrow> db \<Rightarrow> bool" where
  "runs_advance d d' \<longleftrightarrow> (\<forall>i r. run_of d i = Some r \<longrightarrow> (\<exists>r'. run_of d' i = Some r' \<and> run_path r r'))"

lemma runs_advanceD: "runs_advance d d' \<Longrightarrow> run_of d i = Some r \<Longrightarrow> \<exists>r'. run_of d' i = Some r' \<and> run_path r r'"
  by (simp add: runs_advance_def)

lemma runs_advance_refl [simp]: "runs_advance d d"
  by (simp add: runs_advance_def)

lemma runs_advance_trans: "runs_advance d d1 \<Longrightarrow> runs_advance d1 d2 \<Longrightarrow> runs_advance d d2"
  unfolding runs_advance_def by (meson rtranclp_trans)

lemma runs_advance_kept:
  assumes "runs_kept d d'"
  shows "runs_advance d d'"
  unfolding runs_advance_def
proof (intro allI impI)
  fix i r
  assume "run_of d i = Some r"
  moreover have "rel_option same_run_control (run_of d i) (run_of d' i)" using assms by (simp add: runs_kept_def)
  ultimately obtain r' where "run_of d' i = Some r'" "same_run_control r r'" by (cases "run_of d' i") auto
  then show "\<exists>r'. run_of d' i = Some r' \<and> run_path r r'" using edge_work by blast
qed

lemma runs_advance_set_run:
  assumes "run_of d i = Some r" and "run_edge r r'"
  shows "runs_advance d (set_run i r' d)"
  unfolding runs_advance_def using assms by auto

lemma runs_advance_update:
  assumes "updateMany_run i q f d = (n, d')" and "\<And>r. run_of d i = Some r \<Longrightarrow> q r \<Longrightarrow> run_edge r (f r)"
  shows "runs_advance d d'"
  using assms by (auto simp: updateMany_run_def split: option.splits if_splits intro: runs_advance_set_run)

lemma runs_advance_runs: "runs d' = runs d \<Longrightarrow> runs_advance d d'"
  by (simp add: runs_advance_def)

text \<open>What a step of the system has to keep: the store invariant and the machine.\<close>

definition sys_ok :: "db \<Rightarrow> db \<Rightarrow> bool" where
  "sys_ok d d' \<longleftrightarrow> (db_ok d \<longrightarrow> db_ok d' \<and> runs_advance d d') \<and> dom (run_of d') = dom (run_of d)"

lemma sys_ok_refl [simp]: "sys_ok d d"
  by (simp add: sys_ok_def)

lemma sys_ok_trans: "sys_ok d d1 \<Longrightarrow> sys_ok d1 d2 \<Longrightarrow> sys_ok d d2"
  unfolding sys_ok_def using runs_advance_trans by blast

lemma runs_kept_dom: "runs_kept d d' \<Longrightarrow> dom (run_of d') = dom (run_of d)"
proof -
  assume "runs_kept d d'"
  then have "rel_option same_run_control (run_of d i) (run_of d' i)" for i by (simp add: runs_kept_def)
  then have "run_of d' i = None \<longleftrightarrow> run_of d i = None" for i
    by (metis option.rel_sel)
  then show ?thesis by (simp add: dom_def)
qed

lemma sys_ok_good: "good_step i d d' \<Longrightarrow> sys_ok d d'"
  by (simp add: sys_ok_def good_step_def runs_advance_kept runs_kept_dom)

lemma sys_ok_append: "appendEvent i b d = Inr d' \<Longrightarrow> sys_ok d d'"
  by (rule sys_ok_good) (rule good_appendEvent)

lemma sys_ok_fenced: "fenced_transaction f i cv st \<Longrightarrow> f d = Inr (x, d') \<Longrightarrow> sys_ok d d'"
  by (simp add: sys_ok_def fenced_transaction.keeps_ok fenced_transaction.keeps_runs runs_advance_kept runs_kept_dom)

lemma updateMany_run_dom: "updateMany_run i q f d = (n, d') \<Longrightarrow> dom (run_of d') = dom (run_of d)"
  by (auto simp: updateMany_run_def split: option.splits if_splits)

lemma sys_ok_update:
  assumes "updateMany_run i q f d = (n, d')"
    and "\<And>r. run_of d i = Some r \<Longrightarrow> q r \<Longrightarrow> run_edge r (f r)"
    and "\<And>r. r_eventSequence (f r) = r_eventSequence r"
  shows "sys_ok d d'"
  unfolding sys_ok_def
  using runs_advance_update [OF assms(1,2)] db_ok_updateMany_run [OF _ assms(1,3)] updateMany_run_dom [OF assms(1)]
  by blast

end
