(* ===== verification/SystemSteps.thy ===== *)
theory SystemSteps
  imports RunLifecycle
begin

text \<open>
  The transactions of the whole system as one relation, and the proof that every run of the
  system moves each run along the machine of \<open>RunLifecycle\<close> and keeps the store invariant.
\<close>

section \<open>Transactions of a worker\<close>

inductive worker_step :: "db \<Rightarrow> db \<Rightarrow> bool" where
  w_prepare: "prepareTask p d = Inr (x, d') \<Longrightarrow> worker_step d d'"
| w_skip: "skipTask p d = Inr (x, d') \<Longrightarrow> worker_step d d'"
| w_start: "startTask i cv k now d = Inr (x, d') \<Longrightarrow> worker_step d d'"
| w_complete: "completeTask X q d = Inr (y, d') \<Longrightarrow> worker_step d d'"
| w_fail: "failTask i cv k err now d = Inr (b, d') \<Longrightarrow> worker_step d d'"
| w_apply: "applyGeneratedFiles i cv fs now d = Inr (z, d') \<Longrightarrow> worker_step d d'"
| w_sandbox: "sandbox_step d d' \<Longrightarrow> worker_step d d'"
| w_pause: "requestApproval i cv sc reason now d = Inr (b, d') \<Longrightarrow> worker_step d d'"
| w_done: "completeRun i cv now d = Inr (b, d') \<Longrightarrow> worker_step d d'"
| w_failed: "failRun i cv err now d = Inr (b, d') \<Longrightarrow> worker_step d d'"

lemma sys_ok_tail: "sys_ok d d1 \<Longrightarrow> d' = d1 \<or> appendEvent i b d1 = Inr d' \<Longrightarrow> sys_ok d d'"
  using sys_ok_append sys_ok_trans by blast

lemma sys_ok_set_session: "session_of d k = Some s \<Longrightarrow> sys_ok d (set_session k s' d)"
  by (rule sys_ok_good [of 0]) (rule good_set_session)

lemma sys_ok_set_preview: "sys_ok d (set_preview k p d)"
  by (rule sys_ok_good [of 0]) (rule good_set_preview)

lemma sys_ok_updateMany_session: "updateMany_session k q f d = (n, d') \<Longrightarrow> sys_ok d d'"
  by (rule sys_ok_good [of 0]) (rule good_updateMany_session)

lemma sys_ok_create_session: "create_session s d = Inr (k, d') \<Longrightarrow> sys_ok d d'"
  by (rule sys_ok_good [of 0]) (rule good_create_session)

lemma sys_ok_sandbox: "sandbox_step d d' \<Longrightarrow> sys_ok d d'"
proof (induction rule: sandbox_step.induct)
  case (create p d x d')
  then show ?case by (blast intro: sys_ok_good good_createSandboxSession)
next
  case (restored i cv sid now d b d')
  then show ?case by (blast intro: sys_ok_good good_markSandboxFilesRestored)
next
  case (command c d b d')
  then show ?case by (blast intro: sys_ok_good good_recordSandboxCommand)
next
  case (ready r d b d')
  then show ?case by (blast intro: sys_ok_good good_recordPreviewReady)
next
  case (failed sid err now d u d')
  obtain n e where u: "updateMany_session sid (\<lambda>_. True)
      (\<lambda>s. s\<lparr>s_status := S_FAILED, s_error := Some err, s_terminatedAt := Some now\<rparr>) d = (n, e)"
    by (rule prod.exhaust)
  with failed show ?case by (auto simp: markSandboxFailed_def intro: sys_ok_updateMany_session)
next
  case (stopped sid now d u d')
  then show ?case
    by (auto simp: markPreviewStopped_def Let_def bind_res_Inr_iff split: option.splits
        intro: sys_ok_set_session sys_ok_append sys_ok_trans [OF sys_ok_trans [OF sys_ok_set_session sys_ok_set_preview] sys_ok_append])
next
  case (reopen o' d k d')
  then show ?case
    by (auto simp: createPreviewReopenSession_def bind_res_Inr_iff split: option.splits if_splits
        intro: sys_ok_create_session)
next
  case (reopened q d u d')
  then show ?case
    by (auto simp: recordPreviewReopened_def Let_def bind_res_Inr_iff split: option.splits if_splits
        intro: sys_ok_set_session sys_ok_append sys_ok_trans [OF sys_ok_trans [OF sys_ok_set_session sys_ok_set_preview] sys_ok_append])
next
  case (reopen_failed i so err now d u d')
  show ?case
  proof (cases so)
    case None
    with reopen_failed show ?thesis
      by (auto simp: recordPreviewReopenFailed_def bind_res_Inr_iff intro: sys_ok_append)
  next
    case (Some k)
    obtain n e where u: "updateMany_session k (\<lambda>_. True)
        (\<lambda>s. s\<lparr>s_status := S_FAILED, s_error := Some err, s_terminatedAt := Some now\<rparr>) d = (n, e)"
      by (rule prod.exhaust)
    with reopen_failed Some show ?thesis
      by (auto simp: recordPreviewReopenFailed_def bind_res_Inr_iff
          intro: sys_ok_trans [OF sys_ok_updateMany_session [OF u] sys_ok_append])
  qed
qed

text \<open>The three ways in which a worker ends its hold on a run.\<close>

lemmas machine_defs = run_edge_def edge_stay_def edge_unqueued_def edge_move_def error_moves_def same_identity_def

lemma sys_ok_requestApproval:
  assumes "requestApproval i cv sc reason now d = Inr (b, d')"
  shows "sys_ok d d'"
proof -
  obtain n d1 where u: "updateMany_run i (\<lambda>r. r_status r = RUNNING \<and> r_controlVersion r = cv)
      (\<lambda>r. r\<lparr>r_status := PAUSED, r_controlVersion := r_controlVersion r + 1,
             r_pausedAt := Some now, r_lastHeartbeatAt := Some now\<rparr>) d = (n, d1)"
    by (rule prod.exhaust)
  have ok1: "sys_ok d d1" by (rule sys_ok_update [OF u]) (auto simp: machine_defs)
  from assms u have "d' = d1 \<or> (\<exists>e. appendEvent i e d1 = Inr d')"
    by (auto simp: requestApproval_def bind_res_Inr_iff split: if_splits)
  with ok1 show ?thesis using sys_ok_tail by blast
qed

lemma sys_ok_completeRun:
  assumes "completeRun i cv now d = Inr (b, d')"
  shows "sys_ok d d'"
proof -
  obtain n d1 where u: "updateMany_run i (\<lambda>r. r_status r = RUNNING \<and> r_controlVersion r = cv)
      (\<lambda>r. r\<lparr>r_status := COMPLETED, r_controlVersion := r_controlVersion r + 1,
             r_completedAt := Some now, r_lastHeartbeatAt := Some now\<rparr>) d = (n, d1)"
    by (rule prod.exhaust)
  have ok1: "sys_ok d d1" by (rule sys_ok_update [OF u]) (auto simp: machine_defs)
  from assms u have "d' = d1 \<or> (\<exists>e. appendEvent i e d1 = Inr d')"
    by (auto simp: completeRun_def bind_res_Inr_iff split: if_splits)
  with ok1 show ?thesis using sys_ok_tail by blast
qed

lemma sys_ok_failRun:
  assumes "failRun i cv err now d = Inr (b, d')"
  shows "sys_ok d d'"
proof -
  obtain n d1 where u: "updateMany_run i (\<lambda>r. r_status r = RUNNING \<and> r_controlVersion r = cv)
      (\<lambda>r. r\<lparr>r_status := FAILED, r_controlVersion := r_controlVersion r + 1,
             r_error := Some err, r_completedAt := Some now, r_lastHeartbeatAt := Some now\<rparr>) d = (n, d1)"
    by (rule prod.exhaust)
  have ok1: "sys_ok d d1" by (rule sys_ok_update [OF u]) (auto simp: machine_defs)
  from assms u have "d' = d1 \<or> (\<exists>e. appendEvent i e d1 = Inr d')"
    by (auto simp: failRun_def bind_res_Inr_iff split: if_splits)
  with ok1 show ?thesis using sys_ok_tail by blast
qed

lemma sys_ok_worker: "worker_step d d' \<Longrightarrow> sys_ok d d'"
  by (induction rule: worker_step.induct)
     (blast intro: sys_ok_good good_prepareTask good_skipTask good_startTask good_completeTask good_failTask
       good_applyGeneratedFiles sys_ok_sandbox sys_ok_requestApproval sys_ok_completeRun sys_ok_failRun)+

section \<open>Transactions of the API and the sweepers\<close>

lemma resolveRunTransition_edge:
  assumes "resolveRunTransition a st now = Inr (patch, enqueue)" and "r_status r = st"
  shows "run_edge r (apply_patch patch r)"
  using assms
  by (cases a; cases st)
     (auto simp: resolveRunTransition_def machine_defs apply_patch_def or_keep_def no_patch_def split: if_splits)

lemma sys_ok_control:
  assumes "resolveRunTransition a st now = Inr (patch, enqueue)"
    and "updateMany_run i (\<lambda>r. r_status r = st \<and> r_controlVersion r = cv) (apply_patch patch) d = (n, d')"
  shows "sys_ok d d'"
  by (rule sys_ok_update [OF assms(2)])
     (rule resolveRunTransition_edge [OF assms(1)], simp, simp add: apply_patch_def)

lemma sys_ok_markRunFailed: "sys_ok d (markRunFailed i cv err now d)"
proof -
  obtain n d1 where u: "updateMany_run i (\<lambda>r. r_status r = PENDING \<and> r_controlVersion r = cv)
      (\<lambda>r. r\<lparr>r_status := FAILED, r_completedAt := Some now, r_error := Some err\<rparr>) d = (n, d1)"
    by (rule prod.exhaust)
  have "sys_ok d d1" by (rule sys_ok_update [OF u]) (auto simp: machine_defs)
  then show ?thesis using u by (simp add: markRunFailed_def)
qed

text \<open>The write of \<open>claimRun\<close>, reached when the row it read earlier was pending for the job.\<close>

definition claim_tx :: "run_job \<Rightarrow> run \<Rightarrow> time \<Rightarrow> claim_result tx" where
  "claim_tx job cur now d =
     (let (n, d1) = updateMany_run (job_runId job)
            (\<lambda>r. r_status r = PENDING \<and> r_controlVersion r = job_controlVersion job)
            (\<lambda>r. r\<lparr>r_status := RUNNING, r_controlVersion := r_controlVersion r + 1,
                   r_startedAt := Some (case r_startedAt cur of Some t \<Rightarrow> t | None \<Rightarrow> now),
                   r_lastHeartbeatAt := Some now\<rparr>) d
      in case run_of d1 (job_runId job) of
           None \<Rightarrow> Inl (PrismaError ''P2025'')
         | Some r \<Rightarrow>
             (if n \<noteq> 1 then Inr (Stale (r_status r) (r_controlVersion r), d1)
              else bind_res (appendEvent (job_runId job)
                     (RunStatusChanged PENDING RUNNING (job_command job) (r_controlVersion r)) d1)
                   (\<lambda>d2. Inr (Ready (toRunExecutionRecord (job_runId job) r), d2))))"

lemma claimRun_reads_then_writes:
  "claimRun env job now d =
     (case run_of d (job_runId job) of
        None \<Rightarrow> Inr (Missing, d)
      | Some cur \<Rightarrow>
          (if r_status cur = RUNNING \<and> r_controlVersion cur = job_controlVersion job + 1
           then Inr (Ready (toRunExecutionRecord (job_runId job) cur), d)
           else if r_status cur \<noteq> PENDING \<or> r_controlVersion cur \<noteq> job_controlVersion job
           then Inr (Stale (r_status cur) (r_controlVersion cur), d)
           else claim_tx job cur now (env d)))"
  by (simp only: claimRun_def claim_tx_def)

lemma sys_ok_claim:
  assumes "claim_tx job cur now d = Inr (x, d')"
  shows "sys_ok d d'"
proof -
  obtain n d1 where u: "updateMany_run (job_runId job)
      (\<lambda>r. r_status r = PENDING \<and> r_controlVersion r = job_controlVersion job)
      (\<lambda>r. r\<lparr>r_status := RUNNING, r_controlVersion := r_controlVersion r + 1,
             r_startedAt := Some (case r_startedAt cur of Some t \<Rightarrow> t | None \<Rightarrow> now),
             r_lastHeartbeatAt := Some now\<rparr>) d = (n, d1)"
    by (rule prod.exhaust)
  have ok1: "sys_ok d d1" by (rule sys_ok_update [OF u]) (auto simp: machine_defs)
  from assms u have "d' = d1 \<or> (\<exists>b. appendEvent (job_runId job) b d1 = Inr d')"
    by (auto simp: claim_tx_def bind_res_Inr_iff split: option.splits if_splits)
  with ok1 show ?thesis using sys_ok_tail by blast
qed

lemma sys_ok_expire:
  assumes "expire_one now c d = Inr (b, d')"
  shows "sys_ok d d'"
proof -
  obtain n d1 where u: "updateMany_run (fst c)
      (\<lambda>r. r_status r = PAUSED \<and> r_controlVersion r = r_controlVersion (snd c))
      (\<lambda>r. r\<lparr>r_status := CANCELLED, r_cancelledAt := Some now,
             r_controlVersion := r_controlVersion r + 1, r_error := Some expiredError\<rparr>) d = (n, d1)"
    by (rule prod.exhaust)
  have "sys_ok d d1" by (rule sys_ok_update [OF u]) (auto simp: machine_defs)
  with assms u show ?thesis by (simp add: expire_one_def)
qed

lemma sys_ok_remind:
  assumes "remind_one now c d = Inr (b, d')"
  shows "sys_ok d d'"
proof -
  obtain n d1 where u: "updateMany_run (fst c) (\<lambda>r. r_status r = PAUSED \<and> r_reminderSentAt r = None)
      (\<lambda>r. r\<lparr>r_reminderSentAt := Some now\<rparr>) d = (n, d1)"
    by (rule prod.exhaust)
  have ok1: "sys_ok d d1" by (rule sys_ok_update [OF u]) (auto simp: machine_defs)
  from assms u have "d' = d1 \<or> (\<exists>b. appendEvent (fst c) b d1 = Inr d')"
    by (auto simp: remind_one_def bind_res_Inr_iff split: if_splits)
  with ok1 show ?thesis using sys_ok_tail by blast
qed

lemma sys_ok_redact: "sys_ok d (drop_attachments i (redact_tasks i d))"
  by (simp add: sys_ok_def db_ok_redact runs_advance_runs)

text \<open>The purge only asks for \<open>CANCELLED\<close>; that the run is expired was read before.\<close>

lemma sys_ok_purge:
  assumes "purge_one now (i, r0) d = Inr (b, d')"
    and "\<And>r. run_of d i = Some r \<Longrightarrow> r_status r = CANCELLED \<Longrightarrow> expired_error (r_error r)"
  shows "sys_ok d d'"
proof -
  obtain n d1 where u: "updateMany_run i (\<lambda>r. r_status r = CANCELLED \<and> r_purgedAt r = None)
      (\<lambda>r. r\<lparr>r_prompt := PURGE_REDACTION_MARKER, r_checkpoint := None, r_purgedAt := Some now\<rparr>) d = (n, d1)"
    by (rule prod.exhaust)
  have "sys_ok d d1" by (rule sys_ok_update [OF u]) (auto simp: machine_defs assms(2))
  from assms(1) u have "d' = d1 \<or> (\<exists>b. appendEvent i b (drop_attachments i (redact_tasks i d1)) = Inr d')"
    by (auto simp: purge_one_def bind_res_Inr_iff split: if_splits)
  with \<open>sys_ok d d1\<close> show ?thesis
    using sys_ok_tail sys_ok_trans [OF _ sys_ok_redact] by blast
qed

end
