(* ===== verification/SystemProperties.thy ===== *)
theory SystemProperties
  imports SystemSteps
begin

text \<open>
  Every interleaving of the API, the workers and the sweepers, as the relation \<open>system\<close>
  between an earlier and a later store, and what holds along it: the machine of a run, the
  uniqueness of idempotency keys, the fate of stale jobs and of prompts.
\<close>

section \<open>Steps that add rows\<close>

lemma sys_ok_put_file:
  assumes "put_file_tx u pid f d = Inr (x, d')"
  shows "sys_ok d d'"
proof -
  let ?latest = "latest_file pid (gf_path f) d"
  let ?row = "\<lparr>pf_projectId = pid, pf_path = gf_path f, pf_content = gf_content f,
    pf_version = (case map_option pf_version ?latest of None \<Rightarrow> 0 | Some v \<Rightarrow> v) + 1\<rparr>"
  have next_v: "pf_version ?row = Suc (current_version (pf_projectId ?row) (pf_path ?row) d)"
    by (simp add: current_version_def split: option.split)
  from assms have "d' = d \<or> create_file ?row d = Inr d'"
    by (auto simp: put_file_tx_def Let_def bind_res_Inr_iff split: if_splits)
  then show ?thesis
  proof
    assume c: "create_file ?row d = Inr d'"
    then have "runs d' = runs d" by (auto simp: create_file_Inr)
    then show ?thesis using db_ok_create_file [OF _ c next_v] by (simp add: sys_ok_def runs_advance_runs)
  qed simp
qed

lemma sys_ok_insert_project:
  assumes "insert_project p d = Inr (x, d')"
  shows "sys_ok d d'"
proof -
  from assms have d': "d' = d\<lparr>projects := AList.update (next_id d) p (projects d), next_id := Suc (next_id d)\<rparr>"
    by (auto simp: insert_project_def split: if_splits)
  have "db_ok d'" if "db_ok d"
  proof -
    have "events_ok d' = events_ok d" by (rule events_ok_cong) (simp_all add: d')
    moreover have "files_ok d' = files_ok d" by (rule files_ok_cong) (simp add: d')
    moreover have "tasks_ok d' = tasks_ok d" by (rule tasks_ok_cong) (simp add: d')
    moreover have "keys_ok d \<Longrightarrow> keys_ok d'" by (auto simp: d' keys_ok_def less_Suc_eq)
    ultimately show ?thesis using that by (simp add: db_ok_def)
  qed
  then show ?thesis by (simp add: sys_ok_def d' runs_advance_runs)
qed

lemma insert_run_Inr:
  "insert_run r d = Inr (i, d') \<longleftrightarrow> map_of (projects d) (r_projectId r) \<noteq> None \<and>
     (\<forall>(j, q) \<in> set (runs d). r_projectId q = r_projectId r \<longrightarrow> r_idempotencyKey r \<noteq> None \<longrightarrow>
        r_idempotencyKey q \<noteq> r_idempotencyKey r) \<and>
     i = next_id d \<and> d' = (set_run (next_id d) r d)\<lparr>next_id := Suc (next_id d)\<rparr>"
  by (auto simp: insert_run_def list_ex_iff)

lemma fresh_run: "db_ok d \<Longrightarrow> run_of d (next_id d) = None"
  by (auto simp: db_ok_def keys_ok_def map_of_eq_None_iff)

lemma db_ok_insert_run:
  assumes "insert_run r d = Inr (i, d')" and "r_eventSequence r = 0" and ok: "db_ok d"
  shows "db_ok d'"
proof -
  have d': "d' = (set_run (next_id d) r d)\<lparr>next_id := Suc (next_id d)\<rparr>"
    using assms(1) by (simp add: insert_run_Inr)
  have "events_ok d'"
    unfolding events_ok_def
  proof (intro allI)
    fix j
    have "map e_sequence (filter (\<lambda>e. e_runId e = j) (events d)) =
        (case run_of d j of None \<Rightarrow> [] | Some r \<Rightarrow> [1..<Suc (r_eventSequence r)])"
      using ok by (simp add: db_ok_def events_ok_def)
    then show "map e_sequence (filter (\<lambda>e. e_runId e = j) (events d')) =
        (case run_of d' j of None \<Rightarrow> [] | Some r \<Rightarrow> [1..<Suc (r_eventSequence r)])"
      using assms(2) fresh_run [OF ok] by (simp add: d' set_run_def update_conv')
  qed
  moreover have "files_ok d' = files_ok d" by (rule files_ok_cong) (simp add: d')
  moreover have "tasks_ok d' = tasks_ok d" by (rule tasks_ok_cong) (simp add: d')
  moreover have "keys_ok d'"
    using ok by (auto simp: db_ok_def d' keys_ok_def set_run_def fst_set_update distinct_update less_Suc_eq)
  ultimately show ?thesis using ok by (simp add: db_ok_def)
qed

text \<open>Idempotency keys are unique per project.\<close>

definition keys_unique :: "db \<Rightarrow> bool" where
  "keys_unique d \<longleftrightarrow> (\<forall>i j r q k. run_of d i = Some r \<longrightarrow> run_of d j = Some q \<longrightarrow>
     r_projectId r = r_projectId q \<longrightarrow> r_idempotencyKey r = Some k \<longrightarrow> r_idempotencyKey q = Some k \<longrightarrow> i = j)"

definition sys_inv :: "db \<Rightarrow> bool" where
  "sys_inv d \<longleftrightarrow> db_ok d \<and> keys_unique d"

definition sys_move :: "db \<Rightarrow> db \<Rightarrow> bool" where
  "sys_move d d' \<longleftrightarrow> (sys_inv d \<longrightarrow> sys_inv d' \<and> runs_advance d d')"

lemma sys_move_refl [simp]: "sys_move d d"
  by (simp add: sys_move_def)

lemma sys_move_trans: "sys_move d d1 \<Longrightarrow> sys_move d1 d2 \<Longrightarrow> sys_move d d2"
  unfolding sys_move_def using runs_advance_trans by blast

lemma advance_same_identity:
  assumes "runs_advance d d'" and "dom (run_of d') = dom (run_of d)" and "run_of d' i = Some r'"
  shows "\<exists>r. run_of d i = Some r \<and> same_identity r r'"
proof -
  from assms(2,3) have "i \<in> dom (run_of d)" by blast
  then obtain r where r: "run_of d i = Some r" by blast
  from runs_advanceD [OF assms(1) r] assms(3) path_identity r show ?thesis by auto
qed

lemma sys_move_ok: "sys_ok d d' \<Longrightarrow> sys_move d d'"
proof -
  assume ok: "sys_ok d d'"
  have "keys_unique d'" if "db_ok d" "keys_unique d"
  proof -
    have "runs_advance d d'" "dom (run_of d') = dom (run_of d)" using ok that(1) by (auto simp: sys_ok_def)
    note orig = advance_same_identity [OF this]
    show ?thesis unfolding keys_unique_def
    proof (intro allI impI)
      fix i j r q k
      assume a: "run_of d' i = Some r" "run_of d' j = Some q" "r_projectId r = r_projectId q"
        "r_idempotencyKey r = Some k" "r_idempotencyKey q = Some k"
      from orig [OF a(1)] orig [OF a(2)] a(3-5) that(2) show "i = j"
        unfolding keys_unique_def same_identity_def by metis
    qed
  qed
  with ok show ?thesis by (simp add: sys_move_def sys_inv_def sys_ok_def)
qed

lemma sys_move_insert_run:
  assumes ins: "insert_run r d = Inr (i, d')" and seq: "r_eventSequence r = 0"
  shows "sys_move d d'"
proof -
  have d': "d' = (set_run (next_id d) r d)\<lparr>next_id := Suc (next_id d)\<rparr>" using ins by (simp add: insert_run_Inr)
  then have of_d': "run_of d' = (run_of d)(next_id d \<mapsto> r)" by (intro ext) (simp add: set_run_def update_conv')
  have "sys_inv d' \<and> runs_advance d d'" if "sys_inv d"
  proof -
    have ok: "db_ok d" "keys_unique d" using that by (auto simp: sys_inv_def)
    have other: "r_idempotencyKey q \<noteq> r_idempotencyKey r"
      if "run_of d j = Some q" "r_projectId q = r_projectId r" "r_idempotencyKey r \<noteq> None" for j q
      using ins that map_of_SomeD [OF that(1)] unfolding insert_run_Inr by blast
    have "keys_unique d'" unfolding keys_unique_def
    proof (intro allI impI)
      fix a b ra rb k
      assume a: "run_of d' a = Some ra" "run_of d' b = Some rb" "r_projectId ra = r_projectId rb"
        "r_idempotencyKey ra = Some k" "r_idempotencyKey rb = Some k"
      consider "a = next_id d" "b = next_id d" | "a = next_id d" "b \<noteq> next_id d" | "a \<noteq> next_id d" "b = next_id d"
        | "a \<noteq> next_id d" "b \<noteq> next_id d" by blast
      then show "a = b"
      proof cases
        case 2
        then have "ra = r" "run_of d b = Some rb" using a of_d' by auto
        with other [of b rb] a show ?thesis by auto
      next
        case 3
        then have "rb = r" "run_of d a = Some ra" using a of_d' by auto
        with other [of a ra] a show ?thesis by auto
      next
        case 4
        then have "run_of d a = Some ra" "run_of d b = Some rb" using a of_d' by auto
        with ok(2) a show ?thesis unfolding keys_unique_def by blast
      qed simp
    qed
    moreover have "db_ok d'" using db_ok_insert_run [OF ins seq ok(1)] .
    moreover have "runs_advance d d'"
      using fresh_run [OF ok(1)] by (auto simp: runs_advance_def of_d')
    ultimately show ?thesis by (simp add: sys_inv_def)
  qed
  then show ?thesis by (simp add: sys_move_def)
qed

lemma sys_ok_run_attachments: "sys_ok d (d\<lparr>run_attachments := rows\<rparr>)"
  by (rule sys_ok_good [of 0]) (rule good_step_other, simp_all)

text \<open>The committed part of creating a run.\<close>

definition create_commit ::
    "(uuid \<times> attachment) list \<Rightarrow> run \<Rightarrow> db \<Rightarrow> repo_error + uuid \<times> db" where
  "create_commit atts r d =
     bind_res (lift_repo (insert_run r d)) (\<lambda>(i, d1).
     bind_res (map_res (attachment_row i) atts) (\<lambda>rows.
     Inr (i, d1\<lparr>run_attachments := run_attachments d1 @ rows\<rparr>)))"

lemma sys_move_create:
  assumes "create_commit atts (new_run pid w prompt key) d = Inr (i, d')"
  shows "sys_move d d'"
proof -
  from assms obtain d1 rows where ins: "insert_run (new_run pid w prompt key) d = Inr (i, d1)"
    and d': "d' = d1\<lparr>run_attachments := rows\<rparr>"
    by (auto simp: create_commit_def bind_res_Inr_iff lift_repo_def split: sum.splits)
  have "sys_move d d1" by (rule sys_move_insert_run [OF ins]) (simp add: new_run_def)
  moreover have "sys_move d1 d'" unfolding d' by (rule sys_move_ok) (rule sys_ok_run_attachments)
  ultimately show ?thesis by (rule sys_move_trans)
qed

section \<open>The system\<close>

inductive system :: "db \<Rightarrow> db \<Rightarrow> bool" where
  sys_start: "system d d"
| sys_worker: "system a d \<Longrightarrow> worker_step d d' \<Longrightarrow> system a d'"
| sys_claim: "system a d \<Longrightarrow> claim_tx job cur now d = Inr (c, d') \<Longrightarrow> system a d'"
| sys_control: "system a d \<Longrightarrow> resolveRunTransition act st now = Inr (patch, enqueue) \<Longrightarrow>
    updateMany_run i (\<lambda>r. r_status r = st \<and> r_controlVersion r = cv) (apply_patch patch) d = (n, d') \<Longrightarrow> system a d'"
| sys_unqueued: "system a d \<Longrightarrow> system a (markRunFailed i cv err now d)"
| sys_create: "system a d \<Longrightarrow> create_commit atts (new_run pid w prompt key) d = Inr (i, d') \<Longrightarrow> system a d'"
| sys_file: "system a d \<Longrightarrow> put_file_tx u pid f d = Inr (x, d') \<Longrightarrow> system a d'"
| sys_project: "system a d \<Longrightarrow> insert_project p d = Inr (y, d') \<Longrightarrow> system a d'"
| sys_plan: "system a d \<Longrightarrow> updateWorkspacePlan w plan d = Inr (z, d') \<Longrightarrow> system a d'"
| sys_expire: "system a d \<Longrightarrow> expire_one now (i, r0) d = Inr (b, d') \<Longrightarrow> system a d'"
| sys_remind: "system a d \<Longrightarrow> remind_one now (i, r0) d = Inr (b, d') \<Longrightarrow> system a d'"
| sys_purge: "system a d0 \<Longrightarrow> system d0 d \<Longrightarrow> run_of d0 i = Some r0 \<Longrightarrow> purge_due t r0 \<Longrightarrow>
    purge_one now (i, r0) d = Inr (b, d') \<Longrightarrow> system a d'"

lemma system_trans: "system d1 d2 \<Longrightarrow> system d d1 \<Longrightarrow> system d d2"
  by (induction rule: system.induct) (blast intro: system.intros)+

lemma sys_ok_plan: "updateWorkspacePlan w plan d = Inr (z, d') \<Longrightarrow> sys_ok d d'"
  by (rule sys_ok_good [of 0], rule good_step_other)
     (auto simp: updateWorkspacePlan_def split: option.splits)

lemma system_move: "system a d \<Longrightarrow> sys_move a d"
proof (induction rule: system.induct)
  case (sys_purge a d0 d i r0 t now b d')
  show ?case
  proof (cases "sys_inv a")
    case True
    with sys_purge.IH(1) have inv0: "sys_inv d0" by (simp add: sys_move_def)
    with sys_purge.IH(2) have adv: "sys_inv d" "runs_advance d0 d" by (auto simp: sys_move_def)
    from runs_advanceD [OF adv(2) sys_purge.hyps(3)] obtain r where
      r: "run_of d i = Some r" "run_path r0 r" by blast
    have "r_error r = r_error r0"
      using path_final [OF r(2)] sys_purge.hyps(4) by (simp add: purge_due_def final_status_def)
    then have "sys_ok d d'"
      using sys_purge.hyps(4,5) r by (intro sys_ok_purge) (auto simp: purge_due_def)
    with sys_purge.IH show ?thesis using sys_move_ok sys_move_trans by blast
  qed (simp add: sys_move_def)
qed (blast intro: sys_move_trans sys_move_ok sys_ok_worker sys_ok_claim sys_ok_control sys_ok_markRunFailed
       sys_move_create sys_ok_put_file sys_ok_insert_project sys_ok_plan sys_ok_expire sys_ok_remind sys_move_refl)+

end
