(* ===== verification/SystemActors.thy ===== *)
theory SystemActors
  imports SystemProperties
begin

text \<open>
  The operations of the code, with the interference they allow, are paths of \<open>system\<close>: if
  the other actors move the store along \<open>system\<close>, so does the operation. The laws of
  \<open>system\<close> therefore hold for every interleaving of them, at the grain of their statements.
\<close>

definition env_system :: "(db \<Rightarrow> db) \<Rightarrow> bool" where
  "env_system env \<longleftrightarrow> (\<forall>x. system x (env x))"

lemma env_systemD: "env_system env \<Longrightarrow> system x (env x)"
  by (simp add: env_system_def)

lemma env_system_id [simp]: "env_system (\<lambda>x. x)"
  by (simp add: env_system_def sys_start)

lemma system_claimRun:
  assumes "env_system env" and "claimRun env job now d = Inr (c, d')"
  shows "system d d'"
  using assms sys_claim [OF env_systemD [OF assms(1)]]
  by (auto simp: claimRun_reads_then_writes sys_start split: option.splits if_splits)

lemma create_run_tx_commit:
  assumes "create_run_tx env u pid prompt key ids d = Inr (res, d')"
  shows "(d' = d \<and> (res = CreateProjectNotFound \<or>
      (\<exists>i q. run_with_key pid key d = Some (i, q) \<and> res = replay_run i q prompt ids d))) \<or>
    (\<exists>p i. getProject u pid d = Some p \<and> run_with_key pid key d = None \<and>
       create_commit (clean_attachments pid (pj_workspaceId p) ids d) (new_run pid (pj_workspaceId p) prompt key) (env d)
         = Inr (i, d') \<and>
       res = CreatedRun (toRunRecord i (new_run pid (pj_workspaceId p) prompt key)) False \<and>
       set ids \<subseteq> set (map fst (clean_attachments pid (pj_workspaceId p) ids d)))"
proof (cases "getProject u pid d")
  case None
  with assms show ?thesis by (auto simp: create_run_tx_def)
next
  case (Some p)
  show ?thesis
  proof (cases "run_with_key pid key d")
    case k: (Some ir)
    with Some assms show ?thesis by (cases ir) (auto simp: create_run_tx_def)
  next
    case None
    let ?atts = "clean_attachments pid (pj_workspaceId p) ids d"
    let ?r = "new_run pid (pj_workspaceId p) prompt key"
    have valid: "filter (\<lambda>k. k \<notin> set (map fst ?atts)) ids = []"
      using assms Some None by (auto simp: create_run_tx_def Let_def split: if_splits)
    with assms Some None have eq: "bind_res (lift_repo (insert_run ?r (env d))) (\<lambda>(i, d1).
        bind_res (map_res (attachment_row i) ?atts) (\<lambda>rows.
        Inr (CreatedRun (toRunRecord i ?r) False, d1\<lparr>run_attachments := run_attachments d1 @ rows\<rparr>))) = Inr (res, d')"
      by (simp add: create_run_tx_def)
    then obtain i d1 where ins: "lift_repo (insert_run ?r (env d)) = Inr (i, d1)"
      and rest: "bind_res (map_res (attachment_row i) ?atts) (\<lambda>rows.
        Inr (CreatedRun (toRunRecord i ?r) False, d1\<lparr>run_attachments := run_attachments d1 @ rows\<rparr>)) = Inr (res, d')"
      by (auto simp: bind_res_Inr_iff)
    then obtain rows where "map_res (attachment_row i) ?atts = Inr rows"
      "res = CreatedRun (toRunRecord i ?r) False" "d' = d1\<lparr>run_attachments := run_attachments d1 @ rows\<rparr>"
      by (auto simp: bind_res_Inr_iff)
    moreover from this ins have "create_commit ?atts ?r (env d) = Inr (i, d')" by (simp add: create_commit_def)
    moreover have "set ids \<subseteq> set (map fst ?atts)" using valid by (auto simp: filter_empty_conv)
    ultimately show ?thesis using Some None by blast
  qed
qed

lemma system_createRun:
  assumes "env_system env" and "createRunWithIdempotency env u pid prompt key ids d = Inr (res, d')"
  shows "system d d'"
proof (cases "create_run_tx env u pid prompt key ids d")
  case (Inl e)
  with assms show ?thesis
    by (auto simp: createRunWithIdempotency_def env_system_def split: if_splits option.splits)
next
  case (Inr p)
  with assms(2) have tx: "create_run_tx env u pid prompt key ids d = Inr (res, d')"
    by (simp add: createRunWithIdempotency_def)
  from create_run_tx_commit [OF this] show ?thesis
    using sys_start sys_create [OF env_systemD [OF assms(1)]] by blast
qed

lemma system_transition:
  assumes "env_system env" and "resolveRunTransition act st now = Inr (patch, enqueue)"
    and "transitionRun env u i st cv patch d = Inr (res, d')"
  shows "system d d'"
proof (cases "visible_run u i d")
  case None
  with assms show ?thesis by (simp add: transitionRun_def sys_start)
next
  case (Some r)
  obtain n d1 where up: "updateMany_run i (\<lambda>r. r_status r = st \<and> r_controlVersion r = cv) (apply_patch patch) (env d) = (n, d1)"
    by (rule prod.exhaust)
  with Some assms(3) have "d' = d1" by (auto simp: transitionRun_def split: if_splits option.splits)
  with sys_control [OF env_systemD [OF assms(1)] assms(2) up] show ?thesis by simp
qed

lemma plan_action_resolved:
  "plan_action opt a now cur = Inr (patch, enqueue) \<Longrightarrow>
     resolveRunTransition (ai_action a) (rn_status cur) now = Inr (patch, enqueue)"
  by (auto simp: plan_action_def bind_res_Inr_iff split: if_splits)

text \<open>The two routes that change runs.\<close>

lemma system_markRunFailed: "env_system env \<Longrightarrow> system d d1 \<Longrightarrow> system d (markRunFailed i cv err now (env d1))"
  by (meson env_systemD sys_unqueued system_trans)

lemma system_createRun_route:
  assumes "env_system env1" and "env_system env2"
    and "createRun_route opt who pid i env1 env2 now s = (res, s')"
  shows "system (k_db s) (k_db s')"
proof (cases "bind_res (assertRunExecutionEnabled opt) (\<lambda>_. requirePrincipal who)")
  case (Inl e)
  with assms(3) show ?thesis by (auto simp: createRun_route_def sys_start)
next
  case (Inr u)
  let ?c = "createRunWithIdempotency env1 u pid (ci_prompt i) (ci_idempotencyKey i) (ci_attachmentIds i) (k_db s)"
  show ?thesis
  proof (cases ?c)
    case (Inl e)
    with Inr assms(3) show ?thesis by (cases e) (auto simp: createRun_route_def sys_start)
  next
    case c: (Inr rd)
    obtain cr d1 where rd: "rd = (cr, d1)" by (cases rd)
    note sys1 = system_createRun [OF assms(1) c [unfolded rd]]
    from Inr c rd assms(3) sys1 system_markRunFailed [OF assms(2) sys1] show ?thesis
      by (cases cr) (auto simp: createRun_route_def split: if_splits)
  qed
qed

lemma system_controlRun_route:
  assumes "env_system env2" and "env_system env3" and "env_system env4"
    and "controlRun_route opt who i a env1 env2 env3 env4 now s = (res, s')"
  shows "system (k_db s) (k_db s')"
proof -
  let ?plan = "bind_res (requirePrincipal who) (\<lambda>u. bind_res (read_run env1 u i (k_db s)) (\<lambda>cur.
    bind_res (plan_action opt a now cur) (\<lambda>plan. Inr (u, cur, plan))))"
  show ?thesis
  proof (cases ?plan)
    case (Inl e)
    with assms(4) show ?thesis by (auto simp: controlRun_route_def sys_start)
  next
    case (Inr q)
    obtain u cur patch enqueue where q: "q = (u, cur, patch, enqueue)" by (cases q)
    with Inr have rt: "resolveRunTransition (ai_action a) (rn_status cur) now = Inr (patch, enqueue)"
      by (auto simp: bind_res_Inr_iff intro: plan_action_resolved)
    let ?d1 = "env2 (k_db s)"
    have sys1: "system (k_db s) ?d1" using assms(1) by (rule env_systemD)
    let ?t = "transitionRun env3 u (rn_id cur) (rn_status cur) (rn_controlVersion cur) patch ?d1"
    show ?thesis
    proof (cases ?t)
      case (Inl e)
      with Inr q assms(4) have "k_db s' = env3 ?d1" by (auto simp: controlRun_route_def)
      then show ?thesis using env_systemD [OF assms(2)] sys1 system_trans by metis
    next
      case t: (Inr rd)
      obtain r d2 where rd: "rd = (r, d2)" by (cases rd)
      have sys2: "system (k_db s) d2"
        using system_transition [OF assms(2) rt t [unfolded rd]] sys1 by (rule system_trans)
      show ?thesis
        using Inr q t rd assms(4) sys2 system_markRunFailed [OF assms(3) sys2]
        by (cases r) (auto simp: controlRun_route_def Let_def split: if_splits sum.splits)
    qed
  qed
qed

text \<open>The sweepers.\<close>

lemma system_each_candidate:
  assumes "\<And>i. env_system (env i)" and "system d0 d"
    and "\<And>c x b x'. c \<in> set cs \<Longrightarrow> system d0 x \<Longrightarrow> change c x = Inr (b, x') \<Longrightarrow> system d0 x'"
    and "each_candidate change env cs d = (res, d')"
  shows "system d0 d'"
  using assms(2-4)
proof (induction cs arbitrary: d res)
  case Nil
  then show ?case by simp
next
  case (Cons c cs)
  have e: "system d0 (env (fst c) d)" using env_systemD [OF assms(1)] Cons.prems(1) by (rule system_trans)
  show ?case
  proof (cases "change c (env (fst c) d)")
    case (Inl err)
    with Cons.prems(3) e show ?thesis by auto
  next
    case (Inr bx)
    obtain b x where bx: "bx = (b, x)" by (cases bx)
    have sx: "system d0 x" using Cons.prems(2) [OF _ e Inr [unfolded bx]] by simp
    obtain res2 where "each_candidate change env cs x = (res2, d')"
      using Cons.prems(3) Inr bx by (auto split: prod.splits sum.splits)
    then show ?thesis
    proof (rule Cons.IH [OF sx, rotated])
      fix c' y b' y'
      assume "c' \<in> set cs" "system d0 y" "change c' y = Inr (b', y')"
      then show "system d0 y'" using Cons.prems(2) [of c'] by simp
    qed
  qed
qed

lemma system_expirePausedRuns:
  assumes "\<And>i. env_system (env i)" and "expirePausedRuns env t now n d = (res, d')"
  shows "system d d'"
  by (rule system_each_candidate [OF assms(1) sys_start _ assms(2) [unfolded expirePausedRuns_def]])
     (metis prod.collapse sys_expire)

lemma system_sendReminders:
  assumes "\<And>i. env_system (env i)" and "sendReminders env t now n d = (res, d')"
  shows "system d d'"
  by (rule system_each_candidate [OF assms(1) sys_start _ assms(2) [unfolded sendReminders_def]])
     (metis prod.collapse sys_remind)

lemma system_purgeExpiredRunData:
  assumes "\<And>i. env_system (env i)" and "db_ok d" and "purgeExpiredRunData env t now n d = (res, d')"
  shows "system d d'"
proof (rule system_each_candidate [OF assms(1) sys_start _ assms(3) [unfolded purgeExpiredRunData_def]])
  fix c x b x'
  assume c: "c \<in> set (oldest_first n r_cancelledAt (purge_due t) d)" "system d x" "purge_one now c x = Inr (b, x')"
  obtain i r0 where ir: "c = (i, r0)" by (cases c)
  have "distinct (map fst (runs d))" using assms(2) by (simp add: db_ok_def keys_ok_def)
  from oldest_first_candidates(2) [OF this c(1) [unfolded ir]] c(2,3) ir
  show "system d x'" by (blast intro: sys_purge [OF sys_start])
qed

end
