(* ===== verification/LifecycleProperties.thy ===== *)
theory LifecycleProperties
  imports SystemActors
begin

text \<open>The properties of the life cycle of runs, each over every interleaving of the actors.\<close>

section \<open>A concrete store and its steps\<close>

lemma sample_run_of: "run_of sample_db j = (if j = 3 then Some sample_run else None)"
  by (simp add: sample_db_def)

lemma keys_unique_sample: "keys_unique sample_db"
  unfolding keys_unique_def sample_run_of by (auto split: if_splits)

lemma sys_inv_sample: "sys_inv sample_db"
  by (simp add: sys_inv_def db_ok_sample keys_unique_sample)

lemma system_ok: "system a d \<Longrightarrow> sys_inv a \<Longrightarrow> sys_inv d \<and> runs_advance a d"
  using system_move by (simp add: sys_move_def)

lemma system_inv: "system a d \<Longrightarrow> sys_inv a \<Longrightarrow> sys_inv d"
  using system_ok by blast

lemma system_path:
  "system a d \<Longrightarrow> sys_inv a \<Longrightarrow> run_of a i = Some r \<Longrightarrow> \<exists>r'. run_of d i = Some r' \<and> run_path r r'"
  using system_ok runs_advanceD by blast

section \<open>The machine\<close>

text \<open>C12: Every interleaving of the API, the workers and the sweepers keeps the store invariant and
  the uniqueness of idempotency keys, and moves every run along the edges of the abstract run
  machine; in particular its control version never falls, and a run never changes its project.\<close>

theorem system_refines_machine:
  assumes "system a d" and "sys_inv a"
  shows "sys_inv d \<and> (\<forall>i r. run_of a i = Some r \<longrightarrow>
    (\<exists>r'. run_of d i = Some r' \<and> run_path r r' \<and> same_identity r r' \<and> r_controlVersion r \<le> r_controlVersion r'))"
proof -
  have "\<exists>r'. run_of d i = Some r' \<and> run_path r r' \<and> same_identity r r' \<and> r_controlVersion r \<le> r_controlVersion r'"
    if "run_of a i = Some r" for i r
  proof -
    from system_path [OF assms that] obtain r' where r': "run_of d i = Some r'" "run_path r r'" by blast
    have "r_controlVersion r \<le> r_controlVersion r'" using path_behind [OF r'(2)] by (auto simp: behind_def)
    with r' path_identity [OF r'(2)] show ?thesis by blast
  qed
  with system_inv [OF assms] show ?thesis by blast
qed

definition paused_db :: db where
  "paused_db = snd (updateMany_run 3 (\<lambda>r. r_status r = RUNNING \<and> r_controlVersion r = 1)
     (apply_patch ((no_patch PAUSED)\<lparr>sp_pausedAt := Some (Some 200)\<rparr>)) sample_db)"

lemma sample_pauses: "system sample_db paused_db"
proof (rule sys_control [OF sys_start, of Pause RUNNING 200 "(no_patch PAUSED)\<lparr>sp_pausedAt := Some (Some 200)\<rparr>" False 3 1])
  show "resolveRunTransition Pause RUNNING 200 = Inr ((no_patch PAUSED)\<lparr>sp_pausedAt := Some (Some 200)\<rparr>, False)"
    by (simp add: resolveRunTransition_def)
  show "updateMany_run 3 (\<lambda>r. r_status r = RUNNING \<and> r_controlVersion r = 1)
     (apply_patch ((no_patch PAUSED)\<lparr>sp_pausedAt := Some (Some 200)\<rparr>)) sample_db
     = (fst (updateMany_run 3 (\<lambda>r. r_status r = RUNNING \<and> r_controlVersion r = 1)
     (apply_patch ((no_patch PAUSED)\<lparr>sp_pausedAt := Some (Some 200)\<rparr>)) sample_db), paused_db)"
    by (simp add: paused_db_def)
qed

lemma paused_row: "run_of paused_db 3 = Some (sample_run\<lparr>r_status := PAUSED, r_controlVersion := 2, r_pausedAt := Some 200\<rparr>)"
  by (simp add: paused_db_def updateMany_run_def sample_defs apply_patch_def no_patch_def or_keep_def)

theorem system_refines_machine_witness:
  "sys_inv paused_db \<and> (\<exists>r'. run_of paused_db 3 = Some r' \<and> run_path sample_run r' \<and> same_identity sample_run r' \<and>
    r_controlVersion sample_run \<le> r_controlVersion r')"
  using system_refines_machine [OF sample_pauses sys_inv_sample] by (auto simp: sample_run_of)

text \<open>A run that is completed or cancelled stays so for good: no interleaving of the actors
  changes its status, its control version or its error.\<close>

lemma final_runs_stay:
  assumes "system a d" and "sys_inv a" and "run_of a i = Some r" and "r_status r = COMPLETED \<or> r_status r = CANCELLED"
  shows "\<exists>r'. run_of d i = Some r' \<and> r_status r' = r_status r \<and> r_controlVersion r' = r_controlVersion r \<and>
    r_error r' = r_error r"
  using system_path [OF assms(1-3)] path_final assms(4) unfolding final_status_def by blast

definition cancelled_db :: db where
  "cancelled_db = set_run 3 (sample_run\<lparr>r_status := CANCELLED, r_controlVersion := 2, r_cancelledAt := Some 5,
     r_error := Some expiredError\<rparr>) sample_db"

lemma sys_inv_cancelled: "sys_inv cancelled_db"
proof -
  have "db_ok cancelled_db" unfolding cancelled_db_def
    by (rule db_ok_set_run [OF db_ok_sample, of 3 sample_run]) (simp_all add: sample_run_of)
  moreover have "keys_unique cancelled_db"
    unfolding keys_unique_def cancelled_db_def run_of_set_run by (auto simp: sample_run_of split: if_splits)
  ultimately show ?thesis by (simp add: sys_inv_def)
qed

lemma cancelled_row: "run_of cancelled_db 3 = Some (sample_run\<lparr>r_status := CANCELLED, r_controlVersion := 2,
    r_cancelledAt := Some 5, r_error := Some expiredError\<rparr>)"
  by (simp add: cancelled_db_def)

definition purged_db :: db where
  "purged_db = snd (the (case purge_one 9 (3, sample_run\<lparr>r_status := CANCELLED, r_controlVersion := 2,
     r_cancelledAt := Some 5, r_error := Some expiredError\<rparr>) cancelled_db of Inr p \<Rightarrow> Some p | Inl _ \<Rightarrow> None))"

lemma cancelled_due: "purge_due 7 (sample_run\<lparr>r_status := CANCELLED, r_controlVersion := 2,
    r_cancelledAt := Some 5, r_error := Some expiredError\<rparr>)"
  by (simp add: purge_due_def before_def expired_error_def expiredError_def sample_run_def)

lemma cancelled_purges: "system cancelled_db purged_db"
proof -
  from purge_settles [of cancelled_db 3 _ 7 9] sys_inv_cancelled cancelled_row cancelled_due
  obtain d' where "purge_one 9 (3, sample_run\<lparr>r_status := CANCELLED, r_controlVersion := 2,
      r_cancelledAt := Some 5, r_error := Some expiredError\<rparr>) cancelled_db = Inr (True, d')"
    by (auto simp: sys_inv_def)
  moreover from this have "purged_db = d'" by (simp add: purged_db_def)
  ultimately show ?thesis
    using sys_purge [OF sys_start sys_start cancelled_row cancelled_due, of 9] by simp
qed

text \<open>The prompt of a run never changes, except that the purge replaces it by the redaction
  marker, and then the run is one that the platform itself cancelled for its age. A run that a
  user cancelled is never redacted.\<close>

lemma prompt_only_redacted:
  assumes "system a d" and "sys_inv a" and "run_of a i = Some r" and "error_ok r"
  shows "\<exists>r'. run_of d i = Some r' \<and> (r_prompt r' = r_prompt r \<or>
    (r_prompt r' = PURGE_REDACTION_MARKER \<and> r_status r' = CANCELLED \<and> r_error r' = Some expiredError))"
proof -
  from system_path [OF assms(1-3)] obtain r' where r': "run_of d i = Some r'" "run_path r r'" by blast
  have "error_ok r'" using path_error_ok [OF r'(2) assms(4)] .
  with path_prompt [OF r'(2)] r'(1) show ?thesis
    by (auto simp: error_ok_def expired_error_def)
qed

section \<open>Stale jobs\<close>

text \<open>A run that the job can no longer claim, however it goes on.\<close>

definition dead_for :: "run_job \<Rightarrow> run \<Rightarrow> bool" where
  "dead_for job r \<longleftrightarrow> job_controlVersion job + 1 < r_controlVersion r \<or>
     (r_controlVersion r = job_controlVersion job + 1 \<and> r_status r \<noteq> RUNNING) \<or>
     (r_controlVersion r = job_controlVersion job \<and> r_status r \<noteq> PENDING)"

lemma edge_dead: "run_edge r r' \<Longrightarrow> dead_for job r \<Longrightarrow> dead_for job r'"
  by (cases "r_status r") (auto simp: run_edge_def edge_stay_def edge_unqueued_def edge_move_def dead_for_def)

lemma path_dead: "run_path r r' \<Longrightarrow> dead_for job r \<Longrightarrow> dead_for job r'"
  by (induction rule: rtranclp_induct) (auto dest: edge_dead)

lemma stale_is_dead:
  assumes "claimRun env job now d = Inr (Stale st cv, d1)" and "env_system env" and "sys_inv d"
    and "run_of d (job_runId job) = Some r" and "job_controlVersion job \<le> r_controlVersion r"
    and "\<not> (st = RUNNING \<and> cv = job_controlVersion job + 1)"
  shows "\<exists>r1. run_of d1 (job_runId job) = Some r1 \<and> dead_for job r1"
proof (cases "r_status r = PENDING \<and> r_controlVersion r = job_controlVersion job")
  case False
  with assms(1,4,5) show ?thesis
    by (auto simp: claimRun_reads_then_writes dead_for_def split: if_splits)
next
  case True
  obtain n e where u: "updateMany_run (job_runId job)
      (\<lambda>r. r_status r = PENDING \<and> r_controlVersion r = job_controlVersion job)
      (\<lambda>q. q\<lparr>r_status := RUNNING, r_controlVersion := r_controlVersion q + 1,
             r_startedAt := Some (case r_startedAt r of Some t \<Rightarrow> t | None \<Rightarrow> now),
             r_lastHeartbeatAt := Some now\<rparr>) (env d) = (n, e)"
    by (rule prod.exhaust)
  from system_path [OF env_systemD [OF assms(2)] assms(3,4)] obtain q where
    q: "run_of (env d) (job_runId job) = Some q" "run_path r q" by blast
  have "job_controlVersion job \<le> r_controlVersion q" using path_behind [OF q(2)] assms(5) by (auto simp: behind_def)
  with True assms(1,4,6) u q(1) show ?thesis
    by (auto simp: claimRun_reads_then_writes claim_tx_def updateMany_run_def dead_for_def bind_res_Inr_iff
        split: option.splits if_splits)
qed

text \<open>A job that finds its run moved on is dead: whatever the actors do afterwards, no later
  delivery of the same job claims the run.\<close>

lemma stale_job_never_runs:
  assumes "sys_inv d" and "run_of d (job_runId job) = Some r" and "job_controlVersion job \<le> r_controlVersion r"
    and "claimRun env job now d = Inr (Stale st cv, d1)" and "env_system env"
    and "\<not> (st = RUNNING \<and> cv = job_controlVersion job + 1)"
    and "system d1 d2" and "claimRun env2 job now2 d2 = Inr (c, d3)" and "env_system env2"
  shows "\<not> (\<exists>x. c = Ready x)"
proof
  assume "\<exists>x. c = Ready x"
  then obtain x where c: "c = Ready x" ..
  have inv1: "sys_inv d1" using system_inv [OF system_claimRun [OF assms(5,4)] assms(1)] .
  from stale_is_dead [OF assms(4,5,1,2,3,6)] obtain r1 where
    r1: "run_of d1 (job_runId job) = Some r1" "dead_for job r1" by blast
  from system_path [OF assms(7) inv1 r1(1)] obtain r2 where
    r2: "run_of d2 (job_runId job) = Some r2" "run_path r1 r2" by blast
  have dead2: "dead_for job r2" using path_dead [OF r2(2) r1(2)] .
  with r2(1) assms(8) c have "r_status r2 = PENDING" "r_controlVersion r2 = job_controlVersion job"
    by (auto simp: claimRun_reads_then_writes dead_for_def split: if_splits)
  with dead2 show False by (simp add: dead_for_def)
qed

definition old_job :: run_job where
  "old_job = \<lparr>job_runId = 3, job_command = CmdStart, job_controlVersion = 0, job_reason = None, job_approvalScope = None\<rparr>"

lemma purged_row: "\<exists>r. run_of purged_db 3 = Some r \<and> r_status r = CANCELLED \<and> r_controlVersion r = 2"
proof -
  from system_path [OF cancelled_purges sys_inv_cancelled cancelled_row] obtain r where
    r: "run_of purged_db 3 = Some r"
    "run_path (sample_run\<lparr>r_status := CANCELLED, r_controlVersion := 2, r_cancelledAt := Some 5,
       r_error := Some expiredError\<rparr>) r" by blast
  from path_final [OF r(2)] r(1) show ?thesis by (simp add: final_status_def)
qed

end
