(* ===== verification/ControlProperties.thy ===== *)
theory ControlProperties
  imports LifecycleProperties
begin

text \<open>The properties of the control API and of the sweepers as callers see them.\<close>

section \<open>Attachments\<close>

lemma sameAttachmentIds_mset: "sameAttachmentIds l r \<longleftrightarrow> mset l = mset r"
proof
  assume s: "sameAttachmentIds l r"
  then have len: "length (sort l) = length (sort r)" by (simp add: sameAttachmentIds_def)
  have "sort l = sort r"
  proof (rule nth_equalityI [OF len])
    fix k assume k: "k < length (sort l)"
    then have "(sort l ! k, sort r ! k) \<in> set (zip (sort l) (sort r))"
      using len by (auto simp: in_set_zip)
    with s show "sort l ! k = sort r ! k" by (auto simp: sameAttachmentIds_def list_all_iff)
  qed
  then show "mset l = mset r" by (metis mset_sort)
next
  assume m: "mset l = mset r"
  then have "sort l = sort r" by (metis mset_sort properties_for_sort sorted_sort)
  moreover have "length l = length r" using m by (rule mset_eq_length)
  ultimately show "sameAttachmentIds l r" by (auto simp: sameAttachmentIds_def list_all_iff in_set_zip)
qed

lemma map_res_attachment_rows:
  "map_res (attachment_row i) atts = Inr rows \<Longrightarrow>
     map ra_attachmentId rows = map fst atts \<and> (\<forall>a \<in> set rows. ra_runId a = i)"
  by (induction atts arbitrary: rows)
     (auto simp: attachment_row_def split: sum.splits option.splits)

section \<open>One run per idempotency key\<close>

lemma run_with_key_Some:
  assumes "run_with_key pid key d = Some (i, r)" and "sys_inv d"
  shows "run_of d i = Some r \<and> r_projectId r = pid \<and> r_idempotencyKey r = Some key"
proof -
  from assms(1) have "(i, r) \<in> set (runs d)" "r_projectId r = pid" "r_idempotencyKey r = Some key"
    by (auto simp: run_with_key_def dest!: find_first_opt_Some)
  with assms(2) show ?thesis by (auto simp: sys_inv_def db_ok_def keys_ok_def)
qed

lemma only_run_with_key:
  assumes "sys_inv d" and "run_of d i = Some r" and "r_projectId r = pid" and "r_idempotencyKey r = Some key"
    and "run_of d j = Some q" and "r_projectId q = pid" and "r_idempotencyKey q = Some key"
  shows "j = i"
  using assms unfolding sys_inv_def keys_unique_def by metis

text \<open>C13: A successful create with an idempotency key answers with the only run of the project that
  has this key, whose prompt is the requested one; a replay creates no run, and whatever races
  with it, there is never a second run for the key.\<close>

theorem one_run_per_key:
  assumes "sys_inv d" and "env_system env"
    and "createRunWithIdempotency env u pid prompt key ids d = Inr (CreatedRun rec replayed, d')"
  shows "\<exists>r. run_of d' (rn_id rec) = Some r \<and> r_projectId r = pid \<and> r_idempotencyKey r = Some key \<and>
    r_prompt r = prompt \<and> set ids \<subseteq> set (attached_ids (rn_id rec) d') \<and>
    (\<forall>j q. run_of d' j = Some q \<longrightarrow> r_projectId q = pid \<longrightarrow> r_idempotencyKey q = Some key \<longrightarrow> j = rn_id rec) \<and>
    (replayed \<longrightarrow> d' = d \<or> d' = env d)"
proof -
  have inv': "sys_inv d'" using system_inv [OF system_createRun [OF assms(2,3)] assms(1)] .
  have replayed: "?thesis" if "run_with_key pid key x = Some (i, q)" "replay_run i q prompt ids x = CreatedRun rec replayed"
    "x = d \<or> x = env d" "d' = x" for x i q
  proof -
    have row: "run_of d' i = Some q" "r_projectId q = pid" "r_idempotencyKey q = Some key"
      using run_with_key_Some [OF that(1)] inv' that(4) by auto
    from that(2) have "rn_id rec = i" "r_prompt q = prompt" "sameAttachmentIds (attached_ids i x) ids"
      by (auto simp: replay_run_def toRunRecord_def split: if_splits)
    then have ids: "set (attached_ids i x) = set ids" using mset_eq_setD sameAttachmentIds_mset by blast
    have only: "\<forall>j q. run_of d' j = Some q \<longrightarrow> r_projectId q = pid \<longrightarrow> r_idempotencyKey q = Some key \<longrightarrow> j = i"
      using only_run_with_key [OF inv' row] by blast
    show ?thesis unfolding \<open>rn_id rec = i\<close>
      by (rule exI [of _ q], intro conjI only impI row) (use ids that(3,4) \<open>r_prompt q = prompt\<close> in simp_all)
  qed
  show ?thesis
  proof (cases "create_run_tx env u pid prompt key ids d")
    case (Inl e)
    with assms(3) obtain i q where k: "run_with_key pid key (env d) = Some (i, q)"
      and "replay_run i q prompt ids (env d) = CreatedRun rec replayed" "d' = env d"
      by (auto simp: createRunWithIdempotency_def split: if_splits option.splits)
    then show ?thesis using replayed by blast
  next
    case (Inr p)
    with assms(3) have tx: "create_run_tx env u pid prompt key ids d = Inr (CreatedRun rec replayed, d')"
      by (simp add: createRunWithIdempotency_def)
    from create_run_tx_commit [OF tx] show ?thesis
    proof (elim disjE conjE exE)
      fix i q
      assume "d' = d" "run_with_key pid key d = Some (i, q)" "CreatedRun rec replayed = replay_run i q prompt ids d"
      then show ?thesis using replayed by metis
    next
      fix p i
      assume c: "create_commit (clean_attachments pid (pj_workspaceId p) ids d) (new_run pid (pj_workspaceId p) prompt key) (env d)
          = Inr (i, d')" and res: "CreatedRun rec replayed = CreatedRun (toRunRecord i (new_run pid (pj_workspaceId p) prompt key)) False"
        and ids: "set ids \<subseteq> set (map fst (clean_attachments pid (pj_workspaceId p) ids d))"
      have rec: "rec = toRunRecord i (new_run pid (pj_workspaceId p) prompt key)" "\<not> replayed" using res by auto
      let ?r = "new_run pid (pj_workspaceId p) prompt key"
      from c obtain d1 rows where ins: "insert_run ?r (env d) = Inr (i, d1)"
        and rows: "map_res (attachment_row i) (clean_attachments pid (pj_workspaceId p) ids d) = Inr rows"
        and d': "d' = d1\<lparr>run_attachments := run_attachments d1 @ rows\<rparr>"
        by (auto simp: create_commit_def bind_res_Inr_iff lift_repo_def split: sum.splits)
      have row: "run_of d' i = Some ?r" using ins d' by (simp add: insert_run_Inr set_run_def update_conv')
      have "set (map ra_attachmentId rows) \<subseteq> set (attached_ids i d')"
        using map_res_attachment_rows [OF rows] by (auto simp: attached_ids_def d')
      then have "set ids \<subseteq> set (attached_ids i d')" using ids map_res_attachment_rows [OF rows] by auto
      moreover have idn: "rn_id rec = i" using rec(1) by (simp add: toRunRecord_def)
      moreover have fields: "r_projectId ?r = pid" "r_idempotencyKey ?r = Some key" "r_prompt ?r = prompt"
        by (simp_all add: new_run_def)
      moreover have "\<forall>j q. run_of d' j = Some q \<longrightarrow> r_projectId q = pid \<longrightarrow> r_idempotencyKey q = Some key \<longrightarrow> j = i"
        using only_run_with_key [OF inv' row fields(1,2)] by blast
      ultimately show ?thesis
        unfolding idn by (intro exI [of _ ?r] conjI row) (use rec(2) in blast)+
    qed simp
  qed
qed

lemma sample_replays:
  "createRunWithIdempotency (\<lambda>d. d) 7 2 ''make it'' ''k1'' [] sample_db
    = Inr (CreatedRun (toRunRecord 3 sample_run) True, sample_db)"
  by code_simp

theorem one_run_per_key_witness:
  "\<exists>r. run_of sample_db 3 = Some r \<and> r_prompt r = ''make it'' \<and> r_idempotencyKey r = Some ''k1''"
  using one_run_per_key [OF sys_inv_sample env_system_id sample_replays] by (auto simp: toRunRecord_def)

section \<open>Actions\<close>

lemma read_run_Inr:
  "read_run env u i d = Inr cur \<Longrightarrow> \<exists>r. visible_run u i d = Some r \<and> rn_id cur = i \<and>
     rn_status cur = r_status r \<and> rn_controlVersion cur = r_controlVersion r"
  by (auto simp: read_run_def getRun_def bind_res_Inr_iff toRunRecord_def
      split: sum.splits option.splits if_splits)

text \<open>C14: An accepted action was applied, at one moment, to exactly the status and control version
  that the caller was shown and asked for, by the transition of that status; the version rises
  by one, and a job is queued, for the new version, exactly when the action resumes execution.\<close>

theorem action_is_compare_and_set:
  assumes "controlRun_route opt (Some u) i a env1 env2 env3 env4 now s = (Inr (code, rec), s')"
  shows "\<exists>r patch enqueue. run_of (env3 (env2 (k_db s))) i = Some r \<and>
    resolveRunTransition (ai_action a) (r_status r) now = Inr (patch, enqueue) \<and>
    (ai_expectedStatus a = None \<or> ai_expectedStatus a = Some (r_status r)) \<and>
    (ai_expectedControlVersion a = None \<or> ai_expectedControlVersion a = Some (r_controlVersion r)) \<and>
    run_of (k_db s') i = Some (apply_patch patch r) \<and> rec = toRunRecord i (apply_patch patch r) \<and> code = 200 \<and>
    rn_controlVersion rec = r_controlVersion r + 1 \<and>
    k_queue s' = k_queue s @ (if enqueue then [action_job a rec] else []) \<and>
    (enqueue \<longrightarrow> job_controlVersion (action_job a rec) = r_controlVersion r + 1)"
proof -
  let ?plan = "bind_res (requirePrincipal (Some u)) (\<lambda>u. bind_res (read_run env1 u i (k_db s)) (\<lambda>cur.
    bind_res (plan_action opt a now cur) (\<lambda>plan. Inr (u, cur, plan))))"
  obtain cur patch enqueue where plan: "?plan = Inr (u, cur, patch, enqueue)"
    using assms by (cases ?plan) (auto simp: controlRun_route_def bind_res_Inr_iff requirePrincipal_def)
  then have cur: "read_run env1 u i (k_db s) = Inr cur" and pl: "plan_action opt a now cur = Inr (patch, enqueue)"
    by (auto simp: bind_res_Inr_iff requirePrincipal_def)
  from read_run_Inr [OF cur] have idn: "rn_id cur = i" by blast
  let ?t = "transitionRun env3 u i (rn_status cur) (rn_controlVersion cur) patch (env2 (k_db s))"
  obtain d2 where t: "?t = Inr (Some rec, d2)" and s': "k_db s' = d2"
      "k_queue s' = k_queue s @ (if enqueue then [action_job a rec] else [])" "code = 200"
    using assms plan idn by (auto simp: controlRun_route_def Let_def split: sum.splits option.splits if_splits)
  from t obtain r where r: "run_of (env3 (env2 (k_db s))) i = Some r" "r_status r = rn_status cur"
      "r_controlVersion r = rn_controlVersion cur" "d2 = set_run i (apply_patch patch r) (env3 (env2 (k_db s)))"
      "rec = toRunRecord i (apply_patch patch r)"
    by (auto simp: transitionRun_def updateMany_run_def split: if_splits option.splits)
  have ver: "rn_controlVersion rec = r_controlVersion r + 1" by (simp add: r(5) toRunRecord_def apply_patch_def)
  have "ai_expectedStatus a = None \<or> ai_expectedStatus a = Some (r_status r)"
    "ai_expectedControlVersion a = None \<or> ai_expectedControlVersion a = Some (r_controlVersion r)"
    using pl r(2,3) by (auto simp: plan_action_def assertClientPreconditions_def bind_res_Inr_iff split: if_splits)
  moreover have "resolveRunTransition (ai_action a) (r_status r) now = Inr (patch, enqueue)"
    using plan_action_resolved [OF pl] r(2) by simp
  ultimately show ?thesis using r(1,4,5) s' ver by (auto simp: action_job_def)
qed

definition pause_input :: run_action_input where
  "pause_input = \<lparr>ai_action = Pause, ai_expectedStatus = Some RUNNING, ai_expectedControlVersion = None,
     ai_reason = None, ai_approvalScope = None\<rparr>"

definition open_api :: control_options where
  "open_api = \<lparr>o_runExecutionEnabled = True, o_enqueue_fails = False\<rparr>"

theorem action_is_compare_and_set_witness:
  "\<exists>r patch enqueue. run_of sample_db 3 = Some r \<and> resolveRunTransition Pause (r_status r) 200 = Inr (patch, enqueue) \<and>
    rn_controlVersion (snd (projr (fst (controlRun_route open_api (Some 7) 3 pause_input (\<lambda>d. d) (\<lambda>d. d) (\<lambda>d. d) (\<lambda>d. d)
      200 \<lparr>k_db = sample_db, k_queue = []\<rparr>)))) = r_controlVersion r + 1"
proof -
  let ?call = "controlRun_route open_api (Some 7) 3 pause_input (\<lambda>d. d) (\<lambda>d. d) (\<lambda>d. d) (\<lambda>d. d)
      200 \<lparr>k_db = sample_db, k_queue = []\<rparr>"
  have "isl (fst ?call) = False" by code_simp
  then obtain code rec s' where "?call = (Inr (code, rec), s')"
    by (cases ?call; cases "fst ?call") auto
  from action_is_compare_and_set [OF this] this show ?thesis by (auto simp: pause_input_def)
qed

section \<open>Sweeps\<close>

text \<open>C15: On a store nobody else changes, one sweep of each kind settles every due run, as long as
  there are at most ten batches of them: it reports their number and no error, and no due run
  is left.\<close>

theorem sweep_clears_backlog:
  assumes "db_ok d" and "0 < n" and "0 < ttl"
    and "card (due_ids (expire_due (now - ttl)) d) \<le> 10 * n"
    and "card (due_ids (remind_due (now - ttl)) d) \<le> 10 * n"
    and "card (due_ids (purge_due (now - ttl)) d) \<le> 10 * n"
  shows "(\<exists>reported d'. ApprovalExpirySweeper (\<lambda>_ d. d) ttl (Some n) now d =
      Inr ((card (due_ids (expire_due (now - ttl)) d), reported, None), d') \<and> db_ok d' \<and> due_ids (expire_due (now - ttl)) d' = {}) \<and>
    (\<exists>reported d'. ApprovalReminderSweeper (\<lambda>_ d. d) ttl (Some n) now d =
      Inr ((card (due_ids (remind_due (now - ttl)) d), reported, None), d') \<and> db_ok d' \<and> due_ids (remind_due (now - ttl)) d' = {}) \<and>
    (\<exists>reported d'. RunDataPurgeSweeper (\<lambda>_ d. d) ttl (Some n) now d =
      Inr ((card (due_ids (purge_due (now - ttl)) d), reported, None), d') \<and> db_ok d' \<and> due_ids (purge_due (now - ttl)) d' = {})"
  using assms(3) expiring.quiet_sweep [OF assms(1,2,4), of now] reminding.quiet_sweep [OF assms(1,2,5), of now]
    purging.quiet_sweep [OF assms(1,2,6), of now]
  by (simp add: ApprovalExpirySweeper_def ApprovalReminderSweeper_def RunDataPurgeSweeper_def positive_period_def
      sweepOnce_def MAX_BATCHES_PER_SWEEP_def expirePausedRuns_def [abs_def] sendReminders_def [abs_def]
      purgeExpiredRunData_def [abs_def])

lemma cancelled_due_ids:
  "due_ids (expire_due t) cancelled_db = {}" "due_ids (remind_due t) cancelled_db = {}"
  "due_ids (purge_due 7) cancelled_db = {3}"
  using cancelled_due
  by (auto simp: due_ids_def expire_due_def remind_due_def cancelled_db_def sample_run_of split: if_splits)

theorem sweep_clears_backlog_witness:
  "\<exists>reported d'. RunDataPurgeSweeper (\<lambda>_ d. d) 2 (Some 1) 9 cancelled_db = Inr ((1, reported, None), d') \<and>
    due_ids (purge_due 7) d' = {}"
  using sweep_clears_backlog [of cancelled_db 1 2 9] sys_inv_cancelled
  by (auto simp: cancelled_due_ids sys_inv_def)

section \<open>The event stream\<close>

lemma listRunEventsAfter_sequences:
  assumes "db_ok d"
  shows "\<exists>n. map e_sequence (listRunEventsAfter u i c limit d) = [Suc c..<Suc c + n] \<and> n \<le> limit"
    and "e \<in> set (listRunEventsAfter u i c limit d) \<Longrightarrow> e \<in> set (events d) \<and> e_runId e = i"
proof -
  let ?es = "filter (\<lambda>e. e_runId e = i) (events d)"
  let ?new = "filter (\<lambda>e. e_runId e = i \<and> c < e_sequence e) (events d)"
  obtain m where m: "map e_sequence ?es = [1..<Suc m]"
  proof (cases "run_of d i")
    case None
    with assms have "map e_sequence ?es = [1..<Suc 0]" by (simp add: db_ok_def events_ok_def)
    then show ?thesis by (rule that)
  next
    case (Some r)
    with assms have "map e_sequence ?es = [1..<Suc (r_eventSequence r)]" by (simp add: db_ok_def events_ok_def)
    then show ?thesis by (rule that)
  qed
  have "map e_sequence ?new = filter (\<lambda>n. c < n) (map e_sequence ?es)"
    by (simp add: filter_map comp_def conj_commute)
  also have "\<dots> = [Suc c..<Suc m]"
    unfolding m by (induction m) (auto simp: not_less)
  finally have new: "map e_sequence ?new = [Suc c..<Suc m]" .
  have "sorted (map e_sequence ?new)" unfolding new by (rule sorted_upt)
  then have sorted: "sort_key e_sequence ?new = ?new" by (rule sort_key_id_if_sorted)
  show "\<exists>n. map e_sequence (listRunEventsAfter u i c limit d) = [Suc c..<Suc c + n] \<and> n \<le> limit"
  proof (cases "visible_run u i d")
    case None
    then show ?thesis by (intro exI [of _ 0]) (simp add: listRunEventsAfter_def)
  next
    case (Some r)
    have "map e_sequence (take limit ?new) = take limit [Suc c..<Suc m]" using new by (metis take_map)
    also have "\<dots> = [Suc c..<Suc c + min limit (m - c)]" 
      by (cases "Suc c + limit \<le> Suc m"; cases "c \<le> m") (simp_all add: take_upt min_def del: upt_Suc)
    finally show ?thesis using Some sorted by (auto simp: listRunEventsAfter_def)
  qed
  show "e \<in> set (events d) \<and> e_runId e = i" if "e \<in> set (listRunEventsAfter u i c limit d)"
    using that by (auto simp: listRunEventsAfter_def dest: in_set_takeD split: if_splits)
qed

lemma upt_append_next: "es = [Suc c..<Suc c + n] \<Longrightarrow> fs = [Suc (c + n)..<Suc (c + n) + k] \<Longrightarrow>
    es @ fs = [Suc c..<Suc c + (n + k)]"
  by (metis add.assoc add_Suc upt_add_eq_append le_add1)

lemma last_sequence:
  assumes "map e_sequence es = [Suc c..<Suc c + n]"
  shows "(if es = [] then c else e_sequence (last es)) = c + n"
proof (cases n)
  case 0
  with assms show ?thesis by simp
next
  case (Suc k)
  with assms have "es \<noteq> []" by auto
  moreover have "last (map e_sequence es) = c + n" unfolding assms using Suc by simp
  ultimately show ?thesis by (simp add: last_map)
qed

text \<open>Whatever happens between its reads, the event stream sends the events of the run without
  a gap, a repetition or a disorder: their sequence numbers are those after the client's cursor,
  one by one, and each is an event that was committed for this run.\<close>

lemma rounds_in_order:
  assumes "\<forall>(d1, d2) \<in> set rounds. db_ok d1"
  shows "(\<exists>n. map e_sequence (fst (stream_rounds u i cursor rounds)) = [Suc cursor..<Suc cursor + n]) \<and>
    (\<forall>e \<in> set (fst (stream_rounds u i cursor rounds)). e_runId e = i \<and> (\<exists>(d1, d2) \<in> set rounds. e \<in> set (events d1)))"
  using assms
proof (induction rounds arbitrary: cursor)
  case Nil
  then show ?case by (auto intro: exI [of _ 0])
next
  case (Cons round rounds)
  obtain d1 d2 where rd: "round = (d1, d2)" by (cases round)
  let ?es = "listRunEventsAfter u i cursor 100 d1"
  let ?next = "if ?es = [] then cursor else e_sequence (last ?es)"
  have ok: "db_ok d1" using Cons.prems rd by simp
  from listRunEventsAfter_sequences(1) [OF ok] obtain n where
    n: "map e_sequence ?es = [Suc cursor..<Suc cursor + n]" by blast
  have own: "\<forall>e \<in> set ?es. e_runId e = i \<and> e \<in> set (events d1)"
    using listRunEventsAfter_sequences(2) [OF ok] by blast
  let ?rest = "fst (stream_rounds u i (cursor + n) rounds)"
  have nxt: "?next = cursor + n" using n by (rule last_sequence)
  from Cons.IH [of "cursor + n"] Cons.prems obtain k where
    k: "map e_sequence ?rest = [Suc (cursor + n)..<Suc (cursor + n) + k]"
    and rest: "\<forall>e \<in> set ?rest. e_runId e = i \<and> (\<exists>(d1, d2) \<in> set rounds. e \<in> set (events d1))" by auto
  have both: "map e_sequence (?es @ ?rest) = [Suc cursor..<Suc cursor + (n + k)]"
    unfolding map_append using n k by (rule upt_append_next)
  have "fst (stream_rounds u i cursor (round # rounds)) = ?es \<or>
      fst (stream_rounds u i cursor (round # rounds)) = ?es @ ?rest"
    unfolding rd stream_rounds.simps Let_def nxt by (auto simp: split_beta split: option.splits)
  then show ?case
  proof
    assume eq: "fst (stream_rounds u i cursor (round # rounds)) = ?es"
    show ?thesis unfolding eq using n own rd by auto
  next
    assume eq: "fst (stream_rounds u i cursor (round # rounds)) = ?es @ ?rest"
    show ?thesis unfolding eq
    proof (intro conjI ballI)
      show "\<exists>m. map e_sequence (?es @ ?rest) = [Suc cursor..<Suc cursor + m]" using both by blast
      fix e assume "e \<in> set (?es @ ?rest)"
      then show "e_runId e = i" "\<exists>(d1, d2) \<in> set (round # rounds). e \<in> set (events d1)"
        using own rest rd by auto
    qed
  qed
qed

text \<open>
  What the stream may leave out: the events of a run that ends between the two reads of a
  round. The stream has closed, and the last event was committed before it read the status.
\<close>

lemma stream_closes_before_last_event:
  "case completeRun 3 1 300 sample_db of
     Inl e \<Rightarrow> False
   | Inr (done, ended) \<Rightarrow> done \<and>
       stream_rounds 7 3 1 [(sample_db, ended)] = ([], StreamClosed) \<and>
       map e_sequence (listRunEventsAfter 7 3 1 100 ended) = [2]"
  by code_simp

end
