(* ===== verification/PreviewTicket.thy ===== *)
theory PreviewTicket
  imports Contracts "HOL-Library.Word"
begin

text \<open>
  Signed preview hosts: \<open>packages/preview/src/ticket.ts\<close>. A ticket is one DNS label, made of
  the session identifier and the expiry in base 36 and a truncated HMAC over both, in front of
  the base domain.

  \<open>createHmac('sha256', secret)\<close> is the parameter \<open>ts_mac\<close> (of the signed message, the secret
  being fixed) and the UUID check of the schema library is the parameter \<open>ts_uuid\<close>. A \<open>Date\<close>
  that may be invalid is \<open>time option\<close>. Numbers in base 36 and 16 are naturals: \<open>BigInt\<close> has no
  bound.
\<close>

section \<open>Numbers in a base\<close>

definition digit_char :: "nat \<Rightarrow> char" where
  "digit_char d = (if d < 10 then char_of (48 + d) else char_of (87 + d))"

fun digits :: "nat \<Rightarrow> nat \<Rightarrow> nat list" where
  "digits b n = (if n < b \<or> b < 2 then [n] else digits b (n div b) @ [n mod b])"

declare digits.simps [simp del]

text \<open>\<open>BigInt.prototype.toString(b)\<close> of a number that is not negative, and \<open>padStart(k, '0')\<close>.\<close>

definition bigint_string :: "nat \<Rightarrow> nat \<Rightarrow> string" where
  "bigint_string b n = map digit_char (digits b n)"

definition pad_zeros :: "nat \<Rightarrow> string \<Rightarrow> string" where
  "pad_zeros k s = replicate (k - length s) (CHR ''0'') @ s"

definition base36_digit :: "char \<Rightarrow> nat option" where
  "base36_digit c = (let code = (of_char c :: nat) in
     if 48 \<le> code \<and> code \<le> 57 then Some (code - 48)
     else if 97 \<le> code \<and> code \<le> 122 then Some (code - 87)
     else None)"

fun base36_loop :: "nat \<Rightarrow> string \<Rightarrow> nat option" where
  "base36_loop r [] = Some r"
| "base36_loop r (c # cs) =
     (case base36_digit c of
        None \<Rightarrow> None
      | Some d \<Rightarrow> (if 36 \<le> d then None else base36_loop (r * 36 + d) cs))"

definition parseBase36 :: "string \<Rightarrow> nat option" where
  "parseBase36 s = base36_loop 0 s"

text \<open>\<open>BigInt(`0x${hex}`)\<close>, which reads both cases and throws on any other character.\<close>

definition hex_digit :: "char \<Rightarrow> nat option" where
  "hex_digit c = (case base36_digit (lower_char c) of
     Some d \<Rightarrow> (if d < 16 then Some d else None) | None \<Rightarrow> None)"

fun hex_loop :: "nat \<Rightarrow> string \<Rightarrow> nat option" where
  "hex_loop r [] = Some r"
| "hex_loop r (c # cs) = (case hex_digit c of None \<Rightarrow> None | Some d \<Rightarrow> hex_loop (r * 16 + d) cs)"

definition bytesToBigInt :: "8 word list \<Rightarrow> nat" where
  "bytesToBigInt bs = foldl (\<lambda>r b. or (push_bit 8 r) (unat b)) 0 bs"

section \<open>Ticket signer\<close>

record ticket_signer =
  ts_mac :: "string \<Rightarrow> 8 word list"
  ts_uuid :: "string \<Rightarrow> bool"
  ts_baseDomain :: string
  ts_protocol :: string

datatype ticket_code = INVALID_HOST | INVALID_SIGNATURE | EXPIRED_TICKET

datatype ticket_throw =
    PreviewTicketError ticket_code
  | TicketZodError
  | TicketSyntaxError
  | TicketTypeError

definition BASE36_SESSION_WIDTH :: nat where "BASE36_SESSION_WIDTH = 25"
definition BASE36_EXPIRY_WIDTH :: nat where "BASE36_EXPIRY_WIDTH = 9"
definition BASE36_MAC_WIDTH :: nat where "BASE36_MAC_WIDTH = 25"
definition MAC_BYTES :: nat where "MAC_BYTES = 16"
definition MAX_UUID_VALUE :: nat where "MAX_UUID_VALUE = 2 ^ 128 - 1"
definition MAX_SAFE_INTEGER :: int where "MAX_SAFE_INTEGER = 2 ^ 53 - 1"

definition safe_integer :: "int \<Rightarrow> bool" where
  "safe_integer i \<longleftrightarrow> - MAX_SAFE_INTEGER \<le> i \<and> i \<le> MAX_SAFE_INTEGER"

definition alnum :: "char \<Rightarrow> bool" where
  "alnum c \<longleftrightarrow> base36_digit c \<noteq> None"

text \<open>The schema of the base domain: at least two DNS labels, after trimming and lower-casing.\<close>

definition dns_label :: "string \<Rightarrow> bool" where
  "dns_label s \<longleftrightarrow> 1 \<le> length s \<and> length s \<le> 63 \<and>
     list_all (\<lambda>c. alnum c \<or> c = CHR ''-'') s \<and> alnum (hd s) \<and> alnum (last s)"

definition valid_base_domain :: "string \<Rightarrow> bool" where
  "valid_base_domain s \<longleftrightarrow> 3 \<le> length s \<and> length s \<le> 253 \<and>
     2 \<le> length (split_on (CHR ''.'') s) \<and> list_all dns_label (split_on (CHR ''.'') s)"

definition utf8_length :: "string \<Rightarrow> nat" where
  "utf8_length s = sum_list (map (\<lambda>c. if (of_char c :: nat) < 128 then 1 else 2) s)"

definition new_signer ::
  "(string \<Rightarrow> string \<Rightarrow> 8 word list) \<Rightarrow> (string \<Rightarrow> bool) \<Rightarrow> string \<Rightarrow> string \<Rightarrow> string option \<Rightarrow>
   ticket_throw + ticket_signer" where
  "new_signer hmac is_uuid secret baseDomain protocol =
     (if utf8_length secret < 32 then Inl TicketTypeError
      else (let domain = js_toLowerCase (js_trim baseDomain) in
        if \<not> valid_base_domain domain then Inl TicketZodError
        else Inr \<lparr>ts_mac = hmac secret, ts_uuid = is_uuid, ts_baseDomain = domain,
                  ts_protocol = (case protocol of Some p \<Rightarrow> p | None \<Rightarrow> ''https'')\<rparr>))"

definition signature :: "ticket_signer \<Rightarrow> string \<Rightarrow> string \<Rightarrow> string" where
  "signature S sessionId expiryLabel =
     (let mac = take MAC_BYTES (ts_mac S (sessionId @ ''.'' @ expiryLabel @ ''.'' @ ts_baseDomain S))
      in pad_zeros BASE36_MAC_WIDTH (bigint_string 36 (bytesToBigInt mac)))"

definition encodeUuidBase36 :: "string \<Rightarrow> ticket_throw + string" where
  "encodeUuidBase36 sessionId =
     (let hex = filter (\<lambda>c. c \<noteq> CHR ''-'') sessionId in
      if hex = [] then Inl TicketSyntaxError
      else (case hex_loop 0 hex of
          None \<Rightarrow> Inl TicketSyntaxError
        | Some n \<Rightarrow> Inr (pad_zeros BASE36_SESSION_WIDTH (bigint_string 36 n))))"

text \<open>The five groups of a UUID, cut out of 32 hexadecimal digits.\<close>

definition uuid_layout :: "string \<Rightarrow> string" where
  "uuid_layout hex = take 8 hex @ ''-'' @ take 4 (drop 8 hex) @ ''-'' @ take 4 (drop 12 hex) @
     ''-'' @ take 4 (drop 16 hex) @ ''-'' @ drop 20 hex"

text \<open>\<open>None\<close> stands for any throw: the caller turns each of them into \<open>INVALID_HOST\<close>.\<close>

definition decodeUuidBase36 :: "ticket_signer \<Rightarrow> string \<Rightarrow> string option" where
  "decodeUuidBase36 S value =
     (case parseBase36 value of
        None \<Rightarrow> None
      | Some n \<Rightarrow>
          (if MAX_UUID_VALUE < n then None
           else (let sessionId = uuid_layout (pad_zeros 32 (bigint_string 16 n))
             in if ts_uuid S sessionId then Some sessionId else None)))"

definition valid_ticket_label :: "string \<Rightarrow> bool" where
  "valid_ticket_label s \<longleftrightarrow> length s = 61 \<and>
     (case split_on (CHR ''-'') s of
        [a, b, c] \<Rightarrow> length a = 25 \<and> length b = 9 \<and> length c = 25 \<and>
          list_all alnum a \<and> list_all alnum b \<and> list_all alnum c
      | _ \<Rightarrow> False)"

definition issue :: "ticket_signer \<Rightarrow> string \<Rightarrow> time option \<Rightarrow> time \<Rightarrow> ticket_throw + string" where
  "issue S sessionId expiresAt now =
     (if \<not> ts_uuid S sessionId then Inl TicketZodError
      else (case expiresAt of
        None \<Rightarrow> Inl (PreviewTicketError INVALID_HOST)
      | Some ms \<Rightarrow>
          (if ms \<le> now then Inl (PreviewTicketError EXPIRED_TICKET)
           else if \<not> safe_integer ms then Inl (PreviewTicketError INVALID_HOST)
           else bind_res (encodeUuidBase36 sessionId) (\<lambda>sessionLabel.
             let expiryLabel = pad_zeros BASE36_EXPIRY_WIDTH
                   ((if ms < 0 then ''-'' else []) @ bigint_string 36 (nat \<bar>ms\<bar>))
             in if length expiryLabel \<noteq> BASE36_EXPIRY_WIDTH then Inl (PreviewTicketError INVALID_HOST)
             else (let label = sessionLabel @ ''-'' @ expiryLabel @ ''-'' @ signature S sessionId expiryLabel
               in if \<not> valid_ticket_label label then Inl TicketZodError
                  else Inr (ts_protocol S @ ''://'' @ label @ ''.'' @ ts_baseDomain S @ ''/''))))))"

text \<open>\<open>replace(/:\d+$/, '')\<close>\<close>

definition is_digit :: "char \<Rightarrow> bool" where
  "is_digit c \<longleftrightarrow> (48::nat) \<le> of_char c \<and> of_char c \<le> (57::nat)"

definition strip_port :: "string \<Rightarrow> string" where
  "strip_port s =
     (case dropWhile is_digit (rev s) of
        c # r \<Rightarrow> (if c = CHR '':'' \<and> takeWhile is_digit (rev s) \<noteq> [] then rev r else s)
      | [] \<Rightarrow> s)"

definition normalize_host :: "string \<Rightarrow> string" where
  "normalize_host h = strip_port (js_toLowerCase (js_trim h))"

definition verifyHost :: "ticket_signer \<Rightarrow> string \<Rightarrow> time \<Rightarrow> ticket_code + string \<times> time" where
  "verifyHost S untrustedHost now =
     (let host = normalize_host untrustedHost; suff = CHR ''.'' # ts_baseDomain S in
      if \<not> suffix suff host then Inl INVALID_HOST
      else (let label = take (length host - length suff) host in
        if \<not> valid_ticket_label label then Inl INVALID_HOST
        else (case split_on (CHR ''-'') label of
           [sessionCandidate, expiryCandidate, signatureCandidate] \<Rightarrow>
             (case (decodeUuidBase36 S sessionCandidate, parseBase36 expiryCandidate) of
                (Some sessionId, Some expiresAtMs) \<Rightarrow>
                  (if \<not> safe_integer (int expiresAtMs) then Inl INVALID_HOST
                   else if signature S sessionId expiryCandidate \<noteq> signatureCandidate
                        then Inl INVALID_SIGNATURE
                   else if int expiresAtMs \<le> now then Inl EXPIRED_TICKET
                   else Inr (sessionId, int expiresAtMs))
              | _ \<Rightarrow> Inl INVALID_HOST)
         | _ \<Rightarrow> Inl INVALID_HOST)))"

end
