(* ===== verification/PreviewGateway.thy ===== *)
theory PreviewGateway
  imports PreviewTicket
begin

text \<open>
  The preview session store of \<open>packages/preview/src/session-store.ts\<close> and the preview gateway
  of \<open>apps/preview-gateway/src/gateway.ts\<close>.

  Parameters: the Redis client (a record of the three commands the store sends, over any state),
  the JSON codec together with the target schema, and URL parsing (\<open>new URL(s)\<close> and
  \<open>new URL(path, base)\<close>, \<open>None\<close> where they throw). An upstream connection is not modelled: the
  gateway's answer says to which URL and with which headers a request is forwarded. Header
  records are maps, for no code reads their order; the value of a header is a string, or a list
  of strings where Node gives one.
\<close>

section \<open>Session store\<close>

record preview_target =
  pt_sessionId :: string
  pt_workspaceId :: string
  pt_projectId :: string
  pt_runId :: string
  pt_upstreamUrl :: string
  pt_requestHeaders :: "(string \<times> string) list"
  pt_expiresAt :: time

datatype store_error = StoreZodError | StoreRangeError | StoreRedisError

record 'r redis_client =
  rc_set :: "string \<Rightarrow> string \<Rightarrow> int \<Rightarrow> 'r \<Rightarrow> store_error + 'r"
  rc_get :: "string \<Rightarrow> 'r \<Rightarrow> store_error + string option"
  rc_del :: "string \<Rightarrow> 'r \<Rightarrow> store_error + 'r"

record 'r session_store =
  ss_client :: "'r redis_client"
  ss_keyPrefix :: string
  ss_parse_target :: "preview_target \<Rightarrow> preview_target option"
  ss_stringify :: "preview_target \<Rightarrow> string"
  ss_parse_json :: "string \<Rightarrow> preview_target option"
  ss_uuid :: "string \<Rightarrow> bool"

definition store_key :: "'r session_store \<Rightarrow> string \<Rightarrow> string" where
  "store_key P sessionId = ss_keyPrefix P @ sessionId"

definition put_target :: "'r session_store \<Rightarrow> preview_target \<Rightarrow> time \<Rightarrow> 'r \<Rightarrow> store_error + 'r" where
  "put_target P t now r =
     (case ss_parse_target P t of
        None \<Rightarrow> Inl StoreZodError
      | Some parsed \<Rightarrow>
          (let ttlMs = pt_expiresAt parsed - now in
           if ttlMs \<le> 0 then Inl StoreRangeError
           else rc_set (ss_client P) (store_key P (pt_sessionId parsed)) (ss_stringify P parsed) ttlMs r))"

definition delete_target :: "'r session_store \<Rightarrow> string \<Rightarrow> 'r \<Rightarrow> store_error + 'r" where
  "delete_target P sessionId r =
     (if \<not> ss_uuid P sessionId then Inl StoreZodError
      else rc_del (ss_client P) (store_key P sessionId) r)"

definition get_target :: "'r session_store \<Rightarrow> string \<Rightarrow> time \<Rightarrow> 'r \<Rightarrow> store_error + preview_target option \<times> 'r" where
  "get_target P sessionId now r =
     (if \<not> ss_uuid P sessionId then Inl StoreZodError
      else bind_res (rc_get (ss_client P) (store_key P sessionId) r) (\<lambda>v.
        case v of
          None \<Rightarrow> Inr (None, r)
        | Some s \<Rightarrow>
            (case ss_parse_json P s of
               None \<Rightarrow> Inl StoreZodError
             | Some t \<Rightarrow>
                 (if pt_expiresAt t \<le> now
                  then bind_res (delete_target P sessionId r) (\<lambda>r'. Inr (None, r'))
                  else Inr (Some t, r)))))"

section \<open>Gateway\<close>

record url =
  url_protocol :: string
  url_host :: string
  url_origin :: string
  url_path :: string

datatype header_value = Line string | Lines "string list"

type_synonym headers = "string \<Rightarrow> header_value option"

record 'r gateway =
  gw_signer :: ticket_signer
  gw_store :: "'r session_store"
  gw_uiOrigin :: string
  gw_parse_url :: "string \<Rightarrow> url option"
  gw_join_url :: "string \<Rightarrow> url \<Rightarrow> url option"

datatype gateway_error = GatewayRequestError nat | OtherGatewayError

definition hopByHopHeaders :: "string list" where
  "hopByHopHeaders = [''connection'', ''keep-alive'', ''proxy-authenticate'', ''proxy-authorization'',
     ''te'', ''trailer'', ''transfer-encoding'', ''upgrade'']"

definition resolveTarget :: "'r gateway \<Rightarrow> string option \<Rightarrow> time \<Rightarrow> 'r \<Rightarrow> (gateway_error + preview_target) \<times> 'r" where
  "resolveTarget G host now r =
     (case host of
        None \<Rightarrow> (Inl (GatewayRequestError 401), r)
      | Some h \<Rightarrow>
          (case verifyHost (gw_signer G) h now of
             Inl c \<Rightarrow> (Inl (GatewayRequestError (if c = EXPIRED_TICKET then 410 else 401)), r)
           | Inr (sessionId, _) \<Rightarrow>
               (case get_target (gw_store G) sessionId now r of
                  Inl _ \<Rightarrow> (Inl OtherGatewayError, r)
                | Inr (None, r') \<Rightarrow> (Inl (GatewayRequestError 404), r')
                | Inr (Some t, r') \<Rightarrow>
                    (if pt_sessionId t \<noteq> sessionId then (Inl (GatewayRequestError 404), r')
                     else (Inr t, r')))))"

definition upstreamRequestUrl :: "'r gateway \<Rightarrow> string option \<Rightarrow> preview_target \<Rightarrow> gateway_error + url" where
  "upstreamRequestUrl G requestUrl t =
     (let path = (case requestUrl of Some p \<Rightarrow> p | None \<Rightarrow> ''/'') in
      if \<not> prefix ''/'' path \<or> prefix ''//'' path \<or> prefix [CHR ''/'', CHR 0x5C] path
      then Inl (GatewayRequestError 400)
      else (case gw_parse_url G (pt_upstreamUrl t) of
        None \<Rightarrow> Inl OtherGatewayError
      | Some upstream \<Rightarrow>
          (case gw_join_url G path upstream of
             None \<Rightarrow> Inl OtherGatewayError
           | Some u \<Rightarrow> (if url_origin u \<noteq> url_origin upstream then Inl (GatewayRequestError 400) else Inr u))))"

text \<open>Writing a property of a plain object; a string written to \<open>__proto__\<close> is ignored.\<close>

definition put_header :: "string \<Rightarrow> header_value \<Rightarrow> headers \<Rightarrow> headers" where
  "put_header n v h = (if n = ''__proto__'' then h else h(n \<mapsto> v))"

definition hop_by_hop :: "string \<Rightarrow> bool" where
  "hop_by_hop n \<longleftrightarrow> js_toLowerCase n \<in> set hopByHopHeaders"

definition requestHeaders :: "headers \<Rightarrow> preview_target \<Rightarrow> string option \<Rightarrow> string \<Rightarrow> headers" where
  "requestHeaders incoming t originalHost upstreamHost =
     (let h0 = (\<lambda>n. if hop_by_hop n \<or> n = ''__proto__'' then None else incoming n);
          h1 = put_header ''host'' (Line upstreamHost) h0;
          h2 = put_header ''x-forwarded-host'' (Line (case originalHost of Some h \<Rightarrow> h | None \<Rightarrow> [])) h1;
          h3 = put_header ''x-forwarded-proto'' (Line ''https'') h2
      in foldl (\<lambda>h (n, v). put_header n (Line v) h) h3 (pt_requestHeaders t))"

definition frame_policy :: "string \<Rightarrow> string" where
  "frame_policy uiOrigin =
     ''default-src 'self' data: blob:; script-src 'self' 'unsafe-inline' 'unsafe-eval' blob:; '' @
     ''style-src 'self' 'unsafe-inline'; img-src 'self' data: blob: https:; font-src 'self' data:; '' @
     ''connect-src 'self'; frame-ancestors '' @ uiOrigin @ ''; object-src 'none'; base-uri 'self'; form-action '' @ [CHR 0x27] @ ''self'' @ [CHR 0x27]"

definition responseHeaders :: "headers \<Rightarrow> string \<Rightarrow> headers" where
  "responseHeaders incoming uiOrigin =
     (let h0 = (\<lambda>n. if hop_by_hop n \<or> n = ''__proto__'' \<or>
                      js_toLowerCase n \<in> {''content-security-policy'', ''x-frame-options''}
                    then None else incoming n);
          h1 = put_header ''cache-control'' (Line ''no-store'') h0;
          h2 = put_header ''content-security-policy'' (Line (frame_policy uiOrigin)) h1;
          h3 = put_header ''permissions-policy''
                 (Line ''camera=(), microphone=(), geolocation=(), payment=(), usb=()'') h2;
          h4 = put_header ''referrer-policy'' (Line ''no-referrer'') h3
      in put_header ''x-content-type-options'' (Line ''nosniff'') h4)"

definition publicErrorMessage :: "nat \<Rightarrow> string" where
  "publicErrorMessage c =
     (if c = 400 then ''Invalid preview request''
      else if c = 401 then ''Invalid preview URL''
      else if c = 404 then ''Preview not found''
      else if c = 410 then ''Preview expired''
      else ''Preview gateway error'')"

definition statusText :: "nat \<Rightarrow> string" where
  "statusText c =
     (if c = 400 then ''Bad Request''
      else if c = 401 then ''Unauthorized''
      else if c = 404 then ''Not Found''
      else if c = 410 then ''Gone''
      else ''Bad Gateway'')"

record preview_request =
  rq_url :: "string option"
  rq_method :: string
  rq_headers :: headers

definition request_host :: "preview_request \<Rightarrow> string option" where
  "request_host q = (case rq_headers q ''host'' of Some (Line h) \<Rightarrow> Some h | _ \<Rightarrow> None)"

datatype gateway_answer =
    Healthy
  | Forward url string headers
  | AnswerError nat string

text \<open>The request handler, up to the connection to the upstream.\<close>

definition gateway_request :: "'r gateway \<Rightarrow> preview_request \<Rightarrow> time \<Rightarrow> 'r \<Rightarrow> gateway_answer \<times> 'r" where
  "gateway_request G q now r =
     (if rq_url q = Some ''/healthz'' then (Healthy, r)
      else (case resolveTarget G (request_host q) now r of
        (res, r') \<Rightarrow>
          (case bind_res res (\<lambda>t. bind_res (upstreamRequestUrl G (rq_url q) t) (\<lambda>u. Inr (t, u))) of
             Inr (t, u) \<Rightarrow>
               (Forward u (rq_method q) (requestHeaders (rq_headers q) t (request_host q) (url_host u)), r')
           | Inl e \<Rightarrow>
               (let code = (case e of GatewayRequestError c \<Rightarrow> c | OtherGatewayError \<Rightarrow> 500)
                in (AnswerError code (publicErrorMessage code), r')))))"

text \<open>\<open>proxyUpgrade\<close>: a WebSocket upgrade, up to the connection to the upstream.\<close>

definition gateway_upgrade :: "'r gateway \<Rightarrow> preview_request \<Rightarrow> time \<Rightarrow> 'r \<Rightarrow> gateway_answer \<times> 'r" where
  "gateway_upgrade G q now r =
     (case resolveTarget G (request_host q) now r of
        (res, r') \<Rightarrow>
          (case bind_res res (\<lambda>t. bind_res (upstreamRequestUrl G (rq_url q) t) (\<lambda>u. Inr (t, u))) of
             Inr (t, u) \<Rightarrow>
               (let h0 = requestHeaders (rq_headers q) t (request_host q) (url_host u);
                    h1 = put_header ''connection'' (Line ''Upgrade'') h0;
                    h2 = put_header ''upgrade''
                      (case rq_headers q ''upgrade'' of Some v \<Rightarrow> v | None \<Rightarrow> Line ''websocket'') h1
                in (Forward u (rq_method q) h2, r'))
           | Inl e \<Rightarrow>
               (let code = (case e of GatewayRequestError c \<Rightarrow> c | OtherGatewayError \<Rightarrow> 502)
                in (AnswerError code (statusText code), r'))))"

definition parseUiOrigin :: "(string \<Rightarrow> url option) \<Rightarrow> string \<Rightarrow> string option" where
  "parseUiOrigin parse_url v =
     (case parse_url v of
        None \<Rightarrow> None
      | Some u \<Rightarrow> (if url_protocol u \<notin> {''http:'', ''https:''} \<or> url_origin u = ''null'' then None
                   else Some (url_origin u)))"

definition buildPreviewGateway ::
  "ticket_signer \<Rightarrow> 'r session_store \<Rightarrow> string \<Rightarrow> (string \<Rightarrow> url option) \<Rightarrow> (string \<Rightarrow> url \<Rightarrow> url option) \<Rightarrow>
   'r gateway option" where
  "buildPreviewGateway S P uiOrigin parse_url join_url =
     map_option (\<lambda>origin. \<lparr>gw_signer = S, gw_store = P, gw_uiOrigin = origin,
       gw_parse_url = parse_url, gw_join_url = join_url\<rparr>) (parseUiOrigin parse_url uiOrigin)"

end
