(* ===== verification/TicketProperties.thy ===== *)
theory TicketProperties
  imports PreviewTicket
begin

text \<open>
  Facts about \<open>PreviewTicket\<close>: the positional notation is a bijection between numbers and
  digit strings of a fixed width, hence a signed host is accepted exactly when it is the host
  that the signer issues for the session and the expiry that it names.
\<close>

section \<open>Positional notation\<close>

definition horner :: "nat \<Rightarrow> nat list \<Rightarrow> nat" where
  "horner b ds = foldl (\<lambda>r d. r * b + d) 0 ds"

definition below :: "nat \<Rightarrow> nat list \<Rightarrow> bool" where
  "below b ds \<longleftrightarrow> (\<forall>d \<in> set ds. d < b)"

lemma below_simps [simp]:
  "below b []" "below b (d # ds) \<longleftrightarrow> d < b \<and> below b ds"
  "below b (xs @ ys) \<longleftrightarrow> below b xs \<and> below b ys"
  by (auto simp: below_def)

lemma below_replicate [simp]: "0 < b \<Longrightarrow> below b (replicate k 0)"
  by (simp add: below_def)

lemma horner_simps [simp]: "horner b [] = 0" "horner b (ds @ [d]) = horner b ds * b + d"
  by (simp_all add: horner_def)

lemma horner_zeros [simp]: "horner b (replicate k 0 @ ds) = horner b ds"
proof (induction ds rule: rev_induct)
  case Nil
  have "horner b (replicate k 0) = 0"
    by (induction k) (simp_all add: horner_def)
  then show ?case by simp
next
  case (snoc d ds)
  then show ?case by (metis append_assoc horner_simps(2))
qed

lemma digits_below: "2 \<le> b \<Longrightarrow> below b (digits b n)"
  by (induction b n rule: digits.induct) (subst digits.simps, simp)

lemma horner_digits: "2 \<le> b \<Longrightarrow> horner b (digits b n) = n"
proof (induction b n rule: digits.induct)
  case (1 b n)
  show ?case
  proof (cases "n < b")
    case True
    then show ?thesis by (subst digits.simps) (simp add: horner_def)
  next
    case False
    then show ?thesis using 1 by (subst digits.simps) simp
  qed
qed

lemma length_digits: "2 \<le> b \<Longrightarrow> 1 \<le> k \<Longrightarrow> length (digits b n) \<le> k \<longleftrightarrow> n < b ^ k"
proof (induction b n arbitrary: k rule: digits.induct)
  case (1 b n)
  show ?case
  proof (cases "n < b")
    case True
    moreover have "b \<le> b ^ k" using 1(2,3) by (simp add: self_le_power)
    ultimately show ?thesis using 1(3) by (subst digits.simps) simp
  next
    case False
    show ?thesis
    proof (cases "k = 1")
      case True
      have "digits b (n div b) \<noteq> []" by (subst digits.simps) simp
      then have "0 < length (digits b (n div b))" by simp
      with True False 1(2) show ?thesis by (subst digits.simps) simp
    next
      case False
      with 1(3) obtain j where k: "k = Suc j" "1 \<le> j" by (cases k) auto
      have "length (digits b (n div b)) \<le> j \<longleftrightarrow> n div b < b ^ j"
        using 1 \<open>\<not> n < b\<close> k by simp
      also have "\<dots> \<longleftrightarrow> n < b ^ k"
        using 1(2) k by (simp add: div_less_iff_less_mult mult.commute)
      finally show ?thesis using \<open>\<not> n < b\<close> 1(2) k by (subst digits.simps) simp
    qed
  qed
qed

lemma horner_inj:
  "2 \<le> b \<Longrightarrow> below b xs \<Longrightarrow> below b ys \<Longrightarrow> length xs = length ys \<Longrightarrow> horner b xs = horner b ys \<Longrightarrow> xs = ys"
proof (induction xs arbitrary: ys rule: rev_induct)
  case (snoc x xs)
  then obtain y zs where ys: "ys = zs @ [y]" by (cases ys rule: rev_cases) auto
  with snoc.prems have e: "horner b xs * b + x = horner b zs * b + y" "x < b" "y < b" by simp_all
  then have "x = y" by (metis mod_less mod_mult_self3)
  moreover from this e snoc.prems(1) have "horner b xs = horner b zs" by simp
  ultimately show ?case using snoc ys by simp
qed simp

lemma horner_less: "2 \<le> b \<Longrightarrow> below b ds \<Longrightarrow> horner b ds < b ^ length ds"
proof (induction ds rule: rev_induct)
  case (snoc d ds)
  then have "horner b ds + 1 \<le> b ^ length ds" by simp
  then have "(horner b ds + 1) * b \<le> b ^ length ds * b" by (rule mult_le_mono1)
  with snoc.prems show ?case by (simp add: algebra_simps)
qed simp

text \<open>The digits of a number, filled up with zeros to a width.\<close>

definition wide_digits :: "nat \<Rightarrow> nat \<Rightarrow> nat \<Rightarrow> nat list" where
  "wide_digits k b n = replicate (k - length (digits b n)) 0 @ digits b n"

lemma wide_digits:
  assumes "2 \<le> b" "1 \<le> k" "n < b ^ k"
  shows "length (wide_digits k b n) = k" "below b (wide_digits k b n)" "horner b (wide_digits k b n) = n"
  using assms length_digits [OF assms(1,2), of n] digits_below [OF assms(1), of n] horner_digits [OF assms(1), of n]
  by (simp_all add: wide_digits_def)

lemma wide_digits_unique:
  assumes "2 \<le> b" "1 \<le> length ds" "below b ds"
  shows "wide_digits (length ds) b (horner b ds) = ds"
  using horner_inj [OF assms(1)] wide_digits [OF assms(1,2) horner_less [OF assms(1,3)]] assms(3) by metis

lemma digit_char_zero: "digit_char 0 = CHR ''0''"
  by code_simp

lemma pad_bigint: "pad_zeros k (bigint_string b n) = map digit_char (wide_digits k b n)"
  by (simp add: pad_zeros_def bigint_string_def wide_digits_def digit_char_zero)

section \<open>Digit characters\<close>

lemma base36_digit_char [simp]: "d < 36 \<Longrightarrow> base36_digit (digit_char d) = Some d"
  by (auto simp: base36_digit_def digit_char_def Let_def)

lemma base36_digit_Some:
  assumes "base36_digit c = Some d"
  shows "c = digit_char d \<and> d < 36"
proof -
  have c: "c = char_of (of_char c :: nat)" by simp
  from assms have "(of_char c :: nat) = (if d < 10 then 48 + d else 87 + d) \<and> d < 36"
    by (auto simp: base36_digit_def Let_def split: if_splits)
  then show ?thesis using c by (auto simp: digit_char_def split: if_splits)
qed

lemma digit_char_inj: "d < 36 \<Longrightarrow> e < 36 \<Longrightarrow> digit_char d = digit_char e \<longleftrightarrow> d = e"
  by (metis base36_digit_char option.inject)

lemma lower_digit_char [simp]: "d < 36 \<Longrightarrow> lower_char (digit_char d) = digit_char d"
  by (auto simp: lower_char_def digit_char_def Let_def)

lemma alnum_digit_char: "alnum c \<longleftrightarrow> (\<exists>d < 36. c = digit_char d)"
  by (auto simp: alnum_def dest: base36_digit_Some)

lemma below_map: "below 36 ds \<Longrightarrow> list_all alnum (map digit_char ds)"
  by (induction ds) (auto simp: alnum_digit_char)

lemma alnum_list: "list_all alnum s \<Longrightarrow> \<exists>ds. s = map digit_char ds \<and> below 36 ds"
proof (induction s)
  case (Cons c s)
  then obtain d ds where "d < 36" "c = digit_char d" "s = map digit_char ds" "below 36 ds"
    by (auto simp: alnum_digit_char [of c])
  then show ?case by (intro exI [of _ "d # ds"]) simp
qed simp

lemma base36_loop_map: "below 36 ds \<Longrightarrow> base36_loop r (map digit_char ds) = Some (foldl (\<lambda>r d. r * 36 + d) r ds)"
  by (induction ds arbitrary: r) auto

lemma parseBase36_map: "below 36 ds \<Longrightarrow> parseBase36 (map digit_char ds) = Some (horner 36 ds)"
  by (simp add: parseBase36_def base36_loop_map horner_def)

lemma hex_loop_map: "below 16 ds \<Longrightarrow> hex_loop r (map digit_char ds) = Some (foldl (\<lambda>r d. r * 16 + d) r ds)"
  by (induction ds arbitrary: r) (auto simp: hex_digit_def)

lemma parse_pad:
  assumes "1 \<le> k" "n < 36 ^ k"
  shows "parseBase36 (pad_zeros k (bigint_string 36 n)) = Some n"
  using wide_digits [of 36 k n] assms by (simp add: pad_bigint parseBase36_map)

lemma pad_parse:
  assumes "list_all alnum s" "s \<noteq> []" "parseBase36 s = Some n"
  shows "pad_zeros (length s) (bigint_string 36 n) = s" "n < 36 ^ length s"
proof -
  from assms(1) obtain ds where s: "s = map digit_char ds" "below 36 ds" using alnum_list by blast
  with assms(2) have "1 \<le> length ds" by (cases ds) auto
  then have "wide_digits (length ds) 36 (horner 36 ds) = ds" using s(2) by (intro wide_digits_unique) simp_all
  moreover have n: "n = horner 36 ds" using assms(3) s by (simp add: parseBase36_map)
  ultimately show "pad_zeros (length s) (bigint_string 36 n) = s" by (simp add: s pad_bigint)
  show "n < 36 ^ length s" using horner_less [of 36 ds] s n by simp
qed

lemma pad_alnum: "2 \<le> b \<Longrightarrow> b \<le> 36 \<Longrightarrow> list_all alnum (pad_zeros k (bigint_string b n))"
proof -
  assume b: "2 \<le> b" "b \<le> 36"
  then have "below 36 (wide_digits k b n)"
    using digits_below [of b n] by (auto simp: wide_digits_def below_def dest: less_le_trans)
  then show ?thesis by (simp add: pad_bigint below_map)
qed

lemma length_pad: "2 \<le> b \<Longrightarrow> 1 \<le> k \<Longrightarrow> length (pad_zeros k (bigint_string b n)) = k \<longleftrightarrow> n < b ^ k"
  using length_digits [of b k n] by (auto simp: pad_zeros_def bigint_string_def)

section \<open>Identifiers\<close>

text \<open>The documented format of a UUID, in either case.\<close>

definition uuid_shape :: "string \<Rightarrow> bool" where
  "uuid_shape s \<longleftrightarrow> (\<exists>hex. length hex = 32 \<and> list_all (\<lambda>c. hex_digit c \<noteq> None) hex \<and> s = uuid_layout hex)"

definition uuids_have_shape :: "ticket_signer \<Rightarrow> bool" where
  "uuids_have_shape S \<longleftrightarrow> (\<forall>s. ts_uuid S s \<longrightarrow> uuid_shape s)"

lemma cut: "take j (drop i xs) @ drop (i + j) xs = drop i xs"
  by (metis add.commute append_take_drop_id drop_drop)

lemma split_hex:
  "take 8 hex @ take 4 (drop 8 hex) @ take 4 (drop 12 hex) @ take 4 (drop 16 hex) @ drop 20 hex = hex"
  using cut [of 8 0 hex] cut [of 4 8 hex] cut [of 4 12 hex] cut [of 4 16 hex] by simp

lemma filter_part: "CHR ''-'' \<notin> set hex \<Longrightarrow> filter (\<lambda>c. c \<noteq> CHR ''-'') (take n (drop m hex)) = take n (drop m hex)"
  by (rule filter_True) (auto dest: in_set_takeD in_set_dropD)

lemma strip_layout:
  assumes "CHR ''-'' \<notin> set hex"
  shows "filter (\<lambda>c. c \<noteq> CHR ''-'') (uuid_layout hex) = hex"
proof -
  have "filter (\<lambda>c. c \<noteq> CHR ''-'') (take 8 hex) = take 8 hex"
    "filter (\<lambda>c. c \<noteq> CHR ''-'') (drop 20 hex) = drop 20 hex"
    using assms by (auto intro!: filter_True dest: in_set_takeD in_set_dropD)
  then show ?thesis
    using split_hex [of hex] filter_part [OF assms] by (simp only: uuid_layout_def filter_append filter.simps) simp
qed

lemma lower_layout: "js_toLowerCase (uuid_layout hex) = uuid_layout (js_toLowerCase hex)"
proof -
  have "lower_char (CHR ''-'') = CHR ''-''" by code_simp
  then show ?thesis by (simp add: uuid_layout_def js_toLowerCase_def take_map drop_map)
qed

lemma dash_not_hex: "hex_digit (CHR ''-'') = None"
  by code_simp

lemma dash_not_alnum: "\<not> alnum (CHR ''-'')"
  by code_simp

lemma hex_digit_lower: "hex_digit c = Some d \<Longrightarrow> lower_char c = c \<Longrightarrow> c = digit_char d \<and> d < 16"
  by (auto simp: hex_digit_def split: option.splits if_splits dest: base36_digit_Some)

lemma hex_digits_lower:
  "list_all (\<lambda>c. hex_digit c \<noteq> None) hex \<Longrightarrow> js_toLowerCase hex = hex \<Longrightarrow> \<exists>ds. hex = map digit_char ds \<and> below 16 ds"
proof (induction hex)
  case (Cons c hex)
  then obtain d ds where "c = digit_char d" "d < 16" "hex = map digit_char ds" "below 16 ds"
    by (auto simp: js_toLowerCase_def dest: hex_digit_lower)
  then show ?case by (intro exI [of _ "d # ds"]) simp
qed simp

lemma lower_uuid_digits:
  assumes "uuid_shape sid" "js_toLowerCase sid = sid"
  obtains ds where "length ds = 32" "below 16 ds" "sid = uuid_layout (map digit_char ds)"
proof -
  from assms(1) obtain hex where hex: "length hex = 32" "list_all (\<lambda>c. hex_digit c \<noteq> None) hex" "sid = uuid_layout hex"
    by (auto simp: uuid_shape_def)
  have low: "list_all (\<lambda>c. hex_digit c \<noteq> None) (js_toLowerCase hex)"
    using hex(2) by (induction hex) (auto simp: js_toLowerCase_def hex_digit_def lower_char_def Let_def)
  have nodash: "CHR ''-'' \<notin> set h" if "list_all (\<lambda>c. hex_digit c \<noteq> None) h" for h
    using that dash_not_hex by (auto simp: list_all_iff)
  have "uuid_layout (js_toLowerCase hex) = uuid_layout hex"
    using assms(2) hex(3) by (simp add: lower_layout)
  then have "js_toLowerCase hex = hex"
    using strip_layout [OF nodash [OF hex(2)]] strip_layout [OF nodash [OF low]] by metis
  from hex_digits_lower [OF hex(2) this] hex that show thesis by auto
qed

lemma hex_digits_no_dash: "below 36 ds \<Longrightarrow> CHR ''-'' \<notin> set (map digit_char ds)"
  using below_map dash_not_alnum unfolding list_all_iff by blast

lemma below_mono: "below b ds \<Longrightarrow> b \<le> c \<Longrightarrow> below c ds"
  by (auto simp: below_def)

lemma encode_digits:
  assumes "length ds = 32" "below 16 ds"
  shows "encodeUuidBase36 (uuid_layout (map digit_char ds)) = Inr (pad_zeros 25 (bigint_string 36 (horner 16 ds)))"
    and "horner 16 ds \<le> MAX_UUID_VALUE"
proof -
  have "CHR ''-'' \<notin> set (map digit_char ds)"
    by (rule hex_digits_no_dash [OF below_mono [OF assms(2)]]) simp
  then have "filter (\<lambda>c. c \<noteq> CHR ''-'') (uuid_layout (map digit_char ds)) = map digit_char ds"
    by (rule strip_layout)
  moreover have "map digit_char ds \<noteq> []" using assms(1) by auto
  ultimately show "encodeUuidBase36 (uuid_layout (map digit_char ds)) = Inr (pad_zeros 25 (bigint_string 36 (horner 16 ds)))"
    using hex_loop_map [OF assms(2), of 0]
    by (simp add: encodeUuidBase36_def BASE36_SESSION_WIDTH_def horner_def)
  show "horner 16 ds \<le> MAX_UUID_VALUE"
    using horner_less [of 16 ds] assms by (simp add: MAX_UUID_VALUE_def)
qed

lemma layout_of_number:
  assumes "length ds = 32" "below 16 ds"
  shows "uuid_layout (pad_zeros 32 (bigint_string 16 (horner 16 ds))) = uuid_layout (map digit_char ds)"
  using wide_digits_unique [of 16 ds] assms by (simp add: pad_bigint)

text \<open>Encoding and decoding of an identifier in lower case are inverse to each other.\<close>

lemma decode_encode:
  assumes "uuids_have_shape S" "ts_uuid S sid" "js_toLowerCase sid = sid"
  shows "\<exists>l. encodeUuidBase36 sid = Inr l \<and> length l = 25 \<and> list_all alnum l \<and> decodeUuidBase36 S l = Some sid"
proof -
  from assms(1,2) have "uuid_shape sid" by (simp add: uuids_have_shape_def)
  then obtain ds where ds: "length ds = 32" "below 16 ds" "sid = uuid_layout (map digit_char ds)"
    using lower_uuid_digits assms(3) by blast
  have n: "horner 16 ds < 36 ^ 25"
    using encode_digits(2) [OF ds(1,2)] by (simp add: MAX_UUID_VALUE_def)
  then have "decodeUuidBase36 S (pad_zeros 25 (bigint_string 36 (horner 16 ds))) = Some sid"
    using assms(2) ds encode_digits(2) [OF ds(1,2)] layout_of_number [OF ds(1,2)]
    by (simp add: decodeUuidBase36_def parse_pad not_less [symmetric])
  then show ?thesis
    using encode_digits(1) [OF ds(1,2)] ds(3) length_pad [of 36 25 "horner 16 ds"] pad_alnum [of 36 25 "horner 16 ds"] n
    by simp
qed

lemma encode_decode:
  assumes "decodeUuidBase36 S l = Some sid" "length l = 25" "list_all alnum l"
  shows "encodeUuidBase36 sid = Inr l" "ts_uuid S sid" "js_toLowerCase sid = sid"
proof -
  from assms(1) obtain n where n: "parseBase36 l = Some n" "n \<le> MAX_UUID_VALUE"
    "sid = uuid_layout (pad_zeros 32 (bigint_string 16 n))" "ts_uuid S sid"
    by (auto simp: decodeUuidBase36_def Let_def split: option.splits if_splits)
  define ds where "ds = wide_digits 32 16 n"
  have ds: "length ds = 32" "below 16 ds" "horner 16 ds = n"
    using wide_digits [of 16 32 n] n(2) by (simp_all add: ds_def MAX_UUID_VALUE_def)
  have sid: "sid = uuid_layout (map digit_char ds)"
    by (simp add: n(3) pad_bigint ds_def)
  have "pad_zeros 25 (bigint_string 36 n) = l"
    using pad_parse(1) [OF assms(3) _ n(1)] assms(2) by force
  then show "encodeUuidBase36 sid = Inr l" using encode_digits(1) [OF ds(1,2)] sid ds(3) by simp
  show "ts_uuid S sid" by (rule n(4))
  have "js_toLowerCase (map digit_char ds) = map digit_char ds"
    using ds(2) by (auto simp: below_def js_toLowerCase_def)
  then show "js_toLowerCase sid = sid"
    using lower_layout [of "map digit_char ds"] sid by simp
qed

section \<open>Ticket labels\<close>

lemma no_dash: "list_all alnum s \<Longrightarrow> CHR ''-'' \<notin> set s"
  using dash_not_alnum by (auto simp: list_all_iff)

lemma split_label:
  assumes "list_all alnum a" "list_all alnum b" "list_all alnum c"
  shows "split_on (CHR ''-'') (a @ ''-'' @ b @ ''-'' @ c) = [a, b, c]"
  using assms by (simp add: split_on_append split_on_plain no_dash)

lemma label_parts:
  "valid_ticket_label s \<longleftrightarrow> (\<exists>a b c. s = a @ ''-'' @ b @ ''-'' @ c \<and> length a = 25 \<and> length b = 9 \<and>
     length c = 25 \<and> list_all alnum a \<and> list_all alnum b \<and> list_all alnum c)"
proof
  assume "valid_ticket_label s"
  then obtain a b c where split: "split_on (CHR ''-'') s = [a, b, c]" and parts: "length a = 25" "length b = 9"
    "length c = 25" "list_all alnum a" "list_all alnum b" "list_all alnum c"
    by (auto simp: valid_ticket_label_def split: list.splits)
  from split_on_first [OF split] obtain t where t: "s = a @ CHR ''-'' # t" "split_on (CHR ''-'') t = [b, c]" by auto
  from split_on_first [OF t(2)] obtain u where u: "t = b @ CHR ''-'' # u" "split_on (CHR ''-'') u = [c]" by auto
  from split_on_first [OF u(2)] split_on_nonempty have "u = c" by auto
  with t u parts show "\<exists>a b c. s = a @ ''-'' @ b @ ''-'' @ c \<and> length a = 25 \<and> length b = 9 \<and>
     length c = 25 \<and> list_all alnum a \<and> list_all alnum b \<and> list_all alnum c" by fastforce
next
  assume "\<exists>a b c. s = a @ ''-'' @ b @ ''-'' @ c \<and> length a = 25 \<and> length b = 9 \<and>
     length c = 25 \<and> list_all alnum a \<and> list_all alnum b \<and> list_all alnum c"
  then show "valid_ticket_label s"
    using split_label by (force simp: valid_ticket_label_def)
qed

lemma byte_step: "or (push_bit 8 r) (unat (b :: 8 word)) = r * 256 + unat b"
proof -
  have "and (push_bit 8 r) (unat b) = 0"
  proof (rule bit_eqI)
    fix n
    have "\<not> bit (unat b) n" if "8 \<le> n"
      using that bit_imp_le_length [of b n] by (auto simp: bit_unsigned_iff)
    then show "bit (and (push_bit 8 r) (unat b)) n = bit 0 n"
      by (auto simp: bit_and_iff bit_push_bit_iff not_le)
  qed
  then show ?thesis using disjunctive_add_eq_or [of "push_bit 8 r" "unat b"] by (simp add: push_bit_eq_mult)
qed

lemma bytes_bound: "bytesToBigInt bs < 256 ^ length bs"
proof (induction bs rule: rev_induct)
  case (snoc b bs)
  have "unat b < 256" using unsigned_less [of b] by simp
  moreover from snoc have "bytesToBigInt bs + 1 \<le> 256 ^ length bs" by simp
  then have "(bytesToBigInt bs + 1) * 256 \<le> 256 ^ length bs * 256" by (rule mult_le_mono1)
  ultimately show ?case by (simp add: bytesToBigInt_def byte_step)
qed (simp add: bytesToBigInt_def)

lemma signature_parts: "length (signature S sid e) = 25" "list_all alnum (signature S sid e)"
proof -
  let ?mac = "take 16 (ts_mac S (sid @ ''.'' @ e @ ''.'' @ ts_baseDomain S))"
  have "bytesToBigInt ?mac < 256 ^ length ?mac" by (rule bytes_bound)
  also have "(256::nat) ^ length ?mac \<le> 256 ^ 16" by (rule power_increasing) simp_all
  finally have "bytesToBigInt ?mac < 36 ^ 25" by simp
  then show "length (signature S sid e) = 25" "list_all alnum (signature S sid e)"
    by (simp_all add: signature_def MAC_BYTES_def BASE36_MAC_WIDTH_def length_pad pad_alnum)
qed

definition expiry_label :: "time \<Rightarrow> string" where
  "expiry_label ms = pad_zeros 9 (bigint_string 36 (nat ms))"

definition ticket_host :: "ticket_signer \<Rightarrow> string \<Rightarrow> string \<Rightarrow> time \<Rightarrow> string" where
  "ticket_host S l sid ms = l @ ''-'' @ expiry_label ms @ ''-'' @ signature S sid (expiry_label ms) @ ''.'' @ ts_baseDomain S"

lemma expiry_parts: "ms < 36 ^ 9 \<Longrightarrow> length (expiry_label ms) = 9" "list_all alnum (expiry_label ms)"
  using length_pad [of 36 9 "nat ms"] by (simp_all add: expiry_label_def pad_alnum)

lemma dash_in_label:
  assumes "length l = 25" "CHR ''-'' \<in> set e"
  shows "\<not> valid_ticket_label (l @ ''-'' @ e @ ''-'' @ c)"
proof
  assume "valid_ticket_label (l @ ''-'' @ e @ ''-'' @ c)"
  then obtain a b d where "l @ ''-'' @ e @ ''-'' @ c = a @ ''-'' @ b @ ''-'' @ d" "length a = 25"
    "list_all alnum b" "list_all alnum d" by (auto simp: label_parts)
  then have "e @ ''-'' @ c = b @ ''-'' @ d" "list_all alnum b" "list_all alnum d" using assms(1) by simp_all
  then have "split_on (CHR ''-'') (e @ ''-'' @ c) = [b, d]" by (simp add: split_on_append split_on_plain no_dash)
  then have "split_on (CHR ''-'') e @ split_on (CHR ''-'') c = [b, d]"
    by (simp add: split_on_append)
  then have "length (split_on (CHR ''-'') e) + length (split_on (CHR ''-'') c) = 2"
    by (metis length_append length_Cons list.size(3) numeral_2_eq_2)
  moreover have "1 < length (split_on (CHR ''-'') e)"
    using assms(2) by (induction e) (auto split: list.splits simp: split_on_nonempty)
  moreover have "0 < length (split_on (CHR ''-'') c)" using split_on_nonempty by simp
  ultimately show False by simp
qed

text \<open>What \<open>issue\<close> returns for an identifier in lower case.\<close>

lemma issue_cases:
  assumes "uuids_have_shape S" "js_toLowerCase sid = sid"
  shows "issue S sid (Some ms) t = Inr url \<longleftrightarrow> ts_uuid S sid \<and> t < ms \<and> 0 \<le> ms \<and> ms < 36 ^ 9 \<and>
    (\<exists>l. encodeUuidBase36 sid = Inr l \<and> url = ts_protocol S @ ''://'' @ ticket_host S l sid ms @ ''/'')"
proof (cases "ts_uuid S sid \<and> t < ms \<and> safe_integer ms")
  case False
  moreover have "safe_integer ms" if "0 \<le> ms" "ms < 36 ^ 9"
    using that by (simp add: safe_integer_def MAX_SAFE_INTEGER_def)
  ultimately show ?thesis by (auto simp: issue_def)
next
  case True
  then obtain l where l: "encodeUuidBase36 sid = Inr l" "length l = 25" "list_all alnum l"
    using decode_encode [OF assms(1) _ assms(2)] by blast
  show ?thesis
  proof (cases "ms < 0")
    case neg: True
    define e where "e = pad_zeros BASE36_EXPIRY_WIDTH (CHR ''-'' # bigint_string 36 (nat (- ms)))"
    have "CHR ''-'' \<in> set e" by (simp add: e_def pad_zeros_def)
    with dash_in_label [OF l(2)] have "\<not> valid_ticket_label (l @ ''-'' @ e @ ''-'' @ signature S sid e)" .
    then show ?thesis using True neg l by (simp add: issue_def Let_def e_def [symmetric])
  next
    case pos: False
    have width: "length (expiry_label ms) = 9 \<longleftrightarrow> ms < 36 ^ 9"
      using length_pad [of 36 9 "nat ms"] pos by (simp add: expiry_label_def nat_less_iff)
    have "valid_ticket_label (l @ ''-'' @ expiry_label ms @ ''-'' @ signature S sid (expiry_label ms))"
      if "ms < 36 ^ 9"
      using l signature_parts expiry_parts(1) [OF that] expiry_parts(2) unfolding label_parts by blast
    moreover have "pad_zeros BASE36_EXPIRY_WIDTH ((if ms < 0 then ''-'' else []) @ bigint_string 36 (nat \<bar>ms\<bar>)) = expiry_label ms"
      using pos by (simp add: expiry_label_def BASE36_EXPIRY_WIDTH_def)
    ultimately show ?thesis
      using True pos l width by (auto simp: issue_def Let_def ticket_host_def BASE36_EXPIRY_WIDTH_def)
  qed
qed

section \<open>Verification\<close>

lemma verify_parts:
  assumes "normalize_host host = a @ ''-'' @ b @ ''-'' @ c @ ''.'' @ ts_baseDomain S"
    and "length a = 25" "length b = 9" "length c = 25" "list_all alnum a" "list_all alnum b" "list_all alnum c"
  shows "verifyHost S host now =
    (case decodeUuidBase36 S a of None \<Rightarrow> Inl INVALID_HOST
     | Some sid \<Rightarrow> let ms = int (the (parseBase36 b)) in
         if signature S sid b \<noteq> c then Inl INVALID_SIGNATURE
         else if ms \<le> now then Inl EXPIRED_TICKET else Inr (sid, ms))"
proof -
  let ?label = "a @ ''-'' @ b @ ''-'' @ c"
  have valid: "valid_ticket_label ?label" using assms(2-7) unfolding label_parts by blast
  have host: "normalize_host host = ?label @ CHR ''.'' # ts_baseDomain S" using assms(1) by simp
  obtain ds where ds: "b = map digit_char ds" "below 36 ds" using alnum_list assms(6) by blast
  then have n: "parseBase36 b = Some (horner 36 ds)" "horner 36 ds < 36 ^ 9"
    using horner_less [of 36 ds] assms(3) by (auto simp: parseBase36_map)
  then have safe: "safe_integer (int (horner 36 ds))"
    by (simp add: safe_integer_def MAX_SAFE_INTEGER_def)
  have "verifyHost S host now = (case split_on (CHR ''-'') ?label of
           [sessionCandidate, expiryCandidate, signatureCandidate] \<Rightarrow>
             (case (decodeUuidBase36 S sessionCandidate, parseBase36 expiryCandidate) of
                (Some sessionId, Some expiresAtMs) \<Rightarrow>
                  (if \<not> safe_integer (int expiresAtMs) then Inl INVALID_HOST
                   else if signature S sessionId expiryCandidate \<noteq> signatureCandidate
                        then Inl INVALID_SIGNATURE
                   else if int expiresAtMs \<le> now then Inl EXPIRED_TICKET
                   else Inr (sessionId, int expiresAtMs))
              | _ \<Rightarrow> Inl INVALID_HOST)
         | _ \<Rightarrow> Inl INVALID_HOST)"
    using valid unfolding verifyHost_def Let_def host
    by (simp only: suffixI length_append diff_add_inverse2 take_append take_all le_refl diff_self_eq_0 take_0 append_Nil2
        not_True_eq_False if_False simp_thms)
  then show ?thesis
    using n(1) safe by (simp add: split_label [OF assms(5-7), simplified] Let_def split: option.splits)
qed

lemma verify_Inr_parts:
  assumes "verifyHost S host now = Inr (sid, ms)"
  obtains a b c where "normalize_host host = a @ ''-'' @ b @ ''-'' @ c @ ''.'' @ ts_baseDomain S"
    "length a = 25" "length b = 9" "length c = 25" "list_all alnum a" "list_all alnum b" "list_all alnum c"
proof -
  let ?suff = "CHR ''.'' # ts_baseDomain S" and ?host = "normalize_host host"
  let ?label = "take (length ?host - length ?suff) ?host"
  from assms have suff: "suffix ?suff ?host" and valid: "valid_ticket_label ?label"
    by (auto simp: verifyHost_def Let_def split: if_splits)
  from suff have "?host = ?label @ ?suff" by (auto simp: suffix_def)
  moreover from valid obtain a b c where "?label = a @ ''-'' @ b @ ''-'' @ c" and p: "length a = 25" "length b = 9"
    "length c = 25" "list_all alnum a" "list_all alnum b" "list_all alnum c"
    by (auto simp: label_parts)
  ultimately have "?host = a @ ''-'' @ b @ ''-'' @ c @ ''.'' @ ts_baseDomain S" by simp
  with p that show thesis by blast
qed

lemma ticket_host_verified:
  assumes "uuids_have_shape S" "js_toLowerCase sid = sid" "ts_uuid S sid" "0 \<le> ms" "ms < 36 ^ 9"
    and "encodeUuidBase36 sid = Inr l" "normalize_host host = ticket_host S l sid ms"
  shows "verifyHost S host now = (if ms \<le> now then Inl EXPIRED_TICKET else Inr (sid, ms))"
proof -
  from decode_encode [OF assms(1,3,2)] assms(6) have l: "length l = 25" "list_all alnum l" "decodeUuidBase36 S l = Some sid"
    by auto
  have "parseBase36 (expiry_label ms) = Some (nat ms)"
    using parse_pad [of 9 "nat ms"] assms(4,5) by (simp add: expiry_label_def nat_less_iff)
  moreover have "normalize_host host = l @ ''-'' @ expiry_label ms @ ''-'' @ signature S sid (expiry_label ms) @ ''.'' @ ts_baseDomain S"
    using assms(7) by (simp add: ticket_host_def)
  ultimately show ?thesis
    using verify_parts [OF _ l(1) expiry_parts(1) [OF assms(5)] signature_parts(1) l(2) expiry_parts(2) signature_parts(2)]
      l(3) assms(4) by simp
qed

text \<open>C16: A host is accepted, as session \<open>sid\<close> with expiry \<open>ms\<close>, exactly when the ticket is still
  valid and the host (trimmed, in lower case, without a port) is the very host that the signer
  itself issues for that session and that expiry. So there is one accepted host for each ticket,
  nothing else is accepted, and what was issued is accepted until it expires.\<close>

theorem verify_accepts_issued_only:
  assumes "uuids_have_shape S"
  shows "verifyHost S host now = Inr (sid, ms) \<longleftrightarrow>
    now < ms \<and> js_toLowerCase sid = sid \<and>
    (\<exists>t. issue S sid (Some ms) t = Inr (ts_protocol S @ ''://'' @ normalize_host host @ ''/''))"
proof
  assume v: "verifyHost S host now = Inr (sid, ms)"
  from verify_Inr_parts [OF v] obtain a b c where host: "normalize_host host = a @ ''-'' @ b @ ''-'' @ c @ ''.'' @ ts_baseDomain S"
    and p: "length a = 25" "length b = 9" "length c = 25" "list_all alnum a" "list_all alnum b" "list_all alnum c" .
  from v [unfolded verify_parts [OF host p]]
  have d: "decodeUuidBase36 S a = Some sid" "ms = int (the (parseBase36 b))" "signature S sid b = c" "now < ms"
    by (auto simp: Let_def split: option.splits if_splits)
  obtain ds where ds: "b = map digit_char ds" "below 36 ds" using alnum_list p(5) by blast
  then have n: "parseBase36 b = Some (nat ms)" "0 \<le> ms" using d(2) by (auto simp: parseBase36_map)
  have b: "b = expiry_label ms" "nat ms < 36 ^ 9"
    using pad_parse [OF p(5) _ n(1)] p(2) by (force simp: expiry_label_def)+
  from encode_decode [OF d(1) p(1) p(4)] have e: "encodeUuidBase36 sid = Inr a" "ts_uuid S sid" "js_toLowerCase sid = sid" .
  have "normalize_host host = ticket_host S a sid ms" using host b(1) d(3) by (simp add: ticket_host_def)
  then have "issue S sid (Some ms) (ms - 1) = Inr (ts_protocol S @ ''://'' @ normalize_host host @ ''/'')"
    unfolding issue_cases [OF assms e(3)] using e b(2) n(2) by (auto simp: nat_less_iff)
  with d(4) e(3) show "now < ms \<and> js_toLowerCase sid = sid \<and>
    (\<exists>t. issue S sid (Some ms) t = Inr (ts_protocol S @ ''://'' @ normalize_host host @ ''/''))" by blast
next
  assume r: "now < ms \<and> js_toLowerCase sid = sid \<and>
    (\<exists>t. issue S sid (Some ms) t = Inr (ts_protocol S @ ''://'' @ normalize_host host @ ''/''))"
  then obtain t where i: "issue S sid (Some ms) t = Inr (ts_protocol S @ ''://'' @ normalize_host host @ ''/'')" by blast
  from r have low: "js_toLowerCase sid = sid" by blast
  from i [unfolded issue_cases [OF assms low]] obtain l where "ts_uuid S sid" "0 \<le> ms" "ms < 36 ^ 9"
    "encodeUuidBase36 sid = Inr l" "normalize_host host = ticket_host S l sid ms" by auto
  from ticket_host_verified [OF assms low this] r show "verifyHost S host now = Inr (sid, ms)" by simp
qed

section \<open>Hosts as a browser sends them\<close>

definition host_char :: "char \<Rightarrow> bool" where
  "host_char c \<longleftrightarrow> alnum c \<or> c = CHR ''-'' \<or> c = CHR ''.''"

lemma host_char_plain: "host_char c \<Longrightarrow> \<not> is_space c \<and> lower_char c = c \<and> c \<noteq> CHR '':''"
proof -
  assume "host_char c"
  then consider d where "d < 36" "c = digit_char d" | "c = CHR ''-''" | "c = CHR ''.''"
    by (auto simp: host_char_def alnum_digit_char)
  then show ?thesis
  proof cases
    case 1
    then have "d \<in> set [0..<36]" by simp
    moreover have "list_all (\<lambda>d. \<not> is_space (digit_char d) \<and> digit_char d \<noteq> CHR '':'') [0..<36]" by code_simp
    ultimately show ?thesis using 1 by (simp add: list_all_iff)
  next
    case 2
    show ?thesis unfolding 2 by code_simp
  next
    case 3
    show ?thesis unfolding 3 by code_simp
  qed
qed

lemma dropWhile_id: "\<forall>c \<in> set s. \<not> P c \<Longrightarrow> dropWhile P s = s"
  by (cases s) auto

lemma normalize_plain:
  assumes "\<forall>c \<in> set h. host_char c" "port = [] \<or> (\<exists>ds. port = CHR '':'' # ds \<and> ds \<noteq> [] \<and> (\<forall>c \<in> set ds. is_digit c))"
  shows "normalize_host (h @ port) = h"
proof -
  have digit: "host_char c" if "is_digit c" for c
    using that by (simp add: host_char_def alnum_def base36_digit_def is_digit_def Let_def)
  have colon: "\<not> is_space (CHR '':'')" "lower_char (CHR '':'') = CHR '':''" "\<not> is_digit (CHR '':'')" by code_simp+
  have chars: "\<not> is_space c \<and> lower_char c = c" if "c \<in> set (h @ port)" for c
    using that assms digit host_char_plain colon by (metis Un_iff set_append set_ConsD emptyE list.set(1))
  then have "dropWhile is_space (h @ port) = h @ port" "dropWhile is_space (rev (h @ port)) = rev (h @ port)"
    by (metis dropWhile_id, metis dropWhile_id set_rev)
  then have "js_trim (h @ port) = h @ port" by (simp add: js_trim_def)
  moreover have "js_toLowerCase (h @ port) = h @ port"
    using chars by (auto simp: js_toLowerCase_def intro!: map_idI)
  moreover have "strip_port (h @ port) = h"
  proof (cases "port = []")
    case True
    have "CHR '':'' \<notin> set h" using assms(1) host_char_plain by blast
    moreover have "set (dropWhile is_digit (rev h)) \<subseteq> set h" using set_dropWhileD [of _ is_digit "rev h"] by auto
    ultimately show ?thesis using True by (auto simp: strip_port_def split: list.splits)
  next
    case False
    with assms(2) obtain ds where ds: "port = CHR '':'' # ds" "ds \<noteq> []" "\<forall>c \<in> set ds. is_digit c" by blast
    then have "dropWhile is_digit (rev ds @ CHR '':'' # rev h) = CHR '':'' # rev h"
      using colon(3) dropWhile_append2 [of "rev ds" is_digit] by simp
    moreover have "takeWhile is_digit (rev ds @ CHR '':'' # rev h) = rev ds"
      using colon(3) ds takeWhile_append2 [of "rev ds" is_digit] by simp
    ultimately show ?thesis using ds by (simp add: strip_port_def)
  qed
  ultimately show ?thesis by (simp add: normalize_host_def)
qed

lemma split_on_chars: "c \<in> set s \<Longrightarrow> c = x \<or> (\<exists>p \<in> set (split_on x s). c \<in> set p)"
  by (induction s) (auto split: list.splits)

lemma domain_chars: "valid_base_domain s \<Longrightarrow> c \<in> set s \<Longrightarrow> host_char c"
  using split_on_chars [of c s "CHR ''.''"]
  by (fastforce simp: valid_base_domain_def dns_label_def list_all_iff host_char_def)

lemma issued_ticket_host:
  assumes "new_signer hmac is_uuid secret domain protocol = Inr S" and "uuids_have_shape S"
    and "js_toLowerCase sid = sid" and "issue S sid (Some ms) t = Inr url"
    and "port = [] \<or> (\<exists>ds. port = CHR '':'' # ds \<and> ds \<noteq> [] \<and> (\<forall>c \<in> set ds. is_digit c))"
  shows "\<exists>label. length label = 61 \<and> url = ts_protocol S @ ''://'' @ label @ ''.'' @ ts_baseDomain S @ ''/'' \<and>
    verifyHost S (label @ ''.'' @ ts_baseDomain S @ port) now = (if ms \<le> now then Inl EXPIRED_TICKET else Inr (sid, ms))"
proof -
  from assms(1) have dom: "valid_base_domain (ts_baseDomain S)"
    by (auto simp: new_signer_def Let_def split: if_splits)
  from assms(4) [unfolded issue_cases [OF assms(2,3)]] obtain l where i: "ts_uuid S sid" "0 \<le> ms" "ms < 36 ^ 9"
    "encodeUuidBase36 sid = Inr l" "url = ts_protocol S @ ''://'' @ ticket_host S l sid ms @ ''/''" by blast
  from decode_encode [OF assms(2) i(1) assms(3)] i(4) have l: "length l = 25" "list_all alnum l" by auto
  let ?label = "l @ ''-'' @ expiry_label ms @ ''-'' @ signature S sid (expiry_label ms)"
  have "\<forall>c \<in> set (ticket_host S l sid ms). host_char c"
    using l(2) expiry_parts(2) [of ms] signature_parts(2) [of S sid "expiry_label ms"] domain_chars [OF dom]
    by (auto simp: ticket_host_def list_all_iff host_char_def)
  then have "normalize_host (ticket_host S l sid ms @ port) = ticket_host S l sid ms"
    using assms(5) by (rule normalize_plain)
  then have "verifyHost S (ticket_host S l sid ms @ port) now = (if ms \<le> now then Inl EXPIRED_TICKET else Inr (sid, ms))"
    by (rule ticket_host_verified [OF assms(2,3) i(1-4)])
  moreover have "length ?label = 61"
    using l(1) expiry_parts(1) [OF i(3)] signature_parts(1) by simp
  ultimately show ?thesis using i(5) by (intro exI [of _ ?label]) (simp add: ticket_host_def)
qed


section \<open>A sample ticket\<close>

definition sample_uuid :: string where
  "sample_uuid = ''00000000-0000-4000-8000-000000000011''"

definition sample_signer :: ticket_signer where
  "sample_signer = \<lparr>ts_mac = (\<lambda>m. map (\<lambda>c. word_of_nat (of_char c)) m), ts_uuid = (\<lambda>s. s = sample_uuid),
     ts_baseDomain = ''preview.example.test'', ts_protocol = ''https''\<rparr>"

lemma sample_shape: "uuids_have_shape sample_signer"
proof -
  have "list_all (\<lambda>c. hex_digit c \<noteq> None) ''00000000000040008000000000000011''"
    by (simp add: hex_digit_def base36_digit_def lower_char_def Let_def)
  moreover have "sample_uuid = uuid_layout ''00000000000040008000000000000011''"
    by (simp add: sample_uuid_def uuid_layout_def)
  ultimately have "uuid_shape sample_uuid"
    unfolding uuid_shape_def by (intro exI [of _ "''00000000000040008000000000000011''"]) simp
  then show ?thesis by (simp add: uuids_have_shape_def sample_signer_def)
qed

lemma sample_domain: "valid_base_domain ''preview.example.test''"
  by code_simp

lemma sample_new: "new_signer (\<lambda>_. ts_mac sample_signer) (ts_uuid sample_signer) ''phase-2-preview-signing-secret-at-least-32-bytes''
    '' Preview.Example.test'' None = Inr sample_signer"
proof -
  have "utf8_length ''phase-2-preview-signing-secret-at-least-32-bytes'' = 48" by code_simp
  moreover have "js_toLowerCase (js_trim '' Preview.Example.test'') = ''preview.example.test''" by code_simp
  ultimately show ?thesis using sample_domain by (simp only: new_signer_def sample_signer_def Let_def) simp
qed

lemma sample_issue: "\<exists>url. issue sample_signer sample_uuid (Some 1785586500000) 1785585600000 = Inr url"
proof -
  have "js_toLowerCase sample_uuid = sample_uuid" by code_simp
  moreover have "ts_uuid sample_signer sample_uuid" by (simp add: sample_signer_def)
  moreover have "\<exists>l. encodeUuidBase36 sample_uuid = Inr l"
    using decode_encode [OF sample_shape calculation(2,1)] by blast
  ultimately show ?thesis using issue_cases [OF sample_shape] by auto
qed


lemma sample_host:
  "\<exists>l. encodeUuidBase36 sample_uuid = Inr l \<and> normalize_host (ticket_host sample_signer l sample_uuid 1785586500000) =
     ticket_host sample_signer l sample_uuid 1785586500000"
proof -
  have low: "js_toLowerCase sample_uuid = sample_uuid" by code_simp
  have "ts_uuid sample_signer sample_uuid" by (simp add: sample_signer_def)
  from decode_encode [OF sample_shape this low] obtain l where l: "encodeUuidBase36 sample_uuid = Inr l" "list_all alnum l"
    by blast
  have "\<forall>c \<in> set (ticket_host sample_signer l sample_uuid 1785586500000). host_char c"
    using expiry_parts(2) [of 1785586500000] signature_parts(2) [of sample_signer sample_uuid "expiry_label 1785586500000"]
      domain_chars [OF sample_domain] l(2)
    by (auto simp: ticket_host_def list_all_iff host_char_def sample_signer_def)
  from normalize_plain [OF this, of "[]"] l(1) show ?thesis by (intro exI [of _ l]) simp
qed

lemma sample_verified: "\<exists>host. verifyHost sample_signer host 1785586499999 = Inr (sample_uuid, 1785586500000)"
proof -
  have low: "js_toLowerCase sample_uuid = sample_uuid" by code_simp
  have "ts_uuid sample_signer sample_uuid" by (simp add: sample_signer_def)
  moreover obtain l where l: "encodeUuidBase36 sample_uuid = Inr l"
    "normalize_host (ticket_host sample_signer l sample_uuid 1785586500000) = ticket_host sample_signer l sample_uuid 1785586500000"
    using sample_host by blast
  ultimately have "verifyHost sample_signer (ticket_host sample_signer l sample_uuid 1785586500000) 1785586499999 =
      Inr (sample_uuid, 1785586500000)"
    by (subst ticket_host_verified [OF sample_shape low _ _ _ l]) simp_all
  then show ?thesis by blast
qed

theorem verify_accepts_issued_only_witness:
  "\<exists>host. verifyHost sample_signer host 1785586499999 = Inr (sample_uuid, 1785586500000)"
proof -
  have low: "js_toLowerCase sample_uuid = sample_uuid" by code_simp
  have "ts_uuid sample_signer sample_uuid" by (simp add: sample_signer_def)
  moreover obtain l where l: "encodeUuidBase36 sample_uuid = Inr l"
    and "normalize_host (ticket_host sample_signer l sample_uuid 1785586500000) = ticket_host sample_signer l sample_uuid 1785586500000"
    using sample_host by blast
  ultimately have "issue sample_signer sample_uuid (Some 1785586500000) 1785585600000 = Inr (ts_protocol sample_signer @
      ''://'' @ normalize_host (ticket_host sample_signer l sample_uuid 1785586500000) @ ''/'')"
    using issue_cases [OF sample_shape low] by simp
  then have "verifyHost sample_signer (ticket_host sample_signer l sample_uuid 1785586500000) 1785586499999 =
      Inr (sample_uuid, 1785586500000)"
    unfolding verify_accepts_issued_only [OF sample_shape] by (intro conjI exI low) simp
  then show ?thesis by blast
qed

end
