(* ===== verification/GatewayProperties.thy ===== *)
theory GatewayProperties
  imports PreviewGateway TicketProperties
begin

text \<open>
  What the preview gateway forwards, and to whom: facts about \<open>PreviewGateway\<close>.
\<close>

section \<open>Headers\<close>

lemma put_header_other: "n \<noteq> m \<Longrightarrow> put_header m v h n = h n"
  by (simp add: put_header_def)

lemma put_header_same: "n \<noteq> ''__proto__'' \<Longrightarrow> put_header n v h n = Some v"
  by (simp add: put_header_def)

lemma fold_headers:
  "foldl (\<lambda>h (n, v). put_header n (Line v) h) h hs n =
    (if n = ''__proto__'' then h n
     else case map_of (rev hs) n of Some v \<Rightarrow> Some (Line v) | None \<Rightarrow> h n)"
  by (induction hs rule: rev_induct) (auto simp: put_header_def split: option.splits)

text \<open>The names that the gateway writes itself.\<close>

lemma own_request_header: "list_all (\<lambda>n. \<not> hop_by_hop n) [''host'', ''x-forwarded-host'', ''x-forwarded-proto'']"
  by code_simp

text \<open>
  The headers of a forwarded request: those of the stored target take precedence, then the host
  of the upstream and the forwarding headers, then what came in, less the hop-by-hop headers.
\<close>

lemma request_header_value:
  assumes "n \<noteq> ''__proto__''"
  shows "requestHeaders inc t host up n =
    (case map_of (rev (pt_requestHeaders t)) n of
       Some v \<Rightarrow> Some (Line v)
     | None \<Rightarrow>
         (if n = ''x-forwarded-proto'' then Some (Line ''https'')
          else if n = ''x-forwarded-host'' then Some (Line (case host of Some h \<Rightarrow> h | None \<Rightarrow> []))
          else if n = ''host'' then Some (Line up)
          else if hop_by_hop n then None else inc n))"
proof -
  have "put_header m v h n = (if n = m then Some v else h n)" for m v h
    using assms by (simp add: put_header_def)
  then show ?thesis using assms by (simp only: requestHeaders_def Let_def fold_headers if_False simp_thms)
qed

section \<open>Targets\<close>

lemma get_target_Some:
  assumes "get_target P sid now r = Inr (Some t, r')"
  shows "now < pt_expiresAt t \<and> r' = r \<and> (\<exists>s. rc_get (ss_client P) (store_key P sid) r = Inr (Some s) \<and> ss_parse_json P s = Some t)"
proof -
  from assms have u: "ss_uuid P sid" by (auto simp: get_target_def split: if_splits)
  then obtain v where v: "rc_get (ss_client P) (store_key P sid) r = Inr v"
    using assms by (cases "rc_get (ss_client P) (store_key P sid) r") (auto simp: get_target_def)
  with u assms obtain s where s: "v = Some s" by (cases v) (auto simp: get_target_def)
  with u v assms obtain x where x: "ss_parse_json P s = Some x"
    by (cases "ss_parse_json P s") (auto simp: get_target_def)
  have "\<not> pt_expiresAt x \<le> now"
    using u v s x assms by (cases "delete_target P sid r") (auto simp: get_target_def split: if_splits)
  with u v s x assms show ?thesis by (auto simp: get_target_def)
qed

lemma resolveTarget_Inr:
  assumes "resolveTarget G host now r = (Inr t, r')"
  shows "\<exists>h sid ms. host = Some h \<and> verifyHost (gw_signer G) h now = Inr (sid, ms) \<and> pt_sessionId t = sid \<and>
    get_target (gw_store G) sid now r = Inr (Some t, r') \<and> now < pt_expiresAt t"
proof -
  from assms obtain h where h: "host = Some h" by (cases host) (auto simp: resolveTarget_def)
  with assms obtain sid ms where v: "verifyHost (gw_signer G) h now = Inr (sid, ms)"
    by (cases "verifyHost (gw_signer G) h now") (auto simp: resolveTarget_def)
  show ?thesis
  proof (cases "get_target (gw_store G) sid now r")
    case (Inl e)
    with assms h v show ?thesis by (simp add: resolveTarget_def)
  next
    case (Inr p)
    obtain found r1 where p: "p = (found, r1)" by (rule prod.exhaust)
    with assms h v Inr obtain t' where "found = Some t'" by (cases found) (simp_all add: resolveTarget_def)
    with assms h v Inr p have "t' = t" "pt_sessionId t = sid" "r1 = r'" "found = Some t"
      by (cases "pt_sessionId t' = sid"; simp add: resolveTarget_def)+
    with h v Inr p get_target_Some [of "gw_store G" sid now r t r'] show ?thesis by simp
  qed
qed

lemma upstream_Inr:
  assumes "upstreamRequestUrl G path t = Inr u"
  shows "\<exists>b. gw_parse_url G (pt_upstreamUrl t) = Some b \<and> url_origin u = url_origin b"
  using assms by (auto simp: upstreamRequestUrl_def Let_def split: if_splits option.splits)

text \<open>Both handlers forward only what \<open>resolveTarget\<close> and \<open>upstreamRequestUrl\<close> produced.\<close>

lemma request_forward:
  assumes "gateway_request G q now r = (Forward u m hs, r')"
  shows "\<exists>t. resolveTarget G (request_host q) now r = (Inr t, r') \<and> upstreamRequestUrl G (rq_url q) t = Inr u \<and>
    hs = requestHeaders (rq_headers q) t (request_host q) (url_host u)"
proof -
  have url: "rq_url q \<noteq> Some ''/healthz''" using assms by (rule contrapos_pn) (simp only: gateway_request_def, simp)
  obtain res r1 where res: "resolveTarget G (request_host q) now r = (res, r1)" by (rule prod.exhaust)
  show ?thesis
  proof (cases res)
    case (Inr t)
    with assms res url show ?thesis
      by (cases "upstreamRequestUrl G (rq_url q) t") (simp_all add: gateway_request_def Let_def)
  qed (use assms res url in \<open>simp add: gateway_request_def Let_def\<close>)
qed

lemma upgrade_forward:
  assumes "gateway_upgrade G q now r = (Forward u m hs, r')"
  shows "\<exists>t v w. resolveTarget G (request_host q) now r = (Inr t, r') \<and> upstreamRequestUrl G (rq_url q) t = Inr u \<and>
    hs = put_header ''upgrade'' w (put_header ''connection'' v
      (requestHeaders (rq_headers q) t (request_host q) (url_host u)))"
proof -
  obtain res r1 where res: "resolveTarget G (request_host q) now r = (res, r1)" by (rule prod.exhaust)
  show ?thesis
  proof (cases res)
    case (Inr t)
    with assms res show ?thesis
      by (cases "upstreamRequestUrl G (rq_url q) t") (auto simp: gateway_upgrade_def Let_def)
  qed (use assms res in \<open>simp add: gateway_upgrade_def Let_def\<close>)
qed

text \<open>Both handlers forward only what \<open>resolveTarget\<close> and \<open>upstreamRequestUrl\<close> produced.\<close>

lemma forwarded_from:
  assumes "gateway_request G q now r = (Forward u m hs, r') \<or> gateway_upgrade G q now r = (Forward u m hs, r')"
  shows "\<exists>t. resolveTarget G (request_host q) now r = (Inr t, r') \<and> upstreamRequestUrl G (rq_url q) t = Inr u \<and>
    (\<forall>n. n \<noteq> ''connection'' \<longrightarrow> n \<noteq> ''upgrade'' \<longrightarrow> hs n = requestHeaders (rq_headers q) t (request_host q) (url_host u) n)"
  using assms
proof
  assume "gateway_request G q now r = (Forward u m hs, r')"
  from request_forward [OF this] show ?thesis by blast
next
  assume "gateway_upgrade G q now r = (Forward u m hs, r')"
  from upgrade_forward [OF this] obtain t v w where t: "resolveTarget G (request_host q) now r = (Inr t, r')"
    "upstreamRequestUrl G (rq_url q) t = Inr u"
    "hs = put_header ''upgrade'' w (put_header ''connection'' v (requestHeaders (rq_headers q) t (request_host q) (url_host u)))"
    by blast
  have "hs n = requestHeaders (rq_headers q) t (request_host q) (url_host u) n"
    if "n \<noteq> ''connection''" "n \<noteq> ''upgrade''" for n
    unfolding t(3) put_header_other [OF that(2)] put_header_other [OF that(1)] ..
  with t(1,2) show ?thesis by blast
qed

text \<open>C18: The gateway forwards a request, or a WebSocket upgrade, only when its host carries a
  ticket that is signed and not expired; then only to the origin stored for exactly the session
  that the ticket names, while that record has not expired either, so that the private
  provider headers of the record, which are sent with it, reach no other origin.\<close>

theorem gateway_forwards_to_own_origin:
  assumes "gateway_request G q now r = (Forward u m hs, r') \<or> gateway_upgrade G q now r = (Forward u m hs, r')"
  shows "\<exists>h sid ms t b. request_host q = Some h \<and> verifyHost (gw_signer G) h now = Inr (sid, ms) \<and>
    get_target (gw_store G) sid now r = Inr (Some t, r') \<and> pt_sessionId t = sid \<and> now < pt_expiresAt t \<and>
    gw_parse_url G (pt_upstreamUrl t) = Some b \<and> url_origin u = url_origin b \<and>
    (\<forall>n v. n \<notin> {''connection'', ''upgrade'', ''__proto__''} \<longrightarrow> map_of (rev (pt_requestHeaders t)) n = Some v \<longrightarrow>
       hs n = Some (Line v)) \<and>
    (\<forall>n. n \<notin> {''connection'', ''upgrade'', ''__proto__''} \<longrightarrow> hop_by_hop n \<longrightarrow>
       hs n \<noteq> None \<longrightarrow> n \<in> dom (map_of (pt_requestHeaders t)))"
proof -
  from forwarded_from [OF assms] obtain t where t: "resolveTarget G (request_host q) now r = (Inr t, r')"
    "upstreamRequestUrl G (rq_url q) t = Inr u"
    and hs: "\<And>n. n \<noteq> ''connection'' \<Longrightarrow> n \<noteq> ''upgrade'' \<Longrightarrow>
      hs n = requestHeaders (rq_headers q) t (request_host q) (url_host u) n" by blast
  have hdr: "hs n = Some (Line v)" if "n \<notin> {''connection'', ''upgrade'', ''__proto__''}"
    "map_of (rev (pt_requestHeaders t)) n = Some v" for n v
  proof -
    from that(1) have n: "n \<noteq> ''connection''" "n \<noteq> ''upgrade''" "n \<noteq> ''__proto__''"
      by (simp_all only: insert_iff de_Morgan_disj simp_thms)
    show ?thesis unfolding hs [OF n(1,2)] request_header_value [OF n(3)] that(2) by simp
  qed
  have hop: "n \<in> dom (map_of (pt_requestHeaders t))"
    if "n \<notin> {''connection'', ''upgrade'', ''__proto__''}" "hop_by_hop n" "hs n \<noteq> None" for n
  proof -
    from that(1) have n: "n \<noteq> ''connection''" "n \<noteq> ''upgrade''" "n \<noteq> ''__proto__''"
      by (simp_all only: insert_iff de_Morgan_disj simp_thms)
    from own_request_header that(2) have f: "n \<noteq> ''x-forwarded-proto''" "n \<noteq> ''x-forwarded-host''" "n \<noteq> ''host''"
      by (metis list.pred_inject(2))+
    from that(3) have "map_of (rev (pt_requestHeaders t)) n \<noteq> None"
      unfolding hs [OF n(1,2)] request_header_value [OF n(3)] using f that(2) by (simp split: option.splits)
    then show ?thesis by (metis domIff dom_map_of_conv_image_fst set_rev)
  qed
  from resolveTarget_Inr [OF t(1)] upstream_Inr [OF t(2)] hdr hop show ?thesis by metis
qed

text \<open>What a request is answered when it is not forwarded.\<close>

text \<open>A request that is not forwarded is answered with a fixed status and message: 401 without
  a host or with a ticket that was not issued, 410 with an expired ticket, 404 when no live record
  is stored for exactly that session, 400 when the path is not an origin-form path of the stored
  origin, and 500 only when the store or a stored URL is broken.\<close>

lemma gateway_error_answers:
  assumes "rq_url q \<noteq> Some ''/healthz''" and "gateway_request G q now r = (AnswerError code msg, r')"
  shows "msg = publicErrorMessage code \<and>
    (case request_host q of
       None \<Rightarrow> code = 401
     | Some h \<Rightarrow>
         (case verifyHost (gw_signer G) h now of
            Inl c \<Rightarrow> code = (if c = EXPIRED_TICKET then 410 else 401)
          | Inr (sid, ms) \<Rightarrow>
              (case get_target (gw_store G) sid now r of
                 Inl e \<Rightarrow> code = 500
               | Inr (None, r1) \<Rightarrow> code = 404
               | Inr (Some t, r1) \<Rightarrow>
                   (if pt_sessionId t \<noteq> sid then code = 404
                    else (case upstreamRequestUrl G (rq_url q) t of
                        Inl (GatewayRequestError c) \<Rightarrow> code = 400 \<and> c = 400
                      | Inl OtherGatewayError \<Rightarrow> code = 500
                      | Inr u \<Rightarrow> False)))))"
proof (cases "request_host q")
  case None
  with assms show ?thesis by (auto simp: gateway_request_def resolveTarget_def Let_def)
next
  case (Some h)
  show ?thesis
  proof (cases "verifyHost (gw_signer G) h now")
    case (Inl c)
    with Some assms show ?thesis by (auto simp: gateway_request_def resolveTarget_def Let_def)
  next
    case (Inr p)
    then obtain sid ms where v: "verifyHost (gw_signer G) h now = Inr (sid, ms)" by (cases p) simp
    show ?thesis
    proof (cases "get_target (gw_store G) sid now r")
      case (Inl e)
      with Some v assms show ?thesis by (auto simp: gateway_request_def resolveTarget_def Let_def)
    next
      case (Inr g)
      obtain found r1 where g: "g = (found, r1)" by (rule prod.exhaust)
      show ?thesis
      proof (cases found)
        case None
        with Some v Inr g assms show ?thesis by (auto simp: gateway_request_def resolveTarget_def Let_def)
      next
        case t: (Some t)
        have bad: "c = 400" if "upstreamRequestUrl G (rq_url q) t = Inl (GatewayRequestError c)" for c
          using that by (auto simp: upstreamRequestUrl_def Let_def split: if_splits option.splits)
        show ?thesis
        proof (cases "pt_sessionId t = sid")
          case False
          with Some v Inr g t assms show ?thesis by (simp add: gateway_request_def resolveTarget_def Let_def)
        next
          case True
          then have res: "resolveTarget G (request_host q) now r = (Inr t, r1)"
            using Some v Inr g t by (simp add: resolveTarget_def)
          have out: "(case bind_res (upstreamRequestUrl G (rq_url q) t) (\<lambda>u. Inr (t, u)) of
              Inr p \<Rightarrow> False
            | Inl e \<Rightarrow> (let c = (case e of GatewayRequestError c \<Rightarrow> c | OtherGatewayError \<Rightarrow> 500)
                in code = c \<and> msg = publicErrorMessage c))"
            using assms res by (cases "upstreamRequestUrl G (rq_url q) t") (auto simp: gateway_request_def Let_def)
          show ?thesis
          proof (cases "upstreamRequestUrl G (rq_url q) t")
            case (Inl e)
            with out bad True Some v \<open>get_target (gw_store G) sid now r = Inr g\<close> g t show ?thesis by (cases e) auto
          qed (use out in simp)
        qed
      qed
    qed
  qed
qed

text \<open>Whatever the generated application answers, the response that reaches the browser has one
  content security policy, the gateway's, which lets only the UI's origin frame it, no
  \<open>X-Frame-Options\<close> in any spelling, no hop-by-hop header, and is not cached.\<close>

lemma response_headers_locked:
  "responseHeaders inc ui ''content-security-policy'' = Some (Line (frame_policy ui)) \<and>
   responseHeaders inc ui ''cache-control'' = Some (Line ''no-store'') \<and>
   (\<forall>n. js_toLowerCase n = ''x-frame-options'' \<or> hop_by_hop n \<longrightarrow> responseHeaders inc ui n = None) \<and>
   (\<forall>n. js_toLowerCase n = ''content-security-policy'' \<longrightarrow> n \<noteq> ''content-security-policy'' \<longrightarrow>
      responseHeaders inc ui n = None)"
proof -
  let ?own = "[''cache-control'', ''content-security-policy'', ''permissions-policy'', ''referrer-policy'', ''x-content-type-options'']"
  have plain: "list_all (\<lambda>m. js_toLowerCase m = m \<and> \<not> hop_by_hop m \<and> m \<noteq> ''x-frame-options'' \<and> m \<noteq> ''__proto__'') ?own"
    by code_simp
  have other: "responseHeaders inc ui n = None" if "n \<notin> set ?own"
    and "hop_by_hop n \<or> js_toLowerCase n \<in> {''content-security-policy'', ''x-frame-options''}" for n
  proof -
    from that(1) have n: "n \<noteq> ''cache-control''" "n \<noteq> ''content-security-policy''" "n \<noteq> ''permissions-policy''"
      "n \<noteq> ''referrer-policy''" "n \<noteq> ''x-content-type-options''"
      by (simp_all only: list.set insert_iff de_Morgan_disj simp_thms)
    show ?thesis
      unfolding responseHeaders_def Let_def put_header_other [OF n(1)] put_header_other [OF n(2)]
        put_header_other [OF n(3)] put_header_other [OF n(4)] put_header_other [OF n(5)]
      by (rule if_P) (use that(2) in blast)
  qed
  have "responseHeaders inc ui ''content-security-policy'' = Some (Line (frame_policy ui))"
    "responseHeaders inc ui ''cache-control'' = Some (Line ''no-store'')"
    by (simp_all add: responseHeaders_def Let_def put_header_def)
  moreover have "responseHeaders inc ui n = None" if "js_toLowerCase n = ''x-frame-options'' \<or> hop_by_hop n" for n
  proof (rule other)
    show "n \<notin> set ?own" using that plain unfolding list_all_iff by metis
    show "hop_by_hop n \<or> js_toLowerCase n \<in> {''content-security-policy'', ''x-frame-options''}" using that by blast
  qed
  moreover have "responseHeaders inc ui n = None"
    if "js_toLowerCase n = ''content-security-policy''" "n \<noteq> ''content-security-policy''" for n
  proof (rule other)
    show "n \<notin> set ?own" using that plain unfolding list_all_iff by metis
    show "hop_by_hop n \<or> js_toLowerCase n \<in> {''content-security-policy'', ''x-frame-options''}" using that by blast
  qed
  ultimately show ?thesis by blast
qed

section \<open>A record that was stored is found until it expires\<close>

text \<open>
  The documented behaviour of the client: a value is kept under its key until its time to live is
  over, or is gone earlier; a command may also fail.
\<close>

definition redis_keeps :: "'r redis_client \<Rightarrow> bool" where
  "redis_keeps C \<longleftrightarrow> (\<forall>k v ttl r r'. rc_set C k v ttl r = Inr r' \<longrightarrow>
     (\<forall>res. rc_get C k r' = Inr (Some res) \<longrightarrow> res = v))"

text \<open>What is read back for a session right after it was stored is the stored record, until its
  expiry: never a record of another session, and never one that has expired, which is deleted
  instead. An expired record is not stored at all.\<close>

lemma stored_target_read_back:
  assumes "redis_keeps (ss_client P)" and "ss_parse_json P (ss_stringify P t) = Some t"
    and "ss_parse_target P t = Some t" and "put_target P t now r = Inr r1"
    and "get_target P (pt_sessionId t) later r1 = Inr (found, r2)"
  shows "now < pt_expiresAt t \<and> (found = None \<or> found = Some t) \<and> (pt_expiresAt t \<le> later \<longrightarrow> found = None)"
proof -
  from assms(3,4) have live: "now < pt_expiresAt t"
    and set: "rc_set (ss_client P) (store_key P (pt_sessionId t)) (ss_stringify P t) (pt_expiresAt t - now) r = Inr r1"
    by (auto simp: put_target_def Let_def split: if_splits)
  show ?thesis
  proof (cases found)
    case (Some x)
    from get_target_Some [OF assms(5) [unfolded Some]] obtain s where s: "later < pt_expiresAt x"
      "rc_get (ss_client P) (store_key P (pt_sessionId t)) r1 = Inr (Some s)" "ss_parse_json P s = Some x" by blast
    from assms(1) set s(2) have "s = ss_stringify P t" unfolding redis_keeps_def by blast
    with s assms(2) Some live show ?thesis by simp
  qed (simp add: live)
qed

section \<open>A sample gateway\<close>

definition sample_target :: preview_target where
  "sample_target = \<lparr>pt_sessionId = sample_uuid, pt_workspaceId = ''w'', pt_projectId = ''p'', pt_runId = ''r'',
     pt_upstreamUrl = ''https://3000-box.example'', pt_requestHeaders = [(''x-access-token'', ''t'')],
     pt_expiresAt = 1785586500000\<rparr>"

definition sample_store :: "(string \<Rightarrow> string option) session_store" where
  "sample_store = \<lparr>ss_client = \<lparr>rc_set = (\<lambda>k v ttl r. Inr (r(k \<mapsto> v))), rc_get = (\<lambda>k r. Inr (r k)),
       rc_del = (\<lambda>k r. Inr (r(k := None)))\<rparr>,
     ss_keyPrefix = ''atoms:preview:'', ss_parse_target = Some, ss_stringify = (\<lambda>t. pt_runId t),
     ss_parse_json = (\<lambda>s. if s = ''r'' then Some sample_target else None), ss_uuid = (\<lambda>s. s = sample_uuid)\<rparr>"

definition sample_gateway :: "(string \<Rightarrow> string option) gateway" where
  "sample_gateway = \<lparr>gw_signer = sample_signer, gw_store = sample_store, gw_uiOrigin = ''https://app.example'',
     gw_parse_url = (\<lambda>s. Some \<lparr>url_protocol = ''https:'', url_host = ''3000-box.example'', url_origin = s, url_path = ''/''\<rparr>),
     gw_join_url = (\<lambda>p u. Some (u\<lparr>url_path := p\<rparr>))\<rparr>"

definition sample_redis :: "string \<Rightarrow> string option" where
  "sample_redis = (\<lambda>k. if k = store_key sample_store sample_uuid then Some ''r'' else None)"

lemma sample_get: "get_target sample_store sample_uuid 1785586499999 sample_redis = Inr (Some sample_target, sample_redis)"
  by (simp add: get_target_def sample_store_def sample_redis_def sample_target_def store_key_def)

definition sample_preview_request :: "string \<Rightarrow> preview_request" where
  "sample_preview_request h = \<lparr>rq_url = Some ''/index.html'', rq_method = ''GET'',
     rq_headers = (\<lambda>n. if n = ''host'' then Some (Line h) else None)\<rparr>"

lemma sample_forwarded:
  assumes "verifyHost sample_signer h 1785586499999 = Inr (sample_uuid, 1785586500000)"
  shows "\<exists>u m hs. gateway_request sample_gateway (sample_preview_request h) 1785586499999 sample_redis =
    (Forward u m hs, sample_redis) \<and> url_path u = ''/index.html'' \<and> url_origin u = ''https://3000-box.example''"
proof -
  have host: "request_host (sample_preview_request h) = Some h"
    by (simp add: request_host_def sample_preview_request_def)
  have "resolveTarget sample_gateway (Some h) 1785586499999 sample_redis = (Inr sample_target, sample_redis)"
    using assms sample_get by (simp add: resolveTarget_def sample_gateway_def sample_target_def)
  moreover have "upstreamRequestUrl sample_gateway (Some ''/index.html'') sample_target =
      Inr \<lparr>url_protocol = ''https:'', url_host = ''3000-box.example'', url_origin = ''https://3000-box.example'',
           url_path = ''/index.html''\<rparr>"
    by (simp add: upstreamRequestUrl_def sample_gateway_def sample_target_def)
  moreover have "rq_url (sample_preview_request h) = Some ''/index.html''" by (simp add: sample_preview_request_def)
  ultimately show ?thesis using host by (simp add: gateway_request_def)
qed

theorem gateway_forwards_to_own_origin_witness:
  "\<exists>h (u :: url). verifyHost sample_signer h 1785586499999 = Inr (sample_uuid, 1785586500000) \<and>
    url_path u = ''/index.html'' \<and> url_origin u = ''https://3000-box.example''"
proof -
  obtain h where h: "verifyHost sample_signer h 1785586499999 = Inr (sample_uuid, 1785586500000)"
    using sample_verified by blast
  from sample_forwarded [OF h] obtain u m hs where
    u: "gateway_request sample_gateway (sample_preview_request h) 1785586499999 sample_redis = (Forward u m hs, sample_redis)"
      "url_path u = ''/index.html''" by blast
  have host: "request_host (sample_preview_request h) = Some h"
    by (simp add: request_host_def sample_preview_request_def)
  from gateway_forwards_to_own_origin [OF disjI1, OF u(1)] obtain h' sid ms t b where
    f: "request_host (sample_preview_request h) = Some h'" "verifyHost (gw_signer sample_gateway) h' 1785586499999 = Inr (sid, ms)"
    and t: "get_target (gw_store sample_gateway) sid 1785586499999 sample_redis = Inr (Some t, sample_redis)"
    and b: "gw_parse_url sample_gateway (pt_upstreamUrl t) = Some b" "url_origin u = url_origin b"
    by (elim exE conjE) (erule (4) that)
  have "gw_signer sample_gateway = sample_signer" by (simp add: sample_gateway_def)
  with f h host have "sid = sample_uuid" by simp
  from t have "t = sample_target" using sample_get \<open>sid = sample_uuid\<close> by (simp add: sample_gateway_def)
  with b have "url_origin u = ''https://3000-box.example''"
    by (auto simp: sample_gateway_def sample_target_def)
  show ?thesis
    by (rule exI [of _ h], rule exI [of _ u], intro conjI h u(2) \<open>url_origin u = ''https://3000-box.example''\<close>)
qed

end
