(* ===== verification/ValidationLaws.thy ===== *)
theory ValidationLaws
  imports ValidationRunner GraphLaws
begin

text \<open>
  Facts about \<open>ValidationRunner\<close>, for every sandbox provider and every hook: which steps a
  validation that succeeds has gone through, that a failure leaves no sandbox behind, and how the
  error of a failed step is read by the worker.
\<close>

section \<open>The reports of a step\<close>

lemma report_sel [simp]:
  "st_ordinal (report n s c a b r) = n" "st_name (report n s c a b r) = s" "st_exitCode (report n s c a b r) = er_exitCode r"
  by (simp_all add: report_def)

definition step_as :: "nat \<Rightarrow> validation_step \<Rightarrow> step_report \<Rightarrow> bool" where
  "step_as n s r \<longleftrightarrow> st_ordinal r = n \<and> st_name r = s"

lemma executeStep_as: "returns (step_as n s) (executeStep R sb n s c t e)"
  unfolding executeStep_def by (intro returns_bind returns_return) (simp add: step_as_def)

lemma tryStep_as: "returns (step_as n s) (tryStep R n s c run)"
  unfolding tryStep_def
  by (intro returns_bind returns_catch returns_return) (simp_all add: step_as_def)

lemma returnsD: "returns Q m \<Longrightarrow> m w = (Inr b, w') \<Longrightarrow> Q b"
  by (auto simp: returns_def)

lemma retry_install_as: "returns Q ex \<Longrightarrow> Q s \<Longrightarrow> returns Q (retry_install ex n s)"
proof (induction n arbitrary: s)
  case (Suc n)
  show ?case unfolding returns_def
  proof (intro allI impI)
    fix w b w'
    assume r: "retry_install ex (Suc n) s w = (Inr b, w')"
    show "Q b"
    proof (cases "isTransientNetworkFailure s")
      case True
      with r obtain a w1 where "ex w = (Inr a, w1)" "retry_install ex n a w1 = (Inr b, w')"
        by (auto simp: bind_act_Inr)
      with Suc show ?thesis by (blast dest: returnsD)
    next
      case False
      with r Suc.prems(2) show ?thesis by simp
    qed
  qed
qed (simp add: returns_return)

lemma command_step_as: "returns (step_as n (cd_name c)) (run_command_step R sb n c)"
  unfolding returns_def
proof (intro allI impI)
  fix w b w'
  let ?ex = "executeStep R sb n (cd_name c) (cd_command c) (cd_timeoutMs c) (cd_envs c)"
  assume "run_command_step R sb n c w = (Inr b, w')"
  then obtain a w1 where a: "?ex w = (Inr a, w1)"
    and b: "(if cd_name c = Install then retry_install ?ex (MAX_INSTALL_ATTEMPTS - 1) a else return_act a) w1 = (Inr b, w')"
    by (auto simp: run_command_step_def Let_def bind_act_Inr)
  have "step_as n (cd_name c) a" by (rule returnsD [OF executeStep_as a])
  with b show "step_as n (cd_name c) b"
    using returnsD [OF retry_install_as [OF executeStep_as]] by (cases "cd_name c = Install") auto
qed

section \<open>Gates\<close>

lemma assert_Inr: "assert_successful s w = (Inr u, w') \<longleftrightarrow> st_exitCode s = 0 \<and> w' = w"
  by (auto simp: assert_successful_def)

text \<open>The shape of a list of reports: names in this order, numbered from \<open>n\<close> on.\<close>

definition reports :: "nat \<Rightarrow> validation_step list \<Rightarrow> step_report list \<Rightarrow> bool" where
  "reports n names rs \<longleftrightarrow> map st_name rs = names \<and> map st_ordinal rs = [n..<n + length rs]"

lemma reports_Nil [simp]: "reports n [] []"
  by (simp add: reports_def)

lemma reports_append:
  "reports n xs rs \<Longrightarrow> reports (n + length rs) ys qs \<Longrightarrow> reports n (xs @ ys) (rs @ qs)"
  using upt_add_eq_append [of n "n + length rs" "length qs"] by (auto simp: reports_def add.assoc)

lemma reports_single: "step_as n s r \<Longrightarrow> reports n [s] [r]"
  by (simp add: reports_def step_as_def)

lemma reports_snoc: "reports 1 xs rs \<Longrightarrow> step_as (length rs + 1) s r \<Longrightarrow> reports 1 (xs @ [s]) (rs @ [r])"
  by (intro reports_append reports_single) simp_all

lemma run_commands_reports:
  assumes "run_commands R H sb cs steps w = (Inr out, w')" and "reports 1 names steps"
  shows "\<exists>new. out = steps @ new \<and> reports 1 (names @ map cd_name cs) out \<and> (\<forall>s \<in> set new. st_exitCode s = 0)"
  using assms
proof (induction cs arbitrary: steps names w)
  case (Cons c cs)
  from Cons.prems(1) obtain s w1 w2 where s: "run_command_step R sb (length steps + 1) c w = (Inr s, w1)"
    "st_exitCode s = 0" "run_commands R H sb cs (steps @ [s]) w2 = (Inr out, w')"
    by (auto simp: bind_act_Inr assert_Inr)
  have "reports 1 (names @ [cd_name c]) (steps @ [s])"
    by (rule reports_snoc [OF Cons.prems(2) returnsD [OF command_step_as s(1)]])
  from Cons.IH [OF s(3) this] s(2) show ?case by auto
qed simp

lemma provision_reports:
  assumes "provisionDatabase R H sb steps w = (Inr (ready, out), w')" and "reports 1 names steps"
  shows "\<exists>new k. out = steps @ new \<and> reports 1 (names @ take k [DbStart, DbMigrate, DbSeed]) out \<and> 1 \<le> k \<and>
    (ready \<longleftrightarrow> k = 3) \<and> (\<forall>s \<in> set new. st_name s \<in> {DbStart, DbMigrate, DbSeed})"
proof -
  let ?ex = "sp_exec (vr_provider R) (sh_id sb)"
  have one: "reports 1 (names @ [DbStart]) (steps @ [s1])" if "step_as (length steps + 1) DbStart s1" for s1
    using reports_snoc [OF assms(2) that] .
  have two: "reports 1 (names @ [DbStart, DbMigrate]) (steps @ [s1, s2])"
    if "step_as (length steps + 1) DbStart s1" "step_as (length steps + 2) DbMigrate s2" for s1 s2
    using reports_snoc [OF one [OF that(1)], of DbMigrate s2] that(2) by simp
  have three: "reports 1 (names @ [DbStart, DbMigrate, DbSeed]) (steps @ [s1, s2, s3])"
    if "step_as (length steps + 1) DbStart s1" "step_as (length steps + 2) DbMigrate s2"
      "step_as (length steps + 3) DbSeed s3" for s1 s2 s3
    using reports_snoc [OF two [OF that(1,2)], of DbSeed s3] that(3) by (simp add: numeral_3_eq_3)
  from assms(1) obtain s1 w1 w2 where s1: "step_as (length steps + 1) DbStart s1"
    and rest: "(st_exitCode s1 \<noteq> 0 \<and> ready = False \<and> out = steps @ [s1]) \<or>
      (\<exists>s2. step_as (length steps + 2) DbMigrate s2 \<and>
        ((ready = False \<and> out = steps @ [s1, s2]) \<or>
         (\<exists>s3. step_as (length steps + 3) DbSeed s3 \<and> ready = True \<and> out = steps @ [s1, s2, s3])))"
    by (auto simp: provisionDatabase_def Let_def bind_act_Inr split: if_splits dest!: returnsD [OF tryStep_as])
  from rest show ?thesis
  proof (elim disjE exE conjE)
    assume "ready = False" "out = steps @ [s1]"
    with one [OF s1] s1 show ?thesis
      by (intro exI [of _ "[s1]"] exI [of _ 1]) (simp add: step_as_def)
  next
    fix s2 assume "step_as (length steps + 2) DbMigrate s2" "ready = False" "out = steps @ [s1, s2]"
    with two [OF s1] s1 show ?thesis
      by (intro exI [of _ "[s1, s2]"] exI [of _ 2]) (simp add: step_as_def numeral_2_eq_2)
  next
    fix s2 s3 assume "step_as (length steps + 2) DbMigrate s2" "step_as (length steps + 3) DbSeed s3"
      "ready = True" "out = steps @ [s1, s2, s3]"
    with three [OF s1] s1 show ?thesis
      by (intro exI [of _ "[s1, s2, s3]"] exI [of _ 3]) (simp add: step_as_def numeral_3_eq_3)
  qed
qed

lemma start_preview_reports:
  assumes "start_preview R H sb t ready steps w = (Inr (pid, out), w')" and "reports 1 names steps"
  shows "\<exists>s. out = steps @ [s] \<and> reports 1 (names @ [PreviewStart]) out \<and> st_exitCode s = 0"
proof -
  from assms(1) obtain s where "out = steps @ [s]" "step_as (length steps + 1) PreviewStart s" "st_exitCode s = 0"
    by (auto simp: start_preview_def Let_def bind_act_Inr step_as_def)
  with reports_snoc [OF assms(2)] show ?thesis by blast
qed

lemma check_health_as: "returns (step_as n PreviewHealth) (check_health R sb n)"
  unfolding check_health_def
  by (auto split: option.split intro!: returns_bind executeStep_as)

lemma acceptance_reports:
  assumes "acceptance_phase R inp sb steps w = (Inr out, w')" and "reports 1 names steps"
  shows "\<exists>new. out = steps @ new \<and> reports 1 (names @ (if vi_manifest inp \<noteq> None \<and> \<not> vi_previewOnly inp \<and> vr_acceptanceEntry R \<noteq> None
    then [Acceptance] else [])) out \<and> (\<forall>s \<in> set new. st_name s = Acceptance)"
proof (cases "vi_manifest inp \<noteq> None \<and> \<not> vi_previewOnly inp \<and> vr_acceptanceEntry R \<noteq> None")
  case True
  with assms(1) obtain s where s: "out = steps @ [s]" "step_as (length steps + 1) Acceptance s"
    by (auto simp: acceptance_phase_def runAcceptanceCheck_def Let_def bind_act_Inr dest!: returnsD [OF tryStep_as])
  from reports_snoc [OF assms(2) s(2)] s True show ?thesis by (simp add: step_as_def)
next
  case False
  with assms show ?thesis by (auto simp: acceptance_phase_def split: option.splits if_splits)
qed

section \<open>A validation that succeeds\<close>

definition informational :: "validation_step \<Rightarrow> bool" where
  "informational s \<longleftrightarrow> s \<in> {DbStart, DbMigrate, DbSeed, Acceptance}"

definition acceptance_names :: "'w runner \<Rightarrow> 'w validation_input \<Rightarrow> validation_step list" where
  "acceptance_names R inp =
     (if vi_manifest inp \<noteq> None \<and> \<not> vi_previewOnly inp \<and> vr_acceptanceEntry R \<noteq> None then [Acceptance] else [])"

lemma selected_names:
  "map cd_name (selected_commands preview) =
     (if preview then [Install, Build] else [Install, PrismaValidate, Lint, Typecheck, Test, Build])"
  by (simp add: selected_commands_def validationCommands_def)

lemma database_phase:
  assumes "(if vr_provisionDatabase R then provisionDatabase R H sb steps else return_act (False, steps)) w = (Inr (ready, out), w')"
    and "reports 1 names steps"
  shows "\<exists>new k. out = steps @ new \<and> reports 1 (names @ take k [DbStart, DbMigrate, DbSeed]) out \<and>
    (0 < k \<longleftrightarrow> vr_provisionDatabase R) \<and> (\<forall>s \<in> set new. informational (st_name s))"
proof (cases "vr_provisionDatabase R")
  case True
  with assms(1) have "provisionDatabase R H sb steps w = (Inr (ready, out), w')" by simp
  from provision_reports [OF this assms(2)] obtain new k where "out = steps @ new"
    "reports 1 (names @ take k [DbStart, DbMigrate, DbSeed]) out" "1 \<le> k"
    "\<forall>s \<in> set new. st_name s \<in> {DbStart, DbMigrate, DbSeed}" by blast
  with True show ?thesis by (intro exI [of _ new] exI [of _ k]) (auto simp: informational_def)
next
  case False
  with assms show ?thesis by (intro exI [of _ "[]"] exI [of _ 0]) simp
qed

lemma validate_sandbox_steps:
  assumes "validate_sandbox R inp parsed sb t w = (Inr res, w')"
  shows "vr_sandbox res = sb \<and> vr_expiresAt res = t \<and> (\<exists>k.
    reports 1 (map cd_name (selected_commands (vi_previewOnly inp)) @ take k [DbStart, DbMigrate, DbSeed] @
      [PreviewStart, PreviewHealth] @ acceptance_names R inp) (vr_steps res) \<and>
    (0 < k \<longleftrightarrow> vr_provisionDatabase R)) \<and>
    (\<forall>s \<in> set (vr_steps res). st_exitCode s = 0 \<or> informational (st_name s))"
proof -
  let ?H = "vi_hooks inp" and ?cs = "map cd_name (selected_commands (vi_previewOnly inp))"
  from assms obtain s1 p2 p3 h s4 w1 w1' w2 w2' w3 w3' w4 w4' w5 w5' preview where
    cmds: "run_commands R ?H sb (selected_commands (vi_previewOnly inp)) [] w1 = (Inr s1, w1')" and
    db: "(if vr_provisionDatabase R then provisionDatabase R ?H sb s1 else return_act (False, s1)) w2 = (Inr p2, w2')" and
    start: "start_preview R ?H sb t (fst p2) (snd p2) w3 = (Inr p3, w3')" and
    health: "check_health R sb (length (snd p3) + 1) w4 = (Inr h, w4')" "st_exitCode h = 0" and
    acc: "acceptance_phase R inp sb (snd p3 @ [h]) w5 = (Inr s4, w5')" and
    res: "res = \<lparr>vr_sandbox = sb, vr_expiresAt = t, vr_processId = fst p3, vr_preview = preview, vr_steps = s4\<rparr>"
    unfolding validate_sandbox_def Let_def case_prod_beta by (auto simp only: bind_act_Inr assert_Inr prim_act_Inr)
  obtain ready s2 where p2: "p2 = (ready, s2)" by (rule prod.exhaust)
  obtain pid s3 where p3: "p3 = (pid, s3)" by (rule prod.exhaust)
  note db = db [unfolded p2] and start = start [unfolded p2 p3 fst_conv snd_conv]
    and health = health [unfolded p3 snd_conv] and acc = acc [unfolded p3 snd_conv]
  from run_commands_reports [OF cmds, of "[]"] have r1: "reports 1 ?cs s1" "\<forall>s \<in> set s1. st_exitCode s = 0" by auto
  from database_phase [OF db r1(1)] obtain n2 k where r2: "s2 = s1 @ n2"
    "reports 1 (?cs @ take k [DbStart, DbMigrate, DbSeed]) s2" "0 < k \<longleftrightarrow> vr_provisionDatabase R"
    "\<forall>s \<in> set n2. informational (st_name s)" by blast
  from start_preview_reports [OF start r2(2)] obtain p where r3: "s3 = s2 @ [p]" "st_exitCode p = 0"
    "reports 1 ((?cs @ take k [DbStart, DbMigrate, DbSeed]) @ [PreviewStart]) s3" by blast
  have r4: "reports 1 (((?cs @ take k [DbStart, DbMigrate, DbSeed]) @ [PreviewStart]) @ [PreviewHealth]) (s3 @ [h])"
    by (rule reports_snoc [OF r3(3) returnsD [OF check_health_as health(1)]])
  from acceptance_reports [OF acc r4] obtain n4 where r5: "s4 = (s3 @ [h]) @ n4"
    "reports 1 ((((?cs @ take k [DbStart, DbMigrate, DbSeed]) @ [PreviewStart]) @ [PreviewHealth]) @ acceptance_names R inp) s4"
    "\<forall>s \<in> set n4. st_name s = Acceptance" unfolding acceptance_names_def by blast
  have "\<forall>s \<in> set s4. st_exitCode s = 0 \<or> informational (st_name s)"
    using r1(2) r2(1,4) r3(1,2) health(2) r5(1,3) by (auto simp: informational_def)
  moreover have "reports 1 (?cs @ take k [DbStart, DbMigrate, DbSeed] @ [PreviewStart, PreviewHealth] @ acceptance_names R inp) s4"
    using r5(2) by simp
  ultimately show ?thesis using res r2(3) by auto
qed

lemma validate_project_Inr:
  assumes "validate_project R inp w = (Inr res, w')"
  obtains parsed sb w1 where "parse_validation_input (vi_files inp) (vi_metadata inp) = Some parsed"
    "sp_create (vr_provider R) (sandbox_spec_of R (vi_metadata inp)) w = (Inr sb, w1)"
    "validate_sandbox R inp parsed sb (vr_now R w + vr_timeoutMs R) w1 = (Inr res, w')"
proof -
  from assms obtain parsed where p: "parse_validation_input (vi_files inp) (vi_metadata inp) = Some parsed"
    by (cases "parse_validation_input (vi_files inp) (vi_metadata inp)") (simp_all add: validate_project_def)
  with assms obtain sb w1 where "sp_create (vr_provider R) (sandbox_spec_of R (vi_metadata inp)) w = (Inr sb, w1)"
    "validate_sandbox R inp parsed sb (vr_now R w + vr_timeoutMs R) w1 = (Inr res, w')"
    by (auto simp: validate_project_def bind_act_Inr catch_act_Inr clock_def split: if_splits)
  with p that show thesis by blast
qed

text \<open>C19: A validation that succeeds has gone through exactly the steps that were asked for, in order and
  numbered from 1: install to build (only install and build for a preview), then as much of the
  local database as could be brought up, the start of the preview, its health check and the
  acceptance check. Every step that is a gate exited with 0; only the database and acceptance
  steps may have failed. The sandbox is the one that was created and the expiry follows from its
  time limit.\<close>

theorem validated_project_passed_gates:
  assumes "validate_project R inp w = (Inr res, w')"
  shows "(\<exists>k names. names = (if vi_previewOnly inp then [Install, Build]
        else [Install, PrismaValidate, Lint, Typecheck, Test, Build]) @ take k [DbStart, DbMigrate, DbSeed] @
        [PreviewStart, PreviewHealth] @
        (if vi_manifest inp \<noteq> None \<and> \<not> vi_previewOnly inp \<and> vr_acceptanceEntry R \<noteq> None then [Acceptance] else []) \<and>
      map st_name (vr_steps res) = names \<and> map st_ordinal (vr_steps res) = [1..<1 + length names] \<and>
      (0 < k \<longleftrightarrow> vr_provisionDatabase R)) \<and>
    (\<forall>s \<in> set (vr_steps res). st_exitCode s = 0 \<or> st_name s \<in> {DbStart, DbMigrate, DbSeed, Acceptance}) \<and>
    (\<exists>sb w1. sp_create (vr_provider R) (sandbox_spec_of R (vi_metadata inp)) w = (Inr sb, w1) \<and> vr_sandbox res = sb) \<and>
    vr_expiresAt res = vr_now R w + vr_timeoutMs R"
proof -
  from validate_project_Inr [OF assms] obtain parsed sb w1 where
    v: "sp_create (vr_provider R) (sandbox_spec_of R (vi_metadata inp)) w = (Inr sb, w1)"
      "validate_sandbox R inp parsed sb (vr_now R w + vr_timeoutMs R) w1 = (Inr res, w')" by metis
  note steps = validate_sandbox_steps [OF v(2)]
  from steps obtain k where k: "0 < k \<longleftrightarrow> vr_provisionDatabase R"
    "reports 1 ((if vi_previewOnly inp then [Install, Build] else [Install, PrismaValidate, Lint, Typecheck, Test, Build]) @
       take k [DbStart, DbMigrate, DbSeed] @ [PreviewStart, PreviewHealth] @ acceptance_names R inp) (vr_steps res)"
    unfolding selected_names by blast
  then have "\<exists>k names. names = (if vi_previewOnly inp then [Install, Build]
        else [Install, PrismaValidate, Lint, Typecheck, Test, Build]) @ take k [DbStart, DbMigrate, DbSeed] @
        [PreviewStart, PreviewHealth] @
        (if vi_manifest inp \<noteq> None \<and> \<not> vi_previewOnly inp \<and> vr_acceptanceEntry R \<noteq> None then [Acceptance] else []) \<and>
      map st_name (vr_steps res) = names \<and> map st_ordinal (vr_steps res) = [1..<1 + length names] \<and>
      (0 < k \<longleftrightarrow> vr_provisionDatabase R)"
    unfolding reports_def acceptance_names_def by (metis length_map)
  with steps v(1) show ?thesis unfolding informational_def by blast
qed

section \<open>A validation that fails\<close>

lemma bind_act_Inl:
  "bind_act m f w = (Inl e, w') \<longleftrightarrow> m w = (Inl e, w') \<or> (\<exists>a w1. m w = (Inr a, w1) \<and> f a w1 = (Inl e, w'))"
  by (auto simp: bind_act_def split: prod.splits sum.splits)

text \<open>A validation that fails leaves no sandbox running: it fails before one is created, or the
  creation itself fails, or the last thing it does is to terminate the sandbox that was
  created, whatever hook, step or provider call threw.\<close>

lemma failed_validation_terminates_sandbox:
  assumes "validate_project R inp w = (Inl e, w')"
  shows "(e = ZodError \<and> w' = w) \<or> sp_create (vr_provider R) (sandbox_spec_of R (vi_metadata inp)) w = (Inl e, w') \<or>
    (\<exists>sb w1 w2 r. sp_create (vr_provider R) (sandbox_spec_of R (vi_metadata inp)) w = (Inr sb, w1) \<and>
       sp_terminate (vr_provider R) (sh_id sb) w2 = (r, w'))"
proof (cases "parse_validation_input (vi_files inp) (vi_metadata inp)")
  case None
  with assms show ?thesis by (simp add: validate_project_def throw_act_def)
next
  case (Some parsed)
  let ?body = "\<lambda>sb. catch_act (validate_sandbox R inp parsed sb (vr_now R w + vr_timeoutMs R))
    (\<lambda>e. bind_act (catch_act (sp_terminate (vr_provider R) (sh_id sb)) (\<lambda>_. return_act ())) (\<lambda>_. throw_act e))"
  from assms Some consider "e = ZodError" "w' = w" | "sp_create (vr_provider R) (sandbox_spec_of R (vi_metadata inp)) w = (Inl e, w')"
    | sb w1 where "sp_create (vr_provider R) (sandbox_spec_of R (vi_metadata inp)) w = (Inr sb, w1)" "?body sb w1 = (Inl e, w')"
    by (auto simp: validate_project_def bind_act_Inl clock_def throw_act_def split: if_splits)
  then show ?thesis
  proof cases
    case (3 sb w1)
    obtain r w2 where v: "validate_sandbox R inp parsed sb (vr_now R w + vr_timeoutMs R) w1 = (r, w2)" by (rule prod.exhaust)
    obtain q w3 where t: "sp_terminate (vr_provider R) (sh_id sb) w2 = (q, w3)" by (rule prod.exhaust)
    from 3(2) v t have "w3 = w'"
      by (cases r; cases q) (simp_all add: catch_act_def bind_act_def throw_act_def return_act_def)
    with 3(1) t show ?thesis by blast
  qed simp_all
qed

section \<open>The error of a failed step\<close>

lemma tail_bound: "length (tailOfStepOutput s) \<le> 8026"
  by (simp add: tailOfStepOutput_def Let_def split: list.splits)

text \<open>The error that a failed step raises tells the worker which step failed, with which exit code
  and with at most 8,026 characters of its output, wherever the worker looks for it: it is read
  back as this validation failure, it is not taken for a stopped run, it is not retried, and the
  run is recorded as failed by validation.\<close>

lemma failed_step_recognised:
  assumes "assert_successful s w = (Inl e, w')"
  shows "st_exitCode s \<noteq> 0 \<and> w' = w \<and>
    findValidationFailure e = Some \<lparr>vf_step = step_name (st_name s), vf_exitCode = st_exitCode s, vf_output = tailOfStepOutput s\<rparr> \<and>
    length (tailOfStepOutput s) \<le> 8026 \<and> findRunStoppedError e = None \<and> \<not> isRetryableError e \<and>
    classifyRunFailure e = FAILED_VALIDATION"
proof -
  from assms have e: "st_exitCode s \<noteq> 0" "w' = w" "e = SandboxValidationError (st_name s) (st_exitCode s) (tailOfStepOutput s)"
    by (auto simp: assert_successful_def throw_act_def return_act_def split: if_splits)
  have "findValidationFailure e = Some \<lparr>vf_step = step_name (st_name s), vf_exitCode = st_exitCode s, vf_output = tailOfStepOutput s\<rparr>"
    by (simp add: e(3) SandboxValidationError_def findValidationFailure_def throw_node_def node_of_def
        node_validation_failure_def eval_nat_numeral)
  moreover have "findRunStoppedError e = None" "\<not> isRetryableError e" "classifyRunFailure e = FAILED_VALIDATION"
    by (simp_all add: e(3) SandboxValidationError_def findRunStoppedError_def isRetryableError_def classifyRunFailure_def
        throw_node_def node_of_def eval_nat_numeral is_validation_node_def
        is_run_stopped_def is_budget_node_def node_code_def node_name_def BUDGET_EXHAUSTION_CODES_def)
  ultimately show ?thesis using e(1,2) tail_bound by blast
qed

section \<open>A sample runner\<close>

text \<open>A provider whose commands all exit with the given code, over the empty state.\<close>

definition sample_provider :: "int \<Rightarrow> unit sandbox_provider" where
  "sample_provider code =
     \<lparr>sp_create = (\<lambda>_. return_act \<lparr>sh_id = ''box''\<rparr>), sp_writeFiles = (\<lambda>_ _. return_act ()),
      sp_exec = (\<lambda>_ _. return_act \<lparr>er_exitCode = code, er_stdout = ''out'', er_stderr = [], er_durationMs = 1\<rparr>),
      sp_startProcess = (\<lambda>_ _. return_act 7),
      sp_exposePort = (\<lambda>_ p. return_act \<lparr>pu_port = p, pu_url = ''https://box'', pu_requestHeaders = None\<rparr>),
      sp_terminate = (\<lambda>_. return_act ())\<rparr>"

definition sample_runner :: "int \<Rightarrow> unit runner" where
  "sample_runner code = new_runner (sample_provider code) (\<lambda>_. 100) [] [] (\<lambda>_. [])
     \<lparr>rc_template = None, rc_allowedHosts = None, rc_browserViability = None, rc_acceptanceCheck = None,
      rc_provisionLocalDatabase = Some True, rc_sandboxTimeoutMs = Some 50, rc_projectDirectory = None,
      rc_previewPort = None\<rparr>"

definition sample_input :: "unit validation_input" where
  "sample_input = \<lparr>vi_files = [(''package.json'', ''{}'')], vi_metadata = [],
     vi_hooks = \<lparr>hk_created = None, hk_restored = None, hk_step = None, hk_environment = None\<rparr>,
     vi_manifest = None, vi_previewOnly = True\<rparr>"

lemma retry_install_settled: "\<not> isTransientNetworkFailure s \<Longrightarrow> retry_install ex n s = return_act s"
  by (cases n) simp_all

lemma sample_parse: "parse_validation_input [(''package.json'', ''{}'')] [] = Some [(''package.json'', ''{}'')]"
  by (simp add: parse_validation_input_def valid_project_file_path_def js_trim_def is_space_def Let_def)

lemmas run_sample = sample_parse sample_provider_def sample_runner_def sample_input_def new_runner_def or_default_def
  validate_project_def clock_def return_act_def bind_act_def catch_act_def throw_act_def validate_sandbox_def selected_commands_def
  validationCommands_def run_command_step_def executeStep_def on_step_def assert_successful_def report_def
  provisionDatabase_def tryStep_def start_preview_def check_health_def acceptance_phase_def Let_def retry_install_settled

lemma not_transient: "st_stdout s = ''out'' \<Longrightarrow> st_stderr s = [] \<Longrightarrow> \<not> isTransientNetworkFailure s"
proof -
  have "\<not> list_ex (js_includes (js_toLowerCase (''out'' @ ''\<newline>'' @ [])))
      [''econnreset'', ''etimedout'', ''esockettimedout'', ''eai_again'', ''socket hang up'']" by code_simp
  then show "st_stdout s = ''out'' \<Longrightarrow> st_stderr s = [] \<Longrightarrow> \<not> isTransientNetworkFailure s"
    unfolding isTransientNetworkFailure_def by metis
qed

lemma run_expiry: "vr_now (sample_runner c) w + vr_timeoutMs (sample_runner c) = 150"
  by (simp add: sample_runner_def new_runner_def or_default_def)

theorem validated_project_passed_gates_witness:
  "\<exists>res. validate_project (sample_runner 0) sample_input () = (Inr res, ()) \<and> vr_expiresAt res = 150 \<and>
     map st_ordinal (vr_steps res) = [1..<1 + length (vr_steps res)]"
proof -
  obtain res where run: "validate_project (sample_runner 0) sample_input () = (Inr res, ())"
    by (simp add: run_sample isTransientNetworkFailure_def)
  from validated_project_passed_gates [OF run] run show ?thesis
    by (metis length_map run_expiry)
qed

end
