(* ===== verification/DatabaseStore.thy ===== *)
theory DatabaseStore
  imports ControlRepository
begin

text \<open>
  The tables of provisioned databases (\<open>schema.prisma\<close>: \<open>DatabaseInstance\<close>,
  \<open>IntegrationConnection\<close>, \<open>SecretReference\<close>, \<open>MigrationRun\<close>, and the reconciliation sweeps
  and findings) beside the store of runs, which holds the projects, the migration artifacts
  and the events. The provider of every row that the code writes is \<open>SUPABASE\<close>; it is left
  out. Identifiers of these tables come from a counter of their own. Transactions are
  functions of the whole store, as in the theory Database: a throw is the rollback.

  Also here: the row as the control API and as the worker see it (\<open>toDatabaseRecord\<close>,
  \<open>toExecutionRecord\<close>) and the event both append to the run that produced the migration.
\<close>

section \<open>Rows\<close>

record db_instance =
  di_operationId :: uuid
  di_workspaceId :: uuid
  di_projectId :: uuid
  di_migrationArtifactId :: "uuid option"
  di_integrationConnectionId :: "uuid option"
  di_externalId :: "string option"
  di_idempotencyKey :: string
  di_displayName :: string
  di_databaseName :: "string option"
  di_region :: "string option"
  di_connectionSecretRef :: "string option"
  di_status :: database_status
  di_operationVersion :: nat
  di_attempt :: nat
  di_recoveryCount :: nat
  di_error :: "json option"
  di_metadata :: "json option"
  di_providerOperationMetadata :: "json option"
  di_lastSyncedAt :: "time option"
  di_lastHeartbeatAt :: "time option"
  di_lastReconciledAt :: "time option"
  di_readyAt :: "time option"
  di_deletedAt :: "time option"

datatype integration_status = IC_CONNECTED | IC_REVOKED | IC_ERROR

record integration =
  ic_workspaceId :: uuid
  ic_projectId :: uuid
  ic_status :: integration_status
  ic_credentialSecretRef :: string
  ic_revokedAt :: "time option"

datatype secret_purpose = PROVIDER_CREDENTIAL | DATABASE_RUNTIME | DATABASE_MIGRATION
datatype secret_status = SEC_ACTIVE | SEC_REVOKED | SEC_EXPIRED

record secret_reference =
  sr_workspaceId :: uuid
  sr_projectId :: uuid
  sr_purpose :: secret_purpose
  sr_status :: secret_status
  sr_revokedAt :: "time option"

datatype migration_status = MR_QUEUED | MR_RUNNING | MR_SUCCEEDED | MR_FAILED | MR_BLOCKED

record migration_report =
  mp_ordinal :: nat
  mp_name :: string
  mp_command :: string
  mp_exitCode :: int
  mp_stdout :: string
  mp_stderr :: string

record migration_run =
  mr_status :: migration_status
  mr_schemaHash :: string
  mr_destructive :: bool
  mr_commandResults :: "migration_report list option"
  mr_error :: "json option"
  mr_startedAt :: "time option"
  mr_completedAt :: "time option"

datatype sweep_status = SW_RUNNING | SW_SUCCEEDED | SW_FAILED

record sweep_summary =
  su_recoveredOperations :: nat
  su_exhaustedOperations :: nat
  su_missingResources :: nat
  su_orphanCandidates :: nat
  su_cleanedResources :: nat

record sweep =
  sw_status :: sweep_status
  sw_dryRun :: bool
  sw_staleBefore :: time
  sw_orphanGraceBefore :: time
  sw_summary :: "sweep_summary option"
  sw_error :: "json option"
  sw_startedAt :: time
  sw_completedAt :: "time option"

datatype finding_kind = PROVIDER_RESOURCE_MISSING | ORPHAN_PROVIDER_RESOURCE | RECOVERY_EXHAUSTED
datatype finding_status = F_OPEN | F_APPROVED | F_CLEANING | F_RESOLVED | F_IGNORED

record finding =
  fi_fingerprint :: string
  fi_sweepId :: uuid
  fi_kind :: finding_kind
  fi_status :: finding_status
  fi_databaseInstanceId :: "uuid option"
  fi_externalId :: "string option"
  fi_resourceName :: "string option"
  fi_details :: json
  fi_observationCount :: nat
  fi_firstSeenAt :: time
  fi_lastSeenAt :: time
  fi_cleanupAfter :: "time option"
  fi_approvedBy :: "string option"
  fi_approvedAt :: "time option"
  fi_resolvedAt :: "time option"
  fi_resolution :: "string option"

record odb =
  od_main :: db
  instances :: "(uuid \<times> db_instance) list"
  integrations :: "(uuid \<times> integration) list"
  secrets :: "(string \<times> secret_reference) list"
  migration_runs :: "((uuid \<times> uuid) \<times> migration_run) list"
  sweeps :: "(uuid \<times> sweep) list"
  findings :: "(uuid \<times> finding) list"
  od_next :: uuid

type_synonym 'a otx = "odb \<Rightarrow> thrown + 'a \<times> odb"

abbreviation instance_of :: "odb \<Rightarrow> uuid \<Rightarrow> db_instance option" where
  "instance_of d i \<equiv> map_of (instances d) i"

section \<open>Statements\<close>

text \<open>\<open>updateMany\<close> over one table, and over the row of one key.\<close>

definition update_rows :: "('k \<times> 'r \<Rightarrow> bool) \<Rightarrow> ('r \<Rightarrow> 'r) \<Rightarrow> ('k \<times> 'r) list \<Rightarrow> ('k \<times> 'r) list" where
  "update_rows q f = map (\<lambda>(k, r). (k, if q (k, r) then f r else r))"

lemma map_of_update_rows:
  "map_of (update_rows q f al) k = map_option (\<lambda>r. if q (k, r) then f r else r) (map_of al k)"
  by (induction al) (auto simp: update_rows_def)

lemma map_fst_update_rows [simp]: "map fst (update_rows q f al) = map fst al"
  by (simp add: update_rows_def case_prod_unfold comp_def)

definition update_instances :: "(uuid \<times> db_instance \<Rightarrow> bool) \<Rightarrow> (db_instance \<Rightarrow> db_instance) \<Rightarrow> odb \<Rightarrow> nat \<times> odb" where
  "update_instances q f d =
     (length (filter q (instances d)), d\<lparr>instances := update_rows q f (instances d)\<rparr>)"

definition update_findings :: "(uuid \<times> finding \<Rightarrow> bool) \<Rightarrow> (finding \<Rightarrow> finding) \<Rightarrow> odb \<Rightarrow> nat \<times> odb" where
  "update_findings q f d =
     (length (filter q (findings d)), d\<lparr>findings := update_rows q f (findings d)\<rparr>)"

definition update_sweeps :: "(uuid \<times> sweep \<Rightarrow> bool) \<Rightarrow> (sweep \<Rightarrow> sweep) \<Rightarrow> odb \<Rightarrow> nat \<times> odb" where
  "update_sweeps q f d =
     (length (filter q (sweeps d)), d\<lparr>sweeps := update_rows q f (sweeps d)\<rparr>)"

text \<open>The fence of every worker transaction: id, operation, version, and the expected status.\<close>

definition owned_by :: "uuid \<Rightarrow> uuid \<Rightarrow> nat \<Rightarrow> uuid \<times> db_instance \<Rightarrow> bool" where
  "owned_by i oid v = (\<lambda>(j, r). j = i \<and> di_operationId r = oid \<and> di_operationVersion r = v)"

definition owned_in :: "uuid \<Rightarrow> uuid \<Rightarrow> nat \<Rightarrow> database_status \<Rightarrow> uuid \<times> db_instance \<Rightarrow> bool" where
  "owned_in i oid v st = (\<lambda>(j, r). owned_by i oid v (j, r) \<and> di_status r = st)"

section \<open>The row as a migration run needs it\<close>

text \<open>\<open>include: { migrationArtifact: true }\<close>: the artifact of a row, by its foreign key.\<close>

definition artifact_of :: "odb \<Rightarrow> db_instance \<Rightarrow> (uuid \<times> migration_artifact) option" where
  "artifact_of d r =
     (case di_migrationArtifactId r of
        None \<Rightarrow> None
      | Some a \<Rightarrow> (case map_of (artifacts (od_main d)) a of None \<Rightarrow> None | Some m \<Rightarrow> Some (a, m)))"

record execution_record =
  de_id :: uuid
  de_operationId :: uuid
  de_workspaceId :: uuid
  de_projectId :: uuid
  de_displayName :: string
  de_region :: string
  de_externalId :: "string option"
  de_connectionSecretRef :: "string option"
  de_status :: database_status
  de_operationVersion :: nat
  de_artifactId :: uuid
  de_sourceRunId :: uuid
  de_schemaHash :: string
  de_destructive :: bool

text \<open>\<open>DatabaseInstanceStatusSchema.parse(status === "ACTIVE" ? "READY" : status)\<close>.\<close>

definition public_status :: "database_status \<Rightarrow> database_status" where
  "public_status s = (if s = DbActive then DbReady else s)"

definition toExecutionRecord ::
    "uuid \<Rightarrow> db_instance \<Rightarrow> (uuid \<times> migration_artifact) option \<Rightarrow> thrown + execution_record" where
  "toExecutionRecord i r art =
     (case (di_region r, art) of
        (Some reg, Some (a, m)) \<Rightarrow>
          Inr \<lparr>de_id = i, de_operationId = di_operationId r, de_workspaceId = di_workspaceId r,
               de_projectId = di_projectId r, de_displayName = di_displayName r, de_region = reg,
               de_externalId = di_externalId r, de_connectionSecretRef = di_connectionSecretRef r,
               de_status = public_status (di_status r), de_operationVersion = di_operationVersion r,
               de_artifactId = a, de_sourceRunId = ma_sourceRunId m, de_schemaHash = ma_schemaHash m,
               de_destructive = ma_destructive m\<rparr>
      | _ \<Rightarrow> Inl (GenericError ''Database operation is missing its region or migration artifact''))"

record database_record =
  dr_id :: uuid
  dr_operationId :: uuid
  dr_workspaceId :: uuid
  dr_projectId :: uuid
  dr_migrationArtifactId :: uuid
  dr_externalId :: "string option"
  dr_displayName :: string
  dr_databaseName :: "string option"
  dr_region :: string
  dr_status :: database_status
  dr_operationVersion :: nat
  dr_attempt :: nat
  dr_recoveryCount :: nat
  dr_error :: "json option"
  dr_lastHeartbeatAt :: "time option"
  dr_lastSyncedAt :: "time option"
  dr_readyAt :: "time option"
  dr_deletedAt :: "time option"

definition toDatabaseRecord :: "uuid \<Rightarrow> db_instance \<Rightarrow> thrown + database_record" where
  "toDatabaseRecord i r =
     (case (di_migrationArtifactId r, di_region r) of
        (Some a, Some reg) \<Rightarrow>
          Inr \<lparr>dr_id = i, dr_operationId = di_operationId r, dr_workspaceId = di_workspaceId r,
               dr_projectId = di_projectId r, dr_migrationArtifactId = a, dr_externalId = di_externalId r,
               dr_displayName = di_displayName r, dr_databaseName = di_databaseName r, dr_region = reg,
               dr_status = public_status (di_status r), dr_operationVersion = di_operationVersion r,
               dr_attempt = di_attempt r, dr_recoveryCount = di_recoveryCount r, dr_error = di_error r,
               dr_lastHeartbeatAt = di_lastHeartbeatAt r, dr_lastSyncedAt = di_lastSyncedAt r,
               dr_readyAt = di_readyAt r, dr_deletedAt = di_deletedAt r\<rparr>
      | _ \<Rightarrow> Inl (GenericError ''Phase 3 database instance is missing its artifact or region''))"

fun database_status_string :: "database_status \<Rightarrow> string" where
  "database_status_string DbQueued = ''QUEUED''"
| "database_status_string DbProvisioning = ''PROVISIONING''"
| "database_status_string DbHealthCheck = ''HEALTH_CHECK''"
| "database_status_string DbMigrating = ''MIGRATING''"
| "database_status_string DbReady = ''READY''"
| "database_status_string DbActive = ''ACTIVE''"
| "database_status_string DbSuspended = ''SUSPENDED''"
| "database_status_string DbFailed = ''FAILED''"
| "database_status_string DbDeleting = ''DELETING''"
| "database_status_string DbDeleted = ''DELETED''"

section \<open>The job\<close>

datatype db_command = CmdProvision | CmdDestroy

record database_job =
  dj_operationId :: uuid
  dj_databaseInstanceId :: uuid
  dj_command :: db_command
  dj_operationVersion :: nat

section \<open>The status event\<close>

text \<open>\<open>appendStatusEvent\<close> and \<open>appendIntegrationEvent\<close> of the worker: validated, then appended.\<close>

definition append_status ::
    "uuid \<Rightarrow> uuid \<Rightarrow> uuid \<Rightarrow> nat \<Rightarrow> database_status \<Rightarrow> string \<Rightarrow> odb \<Rightarrow> thrown + odb" where
  "append_status runId i oid v st msg d =
     (case appendEvent runId (IntegrationStatusChanged i oid v st (Some msg)) (od_main d) of
        Inl e \<Rightarrow> Inl e
      | Inr m \<Rightarrow> Inr (d\<lparr>od_main := m\<rparr>))"

definition appendStatusEvent :: "execution_record \<Rightarrow> database_status \<Rightarrow> string \<Rightarrow> odb \<Rightarrow> thrown + odb" where
  "appendStatusEvent x = append_status (de_sourceRunId x) (de_id x) (de_operationId x) (de_operationVersion x)"

lemma append_status_frame:
  assumes "append_status runId i oid v st msg d = Inr d'"
  shows "instances d' = instances d" "integrations d' = integrations d" "secrets d' = secrets d"
    "migration_runs d' = migration_runs d" "sweeps d' = sweeps d" "findings d' = findings d"
    "od_next d' = od_next d" "artifacts (od_main d') = artifacts (od_main d)"
  using assms by (auto simp: append_status_def appendEvent_Inr split: sum.splits)

lemma db_ok_append_status:
  "append_status runId i oid v st msg d = Inr d' \<Longrightarrow> db_ok (od_main d) \<Longrightarrow> db_ok (od_main d')"
  by (auto simp: append_status_def split: sum.splits intro: db_ok_appendEvent)

end
