(* ===== verification/DatabaseControl.thy ===== *)
theory DatabaseControl
  imports DatabaseStore ControlApi
begin

text \<open>
  Provisioned databases as the HTTP API controls them: \<open>PrismaDatabaseControlRepository\<close> of
  \<open>control-api/src/database-repository.ts\<close> and the routes of \<open>database-routes.ts\<close>. The
  transactions are serializable and run here in one step; what other clients commit between
  a rolled-back create and the lookup that answers it, or between two repository calls of a
  route, is an argument \<open>env\<close>.
\<close>

section \<open>Repository\<close>

definition getProjectWorkspaceMembership :: "uuid \<Rightarrow> uuid \<Rightarrow> odb \<Rightarrow> (uuid \<times> workspace_role) option" where
  "getProjectWorkspaceMembership userId pid d =
     (case map_of (projects (od_main d)) pid of
        None \<Rightarrow> None
      | Some p \<Rightarrow>
          (if pj_archivedAt p \<noteq> None then None
           else map_option (\<lambda>role. (pj_workspaceId p, role))
                  (map_of (memberships (od_main d)) (pj_workspaceId p, userId))))"

record provision_input =
  pv_region :: string
  pv_migrationArtifactId :: uuid
  pv_approveDestructiveChanges :: bool

datatype create_database_result =
    CreatedDatabase database_record bool
  | DatabaseProjectNotFound
  | ArtifactNotFound
  | DestructiveApprovalRequired
  | DatabaseKeyConflict

datatype destroy_database_result =
    DestroyAccepted database_record
  | DestroyNotFound
  | DestroyInvalidStatus database_status

definition instance_with_key :: "string \<Rightarrow> odb \<Rightarrow> (uuid \<times> db_instance) option" where
  "instance_with_key key d = find_first_opt (\<lambda>(i, r). di_idempotencyKey r = key) (instances d)"

definition replay_database ::
    "uuid \<Rightarrow> provision_input \<Rightarrow> uuid \<times> db_instance \<Rightarrow> thrown + create_database_result" where
  "replay_database pid inp ir =
     (if di_projectId (snd ir) = pid \<and> di_migrationArtifactId (snd ir) = Some (pv_migrationArtifactId inp)
      then bind_res (toDatabaseRecord (fst ir) (snd ir)) (\<lambda>r. Inr (CreatedDatabase r True))
      else Inr DatabaseKeyConflict)"

text \<open>\<open>integrationConnection.upsert\<close> by (project, provider).\<close>

definition upsert_integration :: "string \<Rightarrow> uuid \<Rightarrow> uuid \<Rightarrow> odb \<Rightarrow> uuid \<times> odb" where
  "upsert_integration cred w pid d =
     (case find_first_opt (\<lambda>(i, c). ic_projectId c = pid) (integrations d) of
        Some (i, c) \<Rightarrow>
          (i, d\<lparr>integrations := AList.update i
                  (c\<lparr>ic_status := IC_CONNECTED, ic_credentialSecretRef := cred, ic_revokedAt := None\<rparr>)
                  (integrations d)\<rparr>)
      | None \<Rightarrow>
          (od_next d, d\<lparr>integrations := integrations d @
                  [(od_next d, \<lparr>ic_workspaceId = w, ic_projectId = pid, ic_status = IC_CONNECTED,
                     ic_credentialSecretRef = cred, ic_revokedAt = None\<rparr>)],
                od_next := Suc (od_next d)\<rparr>))"

text \<open>The run event is written as built, without the schema check of the worker.\<close>

definition appendRunEvent_db ::
    "uuid \<Rightarrow> uuid \<Rightarrow> db_instance \<Rightarrow> database_status \<Rightarrow> string \<Rightarrow> odb \<Rightarrow> thrown + odb" where
  "appendRunEvent_db runId i r st msg d =
     (case run_of (od_main d) runId of
        None \<Rightarrow> Inl (PrismaError ''P2025'')
      | Some run \<Rightarrow>
          (let s = Suc (r_eventSequence run);
               m = set_run runId (run\<lparr>r_eventSequence := s\<rparr>) (od_main d)
           in if list_ex (\<lambda>e. e_runId e = runId \<and> e_sequence e = s) (events (od_main d))
              then Inl (PrismaError ''P2002'')
              else Inr (d\<lparr>od_main := m\<lparr>events := events m @
                     [\<lparr>e_runId = runId, e_sequence = s,
                       e_body = IntegrationStatusChanged i (di_operationId r) (di_operationVersion r) st (Some msg)\<rparr>]\<rparr>\<rparr>)))"

definition new_instance ::
    "uuid \<Rightarrow> uuid \<Rightarrow> project \<Rightarrow> uuid \<Rightarrow> migration_artifact \<Rightarrow> uuid \<Rightarrow> string \<Rightarrow> provision_input \<Rightarrow> time \<Rightarrow> db_instance" where
  "new_instance oid pid p a art integration_id key inp now =
     \<lparr>di_operationId = oid, di_workspaceId = pj_workspaceId p, di_projectId = pid,
      di_migrationArtifactId = Some a, di_integrationConnectionId = Some integration_id,
      di_externalId = None, di_idempotencyKey = key, di_displayName = pj_name p, di_databaseName = None,
      di_region = Some (pv_region inp), di_connectionSecretRef = None, di_status = DbQueued,
      di_operationVersion = 0, di_attempt = 0, di_recoveryCount = 0, di_error = None,
      di_metadata = Some (JObj [(''destructiveApproved'',
         JBool (ma_destructive art \<and> pv_approveDestructiveChanges inp))]),
      di_providerOperationMetadata = None, di_lastSyncedAt = None, di_lastHeartbeatAt = Some now,
      di_lastReconciledAt = None, di_readyAt = None, di_deletedAt = None\<rparr>"

definition create_database_tx ::
    "string \<Rightarrow> uuid \<Rightarrow> uuid \<Rightarrow> string \<Rightarrow> provision_input \<Rightarrow> time \<Rightarrow> create_database_result otx" where
  "create_database_tx cred userId pid key inp now d =
     (case instance_with_key key d of
        Some ir \<Rightarrow> bind_res (replay_database pid inp ir) (\<lambda>r. Inr (r, d))
      | None \<Rightarrow>
          (case getProject userId pid (od_main d) of
             None \<Rightarrow> Inr (DatabaseProjectNotFound, d)
           | Some p \<Rightarrow>
               (case map_of (artifacts (od_main d)) (pv_migrationArtifactId inp) of
                  None \<Rightarrow> Inr (ArtifactNotFound, d)
                | Some art \<Rightarrow>
                    (if ma_projectId art \<noteq> pid \<or> ma_status art \<noteq> VALIDATED then Inr (ArtifactNotFound, d)
                     else if ma_destructive art \<and> \<not> pv_approveDestructiveChanges inp
                     then Inr (DestructiveApprovalRequired, d)
                     else
                       (let (c, d1) = upsert_integration cred (pj_workspaceId p) pid d;
                            i = od_next d1;
                            r = new_instance (Suc i) pid p (pv_migrationArtifactId inp) art c key inp now;
                            d2 = d1\<lparr>instances := instances d1 @ [(i, r)], od_next := i + 2\<rparr>
                        in bind_res (appendRunEvent_db (ma_sourceRunId art) i r DbQueued
                                ''Database provisioning queued after explicit confirmation'' d2) (\<lambda>d3.
                           bind_res (toDatabaseRecord i r) (\<lambda>rec.
                             Inr (CreatedDatabase rec False, d3))))))))"

text \<open>A write conflict (P2002, P2034) is answered from the row that has the key by then.\<close>

definition createDatabaseOperation ::
    "string \<Rightarrow> (odb \<Rightarrow> odb) \<Rightarrow> uuid \<Rightarrow> uuid \<Rightarrow> string \<Rightarrow> provision_input \<Rightarrow> time \<Rightarrow> create_database_result otx" where
  "createDatabaseOperation cred env userId pid key inp now d =
     (case create_database_tx cred userId pid key inp now d of
        Inr r \<Rightarrow> Inr r
      | Inl e \<Rightarrow>
          (if prismaErrorCode (RepoThrown e) \<noteq> Some ''P2002'' \<and> prismaErrorCode (RepoThrown e) \<noteq> Some ''P2034''
           then Inl e
           else case instance_with_key key (env d) of
                  None \<Rightarrow> Inl e
                | Some ir \<Rightarrow> bind_res (replay_database pid inp ir) (\<lambda>r. Inr (r, env d))))"

definition getDatabaseInstance :: "uuid \<Rightarrow> uuid \<Rightarrow> uuid \<Rightarrow> odb \<Rightarrow> thrown + database_record option" where
  "getDatabaseInstance userId pid i d =
     (case instance_of d i of
        Some r \<Rightarrow>
          (if di_projectId r = pid \<and> project_member (od_main d) userId pid
           then bind_res (toDatabaseRecord i r) (\<lambda>x. Inr (Some x)) else Inr None)
      | None \<Rightarrow> Inr None)"

text \<open>Ordered by descending creation time; rows are appended as they are created.\<close>

definition getLatestMigrationArtifact :: "uuid \<Rightarrow> uuid \<Rightarrow> odb \<Rightarrow> (uuid \<times> migration_artifact) option" where
  "getLatestMigrationArtifact userId pid d =
     (if project_member (od_main d) userId pid
      then find_first_opt (\<lambda>(a, m). ma_projectId m = pid \<and> ma_status m = VALIDATED)
             (rev (artifacts (od_main d)))
      else None)"

definition destroyable_statuses :: "database_status list" where
  "destroyable_statuses = [DbReady, DbActive, DbSuspended, DbFailed]"

definition requestDatabaseAction :: "uuid \<Rightarrow> uuid \<Rightarrow> uuid \<Rightarrow> time \<Rightarrow> destroy_database_result otx" where
  "requestDatabaseAction userId pid i now d =
     (case instance_of d i of
        None \<Rightarrow> Inr (DestroyNotFound, d)
      | Some r \<Rightarrow>
          (if di_projectId r \<noteq> pid \<or> \<not> project_member (od_main d) userId pid then Inr (DestroyNotFound, d)
           else if di_status r = DbDeleting \<or> di_status r = DbDeleted
           then bind_res (toDatabaseRecord i r) (\<lambda>x. Inr (DestroyAccepted x, d))
           else if di_status r \<notin> set destroyable_statuses then Inr (DestroyInvalidStatus (di_status r), d)
           else
             (let r' = r\<lparr>di_status := DbDeleting, di_operationVersion := di_operationVersion r + 1,
                         di_lastHeartbeatAt := Some now, di_error := None\<rparr>;
                  d1 = d\<lparr>instances := AList.update i r' (instances d)\<rparr>
              in bind_res
                   (case artifact_of d r of
                      None \<Rightarrow> Inr d1
                    | Some (a, m) \<Rightarrow>
                        appendRunEvent_db (ma_sourceRunId m) i r' DbDeleting
                          ''Database deletion queued after explicit confirmation'' d1) (\<lambda>d2.
                 bind_res (toDatabaseRecord i r') (\<lambda>x. Inr (DestroyAccepted x, d2))))))"

definition markDatabaseOperationFailed :: "uuid \<Rightarrow> uuid \<Rightarrow> nat \<Rightarrow> json \<Rightarrow> time \<Rightarrow> odb \<Rightarrow> odb" where
  "markDatabaseOperationFailed i oid v err now d =
     snd (update_instances (owned_by i oid v)
            (\<lambda>r. r\<lparr>di_status := DbFailed, di_error := Some err, di_lastHeartbeatAt := Some now\<rparr>) d)"

section \<open>Routes\<close>

record database_control_state =
  dk_db :: odb
  dk_queue :: "database_job list"

definition accessDenied :: api_failure where
  "accessDenied = ApiError 404 ''WORKSPACE_ACCESS_DENIED'' ''Workspace access denied'' JNull"

definition databaseNotFound :: api_failure where
  "databaseNotFound = ApiError 404 ''DATABASE_NOT_FOUND'' ''Database not found'' JNull"

text \<open>What every route of the file begins with.\<close>

definition administrative_principal :: "uuid option \<Rightarrow> uuid \<Rightarrow> string \<Rightarrow> odb \<Rightarrow> api_failure + uuid" where
  "administrative_principal who pid operation d =
     bind_res (requirePrincipal who) (\<lambda>u.
       case getProjectWorkspaceMembership u pid d of
         None \<Rightarrow> Inl accessDenied
       | Some (w, role) \<Rightarrow> bind_res (requireAdministrativeRole role operation) (\<lambda>_. Inr u))"

definition lift_db :: "thrown + 'a \<Rightarrow> api_failure + 'a" where
  "lift_db r = (case r of Inl e \<Rightarrow> Inl (OtherError (RepoThrown e)) | Inr a \<Rightarrow> Inr a)"

definition queue_failure :: "string \<Rightarrow> json" where
  "queue_failure msg = JObj [(''code'', JStr ''DATABASE_QUEUE_ENQUEUE_FAILED''), (''message'', JStr msg)]"

definition job_of :: "db_command \<Rightarrow> database_record \<Rightarrow> database_job" where
  "job_of c r = \<lparr>dj_operationId = dr_operationId r, dj_databaseInstanceId = dr_id r, dj_command = c,
                 dj_operationVersion = dr_operationVersion r\<rparr>"

text \<open>\<open>queue\<close> is the error message of the queue when it refuses the job.\<close>

definition enqueue_or_fail ::
    "string option \<Rightarrow> db_command \<Rightarrow> string \<Rightarrow> database_record \<Rightarrow> (odb \<Rightarrow> odb) \<Rightarrow> time \<Rightarrow> database_control_state
       \<Rightarrow> (api_failure + nat \<times> database_record) \<times> database_control_state" where
  "enqueue_or_fail queue c msg r env now s =
     (case queue of
        None \<Rightarrow> (Inr (202, r), s\<lparr>dk_queue := dk_queue s @ [job_of c r]\<rparr>)
      | Some e \<Rightarrow>
          (Inl (ApiError 503 ''DATABASE_QUEUE_UNAVAILABLE'' msg JNull),
           s\<lparr>dk_db := markDatabaseOperationFailed (dr_id r) (dr_operationId r) (dr_operationVersion r)
                        (queue_failure e) now (env (dk_db s))\<rparr>))"

definition provisionProjectDatabase ::
    "string \<Rightarrow> string option \<Rightarrow> uuid option \<Rightarrow> uuid \<Rightarrow> string \<Rightarrow> provision_input \<Rightarrow> (odb \<Rightarrow> odb) \<Rightarrow> (odb \<Rightarrow> odb)
       \<Rightarrow> (odb \<Rightarrow> odb) \<Rightarrow> time \<Rightarrow> database_control_state
       \<Rightarrow> (api_failure + nat \<times> database_record) \<times> database_control_state" where
  "provisionProjectDatabase cred queue who pid key inp env1 env2 env3 now s =
     (case administrative_principal who pid ''provision_database'' (dk_db s) of
        Inl e \<Rightarrow> (Inl e, s)
      | Inr u \<Rightarrow>
          (case lift_db (createDatabaseOperation cred env2 u pid key inp now (env1 (dk_db s))) of
             Inl e \<Rightarrow> (Inl e, s\<lparr>dk_db := env1 (dk_db s)\<rparr>)
           | Inr (res, d1) \<Rightarrow>
               (let s1 = s\<lparr>dk_db := d1\<rparr>
                in case res of
                     DatabaseProjectNotFound \<Rightarrow> (Inl PROJECT_NOT_FOUND, s1)
                   | ArtifactNotFound \<Rightarrow>
                       (Inl (ApiError 404 ''MIGRATION_ARTIFACT_NOT_FOUND''
                          ''A validated David migration artifact was not found'' JNull), s1)
                   | DestructiveApprovalRequired \<Rightarrow>
                       (Inl (ApiError 409 ''DESTRUCTIVE_MIGRATION_APPROVAL_REQUIRED''
                          ''The schema diff contains destructive changes and requires explicit approval'' JNull), s1)
                   | DatabaseKeyConflict \<Rightarrow>
                       (Inl (ApiError 409 ''IDEMPOTENCY_KEY_CONFLICT''
                          ''The idempotency key was already used for another operation'' JNull), s1)
                   | CreatedDatabase r replayed \<Rightarrow>
                       (if \<not> replayed \<and> dr_status r = DbQueued
                        then enqueue_or_fail queue CmdProvision
                               ''Database operation was persisted but could not be enqueued'' r env3 now s1
                        else (Inr (202, r), s1)))))"

definition getProjectDatabase ::
    "uuid option \<Rightarrow> uuid \<Rightarrow> uuid \<Rightarrow> (odb \<Rightarrow> odb) \<Rightarrow> odb \<Rightarrow> api_failure + nat \<times> database_record" where
  "getProjectDatabase who pid i env d =
     bind_res (administrative_principal who pid ''read_database_instance'' d) (\<lambda>u.
     bind_res (lift_db (getDatabaseInstance u pid i (env d))) (\<lambda>r.
       case r of None \<Rightarrow> Inl databaseNotFound | Some x \<Rightarrow> Inr (200, x)))"

definition getLatestMigrationArtifact_route ::
    "uuid option \<Rightarrow> uuid \<Rightarrow> (odb \<Rightarrow> odb) \<Rightarrow> odb \<Rightarrow> api_failure + nat \<times> (uuid \<times> migration_artifact)" where
  "getLatestMigrationArtifact_route who pid env d =
     bind_res (administrative_principal who pid ''read_migration_artifact'' d) (\<lambda>u.
       case getLatestMigrationArtifact u pid (env d) of
         None \<Rightarrow> Inl (ApiError 404 ''MIGRATION_ARTIFACT_NOT_FOUND''
                   ''A validated David migration artifact was not found'' JNull)
       | Some a \<Rightarrow> Inr (200, a))"

definition controlProjectDatabase ::
    "string option \<Rightarrow> uuid option \<Rightarrow> uuid \<Rightarrow> uuid \<Rightarrow> (odb \<Rightarrow> odb) \<Rightarrow> (odb \<Rightarrow> odb) \<Rightarrow> time \<Rightarrow> database_control_state
       \<Rightarrow> (api_failure + nat \<times> database_record) \<times> database_control_state" where
  "controlProjectDatabase queue who pid i env1 env2 now s =
     (case administrative_principal who pid ''control_database_instance'' (dk_db s) of
        Inl e \<Rightarrow> (Inl e, s)
      | Inr u \<Rightarrow>
          (case lift_db (requestDatabaseAction u pid i now (env1 (dk_db s))) of
             Inl e \<Rightarrow> (Inl e, s\<lparr>dk_db := env1 (dk_db s)\<rparr>)
           | Inr (res, d1) \<Rightarrow>
               (let s1 = s\<lparr>dk_db := d1\<rparr>
                in case res of
                     DestroyNotFound \<Rightarrow> (Inl databaseNotFound, s1)
                   | DestroyInvalidStatus st \<Rightarrow>
                       (Inl (ApiError 409 ''DATABASE_ACTION_CONFLICT''
                          (''Database cannot be destroyed from '' @ database_status_string st) JNull), s1)
                   | DestroyAccepted r \<Rightarrow>
                       (if dr_status r = DbDeleting
                        then enqueue_or_fail queue CmdDestroy
                               ''Database deletion was persisted but could not be enqueued'' r env2 now s1
                        else (Inr (202, r), s1)))))"

end
