(* ===== verification/DatabaseOperations.thy ===== *)
theory DatabaseOperations
  imports DatabaseStore
begin

text \<open>
  Provisioning and deleting a database, as the worker does it: the transactions of
  \<open>PrismaDatabaseOperationRepository\<close> (\<open>orchestrator-worker/src/database-repository.ts\<close>) and
  \<open>DatabaseOperationProcessor.process\<close> (\<open>database-processor.ts\<close>).

  The database provider, the secret store and the migration runner are interfaces of the
  processor and parameters here; a call is logged with its arguments and its result depends
  on the operation counter. What other clients commit before an operation is \<open>od_env\<close>.
\<close>

section \<open>Repository\<close>

datatype database_claim =
    ClaimReady execution_record
  | ClaimMissing
  | ClaimStale string

definition claim_stale_statuses :: "database_status list" where
  "claim_stale_statuses = [DbReady, DbActive, DbDeleting, DbDeleted]"

definition set_instance :: "uuid \<Rightarrow> db_instance \<Rightarrow> odb \<Rightarrow> odb" where
  "set_instance i r d = d\<lparr>instances := AList.update i r (instances d)\<rparr>"

definition claim :: "database_job \<Rightarrow> time \<Rightarrow> database_claim otx" where
  "claim job now d =
     (case instance_of d (dj_databaseInstanceId job) of
        None \<Rightarrow> Inr (ClaimMissing, d)
      | Some r \<Rightarrow>
          (let i = dj_databaseInstanceId job
           in if di_operationId r \<noteq> dj_operationId job then Inr (ClaimMissing, d)
              else if di_operationVersion r \<noteq> dj_operationVersion job
              then Inr (ClaimStale ''OPERATION_VERSION_MISMATCH'', d)
              else if artifact_of d r = None \<or> di_region r = None
              then Inr (ClaimStale ''MISSING_MIGRATION_ARTIFACT'', d)
              else
                (case dj_command job of
                   CmdDestroy \<Rightarrow>
                     (if di_status r \<noteq> DbDeleting then Inr (ClaimStale (database_status_string (di_status r)), d)
                      else bind_res (toExecutionRecord i r (artifact_of d r)) (\<lambda>x.
                        Inr (ClaimReady x,
                             set_instance i (r\<lparr>di_lastHeartbeatAt := Some now,
                                              di_attempt := di_attempt r + 1\<rparr>) d)))
                 | CmdProvision \<Rightarrow>
                     (if di_status r \<in> set claim_stale_statuses
                      then Inr (ClaimStale (database_status_string (di_status r)), d)
                      else
                        (let r' = r\<lparr>di_status := DbProvisioning, di_attempt := di_attempt r + 1,
                                    di_lastHeartbeatAt := Some now, di_error := None\<rparr>;
                             d1 = set_instance i r' d
                         in bind_res (toExecutionRecord i r' (artifact_of d1 r')) (\<lambda>x.
                            bind_res (appendStatusEvent x DbProvisioning
                                ''Supabase provisioning started or reconciled'' d1) (\<lambda>d2.
                            Inr (ClaimReady x, d2))))))))"

record provision_result =
  pn_externalId :: string
  pn_databaseName :: string
  pn_region :: string
  pn_connectionSecretRef :: string
  pn_metadata :: json

definition owner :: "execution_record \<Rightarrow> database_status \<Rightarrow> uuid \<times> db_instance \<Rightarrow> bool" where
  "owner x = owned_in (de_id x) (de_operationId x) (de_operationVersion x)"

definition upsert_secret :: "execution_record \<Rightarrow> string \<Rightarrow> odb \<Rightarrow> odb" where
  "upsert_secret x ref d =
     d\<lparr>secrets := AList.update ref
         (case map_of (secrets d) ref of
            Some s \<Rightarrow> s\<lparr>sr_status := SEC_ACTIVE, sr_revokedAt := None, sr_purpose := DATABASE_RUNTIME\<rparr>
          | None \<Rightarrow> \<lparr>sr_workspaceId = de_workspaceId x, sr_projectId = de_projectId x,
                     sr_purpose = DATABASE_RUNTIME, sr_status = SEC_ACTIVE, sr_revokedAt = None\<rparr>)
         (secrets d)\<rparr>"

text \<open>The unique columns a provisioned row may collide on: the external id and the secret.\<close>

definition resource_taken :: "uuid \<Rightarrow> provision_result \<Rightarrow> odb \<Rightarrow> bool" where
  "resource_taken i p d =
     list_ex (\<lambda>(j, r). j \<noteq> i \<and> (di_externalId r = Some (pn_externalId p) \<or>
                                 di_connectionSecretRef r = Some (pn_connectionSecretRef p))) (instances d)"

definition recordProvisioned :: "execution_record \<Rightarrow> provision_result \<Rightarrow> time \<Rightarrow> bool otx" where
  "recordProvisioned x p now d =
     (if length (filter (owner x DbProvisioning) (instances d)) \<noteq> 1 then Inr (False, d)
      else
        (let d1 = upsert_secret x (pn_connectionSecretRef p) d;
             (n, d2) = update_instances (owner x DbProvisioning)
                (\<lambda>r. r\<lparr>di_externalId := Some (pn_externalId p), di_databaseName := Some (pn_databaseName p),
                       di_region := Some (pn_region p),
                       di_connectionSecretRef := Some (pn_connectionSecretRef p),
                       di_providerOperationMetadata := Some (pn_metadata p), di_status := DbHealthCheck,
                       di_lastSyncedAt := Some now, di_lastHeartbeatAt := Some now\<rparr>) d1
         in if n \<noteq> 1 then Inr (False, d1)
            else if resource_taken (de_id x) p d1 then Inl (PrismaError ''P2002'')
            else bind_res (appendStatusEvent (x\<lparr>de_externalId := Some (pn_externalId p)\<rparr>) DbHealthCheck
                   ''Supabase resource exists; waiting for healthy services'' d2) (\<lambda>d3. Inr (True, d3))))"

definition recordHealthCheck :: "execution_record \<Rightarrow> string \<Rightarrow> time \<Rightarrow> bool otx" where
  "recordHealthCheck x msg now d =
     (let (n, d1) = update_instances (owner x DbHealthCheck)
            (\<lambda>r. r\<lparr>di_lastHeartbeatAt := Some now, di_lastSyncedAt := Some now\<rparr>) d
      in if n \<noteq> 1 then Inr (False, d1)
         else bind_res (appendStatusEvent x DbHealthCheck msg d1) (\<lambda>d2. Inr (True, d2)))"

definition upsert_migration_run :: "execution_record \<Rightarrow> time \<Rightarrow> odb \<Rightarrow> odb" where
  "upsert_migration_run x now d =
     d\<lparr>migration_runs := AList.update (de_id x, de_artifactId x)
         (case map_of (migration_runs d) (de_id x, de_artifactId x) of
            Some m \<Rightarrow> m\<lparr>mr_status := MR_RUNNING, mr_startedAt := Some now, mr_completedAt := None,
                        mr_error := None\<rparr>
          | None \<Rightarrow> \<lparr>mr_status = MR_RUNNING, mr_schemaHash = de_schemaHash x,
                     mr_destructive = de_destructive x, mr_commandResults = None, mr_error = None,
                     mr_startedAt = Some now, mr_completedAt = None\<rparr>)
         (migration_runs d)\<rparr>"

definition startMigration :: "execution_record \<Rightarrow> time \<Rightarrow> bool otx" where
  "startMigration x now d =
     (let (n, d1) = update_instances (owner x DbHealthCheck)
            (\<lambda>r. r\<lparr>di_status := DbMigrating, di_lastHeartbeatAt := Some now\<rparr>) d
      in if n \<noteq> 1 then Inr (False, d1)
         else bind_res (appendStatusEvent x DbMigrating
                ''Applying forward-only migrations and idempotent seed data in E2B''
                (upsert_migration_run x now d1)) (\<lambda>d2. Inr (True, d2)))"

definition completeMigration :: "execution_record \<Rightarrow> migration_report list \<Rightarrow> time \<Rightarrow> bool otx" where
  "completeMigration x reports now d =
     (let (n, d1) = update_instances (owner x DbMigrating)
            (\<lambda>r. r\<lparr>di_status := DbReady, di_readyAt := Some now, di_lastHeartbeatAt := Some now,
                   di_error := None\<rparr>) d
      in if n \<noteq> 1 then Inr (False, d1)
         else case map_of (migration_runs d1) (de_id x, de_artifactId x) of
                None \<Rightarrow> Inl (PrismaError ''P2025'')
              | Some m \<Rightarrow>
                  bind_res (appendStatusEvent x DbReady
                    ''Provisioning, health checks, migration, seed, and connectivity checks passed''
                    (d1\<lparr>migration_runs := AList.update (de_id x, de_artifactId x)
                       (m\<lparr>mr_status := MR_SUCCEEDED, mr_commandResults := Some reports,
                          mr_completedAt := Some now, mr_error := None\<rparr>) (migration_runs d1)\<rparr>))
                    (\<lambda>d2. Inr (True, d2)))"

definition revoke_secret :: "string option \<Rightarrow> time \<Rightarrow> odb \<Rightarrow> odb" where
  "revoke_secret ref now d =
     (case ref of
        None \<Rightarrow> d
      | Some s \<Rightarrow>
          d\<lparr>secrets := update_rows (\<lambda>(k, r). k = s)
               (\<lambda>r. r\<lparr>sr_status := SEC_REVOKED, sr_revokedAt := Some now\<rparr>) (secrets d)\<rparr>)"

definition completeDestroy :: "execution_record \<Rightarrow> time \<Rightarrow> bool otx" where
  "completeDestroy x now d =
     (let (n, d1) = update_instances (owner x DbDeleting)
            (\<lambda>r. r\<lparr>di_status := DbDeleted, di_deletedAt := Some now, di_lastHeartbeatAt := Some now,
                   di_connectionSecretRef := None, di_error := None\<rparr>) d
      in if n \<noteq> 1 then Inr (False, d1)
         else bind_res (appendStatusEvent x DbDeleted
                ''Provider resource and stored connection capability were revoked''
                (revoke_secret (de_connectionSecretRef x) now d1)) (\<lambda>d2. Inr (True, d2)))"

definition fail_operation :: "execution_record \<Rightarrow> json \<Rightarrow> time \<Rightarrow> unit otx" where
  "fail_operation x err now d =
     (let (_, d1) = update_instances (owned_by (de_id x) (de_operationId x) (de_operationVersion x))
            (\<lambda>r. r\<lparr>di_status := DbFailed, di_error := Some err, di_lastHeartbeatAt := Some now\<rparr>) d;
          d2 = d1\<lparr>migration_runs := update_rows
                 (\<lambda>((i, a), m). i = de_id x \<and> mr_status m \<in> {MR_QUEUED, MR_RUNNING})
                 (\<lambda>m. m\<lparr>mr_status := MR_FAILED, mr_error := Some err, mr_completedAt := Some now\<rparr>)
                 (migration_runs d1)\<rparr>
      in bind_res (appendStatusEvent x DbFailed
           ''Database operation failed; diagnostics are available without secret values'' d2)
           (\<lambda>d3. Inr ((), d3)))"

section \<open>Errors of an operation\<close>

datatype operation_error =
    DatabaseProviderError string string bool
  | SecretStoreError string string bool
  | DatabaseMigrationError string string int
  | OtherThrown thrown

definition operation_retryable :: "operation_error \<Rightarrow> bool" where
  "operation_retryable e =
     (case e of DatabaseProviderError code msg r \<Rightarrow> r | SecretStoreError code msg r \<Rightarrow> r | _ \<Rightarrow> False)"

text \<open>The message of an \<open>Error\<close>; anything else that was thrown has none.\<close>

definition thrown_message :: "string \<Rightarrow> thrown \<Rightarrow> string" where
  "thrown_message fallback t =
     (case node_of (fst t) (snd t) of
        Some n \<Rightarrow> (if en_class n = ClsNotError then fallback else en_message n)
      | None \<Rightarrow> fallback)"

definition toDatabaseError :: "operation_error \<Rightarrow> json" where
  "toDatabaseError e =
     (case e of
        DatabaseProviderError code msg r \<Rightarrow>
          JObj [(''code'', JStr code), (''message'', JStr msg), (''retryable'', JBool r)]
      | SecretStoreError code msg r \<Rightarrow>
          JObj [(''code'', JStr code), (''message'', JStr msg), (''retryable'', JBool r)]
      | DatabaseMigrationError msg step code \<Rightarrow>
          JObj [(''code'', JStr ''DATABASE_MIGRATION_FAILED''), (''message'', JStr msg),
                (''retryable'', JBool False), (''step'', JStr step), (''exitCode'', JNum code)]
      | OtherThrown t \<Rightarrow>
          JObj [(''code'', JStr ''DATABASE_OPERATION_FAILED''),
                (''message'', JStr (thrown_message ''Unknown database operation failure'' t)),
                (''retryable'', JBool False)])"

section \<open>What an operation acts on\<close>

datatype health_state = Provisioning | Healthy | Unhealthy

fun health_name :: "health_state \<Rightarrow> string" where
  "health_name Provisioning = ''PROVISIONING''"
| "health_name Healthy = ''HEALTHY''"
| "health_name Unhealthy = ''UNHEALTHY''"

datatype outside_call =
    CallProvision uuid uuid string string
  | CallHealth string
  | CallConnection string string
  | CallGetSecret string
  | CallMigrate "(string \<times> string) list" string uuid
  | CallRevoke string
  | CallDestroy string "string option"
  | CallDelay int
  | CallListResources
  | CallEnqueue database_job

record ops_world =
  ow_db :: odb
  ow_tick :: nat
  ow_log :: "outside_call list"

type_synonym 'a op_act = "(operation_error, ops_world, 'a) action"
type_synonym 'a outcome = "nat \<Rightarrow> operation_error + 'a"

record operation_options =
  od_env :: "nat \<Rightarrow> odb \<Rightarrow> odb"
  od_now :: "nat \<Rightarrow> time"
  od_provision :: "uuid \<Rightarrow> uuid \<Rightarrow> string \<Rightarrow> string \<Rightarrow> provision_result outcome"
  od_health :: "string \<Rightarrow> health_state outcome"
  od_connection :: "string \<Rightarrow> string \<Rightarrow> string outcome"
  od_secret :: "string \<Rightarrow> string outcome"
  od_revoke :: "string \<Rightarrow> unit outcome"
  od_migrate :: "(string \<times> string) list \<Rightarrow> string \<Rightarrow> migration_report list outcome"
  od_destroy :: "string \<Rightarrow> string option \<Rightarrow> unit outcome"
  od_healthAttempts :: nat
  od_healthIntervalMs :: int

text \<open>A transaction of the repository, and a call of one of the interfaces.\<close>

definition tx_step :: "(nat \<Rightarrow> odb \<Rightarrow> odb) \<Rightarrow> (nat \<Rightarrow> time) \<Rightarrow> (time \<Rightarrow> 'a otx) \<Rightarrow> 'a op_act" where
  "tx_step env now f w =
     (let n = ow_tick w; d = env n (ow_db w)
      in case f (now n) d of
           Inl e \<Rightarrow> (Inl (OtherThrown e), w\<lparr>ow_db := d, ow_tick := Suc n\<rparr>)
         | Inr (a, d') \<Rightarrow> (Inr a, w\<lparr>ow_db := d', ow_tick := Suc n\<rparr>))"

definition tx_act :: "operation_options \<Rightarrow> (time \<Rightarrow> 'a otx) \<Rightarrow> 'a op_act" where
  "tx_act P = tx_step (od_env P) (od_now P)"

definition call_act :: "outside_call \<Rightarrow> 'a outcome \<Rightarrow> 'a op_act" where
  "call_act c f w = (f (ow_tick w), w\<lparr>ow_tick := Suc (ow_tick w), ow_log := ow_log w @ [c]\<rparr>)"

definition finally_act :: "('e, 'w, 'a) action \<Rightarrow> ('e, 'w, 'b) action \<Rightarrow> ('e, 'w, 'a) action" where
  "finally_act m f w =
     (case m w of (r, w1) \<Rightarrow> (case f w1 of (Inl e, w2) \<Rightarrow> (Inl e, w2) | (Inr _, w2) \<Rightarrow> (r, w2)))"

section \<open>Processing a job\<close>

datatype database_outcome = OpCompleted | OpFailed | OpSkippedMissing | OpSkippedStale

text \<open>\<open>fuel\<close> health polls are left; \<open>None\<close> when another execution owns the row by now.\<close>

fun health_loop :: "operation_options \<Rightarrow> execution_record \<Rightarrow> string \<Rightarrow> nat \<Rightarrow> nat \<Rightarrow> bool option op_act" where
  "health_loop P x ext index 0 = return_act (Some False)"
| "health_loop P x ext index (Suc fuel) =
     bind_act (call_act (CallHealth ext) (od_health P ext)) (\<lambda>h.
     bind_act (tx_act P (recordHealthCheck x
        (''Health poll '' @ nat_string (index + 1) @ '': '' @ health_name h))) (\<lambda>owned.
       if \<not> owned then return_act None
       else if h = Unhealthy
       then throw_act (DatabaseProviderError ''DATABASE_UNHEALTHY'' ''Supabase services reported unhealthy'' True)
       else if h = Healthy then return_act (Some True)
       else if index + 1 < od_healthAttempts P
       then bind_act (call_act (CallDelay (od_healthIntervalMs P)) (\<lambda>_. Inr ()))
              (\<lambda>_. health_loop P x ext (Suc index) fuel)
       else health_loop P x ext (Suc index) fuel))"

definition migrate_act :: "operation_options \<Rightarrow> execution_record \<Rightarrow> execution_record \<Rightarrow> string \<Rightarrow> database_outcome op_act" where
  "migrate_act P db live lease =
     bind_act (call_act (CallGetSecret lease) (od_secret P lease)) (\<lambda>url.
     bind_act (tx_act P (\<lambda>_ d. Inr (listProjectFiles (de_projectId db) (od_main d), d))) (\<lambda>fs.
     let snapshot = map (\<lambda>f. (pf_path f, pf_content f)) fs
     in bind_act (call_act (CallMigrate snapshot url (de_id db)) (od_migrate P snapshot url)) (\<lambda>steps.
        bind_act (tx_act P (completeMigration live steps)) (\<lambda>owned.
          return_act (if owned then OpCompleted else OpSkippedStale)))))"

definition provision_act :: "operation_options \<Rightarrow> execution_record \<Rightarrow> database_outcome op_act" where
  "provision_act P db =
     bind_act (call_act (CallProvision (de_operationId db) (de_projectId db) (de_displayName db) (de_region db))
        (od_provision P (de_operationId db) (de_projectId db) (de_displayName db) (de_region db))) (\<lambda>p.
     bind_act (tx_act P (recordProvisioned db p)) (\<lambda>owned.
       if \<not> owned then return_act OpSkippedStale
       else
         (let live = db\<lparr>de_externalId := Some (pn_externalId p),
                          de_connectionSecretRef := Some (pn_connectionSecretRef p),
                          de_status := DbHealthCheck\<rparr>
          in bind_act (health_loop P live (pn_externalId p) 0 (od_healthAttempts P)) (\<lambda>health.
             case health of
               None \<Rightarrow> return_act OpSkippedStale
             | Some False \<Rightarrow>
                 throw_act (DatabaseProviderError ''DATABASE_HEALTH_TIMEOUT''
                              ''Timed out waiting for Supabase health'' True)
             | Some True \<Rightarrow>
                 bind_act (tx_act P (startMigration live)) (\<lambda>started.
                   if \<not> started then return_act OpSkippedStale
                   else
                     bind_act (call_act (CallConnection (pn_externalId p) (pn_connectionSecretRef p))
                        (od_connection P (pn_externalId p) (pn_connectionSecretRef p))) (\<lambda>lease.
                     finally_act (migrate_act P db live lease)
                       (catch_act (call_act (CallRevoke lease) (od_revoke P lease))
                          (\<lambda>_. return_act ()))))))))"

definition destroy_act :: "operation_options \<Rightarrow> execution_record \<Rightarrow> database_outcome op_act" where
  "destroy_act P db =
     bind_act
       (case de_externalId db of
          None \<Rightarrow> return_act ()
        | Some ext \<Rightarrow> call_act (CallDestroy ext (de_connectionSecretRef db))
                        (od_destroy P ext (de_connectionSecretRef db))) (\<lambda>_.
     bind_act (tx_act P (completeDestroy db)) (\<lambda>owned.
       return_act (if owned then OpCompleted else OpSkippedStale)))"

definition on_operation_error ::
    "operation_options \<Rightarrow> execution_record \<Rightarrow> nat \<Rightarrow> nat \<Rightarrow> operation_error \<Rightarrow> database_outcome op_act" where
  "on_operation_error P db attempt maxAttempts e =
     bind_act (tx_act P (fail_operation db (toDatabaseError e))) (\<lambda>_.
       if operation_retryable e \<and> attempt < maxAttempts then throw_act e else return_act OpFailed)"

definition process_database_job ::
    "operation_options \<Rightarrow> database_job \<Rightarrow> nat \<Rightarrow> nat \<Rightarrow> database_outcome op_act" where
  "process_database_job P job attempt maxAttempts =
     bind_act (tx_act P (claim job)) (\<lambda>c.
       case c of
         ClaimMissing \<Rightarrow> return_act OpSkippedMissing
       | ClaimStale _ \<Rightarrow> return_act OpSkippedStale
       | ClaimReady db \<Rightarrow>
           catch_act
             (case dj_command job of CmdDestroy \<Rightarrow> destroy_act P db | CmdProvision \<Rightarrow> provision_act P db)
             (on_operation_error P db attempt maxAttempts))"

end
