(* ===== verification/Reconciliation.thy ===== *)
theory Reconciliation
  imports DatabaseOperations
begin

text \<open>
  The periodic comparison of the databases the store knows with those the provider has:
  \<open>PrismaDatabaseReconciliationRepository\<close>
  (\<open>orchestrator-worker/src/database-reconciliation-repository.ts\<close>) and
  \<open>DatabaseReconciler.reconcile\<close> (\<open>database-reconciler.ts\<close>). A sweep hands stale operations
  back to the queue, records databases that disappeared and resources nobody owns, and
  destroys an orphan only after an operator approved it.

  \<open>createHash("sha256")\<close> is the parameter \<open>hash\<close>; an identifier inside a text is written in
  decimal.
\<close>

section \<open>Findings\<close>

fun kind_string :: "finding_kind \<Rightarrow> string" where
  "kind_string PROVIDER_RESOURCE_MISSING = ''PROVIDER_RESOURCE_MISSING''"
| "kind_string ORPHAN_PROVIDER_RESOURCE = ''ORPHAN_PROVIDER_RESOURCE''"
| "kind_string RECOVERY_EXHAUSTED = ''RECOVERY_EXHAUSTED''"

definition findingFingerprint :: "(string \<Rightarrow> string) \<Rightarrow> finding_kind \<Rightarrow> string \<Rightarrow> string" where
  "findingFingerprint hash k stableId = hash (''SUPABASE:'' @ kind_string k @ '':'' @ stableId)"

record finding_input =
  fn_sweepId :: uuid
  fn_kind :: finding_kind
  fn_stableId :: string
  fn_databaseInstanceId :: "uuid option"
  fn_externalId :: "string option"
  fn_resourceName :: "string option"
  fn_details :: json
  fn_now :: time
  fn_cleanupAfter :: "time option"

definition finding_with :: "string \<Rightarrow> odb \<Rightarrow> (uuid \<times> finding) option" where
  "finding_with fp d = find_first_opt (\<lambda>(k, f). fi_fingerprint f = fp) (findings d)"

definition set_finding :: "uuid \<Rightarrow> finding \<Rightarrow> odb \<Rightarrow> odb" where
  "set_finding k f d = d\<lparr>findings := AList.update k f (findings d)\<rparr>"

definition fresh_finding :: "string \<Rightarrow> finding_input \<Rightarrow> finding" where
  "fresh_finding fp i =
     \<lparr>fi_fingerprint = fp, fi_sweepId = fn_sweepId i, fi_kind = fn_kind i, fi_status = F_OPEN,
      fi_databaseInstanceId = fn_databaseInstanceId i, fi_externalId = fn_externalId i,
      fi_resourceName = fn_resourceName i, fi_details = fn_details i, fi_observationCount = 1,
      fi_firstSeenAt = fn_now i, fi_lastSeenAt = fn_now i, fi_cleanupAfter = fn_cleanupAfter i,
      fi_approvedBy = None, fi_approvedAt = None, fi_resolvedAt = None, fi_resolution = None\<rparr>"

definition reopened_finding :: "finding_input \<Rightarrow> finding \<Rightarrow> finding" where
  "reopened_finding i f =
     f\<lparr>fi_sweepId := fn_sweepId i, fi_status := F_OPEN, fi_databaseInstanceId := fn_databaseInstanceId i,
       fi_externalId := fn_externalId i, fi_resourceName := fn_resourceName i, fi_details := fn_details i,
       fi_observationCount := 1, fi_firstSeenAt := fn_now i, fi_lastSeenAt := fn_now i,
       fi_cleanupAfter := fn_cleanupAfter i, fi_approvedBy := None, fi_approvedAt := None,
       fi_resolvedAt := None, fi_resolution := None\<rparr>"

definition seen_again :: "finding_input \<Rightarrow> finding \<Rightarrow> finding" where
  "seen_again i f =
     f\<lparr>fi_sweepId := fn_sweepId i, fi_databaseInstanceId := fn_databaseInstanceId i,
       fi_externalId := fn_externalId i, fi_resourceName := fn_resourceName i, fi_details := fn_details i,
       fi_observationCount := fi_observationCount f + 1, fi_lastSeenAt := fn_now i\<rparr>"

definition observeFinding :: "(string \<Rightarrow> string) \<Rightarrow> finding_input \<Rightarrow> odb \<Rightarrow> (uuid \<times> finding) \<times> odb" where
  "observeFinding hash i d =
     (let fp = findingFingerprint hash (fn_kind i) (fn_stableId i)
      in case finding_with fp d of
           None \<Rightarrow>
             (let f = fresh_finding fp i
              in ((od_next d, f), d\<lparr>findings := findings d @ [(od_next d, f)], od_next := Suc (od_next d)\<rparr>))
         | Some (k, f) \<Rightarrow>
             (let f' = (if fi_status f = F_RESOLVED then reopened_finding i f else seen_again i f)
              in ((k, f'), set_finding k f' d)))"

section \<open>Sweeps\<close>

record sweep_input =
  si_staleBefore :: time
  si_orphanGraceBefore :: time
  si_abandonedSweepBefore :: time
  si_dryRun :: bool

definition abandoned_error :: json where
  "abandoned_error = JObj [(''code'', JStr ''ABANDONED_RECONCILIATION_SWEEP''),
     (''message'', JStr ''The previous sweep exceeded its execution lease''), (''retryable'', JBool True)]"

definition sweep_running :: "odb \<Rightarrow> uuid \<Rightarrow> bool" where
  "sweep_running d k = (case map_of (sweeps d) k of Some s \<Rightarrow> sw_status s = SW_RUNNING | None \<Rightarrow> False)"

text \<open>The partial unique index allows one running sweep; its violation answers \<open>locked\<close>.\<close>

definition beginSweep :: "sweep_input \<Rightarrow> time \<Rightarrow> uuid option otx" where
  "beginSweep i now d =
     (let d1 = snd (update_sweeps (\<lambda>(k, s). sw_status s = SW_RUNNING \<and> sw_startedAt s \<le> si_abandonedSweepBefore i)
                 (\<lambda>s. s\<lparr>sw_status := SW_FAILED, sw_completedAt := Some now, sw_error := Some abandoned_error\<rparr>) d);
          d2 = snd (update_findings (\<lambda>(k, f). fi_status f = F_CLEANING \<and> \<not> sweep_running d1 (fi_sweepId f))
                 (\<lambda>f. f\<lparr>fi_status := F_APPROVED\<rparr>) d1)
      in if list_ex (\<lambda>(k, s). sw_status s = SW_RUNNING) (sweeps d2) then Inr (None, d)
         else Inr (Some (od_next d2),
                d2\<lparr>sweeps := sweeps d2 @ [(od_next d2,
                     \<lparr>sw_status = SW_RUNNING, sw_dryRun = si_dryRun i, sw_staleBefore = si_staleBefore i,
                      sw_orphanGraceBefore = si_orphanGraceBefore i, sw_summary = None, sw_error = None,
                      sw_startedAt = now, sw_completedAt = None\<rparr>)],
                   od_next := Suc (od_next d2)\<rparr>))"

definition completeSweep :: "uuid \<Rightarrow> sweep_summary \<Rightarrow> time \<Rightarrow> unit otx" where
  "completeSweep k summary now d =
     Inr ((), snd (update_sweeps (\<lambda>(j, s). j = k \<and> sw_status s = SW_RUNNING)
       (\<lambda>s. s\<lparr>sw_status := SW_SUCCEEDED, sw_summary := Some summary, sw_completedAt := Some now,
              sw_error := None\<rparr>) d))"

definition failSweep :: "uuid \<Rightarrow> json \<Rightarrow> time \<Rightarrow> unit otx" where
  "failSweep k err now d =
     Inr ((), snd (update_sweeps (\<lambda>(j, s). j = k \<and> sw_status s = SW_RUNNING)
       (\<lambda>s. s\<lparr>sw_status := SW_FAILED, sw_error := Some err, sw_completedAt := Some now\<rparr>) d))"

section \<open>Tracked resources and stale operations\<close>

record tracked_resource =
  tk_databaseInstanceId :: uuid
  tk_operationId :: uuid
  tk_operationVersion :: nat
  tk_projectId :: uuid
  tk_sourceRunId :: uuid
  tk_externalId :: string
  tk_status :: database_status

definition track :: "odb \<Rightarrow> uuid \<times> db_instance \<Rightarrow> tracked_resource option" where
  "track d ir =
     (if di_status (snd ir) = DbDeleted then None
      else case (di_externalId (snd ir), artifact_of d (snd ir)) of
        (Some ext, Some (a, m)) \<Rightarrow>
          Some \<lparr>tk_databaseInstanceId = fst ir, tk_operationId = di_operationId (snd ir),
                tk_operationVersion = di_operationVersion (snd ir), tk_projectId = di_projectId (snd ir),
                tk_sourceRunId = ma_sourceRunId m, tk_externalId = ext,
                tk_status = public_status (di_status (snd ir))\<rparr>
      | _ \<Rightarrow> None)"

definition listTrackedResources :: "odb \<Rightarrow> tracked_resource list" where
  "listTrackedResources d = List.map_filter (track d) (sort_key fst (instances d))"

definition RECOVERABLE_STATUSES :: "database_status list" where
  "RECOVERABLE_STATUSES = [DbQueued, DbProvisioning, DbHealthCheck, DbMigrating, DbDeleting, DbFailed]"

definition retryable_json :: "json option \<Rightarrow> bool" where
  "retryable_json e =
     (case e of Some (JObj kvs) \<Rightarrow> map_of kvs ''retryable'' = Some (JBool True) | _ \<Rightarrow> False)"

text \<open>Ordered by heartbeat with the rows that have none last, then by creation; at most \<open>limit\<close>.\<close>

definition stale_candidates :: "time \<Rightarrow> nat \<Rightarrow> odb \<Rightarrow> (uuid \<times> db_instance) list" where
  "stale_candidates staleBefore limit d =
     (let rows = filter (\<lambda>(i, r). di_status r \<in> set RECOVERABLE_STATUSES \<and>
                   (case di_lastHeartbeatAt r of None \<Rightarrow> True | Some t \<Rightarrow> t \<le> staleBefore)) (instances d)
      in take limit
           (sort_key (\<lambda>(i, r). case di_lastHeartbeatAt r of Some t \<Rightarrow> t | None \<Rightarrow> 0)
              (filter (\<lambda>(i, r). di_lastHeartbeatAt r \<noteq> None) rows)
            @ filter (\<lambda>(i, r). di_lastHeartbeatAt r = None) rows))"

definition exhausted_error :: json where
  "exhausted_error = JObj [(''code'', JStr ''DATABASE_RECOVERY_EXHAUSTED''),
     (''message'', JStr ''Automatic database recovery attempts were exhausted''), (''retryable'', JBool False)]"

definition append_if_artifact ::
    "uuid \<times> db_instance \<Rightarrow> nat \<Rightarrow> database_status \<Rightarrow> string \<Rightarrow> odb \<Rightarrow> thrown + odb" where
  "append_if_artifact ir v st msg d =
     (case artifact_of d (snd ir) of
        None \<Rightarrow> Inr d
      | Some (a, m) \<Rightarrow> append_status (ma_sourceRunId m) (fst ir) (di_operationId (snd ir)) v st msg d)"

definition exhausted_input :: "uuid \<Rightarrow> time \<Rightarrow> uuid \<times> db_instance \<Rightarrow> finding_input" where
  "exhausted_input sweepId now ir =
     \<lparr>fn_sweepId = sweepId, fn_kind = RECOVERY_EXHAUSTED, fn_stableId = nat_string (fst ir),
      fn_databaseInstanceId = Some (fst ir), fn_externalId = di_externalId (snd ir),
      fn_resourceName = Some (di_displayName (snd ir)),
      fn_details = JObj [(''operationId'', JNum (int (di_operationId (snd ir)))),
         (''operationVersion'', JNum (int (di_operationVersion (snd ir)))),
         (''recoveryCount'', JNum (int (di_recoveryCount (snd ir))))],
      fn_now = now, fn_cleanupAfter = None\<rparr>"

text \<open>One candidate: skipped, given up, or fenced and handed back to the queue.\<close>

definition recover_one ::
    "(string \<Rightarrow> string) \<Rightarrow> uuid \<Rightarrow> time \<Rightarrow> nat \<Rightarrow> uuid \<times> db_instance
       \<Rightarrow> (database_job list \<times> nat) otx" where
  "recover_one hash sweepId now maxAttempts ir d =
     (let i = fst ir; r = snd ir
      in if di_status r = DbFailed \<and> \<not> retryable_json (di_error r) then Inr (([], 0), d)
         else if maxAttempts \<le> di_recoveryCount r
         then
           (let (n, d1) = update_instances
                  (\<lambda>(j, q). j = i \<and> di_operationVersion q = di_operationVersion r \<and>
                            di_recoveryCount q = di_recoveryCount r)
                  (\<lambda>q. q\<lparr>di_status := DbFailed, di_lastReconciledAt := Some now, di_lastHeartbeatAt := Some now,
                         di_error := Some exhausted_error\<rparr>) d
            in if n \<noteq> 1 then Inr (([], 0), d1)
               else bind_res (append_if_artifact ir (di_operationVersion r) DbFailed
                      ''Automatic recovery attempts were exhausted; operator action is required''
                      (snd (observeFinding hash (exhausted_input sweepId now ir) d1)))
                    (\<lambda>d2. Inr (([], 1), d2)))
         else
           (let v = di_operationVersion r + 1;
                (n, d1) = update_instances
                  (\<lambda>(j, q). j = i \<and> di_operationVersion q = di_operationVersion r \<and>
                            di_recoveryCount q = di_recoveryCount r \<and> di_status q = di_status r)
                  (\<lambda>q. q\<lparr>di_operationVersion := v, di_recoveryCount := di_recoveryCount q + 1,
                         di_lastReconciledAt := Some now, di_lastHeartbeatAt := Some now\<rparr>) d;
                command = (if di_status r = DbDeleting then CmdDestroy else CmdProvision)
            in if n \<noteq> 1 then Inr (([], 0), d1)
               else bind_res (append_if_artifact ir v
                      (if di_status r = DbFailed then DbFailed else public_status (di_status r))
                      (''Reconciliation fenced the stale execution and dispatched recovery '' @
                       nat_string (di_recoveryCount r + 1)) d1)
                    (\<lambda>d2. Inr (([\<lparr>dj_operationId = di_operationId r, dj_databaseInstanceId = i,
                                  dj_command = command, dj_operationVersion = v\<rparr>], 0), d2))))"

fun recover_loop ::
    "(string \<Rightarrow> string) \<Rightarrow> uuid \<Rightarrow> time \<Rightarrow> nat \<Rightarrow> (uuid \<times> db_instance) list
       \<Rightarrow> (database_job list \<times> nat) otx" where
  "recover_loop hash k now m [] d = Inr (([], 0), d)"
| "recover_loop hash k now m (ir # irs) d =
     bind_res (recover_one hash k now m ir d) (\<lambda>((js, n), d1).
     bind_res (recover_loop hash k now m irs d1) (\<lambda>((js', n'), d2). Inr ((js @ js', n + n'), d2)))"

definition recoverStaleOperations ::
    "(string \<Rightarrow> string) \<Rightarrow> uuid \<Rightarrow> time \<Rightarrow> nat \<Rightarrow> nat \<Rightarrow> time \<Rightarrow> (database_job list \<times> nat) otx" where
  "recoverStaleOperations hash k staleBefore maxAttempts limit now d =
     recover_loop hash k now maxAttempts (stale_candidates staleBefore limit d) d"

definition recordRecoveryDispatchFailure :: "database_job \<Rightarrow> json \<Rightarrow> time \<Rightarrow> unit otx" where
  "recordRecoveryDispatchFailure job err now d =
     (case instance_of d (dj_databaseInstanceId job) of
        None \<Rightarrow> Inr ((), d)
      | Some r \<Rightarrow>
          (if di_operationId r \<noteq> dj_operationId job \<or> di_operationVersion r \<noteq> dj_operationVersion job
           then Inr ((), d)
           else bind_res (append_if_artifact (dj_databaseInstanceId job, r) (di_operationVersion r) DbFailed
                  ''Recovery dispatch failed before a worker could claim it''
                  (set_instance (dj_databaseInstanceId job)
                     (r\<lparr>di_status := DbFailed, di_error := Some err, di_lastHeartbeatAt := Some now,
                        di_lastReconciledAt := Some now\<rparr>) d))
                (\<lambda>d1. Inr ((), d1))))"

section \<open>Missing resources\<close>

definition missing_error :: json where
  "missing_error = JObj [(''code'', JStr ''DATABASE_PROVIDER_RESOURCE_MISSING''),
     (''message'', JStr ''The tracked provider resource was absent in two consecutive inventories''),
     (''retryable'', JBool False)]"

definition missing_input :: "uuid \<Rightarrow> time \<Rightarrow> tracked_resource \<Rightarrow> finding_input" where
  "missing_input sweepId now t =
     \<lparr>fn_sweepId = sweepId, fn_kind = PROVIDER_RESOURCE_MISSING,
      fn_stableId = nat_string (tk_databaseInstanceId t), fn_databaseInstanceId = Some (tk_databaseInstanceId t),
      fn_externalId = Some (tk_externalId t), fn_resourceName = None,
      fn_details = JObj [(''operationId'', JNum (int (tk_operationId t))),
         (''operationVersion'', JNum (int (tk_operationVersion t))),
         (''localStatus'', JStr (database_status_string (tk_status t)))],
      fn_now = now, fn_cleanupAfter = None\<rparr>"

definition observeMissingResource :: "(string \<Rightarrow> string) \<Rightarrow> uuid \<Rightarrow> tracked_resource \<Rightarrow> time \<Rightarrow> unit otx" where
  "observeMissingResource hash sweepId t now d =
     (let ((k, f), d1) = observeFinding hash (missing_input sweepId now t) d
      in if fi_observationCount f < 2 then Inr ((), d1)
         else if tk_status t \<noteq> DbReady \<and> tk_status t \<noteq> DbSuspended then Inr ((), d1)
         else
           (let (n, d2) = update_instances
                  (\<lambda>(j, r). j = tk_databaseInstanceId t \<and> di_operationVersion r = tk_operationVersion t \<and>
                            di_status r \<in> {DbReady, DbActive, DbSuspended})
                  (\<lambda>r. r\<lparr>di_status := DbFailed, di_lastReconciledAt := Some now,
                         di_error := Some missing_error\<rparr>) d1
            in if n \<noteq> 1 then Inr ((), d2)
               else bind_res (append_status (tk_sourceRunId t) (tk_databaseInstanceId t) (tk_operationId t)
                      (tk_operationVersion t) DbFailed
                      ''Provider resource is missing; no automatic replacement was created'' d2)
                    (\<lambda>d3. Inr ((), d3))))"

definition resolve_as :: "string \<Rightarrow> time \<Rightarrow> finding \<Rightarrow> finding" where
  "resolve_as resolution now f =
     f\<lparr>fi_status := F_RESOLVED, fi_resolvedAt := Some now, fi_resolution := Some resolution\<rparr>"

definition resolveMissingResource :: "uuid \<Rightarrow> time \<Rightarrow> unit otx" where
  "resolveMissingResource i now d =
     Inr ((), snd (update_findings
       (\<lambda>(k, f). fi_databaseInstanceId f = Some i \<and> fi_kind f = PROVIDER_RESOURCE_MISSING \<and>
                 fi_status f \<in> {F_OPEN, F_APPROVED})
       (resolve_as ''PROVIDER_RESOURCE_PRESENT'' now) d))"

section \<open>Orphaned resources\<close>

record managed_resource =
  mg_externalId :: string
  mg_name :: string
  mg_region :: "string option"
  mg_status :: "string option"
  mg_createdAt :: "string option"

record orphan_observation =
  ob_findingId :: uuid
  ob_status :: finding_status
  ob_observationCount :: nat
  ob_cleanupAfter :: time

definition json_opt :: "string option \<Rightarrow> json" where
  "json_opt s = (case s of None \<Rightarrow> JNull | Some t \<Rightarrow> JStr t)"

definition orphan_input :: "uuid \<Rightarrow> time \<Rightarrow> int \<Rightarrow> managed_resource \<Rightarrow> finding_input" where
  "orphan_input sweepId now graceMs m =
     \<lparr>fn_sweepId = sweepId, fn_kind = ORPHAN_PROVIDER_RESOURCE, fn_stableId = mg_externalId m,
      fn_databaseInstanceId = None, fn_externalId = Some (mg_externalId m),
      fn_resourceName = Some (mg_name m),
      fn_details = JObj [(''region'', json_opt (mg_region m)), (''providerStatus'', json_opt (mg_status m)),
         (''providerCreatedAt'', json_opt (mg_createdAt m))],
      fn_now = now, fn_cleanupAfter = Some (now + graceMs)\<rparr>"

definition observeOrphanResource ::
    "(string \<Rightarrow> string) \<Rightarrow> uuid \<Rightarrow> managed_resource \<Rightarrow> int \<Rightarrow> time \<Rightarrow> orphan_observation otx" where
  "observeOrphanResource hash sweepId m graceMs now d =
     (let ((k, f), d1) = observeFinding hash (orphan_input sweepId now graceMs m) d
      in case fi_cleanupAfter f of
           None \<Rightarrow> Inl (GenericError ''Orphan finding is missing its cleanup boundary'')
         | Some t \<Rightarrow> Inr (\<lparr>ob_findingId = k, ob_status = fi_status f,
                          ob_observationCount = fi_observationCount f, ob_cleanupAfter = t\<rparr>, d1))"

definition claimable :: "uuid \<Rightarrow> string \<Rightarrow> time \<Rightarrow> finding \<Rightarrow> bool" where
  "claimable sweepId ext now f \<longleftrightarrow>
     fi_sweepId f = sweepId \<and> fi_kind f = ORPHAN_PROVIDER_RESOURCE \<and> fi_status f = F_APPROVED \<and>
     fi_externalId f = Some ext \<and> 2 \<le> fi_observationCount f \<and>
     (case fi_cleanupAfter f of None \<Rightarrow> False | Some t \<Rightarrow> t \<le> now)"

definition tracked_external :: "odb \<Rightarrow> string \<Rightarrow> bool" where
  "tracked_external d ext =
     list_ex (\<lambda>(i, r). di_externalId r = Some ext \<and> di_status r \<noteq> DbDeleted) (instances d)"

definition claimOrphanCleanup :: "uuid \<Rightarrow> uuid \<Rightarrow> string \<Rightarrow> time \<Rightarrow> bool otx" where
  "claimOrphanCleanup sweepId k ext now d =
     (if \<not> sweep_running d sweepId then Inr (False, d)
      else case map_of (findings d) k of
        None \<Rightarrow> Inr (False, d)
      | Some f \<Rightarrow>
          (if \<not> claimable sweepId ext now f then Inr (False, d)
           else if tracked_external d ext then Inr (False, d)
           else
             (let (n, d1) = update_findings
                    (\<lambda>(j, g). j = k \<and> fi_sweepId g = sweepId \<and> fi_status g = F_APPROVED \<and>
                              fi_externalId g = Some ext)
                    (\<lambda>g. g\<lparr>fi_status := F_CLEANING, fi_lastSeenAt := now\<rparr>) d
              in Inr (n = 1, d1))))"

definition releaseOrphanCleanupClaim :: "uuid \<Rightarrow> time \<Rightarrow> unit otx" where
  "releaseOrphanCleanupClaim k now d =
     Inr ((), snd (update_findings (\<lambda>(j, f). j = k \<and> fi_status f = F_CLEANING)
       (\<lambda>f. f\<lparr>fi_status := F_APPROVED, fi_lastSeenAt := now\<rparr>) d))"

definition open_orphan :: "finding \<Rightarrow> bool" where
  "open_orphan f \<longleftrightarrow> fi_kind f = ORPHAN_PROVIDER_RESOURCE \<and> fi_status f \<in> {F_OPEN, F_APPROVED, F_CLEANING}"

definition resolveOrphanResource :: "string \<Rightarrow> string \<Rightarrow> time \<Rightarrow> unit otx" where
  "resolveOrphanResource ext resolution now d =
     Inr ((), snd (update_findings (\<lambda>(k, f). open_orphan f \<and> fi_externalId f = Some ext)
       (resolve_as resolution now) d))"

definition resolveUnseenOrphanResources :: "string list \<Rightarrow> time \<Rightarrow> unit otx" where
  "resolveUnseenOrphanResources seen now d =
     Inr ((), snd (update_findings
       (\<lambda>(k, f). open_orphan f \<and> (case fi_externalId f of None \<Rightarrow> False | Some e \<Rightarrow> e \<notin> set seen))
       (resolve_as ''NO_LONGER_PRESENT'' now) d))"

datatype approve_result = CleanupApproved uuid | CleanupNotFound | CleanupNotReady string

fun finding_status_string :: "finding_status \<Rightarrow> string" where
  "finding_status_string F_OPEN = ''OPEN''"
| "finding_status_string F_APPROVED = ''APPROVED''"
| "finding_status_string F_CLEANING = ''CLEANING''"
| "finding_status_string F_RESOLVED = ''RESOLVED''"
| "finding_status_string F_IGNORED = ''IGNORED''"

definition approveOrphanCleanup :: "uuid \<Rightarrow> string \<Rightarrow> string \<Rightarrow> time \<Rightarrow> approve_result otx" where
  "approveOrphanCleanup k ext approvedBy now d =
     (case map_of (findings d) k of
        None \<Rightarrow> Inr (CleanupNotFound, d)
      | Some f \<Rightarrow>
          (if fi_externalId f \<noteq> Some ext \<or> fi_kind f \<noteq> ORPHAN_PROVIDER_RESOURCE then Inr (CleanupNotFound, d)
           else if fi_status f = F_APPROVED then Inr (CleanupApproved k, d)
           else if fi_status f \<noteq> F_OPEN
           then Inr (CleanupNotReady (''Finding is '' @ finding_status_string (fi_status f)), d)
           else if fi_observationCount f < 2
           then Inr (CleanupNotReady ''A second independent inventory observation is required'', d)
           else
             (let (n, d1) = update_findings
                    (\<lambda>(j, g). j = k \<and> fi_status g = F_OPEN \<and> fi_externalId g = Some ext)
                    (\<lambda>g. g\<lparr>fi_status := F_APPROVED, fi_approvedBy := Some approvedBy,
                           fi_approvedAt := Some now\<rparr>) d
              in Inr (if n = 1 then CleanupApproved k else CleanupNotReady ''Finding changed concurrently'', d1))))"

end
