(* ===== verification/DatabaseLaws.thy ===== *)
theory DatabaseLaws
  imports DatabaseControl Reconciliation
begin

text \<open>
  What the transactions on provisioned databases do to the rows, as laws the properties of
  the subsystem share: every transaction writes at most the one row it is fenced to, the
  life cycle a row goes through, and the invariant of the tables.
\<close>

section \<open>Writing one row\<close>

lemma update_rows_none: "(\<And>k r. (k, r) \<in> set al \<Longrightarrow> \<not> q (k, r)) \<Longrightarrow> update_rows q f al = al"
  by (induction al) (auto simp: update_rows_def)

lemma filter_key_le1:
  assumes "distinct (map fst al)" and "\<And>k r. q (k, r) \<Longrightarrow> k = i"
  shows "length (filter q al) = (case map_of al i of Some r \<Rightarrow> if q (i, r) then 1 else 0 | None \<Rightarrow> 0)"
  using assms
proof (induction al)
  case (Cons a al)
  obtain k r where a: "a = (k, r)" by fastforce
  show ?case
  proof (cases "k = i")
    case True
    have "filter q al = []"
      using Cons.prems True a by (force simp: filter_empty_conv)
    then show ?thesis using True a by simp
  next
    case False
    then have "\<not> q a" using Cons.prems(2) a by blast
    then show ?thesis using Cons False a by simp
  qed
qed simp

text \<open>
  \<open>d'\<close> is \<open>d\<close> with row \<open>i\<close> of the instances changed from \<open>r\<close> to \<open>r'\<close>: the other rows and
  their order are those of \<open>d\<close>.
\<close>

definition writes_row :: "uuid \<Rightarrow> db_instance \<Rightarrow> db_instance \<Rightarrow> odb \<Rightarrow> odb \<Rightarrow> bool" where
  "writes_row i r r' d d' \<longleftrightarrow>
     instance_of d i = Some r \<and> map fst (instances d') = map fst (instances d) \<and>
     (\<forall>j. instance_of d' j = (if j = i then Some r' else instance_of d j)) \<and>
     od_next d \<le> od_next d'"

text \<open>An update whose predicate names a primary key writes that row or nothing.\<close>

lemma update_one:
  assumes "distinct (map fst (instances d))" and "\<And>k r. q (k, r) \<Longrightarrow> k = i"
    and "update_instances q f d = (n, d')"
  shows "n \<noteq> 1 \<and> d' = d \<and> (\<forall>r. instance_of d i = Some r \<longrightarrow> \<not> q (i, r)) \<or>
    n = 1 \<and> (\<exists>r. q (i, r) \<and> writes_row i r (f r) d d')"
proof -
  have n: "n = length (filter q (instances d))"
    and d': "d' = d\<lparr>instances := update_rows q f (instances d)\<rparr>"
    using assms(3) by (auto simp: update_instances_def)
  have len: "n = (case instance_of d i of Some r \<Rightarrow> if q (i, r) then 1 else 0 | None \<Rightarrow> 0)"
    unfolding n by (rule filter_key_le1 [OF assms(1,2)])
  show ?thesis
  proof (cases "\<exists>r. instance_of d i = Some r \<and> q (i, r)")
    case True
    then obtain r where r: "instance_of d i = Some r" "q (i, r)" by blast
    have "instance_of d' = (instance_of d)(i \<mapsto> f r)"
    proof
      fix j
      have "instance_of d' j = map_option (\<lambda>r. if q (j, r) then f r else r) (instance_of d j)"
        by (simp add: d' map_of_update_rows)
      moreover have "\<not> q (j, s)" if "j \<noteq> i" for s using assms(2) that by blast
      ultimately show "instance_of d' j = ((instance_of d)(i \<mapsto> f r)) j"
        using r by (cases "j = i"; cases "instance_of d j") simp_all
    qed
    then have "writes_row i r (f r) d d'" using r by (simp add: writes_row_def d')
    moreover have "n = 1" using len r by simp
    ultimately show ?thesis using r(2) by blast
  next
    case False
    then have n0: "n = 0" using len by (auto split: option.splits)
    then have "update_rows q f (instances d) = instances d"
      unfolding n by (intro update_rows_none) (auto simp: filter_empty_conv)
    then have "d' = d" by (simp add: d')
    moreover have "\<forall>r. instance_of d i = Some r \<longrightarrow> \<not> q (i, r)" using False by blast
    ultimately show ?thesis using n0 by simp
  qed
qed

lemma writes_row_set:
  assumes "instance_of d i = Some r"
  shows "writes_row i r r' d (set_instance i r' d)"
proof -
  have "i \<in> fst ` set (instances d)" using assms by (metis domI dom_map_of_conv_image_fst)
  then show ?thesis
    using assms by (simp add: writes_row_def set_instance_def update_keys update_conv')
qed

lemma update_frame:
  assumes "update_instances q f d = (n, d')"
  shows "od_main d' = od_main d" "secrets d' = secrets d" "migration_runs d' = migration_runs d"
    "sweeps d' = sweeps d" "findings d' = findings d" "od_next d' = od_next d"
    "integrations d' = integrations d"
  using assms by (auto simp: update_instances_def)

definition side_tables :: "odb \<Rightarrow> (uuid \<times> sweep) list \<times> (uuid \<times> finding) list \<times> (uuid \<times> integration) list" where
  "side_tables d = (sweeps d, findings d, integrations d)"

lemma writes_row_append:
  assumes "writes_row i r r' d d1" and "append_status run j oid v st msg d1 = Inr d2"
  shows "writes_row i r r' d d2"
  using assms(1) unfolding writes_row_def append_status_frame [OF assms(2)] .

lemma writes_row_cong:
  "writes_row i r r' d d1 \<Longrightarrow> instances d2 = instances d1 \<Longrightarrow> od_next d1 \<le> od_next d2 \<Longrightarrow>
     writes_row i r r' d d2"
  by (simp add: writes_row_def)

lemma writes_row_from:
  "instances d0 = instances d \<Longrightarrow> od_next d0 = od_next d \<Longrightarrow> writes_row i r r' d0 d2 = writes_row i r r' d d2"
  unfolding writes_row_def by (simp only:)

lemma owned_key: "owned_by i oid v (k, r) \<Longrightarrow> k = i" "owner x st (k, r) \<Longrightarrow> k = de_id x"
  by (simp_all add: owned_by_def owner_def owned_in_def)

lemma ownerD:
  assumes "owner x st (i, r)"
  shows "i = de_id x" "di_status r = st" "di_operationId r = de_operationId x"
    "di_operationVersion r = de_operationVersion x"
  using assms by (auto simp: owner_def owned_in_def owned_by_def)

section \<open>What the worker's transactions do\<close>

text \<open>
  \<open>fenced x st f d d'\<close>: the row of the execution \<open>x\<close> is in status \<open>st\<close> at the version of \<open>x\<close> and
  is changed by \<open>f\<close>; the tables of the reconciler are left alone.
\<close>

definition fenced :: "execution_record \<Rightarrow> database_status \<Rightarrow> (db_instance \<Rightarrow> db_instance) \<Rightarrow> odb \<Rightarrow> odb \<Rightarrow> bool" where
  "fenced x st f d d' \<longleftrightarrow> (\<exists>r. owner x st (de_id x, r) \<and> writes_row (de_id x) r (f r) d d') \<and>
     side_tables d' = side_tables d"

lemma fenced_append:
  assumes "fenced x st f d d1" and "append_status run j oid v s msg d1 = Inr d2"
  shows "fenced x st f d d2"
  using assms writes_row_append
  by (fastforce simp: fenced_def side_tables_def append_status_frame [OF assms(2)])

lemma fenced_cong:
  "fenced x st f d d1 \<Longrightarrow> instances d2 = instances d1 \<Longrightarrow> od_next d2 = od_next d1 \<Longrightarrow>
     side_tables d2 = side_tables d1 \<Longrightarrow> fenced x st f d d2"
  unfolding fenced_def using writes_row_cong by (metis order_refl)

lemma update_owner:
  assumes "distinct (map fst (instances d))" and "update_instances (owner x st) f d = (n, d1)"
  shows "n \<noteq> 1 \<and> d1 = d \<or> n = 1 \<and> fenced x st f d d1"
proof -
  have "n \<noteq> 1 \<and> d1 = d \<or> n = 1 \<and> (\<exists>r. owner x st (de_id x, r) \<and> writes_row (de_id x) r (f r) d d1)"
    using update_one [OF assms(1) _ assms(2), of "de_id x"] owned_key(2) by blast
  then show ?thesis using update_frame [OF assms(2)] by (auto simp: fenced_def side_tables_def)
qed

lemma then_True_Inr: "bind_res m (\<lambda>d2. Inr (True, d2)) = Inr (b, d') \<longleftrightarrow> m = Inr d' \<and> b"
  by (cases m) auto

text \<open>The shape of the fenced transactions: claim the row, change other tables, append the event.\<close>

lemma fenced_tx:
  assumes keys: "distinct (map fst (instances d))"
    and tx: "(let (n, d1) = update_instances (owner x st) f d
       in if n \<noteq> 1 then Inr (False, d1)
          else bind_res (appendStatusEvent y s msg (g d1)) (\<lambda>d2. Inr (True, d2))) = Inr (b, d')"
    and g: "\<And>d. instances (g d) = instances d" "\<And>d. od_next (g d) = od_next d"
      "\<And>d. side_tables (g d) = side_tables d"
  shows "\<not> b \<and> d' = d \<or>
    b \<and> fenced x st f d d' \<and>
    (\<exists>d1. migration_runs d1 = migration_runs d \<and> secrets d1 = secrets d \<and>
          migration_runs d' = migration_runs (g d1) \<and> secrets d' = secrets (g d1))"
proof -
  obtain n d1 where u: "update_instances (owner x st) f d = (n, d1)" by fastforce
  show ?thesis
  proof (cases "n = 1")
    case True
    with tx u have b and a: "appendStatusEvent y s msg (g d1) = Inr d'"
      by (simp_all add: then_True_Inr)
    have "fenced x st f d d1" using update_owner [OF keys u] True by simp
    then have "fenced x st f d (g d1)" by (rule fenced_cong) (simp_all add: g)
    note fenced_append [OF this a [unfolded appendStatusEvent_def]]
    moreover have "migration_runs d' = migration_runs (g d1)" "secrets d' = secrets (g d1)"
      using append_status_frame [OF a [unfolded appendStatusEvent_def]] by simp_all
    ultimately show ?thesis using \<open>b\<close> update_frame(2,3) [OF u] by blast
  next
    case False
    with tx u have "\<not> b" "d' = d1" by simp_all
    with update_owner [OF keys u] False show ?thesis by simp
  qed
qed

lemma recordHealthCheck_effect:
  assumes "distinct (map fst (instances d))" and "recordHealthCheck x msg now d = Inr (b, d')"
  shows "\<not> b \<and> d' = d \<or>
    b \<and> fenced x DbHealthCheck (\<lambda>r. r\<lparr>di_lastHeartbeatAt := Some now, di_lastSyncedAt := Some now\<rparr>) d d' \<and>
    migration_runs d' = migration_runs d \<and> secrets d' = secrets d"
  using fenced_tx [where g = "\<lambda>d. d", OF assms(1) assms(2) [unfolded recordHealthCheck_def]]
  by auto

lemma startMigration_effect:
  assumes "distinct (map fst (instances d))" and "startMigration x now d = Inr (b, d')"
  shows "\<not> b \<and> d' = d \<or>
    b \<and> fenced x DbHealthCheck (\<lambda>r. r\<lparr>di_status := DbMigrating, di_lastHeartbeatAt := Some now\<rparr>) d d' \<and>
    migration_runs d' = migration_runs (upsert_migration_run x now d) \<and> secrets d' = secrets d"
  using fenced_tx [OF assms(1) assms(2) [unfolded startMigration_def]]
  by (auto simp: upsert_migration_run_def side_tables_def)

lemma completeDestroy_effect:
  assumes "distinct (map fst (instances d))" and "completeDestroy x now d = Inr (b, d')"
  shows "\<not> b \<and> d' = d \<or>
    b \<and> fenced x DbDeleting (\<lambda>r. r\<lparr>di_status := DbDeleted, di_deletedAt := Some now, di_lastHeartbeatAt := Some now,
                   di_connectionSecretRef := None, di_error := None\<rparr>) d d' \<and>
    migration_runs d' = migration_runs d \<and> secrets d' = secrets (revoke_secret (de_connectionSecretRef x) now d)"
  using fenced_tx [OF assms(1) assms(2) [unfolded completeDestroy_def]]
  by (auto simp: revoke_secret_def side_tables_def split: option.splits)

definition provisioned_row :: "provision_result \<Rightarrow> time \<Rightarrow> db_instance \<Rightarrow> db_instance" where
  "provisioned_row p now r =
     r\<lparr>di_externalId := Some (pn_externalId p), di_databaseName := Some (pn_databaseName p),
       di_region := Some (pn_region p), di_connectionSecretRef := Some (pn_connectionSecretRef p),
       di_providerOperationMetadata := Some (pn_metadata p), di_status := DbHealthCheck,
       di_lastSyncedAt := Some now, di_lastHeartbeatAt := Some now\<rparr>"

lemma upsert_secret_frame [simp]:
  "instances (upsert_secret x ref d) = instances d" "migration_runs (upsert_secret x ref d) = migration_runs d"
  "od_next (upsert_secret x ref d) = od_next d" "side_tables (upsert_secret x ref d) = side_tables d"
  "od_main (upsert_secret x ref d) = od_main d"
  by (simp_all add: upsert_secret_def side_tables_def)

lemma recordProvisioned_effect:
  assumes keys: "distinct (map fst (instances d))" and tx: "recordProvisioned x p now d = Inr (b, d')"
  shows "\<not> b \<and> d' = d \<or>
    b \<and> fenced x DbProvisioning (provisioned_row p now) d d' \<and>
    \<not> resource_taken (de_id x) p d \<and>
    migration_runs d' = migration_runs d \<and>
    secrets d' = secrets (upsert_secret x (pn_connectionSecretRef p) d)"
proof -
  let ?d1 = "upsert_secret x (pn_connectionSecretRef p) d"
  obtain n d2 where u: "update_instances (owner x DbProvisioning) (provisioned_row p now) ?d1 = (n, d2)"
    by fastforce
  have keys1: "distinct (map fst (instances ?d1))" using keys by simp
  have n: "n = length (filter (owner x DbProvisioning) (instances d))"
    using u by (auto simp: update_instances_def)
  note tx' = tx [unfolded recordProvisioned_def Let_def, folded provisioned_row_def, unfolded u prod.case]
  show ?thesis
  proof (cases "n = 1")
    case True
    with tx' n have free: "\<not> resource_taken (de_id x) p ?d1" and b
      and a: "appendStatusEvent (x\<lparr>de_externalId := Some (pn_externalId p)\<rparr>) DbHealthCheck
          ''Supabase resource exists; waiting for healthy services'' d2 = Inr d'"
      by (simp_all add: then_True_Inr split: if_splits)
    have "fenced x DbProvisioning (provisioned_row p now) ?d1 d2"
      using update_owner [OF keys1 u] True by simp
    then have "fenced x DbProvisioning (provisioned_row p now) d d2"
      by (simp add: fenced_def writes_row_from [of ?d1 d])
    note fenced_append [OF this a [unfolded appendStatusEvent_def]]
    moreover have "migration_runs d' = migration_runs d" "secrets d' = secrets ?d1"
      using append_status_frame [OF a [unfolded appendStatusEvent_def]] update_frame [OF u] by simp_all
    moreover have "\<not> resource_taken (de_id x) p d" using free by (simp add: resource_taken_def)
    ultimately show ?thesis using \<open>b\<close> by blast
  next
    case False
    with tx' n show ?thesis by simp
  qed
qed

definition migrated_run :: "migration_report list \<Rightarrow> time \<Rightarrow> migration_run \<Rightarrow> migration_run" where
  "migrated_run reports now m =
     m\<lparr>mr_status := MR_SUCCEEDED, mr_commandResults := Some reports, mr_completedAt := Some now,
       mr_error := None\<rparr>"

lemma completeMigration_effect:
  assumes keys: "distinct (map fst (instances d))" and tx: "completeMigration x reports now d = Inr (b, d')"
  shows "\<not> b \<and> d' = d \<or>
    b \<and> fenced x DbMigrating (\<lambda>r. r\<lparr>di_status := DbReady, di_readyAt := Some now,
              di_lastHeartbeatAt := Some now, di_error := None\<rparr>) d d' \<and> secrets d' = secrets d \<and>
    (\<exists>m. map_of (migration_runs d) (de_id x, de_artifactId x) = Some m \<and>
         migration_runs d' = AList.update (de_id x, de_artifactId x) (migrated_run reports now m) (migration_runs d))"
proof -
  let ?f = "\<lambda>r. r\<lparr>di_status := DbReady, di_readyAt := Some now, di_lastHeartbeatAt := Some now, di_error := None\<rparr>"
  obtain n d1 where u: "update_instances (owner x DbMigrating) ?f d = (n, d1)" by fastforce
  note tx' = tx [unfolded completeMigration_def Let_def, unfolded u prod.case, folded migrated_run_def]
  note runs = update_frame(3) [OF u]
  show ?thesis
  proof (cases "n = 1")
    case True
    with tx' obtain m where m: "map_of (migration_runs d) (de_id x, de_artifactId x) = Some m"
      by (simp add: runs split: option.splits)
    let ?d2 = "d1\<lparr>migration_runs := AList.update (de_id x, de_artifactId x) (migrated_run reports now m)
        (migration_runs d)\<rparr>"
    have b and a: "appendStatusEvent x DbReady
        ''Provisioning, health checks, migration, seed, and connectivity checks passed'' ?d2 = Inr d'"
      using tx' True m by (simp_all add: runs then_True_Inr)
    have "fenced x DbMigrating ?f d d1" using update_owner [OF keys u] True by simp
    then have "fenced x DbMigrating ?f d ?d2" by (rule fenced_cong) (simp_all add: side_tables_def)
    note fenced_append [OF this a [unfolded appendStatusEvent_def]]
    moreover have "migration_runs d' = migration_runs ?d2" "secrets d' = secrets d"
      using append_status_frame [OF a [unfolded appendStatusEvent_def]] update_frame [OF u] by simp_all
    ultimately show ?thesis using \<open>b\<close> m by simp
  next
    case False
    with tx' update_owner [OF keys u] show ?thesis by simp
  qed
qed

definition failed_runs :: "uuid \<Rightarrow> json \<Rightarrow> time \<Rightarrow> ((uuid \<times> uuid) \<times> migration_run) list \<Rightarrow> ((uuid \<times> uuid) \<times> migration_run) list" where
  "failed_runs i err now =
     update_rows (\<lambda>((j, a), m). j = i \<and> mr_status m \<in> {MR_QUEUED, MR_RUNNING})
       (\<lambda>m. m\<lparr>mr_status := MR_FAILED, mr_error := Some err, mr_completedAt := Some now\<rparr>)"

definition failed_row :: "json \<Rightarrow> time \<Rightarrow> db_instance \<Rightarrow> db_instance" where
  "failed_row err now r = r\<lparr>di_status := DbFailed, di_error := Some err, di_lastHeartbeatAt := Some now\<rparr>"

lemma fail_operation_effect:
  assumes keys: "distinct (map fst (instances d))" and tx: "fail_operation x err now d = Inr ((), d')"
  shows "side_tables d' = side_tables d" "secrets d' = secrets d" "od_next d' = od_next d"
    "migration_runs d' = failed_runs (de_id x) err now (migration_runs d)"
    "instances d' = instances d \<and>
       (\<forall>r. instance_of d (de_id x) = Some r \<longrightarrow>
          \<not> owned_by (de_id x) (de_operationId x) (de_operationVersion x) (de_id x, r)) \<or>
     (\<exists>r. owned_by (de_id x) (de_operationId x) (de_operationVersion x) (de_id x, r) \<and>
          writes_row (de_id x) r (failed_row err now r) d d')"
proof -
  obtain n d1 where u: "update_instances (owned_by (de_id x) (de_operationId x) (de_operationVersion x))
      (failed_row err now) d = (n, d1)" by fastforce
  let ?d2 = "d1\<lparr>migration_runs := failed_runs (de_id x) err now (migration_runs d)\<rparr>"
  have a: "appendStatusEvent x DbFailed
      ''Database operation failed; diagnostics are available without secret values'' ?d2 = Inr d'"
    using tx [unfolded fail_operation_def Let_def, folded failed_row_def failed_runs_def, unfolded u prod.case]
    by (simp add: bind_res_Inr_iff update_frame [OF u])
  note fr = append_status_frame [OF a [unfolded appendStatusEvent_def]] update_frame [OF u]
  show "side_tables d' = side_tables d" "secrets d' = secrets d" "od_next d' = od_next d"
    "migration_runs d' = failed_runs (de_id x) err now (migration_runs d)"
    using fr by (simp_all add: side_tables_def)
  have "n \<noteq> 1 \<and> d1 = d \<and>
       (\<forall>r. instance_of d (de_id x) = Some r \<longrightarrow>
          \<not> owned_by (de_id x) (de_operationId x) (de_operationVersion x) (de_id x, r)) \<or>
      n = 1 \<and> (\<exists>r. owned_by (de_id x) (de_operationId x) (de_operationVersion x) (de_id x, r) \<and>
                  writes_row (de_id x) r (failed_row err now r) d d1)"
    using update_one [OF keys _ u, of "de_id x"] owned_key(1) by blast
  then show "instances d' = instances d \<and>
       (\<forall>r. instance_of d (de_id x) = Some r \<longrightarrow>
          \<not> owned_by (de_id x) (de_operationId x) (de_operationVersion x) (de_id x, r)) \<or>
     (\<exists>r. owned_by (de_id x) (de_operationId x) (de_operationVersion x) (de_id x, r) \<and>
          writes_row (de_id x) r (failed_row err now r) d d')"
  proof (elim disjE conjE exE)
    assume "d1 = d" "\<forall>r. instance_of d (de_id x) = Some r \<longrightarrow>
        \<not> owned_by (de_id x) (de_operationId x) (de_operationVersion x) (de_id x, r)"
    then show ?thesis using fr(1) by simp
  next
    fix r
    assume o: "owned_by (de_id x) (de_operationId x) (de_operationVersion x) (de_id x, r)"
      and w: "writes_row (de_id x) r (failed_row err now r) d d1"
    have "writes_row (de_id x) r (failed_row err now r) d d'"
      by (rule writes_row_cong [OF w]) (use fr(1,7) in simp_all)
    with o show ?thesis by blast
  qed
qed

end
