(* ===== verification/DatabaseLife.thy ===== *)
theory DatabaseLife
  imports DatabaseLaws
begin

text \<open>
  The life cycle of a provisioned database. \<open>life\<close> is the machine the statuses go through,
  with the operation version that fences executions; \<open>rows_move\<close> says that a store follows
  it. Every transaction of the control API, the worker and the reconciler does.
\<close>

section \<open>The machine\<close>

inductive life :: "database_status \<times> nat \<Rightarrow> database_status \<times> nat \<Rightarrow> bool" where
  life_claim: "s \<notin> set claim_stale_statuses \<Longrightarrow> life (s, v) (DbProvisioning, v)"
| life_provisioned: "life (DbProvisioning, v) (DbHealthCheck, v)"
| life_migrating: "life (DbHealthCheck, v) (DbMigrating, v)"
| life_ready: "life (DbMigrating, v) (DbReady, v)"
| life_delete: "s \<in> set destroyable_statuses \<Longrightarrow> life (s, v) (DbDeleting, Suc v)"
| life_deleted: "life (DbDeleting, v) (DbDeleted, v)"
| life_recover: "s \<in> set RECOVERABLE_STATUSES \<Longrightarrow> life (s, v) (s, Suc v)"
| life_fail: "life (s, v) (DbFailed, v)"

inductive_simps life_ready_iff: "life (s, v) (DbReady, v')"
inductive_simps life_deleted_iff: "life (s, v) (DbDeleted, v')"
inductive_simps life_from_ready_iff: "life (DbReady, v) p"
inductive_simps life_from_deleted_iff: "life (DbDeleted, v) p"
inductive_cases lifeE: "life (s, v) (s', v')"

lemma life_version: "life p q \<Longrightarrow> snd p \<le> snd q"
  by (induction rule: life.induct) simp_all

lemma life_star_version: "life\<^sup>*\<^sup>* p q \<Longrightarrow> snd p \<le> snd q"
  by (induction rule: rtranclp_induct) (auto dest: life_version)

definition phase :: "db_instance \<Rightarrow> database_status \<times> nat" where
  "phase r = (di_status r, di_operationVersion r)"

definition same_instance :: "db_instance \<Rightarrow> db_instance \<Rightarrow> bool" where
  "same_instance r r' \<longleftrightarrow>
     di_operationId r' = di_operationId r \<and> di_workspaceId r' = di_workspaceId r \<and>
     di_projectId r' = di_projectId r \<and> di_migrationArtifactId r' = di_migrationArtifactId r \<and>
     di_idempotencyKey r' = di_idempotencyKey r"

lemma same_instance_refl [simp]: "same_instance r r"
  by (simp add: same_instance_def)

definition row_moves :: "db_instance \<Rightarrow> db_instance \<Rightarrow> bool" where
  "row_moves r r' \<longleftrightarrow> same_instance r r' \<and> life\<^sup>*\<^sup>* (phase r) (phase r')"

lemma row_moves_refl [simp]: "row_moves r r"
  by (simp add: row_moves_def)

lemma row_moves_trans: "row_moves r s \<Longrightarrow> row_moves s t \<Longrightarrow> row_moves r t"
  unfolding row_moves_def same_instance_def by (metis rtranclp_trans)

lemma row_moves_step: "same_instance r r' \<Longrightarrow> life (phase r) (phase r') \<Longrightarrow> row_moves r r'"
  by (simp add: row_moves_def)

lemma row_moves_stay: "same_instance r r' \<Longrightarrow> phase r' = phase r \<Longrightarrow> row_moves r r'"
  by (simp add: row_moves_def)

definition rows_move :: "odb \<Rightarrow> odb \<Rightarrow> bool" where
  "rows_move d d' \<longleftrightarrow>
     (\<forall>i. case instance_of d i of
            Some r \<Rightarrow> (\<exists>r'. instance_of d' i = Some r' \<and> row_moves r r')
          | None \<Rightarrow> (\<forall>r'. instance_of d' i = Some r' \<longrightarrow> life\<^sup>*\<^sup>* (DbQueued, 0) (phase r')))"

lemma rows_move_eq: "instances d' = instances d \<Longrightarrow> rows_move d d'"
  by (auto simp: rows_move_def split: option.splits)

lemma rows_move_trans:
  assumes "rows_move d d1" and "rows_move d1 d2"
  shows "rows_move d d2"
  unfolding rows_move_def
proof
  fix i
  note a = assms [unfolded rows_move_def, THEN spec [of _ i]]
  show "case instance_of d i of Some r \<Rightarrow> (\<exists>r'. instance_of d2 i = Some r' \<and> row_moves r r')
      | None \<Rightarrow> (\<forall>r'. instance_of d2 i = Some r' \<longrightarrow> life\<^sup>*\<^sup>* (DbQueued, 0) (phase r'))"
  proof (cases "instance_of d i")
    case None
    show ?thesis
    proof (cases "instance_of d1 i")
      case (Some s)
      with None a obtain t where "instance_of d2 i = Some t" "row_moves s t"
        and "life\<^sup>*\<^sup>* (DbQueued, 0) (phase s)" by auto
      with None show ?thesis by (auto simp: row_moves_def)
    qed (use None a in auto)
  next
    case (Some r)
    with a(1) obtain s where "instance_of d1 i = Some s" "row_moves r s" by auto
    with a(2) Some show ?thesis by (auto intro: row_moves_trans)
  qed
qed

lemma writes_row_moves:
  assumes "writes_row i r r' d d'" and "row_moves r r'"
  shows "rows_move d d'"
  unfolding rows_move_def
proof
  fix j
  show "case instance_of d j of Some s \<Rightarrow> (\<exists>s'. instance_of d' j = Some s' \<and> row_moves s s')
      | None \<Rightarrow> (\<forall>s'. instance_of d' j = Some s' \<longrightarrow> life\<^sup>*\<^sup>* (DbQueued, 0) (phase s'))"
    using assms by (cases "j = i") (auto simp: writes_row_def split: option.split)
qed

lemma fenced_moves:
  assumes "fenced x st f d d'" and "\<And>r. di_status r = st \<Longrightarrow> row_moves r (f r)"
  shows "rows_move d d'"
  using assms by (auto simp: fenced_def intro: writes_row_moves dest: ownerD(2))

section \<open>The transactions follow it\<close>

lemma fenced_cases_move:
  assumes "\<not> b \<and> d' = d \<or> b \<and> fenced x st f d d' \<and> Q"
    and "\<And>r. di_status r = st \<Longrightarrow> same_instance r (f r) \<and> (phase (f r) = phase r \<or> life (phase r) (phase (f r)))"
  shows "rows_move d d'"
proof -
  have "row_moves r (f r)" if "di_status r = st" for r
    using assms(2) [OF that] row_moves_stay row_moves_step by blast
  with assms(1) show ?thesis by (auto intro: fenced_moves rows_move_eq)
qed

lemma recordProvisioned_moves:
  assumes "distinct (map fst (instances d))" and "recordProvisioned x p now d = Inr (b, d')"
  shows "rows_move d d'"
  by (rule fenced_cases_move [OF recordProvisioned_effect [OF assms]])
    (simp add: same_instance_def phase_def provisioned_row_def life_provisioned)

lemma recordHealthCheck_moves:
  assumes "distinct (map fst (instances d))" and "recordHealthCheck x msg now d = Inr (b, d')"
  shows "rows_move d d'"
  by (rule fenced_cases_move [OF recordHealthCheck_effect [OF assms]])
    (simp add: same_instance_def phase_def)

lemma startMigration_moves:
  assumes "distinct (map fst (instances d))" and "startMigration x now d = Inr (b, d')"
  shows "rows_move d d'"
  by (rule fenced_cases_move [OF startMigration_effect [OF assms]])
    (simp add: same_instance_def phase_def life_migrating)

lemma completeMigration_moves:
  assumes "distinct (map fst (instances d))" and "completeMigration x reports now d = Inr (b, d')"
  shows "rows_move d d'"
  by (rule fenced_cases_move [OF completeMigration_effect [OF assms]])
    (simp add: same_instance_def phase_def life_ready)

lemma completeDestroy_moves:
  assumes "distinct (map fst (instances d))" and "completeDestroy x now d = Inr (b, d')"
  shows "rows_move d d'"
  by (rule fenced_cases_move [OF completeDestroy_effect [OF assms]])
    (simp add: same_instance_def phase_def life_deleted)

lemma failed_row_moves: "row_moves r (failed_row err now r)"
  by (intro row_moves_step) (simp_all add: same_instance_def phase_def failed_row_def life_fail)

lemma fail_operation_moves:
  assumes "distinct (map fst (instances d))" and "fail_operation x err now d = Inr ((), d')"
  shows "rows_move d d'"
  using fail_operation_effect(5) [OF assms] by (auto intro: rows_move_eq writes_row_moves failed_row_moves)

text \<open>The claim: what it writes and the record it hands out.\<close>

definition claimed_row :: "db_command \<Rightarrow> time \<Rightarrow> db_instance \<Rightarrow> db_instance" where
  "claimed_row c now r =
     (case c of
        CmdDestroy \<Rightarrow> r\<lparr>di_lastHeartbeatAt := Some now, di_attempt := di_attempt r + 1\<rparr>
      | CmdProvision \<Rightarrow> r\<lparr>di_status := DbProvisioning, di_attempt := di_attempt r + 1,
                          di_lastHeartbeatAt := Some now, di_error := None\<rparr>)"

lemma artifact_ofD: "artifact_of d r = Some (a, m) \<Longrightarrow> di_migrationArtifactId r = Some a"
  by (auto simp: artifact_of_def split: option.splits)

lemma claim_effect:
  assumes "claim job now d = Inr (c, d')"
  shows "(\<forall>x. c \<noteq> ClaimReady x) \<and> d' = d \<or>
    (\<exists>r x a. c = ClaimReady x \<and> instance_of d (dj_databaseInstanceId job) = Some r \<and>
       di_operationId r = dj_operationId job \<and> di_operationVersion r = dj_operationVersion job \<and>
       di_migrationArtifactId r = Some a \<and>
       (case dj_command job of CmdDestroy \<Rightarrow> di_status r = DbDeleting
        | CmdProvision \<Rightarrow> di_status r \<notin> set claim_stale_statuses) \<and>
       writes_row (dj_databaseInstanceId job) r (claimed_row (dj_command job) now r) d d' \<and>
       de_id x = dj_databaseInstanceId job \<and> de_operationId x = di_operationId r \<and>
       de_operationVersion x = di_operationVersion r \<and> de_artifactId x = a \<and>
       de_externalId x = di_externalId r \<and> de_connectionSecretRef x = di_connectionSecretRef r \<and>
       side_tables d' = side_tables d \<and> secrets d' = secrets d \<and> migration_runs d' = migration_runs d)"
proof (cases "\<exists>x. c = ClaimReady x")
  case False
  then show ?thesis
    using assms
    by (auto simp: claim_def Let_def bind_res_Inr_iff split: option.splits if_splits db_command.splits)
next
  case True
  let ?i = "dj_databaseInstanceId job"
  obtain r where r: "instance_of d ?i = Some r" "di_operationId r = dj_operationId job"
    "di_operationVersion r = dj_operationVersion job" "artifact_of d r \<noteq> None" "di_region r \<noteq> None"
    using assms True by (auto simp: claim_def Let_def split: option.splits if_splits)
  then obtain a m reg where am: "artifact_of d r = Some (a, m)" "di_region r = Some reg" by auto
  note am = am artifact_ofD [OF am(1)]
  note tx = assms [unfolded claim_def Let_def]
  let ?r' = "claimed_row (dj_command job) now r"
  let ?d1 = "set_instance ?i ?r' d"
  have w: "writes_row ?i r ?r' d ?d1" by (rule writes_row_set [OF r(1)])
  have art: "artifact_of ?d1 ?r' = Some (a, m)" if "dj_command job = CmdProvision"
    using am that by (simp add: artifact_of_def claimed_row_def set_instance_def)
  show ?thesis
  proof (cases "dj_command job")
    case CmdDestroy
    with tx r am True obtain x where "di_status r = DbDeleting" "toExecutionRecord ?i r (Some (a, m)) = Inr x"
      "c = ClaimReady x" "d' = ?d1"
      by (auto simp: bind_res_Inr_iff claimed_row_def split: if_splits)
    with r am w CmdDestroy show ?thesis
      by (auto simp: toExecutionRecord_def side_tables_def set_instance_def)
  next
    case CmdProvision
    with tx r am True art obtain x where st: "di_status r \<notin> set claim_stale_statuses"
      and x: "toExecutionRecord ?i ?r' (Some (a, m)) = Inr x" "c = ClaimReady x"
      and ev: "appendStatusEvent x DbProvisioning ''Supabase provisioning started or reconciled'' ?d1 = Inr d'"
      by (auto simp: bind_res_Inr_iff claimed_row_def split: if_splits)
    have w': "writes_row ?i r ?r' d d'"
      by (rule writes_row_append [OF w ev [unfolded appendStatusEvent_def]])
    have rest: "side_tables d' = side_tables d" "secrets d' = secrets d" "migration_runs d' = migration_runs d"
      using append_status_frame [OF ev [unfolded appendStatusEvent_def]]
      by (simp_all add: side_tables_def set_instance_def)
    have xs: "de_id x = ?i" "de_operationId x = di_operationId r" "de_operationVersion x = di_operationVersion r"
      "de_artifactId x = a" "de_externalId x = di_externalId r" "de_connectionSecretRef x = di_connectionSecretRef r"
      using x(1) am CmdProvision by (auto simp: toExecutionRecord_def claimed_row_def)
    show ?thesis using r am w' rest xs x(2) st CmdProvision by auto
  qed
qed

lemma claim_moves:
  assumes "claim job now d = Inr (c, d')"
  shows "rows_move d d'"
proof -
  have "row_moves r (claimed_row (dj_command job) now r)"
    if "case dj_command job of CmdDestroy \<Rightarrow> di_status r = DbDeleting
        | CmdProvision \<Rightarrow> di_status r \<notin> set claim_stale_statuses" for r
  proof (cases "dj_command job")
    case CmdDestroy
    then show ?thesis by (intro row_moves_stay) (simp_all add: same_instance_def phase_def claimed_row_def)
  next
    case CmdProvision
    then show ?thesis using that
      by (intro row_moves_step) (simp_all add: same_instance_def phase_def claimed_row_def life_claim)
  qed
  with claim_effect [OF assms] show ?thesis by (auto intro: rows_move_eq writes_row_moves)
qed

lemma appendRunEvent_db_frame:
  assumes "appendRunEvent_db run i r st msg d = Inr d'"
  shows "instances d' = instances d" "integrations d' = integrations d" "secrets d' = secrets d"
    "migration_runs d' = migration_runs d" "sweeps d' = sweeps d" "findings d' = findings d"
    "od_next d' = od_next d"
  using assms by (auto simp: appendRunEvent_db_def Let_def split: option.splits if_splits)

text \<open>Control API: a created row is fresh and queued, at version 0.\<close>

definition fresh_row :: "uuid \<Rightarrow> db_instance \<Rightarrow> bool" where
  "fresh_row i r \<longleftrightarrow> phase r = (DbQueued, 0) \<and> di_operationId r = Suc i \<and> di_externalId r = None \<and>
     di_connectionSecretRef r = None \<and> di_recoveryCount r = 0 \<and>
     (\<exists>a. di_migrationArtifactId r = Some a) \<and> (\<exists>g. di_region r = Some g)"

lemma upsert_integration_frame:
  assumes "upsert_integration cred w pid d = (c, d1)"
  shows "instances d1 = instances d" "secrets d1 = secrets d" "migration_runs d1 = migration_runs d"
    "sweeps d1 = sweeps d" "findings d1 = findings d" "od_next d \<le> od_next d1" "od_main d1 = od_main d"
  using assms by (auto simp: upsert_integration_def split: option.splits)

lemma create_database_effect:
  assumes "create_database_tx cred u pid key inp now d = Inr (res, d')"
  shows "(\<forall>x. res \<noteq> CreatedDatabase x False) \<and> d' = d \<or>
    (\<exists>i r x. res = CreatedDatabase x False \<and> dr_id x = i \<and> dr_status x = DbQueued \<and>
       instance_with_key key d = None \<and> fresh_row i r \<and> di_idempotencyKey r = key \<and>
       di_projectId r = pid \<and> di_migrationArtifactId r = Some (pv_migrationArtifactId inp) \<and>
       od_next d \<le> i \<and> instances d' = instances d @ [(i, r)] \<and> od_next d' = i + 2 \<and>
       secrets d' = secrets d \<and> migration_runs d' = migration_runs d \<and>
       sweeps d' = sweeps d \<and> findings d' = findings d)"
proof (cases "\<exists>x. res = CreatedDatabase x False")
  case False
  then show ?thesis
    using assms
    by (auto simp: create_database_tx_def replay_database_def Let_def bind_res_Inr_iff
        split: option.splits if_splits prod.splits)
next
  case True
  have none: "instance_with_key key d = None"
    using assms True
    by (auto simp: create_database_tx_def replay_database_def bind_res_Inr_iff split: option.splits if_splits)
  obtain p art where p: "getProject u pid (od_main d) = Some p"
    and art: "map_of (artifacts (od_main d)) (pv_migrationArtifactId inp) = Some art"
    "ma_projectId art = pid" "ma_status art = VALIDATED" "\<not> (ma_destructive art \<and> \<not> pv_approveDestructiveChanges inp)"
    using assms True none
    by (auto simp: create_database_tx_def Let_def split: option.splits if_splits)
  obtain c d1 where up: "upsert_integration cred (pj_workspaceId p) pid d = (c, d1)" by fastforce
  let ?i = "od_next d1"
  let ?r = "new_instance (Suc ?i) pid p (pv_migrationArtifactId inp) art c key inp now"
  let ?d2 = "d1\<lparr>instances := instances d1 @ [(?i, ?r)], od_next := ?i + 2\<rparr>"
  obtain x d3 where ev: "appendRunEvent_db (ma_sourceRunId art) ?i ?r DbQueued
      ''Database provisioning queued after explicit confirmation'' ?d2 = Inr d3"
    and x: "toDatabaseRecord ?i ?r = Inr x" and res: "res = CreatedDatabase x False" and d': "d' = d3"
    using assms none p art True up
    by (auto simp: create_database_tx_def Let_def bind_res_Inr_iff)
  have "fresh_row ?i ?r" by (simp add: fresh_row_def new_instance_def phase_def)
  moreover have "dr_id x = ?i" "dr_status x = DbQueued"
    using x by (auto simp: toDatabaseRecord_def new_instance_def public_status_def)
  moreover have "di_idempotencyKey ?r = key" "di_projectId ?r = pid"
    "di_migrationArtifactId ?r = Some (pv_migrationArtifactId inp)" by (simp_all add: new_instance_def)
  ultimately show ?thesis
    using none res upsert_integration_frame [OF up] appendRunEvent_db_frame [OF ev] d'
    by (intro disjI2 exI [of _ ?i] exI [of _ ?r] exI [of _ x]) simp
qed

definition delete_requested :: "time \<Rightarrow> db_instance \<Rightarrow> db_instance" where
  "delete_requested now r = r\<lparr>di_status := DbDeleting, di_operationVersion := di_operationVersion r + 1,
     di_lastHeartbeatAt := Some now, di_error := None\<rparr>"

lemma requestDatabaseAction_effect:
  assumes "requestDatabaseAction u pid i now d = Inr (res, d')"
  shows "d' = d \<or>
    (\<exists>r x. res = DestroyAccepted x \<and> dr_operationVersion x = di_operationVersion r + 1 \<and>
       di_status r \<in> set destroyable_statuses \<and> writes_row i r (delete_requested now r) d d' \<and>
       side_tables d' = side_tables d \<and> secrets d' = secrets d \<and> migration_runs d' = migration_runs d)"
proof (cases "\<exists>r. instance_of d i = Some r \<and> di_projectId r = pid \<and> project_member (od_main d) u pid \<and>
    di_status r \<in> set destroyable_statuses \<and> di_status r \<noteq> DbDeleting \<and> di_status r \<noteq> DbDeleted")
  case False
  then show ?thesis
    using assms
    by (auto simp: requestDatabaseAction_def Let_def bind_res_Inr_iff split: option.splits if_splits)
next
  case True
  then obtain r where r: "instance_of d i = Some r" "di_projectId r = pid" "project_member (od_main d) u pid"
    "di_status r \<in> set destroyable_statuses" "di_status r \<noteq> DbDeleting" "di_status r \<noteq> DbDeleted" by blast
  let ?r' = "delete_requested now r"
  let ?d1 = "d\<lparr>instances := AList.update i ?r' (instances d)\<rparr>"
  have w: "writes_row i r ?r' d ?d1"
    using writes_row_set [OF r(1)] by (simp add: set_instance_def)
  obtain d2 x where ev: "(case artifact_of d r of None \<Rightarrow> Inr ?d1
        | Some (a, m) \<Rightarrow> appendRunEvent_db (ma_sourceRunId m) i ?r' DbDeleting
            ''Database deletion queued after explicit confirmation'' ?d1) = Inr d2"
    and x: "toDatabaseRecord i ?r' = Inr x" and res: "res = DestroyAccepted x" "d' = d2"
    using assms [unfolded requestDatabaseAction_def Let_def, folded delete_requested_def] r
    by (auto simp: bind_res_Inr_iff)
  have fr: "instances d2 = instances ?d1" "od_next d2 = od_next ?d1" "side_tables d2 = side_tables ?d1"
    "secrets d2 = secrets ?d1" "migration_runs d2 = migration_runs ?d1"
    using ev by (auto simp: side_tables_def appendRunEvent_db_frame split: option.splits)
  have "dr_operationVersion x = di_operationVersion r + 1"
    using x by (auto simp: toDatabaseRecord_def delete_requested_def split: option.splits)
  moreover have "writes_row i r ?r' d d2" by (rule writes_row_cong [OF w]) (simp_all add: fr)
  ultimately show ?thesis using r res fr by (auto simp: side_tables_def)
qed

lemma markDatabaseOperationFailed_effect:
  assumes "distinct (map fst (instances d))"
  shows "markDatabaseOperationFailed i oid v err now d = d \<or>
    (\<exists>r. di_operationVersion r = v \<and>
       writes_row i r (failed_row err now r) d (markDatabaseOperationFailed i oid v err now d))"
    "side_tables (markDatabaseOperationFailed i oid v err now d) = side_tables d"
    "secrets (markDatabaseOperationFailed i oid v err now d) = secrets d"
    "migration_runs (markDatabaseOperationFailed i oid v err now d) = migration_runs d"
proof -
  obtain n d1 where u: "update_instances (owned_by i oid v) (failed_row err now) d = (n, d1)" by fastforce
  have d1: "markDatabaseOperationFailed i oid v err now d = d1"
    using u by (simp add: markDatabaseOperationFailed_def failed_row_def [abs_def])
  have "n \<noteq> 1 \<and> d1 = d \<or>
      n = 1 \<and> (\<exists>r. owned_by i oid v (i, r) \<and> writes_row i r (failed_row err now r) d d1)"
    using update_one [OF assms _ u, of i] owned_key(1) by blast
  then show "markDatabaseOperationFailed i oid v err now d = d \<or>
    (\<exists>r. di_operationVersion r = v \<and>
       writes_row i r (failed_row err now r) d (markDatabaseOperationFailed i oid v err now d))"
    unfolding d1 by (auto simp: owned_by_def)
  show "side_tables (markDatabaseOperationFailed i oid v err now d) = side_tables d"
    "secrets (markDatabaseOperationFailed i oid v err now d) = secrets d"
    "migration_runs (markDatabaseOperationFailed i oid v err now d) = migration_runs d"
    unfolding d1 using update_frame [OF u] by (simp_all add: side_tables_def)
qed

text \<open>The reconciler: findings never touch the rows of databases.\<close>

lemma observeFinding_frame:
  assumes "observeFinding hash i d = (kf, d')"
  shows "instances d' = instances d" "secrets d' = secrets d" "migration_runs d' = migration_runs d"
    "sweeps d' = sweeps d" "od_next d \<le> od_next d'" "od_main d' = od_main d"
  using assms by (auto simp: observeFinding_def Let_def set_finding_def split: option.splits)

lemma append_if_artifact_frame:
  assumes "append_if_artifact ir v st msg d = Inr d'"
  shows "instances d' = instances d" "secrets d' = secrets d" "migration_runs d' = migration_runs d"
    "sweeps d' = sweeps d" "findings d' = findings d" "od_next d' = od_next d"
  using assms append_status_frame by (auto simp: append_if_artifact_def split: option.splits)

definition exhausted_row :: "time \<Rightarrow> db_instance \<Rightarrow> db_instance" where
  "exhausted_row now q = q\<lparr>di_status := DbFailed, di_lastReconciledAt := Some now, di_lastHeartbeatAt := Some now,
     di_error := Some exhausted_error\<rparr>"

definition fenced_row :: "nat \<Rightarrow> time \<Rightarrow> db_instance \<Rightarrow> db_instance" where
  "fenced_row v now q = q\<lparr>di_operationVersion := v, di_recoveryCount := di_recoveryCount q + 1,
     di_lastReconciledAt := Some now, di_lastHeartbeatAt := Some now\<rparr>"

text \<open>What one candidate of the recovery comes to.\<close>

definition recovery_job :: "uuid \<Rightarrow> db_instance \<Rightarrow> database_job" where
  "recovery_job i r = \<lparr>dj_operationId = di_operationId r, dj_databaseInstanceId = i,
     dj_command = (if di_status r = DbDeleting then CmdDestroy else CmdProvision),
     dj_operationVersion = di_operationVersion r + 1\<rparr>"

lemma recover_one_effect:
  assumes keys: "distinct (map fst (instances d))"
    and tx: "recover_one hash k now m (i, r) d = Inr ((js, n), d')"
  shows "secrets d' = secrets d \<and> migration_runs d' = migration_runs d \<and> sweeps d' = sweeps d \<and>
    (js = [] \<and> n = 0 \<and> d' = d \<or>
     js = [] \<and> n = 1 \<and> m \<le> di_recoveryCount r \<and>
       (\<exists>q. di_recoveryCount q = di_recoveryCount r \<and> writes_row i q (exhausted_row now q) d d') \<or>
     js = [recovery_job i r] \<and> n = 0 \<and> di_recoveryCount r < m \<and> findings d' = findings d \<and>
       (\<exists>q. phase q = phase r \<and> di_recoveryCount q = di_recoveryCount r \<and>
            writes_row i q (fenced_row (di_operationVersion r + 1) now q) d d'))"
proof -
  consider (skip) "di_status r = DbFailed \<and> \<not> retryable_json (di_error r)"
    | (exhaust) "\<not> (di_status r = DbFailed \<and> \<not> retryable_json (di_error r))" "m \<le> di_recoveryCount r"
    | (recover) "\<not> (di_status r = DbFailed \<and> \<not> retryable_json (di_error r))" "di_recoveryCount r < m"
    by linarith
  then show ?thesis
  proof cases
    case skip
    with tx show ?thesis by (simp add: recover_one_def)
  next
    case exhaust
    let ?q = "\<lambda>(j, q). j = i \<and> di_operationVersion q = di_operationVersion r \<and> di_recoveryCount q = di_recoveryCount r"
    obtain c d1 where u: "update_instances ?q (exhausted_row now) d = (c, d1)" by fastforce
    note one = update_one [OF keys _ u, of i]
    note tx' = tx [unfolded recover_one_def Let_def fst_conv snd_conv, folded exhausted_row_def, unfolded u prod.case]
    show ?thesis
    proof (cases "c = 1")
      case True
      obtain kf d2 where ob: "observeFinding hash (exhausted_input k now (i, r)) d1 = (kf, d2)" by fastforce
      obtain ev: "append_if_artifact (i, r) (di_operationVersion r) DbFailed
          ''Automatic recovery attempts were exhausted; operator action is required'' d2 = Inr d'"
        and "js = []" "n = 1"
        using tx' exhaust True ob by (auto simp: bind_res_Inr_iff)
      obtain q where "di_recoveryCount q = di_recoveryCount r" and w: "writes_row i q (exhausted_row now q) d d1"
        using one True by auto
      moreover have "writes_row i q (exhausted_row now q) d d'"
        by (rule writes_row_cong [OF w])
          (simp_all add: append_if_artifact_frame [OF ev] observeFinding_frame [OF ob])
      ultimately show ?thesis
        using exhaust \<open>js = []\<close> \<open>n = 1\<close> append_if_artifact_frame [OF ev] observeFinding_frame [OF ob]
          update_frame [OF u] by auto
    next
      case False
      with one have "d1 = d" by auto
      with False tx' exhaust show ?thesis by auto
    qed
  next
    case recover
    let ?q = "\<lambda>(j, q). j = i \<and> di_operationVersion q = di_operationVersion r \<and>
        di_recoveryCount q = di_recoveryCount r \<and> di_status q = di_status r"
    obtain c d1 where u: "update_instances ?q (fenced_row (di_operationVersion r + 1) now) d = (c, d1)" by fastforce
    note one = update_one [OF keys _ u, of i]
    note tx' = tx [unfolded recover_one_def Let_def fst_conv snd_conv, folded fenced_row_def, unfolded u prod.case]
    show ?thesis
    proof (cases "c = 1")
      case True
      obtain st msg where ev: "append_if_artifact (i, r) (di_operationVersion r + 1) st msg d1 = Inr d'"
        and js: "js = [recovery_job i r]" "n = 0"
        using tx' recover True by (auto simp: bind_res_Inr_iff recovery_job_def)
      obtain q where q: "di_operationVersion q = di_operationVersion r" "di_recoveryCount q = di_recoveryCount r"
        "di_status q = di_status r"
        and w: "writes_row i q (fenced_row (di_operationVersion r + 1) now q) d d1"
        using one True by auto
      moreover have "writes_row i q (fenced_row (di_operationVersion r + 1) now q) d d'"
        by (rule writes_row_cong [OF w]) (simp_all add: append_if_artifact_frame [OF ev])
      ultimately show ?thesis
        using recover js append_if_artifact_frame [OF ev] update_frame [OF u]
        by (auto simp: phase_def)
    next
      case False
      with one have "d1 = d" by auto
      with False tx' recover show ?thesis by auto
    qed
  qed
qed

end
