(* ===== verification/Reconciler.thy ===== *)
theory Reconciler
  imports Reconciliation
begin

text \<open>
  \<open>DatabaseReconciler.reconcile\<close> of \<open>orchestrator-worker/src/database-reconciler.ts\<close>: one sweep.
  The provider and the recovery queue are parameters; other clients commit before every
  statement of the sweep (\<open>rc_env\<close>).
\<close>

record reconciler_options =
  rc_env :: "nat \<Rightarrow> odb \<Rightarrow> odb"
  rc_now :: "nat \<Rightarrow> time"
  rc_hash :: "string \<Rightarrow> string"
  rc_list :: "managed_resource list outcome"
  rc_enqueue :: "database_job \<Rightarrow> unit outcome"
  rc_destroy :: "string \<Rightarrow> unit outcome"
  rc_staleAfterMs :: int
  rc_orphanGraceMs :: int
  rc_abandonedSweepAfterMs :: int
  rc_maxRecoveryAttempts :: nat
  rc_recoveryBatchSize :: nat
  rc_cleanupApprovedOrphans :: bool

datatype reconcile_result = ReconcileCompleted sweep_summary | ReconcileLocked

definition rtx :: "reconciler_options \<Rightarrow> (time \<Rightarrow> 'a otx) \<Rightarrow> 'a op_act" where
  "rtx R = tx_step (rc_env R) (rc_now R)"

definition now_act :: "reconciler_options \<Rightarrow> time op_act" where
  "now_act R w = (Inr (rc_now R (ow_tick w)), w\<lparr>ow_tick := Suc (ow_tick w)\<rparr>)"

definition error_message :: "string \<Rightarrow> operation_error \<Rightarrow> string" where
  "error_message fallback e =
     (case e of
        DatabaseProviderError code msg r \<Rightarrow> msg
      | SecretStoreError code msg r \<Rightarrow> msg
      | DatabaseMigrationError msg step code \<Rightarrow> msg
      | OtherThrown t \<Rightarrow> thrown_message fallback t)"

definition toReconciliationError :: "operation_error \<Rightarrow> string \<Rightarrow> json" where
  "toReconciliationError e fallbackCode =
     (case e of
        DatabaseProviderError code msg r \<Rightarrow>
          JObj [(''code'', JStr code), (''message'', JStr msg), (''retryable'', JBool r)]
      | _ \<Rightarrow>
          JObj [(''code'', JStr fallbackCode),
                (''message'', JStr (error_message ''Unknown reconciliation error'' e)),
                (''retryable'', JBool True)])"

fun dispatch_loop :: "reconciler_options \<Rightarrow> database_job list \<Rightarrow> nat op_act" where
  "dispatch_loop R [] = return_act 0"
| "dispatch_loop R (j # js) =
     bind_act
       (catch_act (call_act (CallEnqueue j) (rc_enqueue R j))
          (\<lambda>e. bind_act (rtx R (recordRecoveryDispatchFailure j
                            (toReconciliationError e ''DATABASE_RECOVERY_ENQUEUE_FAILED'')))
                 (\<lambda>_. throw_act e))) (\<lambda>_.
     bind_act (dispatch_loop R js) (\<lambda>n. return_act (Suc n)))"

fun missing_loop_db :: "reconciler_options \<Rightarrow> uuid \<Rightarrow> string list \<Rightarrow> tracked_resource list \<Rightarrow> nat op_act" where
  "missing_loop_db R k present [] = return_act 0"
| "missing_loop_db R k present (t # ts) =
     (if tk_externalId t \<in> set present
      then bind_act (rtx R (resolveMissingResource (tk_databaseInstanceId t))) (\<lambda>_.
             missing_loop_db R k present ts)
      else bind_act (rtx R (observeMissingResource (rc_hash R) k t)) (\<lambda>_.
             bind_act (missing_loop_db R k present ts) (\<lambda>n. return_act (Suc n))))"

text \<open>One resource of the inventory: the orphans it counts and the resources it destroys.\<close>

definition clean_orphan :: "reconciler_options \<Rightarrow> uuid \<Rightarrow> string \<Rightarrow> orphan_observation \<Rightarrow> nat op_act" where
  "clean_orphan R k ext ob =
     bind_act (now_act R) (\<lambda>now.
       if \<not> rc_cleanupApprovedOrphans R \<or>
          \<not> (ob_status ob = F_APPROVED \<and> 2 \<le> ob_observationCount ob \<and> ob_cleanupAfter ob \<le> now)
       then return_act 0
       else
         bind_act (rtx R (claimOrphanCleanup k (ob_findingId ob) ext)) (\<lambda>claimed.
           if \<not> claimed then return_act 0
           else
             bind_act
               (catch_act (call_act (CallDestroy ext None) (rc_destroy R ext))
                  (\<lambda>e. bind_act (rtx R (releaseOrphanCleanupClaim (ob_findingId ob))) (\<lambda>_. throw_act e))) (\<lambda>_.
             bind_act (rtx R (resolveOrphanResource ext ''DELETED_AFTER_APPROVAL'')) (\<lambda>_.
             return_act 1))))"

definition orphan_step ::
    "reconciler_options \<Rightarrow> uuid \<Rightarrow> string list \<Rightarrow> managed_resource \<Rightarrow> (nat \<times> nat) op_act" where
  "orphan_step R k tracked m =
     (if mg_externalId m \<in> set tracked
      then bind_act (rtx R (resolveOrphanResource (mg_externalId m) ''ADOPTED'')) (\<lambda>_. return_act (0, 0))
      else
        bind_act (rtx R (observeOrphanResource (rc_hash R) k m (rc_orphanGraceMs R))) (\<lambda>ob.
        bind_act (clean_orphan R k (mg_externalId m) ob) (\<lambda>n. return_act (1, n))))"

fun orphan_loop ::
    "reconciler_options \<Rightarrow> uuid \<Rightarrow> string list \<Rightarrow> managed_resource list \<Rightarrow> (nat \<times> nat) op_act" where
  "orphan_loop R k tracked [] = return_act (0, 0)"
| "orphan_loop R k tracked (m # ms) =
     bind_act (orphan_step R k tracked m) (\<lambda>a.
     bind_act (orphan_loop R k tracked ms) (\<lambda>b.
     return_act (fst a + fst b, snd a + snd b)))"

definition sweep_body :: "reconciler_options \<Rightarrow> uuid \<Rightarrow> time \<Rightarrow> reconcile_result op_act" where
  "sweep_body R k staleBefore =
     bind_act (call_act CallListResources (rc_list R)) (\<lambda>ms.
     bind_act (rtx R (\<lambda>_ d. Inr (listTrackedResources d, d))) (\<lambda>ts.
     bind_act (rtx R (recoverStaleOperations (rc_hash R) k staleBefore (rc_maxRecoveryAttempts R)
                        (rc_recoveryBatchSize R))) (\<lambda>plan.
     bind_act (dispatch_loop R (fst plan)) (\<lambda>recovered.
     bind_act (missing_loop_db R k (map mg_externalId ms) ts) (\<lambda>missing.
     bind_act (orphan_loop R k (map tk_externalId ts) ms) (\<lambda>orphans.
     bind_act (rtx R (resolveUnseenOrphanResources (map mg_externalId ms))) (\<lambda>_.
     let summary = \<lparr>su_recoveredOperations = recovered, su_exhaustedOperations = snd plan,
                    su_missingResources = missing, su_orphanCandidates = fst orphans,
                    su_cleanedResources = snd orphans\<rparr>
     in bind_act (rtx R (completeSweep k summary)) (\<lambda>_. return_act (ReconcileCompleted summary)))))))))"

definition reconcile :: "reconciler_options \<Rightarrow> reconcile_result op_act" where
  "reconcile R =
     bind_act (now_act R) (\<lambda>startedAt.
     bind_act (rtx R (\<lambda>_. beginSweep
        \<lparr>si_staleBefore = startedAt - rc_staleAfterMs R,
         si_orphanGraceBefore = startedAt - rc_orphanGraceMs R,
         si_abandonedSweepBefore = startedAt - rc_abandonedSweepAfterMs R,
         si_dryRun = \<not> rc_cleanupApprovedOrphans R\<rparr> startedAt)) (\<lambda>k.
       case k of
         None \<Rightarrow> return_act ReconcileLocked
       | Some sweepId \<Rightarrow>
           catch_act (sweep_body R sweepId (startedAt - rc_staleAfterMs R))
             (\<lambda>e. bind_act
                (catch_act (rtx R (failSweep sweepId (toReconciliationError e ''DATABASE_RECONCILIATION_FAILED'')))
                   (\<lambda>_. return_act ())) (\<lambda>_. throw_act e))))"

end
