(* ===== verification/DatabaseSteps.thy ===== *)
theory DatabaseSteps
  imports DatabaseLife Reconciler
begin

text \<open>
  All transactions on provisioned databases as one step relation: those of the control API,
  those of a worker that executes a job, those of the reconciler and of the operator who
  approves a cleanup, and whatever else is committed to the other tables of the store. The
  refinement of the life cycle and the invariant of the tables hold along every sequence of
  steps.

  A worker transaction carries the record its claim returned; \<open>executes\<close> is what stays true of
  such a record: its row, operation and artifact, at the current version or an older one.
\<close>

section \<open>Steps\<close>

definition executes :: "odb \<Rightarrow> execution_record \<Rightarrow> bool" where
  "executes d x \<longleftrightarrow> (\<exists>r. instance_of d (de_id x) = Some r \<and> di_operationId r = de_operationId x \<and>
     di_migrationArtifactId r = Some (de_artifactId x) \<and> de_operationVersion x \<le> di_operationVersion r)"

inductive db_step :: "(string \<Rightarrow> string) \<Rightarrow> odb \<Rightarrow> odb \<Rightarrow> bool" for hash where
  step_others: "db_step hash d (d\<lparr>od_main := m\<rparr>)"
| step_create: "create_database_tx cred u pid key inp now d = Inr (res, d') \<Longrightarrow> db_step hash d d'"
| step_request: "requestDatabaseAction u pid i now d = Inr (res, d') \<Longrightarrow> db_step hash d d'"
| step_unqueued: "db_step hash d (markDatabaseOperationFailed i oid v err now d)"
| step_claim: "claim job now d = Inr (c, d') \<Longrightarrow> db_step hash d d'"
| step_provisioned: "executes d x \<Longrightarrow> recordProvisioned x p now d = Inr (b, d') \<Longrightarrow> db_step hash d d'"
| step_health: "executes d x \<Longrightarrow> recordHealthCheck x msg now d = Inr (b, d') \<Longrightarrow> db_step hash d d'"
| step_migrate: "executes d x \<Longrightarrow> startMigration x now d = Inr (b, d') \<Longrightarrow> db_step hash d d'"
| step_migrated: "executes d x \<Longrightarrow> completeMigration x reports now d = Inr (b, d') \<Longrightarrow> db_step hash d d'"
| step_destroyed: "executes d x \<Longrightarrow> completeDestroy x now d = Inr (b, d') \<Longrightarrow> db_step hash d d'"
| step_failed: "executes d x \<Longrightarrow> fail_operation x err now d = Inr (y, d') \<Longrightarrow> db_step hash d d'"
| step_begin_sweep: "beginSweep si now d = Inr (k, d') \<Longrightarrow> db_step hash d d'"
| step_recover: "recoverStaleOperations hash k stale m limit now d = Inr (plan, d') \<Longrightarrow> db_step hash d d'"
| step_undispatched: "recordRecoveryDispatchFailure job err now d = Inr (y, d') \<Longrightarrow> db_step hash d d'"
| step_missing: "observeMissingResource hash k t now d = Inr (y, d') \<Longrightarrow> db_step hash d d'"
| step_present: "resolveMissingResource i now d = Inr (y, d') \<Longrightarrow> db_step hash d d'"
| step_orphan: "observeOrphanResource hash k mg grace now d = Inr (ob, d') \<Longrightarrow> db_step hash d d'"
| step_claim_orphan: "claimOrphanCleanup k f ext now d = Inr (b, d') \<Longrightarrow> db_step hash d d'"
| step_release_orphan: "releaseOrphanCleanupClaim f now d = Inr (y, d') \<Longrightarrow> db_step hash d d'"
| step_resolve_orphan: "resolveOrphanResource ext why now d = Inr (y, d') \<Longrightarrow> db_step hash d d'"
| step_unseen_orphans: "resolveUnseenOrphanResources seen now d = Inr (y, d') \<Longrightarrow> db_step hash d d'"
| step_complete_sweep: "completeSweep k summary now d = Inr (y, d') \<Longrightarrow> db_step hash d d'"
| step_fail_sweep: "failSweep k err now d = Inr (y, d') \<Longrightarrow> db_step hash d d'"
| step_approve: "approveOrphanCleanup f ext op now d = Inr (ans, d') \<Longrightarrow> db_step hash d d'"

section \<open>Keys\<close>

definition keys_fresh :: "odb \<Rightarrow> bool" where
  "keys_fresh d \<longleftrightarrow> distinct (map fst (instances d)) \<and> (\<forall>i \<in> set (map fst (instances d)). i < od_next d)"

lemma keys_freshD: "keys_fresh d \<Longrightarrow> distinct (map fst (instances d))"
  by (simp add: keys_fresh_def)

lemma keys_fresh_eq:
  "keys_fresh d \<Longrightarrow> instances d' = instances d \<Longrightarrow> od_next d \<le> od_next d' \<Longrightarrow> keys_fresh d'"
  by (auto simp: keys_fresh_def)

lemma keys_fresh_write: "keys_fresh d \<Longrightarrow> writes_row i r r' d d' \<Longrightarrow> keys_fresh d'"
  unfolding keys_fresh_def writes_row_def by (metis order_less_le_trans)

text \<open>Steps of the reconciler that touch only its own tables.\<close>

definition rows_kept :: "odb \<Rightarrow> odb \<Rightarrow> bool" where
  "rows_kept d d' \<longleftrightarrow> instances d' = instances d \<and> secrets d' = secrets d \<and>
     migration_runs d' = migration_runs d \<and> od_next d \<le> od_next d'"

lemma update_side_kept:
  "rows_kept d (snd (update_findings q f d))" "rows_kept d (snd (update_sweeps q' g d))"
  by (simp_all add: rows_kept_def update_findings_def update_sweeps_def)

lemma reconciler_rows_kept:
  "beginSweep si now d = Inr (k, d') \<Longrightarrow> rows_kept d d'"
  "resolveMissingResource i now d = Inr (y, d') \<Longrightarrow> rows_kept d d'"
  "observeOrphanResource hash k0 mg grace now d = Inr (ob, d') \<Longrightarrow> rows_kept d d'"
  "claimOrphanCleanup k1 f ext now d = Inr (b, d') \<Longrightarrow> rows_kept d d'"
  "releaseOrphanCleanupClaim f now d = Inr (y, d') \<Longrightarrow> rows_kept d d'"
  "resolveOrphanResource ext why now d = Inr (y, d') \<Longrightarrow> rows_kept d d'"
  "resolveUnseenOrphanResources seen now d = Inr (y, d') \<Longrightarrow> rows_kept d d'"
  "completeSweep k1 summary now d = Inr (y, d') \<Longrightarrow> rows_kept d d'"
  "failSweep k1 err now d = Inr (y, d') \<Longrightarrow> rows_kept d d'"
  "approveOrphanCleanup f ext op now d = Inr (ans, d') \<Longrightarrow> rows_kept d d'"
  unfolding beginSweep_def resolveMissingResource_def observeOrphanResource_def claimOrphanCleanup_def
    releaseOrphanCleanupClaim_def resolveOrphanResource_def resolveUnseenOrphanResources_def
    completeSweep_def failSweep_def approveOrphanCleanup_def
  subgoal by (auto simp: rows_kept_def Let_def update_findings_def update_sweeps_def split: if_splits)
  subgoal by (auto simp: rows_kept_def update_findings_def)
  subgoal by (auto simp: rows_kept_def dest: observeFinding_frame split: prod.splits option.splits)
  subgoal by (auto simp: rows_kept_def update_findings_def split: option.splits if_splits)
  subgoal by (auto simp: rows_kept_def update_findings_def)
  subgoal by (auto simp: rows_kept_def update_findings_def)
  subgoal by (auto simp: rows_kept_def update_findings_def)
  subgoal by (auto simp: rows_kept_def update_sweeps_def)
  subgoal by (auto simp: rows_kept_def update_sweeps_def)
  subgoal by (auto simp: rows_kept_def update_findings_def split: option.splits if_splits)
  done

section \<open>The remaining transactions follow the life cycle\<close>

lemma exhausted_row_moves: "row_moves q (exhausted_row now q)"
  by (intro row_moves_step) (simp_all add: same_instance_def phase_def exhausted_row_def life_fail)

lemma fenced_row_moves:
  "di_operationVersion q = v \<Longrightarrow> di_status q \<in> set RECOVERABLE_STATUSES \<Longrightarrow> row_moves q (fenced_row (v + 1) now q)"
  by (intro row_moves_step) (simp_all add: same_instance_def phase_def fenced_row_def life_recover)

lemma stale_candidates_sub:
  assumes "ir \<in> set (stale_candidates stale limit d)"
  shows "ir \<in> set (instances d)" and "di_status (snd ir) \<in> set RECOVERABLE_STATUSES"
  using in_set_takeD [OF assms [unfolded stale_candidates_def Let_def]] by auto

lemma recover_one_moves:
  assumes "keys_fresh d" and "recover_one hash k now m ir d = Inr (res, d')"
    and "di_status (snd ir) \<in> set RECOVERABLE_STATUSES"
  shows "rows_move d d' \<and> keys_fresh d'"
proof -
  obtain i r js n where p: "ir = (i, r)" "res = (js, n)" by (metis surj_pair)
  from recover_one_effect [OF keys_freshD [OF assms(1)] assms(2) [unfolded p]]
  consider (same) "d' = d"
    | (exhausted) q where "writes_row i q (exhausted_row now q) d d'"
    | (fenced) q where "phase q = phase r" "writes_row i q (fenced_row (di_operationVersion r + 1) now q) d d'"
    by blast
  then show ?thesis
  proof cases
    case fenced
    then have "row_moves q (fenced_row (di_operationVersion r + 1) now q)"
      using assms(3) p by (intro fenced_row_moves) (auto simp: phase_def)
    with fenced(2) assms(1) show ?thesis by (auto intro: writes_row_moves keys_fresh_write)
  qed (use assms(1) in \<open>auto intro: rows_move_eq writes_row_moves exhausted_row_moves keys_fresh_write\<close>)
qed

lemma recover_loop_moves:
  "keys_fresh d \<Longrightarrow> recover_loop hash k now m irs d = Inr (res, d') \<Longrightarrow>
     \<forall>ir \<in> set irs. di_status (snd ir) \<in> set RECOVERABLE_STATUSES \<Longrightarrow> rows_move d d' \<and> keys_fresh d'"
proof (induction irs arbitrary: d res)
  case Nil
  then show ?case by (simp add: rows_move_eq)
next
  case (Cons ir irs)
  obtain res1 d1 res2 where a: "recover_one hash k now m ir d = Inr (res1, d1)"
    and b: "recover_loop hash k now m irs d1 = Inr (res2, d')"
    using Cons.prems(2) by (auto simp: bind_res_Inr_iff)
  have "rows_move d d1 \<and> keys_fresh d1"
    by (rule recover_one_moves [OF Cons.prems(1) a]) (use Cons.prems(3) in simp)
  moreover then have "rows_move d1 d' \<and> keys_fresh d'"
    using Cons.IH [OF _ b] Cons.prems(3) by simp
  ultimately show ?case by (blast intro: rows_move_trans)
qed

lemma undispatched_moves:
  assumes "recordRecoveryDispatchFailure job err now d = Inr (y, d')"
  shows "d' = d \<or> (\<exists>r r'. writes_row (dj_databaseInstanceId job) r r' d d' \<and> row_moves r r' \<and>
      di_status r' = DbFailed \<and> di_externalId r' = di_externalId r \<and>
      di_connectionSecretRef r' = di_connectionSecretRef r) \<and> secrets d' = secrets d \<and>
    migration_runs d' = migration_runs d \<and> side_tables d' = side_tables d"
proof (cases "\<exists>r. instance_of d (dj_databaseInstanceId job) = Some r \<and>
    di_operationId r = dj_operationId job \<and> di_operationVersion r = dj_operationVersion job")
  case False
  then show ?thesis
    using assms by (auto simp: recordRecoveryDispatchFailure_def split: option.splits if_splits)
next
  case True
  then obtain r where r: "instance_of d (dj_databaseInstanceId job) = Some r"
    "di_operationId r = dj_operationId job" "di_operationVersion r = dj_operationVersion job" by blast
  let ?r' = "r\<lparr>di_status := DbFailed, di_error := Some err, di_lastHeartbeatAt := Some now,
      di_lastReconciledAt := Some now\<rparr>"
  let ?d1 = "set_instance (dj_databaseInstanceId job) ?r' d"
  have ev: "append_if_artifact (dj_databaseInstanceId job, r) (di_operationVersion r) DbFailed
      ''Recovery dispatch failed before a worker could claim it'' ?d1 = Inr d'"
    using assms r by (auto simp: recordRecoveryDispatchFailure_def bind_res_Inr_iff)
  note fr = append_if_artifact_frame [OF ev]
  have "writes_row (dj_databaseInstanceId job) r ?r' d d'"
    by (rule writes_row_cong [OF writes_row_set [OF r(1)]]) (simp_all add: fr)
  moreover have "row_moves r ?r'"
    by (intro row_moves_step) (simp_all add: same_instance_def phase_def life_fail)
  moreover have "side_tables d' = side_tables d" "secrets d' = secrets d" "migration_runs d' = migration_runs d"
  proof -
    have "integrations d' = integrations ?d1"
      using ev append_status_frame(2) by (auto simp: append_if_artifact_def split: option.splits)
    then show "side_tables d' = side_tables d" "secrets d' = secrets d" "migration_runs d' = migration_runs d"
      by (simp_all add: side_tables_def fr set_instance_def)
  qed
  ultimately show ?thesis by (intro disjI2 conjI exI [of _ r] exI [of _ ?r']) simp_all
qed

definition missing_row :: "time \<Rightarrow> db_instance \<Rightarrow> db_instance" where
  "missing_row now r = r\<lparr>di_status := DbFailed, di_lastReconciledAt := Some now, di_error := Some missing_error\<rparr>"

lemma missing_row_moves: "row_moves r (missing_row now r)"
  by (intro row_moves_step) (simp_all add: same_instance_def phase_def missing_row_def life_fail)

lemma observeMissing_effect:
  assumes keys: "distinct (map fst (instances d))"
    and tx: "observeMissingResource hash k t now d = Inr (y, d')"
  shows "rows_kept d d' \<or>
    (\<exists>r. writes_row (tk_databaseInstanceId t) r (missing_row now r) d d' \<and>
       di_status r \<in> {DbReady, DbActive, DbSuspended} \<and> di_operationVersion r = tk_operationVersion t \<and>
       secrets d' = secrets d \<and> migration_runs d' = migration_runs d)"
    and "\<exists>kf d1. observeFinding hash (missing_input k now t) d = (kf, d1) \<and> findings d' = findings d1 \<and> od_next d' = od_next d1"
    and "sweeps d' = sweeps d"
proof -
  obtain i f d1 where ob: "observeFinding hash (missing_input k now t) d = ((i, f), d1)"
    by (metis surj_pair)
  note fr = observeFinding_frame [OF ob]
  note tx' = tx [unfolded observeMissingResource_def ob Let_def prod.case, folded missing_row_def]
  have keys1: "distinct (map fst (instances d1))" using keys by (simp add: fr)
  let ?q = "\<lambda>(j, r). j = tk_databaseInstanceId t \<and> di_operationVersion r = tk_operationVersion t \<and>
      di_status r \<in> {DbReady, DbActive, DbSuspended}"
  obtain n d2 where u: "update_instances ?q (missing_row now) d1 = (n, d2)" by fastforce
  note fu = update_frame [OF u]
  have "(rows_kept d d' \<or>
    (\<exists>r. writes_row (tk_databaseInstanceId t) r (missing_row now r) d d' \<and>
       di_status r \<in> {DbReady, DbActive, DbSuspended} \<and> di_operationVersion r = tk_operationVersion t \<and>
       secrets d' = secrets d \<and> migration_runs d' = migration_runs d)) \<and>
    findings d' = findings d1 \<and> od_next d' = od_next d1 \<and> sweeps d' = sweeps d"
  proof (cases "fi_observationCount f < 2 \<or> tk_status t \<noteq> DbReady \<and> tk_status t \<noteq> DbSuspended \<or> n \<noteq> 1")
    case True
    then have "d' = d1 \<or> n \<noteq> 1 \<and> d' = d2"
      using tx' u by (auto split: if_splits)
    moreover have "d2 = d1" if "n \<noteq> 1"
      using update_one [OF keys1 _ u, of "tk_databaseInstanceId t"] that by auto
    ultimately have "d' = d1" by blast
    then show ?thesis using fr by (simp add: rows_kept_def)
  next
    case False
    then obtain ev: "append_status (tk_sourceRunId t) (tk_databaseInstanceId t) (tk_operationId t)
        (tk_operationVersion t) DbFailed
        ''Provider resource is missing; no automatic replacement was created'' d2 = Inr d'"
      using tx' u by (auto simp: bind_res_Inr_iff)
    obtain r where r: "di_status r \<in> {DbReady, DbActive, DbSuspended}" "di_operationVersion r = tk_operationVersion t"
      and w: "writes_row (tk_databaseInstanceId t) r (missing_row now r) d1 d2"
      using update_one [OF keys1 _ u, of "tk_databaseInstanceId t"] False by auto
    have "writes_row (tk_databaseInstanceId t) r (missing_row now r) d1 d'"
      by (rule writes_row_append [OF w ev])
    then have "writes_row (tk_databaseInstanceId t) r (missing_row now r) d d'"
      using fr(1,5) by (simp add: writes_row_def)
    then show ?thesis
      using r append_status_frame [OF ev] fr fu by auto
  qed
  then show "rows_kept d d' \<or>
    (\<exists>r. writes_row (tk_databaseInstanceId t) r (missing_row now r) d d' \<and>
       di_status r \<in> {DbReady, DbActive, DbSuspended} \<and> di_operationVersion r = tk_operationVersion t \<and>
       secrets d' = secrets d \<and> migration_runs d' = migration_runs d)"
    and "\<exists>kf d1. observeFinding hash (missing_input k now t) d = (kf, d1) \<and> findings d' = findings d1 \<and> od_next d' = od_next d1"
    and "sweeps d' = sweeps d"
    using ob by blast+
qed

section \<open>Every step follows the life cycle\<close>

lemma keys_fresh_create:
  assumes "keys_fresh d" and "instances d' = instances d @ [(i, r)]" and "od_next d \<le> i" and "od_next d' = i + 2"
  shows "keys_fresh d'"
proof -
  have "i \<notin> set (map fst (instances d))" using assms(1,3) by (auto simp: keys_fresh_def)
  then show ?thesis using assms by (auto simp: keys_fresh_def)
qed

lemma create_database_moves:
  assumes "keys_fresh d" and "create_database_tx cred u pid key inp now d = Inr (res, d')"
  shows "rows_move d d' \<and> keys_fresh d'"
proof -
  from create_database_effect [OF assms(2)] consider (same) "d' = d"
    | (new) i r where "fresh_row i r" "od_next d \<le> i" "instances d' = instances d @ [(i, r)]" "od_next d' = i + 2"
    by blast
  then show ?thesis
  proof cases
    case same
    then show ?thesis using assms(1) by (simp add: rows_move_eq)
  next
    case new
    have "rows_move d d'"
      unfolding rows_move_def
      using new(1,3) by (auto simp: map_add_def fresh_row_def map_of_append split: option.split)
    with keys_fresh_create [OF assms(1) new(3,2,4)] show ?thesis by simp
  qed
qed

lemma fenced_keys: "keys_fresh d \<Longrightarrow> \<not> b \<and> d' = d \<or> b \<and> fenced x st f d d' \<and> Q \<Longrightarrow> keys_fresh d'"
  by (auto simp: fenced_def intro: keys_fresh_write)

lemma rows_kept_moves: "rows_kept d d' \<Longrightarrow> keys_fresh d \<Longrightarrow> rows_move d d' \<and> keys_fresh d'"
  by (auto simp: rows_kept_def intro: rows_move_eq keys_fresh_eq)

lemma db_step_moves:
  assumes "db_step hash d d'" and "keys_fresh d"
  shows "rows_move d d' \<and> keys_fresh d'"
  using assms
proof (induction rule: db_step.induct)
  case (step_others d m)
  then show ?case by (auto intro: rows_move_eq keys_fresh_eq)
next
  case (step_create cred u pid key inp now d res d')
  show ?case by (rule create_database_moves [OF step_create.prems step_create.hyps])
next
  case (step_request u pid i now d res d')
  have "row_moves r (delete_requested now r)" if "di_status r \<in> set destroyable_statuses" for r
    using that by (intro row_moves_step) (simp_all add: same_instance_def phase_def delete_requested_def life_delete)
  with requestDatabaseAction_effect [OF step_request.hyps] show ?case
    using step_request.prems by (auto intro: rows_move_eq writes_row_moves keys_fresh_write)
next
  case (step_unqueued d i oid v err now)
  from markDatabaseOperationFailed_effect(1) [OF keys_freshD [OF step_unqueued]]
  show ?case using step_unqueued
    by (metis failed_row_moves keys_fresh_write rows_move_eq writes_row_moves)
next
  case (step_claim job now d c d')
  have "keys_fresh d'" using claim_effect [OF step_claim.hyps] step_claim.prems by (blast intro: keys_fresh_write)
  then show ?case using claim_moves [OF step_claim.hyps] by simp
next
  case (step_provisioned d x p now b d')
  then show ?case
    using recordProvisioned_moves fenced_keys [OF _ recordProvisioned_effect] by (metis keys_freshD)
next
  case (step_health d x msg now b d')
  then show ?case
    using recordHealthCheck_moves fenced_keys [OF _ recordHealthCheck_effect] by (metis keys_freshD)
next
  case (step_migrate d x now b d')
  then show ?case
    using startMigration_moves fenced_keys [OF _ startMigration_effect] by (metis keys_freshD)
next
  case (step_migrated d x reports now b d')
  then show ?case
    using completeMigration_moves fenced_keys [OF _ completeMigration_effect] by (metis keys_freshD)
next
  case (step_destroyed d x now b d')
  then show ?case
    using completeDestroy_moves fenced_keys [OF _ completeDestroy_effect] by (metis keys_freshD)
next
  case (step_failed d x err now y d')
  then have tx: "fail_operation x err now d = Inr ((), d')" by simp
  note keys = keys_freshD [OF step_failed.prems]
  note eff = fail_operation_effect [OF keys tx]
  have "keys_fresh d'"
    using eff(3,5) step_failed.prems by (auto intro: keys_fresh_eq keys_fresh_write)
  with fail_operation_moves [OF keys tx] show ?case by simp
next
  case (step_recover k stale m limit now d plan d')
  have "\<forall>ir \<in> set (stale_candidates stale limit d). di_status (snd ir) \<in> set RECOVERABLE_STATUSES"
    using stale_candidates_sub(2) by blast
  then show ?case
    by (rule recover_loop_moves [OF step_recover.prems step_recover.hyps [unfolded recoverStaleOperations_def]])
next
  case (step_undispatched job err now d y d')
  from undispatched_moves [OF step_undispatched.hyps] step_undispatched.prems show ?case
    by (auto intro: rows_move_eq writes_row_moves keys_fresh_write)
next
  case (step_missing k t now d y d')
  from observeMissing_effect(1) [OF keys_freshD [OF step_missing.prems] step_missing.hyps] step_missing.prems
  show ?case
    by (auto simp: rows_kept_def intro: rows_move_eq keys_fresh_eq writes_row_moves missing_row_moves keys_fresh_write)
qed (rule rows_kept_moves, erule reconciler_rows_kept, assumption)+

lemma db_steps_move:
  assumes "(db_step hash)\<^sup>*\<^sup>* d d'" and "keys_fresh d"
  shows "rows_move d d' \<and> keys_fresh d'"
  using assms
proof (induction rule: rtranclp_induct)
  case base
  then show ?case by (simp add: rows_move_eq)
next
  case (step d1 d2)
  then show ?case using db_step_moves rows_move_trans by blast
qed

section \<open>Executions stay executions\<close>

lemma claim_executes:
  assumes "claim job now d = Inr (ClaimReady x, d')"
  shows "executes d' x"
proof -
  from claim_effect [OF assms] obtain r a where
    w: "writes_row (dj_databaseInstanceId job) r (claimed_row (dj_command job) now r) d d'"
    and x: "de_id x = dj_databaseInstanceId job" "de_operationId x = di_operationId r"
      "de_operationVersion x = di_operationVersion r" "de_artifactId x = a" "di_migrationArtifactId r = Some a"
    by auto
  then show ?thesis
    by (auto simp: executes_def writes_row_def claimed_row_def split: db_command.split)
qed

lemma executes_stable:
  assumes "executes d x" and "rows_move d d'"
  shows "executes d' x"
proof -
  from assms(1) obtain r where r: "instance_of d (de_id x) = Some r" "di_operationId r = de_operationId x"
    "di_migrationArtifactId r = Some (de_artifactId x)" "de_operationVersion x \<le> di_operationVersion r"
    by (auto simp: executes_def)
  with assms(2) obtain r' where "instance_of d' (de_id x) = Some r'" "row_moves r r'"
    by (fastforce simp: rows_move_def dest: spec [of _ "de_id x"])
  with r show ?thesis
    using life_star_version [of "phase r" "phase r'"]
    by (auto simp: executes_def row_moves_def same_instance_def phase_def)
qed

end
