(* ===== verification/DatabaseInvariant.thy ===== *)
theory DatabaseInvariant
  imports DatabaseSteps
begin

text \<open>
  The invariant of the tables of provisioned databases, kept by every step: the unique columns
  are unique, and a status says what has been done. A row past provisioning has a provider
  resource and a registered secret of its own; a row that is ready has a succeeded migration
  run of its artifact; a deleted row has given its secret up. For the reconciler: one sweep
  runs at a time, and a finding is approved only by an operator, after a second observation.
\<close>

section \<open>What a status promises\<close>

definition row_ok ::
    "(uuid \<times> uuid \<Rightarrow> migration_run option) \<Rightarrow> string set \<Rightarrow> uuid \<Rightarrow> db_instance \<Rightarrow> bool" where
  "row_ok runs_of known i r \<longleftrightarrow>
     (di_status r \<in> {DbHealthCheck, DbMigrating, DbReady} \<longrightarrow>
        di_externalId r \<noteq> None \<and> (\<exists>s \<in> known. di_connectionSecretRef r = Some s)) \<and>
     (di_status r = DbMigrating \<longrightarrow>
        (\<exists>a m. di_migrationArtifactId r = Some a \<and> runs_of (i, a) = Some m)) \<and>
     (di_status r = DbReady \<longrightarrow> di_readyAt r \<noteq> None \<and>
        (\<exists>a m. di_migrationArtifactId r = Some a \<and> runs_of (i, a) = Some m \<and> mr_status m = MR_SUCCEEDED \<and>
               mr_commandResults m \<noteq> None)) \<and>
     (di_status r = DbDeleted \<longrightarrow> di_connectionSecretRef r = None \<and> di_deletedAt r \<noteq> None)"

definition apart :: "db_instance \<Rightarrow> db_instance \<Rightarrow> bool" where
  "apart r s \<longleftrightarrow> di_operationId r \<noteq> di_operationId s \<and> di_idempotencyKey r \<noteq> di_idempotencyKey s \<and>
     (di_externalId r \<noteq> None \<longrightarrow> di_externalId r \<noteq> di_externalId s) \<and>
     (di_connectionSecretRef r \<noteq> None \<longrightarrow> di_connectionSecretRef r \<noteq> di_connectionSecretRef s)"

lemma apart_sym: "apart r s \<Longrightarrow> apart s r"
  by (auto simp: apart_def)

definition database_rows_ok :: "odb \<Rightarrow> bool" where
  "database_rows_ok d \<longleftrightarrow> keys_fresh d \<and>
     (\<forall>i r. instance_of d i = Some r \<longrightarrow>
        di_operationId r < od_next d \<and> row_ok (map_of (migration_runs d)) (dom (map_of (secrets d))) i r) \<and>
     (\<forall>i j r s. instance_of d i = Some r \<longrightarrow> instance_of d j = Some s \<longrightarrow> i \<noteq> j \<longrightarrow> apart r s)"

lemma rows_okD:
  assumes "database_rows_ok d"
  shows "keys_fresh d" "distinct (map fst (instances d))"
    "instance_of d i = Some r \<Longrightarrow> row_ok (map_of (migration_runs d)) (dom (map_of (secrets d))) i r"
    "instance_of d i = Some r \<Longrightarrow> di_operationId r < od_next d"
    "instance_of d i = Some r \<Longrightarrow> instance_of d j = Some s \<Longrightarrow> i \<noteq> j \<Longrightarrow> apart r s"
  using assms by (auto simp: database_rows_ok_def keys_fresh_def)

text \<open>What a step keeps of the other tables for the rows it does not write.\<close>

definition keeps_for_others :: "uuid \<Rightarrow> odb \<Rightarrow> odb \<Rightarrow> bool" where
  "keeps_for_others i d d' \<longleftrightarrow>
     dom (map_of (secrets d)) \<subseteq> dom (map_of (secrets d')) \<and>
     (\<forall>j a m. j \<noteq> i \<longrightarrow> map_of (migration_runs d) (j, a) = Some m \<longrightarrow>
        (\<exists>m'. map_of (migration_runs d') (j, a) = Some m' \<and>
              (mr_status m = MR_SUCCEEDED \<longrightarrow> m' = m)))"

lemma keeps_same: "secrets d' = secrets d \<Longrightarrow> migration_runs d' = migration_runs d \<Longrightarrow> keeps_for_others i d d'"
  by (simp add: keeps_for_others_def)

lemma row_ok_kept:
  assumes "keeps_for_others i d d'" and "j \<noteq> i"
    and "row_ok (map_of (migration_runs d)) (dom (map_of (secrets d))) j r"
  shows "row_ok (map_of (migration_runs d')) (dom (map_of (secrets d'))) j r"
proof -
  note k = assms(1) [unfolded keeps_for_others_def]
  have "\<exists>s \<in> dom (map_of (secrets d')). di_connectionSecretRef r = Some s"
    if "\<exists>s \<in> dom (map_of (secrets d)). di_connectionSecretRef r = Some s"
    using that k by blast
  moreover have "\<exists>m'. map_of (migration_runs d') (j, a) = Some m'"
    if "map_of (migration_runs d) (j, a) = Some m" for a m
    using k that assms(2) by blast
  moreover have "map_of (migration_runs d') (j, a) = Some m"
    if "map_of (migration_runs d) (j, a) = Some m" "mr_status m = MR_SUCCEEDED" for a m
    using k that assms(2) by blast
  ultimately show ?thesis using assms(3) unfolding row_ok_def by meson
qed

lemma rows_ok_write:
  assumes ok: "database_rows_ok d" and w: "writes_row i r r' d d'" and id: "same_instance r r'"
    and keep: "keeps_for_others i d d'"
    and row: "row_ok (map_of (migration_runs d')) (dom (map_of (secrets d'))) i r'"
    and res: "\<And>j s. instance_of d j = Some s \<Longrightarrow> j \<noteq> i \<Longrightarrow>
       (di_externalId r' \<noteq> None \<longrightarrow> di_externalId r' \<noteq> di_externalId s) \<and>
       (di_connectionSecretRef r' \<noteq> None \<longrightarrow> di_connectionSecretRef r' \<noteq> di_connectionSecretRef s)"
  shows "database_rows_ok d'"
proof -
  have r: "instance_of d i = Some r" and nxt: "od_next d \<le> od_next d'"
    and at: "\<And>j. instance_of d' j = (if j = i then Some r' else instance_of d j)"
    using w by (simp_all add: writes_row_def)
  have ap: "apart r' s" if "instance_of d j = Some s" "j \<noteq> i" for j s
    using rows_okD(5) [OF ok r that(1)] that res [OF that] id by (auto simp: apart_def same_instance_def)
  have "keys_fresh d'" using rows_okD(1) [OF ok] w by (rule keys_fresh_write)
  moreover have "di_operationId q < od_next d' \<and> row_ok (map_of (migration_runs d')) (dom (map_of (secrets d'))) j q"
    if "instance_of d' j = Some q" for j q
  proof (cases "j = i")
    case True
    then show ?thesis
      using that at [of j] row id rows_okD(4) [OF ok r] nxt by (auto simp: same_instance_def)
  next
    case False
    then have "instance_of d j = Some q" using that at [of j] by simp
    then show ?thesis
      using rows_okD(3,4) [OF ok] row_ok_kept [OF keep False] nxt by fastforce
  qed
  moreover have "apart q s" if "instance_of d' j = Some q" "instance_of d' k = Some s" "j \<noteq> k" for j k q s
    using that at [of j] at [of k] ap apart_sym rows_okD(5) [OF ok] by (metis option.inject)
  ultimately show ?thesis by (simp add: database_rows_ok_def)
qed

text \<open>The common case: the row keeps its resources, or gives the secret up.\<close>

lemma rows_ok_write_same:
  assumes ok: "database_rows_ok d" and w: "writes_row i r r' d d'" and id: "same_instance r r'"
    and keep: "keeps_for_others i d d'"
    and row: "row_ok (map_of (migration_runs d')) (dom (map_of (secrets d'))) i r'"
    and res: "di_externalId r' = di_externalId r"
      "di_connectionSecretRef r' = di_connectionSecretRef r \<or> di_connectionSecretRef r' = None"
  shows "database_rows_ok d'"
proof (rule rows_ok_write [OF ok w id keep row])
  fix j s
  assume "instance_of d j = Some s" "j \<noteq> i"
  moreover have "instance_of d i = Some r" using w by (simp add: writes_row_def)
  ultimately have "apart r s" using rows_okD(5) [OF ok] by blast
  then show "(di_externalId r' \<noteq> None \<longrightarrow> di_externalId r' \<noteq> di_externalId s) \<and>
      (di_connectionSecretRef r' \<noteq> None \<longrightarrow> di_connectionSecretRef r' \<noteq> di_connectionSecretRef s)"
    using res by (auto simp: apart_def)
qed

lemma rows_ok_kept:
  assumes "database_rows_ok d" and "rows_kept d d'"
  shows "database_rows_ok d'"
  using assms by (fastforce simp: database_rows_ok_def rows_kept_def keys_fresh_def)

text \<open>A status that promises nothing.\<close>

lemma row_ok_free:
  "di_status r \<in> {DbQueued, DbProvisioning, DbSuspended, DbFailed, DbDeleting, DbActive} \<Longrightarrow> row_ok R S i r"
  by (auto simp: row_ok_def)

lemma rows_ok_write_free:
  assumes "database_rows_ok d" and "writes_row i r r' d d'" and "same_instance r r'"
    and "secrets d' = secrets d" and "migration_runs d' = migration_runs d"
    and "di_status r' \<in> {DbQueued, DbProvisioning, DbSuspended, DbFailed, DbDeleting, DbActive}"
    and "di_externalId r' = di_externalId r" and "di_connectionSecretRef r' = di_connectionSecretRef r"
  shows "database_rows_ok d'"
  by (rule rows_ok_write_same [OF assms(1-3) keeps_same [OF assms(4,5)] row_ok_free [OF assms(6)] assms(7)])
    (simp add: assms(8))

section \<open>Every step keeps it\<close>

lemma fenced_row_facts:
  assumes "database_rows_ok d" and "executes d x" and "fenced x st f d d'"
  obtains r where "instance_of d (de_id x) = Some r" "di_status r = st"
    "di_migrationArtifactId r = Some (de_artifactId x)" "writes_row (de_id x) r (f r) d d'"
    "row_ok (map_of (migration_runs d)) (dom (map_of (secrets d))) (de_id x) r"
proof -
  obtain r where r: "owner x st (de_id x, r)" "writes_row (de_id x) r (f r) d d'"
    using assms(3) by (auto simp: fenced_def)
  then have i: "instance_of d (de_id x) = Some r" by (simp add: writes_row_def)
  then have "di_migrationArtifactId r = Some (de_artifactId x)" using assms(2) by (simp add: executes_def)
  then show ?thesis using that i r ownerD(2) rows_okD(3) [OF assms(1) i] by blast
qed

lemma rows_ok_provisioned:
  assumes ok: "database_rows_ok d" and ex: "executes d x" and tx: "recordProvisioned x p now d = Inr (b, d')"
  shows "database_rows_ok d'"
proof (cases b)
  case False
  then show ?thesis using recordProvisioned_effect [OF rows_okD(2) [OF ok] tx] ok by simp
next
  case True
  with recordProvisioned_effect [OF rows_okD(2) [OF ok] tx]
  have f: "fenced x DbProvisioning (provisioned_row p now) d d'"
    and free: "\<not> resource_taken (de_id x) p d" and runs: "migration_runs d' = migration_runs d"
    and sec: "secrets d' = secrets (upsert_secret x (pn_connectionSecretRef p) d)" by simp_all
  obtain r where r: "instance_of d (de_id x) = Some r"
    and w: "writes_row (de_id x) r (provisioned_row p now r) d d'"
    using fenced_row_facts [OF ok ex f] by metis
  have dom: "dom (map_of (secrets d')) = insert (pn_connectionSecretRef p) (dom (map_of (secrets d)))"
    by (simp add: sec upsert_secret_def update_conv')
  show ?thesis
  proof (rule rows_ok_write [OF ok w])
    show "same_instance r (provisioned_row p now r)" by (simp add: same_instance_def provisioned_row_def)
    show "keeps_for_others (de_id x) d d'" using dom runs by (auto simp: keeps_for_others_def)
    show "row_ok (map_of (migration_runs d')) (dom (map_of (secrets d'))) (de_id x) (provisioned_row p now r)"
      unfolding dom by (simp add: row_ok_def provisioned_row_def)
    fix j s
    assume "instance_of d j = Some s" "j \<noteq> de_id x"
    then have "di_externalId s \<noteq> Some (pn_externalId p)" "di_connectionSecretRef s \<noteq> Some (pn_connectionSecretRef p)"
      using free by (auto simp: resource_taken_def list_ex_iff dest: map_of_SomeD)
    then show "(di_externalId (provisioned_row p now r) \<noteq> None \<longrightarrow>
        di_externalId (provisioned_row p now r) \<noteq> di_externalId s) \<and>
      (di_connectionSecretRef (provisioned_row p now r) \<noteq> None \<longrightarrow>
        di_connectionSecretRef (provisioned_row p now r) \<noteq> di_connectionSecretRef s)"
      by (auto simp: provisioned_row_def)
  qed
qed

lemma rows_ok_health:
  assumes ok: "database_rows_ok d" and ex: "executes d x" and tx: "recordHealthCheck x msg now d = Inr (b, d')"
  shows "database_rows_ok d'"
proof (cases b)
  case False
  then show ?thesis using recordHealthCheck_effect [OF rows_okD(2) [OF ok] tx] ok by simp
next
  case True
  let ?f = "\<lambda>r. r\<lparr>di_lastHeartbeatAt := Some now, di_lastSyncedAt := Some now\<rparr>"
  from True recordHealthCheck_effect [OF rows_okD(2) [OF ok] tx]
  have f: "fenced x DbHealthCheck ?f d d'" and same: "migration_runs d' = migration_runs d" "secrets d' = secrets d"
    by simp_all
  obtain r where w: "writes_row (de_id x) r (?f r) d d'"
    and row: "row_ok (map_of (migration_runs d)) (dom (map_of (secrets d))) (de_id x) r"
    using fenced_row_facts [OF ok ex f] by metis
  have row': "row_ok (map_of (migration_runs d')) (dom (map_of (secrets d'))) (de_id x) (?f r)"
    using row by (simp add: row_ok_def same)
  show ?thesis
    by (rule rows_ok_write_same [OF ok w _ keeps_same [OF same(2,1)] row']) (simp_all add: same_instance_def)
qed

lemma rows_ok_migrate:
  assumes ok: "database_rows_ok d" and ex: "executes d x" and tx: "startMigration x now d = Inr (b, d')"
  shows "database_rows_ok d'"
proof (cases b)
  case False
  then show ?thesis using startMigration_effect [OF rows_okD(2) [OF ok] tx] ok by simp
next
  case True
  let ?f = "\<lambda>r. r\<lparr>di_status := DbMigrating, di_lastHeartbeatAt := Some now\<rparr>"
  from True startMigration_effect [OF rows_okD(2) [OF ok] tx]
  have f: "fenced x DbHealthCheck ?f d d'" and sec: "secrets d' = secrets d"
    and runs: "migration_runs d' = migration_runs (upsert_migration_run x now d)" by simp_all
  obtain r where w: "writes_row (de_id x) r (?f r) d d'" and st: "di_status r = DbHealthCheck"
    and art: "di_migrationArtifactId r = Some (de_artifactId x)"
    and row: "row_ok (map_of (migration_runs d)) (dom (map_of (secrets d))) (de_id x) r"
    using fenced_row_facts [OF ok ex f] by metis
  obtain m where at: "map_of (migration_runs d') = (map_of (migration_runs d))((de_id x, de_artifactId x) \<mapsto> m)"
    by (simp add: runs upsert_migration_run_def update_conv')
  show ?thesis
  proof (rule rows_ok_write_same [OF ok w])
    show "keeps_for_others (de_id x) d d'" by (auto simp: keeps_for_others_def sec at)
    show "row_ok (map_of (migration_runs d')) (dom (map_of (secrets d'))) (de_id x) (?f r)"
      using row st art by (auto simp: row_ok_def at sec)
  qed (simp_all add: same_instance_def)
qed

lemma rows_ok_migrated:
  assumes ok: "database_rows_ok d" and ex: "executes d x" and tx: "completeMigration x reports now d = Inr (b, d')"
  shows "database_rows_ok d'"
proof (cases b)
  case False
  then show ?thesis using completeMigration_effect [OF rows_okD(2) [OF ok] tx] ok by simp
next
  case True
  let ?f = "\<lambda>r. r\<lparr>di_status := DbReady, di_readyAt := Some now, di_lastHeartbeatAt := Some now, di_error := None\<rparr>"
  from True completeMigration_effect [OF rows_okD(2) [OF ok] tx] obtain m where
    f: "fenced x DbMigrating ?f d d'" and sec: "secrets d' = secrets d"
    and runs: "migration_runs d' = AList.update (de_id x, de_artifactId x) (migrated_run reports now m) (migration_runs d)"
    by auto
  obtain r where w: "writes_row (de_id x) r (?f r) d d'" and st: "di_status r = DbMigrating"
    and art: "di_migrationArtifactId r = Some (de_artifactId x)"
    and row: "row_ok (map_of (migration_runs d)) (dom (map_of (secrets d))) (de_id x) r"
    using fenced_row_facts [OF ok ex f] by metis
  have at: "map_of (migration_runs d') = (map_of (migration_runs d))((de_id x, de_artifactId x) \<mapsto> migrated_run reports now m)"
    by (simp add: runs update_conv')
  show ?thesis
  proof (rule rows_ok_write_same [OF ok w])
    show "keeps_for_others (de_id x) d d'" by (auto simp: keeps_for_others_def sec at)
    show "row_ok (map_of (migration_runs d')) (dom (map_of (secrets d'))) (de_id x) (?f r)"
      using row st art by (auto simp: row_ok_def at sec migrated_run_def)
  qed (simp_all add: same_instance_def)
qed

lemma dom_revoke_secret: "dom (map_of (secrets (revoke_secret ref now d))) = dom (map_of (secrets d))"
  by (auto simp: revoke_secret_def map_of_update_rows split: option.split)

lemma rows_ok_destroyed:
  assumes ok: "database_rows_ok d" and ex: "executes d x" and tx: "completeDestroy x now d = Inr (b, d')"
  shows "database_rows_ok d'"
proof (cases b)
  case False
  then show ?thesis using completeDestroy_effect [OF rows_okD(2) [OF ok] tx] ok by simp
next
  case True
  let ?f = "\<lambda>r. r\<lparr>di_status := DbDeleted, di_deletedAt := Some now, di_lastHeartbeatAt := Some now,
      di_connectionSecretRef := None, di_error := None\<rparr>"
  from True completeDestroy_effect [OF rows_okD(2) [OF ok] tx]
  have f: "fenced x DbDeleting ?f d d'" and runs: "migration_runs d' = migration_runs d"
    and sec: "secrets d' = secrets (revoke_secret (de_connectionSecretRef x) now d)" by simp_all
  obtain r where w: "writes_row (de_id x) r (?f r) d d'"
    using fenced_row_facts [OF ok ex f] by metis
  show ?thesis
  proof (rule rows_ok_write_same [OF ok w])
    show "keeps_for_others (de_id x) d d'" by (simp add: keeps_for_others_def sec dom_revoke_secret runs)
    show "row_ok (map_of (migration_runs d')) (dom (map_of (secrets d'))) (de_id x) (?f r)"
      by (simp add: row_ok_def)
  qed (simp_all add: same_instance_def)
qed

lemma failed_runs_at:
  "map_of (failed_runs i err now al) k = map_option (\<lambda>m. if fst k = i \<and> mr_status m \<in> {MR_QUEUED, MR_RUNNING}
     then m\<lparr>mr_status := MR_FAILED, mr_error := Some err, mr_completedAt := Some now\<rparr> else m) (map_of al k)"
  by (cases k) (simp add: failed_runs_def map_of_update_rows)

lemma rows_ok_failed:
  assumes ok: "database_rows_ok d" and tx: "fail_operation x err now d = Inr ((), d')"
  shows "database_rows_ok d'"
proof -
  note eff = fail_operation_effect [OF rows_okD(2) [OF ok] tx]
  have keep: "keeps_for_others k d d'" for k
    by (auto simp: keeps_for_others_def eff(2,4) failed_runs_at)
  from eff(5) consider (same) "instances d' = instances d"
    | (failed) r where "writes_row (de_id x) r (failed_row err now r) d d'" by blast
  then show ?thesis
  proof cases
    case same
    have "row_ok (map_of (migration_runs d')) (dom (map_of (secrets d'))) i r" if "instance_of d i = Some r" for i r
      using row_ok_kept [OF keep [of "Suc i"] _ rows_okD(3) [OF ok that]] by simp
    then show ?thesis
      using ok keys_fresh_eq [OF rows_okD(1) [OF ok] same] eff(3) by (simp add: database_rows_ok_def same)
  next
    case failed
    show ?thesis
      by (rule rows_ok_write_same [OF ok failed _ keep row_ok_free]) (simp_all add: same_instance_def failed_row_def)
  qed
qed

lemma rows_ok_claim:
  assumes ok: "database_rows_ok d" and tx: "claim job now d = Inr (c, d')"
  shows "database_rows_ok d'"
proof -
  from claim_effect [OF tx] consider (same) "d' = d"
    | (claimed) r where "writes_row (dj_databaseInstanceId job) r (claimed_row (dj_command job) now r) d d'"
      "case dj_command job of CmdDestroy \<Rightarrow> di_status r = DbDeleting
        | CmdProvision \<Rightarrow> di_status r \<notin> set claim_stale_statuses"
      "secrets d' = secrets d" "migration_runs d' = migration_runs d"
    by blast
  then show ?thesis
  proof cases
    case claimed
    have st: "di_status (claimed_row (dj_command job) now r) \<in>
        {DbQueued, DbProvisioning, DbSuspended, DbFailed, DbDeleting, DbActive}"
      using claimed(2) by (auto simp: claimed_row_def split: db_command.split_asm db_command.split)
    show ?thesis
      by (rule rows_ok_write_free [OF ok claimed(1) _ claimed(3,4) st])
        (simp_all add: same_instance_def claimed_row_def split: db_command.split)
  qed (use ok in simp)
qed

lemma rows_ok_create:
  assumes ok: "database_rows_ok d" and tx: "create_database_tx cred u pid key inp now d = Inr (res, d')"
  shows "database_rows_ok d'"
proof -
  from create_database_effect [OF tx] consider (same) "d' = d"
    | (new) i r where "instance_with_key key d = None" "fresh_row i r" "di_idempotencyKey r = key"
      "od_next d \<le> i" "instances d' = instances d @ [(i, r)]" "od_next d' = i + 2"
      "secrets d' = secrets d" "migration_runs d' = migration_runs d"
    by blast
  then show ?thesis
  proof cases
    case new
    note fresh = new(2) [unfolded fresh_row_def phase_def]
    have none: "instance_of d i = None"
      using rows_okD(1) [OF ok] new(4) by (fastforce simp: keys_fresh_def map_of_eq_None_iff)
    have at: "instance_of d' j = (if j = i then Some r else instance_of d j)" for j
      using none by (auto simp: new(5) map_add_def split: option.split)
    have "di_idempotencyKey s \<noteq> key" if "instance_of d j = Some s" for j s
      using new(1) map_of_SomeD [OF that] by (auto simp: instance_with_key_def find_first_opt_None)
    then have ap: "apart r s" if "instance_of d j = Some s" for j s
      using that rows_okD(4) [OF ok that] fresh new(3,4) by (fastforce simp: apart_def)
    have "row_ok (map_of (migration_runs d')) (dom (map_of (secrets d'))) j q \<and> di_operationId q < od_next d'"
      if "instance_of d' j = Some q" for j q
    proof (cases "j = i")
      case True
      then show ?thesis using that at [of j] fresh new(6) by (auto intro: row_ok_free)
    next
      case False
      then show ?thesis using that at [of j] rows_okD(3,4) [OF ok] new(4,6,7,8) by fastforce
    qed
    moreover have "apart q s" if "instance_of d' j = Some q" "instance_of d' k = Some s" "j \<noteq> k" for j k q s
      using that at [of j] at [of k] ap apart_sym rows_okD(5) [OF ok] by (metis option.inject)
    ultimately show ?thesis
      using keys_fresh_create [OF rows_okD(1) [OF ok] new(5,4,6)] by (simp add: database_rows_ok_def)
  qed (use ok in simp)
qed

lemma rows_ok_recover_one:
  assumes ok: "database_rows_ok d" and tx: "recover_one hash k now m ir d = Inr (res, d')"
  shows "database_rows_ok d'"
proof -
  obtain i r js n where p: "ir = (i, r)" "res = (js, n)" by (metis surj_pair)
  note eff = recover_one_effect [OF rows_okD(2) [OF ok] tx [unfolded p]]
  from eff have same: "secrets d' = secrets d" "migration_runs d' = migration_runs d" by blast+
  from eff consider (same) "d' = d"
    | (exhausted) q where "writes_row i q (exhausted_row now q) d d'"
    | (fenced) q where "writes_row i q (fenced_row (di_operationVersion r + 1) now q) d d'"
    by blast
  then show ?thesis
  proof cases
    case exhausted
    show ?thesis
      by (rule rows_ok_write_free [OF ok exhausted _ same]) (simp_all add: same_instance_def exhausted_row_def)
  next
    case fenced
    let ?q = "fenced_row (di_operationVersion r + 1) now q"
    have "instance_of d i = Some q" using fenced by (simp add: writes_row_def)
    then have "row_ok (map_of (migration_runs d)) (dom (map_of (secrets d))) i q" by (rule rows_okD(3) [OF ok])
    then have row: "row_ok (map_of (migration_runs d')) (dom (map_of (secrets d'))) i ?q"
      by (simp add: row_ok_def fenced_row_def same)
    show ?thesis
      by (rule rows_ok_write_same [OF ok fenced _ keeps_same [OF same] row])
        (simp_all add: same_instance_def fenced_row_def)
  qed (use ok in simp)
qed

lemma rows_ok_recover_loop:
  "database_rows_ok d \<Longrightarrow> recover_loop hash k now m irs d = Inr (res, d') \<Longrightarrow> database_rows_ok d'"
proof (induction irs arbitrary: d res)
  case (Cons ir irs)
  obtain res1 d1 res2 where a: "recover_one hash k now m ir d = Inr (res1, d1)"
    and b: "recover_loop hash k now m irs d1 = Inr (res2, d')"
    using Cons.prems(2) by (auto simp: bind_res_Inr_iff)
  show ?case by (rule Cons.IH [OF rows_ok_recover_one [OF Cons.prems(1) a] b])
qed simp

lemma rows_ok_step:
  assumes "db_step hash d d'" and "database_rows_ok d"
  shows "database_rows_ok d'"
  using assms
proof (induction rule: db_step.induct)
  case (step_others d m)
  then show ?case by (auto intro: rows_ok_kept simp: rows_kept_def)
next
  case (step_create cred u pid key inp now d res d')
  show ?case by (rule rows_ok_create [OF step_create.prems step_create.hyps])
next
  case (step_request u pid i now d res d')
  from requestDatabaseAction_effect [OF step_request.hyps] consider (same) "d' = d"
    | (req) r where "writes_row i r (delete_requested now r) d d'" "secrets d' = secrets d"
      "migration_runs d' = migration_runs d" by blast
  then show ?case
  proof cases
    case req
    show ?thesis
      by (rule rows_ok_write_free [OF step_request.prems req(1) _ req(2,3)])
        (simp_all add: same_instance_def delete_requested_def)
  qed (use step_request.prems in simp)
next
  case (step_unqueued d i oid v err now)
  note eff = markDatabaseOperationFailed_effect [OF rows_okD(2) [OF step_unqueued]]
  from eff(1) [of i oid v err now] show ?case
  proof (elim disjE exE conjE)
    fix r
    assume w: "writes_row i r (failed_row err now r) d (markDatabaseOperationFailed i oid v err now d)"
    show ?thesis
      by (rule rows_ok_write_free [OF step_unqueued w _ eff(3,4)])
        (simp_all add: same_instance_def failed_row_def)
  qed (use step_unqueued in simp)
next
  case (step_claim job now d c d')
  show ?case by (rule rows_ok_claim [OF step_claim.prems step_claim.hyps])
next
  case (step_failed d x err now y d')
  then show ?case by (auto intro: rows_ok_failed)
next
  case (step_recover k stale m limit now d plan d')
  show ?case
    by (rule rows_ok_recover_loop [OF step_recover.prems step_recover.hyps [unfolded recoverStaleOperations_def]])
next
  case (step_undispatched job err now d y d')
  from undispatched_moves [OF step_undispatched.hyps] consider (same) "d' = d"
    | (undis) r r' where "writes_row (dj_databaseInstanceId job) r r' d d'" "row_moves r r'"
      "di_status r' = DbFailed" "di_externalId r' = di_externalId r"
      "di_connectionSecretRef r' = di_connectionSecretRef r" "secrets d' = secrets d"
      "migration_runs d' = migration_runs d" by blast
  then show ?case
  proof cases
    case undis
    show ?thesis
      by (rule rows_ok_write_free [OF step_undispatched.prems undis(1) _ undis(6,7) _ undis(4,5)])
        (use undis in \<open>simp_all add: row_moves_def\<close>)
  qed (use step_undispatched.prems in simp)
next
  case (step_missing k t now d y d')
  from observeMissing_effect(1) [OF rows_okD(2) [OF step_missing.prems] step_missing.hyps]
  consider (kept) "rows_kept d d'"
    | (gone) r where "writes_row (tk_databaseInstanceId t) r (missing_row now r) d d'"
      "secrets d' = secrets d" "migration_runs d' = migration_runs d" by blast
  then show ?case
  proof cases
    case kept
    then show ?thesis by (rule rows_ok_kept [OF step_missing.prems])
  next
    case gone
    show ?thesis
      by (rule rows_ok_write_free [OF step_missing.prems gone(1) _ gone(2,3)])
        (simp_all add: same_instance_def missing_row_def)
  qed
qed (rule rows_ok_provisioned rows_ok_health rows_ok_migrate rows_ok_migrated rows_ok_destroyed,
    assumption, assumption, assumption
    | rule rows_ok_kept, assumption, erule reconciler_rows_kept)+

lemma rows_ok_steps: "(db_step hash)\<^sup>*\<^sup>* d d' \<Longrightarrow> database_rows_ok d \<Longrightarrow> database_rows_ok d'"
  by (induction rule: rtranclp_induct) (auto intro: rows_ok_step)

end
