(* ===== verification/ReconciliationInvariant.thy ===== *)
theory ReconciliationInvariant
  imports DatabaseInvariant
begin

text \<open>
  The invariant of the reconciler's own tables: keys and fingerprints are unique, at most one
  sweep runs, and a finding is approved or being cleaned up only if it is an orphan that was
  observed twice and that an operator approved.
\<close>

definition approved_by_operator :: "finding \<Rightarrow> bool" where
  "approved_by_operator f \<longleftrightarrow> fi_kind f = ORPHAN_PROVIDER_RESOURCE \<and> 2 \<le> fi_observationCount f \<and>
     fi_approvedBy f \<noteq> None \<and> fi_approvedAt f \<noteq> None"

definition finding_ok :: "finding \<Rightarrow> bool" where
  "finding_ok f \<longleftrightarrow> (fi_status f \<in> {F_APPROVED, F_CLEANING} \<longrightarrow> approved_by_operator f)"

definition running :: "uuid \<times> sweep \<Rightarrow> bool" where
  "running = (\<lambda>(k, s). sw_status s = SW_RUNNING)"

definition findings_ok :: "(uuid \<times> finding) list \<Rightarrow> uuid \<Rightarrow> bool" where
  "findings_ok fs nxt \<longleftrightarrow> distinct (map fst fs) \<and> (\<forall>(k, f) \<in> set fs. k < nxt \<and> finding_ok f) \<and>
     distinct (map (fi_fingerprint \<circ> snd) fs)"

definition sweeps_ok :: "(uuid \<times> sweep) list \<Rightarrow> uuid \<Rightarrow> bool" where
  "sweeps_ok ss nxt \<longleftrightarrow> distinct (map fst ss) \<and> (\<forall>(k, s) \<in> set ss. k < nxt) \<and>
     length (filter running ss) \<le> 1"

definition reviews_ok :: "odb \<Rightarrow> bool" where
  "reviews_ok d \<longleftrightarrow> findings_ok (findings d) (od_next d) \<and> sweeps_ok (sweeps d) (od_next d)"

lemma findings_ok_mono: "findings_ok fs n \<Longrightarrow> n \<le> n' \<Longrightarrow> findings_ok fs n'"
  by (fastforce simp: findings_ok_def)

lemma sweeps_ok_mono: "sweeps_ok ss n \<Longrightarrow> n \<le> n' \<Longrightarrow> sweeps_ok ss n'"
  by (fastforce simp: sweeps_ok_def)

lemma reviews_ok_same:
  "reviews_ok d \<Longrightarrow> findings d' = findings d \<Longrightarrow> sweeps d' = sweeps d \<Longrightarrow> od_next d \<le> od_next d' \<Longrightarrow>
     reviews_ok d'"
  unfolding reviews_ok_def by (metis findings_ok_mono sweeps_ok_mono)

section \<open>Findings\<close>

lemma findings_ok_update:
  assumes "findings_ok fs n"
    and "\<And>k f. (k, f) \<in> set fs \<Longrightarrow> q (k, f) \<Longrightarrow> finding_ok f \<Longrightarrow> finding_ok (g f)"
    and "\<And>f. fi_fingerprint (g f) = fi_fingerprint f"
  shows "findings_ok (update_rows q g fs) n"
proof -
  have "map (fi_fingerprint \<circ> snd) (update_rows q g fs) = map (fi_fingerprint \<circ> snd) fs"
    by (simp add: update_rows_def assms(3) case_prod_beta)
  moreover have "\<forall>(k, f) \<in> set (update_rows q g fs). k < n \<and> finding_ok f"
    using assms(1,2) by (fastforce simp: findings_ok_def update_rows_def)
  ultimately show ?thesis using assms(1) by (simp add: findings_ok_def)
qed

lemma findings_ok_set:
  assumes "findings_ok fs n" and "map_of fs k = Some f" and "finding_ok f'" and "fi_fingerprint f' = fi_fingerprint f"
  shows "findings_ok (AList.update k f' fs) n"
proof -
  have dk: "distinct (map fst fs)" using assms(1) by (simp add: findings_ok_def)
  have eq: "AList.update k f' fs = update_rows (\<lambda>(j, g). j = k) (\<lambda>_. f') fs"
    using assms(2) dk
  proof (induction fs)
    case (Cons a fs)
    obtain j g where a: "a = (j, g)" by fastforce
    show ?case
    proof (cases "j = k")
      case True
      then have "k \<notin> fst ` set fs" using Cons.prems a by auto
      then have "update_rows (\<lambda>(j, g). j = k) (\<lambda>_. f') fs = fs" by (intro update_rows_none) force
      with True a show ?thesis by (simp add: update_rows_def)
    next
      case False
      then show ?thesis using Cons a by (simp add: update_rows_def)
    qed
  qed simp
  have "map (fi_fingerprint \<circ> snd) (AList.update k f' fs) = map (fi_fingerprint \<circ> snd) fs"
  proof -
    have "g = f" if "(k, g) \<in> set fs" for g
      using that assms(2) dk by simp
    then show ?thesis unfolding eq update_rows_def using assms(4) by auto
  qed
  moreover have "\<forall>(j, g) \<in> set (AList.update k f' fs). j < n \<and> finding_ok g"
    using assms(1,3) unfolding eq by (fastforce simp: findings_ok_def update_rows_def)
  ultimately show ?thesis using assms(1) by (simp add: findings_ok_def distinct_update)
qed

lemma finding_with_Some: "finding_with fp d = Some (k, f) \<Longrightarrow> (k, f) \<in> set (findings d) \<and> fi_fingerprint f = fp"
  by (auto simp: finding_with_def dest: find_first_opt_Some)

lemma finding_with_None: "finding_with fp d = None \<Longrightarrow> fp \<notin> set (map (fi_fingerprint \<circ> snd) (findings d))"
  by (auto simp: finding_with_def find_first_opt_None)

lemma reviews_ok_observe:
  assumes ok: "reviews_ok d" and ob: "observeFinding hash i d = ((k, f), d')"
  shows "reviews_ok d'"
proof -
  let ?fp = "findingFingerprint hash (fn_kind i) (fn_stableId i)"
  have fo: "findings_ok (findings d) (od_next d)" and so: "sweeps_ok (sweeps d) (od_next d)"
    using ok by (simp_all add: reviews_ok_def)
  note fr = observeFinding_frame [OF ob]
  have "findings_ok (findings d') (od_next d')"
  proof (cases "finding_with ?fp d")
    case None
    then have d': "findings d' = findings d @ [(od_next d, fresh_finding ?fp i)]" "od_next d' = Suc (od_next d)"
      using ob by (auto simp: observeFinding_def Let_def)
    have "od_next d \<notin> fst ` set (findings d)" using fo by (force simp: findings_ok_def)
    then show ?thesis
      using fo finding_with_None [OF None]
      by (fastforce simp: findings_ok_def d' finding_ok_def fresh_finding_def)
  next
    case (Some kf)
    obtain j g where kf: "kf = (j, g)" by fastforce
    then have g: "(j, g) \<in> set (findings d)" "fi_fingerprint g = ?fp"
      using finding_with_Some Some by auto
    then have at: "map_of (findings d) j = Some g" "finding_ok g"
      using fo by (auto simp: findings_ok_def)
    let ?g' = "if fi_status g = F_RESOLVED then reopened_finding i g else seen_again i g"
    have d': "findings d' = AList.update j ?g' (findings d)" "od_next d' = od_next d"
      using ob Some kf by (auto simp: observeFinding_def Let_def set_finding_def)
    have "finding_ok ?g'"
      using at(2) by (auto simp: finding_ok_def approved_by_operator_def reopened_finding_def seen_again_def)
    then show ?thesis
      unfolding d' by (intro findings_ok_set [OF fo at(1)]) (simp_all add: reopened_finding_def seen_again_def)
  qed
  then show ?thesis using so fr(4,5) by (simp add: reviews_ok_def sweeps_ok_mono)
qed

section \<open>Sweeps\<close>

lemma length_filter_update:
  "(\<And>k s. p (k, g s) \<Longrightarrow> q (k, s) \<Longrightarrow> p (k, s)) \<Longrightarrow>
     length (filter p (update_rows q g ss)) \<le> length (filter p ss)"
proof (induction ss)
  case (Cons a ss)
  obtain k s where a: "a = (k, s)" by fastforce
  have "p (k, if q (k, s) then g s else s) \<Longrightarrow> p (k, s)"
    using Cons.prems [of k s] by (cases "q (k, s)") auto
  then show ?case
    using Cons.IH [OF Cons.prems] by (auto simp: a update_rows_def)
qed (simp add: update_rows_def)

lemma sweeps_ok_update:
  assumes "sweeps_ok ss n" and "\<And>s. sw_status (g s) \<noteq> SW_RUNNING"
  shows "sweeps_ok (update_rows q g ss) n"
proof -
  have "length (filter running (update_rows q g ss)) \<le> length (filter running ss)"
    by (rule length_filter_update) (simp add: running_def assms(2))
  moreover have "\<forall>(k, s) \<in> set (update_rows q g ss). k < n"
    using assms(1) by (auto simp: sweeps_ok_def update_rows_def)
  ultimately show ?thesis using assms(1) by (simp add: sweeps_ok_def)
qed

lemma reviews_ok_begin:
  assumes ok: "reviews_ok d" and tx: "beginSweep si now d = Inr (k, d')"
  shows "reviews_ok d'"
proof (cases "k = None")
  case True
  then show ?thesis using tx ok by (auto simp: beginSweep_def Let_def split: if_splits)
next
  case False
  let ?d1 = "snd (update_sweeps (\<lambda>(k, s). sw_status s = SW_RUNNING \<and> sw_startedAt s \<le> si_abandonedSweepBefore si)
      (\<lambda>s. s\<lparr>sw_status := SW_FAILED, sw_completedAt := Some now, sw_error := Some abandoned_error\<rparr>) d)"
  let ?d2 = "snd (update_findings (\<lambda>(k, f). fi_status f = F_CLEANING \<and> \<not> sweep_running ?d1 (fi_sweepId f))
      (\<lambda>f. f\<lparr>fi_status := F_APPROVED\<rparr>) ?d1)"
  have s1: "sweeps_ok (sweeps ?d2) (od_next d)" "od_next ?d2 = od_next d"
    using ok by (simp_all add: reviews_ok_def update_sweeps_def update_findings_def sweeps_ok_update)
  have f1: "findings_ok (findings ?d2) (od_next d)"
  proof -
    have "findings_ok (findings d) (od_next d)" using ok by (simp add: reviews_ok_def)
    then show ?thesis
      by (simp add: update_findings_def update_sweeps_def)
        (rule findings_ok_update, auto simp: finding_ok_def approved_by_operator_def)
  qed
  obtain s where none: "\<not> list_ex (\<lambda>(k, s). sw_status s = SW_RUNNING) (sweeps ?d2)"
    and d': "sweeps d' = sweeps ?d2 @ [(od_next d, s)]" "findings d' = findings ?d2" "od_next d' = Suc (od_next d)"
    using tx False s1(2) by (auto simp: beginSweep_def Let_def split: if_splits)
  have "filter running (sweeps ?d2) = []"
    using none by (auto simp: filter_empty_conv running_def list_ex_iff)
  moreover have "od_next d \<notin> fst ` set (sweeps ?d2)" using s1(1) by (force simp: sweeps_ok_def)
  ultimately have "sweeps_ok (sweeps d') (od_next d')"
    using s1(1) by (fastforce simp: d' sweeps_ok_def)
  then show ?thesis using findings_ok_mono [OF f1] by (simp add: reviews_ok_def d')
qed

section \<open>Every step keeps it\<close>

lemma reviews_ok_update_findings:
  assumes "reviews_ok d"
    and "\<And>k f. (k, f) \<in> set (findings d) \<Longrightarrow> q (k, f) \<Longrightarrow> finding_ok f \<Longrightarrow> finding_ok (g f)"
    and "\<And>f. fi_fingerprint (g f) = fi_fingerprint f"
  shows "reviews_ok (snd (update_findings q g d))"
  using assms(1) findings_ok_update [OF _ assms(2,3)]
  by (simp add: reviews_ok_def update_findings_def)

lemma reviews_ok_approve:
  assumes ok: "reviews_ok d" and tx: "approveOrphanCleanup k ext op now d = Inr (ans, d')"
  shows "reviews_ok d'"
proof (cases "\<exists>f. map_of (findings d) k = Some f \<and> fi_externalId f = Some ext \<and>
    fi_kind f = ORPHAN_PROVIDER_RESOURCE \<and> fi_status f = F_OPEN \<and> 2 \<le> fi_observationCount f")
  case False
  then have "d' = d" using tx by (auto simp: approveOrphanCleanup_def split: option.splits if_splits)
  with ok show ?thesis by simp
next
  case True
  then obtain f where f: "map_of (findings d) k = Some f" "fi_externalId f = Some ext"
    "fi_kind f = ORPHAN_PROVIDER_RESOURCE" "fi_status f = F_OPEN" "2 \<le> fi_observationCount f" by blast
  have same: "g = f" if "(k, g) \<in> set (findings d)" for g
    using that f(1) ok by (simp add: reviews_ok_def findings_ok_def)
  have d': "d' = snd (update_findings (\<lambda>(j, g). j = k \<and> fi_status g = F_OPEN \<and> fi_externalId g = Some ext)
      (\<lambda>g. g\<lparr>fi_status := F_APPROVED, fi_approvedBy := Some op, fi_approvedAt := Some now\<rparr>) d)"
    using tx f by (simp add: approveOrphanCleanup_def case_prod_beta)
  show ?thesis
    unfolding d' using f(3,5) same
    by (intro reviews_ok_update_findings [OF ok]) (auto simp: finding_ok_def approved_by_operator_def)
qed

lemma reviews_ok_recover_one:
  assumes ok: "reviews_ok d" and keys: "keys_fresh d" and tx: "recover_one hash k now m ir d = Inr (res, d')"
  shows "reviews_ok d'"
proof -
  obtain i r js n where p: "ir = (i, r)" "res = (js, n)" by (metis surj_pair)
  note eff = recover_one_effect [OF keys_freshD [OF keys] tx [unfolded p]]
  from eff consider (same) "d' = d" | (exhausted) "m \<le> di_recoveryCount r" "n = 1"
    | (fenced) q where "findings d' = findings d" "writes_row i q (fenced_row (di_operationVersion r + 1) now q) d d'"
    by blast
  then show ?thesis
  proof cases
    case exhausted
    let ?q = "\<lambda>(j, q). j = i \<and> di_operationVersion q = di_operationVersion r \<and> di_recoveryCount q = di_recoveryCount r"
    obtain c d1 where u: "update_instances ?q (exhausted_row now) d = (c, d1)" by fastforce
    obtain kk f d2 where ob: "observeFinding hash (exhausted_input k now (i, r)) d1 = ((kk, f), d2)"
      by (metis surj_pair)
    note tx' = tx [unfolded p recover_one_def Let_def fst_conv snd_conv, folded exhausted_row_def,
        unfolded u prod.case ob]
    have "append_if_artifact (i, r) (di_operationVersion r) DbFailed
        ''Automatic recovery attempts were exhausted; operator action is required'' d2 = Inr d'"
      using tx' exhausted by (auto simp: bind_res_Inr_iff split: if_splits)
    note fr = append_if_artifact_frame [OF this]
    have "reviews_ok d1" using ok update_frame [OF u] by (simp add: reviews_ok_def)
    then have "reviews_ok d2" using ob by (rule reviews_ok_observe)
    then show ?thesis using fr by (simp add: reviews_ok_def)
  next
    case fenced
    then show ?thesis using ok eff by (intro reviews_ok_same [OF ok]) (auto simp: writes_row_def)
  qed (use ok in simp)
qed

lemma reviews_ok_recover_loop:
  "reviews_ok d \<Longrightarrow> keys_fresh d \<Longrightarrow> recover_loop hash k now m irs d = Inr (res, d') \<Longrightarrow>
     \<forall>ir \<in> set irs. di_status (snd ir) \<in> set RECOVERABLE_STATUSES \<Longrightarrow> reviews_ok d'"
proof (induction irs arbitrary: d res)
  case (Cons ir irs)
  obtain res1 d1 res2 where a: "recover_one hash k now m ir d = Inr (res1, d1)"
    and b: "recover_loop hash k now m irs d1 = Inr (res2, d')"
    using Cons.prems(3) by (auto simp: bind_res_Inr_iff)
  have "keys_fresh d1"
    using recover_one_moves [OF Cons.prems(2) a] Cons.prems(4) by simp
  then show ?case
    using Cons.IH [OF reviews_ok_recover_one [OF Cons.prems(1,2) a] _ b] Cons.prems(4) by simp
qed simp

lemma reviews_ok_fenced:
  assumes "reviews_ok d" and "\<not> b \<and> d' = d \<or> b \<and> fenced x st f d d' \<and> Q"
  shows "reviews_ok d'"
  using assms by (auto simp: fenced_def side_tables_def writes_row_def intro: reviews_ok_same)

lemma reviews_ok_step:
  assumes "db_step hash d d'" and "reviews_ok d" and "keys_fresh d"
  shows "reviews_ok d'"
  using assms
proof (induction rule: db_step.induct)
  case (step_others d m)
  then show ?case by (auto intro: reviews_ok_same)
next
  case (step_create cred u pid key inp now d res d')
  from create_database_effect [OF step_create.hyps] step_create.prems(1) show ?case
    by (auto intro: reviews_ok_same)
next
  case (step_request u pid i now d res d')
  from requestDatabaseAction_effect [OF step_request.hyps] step_request.prems(1) show ?case
    by (auto simp: writes_row_def side_tables_def intro: reviews_ok_same)
next
  case (step_unqueued d i oid v err now)
  note eff = markDatabaseOperationFailed_effect [OF keys_freshD [OF step_unqueued(2)]]
  have "od_next d \<le> od_next (markDatabaseOperationFailed i oid v err now d)"
    using eff(1) [of i oid v err now] by (auto simp: writes_row_def)
  then show ?case using eff(2) [of i oid v err now] step_unqueued(1)
    by (intro reviews_ok_same [OF step_unqueued(1)]) (simp_all add: side_tables_def)
next
  case (step_claim job now d c d')
  from claim_effect [OF step_claim.hyps] step_claim.prems(1) show ?case
    by (auto simp: writes_row_def side_tables_def intro: reviews_ok_same)
next
  case (step_provisioned d x p now b d')
  show ?case by (rule reviews_ok_fenced [OF step_provisioned.prems(1)
      recordProvisioned_effect [OF keys_freshD [OF step_provisioned.prems(2)] step_provisioned.hyps(2)]])
next
  case (step_health d x msg now b d')
  show ?case by (rule reviews_ok_fenced [OF step_health.prems(1)
      recordHealthCheck_effect [OF keys_freshD [OF step_health.prems(2)] step_health.hyps(2)]])
next
  case (step_migrate d x now b d')
  show ?case by (rule reviews_ok_fenced [OF step_migrate.prems(1)
      startMigration_effect [OF keys_freshD [OF step_migrate.prems(2)] step_migrate.hyps(2)]])
next
  case (step_migrated d x reports now b d')
  show ?case by (rule reviews_ok_fenced [OF step_migrated.prems(1)
      completeMigration_effect [OF keys_freshD [OF step_migrated.prems(2)] step_migrated.hyps(2)]])
next
  case (step_destroyed d x now b d')
  show ?case by (rule reviews_ok_fenced [OF step_destroyed.prems(1)
      completeDestroy_effect [OF keys_freshD [OF step_destroyed.prems(2)] step_destroyed.hyps(2)]])
next
  case (step_failed d x err now y d')
  then have tx: "fail_operation x err now d = Inr ((), d')" by simp
  note eff = fail_operation_effect [OF keys_freshD [OF step_failed.prems(2)] tx]
  show ?case
    by (rule reviews_ok_same [OF step_failed.prems(1)]) (use eff(1,3) in \<open>simp_all add: side_tables_def\<close>)
next
  case (step_begin_sweep si now d k d')
  show ?case by (rule reviews_ok_begin [OF step_begin_sweep.prems(1) step_begin_sweep.hyps])
next
  case (step_recover k stale m limit now d plan d')
  show ?case
    by (rule reviews_ok_recover_loop [OF step_recover.prems step_recover.hyps [unfolded recoverStaleOperations_def]])
      (use stale_candidates_sub(2) in blast)
next
  case (step_undispatched job err now d y d')
  from undispatched_moves [OF step_undispatched.hyps] step_undispatched.prems(1) show ?case
    by (auto simp: writes_row_def side_tables_def intro: reviews_ok_same)
next
  case (step_missing k t now d y d')
  note keys = keys_freshD [OF step_missing.prems(2)]
  obtain kk f d1 where ob: "observeFinding hash (missing_input k now t) d = ((kk, f), d1)"
    and same: "findings d' = findings d1" "od_next d' = od_next d1"
    using observeMissing_effect(2) [OF keys step_missing.hyps] by (metis surj_pair)
  have "reviews_ok d1" by (rule reviews_ok_observe [OF step_missing.prems(1) ob])
  then show ?case
    by (rule reviews_ok_same)
      (simp_all add: same observeMissing_effect(3) [OF keys step_missing.hyps] observeFinding_frame(4) [OF ob])
next
  case (step_orphan k mg grace now d ob d')
  then obtain kf where "observeFinding hash (orphan_input k now grace mg) d = (kf, d')"
    by (auto simp: observeOrphanResource_def split: prod.splits option.splits)
  then show ?case using reviews_ok_observe [OF step_orphan.prems(1)] by (cases kf) blast
next
  case (step_approve f ext op now d ans d')
  show ?case by (rule reviews_ok_approve [OF step_approve.prems(1) step_approve.hyps])
next
  case (step_present i now d y d')
  then show ?case
    by (auto simp: resolveMissingResource_def resolve_as_def finding_ok_def
        intro!: reviews_ok_update_findings)
next
  case (step_claim_orphan k f ext now d b d')
  then show ?case
    by (auto simp: claimOrphanCleanup_def case_prod_beta finding_ok_def approved_by_operator_def
        split: option.splits if_splits intro!: reviews_ok_update_findings)
next
  case (step_release_orphan f now d y d')
  then show ?case
    by (auto simp: releaseOrphanCleanupClaim_def finding_ok_def approved_by_operator_def
        intro!: reviews_ok_update_findings)
next
  case (step_resolve_orphan ext why now d y d')
  then show ?case
    by (auto simp: resolveOrphanResource_def resolve_as_def finding_ok_def intro!: reviews_ok_update_findings)
next
  case (step_unseen_orphans seen now d y d')
  then show ?case
    by (auto simp: resolveUnseenOrphanResources_def resolve_as_def finding_ok_def intro!: reviews_ok_update_findings)
next
  case (step_complete_sweep k summary now d y d')
  then show ?case
    by (auto simp: completeSweep_def reviews_ok_def update_sweeps_def intro!: sweeps_ok_update)
next
  case (step_fail_sweep k err now d y d')
  then show ?case
    by (auto simp: failSweep_def reviews_ok_def update_sweeps_def intro!: sweeps_ok_update)
qed

end
