(* ===== verification/DatabaseRuns.thy ===== *)
theory DatabaseRuns
  imports ReconciliationInvariant
begin

text \<open>
  Whole executions: a job of the worker and a sweep of the reconciler, with other clients
  committing before every transaction. The locale carries a relation between the world before
  an action and the world after it through the combinators the actions are built from; it is
  interpreted on the calls that were logged and on the steps of the store.
\<close>

section \<open>Relations that every action keeps\<close>

locale op_relation =
  fixes R :: "ops_world \<Rightarrow> ops_world \<Rightarrow> bool"
  assumes refl: "R w w"
    and trans: "R u v \<Longrightarrow> R v w \<Longrightarrow> R u w"
begin

definition kept :: "'a op_act \<Rightarrow> bool" where
  "kept m \<longleftrightarrow> (\<forall>w r w'. m w = (r, w') \<longrightarrow> R w w')"

lemma keptD: "kept m \<Longrightarrow> m w = (r, w') \<Longrightarrow> R w w'"
  by (simp add: kept_def)

lemma kept_return: "kept (return_act a)"
  by (simp add: kept_def return_act_def refl)

lemma kept_throw: "kept (throw_act e)"
  by (simp add: kept_def throw_act_def refl)

lemma kept_bind:
  assumes "kept m" and "\<And>a. kept (f a)"
  shows "kept (bind_act m f)"
  unfolding kept_def
proof (intro allI impI)
  fix w r w'
  assume "bind_act m f w = (r, w')"
  then show "R w w'"
  proof (rule bind_act_cases)
    fix e
    assume "m w = (Inl e, w')"
    then show ?thesis by (rule keptD [OF assms(1)])
  next
    fix a w1
    assume "m w = (Inr a, w1)" "f a w1 = (r, w')"
    then show ?thesis by (rule trans [OF keptD [OF assms(1)] keptD [OF assms(2)]])
  qed
qed

lemma kept_catch:
  assumes "kept m" and "\<And>e. kept (h e)"
  shows "kept (catch_act m h)"
  unfolding kept_def
proof (intro allI impI)
  fix w r w'
  assume c: "catch_act m h w = (r, w')"
  obtain x w1 where m: "m w = (x, w1)" by fastforce
  show "R w w'"
  proof (cases x)
    case (Inl e)
    then have "h e w1 = (r, w')" using c m by (simp add: catch_act_def)
    with trans [OF keptD [OF assms(1) m] keptD [OF assms(2)]] show ?thesis by simp
  next
    case (Inr a)
    then have "w' = w1" using c m by (simp add: catch_act_def)
    with keptD [OF assms(1) m] show ?thesis by simp
  qed
qed

lemma kept_finally:
  assumes "kept m" and "kept f"
  shows "kept (finally_act m f)"
  unfolding kept_def
proof (intro allI impI)
  fix w r w'
  assume c: "finally_act m f w = (r, w')"
  obtain x w1 y w2 where m: "m w = (x, w1)" "f w1 = (y, w2)" by fastforce
  then have "w' = w2" using c by (cases y) (simp_all add: finally_act_def)
  with trans [OF keptD [OF assms(1) m(1)] keptD [OF assms(2) m(2)]] show "R w w'" by simp
qed

lemmas kept_intros = kept_return kept_throw kept_bind kept_catch kept_finally

end

section \<open>Calls\<close>

definition new_log :: "ops_world \<Rightarrow> ops_world \<Rightarrow> outside_call list" where
  "new_log w w' = drop (length (ow_log w)) (ow_log w')"

text \<open>The log only grows, by calls of the kinds \<open>A\<close>.\<close>

definition logs_only :: "(outside_call \<Rightarrow> bool) \<Rightarrow> ops_world \<Rightarrow> ops_world \<Rightarrow> bool" where
  "logs_only A w w' \<longleftrightarrow> (\<exists>cs. ow_log w' = ow_log w @ cs \<and> (\<forall>c \<in> set cs. A c))"

interpretation calls_only: op_relation "logs_only A" for A
proof
  show "logs_only A w w" for w by (simp add: logs_only_def)
  show "logs_only A u v \<Longrightarrow> logs_only A v w \<Longrightarrow> logs_only A u w" for u v w
    by (fastforce simp: logs_only_def)
qed

lemma logs_only_new: "logs_only A w w' \<Longrightarrow> c \<in> set (new_log w w') \<Longrightarrow> A c"
  by (auto simp: logs_only_def new_log_def)

lemma tx_step_log: "tx_step env now f w = (r, w') \<Longrightarrow> ow_log w' = ow_log w"
  by (auto simp: tx_step_def Let_def split: sum.splits prod.splits)

lemma calls_only_tx: "calls_only.kept A (tx_step env now f)"
  unfolding calls_only.kept_def by (auto simp: logs_only_def dest: tx_step_log)

lemma calls_only_call: "A c \<Longrightarrow> calls_only.kept A (call_act c f)"
  by (simp add: calls_only.kept_def call_act_def logs_only_def)

section \<open>The store\<close>

definition env_steps :: "(string \<Rightarrow> string) \<Rightarrow> (nat \<Rightarrow> odb \<Rightarrow> odb) \<Rightarrow> bool" where
  "env_steps hash env \<longleftrightarrow> (\<forall>n d. (db_step hash)\<^sup>*\<^sup>* d (env n d))"

lemma tx_step_cases:
  assumes "tx_step env now f w = (r, w')"
  obtains e where "r = Inl (OtherThrown e)" "f (now (ow_tick w)) (env (ow_tick w) (ow_db w)) = Inl e"
      "ow_db w' = env (ow_tick w) (ow_db w)" "ow_log w' = ow_log w" "ow_tick w' = Suc (ow_tick w)"
  | a where "r = Inr a" "f (now (ow_tick w)) (env (ow_tick w) (ow_db w)) = Inr (a, ow_db w')"
      "ow_log w' = ow_log w" "ow_tick w' = Suc (ow_tick w)"
  using assms by (auto simp: tx_step_def Let_def split: sum.splits prod.splits)

lemma tx_step_runs:
  assumes "tx_step env now f w = (r, w')" and "env_steps hash env"
    and "\<And>t d a d'. f t d = Inr (a, d') \<Longrightarrow> (db_step hash)\<^sup>*\<^sup>* d d'"
  shows "(db_step hash)\<^sup>*\<^sup>* (ow_db w) (ow_db w')"
  using assms(1)
proof (cases rule: tx_step_cases)
  case 1
  then show ?thesis using assms(2) by (simp add: env_steps_def)
next
  case (2 a)
  have "(db_step hash)\<^sup>*\<^sup>* (ow_db w) (env (ow_tick w) (ow_db w))" using assms(2) by (simp add: env_steps_def)
  also have "(db_step hash)\<^sup>*\<^sup>* \<dots> (ow_db w')" using 2(2) by (rule assms(3))
  finally show ?thesis .
qed

section \<open>A sweep destroys what an operator approved\<close>

definition cleanable :: "odb \<Rightarrow> string \<Rightarrow> time \<Rightarrow> bool" where
  "cleanable d ext now \<longleftrightarrow> (\<exists>k f s. map_of (findings d) k = Some f \<and> claimable s ext now f \<and>
     sweep_running d s) \<and> \<not> tracked_external d ext"

definition sweep_rel :: "reconciler_options \<Rightarrow> ops_world \<Rightarrow> ops_world \<Rightarrow> bool" where
  "sweep_rel R w w' \<longleftrightarrow>
     (env_steps (rc_hash R) (rc_env R) \<longrightarrow>
       (db_step (rc_hash R))\<^sup>*\<^sup>* (ow_db w) (ow_db w') \<and>
       (\<exists>cs. ow_log w' = ow_log w @ cs \<and>
          (\<forall>ext s. CallDestroy ext s \<in> set cs \<longrightarrow>
             rc_cleanupApprovedOrphans R \<and> s = None \<and>
             (\<exists>d n. (db_step (rc_hash R))\<^sup>*\<^sup>* (ow_db w) d \<and> cleanable d ext (rc_now R n)))))"

interpretation sweeping: op_relation "sweep_rel R" for R
proof
  show "sweep_rel R w w" for w by (simp add: sweep_rel_def)
next
  fix u v w
  assume a: "sweep_rel R u v" and b: "sweep_rel R v w"
  show "sweep_rel R u w"
    unfolding sweep_rel_def
  proof
    assume env: "env_steps (rc_hash R) (rc_env R)"
    let ?S = "(db_step (rc_hash R))\<^sup>*\<^sup>*"
    obtain cs where ss: "?S (ow_db u) (ow_db v)" and cs: "ow_log v = ow_log u @ cs"
      "\<And>ext s. CallDestroy ext s \<in> set cs \<Longrightarrow> rc_cleanupApprovedOrphans R \<and> s = None \<and>
         (\<exists>d n. ?S (ow_db u) d \<and> cleanable d ext (rc_now R n))"
      using a env unfolding sweep_rel_def by blast
    obtain cs' where ss': "?S (ow_db v) (ow_db w)" and cs': "ow_log w = ow_log v @ cs'"
      "\<And>ext s. CallDestroy ext s \<in> set cs' \<Longrightarrow> rc_cleanupApprovedOrphans R \<and> s = None \<and>
         (\<exists>d n. ?S (ow_db v) d \<and> cleanable d ext (rc_now R n))"
      using b env unfolding sweep_rel_def by blast
    have "rc_cleanupApprovedOrphans R \<and> s = None \<and> (\<exists>d n. ?S (ow_db u) d \<and> cleanable d ext (rc_now R n))"
      if "CallDestroy ext s \<in> set (cs @ cs')" for ext s
      using that cs(2) cs'(2) ss rtranclp_trans [of "db_step (rc_hash R)" "ow_db u" "ow_db v"]
      by (metis Un_iff set_append)
    then show "?S (ow_db u) (ow_db w) \<and> (\<exists>cs. ow_log w = ow_log u @ cs \<and>
        (\<forall>ext s. CallDestroy ext s \<in> set cs \<longrightarrow> rc_cleanupApprovedOrphans R \<and> s = None \<and>
           (\<exists>d n. ?S (ow_db u) d \<and> cleanable d ext (rc_now R n))))"
      using rtranclp_trans [OF ss ss'] cs(1) cs'(1) by (intro conjI exI [of _ "cs @ cs'"]) auto
  qed
qed

lemma sweeping_rtx:
  assumes "\<And>t d a d'. f t d = Inr (a, d') \<Longrightarrow> (db_step (rc_hash R))\<^sup>*\<^sup>* d d'"
  shows "sweeping.kept R (rtx R f)"
  unfolding sweeping.kept_def rtx_def
proof (intro allI impI)
  fix w r w'
  assume tx: "tx_step (rc_env R) (rc_now R) f w = (r, w')"
  have "(db_step (rc_hash R))\<^sup>*\<^sup>* (ow_db w) (ow_db w')" if "env_steps (rc_hash R) (rc_env R)"
    by (rule tx_step_runs [OF tx that assms])
  then show "sweep_rel R w w'"
    using tx_step_log [OF tx] by (simp add: sweep_rel_def)
qed

lemma sweeping_call:
  assumes "\<And>ext s. c \<noteq> CallDestroy ext s"
  shows "sweeping.kept R (call_act c f)"
  using assms by (fastforce simp: sweeping.kept_def call_act_def sweep_rel_def)

lemma sweeping_now: "sweeping.kept R (now_act R)"
  by (simp add: sweeping.kept_def now_act_def sweep_rel_def)

lemma claimOrphanCleanup_True:
  assumes "claimOrphanCleanup s k ext now d = Inr (True, d')"
  shows "cleanable d ext now"
  using assms by (auto simp: claimOrphanCleanup_def cleanable_def split: if_splits option.splits)

lemma destroy_after_claim:
  assumes claim: "rtx R (claimOrphanCleanup s k ext) w = (Inr True, w1)"
    and call: "call_act (CallDestroy ext None) g w1 = (r, w2)" and on: "rc_cleanupApprovedOrphans R"
  shows "sweep_rel R w w2"
  unfolding sweep_rel_def
proof
  assume env: "env_steps (rc_hash R) (rc_env R)"
  let ?n = "ow_tick w"
  let ?d = "rc_env R ?n (ow_db w)"
  from claim have tx: "claimOrphanCleanup s k ext (rc_now R ?n) ?d = Inr (True, ow_db w1)"
    and log: "ow_log w1 = ow_log w"
    unfolding rtx_def by (auto elim: tx_step_cases)
  have d: "(db_step (rc_hash R))\<^sup>*\<^sup>* (ow_db w) ?d" using env by (simp add: env_steps_def)
  also have "db_step (rc_hash R) ?d (ow_db w1)" using tx by (rule step_claim_orphan)
  finally have "(db_step (rc_hash R))\<^sup>*\<^sup>* (ow_db w) (ow_db w1)" .
  moreover have "ow_db w2 = ow_db w1" "ow_log w2 = ow_log w @ [CallDestroy ext None]"
    using call log by (auto simp: call_act_def)
  ultimately show "(db_step (rc_hash R))\<^sup>*\<^sup>* (ow_db w) (ow_db w2) \<and>
      (\<exists>cs. ow_log w2 = ow_log w @ cs \<and>
         (\<forall>e t. CallDestroy e t \<in> set cs \<longrightarrow> rc_cleanupApprovedOrphans R \<and> t = None \<and>
            (\<exists>d n. (db_step (rc_hash R))\<^sup>*\<^sup>* (ow_db w) d \<and> cleanable d e (rc_now R n))))"
    using on d claimOrphanCleanup_True [OF tx] by auto
qed

lemma sweeping_steps:
  "sweeping.kept R (rtx R (claimOrphanCleanup s k ext))"
  "sweeping.kept R (rtx R (releaseOrphanCleanupClaim k))"
  "sweeping.kept R (rtx R (resolveOrphanResource ext why))"
  "sweeping.kept R (rtx R (observeOrphanResource (rc_hash R) s m grace))"
  "sweeping.kept R (rtx R (resolveUnseenOrphanResources seen))"
  "sweeping.kept R (rtx R (resolveMissingResource i))"
  "sweeping.kept R (rtx R (observeMissingResource (rc_hash R) s t))"
  "sweeping.kept R (rtx R (recoverStaleOperations (rc_hash R) s stale mx limit))"
  "sweeping.kept R (rtx R (recordRecoveryDispatchFailure job err))"
  "sweeping.kept R (rtx R (completeSweep s summary))"
  "sweeping.kept R (rtx R (failSweep s err))"
  "sweeping.kept R (rtx R (\<lambda>_. beginSweep si t0))"
  "sweeping.kept R (rtx R (\<lambda>_ d. Inr (listTrackedResources d, d)))"
  by (rule sweeping_rtx; (blast intro: db_step.intros | simp))+

lemma then_after_catch:
  "m w = (Inl e, w1) \<Longrightarrow> bind_act (catch_act m h) g w = bind_act (h e) g w1"
  "m w = (Inr a, w1) \<Longrightarrow> bind_act (catch_act m h) g w = g a w1"
  by (simp_all add: bind_act_def catch_act_def)

lemma sweeping_clean: "sweeping.kept R (clean_orphan R s ext ob)"
  unfolding clean_orphan_def
proof (rule sweeping.kept_bind [OF sweeping_now])
  fix now
  let ?h = "\<lambda>e. bind_act (rtx R (releaseOrphanCleanupClaim (ob_findingId ob))) (\<lambda>_. throw_act e :: unit op_act)"
  let ?g = "bind_act (rtx R (resolveOrphanResource ext ''DELETED_AFTER_APPROVAL'')) (\<lambda>_. return_act (1 :: nat))"
  let ?call = "call_act (CallDestroy ext None) (rc_destroy R ext)"
  let ?rest = "bind_act (catch_act ?call ?h) (\<lambda>_. ?g)"
  have h: "sweeping.kept R (?h e)" for e
    by (intro sweeping.kept_intros sweeping_steps)
  have g: "sweeping.kept R ?g" by (intro sweeping.kept_intros sweeping_steps)
  have "sweeping.kept R (bind_act (rtx R (claimOrphanCleanup s (ob_findingId ob) ext))
      (\<lambda>claimed. if \<not> claimed then return_act 0 else ?rest))" if on: "rc_cleanupApprovedOrphans R"
    unfolding sweeping.kept_def
  proof (intro allI impI)
    fix w r w'
    assume run: "bind_act (rtx R (claimOrphanCleanup s (ob_findingId ob) ext))
        (\<lambda>claimed. if \<not> claimed then return_act 0 else ?rest) w = (r, w')"
    show "sweep_rel R w w'"
      using run
    proof (rule bind_act_cases)
      fix e
      assume "rtx R (claimOrphanCleanup s (ob_findingId ob) ext) w = (Inl e, w')"
      then show ?thesis by (rule sweeping.keptD [OF sweeping_steps(1)])
    next
      fix claimed w1
      assume c: "rtx R (claimOrphanCleanup s (ob_findingId ob) ext) w = (Inr claimed, w1)"
        and k: "(if \<not> claimed then return_act 0 else ?rest) w1 = (r, w')"
      show ?thesis
      proof (cases claimed)
        case False
        then show ?thesis using sweeping.keptD [OF sweeping_steps(1) c] k by (simp add: return_act_def)
      next
        case True
        obtain x w2 where call: "?call w1 = (x, w2)" by fastforce
        have w2: "sweep_rel R w w2"
          by (rule destroy_after_claim [OF _ call on]) (use c True in simp)
        have "sweep_rel R w2 w'"
        proof (cases x)
          case (Inl e)
          have "bind_act (?h e) (\<lambda>_. ?g) w2 = (r, w')"
            using k True by (simp add: then_after_catch(1) [where m = ?call, OF call [unfolded Inl]])
          then show ?thesis by (rule sweeping.keptD [OF sweeping.kept_bind [OF h g]])
        next
          case (Inr u)
          then have "?g w2 = (r, w')"
            using k True by (simp add: then_after_catch(2) [where m = ?call, OF call [unfolded Inr]])
          then show ?thesis by (rule sweeping.keptD [OF g])
        qed
        with w2 show ?thesis by (rule sweeping.trans)
      qed
    qed
  qed
  then show "sweeping.kept R (if \<not> rc_cleanupApprovedOrphans R \<or>
       \<not> (ob_status ob = F_APPROVED \<and> 2 \<le> ob_observationCount ob \<and> ob_cleanupAfter ob \<le> now)
       then return_act 0
       else bind_act (rtx R (claimOrphanCleanup s (ob_findingId ob) ext))
         (\<lambda>claimed. if \<not> claimed then return_act 0 else ?rest))"
    by (auto intro: sweeping.kept_return)
qed

lemma sweeping_dispatch: "sweeping.kept R (dispatch_loop R js)"
  by (induction js) (auto intro!: sweeping.kept_intros sweeping_steps sweeping_call)

lemma sweeping_missing: "sweeping.kept R (missing_loop_db R k present ts)"
  by (induction ts) (auto intro!: sweeping.kept_intros sweeping_steps)

lemma sweeping_orphans: "sweeping.kept R (orphan_loop R k tracked ms)"
  by (induction ms) (auto simp: orphan_step_def intro!: sweeping.kept_intros sweeping_steps sweeping_clean)

lemma sweeping_reconcile: "sweeping.kept R (reconcile R)"
  unfolding reconcile_def sweep_body_def Let_def
  by (auto split: option.split
      intro!: sweeping.kept_intros sweeping_steps sweeping_now sweeping_call sweeping_dispatch sweeping_missing
        sweeping_orphans)

end
