(* ===== verification/DatabaseProperties.thy ===== *)
theory DatabaseProperties
  imports DatabaseRuns Samples
begin

text \<open>
  The properties of provisioned databases: their life cycle, the invariant of the tables, the
  fencing of superseded executions, what the recovery hands back, what an outcome of a job
  means, and what a sweep may destroy. The witnesses run on the sample store with one
  validated migration artifact.
\<close>

section \<open>A concrete store\<close>

definition sample_artifact :: migration_artifact where
  "sample_artifact =
     \<lparr>ma_workspaceId = 1, ma_projectId = 2, ma_sourceRunId = 3, ma_agentTaskId = 4, ma_status = VALIDATED,
      ma_schemaPath = ''s'', ma_schemaHash = ''h'', ma_migrationPaths = [''m''], ma_seedPath = ''d'',
      ma_destructive = False, ma_findings = []\<rparr>"

definition sample_row :: "database_status \<Rightarrow> nat \<Rightarrow> db_instance" where
  "sample_row st v =
     \<lparr>di_operationId = 2, di_workspaceId = 1, di_projectId = 2, di_migrationArtifactId = Some 5,
      di_integrationConnectionId = None, di_externalId = None, di_idempotencyKey = ''key-0001'',
      di_displayName = ''p'', di_databaseName = None, di_region = Some ''emea'',
      di_connectionSecretRef = None, di_status = st, di_operationVersion = v, di_attempt = 0,
      di_recoveryCount = 0, di_error = None, di_metadata = None, di_providerOperationMetadata = None,
      di_lastSyncedAt = None, di_lastHeartbeatAt = Some 100, di_lastReconciledAt = None,
      di_readyAt = None, di_deletedAt = None\<rparr>"

definition sample_odb :: "(uuid \<times> db_instance) list \<Rightarrow> odb" where
  "sample_odb rows = \<lparr>od_main = sample_db\<lparr>artifacts := [(5, sample_artifact)]\<rparr>, instances = rows,
     integrations = [], secrets = [], migration_runs = [], sweeps = [], findings = [], od_next = 3\<rparr>"

lemmas sample_odb_defs = sample_odb_def sample_row_def sample_artifact_def

lemma sample_odb_ok: "database_rows_ok (sample_odb [(1, sample_row DbQueued 0)])"
  "database_rows_ok (sample_odb [])"
  by (auto simp: database_rows_ok_def keys_fresh_def sample_odb_defs row_ok_def split: if_splits)

lemma sample_reviews_ok: "reviews_ok (sample_odb rows)"
  by (simp add: reviews_ok_def findings_ok_def sweeps_ok_def sample_odb_def)

section \<open>The life cycle\<close>



section \<open>The invariant\<close>

text \<open>C21: The invariant of the database tables. Along every sequence of transactions of the control
  API, the workers, the reconciler and the operator, the unique columns stay unique (operation,
  idempotency key, provider resource, secret reference); an instance in health check, migrating or
  ready has a provider resource and a registered secret; a ready instance has a succeeded run of its
  own migration artifact with its step reports; a deleted instance has no secret; at most one
  reconciliation sweep is running; and a finding is approved or being cleaned up only if it is an
  orphaned resource observed at least twice and approved by an operator.\<close>

theorem database_tables_invariant:
  assumes "(db_step hash)\<^sup>*\<^sup>* d d'" and "database_rows_ok d" and "reviews_ok d"
  shows "database_rows_ok d' \<and> reviews_ok d'"
  using assms
proof (induction rule: rtranclp_induct)
  case (step d1 d2)
  then show ?case using rows_ok_step reviews_ok_step rows_okD(1) by blast
qed simp

theorem database_tables_invariant_witness:
  "\<exists>c d'. claim \<lparr>dj_operationId = 2, dj_databaseInstanceId = 1, dj_command = CmdProvision, dj_operationVersion = 0\<rparr>
       50 (sample_odb [(1, sample_row DbQueued 0)]) = Inr (c, d') \<and> database_rows_ok d' \<and> reviews_ok d'"
proof -
  let ?d = "sample_odb [(1, sample_row DbQueued 0)]"
  let ?job = "\<lparr>dj_operationId = 2, dj_databaseInstanceId = 1, dj_command = CmdProvision, dj_operationVersion = 0\<rparr>"
  have "\<exists>c d'. claim ?job 50 ?d = Inr (c, d')"
    by (simp add: claim_def sample_odb_defs sample_defs artifact_of_def claim_stale_statuses_def
        toExecutionRecord_def public_status_def appendStatusEvent_def append_status_def set_instance_def
        appendEvent_def validateRunEventPayload_def bounded_text_def js_trim_def is_space_def set_run_def)
  then obtain c d' where tx: "claim ?job 50 ?d = Inr (c, d')" by blast
  from step_claim [OF this] have "(db_step (\<lambda>s. s))\<^sup>*\<^sup>* ?d d'" by (rule r_into_rtranclp)
  from database_tables_invariant [OF this sample_odb_ok(1) sample_reviews_ok] tx show ?thesis by blast
qed

section \<open>Fencing\<close>

lemma update_instances_none:
  assumes "\<And>i r. instance_of d i = Some r \<Longrightarrow> \<not> q (i, r)" and "distinct (map fst (instances d))"
  shows "update_instances q f d = (0, d)"
proof -
  have "\<not> q (i, r)" if "(i, r) \<in> set (instances d)" for i r
    using assms that by simp
  then have "filter q (instances d) = []" "update_rows q f (instances d) = instances d"
    by (auto simp: filter_empty_conv intro: update_rows_none)
  then show ?thesis by (simp add: update_instances_def)
qed


definition sample_execution :: execution_record where
  "sample_execution = \<lparr>de_id = 1, de_operationId = 2, de_workspaceId = 1, de_projectId = 2, de_displayName = ''p'',
     de_region = ''emea'', de_externalId = None, de_connectionSecretRef = None, de_status = DbProvisioning,
     de_operationVersion = 0, de_artifactId = 5, de_sourceRunId = 3, de_schemaHash = ''h'', de_destructive = False\<rparr>"


section \<open>Recovery\<close>

definition handed_back :: "odb \<Rightarrow> odb \<Rightarrow> time \<Rightarrow> nat \<Rightarrow> database_job \<Rightarrow> bool" where
  "handed_back d d' now m job \<longleftrightarrow>
     (\<exists>r r'. instance_of d (dj_databaseInstanceId job) = Some r \<and>
        instance_of d' (dj_databaseInstanceId job) = Some r' \<and>
        di_status r \<in> set RECOVERABLE_STATUSES \<and> di_recoveryCount r < m \<and>
        (di_status r = DbFailed \<longrightarrow> retryable_json (di_error r)) \<and>
        job = recovery_job (dj_databaseInstanceId job) r \<and>
        r' = fenced_row (di_operationVersion r + 1) now r)"

lemma recover_one_job:
  assumes "recover_one hash k now m (i, r) d = Inr (([job], n), d')"
  shows "di_status r = DbFailed \<longrightarrow> retryable_json (di_error r)"
proof (rule ccontr)
  assume "\<not> (di_status r = DbFailed \<longrightarrow> retryable_json (di_error r))"
  then have "recover_one hash k now m (i, r) d = Inr (([], 0), d)" by (simp add: recover_one_def)
  with assms show False by simp
qed

lemma recover_loop_jobs:
  "recover_loop hash k now m irs d = Inr ((js, n), d') \<Longrightarrow> keys_fresh d \<Longrightarrow> distinct (map fst irs) \<Longrightarrow>
     \<forall>(i, r) \<in> set irs. instance_of d i = Some r \<and> di_status r \<in> set RECOVERABLE_STATUSES \<Longrightarrow>
     length js + n \<le> length irs \<and> distinct (map dj_databaseInstanceId js) \<and>
     dj_databaseInstanceId ` set js \<subseteq> fst ` set irs \<and>
     (\<forall>j. j \<notin> fst ` set irs \<longrightarrow> instance_of d' j = instance_of d j) \<and>
     (\<forall>job \<in> set js. handed_back d d' now m job)"
proof (induction irs arbitrary: d js n)
  case Nil
  then show ?case by simp
next
  case (Cons ir irs)
  obtain i r where ir: "ir = (i, r)" by fastforce
  obtain js1 n1 d1 js2 n2 where a: "recover_one hash k now m (i, r) d = Inr ((js1, n1), d1)"
    and b: "recover_loop hash k now m irs d1 = Inr ((js2, n2), d')" and js: "js = js1 @ js2" "n = n1 + n2"
    using Cons.prems(1) ir by (auto simp: bind_res_Inr_iff)
  have r: "instance_of d i = Some r" "di_status r \<in> set RECOVERABLE_STATUSES" and i: "i \<notin> fst ` set irs"
    using Cons.prems(3,4) ir by auto
  note eff = recover_one_effect [OF keys_freshD [OF Cons.prems(2)] a]
  have other: "instance_of d1 j = instance_of d j" if "j \<noteq> i" for j
    using eff that by (auto simp: writes_row_def)
  have "keys_fresh d1" using recover_one_moves [OF Cons.prems(2) a] r by simp
  moreover have "\<forall>(j, q) \<in> set irs. instance_of d1 j = Some q \<and> di_status q \<in> set RECOVERABLE_STATUSES"
    using Cons.prems(4) i other by fastforce
  ultimately have ih: "length js2 + n2 \<le> length irs" "distinct (map dj_databaseInstanceId js2)"
    "dj_databaseInstanceId ` set js2 \<subseteq> fst ` set irs"
    "\<And>j. j \<notin> fst ` set irs \<Longrightarrow> instance_of d' j = instance_of d1 j"
    "\<And>job. job \<in> set js2 \<Longrightarrow> handed_back d1 d' now m job"
    using Cons.IH [OF b] Cons.prems(3) by auto
  have len: "length js1 + n1 \<le> 1" using eff by auto
  have one: "js1 = [] \<or> js1 = [recovery_job i r] \<and> handed_back d d' now m (recovery_job i r)"
  proof (cases "js1 = []")
    case False
    then obtain q where q: "js1 = [recovery_job i r]" "di_recoveryCount r < m"
      "writes_row i q (fenced_row (di_operationVersion r + 1) now q) d d1"
      using eff by auto
    then have "q = r" "instance_of d1 i = Some (fenced_row (di_operationVersion r + 1) now r)"
      using r(1) by (auto simp: writes_row_def)
    then have "instance_of d' i = Some (fenced_row (di_operationVersion r + 1) now r)" using ih(4) [OF i] by simp
    then have "handed_back d d' now m (recovery_job i r)"
      using q r recover_one_job [of hash k now m i r d "recovery_job i r" n1 d1] a
      by (auto simp: handed_back_def recovery_job_def)
    with q show ?thesis by simp
  qed simp
  have two: "handed_back d d' now m job" if "job \<in> set js2" for job
  proof -
    have "dj_databaseInstanceId job \<noteq> i" using ih(3) i that by auto
    then have "instance_of d1 (dj_databaseInstanceId job) = instance_of d (dj_databaseInstanceId job)"
      by (rule other)
    then show ?thesis using ih(5) [OF that] by (simp add: handed_back_def)
  qed
  have "length js + n \<le> length (ir # irs)" using js ih(1) len by simp
  moreover have "distinct (map dj_databaseInstanceId js)"
  proof -
    have "i \<notin> dj_databaseInstanceId ` set js2" using ih(3) i by blast
    moreover have "js1 = [] \<or> js1 = [recovery_job i r]" using one by blast
    ultimately show ?thesis using js(1) ih(2) by (elim disjE) (simp_all add: recovery_job_def)
  qed
  moreover have "dj_databaseInstanceId ` set js \<subseteq> fst ` set (ir # irs)"
    using js one ih(3) ir by (auto simp: recovery_job_def)
  moreover have "\<forall>j. j \<notin> fst ` set (ir # irs) \<longrightarrow> instance_of d' j = instance_of d j"
    using ih(4) other ir by auto
  moreover have "\<forall>job \<in> set js. handed_back d d' now m job" using js one two by auto
  ultimately show ?case by blast
qed

lemma stale_candidates_distinct:
  assumes "distinct (map fst (instances d))"
  shows "distinct (map fst (stale_candidates stale limit d))"
proof -
  have "distinct (instances d)" using assms by (simp add: distinct_map)
  then have "distinct (stale_candidates stale limit d)"
    unfolding stale_candidates_def Let_def by (intro distinct_take) (auto simp: distinct_sort)
  moreover have "inj_on fst (set (stale_candidates stale limit d))"
    using assms stale_candidates_sub(1) by (meson distinct_map inj_on_subset subsetI)
  ultimately show ?thesis by (simp add: distinct_map)
qed



end
