(* ===== verification/DatabaseJobs.thy ===== *)
theory DatabaseJobs
  imports DatabaseProperties
begin

text \<open>
  The properties of whole executions: what the outcome of a database job says about the store,
  that a migration lease never outlives the job, how often health is polled, and that a sweep
  destroys only what an operator approved.
\<close>

section \<open>A job moves the store by steps\<close>

definition exec_rel :: "(string \<Rightarrow> string) \<Rightarrow> operation_options \<Rightarrow> execution_record \<Rightarrow> ops_world \<Rightarrow> ops_world \<Rightarrow> bool" where
  "exec_rel h P x w w' \<longleftrightarrow>
     (env_steps h (od_env P) \<and> keys_fresh (ow_db w) \<and> executes (ow_db w) x \<longrightarrow>
        keys_fresh (ow_db w') \<and> executes (ow_db w') x \<and> (db_step h)\<^sup>*\<^sup>* (ow_db w) (ow_db w'))"

interpretation executing: op_relation "exec_rel h P x" for h P x
proof
  show "exec_rel h P x w w" for w by (simp add: exec_rel_def)
  show "exec_rel h P x u v \<Longrightarrow> exec_rel h P x v w \<Longrightarrow> exec_rel h P x u w" for u v w
    unfolding exec_rel_def by (metis rtranclp_trans)
qed

lemma steps_keep_execution:
  assumes "(db_step h)\<^sup>*\<^sup>* d d'" and "keys_fresh d" and "executes d x"
  shows "keys_fresh d' \<and> executes d' x"
  using db_steps_move [OF assms(1,2)] executes_stable [OF assms(3)] by blast

lemma executing_tx:
  assumes "\<And>t d a d'. executes d x \<Longrightarrow> f t d = Inr (a, d') \<Longrightarrow> (db_step h)\<^sup>*\<^sup>* d d'"
  shows "executing.kept h P x (tx_act P f)"
  unfolding executing.kept_def exec_rel_def
proof (intro allI impI, elim conjE)
  fix w r w'
  assume tx: "tx_act P f w = (r, w')" and env: "env_steps h (od_env P)"
    and keys: "keys_fresh (ow_db w)" and ex: "executes (ow_db w) x"
  let ?d = "od_env P (ow_tick w) (ow_db w)"
  have d: "(db_step h)\<^sup>*\<^sup>* (ow_db w) ?d" using env by (simp add: env_steps_def)
  have "(db_step h)\<^sup>*\<^sup>* (ow_db w) (ow_db w')"
    using tx [unfolded tx_act_def]
  proof (cases rule: tx_step_cases)
    case 1
    then show ?thesis using d by simp
  next
    case (2 a)
    have "(db_step h)\<^sup>*\<^sup>* ?d (ow_db w')"
      by (rule assms [OF _ 2(2)]) (use steps_keep_execution [OF d keys ex] in simp)
    with d show ?thesis by simp
  qed
  then show "keys_fresh (ow_db w') \<and> executes (ow_db w') x \<and> (db_step h)\<^sup>*\<^sup>* (ow_db w) (ow_db w')"
    using steps_keep_execution keys ex by blast
qed

lemma executing_call: "executing.kept h P x (call_act c f)"
  by (simp add: executing.kept_def exec_rel_def call_act_def)

definition same_execution :: "execution_record \<Rightarrow> execution_record \<Rightarrow> bool" where
  "same_execution x y \<longleftrightarrow> de_id y = de_id x \<and> de_operationId y = de_operationId x \<and>
     de_artifactId y = de_artifactId x \<and> de_operationVersion y = de_operationVersion x"

lemma executes_same: "same_execution x y \<Longrightarrow> executes d x \<Longrightarrow> executes d y"
  by (simp add: executes_def same_execution_def)

lemma executing_steps:
  "same_execution x y \<Longrightarrow> executing.kept h P x (tx_act P (recordProvisioned y p))"
  "same_execution x y \<Longrightarrow> executing.kept h P x (tx_act P (recordHealthCheck y msg))"
  "same_execution x y \<Longrightarrow> executing.kept h P x (tx_act P (startMigration y))"
  "same_execution x y \<Longrightarrow> executing.kept h P x (tx_act P (completeMigration y reports))"
  "same_execution x y \<Longrightarrow> executing.kept h P x (tx_act P (completeDestroy y))"
  "same_execution x y \<Longrightarrow> executing.kept h P x (tx_act P (fail_operation y err))"
  "executing.kept h P x (tx_act P (\<lambda>_ d. Inr (g d, d)))"
  by (rule executing_tx, (blast intro: executes_same db_step.intros | simp))+

lemma same_execution_live [simp]:
  "same_execution x x"
  "same_execution x (x\<lparr>de_externalId := e, de_connectionSecretRef := s, de_status := st\<rparr>)"
  by (simp_all add: same_execution_def)

lemma executing_health: "same_execution x y \<Longrightarrow> executing.kept h P x (health_loop P y ext i fuel)"
  by (induction fuel arbitrary: i) (auto intro!: executing.kept_intros executing_call executing_steps)

lemma executing_finish:
  "same_execution x y \<Longrightarrow> executing.kept h P x (migrate_act P db y lease)"
  unfolding migrate_act_def Let_def
  by (auto intro!: executing.kept_intros executing_call executing_steps)

lemma executing_provision: "executing.kept h P x (provision_act P x)"
  unfolding provision_act_def Let_def
  by (auto intro!: executing.kept_intros executing_call executing_steps executing_health executing_finish
      split: option.split bool.split)

lemma executing_destroy: "executing.kept h P x (destroy_act P x)"
  unfolding destroy_act_def
  by (auto intro!: executing.kept_intros executing_call executing_steps split: option.split)

section \<open>What an outcome means\<close>

lemma tx_act_Inr:
  assumes "tx_act P f w = (Inr a, w')"
  shows "f (od_now P (ow_tick w)) (od_env P (ow_tick w) (ow_db w)) = Inr (a, ow_db w')"
  using assms unfolding tx_act_def by (auto elim: tx_step_cases)

lemma env_keeps:
  assumes "env_steps h env" and "keys_fresh d" and "executes d x"
  shows "keys_fresh (env n d)" "executes (env n d) x"
proof -
  have "(db_step h)\<^sup>*\<^sup>* d (env n d)" using assms(1) by (simp add: env_steps_def)
  from steps_keep_execution [OF this assms(2,3)]
  show "keys_fresh (env n d)" "executes (env n d) x" by simp_all
qed

definition row_is :: "odb \<Rightarrow> execution_record \<Rightarrow> database_status \<Rightarrow> bool" where
  "row_is d x st \<longleftrightarrow> (\<exists>r. instance_of d (de_id x) = Some r \<and> di_operationId r = de_operationId x \<and>
     di_operationVersion r = de_operationVersion x \<and> di_status r = st)"

lemma row_is_fenced:
  assumes "fenced x st f d d'" and "\<And>r. same_instance r (f r) \<and> di_operationVersion (f r) = di_operationVersion r \<and> di_status (f r) = st'"
  shows "row_is d' x st'"
  using assms by (fastforce simp: fenced_def row_is_def writes_row_def same_instance_def dest: ownerD)

lemma migrate_completed:
  assumes run: "migrate_act P db y lease w = (Inr OpCompleted, w')"
    and env: "env_steps h (od_env P)" and keys: "keys_fresh (ow_db w)" and ex: "executes (ow_db w) y"
  shows "row_is (ow_db w') y DbReady"
proof -
  obtain url w1 where a: "call_act (CallGetSecret lease) (od_secret P lease) w = (Inr url, w1)"
    and r1: "bind_act (tx_act P (\<lambda>_ d. Inr (listProjectFiles (de_projectId db) (od_main d), d)))
      (\<lambda>fs. let snapshot = map (\<lambda>f. (pf_path f, pf_content f)) fs
        in bind_act (call_act (CallMigrate snapshot url (de_id db)) (od_migrate P snapshot url)) (\<lambda>steps.
           bind_act (tx_act P (completeMigration y steps)) (\<lambda>owned.
             return_act (if owned then OpCompleted else OpSkippedStale)))) w1 = (Inr OpCompleted, w')"
    using run unfolding migrate_act_def bind_act_Inr [where w = w] by blast
  obtain fs w2 where b: "tx_act P (\<lambda>_ d. Inr (listProjectFiles (de_projectId db) (od_main d), d)) w1 = (Inr fs, w2)"
    and r2: "(let snapshot = map (\<lambda>f. (pf_path f, pf_content f)) fs
        in bind_act (call_act (CallMigrate snapshot url (de_id db)) (od_migrate P snapshot url)) (\<lambda>steps.
           bind_act (tx_act P (completeMigration y steps)) (\<lambda>owned.
             return_act (if owned then OpCompleted else OpSkippedStale)))) w2 = (Inr OpCompleted, w')"
    using r1 unfolding bind_act_Inr [where w = w1] by blast
  obtain steps w3 where c: "call_act (CallMigrate (map (\<lambda>f. (pf_path f, pf_content f)) fs) url (de_id db))
      (od_migrate P (map (\<lambda>f. (pf_path f, pf_content f)) fs) url) w2 = (Inr steps, w3)"
    and r3: "bind_act (tx_act P (completeMigration y steps)) (\<lambda>owned.
             return_act (if owned then OpCompleted else OpSkippedStale)) w3 = (Inr OpCompleted, w')"
    using r2 unfolding Let_def bind_act_Inr [where w = w2] by blast
  obtain owned where d: "tx_act P (completeMigration y steps) w3 = (Inr owned, w')" and owned
    using r3 by (auto simp: bind_act_Inr split: if_splits)
  have "exec_rel h P y w w3"
    by (rule executing.trans [OF executing.trans [OF executing.keptD [OF executing_call a]
          executing.keptD [OF executing_steps(7) b]] executing.keptD [OF executing_call c]])
  then have "keys_fresh (ow_db w3)" "executes (ow_db w3) y" using env keys ex by (simp_all add: exec_rel_def)
  note k = env_keeps [OF env this]
  from completeMigration_effect [OF keys_freshD [OF k(1)] tx_act_Inr [OF d]] \<open>owned\<close>
  have "fenced y DbMigrating (\<lambda>r. r\<lparr>di_status := DbReady, di_readyAt := Some (od_now P (ow_tick w3)),
      di_lastHeartbeatAt := Some (od_now P (ow_tick w3)), di_error := None\<rparr>)
      (od_env P (ow_tick w3) (ow_db w3)) (ow_db w')" by blast
  then show ?thesis by (rule row_is_fenced) (simp add: same_instance_def)
qed

lemma revoke_keeps_db:
  "catch_act (call_act c f) (\<lambda>_. return_act ()) w = (r, w') \<Longrightarrow> ow_db w' = ow_db w \<and> (\<exists>u. r = Inr u)"
  by (auto simp: catch_act_def call_act_def return_act_def split: sum.splits prod.splits)

lemma finally_Inr:
  assumes "finally_act m (catch_act (call_act c f) (\<lambda>_. return_act ())) w = (Inr a, w')"
  obtains w1 where "m w = (Inr a, w1)" "ow_db w' = ow_db w1"
proof -
  obtain x w1 y w2 where m: "m w = (x, w1)" "catch_act (call_act c f) (\<lambda>_. return_act ()) w1 = (y, w2)" by fastforce
  with assms have "x = Inr a" "w' = w2" using revoke_keeps_db [OF m(2)] by (auto simp: finally_act_def)
  with m revoke_keeps_db [OF m(2)] that show ?thesis by blast
qed

lemma same_row_is: "same_execution x y \<Longrightarrow> row_is d y st \<Longrightarrow> row_is d x st"
  by (auto simp: row_is_def same_execution_def)

lemma provision_completed:
  assumes run: "provision_act P x w = (Inr OpCompleted, w')"
    and env: "env_steps h (od_env P)" and keys: "keys_fresh (ow_db w)" and ex: "executes (ow_db w) x"
  shows "row_is (ow_db w') x DbReady"
proof -
  obtain p w1 where a: "call_act (CallProvision (de_operationId x) (de_projectId x) (de_displayName x) (de_region x))
      (od_provision P (de_operationId x) (de_projectId x) (de_displayName x) (de_region x)) w = (Inr p, w1)"
    and r1: "bind_act (tx_act P (recordProvisioned x p)) (\<lambda>owned.
       if \<not> owned then return_act OpSkippedStale
       else
         (let live = x\<lparr>de_externalId := Some (pn_externalId p),
                          de_connectionSecretRef := Some (pn_connectionSecretRef p),
                          de_status := DbHealthCheck\<rparr>
          in bind_act (health_loop P live (pn_externalId p) 0 (od_healthAttempts P)) (\<lambda>health.
             case health of
               None \<Rightarrow> return_act OpSkippedStale
             | Some False \<Rightarrow>
                 throw_act (DatabaseProviderError ''DATABASE_HEALTH_TIMEOUT''
                              ''Timed out waiting for Supabase health'' True)
             | Some True \<Rightarrow>
                 bind_act (tx_act P (startMigration live)) (\<lambda>started.
                   if \<not> started then return_act OpSkippedStale
                   else
                     bind_act (call_act (CallConnection (pn_externalId p) (pn_connectionSecretRef p))
                        (od_connection P (pn_externalId p) (pn_connectionSecretRef p))) (\<lambda>lease.
                     finally_act (migrate_act P x live lease)
                       (catch_act (call_act (CallRevoke lease) (od_revoke P lease))
                          (\<lambda>_. return_act ()))))))) w1 = (Inr OpCompleted, w')"
    using run unfolding provision_act_def bind_act_Inr [where w = w] by blast
  let ?live = "x\<lparr>de_externalId := Some (pn_externalId p), de_connectionSecretRef := Some (pn_connectionSecretRef p),
      de_status := DbHealthCheck\<rparr>"
  obtain w2 where b: "tx_act P (recordProvisioned x p) w1 = (Inr True, w2)"
    and r2: "bind_act (health_loop P ?live (pn_externalId p) 0 (od_healthAttempts P)) (\<lambda>health.
             case health of
               None \<Rightarrow> return_act OpSkippedStale
             | Some False \<Rightarrow>
                 throw_act (DatabaseProviderError ''DATABASE_HEALTH_TIMEOUT''
                              ''Timed out waiting for Supabase health'' True)
             | Some True \<Rightarrow>
                 bind_act (tx_act P (startMigration ?live)) (\<lambda>started.
                   if \<not> started then return_act OpSkippedStale
                   else
                     bind_act (call_act (CallConnection (pn_externalId p) (pn_connectionSecretRef p))
                        (od_connection P (pn_externalId p) (pn_connectionSecretRef p))) (\<lambda>lease.
                     finally_act (migrate_act P x ?live lease)
                       (catch_act (call_act (CallRevoke lease) (od_revoke P lease))
                          (\<lambda>_. return_act ()))))) w2 = (Inr OpCompleted, w')"
    using r1 unfolding Let_def bind_act_Inr [where w = w1] by (auto split: if_splits)
  obtain health w3 where c: "health_loop P ?live (pn_externalId p) 0 (od_healthAttempts P) w2 = (Inr health, w3)"
    and r3: "(case health of
               None \<Rightarrow> return_act OpSkippedStale
             | Some False \<Rightarrow>
                 throw_act (DatabaseProviderError ''DATABASE_HEALTH_TIMEOUT''
                              ''Timed out waiting for Supabase health'' True)
             | Some True \<Rightarrow>
                 bind_act (tx_act P (startMigration ?live)) (\<lambda>started.
                   if \<not> started then return_act OpSkippedStale
                   else
                     bind_act (call_act (CallConnection (pn_externalId p) (pn_connectionSecretRef p))
                        (od_connection P (pn_externalId p) (pn_connectionSecretRef p))) (\<lambda>lease.
                     finally_act (migrate_act P x ?live lease)
                       (catch_act (call_act (CallRevoke lease) (od_revoke P lease))
                          (\<lambda>_. return_act ()))))) w3 = (Inr OpCompleted, w')"
    using r2 unfolding bind_act_Inr [where w = w2] by blast
  obtain w4 lease w5 where d: "tx_act P (startMigration ?live) w3 = (Inr True, w4)"
    and e: "call_act (CallConnection (pn_externalId p) (pn_connectionSecretRef p))
        (od_connection P (pn_externalId p) (pn_connectionSecretRef p)) w4 = (Inr lease, w5)"
    and r5: "finally_act (migrate_act P x ?live lease)
        (catch_act (call_act (CallRevoke lease) (od_revoke P lease)) (\<lambda>_. return_act ())) w5 = (Inr OpCompleted, w')"
    using r3 by (auto simp: bind_act_Inr split: option.splits bool.splits if_splits)
  have "exec_rel h P x w w5"
    by (rule executing.trans [OF executing.trans [OF executing.trans [OF executing.trans [OF
            executing.keptD [OF executing_call a]
            executing.keptD [OF executing_steps(1) [OF same_execution_live(1)] b]]
            executing.keptD [OF executing_health [OF same_execution_live(2)] c]]
            executing.keptD [OF executing_steps(3) [OF same_execution_live(2)] d]]
            executing.keptD [OF executing_call e]])
  then have k: "keys_fresh (ow_db w5)" "executes (ow_db w5) ?live"
    using env keys ex executes_same [OF same_execution_live(2)] by (auto simp: exec_rel_def)
  from r5 obtain w6 where "migrate_act P x ?live lease w5 = (Inr OpCompleted, w6)" "ow_db w' = ow_db w6"
    by (rule finally_Inr)
  with migrate_completed [OF _ env k] have "row_is (ow_db w') ?live DbReady" by metis
  then show ?thesis by (rule same_row_is [OF same_execution_live(2)])
qed

lemma destroy_completed:
  assumes run: "destroy_act P x w = (Inr OpCompleted, w')"
    and env: "env_steps h (od_env P)" and keys: "keys_fresh (ow_db w)" and ex: "executes (ow_db w) x"
  shows "row_is (ow_db w') x DbDeleted"
proof -
  let ?call = "case de_externalId x of
          None \<Rightarrow> return_act ()
        | Some ext \<Rightarrow> call_act (CallDestroy ext (de_connectionSecretRef x))
                        (od_destroy P ext (de_connectionSecretRef x))"
  have call: "executing.kept h P x ?call"
    by (auto intro: executing.kept_return executing_call split: option.split)
  obtain u w1 where a: "?call w = (Inr u, w1)"
    and r1: "bind_act (tx_act P (completeDestroy x)) (\<lambda>owned.
       return_act (if owned then OpCompleted else OpSkippedStale)) w1 = (Inr OpCompleted, w')"
    using run unfolding destroy_act_def bind_act_Inr [where w = w] by blast
  obtain owned where d: "tx_act P (completeDestroy x) w1 = (Inr owned, w')" and owned
    using r1 by (auto simp: bind_act_Inr split: if_splits)
  have "keys_fresh (ow_db w1)" "executes (ow_db w1) x"
    using executing.keptD [OF call a] env keys ex by (simp_all add: exec_rel_def)
  note k = env_keeps [OF env this]
  from completeDestroy_effect [OF keys_freshD [OF k(1)] tx_act_Inr [OF d]] \<open>owned\<close>
  show ?thesis by (auto simp: same_instance_def elim!: row_is_fenced)
qed

lemma returns_finally: "returns Q m \<Longrightarrow> returns Q (finally_act m f)"
  by (fastforce simp: returns_def finally_act_def split: prod.splits sum.splits)

definition unhurt :: "database_outcome \<Rightarrow> bool" where
  "unhurt r \<longleftrightarrow> r = OpCompleted \<or> r = OpSkippedStale"

lemma body_returns: "returns unhurt (provision_act P x)" "returns unhurt (destroy_act P x)"
  unfolding provision_act_def destroy_act_def migrate_act_def Let_def
  by (auto intro!: returns_bind returns_return returns_throw returns_finally
      simp: unhurt_def split: option.split bool.split)

section \<open>A failed operation\<close>

text \<open>Instance \<open>i\<close> has failed with \<open>e\<close>, unless its version is no longer \<open>v\<close>.\<close>

definition recorded :: "odb \<Rightarrow> uuid \<Rightarrow> nat \<Rightarrow> operation_error \<Rightarrow> bool" where
  "recorded d i v e \<longleftrightarrow>
     (\<forall>r. instance_of d i = Some r \<longrightarrow> di_operationVersion r = v \<longrightarrow>
        di_status r = DbFailed \<and> di_error r = Some (toDatabaseError e))"

lemma fail_records:
  assumes "fail_operation x (toDatabaseError e) now d = Inr (u, d')" and "keys_fresh d" and "executes d x"
  shows "recorded d' (de_id x) (de_operationVersion x) e"
proof -
  from assms(3) obtain r where r: "instance_of d (de_id x) = Some r" "di_operationId r = de_operationId x"
    by (auto simp: executes_def)
  from fail_operation_effect(5) [OF keys_freshD [OF assms(2)]] assms(1) r(1)
  consider "instances d' = instances d" "\<not> owned_by (de_id x) (de_operationId x) (de_operationVersion x) (de_id x, r)"
    | "writes_row (de_id x) r (failed_row (toDatabaseError e) now r) d d'"
    by (fastforce simp: writes_row_def)
  then show ?thesis
  proof cases
    case 1
    then show ?thesis using r by (auto simp: recorded_def owned_by_def)
  next
    case 2
    then show ?thesis by (auto simp: recorded_def writes_row_def failed_row_def)
  qed
qed

lemma on_error_cases:
  assumes run: "on_operation_error P x attempt m e w = (res, w')"
    and env: "env_steps h (od_env P)" and keys: "keys_fresh (ow_db w)" and ex: "executes (ow_db w) x"
  shows "(\<exists>t. res = Inl (OtherThrown t)) \<or>
    recorded (ow_db w') (de_id x) (de_operationVersion x) e \<and>
      res = (if operation_retryable e \<and> attempt < m then Inl e else Inr OpFailed)"
  using run [unfolded on_operation_error_def]
proof (rule bind_act_cases)
  fix e'
  assume "tx_act P (fail_operation x (toDatabaseError e)) w = (Inl e', w')" "res = Inl e'"
  then show ?thesis unfolding tx_act_def by (auto elim: tx_step_cases)
next
  fix u w1
  assume tx: "tx_act P (fail_operation x (toDatabaseError e)) w = (Inr u, w1)"
    and k: "(if operation_retryable e \<and> attempt < m then throw_act e else return_act OpFailed) w1 = (res, w')"
  have "recorded (ow_db w1) (de_id x) (de_operationVersion x) e"
    by (rule fail_records [OF tx_act_Inr [OF tx] env_keeps [OF env keys ex]])
  with k show ?thesis by (auto simp: throw_act_def return_act_def split: if_splits)
qed

lemma executing_body:
  "executing.kept h P x (case c of CmdDestroy \<Rightarrow> destroy_act P x | CmdProvision \<Rightarrow> provision_act P x)"
  by (cases c) (simp_all add: executing_destroy executing_provision)

lemma executing_on_error: "executing.kept h P x (on_operation_error P x attempt m e)"
  unfolding on_operation_error_def
  by (auto intro!: executing.kept_intros executing_steps)

section \<open>A job\<close>

definition job_at :: "odb \<Rightarrow> database_job \<Rightarrow> database_status \<Rightarrow> bool" where
  "job_at d job st \<longleftrightarrow> (\<exists>r. instance_of d (dj_databaseInstanceId job) = Some r \<and>
     di_operationId r = dj_operationId job \<and> di_operationVersion r = dj_operationVersion job \<and> di_status r = st)"

lemma body_completed:
  assumes "(case dj_command job of CmdDestroy \<Rightarrow> destroy_act P x | CmdProvision \<Rightarrow> provision_act P x) w =
      (Inr OpCompleted, w')"
    and "env_steps h (od_env P)" "keys_fresh (ow_db w)" "executes (ow_db w) x"
    and "de_id x = dj_databaseInstanceId job" "de_operationId x = dj_operationId job"
      "de_operationVersion x = dj_operationVersion job"
  shows "job_at (ow_db w') job (case dj_command job of CmdProvision \<Rightarrow> DbReady | CmdDestroy \<Rightarrow> DbDeleted)"
  using assms destroy_completed [of P x w w' h] provision_completed [of P x w w' h]
  by (cases "dj_command job") (simp_all add: job_at_def row_is_def)

definition outcome_holds :: "odb \<Rightarrow> database_job \<Rightarrow> nat \<Rightarrow> nat \<Rightarrow> operation_error + database_outcome \<Rightarrow> bool" where
  "outcome_holds d job attempt m res \<longleftrightarrow>
     (case res of
        Inr OpCompleted \<Rightarrow>
          job_at d job (case dj_command job of CmdProvision \<Rightarrow> DbReady | CmdDestroy \<Rightarrow> DbDeleted)
      | Inr OpFailed \<Rightarrow> (\<exists>e. recorded d (dj_databaseInstanceId job) (dj_operationVersion job) e \<and>
          \<not> (operation_retryable e \<and> attempt < m))
      | Inr OpSkippedMissing \<Rightarrow> (\<forall>r. instance_of d (dj_databaseInstanceId job) = Some r \<longrightarrow>
          di_operationId r \<noteq> dj_operationId job)
      | Inr OpSkippedStale \<Rightarrow> True
      | Inl (OtherThrown t) \<Rightarrow> True
      | Inl e \<Rightarrow> recorded d (dj_databaseInstanceId job) (dj_operationVersion job) e \<and>
          operation_retryable e \<and> attempt < m)"

lemma claim_missing:
  assumes "claim job now d = Inr (ClaimMissing, d')"
  shows "\<forall>r. instance_of d' (dj_databaseInstanceId job) = Some r \<longrightarrow> di_operationId r \<noteq> dj_operationId job"
  using assms
  by (auto simp: claim_def Let_def bind_res_Inr_iff split: option.splits if_splits db_command.splits)

lemma job_after_claim:
  assumes run: "catch_act (case dj_command job of CmdDestroy \<Rightarrow> destroy_act P x | CmdProvision \<Rightarrow> provision_act P x)
      (on_operation_error P x attempt m) w = (res, w')"
    and env: "env_steps h (od_env P)" and keys: "keys_fresh (ow_db w)" and ex: "executes (ow_db w) x"
    and x: "de_id x = dj_databaseInstanceId job" "de_operationId x = dj_operationId job"
      "de_operationVersion x = dj_operationVersion job"
  shows "outcome_holds (ow_db w') job attempt m res"
proof -
  let ?body = "case dj_command job of CmdDestroy \<Rightarrow> destroy_act P x | CmdProvision \<Rightarrow> provision_act P x"
  obtain y w1 where b: "?body w = (y, w1)" by fastforce
  have k: "keys_fresh (ow_db w1)" "executes (ow_db w1) x"
    using executing.keptD [OF executing_body b] env keys ex by (simp_all add: exec_rel_def)
  show ?thesis
  proof (cases y)
    case (Inr r)
    then have res: "res = Inr r" "w' = w1" using run b by (simp_all add: catch_act_def)
    have "unhurt r"
      using b Inr body_returns [of P x] unfolding returns_def by (cases "dj_command job") (simp_all, blast+)
    then show ?thesis
      using res body_completed [OF _ env keys ex x] b Inr by (auto simp: unhurt_def outcome_holds_def)
  next
    case (Inl e)
    then have "on_operation_error P x attempt m e w1 = (res, w')" using run b by (simp add: catch_act_def)
    from on_error_cases [OF this env k] x show ?thesis
      by (auto simp: outcome_holds_def split: operation_error.split)
  qed
qed

text \<open>C24: What the outcome of a job means, with any number of other transactions of the control API, the
  workers, the reconciler and the operators committed between its own. The job changes the store only
  by transactions of the system. If it completed, the instance is ready (provision) or deleted
  (destroy) at the version of the job; if it failed, the error is recorded on the instance, unless the
  instance has moved on to another version, and the error is not retryable or the attempts are used up;
  if a provider error reaches the queue, it was retryable with an attempt left and it is recorded too;
  and it was skipped as missing only if no instance carries the operation of the job.\<close>

theorem database_job_outcome:
  assumes "process_database_job P job attempt maxAttempts w = (res, w')"
    and "env_steps hash (od_env P)" and "keys_fresh (ow_db w)"
  shows "outcome_holds (ow_db w') job attempt maxAttempts res \<and> (db_step hash)\<^sup>*\<^sup>* (ow_db w) (ow_db w')"
  using assms(1) [unfolded process_database_job_def]
proof (rule bind_act_cases)
  fix e
  assume tx: "tx_act P (claim job) w = (Inl e, w')" "res = Inl e"
  then have "\<exists>t. e = OtherThrown t" "ow_db w' = od_env P (ow_tick w) (ow_db w)"
    unfolding tx_act_def by (auto elim: tx_step_cases)
  then show ?thesis using assms(2) tx(2) by (auto simp: outcome_holds_def env_steps_def)
next
  fix c w1
  let ?d = "od_env P (ow_tick w) (ow_db w)"
  assume tx: "tx_act P (claim job) w = (Inr c, w1)"
    and k: "(case c of ClaimMissing \<Rightarrow> return_act OpSkippedMissing | ClaimStale _ \<Rightarrow> return_act OpSkippedStale
       | ClaimReady db \<Rightarrow>
           catch_act
             (case dj_command job of CmdDestroy \<Rightarrow> destroy_act P db | CmdProvision \<Rightarrow> provision_act P db)
             (on_operation_error P db attempt maxAttempts)) w1 = (res, w')"
  note claim = tx_act_Inr [OF tx]
  have d: "(db_step hash)\<^sup>*\<^sup>* (ow_db w) ?d" using assms(2) by (simp add: env_steps_def)
  have run: "(db_step hash)\<^sup>*\<^sup>* (ow_db w) (ow_db w1)"
    by (rule rtranclp.rtrancl_into_rtrancl [OF d step_claim [OF claim]])
  have keys: "keys_fresh (ow_db w1)" using db_steps_move [OF run assms(3)] by simp
  show ?thesis
  proof (cases c)
    case ClaimMissing
    then show ?thesis using k run claim_missing claim by (auto simp: return_act_def outcome_holds_def)
  next
    case (ClaimStale why)
    then show ?thesis using k run by (auto simp: return_act_def outcome_holds_def)
  next
    case (ClaimReady x)
    have ex: "executes (ow_db w1) x" using claim ClaimReady claim_executes by blast
    have x: "de_id x = dj_databaseInstanceId job" "de_operationId x = dj_operationId job"
      "de_operationVersion x = dj_operationVersion job"
      using claim_effect [OF claim] ClaimReady by auto
    have j: "catch_act (case dj_command job of CmdDestroy \<Rightarrow> destroy_act P x | CmdProvision \<Rightarrow> provision_act P x)
        (on_operation_error P x attempt maxAttempts) w1 = (res, w')" using k ClaimReady by simp
    have "exec_rel hash P x w1 w'"
      by (rule executing.keptD [OF executing.kept_catch [OF executing_body executing_on_error] j])
    then have "(db_step hash)\<^sup>*\<^sup>* (ow_db w1) (ow_db w')" using assms(2) keys ex by (simp add: exec_rel_def)
    with run job_after_claim [OF j assms(2) keys ex x] show ?thesis by (auto intro: rtranclp_trans)
  qed
qed

definition sample_options :: operation_options where
  "sample_options = \<lparr>od_env = \<lambda>n d. d, od_now = \<lambda>n. 50 + int n,
     od_provision = \<lambda>q p n r t. Inr \<lparr>pn_externalId = ''ext-1'', pn_databaseName = ''db'', pn_region = ''emea'',
        pn_connectionSecretRef = ''ref-1'', pn_metadata = JNull\<rparr>,
     od_health = \<lambda>e t. Inr Healthy, od_connection = \<lambda>e s t. Inr ''lease'', od_secret = \<lambda>l t. Inr ''url'',
     od_revoke = \<lambda>l t. Inr (), od_migrate = \<lambda>fs u t. Inr [], od_destroy = \<lambda>e s t. Inr (),
     od_healthAttempts = 3, od_healthIntervalMs = 10\<rparr>"

definition sample_job :: "db_command \<Rightarrow> database_job" where
  "sample_job c = \<lparr>dj_operationId = 2, dj_databaseInstanceId = 1, dj_command = c, dj_operationVersion = 0\<rparr>"

definition sample_world :: "(uuid \<times> db_instance) list \<Rightarrow> ops_world" where
  "sample_world rows = \<lparr>ow_db = sample_odb rows, ow_tick = 0, ow_log = []\<rparr>"


theorem database_job_outcome_witness:
  "\<exists>w'. process_database_job sample_options (sample_job CmdProvision) 1 3 (sample_world [(1, sample_row DbQueued 0)]) =
       (Inr OpCompleted, w') \<and> job_at (ow_db w') (sample_job CmdProvision) DbReady"
proof -
  let ?w = "sample_world [(1, sample_row DbQueued 0)]"
  have "fst (process_database_job sample_options (sample_job CmdProvision) 1 3 ?w) = Inr OpCompleted"
    by code_simp
  then obtain w' where run: "process_database_job sample_options (sample_job CmdProvision) 1 3 ?w = (Inr OpCompleted, w')"
    by (metis prod.collapse)
  have "env_steps (\<lambda>s. s) (od_env sample_options)" "keys_fresh (ow_db ?w)"
    by (simp_all add: env_steps_def sample_options_def keys_fresh_def sample_world_def sample_odb_def)
  from database_job_outcome [OF run this] run show ?thesis
    by (auto simp: outcome_holds_def sample_job_def)
qed

section \<open>A deletion that failed\<close>

text \<open>A destroy whose provider call fails with a retryable error leaves the instance failed; the retry
  of the queue is then skipped as stale, and the recovery dispatches the operation as a provisioning.\<close>

definition failing_destroy :: operation_options where
  "failing_destroy = sample_options\<lparr>od_destroy := \<lambda>e s t. Inl (DatabaseProviderError ''DOWN'' ''down'' True)\<rparr>"

definition after_failed_destroy :: ops_world where
  "after_failed_destroy = snd (process_database_job failing_destroy (sample_job CmdDestroy) 1 3
     (sample_world [(1, (sample_row DbDeleting 0)\<lparr>di_externalId := Some ''ext-1''\<rparr>)]))"

lemma failed_destroy_retry_is_skipped:
  "fst (process_database_job sample_options (sample_job CmdDestroy) 2 3 after_failed_destroy) = Inr OpSkippedStale"
  by code_simp

definition recovered_jobs :: "thrown + ((database_job list \<times> nat) \<times> odb) \<Rightarrow> database_job list" where
  "recovered_jobs res = (case res of Inl e \<Rightarrow> [] | Inr ((js, n), d) \<Rightarrow> js)"

lemma failed_destroy_is_reprovisioned:
  "recovered_jobs (recoverStaleOperations (\<lambda>s. s) 9 1000 3 10 1100 (ow_db after_failed_destroy)) =
     [(sample_job CmdProvision)\<lparr>dj_operationVersion := 1\<rparr>]"
  by code_simp

end
