(* ===== verification/RunEvents.thy ===== *)
theory RunEvents
  imports DatabaseStore
begin

text \<open>
  Run events on the wire: the envelope of \<open>packages/contracts/src/events.ts\<close> as a JSON value,
  and the payload schemas a reader of the stream parses again. The string formats of the schema
  library (\<open>uuid\<close>, \<open>datetime\<close>, \<open>url\<close>) are the parameters of \<open>formats\<close>.
\<close>

record formats =
  is_uuid :: "string \<Rightarrow> bool"
  is_datetime :: "string \<Rightarrow> bool"
  is_url :: "string \<Rightarrow> bool"

section \<open>Event types\<close>

datatype event_type =
    EvRunCreated | EvRunStatusChanged | EvTaskCreated | EvTaskStarted | EvTaskProgress | EvTaskCompleted
  | EvTaskFailed | EvTaskSkipped | EvArtifactCreated | EvApprovalRequired | EvSandboxReady | EvPreviewUpdated
  | EvIntegrationStatusChanged | EvDeploymentStatusChanged | EvRunCompleted | EvRunFailed
  | EvReleaseAssessmentStarted | EvReleaseReady | EvReleaseBlocked | EvReleaseCriterionKeyUnresolved
  | EvRunApprovalReminderDue | EvRunDataPurged | EvLegacyTaskStarted | EvCodeGenerated
  | EvLegacyApprovalRequired | EvError

fun event_type_string :: "event_type \<Rightarrow> string" where
  "event_type_string EvRunCreated = ''run.created''"
| "event_type_string EvRunStatusChanged = ''run.status_changed''"
| "event_type_string EvTaskCreated = ''task.created''"
| "event_type_string EvTaskStarted = ''task.started''"
| "event_type_string EvTaskProgress = ''task.progress''"
| "event_type_string EvTaskCompleted = ''task.completed''"
| "event_type_string EvTaskFailed = ''task.failed''"
| "event_type_string EvTaskSkipped = ''task.skipped''"
| "event_type_string EvArtifactCreated = ''artifact.created''"
| "event_type_string EvApprovalRequired = ''approval.required''"
| "event_type_string EvSandboxReady = ''sandbox.ready''"
| "event_type_string EvPreviewUpdated = ''preview.updated''"
| "event_type_string EvIntegrationStatusChanged = ''integration.status_changed''"
| "event_type_string EvDeploymentStatusChanged = ''deployment.status_changed''"
| "event_type_string EvRunCompleted = ''run.completed''"
| "event_type_string EvRunFailed = ''run.failed''"
| "event_type_string EvReleaseAssessmentStarted = ''release.assessment_started''"
| "event_type_string EvReleaseReady = ''release.ready''"
| "event_type_string EvReleaseBlocked = ''release.blocked''"
| "event_type_string EvReleaseCriterionKeyUnresolved = ''release.criterion_key_unresolved''"
| "event_type_string EvRunApprovalReminderDue = ''run.approval_reminder_due''"
| "event_type_string EvRunDataPurged = ''run.data_purged''"
| "event_type_string EvLegacyTaskStarted = ''task_started''"
| "event_type_string EvCodeGenerated = ''code_generated''"
| "event_type_string EvLegacyApprovalRequired = ''approval_required''"
| "event_type_string EvError = ''error''"

definition RunEventTypeSchema :: "event_type list" where
  "RunEventTypeSchema =
    [EvRunCreated, EvRunStatusChanged, EvTaskCreated, EvTaskStarted, EvTaskProgress, EvTaskCompleted,
     EvTaskFailed, EvTaskSkipped, EvArtifactCreated, EvApprovalRequired, EvSandboxReady, EvPreviewUpdated,
     EvIntegrationStatusChanged, EvDeploymentStatusChanged, EvRunCompleted, EvRunFailed,
     EvReleaseAssessmentStarted, EvReleaseReady, EvReleaseBlocked, EvReleaseCriterionKeyUnresolved,
     EvRunApprovalReminderDue, EvRunDataPurged, EvLegacyTaskStarted, EvCodeGenerated,
     EvLegacyApprovalRequired, EvError]"

definition parse_event_type :: "string \<Rightarrow> event_type option" where
  "parse_event_type s = find_first_opt (\<lambda>t. event_type_string t = s) RunEventTypeSchema"

section \<open>Objects\<close>

text \<open>A property of an object; any other value has none. A strict schema admits no other key.\<close>

fun prop_of :: "json \<Rightarrow> string \<Rightarrow> json option" where
  "prop_of (JObj kvs) k = map_of kvs k"
| "prop_of _ k = None"

fun strict_keys :: "string list \<Rightarrow> json \<Rightarrow> bool" where
  "strict_keys ks (JObj kvs) = list_all (\<lambda>(k, v). k \<in> set ks) kvs"
| "strict_keys ks _ = False"

fun str_prop :: "json option \<Rightarrow> string option" where
  "str_prop (Some (JStr s)) = Some s"
| "str_prop _ = None"

fun num_prop :: "json option \<Rightarrow> int option" where
  "num_prop (Some (JNum n)) = Some n"
| "num_prop _ = None"

definition str_where :: "(string \<Rightarrow> bool) \<Rightarrow> json option \<Rightarrow> string option" where
  "str_where ok v = Option.bind (str_prop v) (\<lambda>s. if ok s then Some s else None)"

definition num_where :: "(int \<Rightarrow> bool) \<Rightarrow> json option \<Rightarrow> int option" where
  "num_where ok v = Option.bind (num_prop v) (\<lambda>n. if ok n then Some n else None)"

lemma where_Some [simp]:
  "str_where ok (Some (JStr s)) = (if ok s then Some s else None)"
  "num_where ok' (Some (JNum n)) = (if ok' n then Some n else None)"
  by (simp_all add: str_where_def num_where_def)

lemma where_SomeD:
  "str_where ok v = Some s \<Longrightarrow> v = Some (JStr s) \<and> ok s"
  "num_where ok' w = Some n \<Longrightarrow> w = Some (JNum n) \<and> ok' n"
  by (auto simp: str_where_def num_where_def Option.bind_eq_Some_conv split: if_splits
      elim: str_prop.elims num_prop.elims)

text \<open>An optional property: absent, or of the given format.\<close>

definition optional_str :: "(string \<Rightarrow> bool) \<Rightarrow> json option \<Rightarrow> string option option" where
  "optional_str ok v = (case v of None \<Rightarrow> Some None | Some w \<Rightarrow> map_option Some (str_where ok v))"

section \<open>The envelope\<close>

record envelope =
  en_sequence :: nat
  en_runId :: string
  en_type :: event_type
  en_payload :: json
  en_occurredAt :: string

definition envelope_json :: "envelope \<Rightarrow> json" where
  "envelope_json e =
     JObj [(''sequence'', JNum (int (en_sequence e))), (''runId'', JStr (en_runId e)),
           (''eventType'', JStr (event_type_string (en_type e))), (''payload'', en_payload e),
           (''occurredAt'', JStr (en_occurredAt e))]"

definition parse_envelope :: "formats \<Rightarrow> json \<Rightarrow> envelope option" where
  "parse_envelope F j =
     (if \<not> strict_keys [''sequence'', ''runId'', ''eventType'', ''payload'', ''occurredAt''] j then None
      else
        Option.bind (num_where (\<lambda>n. 0 < n) (prop_of j ''sequence'')) (\<lambda>n.
        Option.bind (str_where (is_uuid F) (prop_of j ''runId'')) (\<lambda>r.
        Option.bind (Option.bind (str_prop (prop_of j ''eventType'')) parse_event_type) (\<lambda>t.
        Option.bind (prop_of j ''payload'') (\<lambda>p.
        Option.bind (str_where (is_datetime F) (prop_of j ''occurredAt'')) (\<lambda>at.
        Some \<lparr>en_sequence = nat n, en_runId = r, en_type = t, en_payload = p, en_occurredAt = at\<rparr>))))))"

definition valid_envelope :: "formats \<Rightarrow> envelope \<Rightarrow> bool" where
  "valid_envelope F e \<longleftrightarrow> 0 < en_sequence e \<and> is_uuid F (en_runId e) \<and> is_datetime F (en_occurredAt e)"

lemma parse_event_type_string: "parse_event_type (event_type_string t) = Some t"
  by (cases t) (simp_all add: parse_event_type_def RunEventTypeSchema_def)

lemma parse_envelope_json: "valid_envelope F e \<Longrightarrow> parse_envelope F (envelope_json e) = Some e"
  by (cases e) (simp add: valid_envelope_def parse_envelope_def envelope_json_def parse_event_type_string)

lemma parse_envelope_valid: "parse_envelope F j = Some e \<Longrightarrow> valid_envelope F e"
  by (auto simp: parse_envelope_def valid_envelope_def Option.bind_eq_Some_conv split: if_splits dest!: where_SomeD)

section \<open>Payloads\<close>

fun step_string :: "validation_step \<Rightarrow> string" where
  "step_string Install = ''install''"
| "step_string PrismaValidate = ''prisma-validate''"
| "step_string Lint = ''lint''"
| "step_string Typecheck = ''typecheck''"
| "step_string Test = ''test''"
| "step_string Build = ''build''"
| "step_string PreviewStart = ''preview-start''"
| "step_string PreviewHealth = ''preview-health''"
| "step_string DbStart = ''db-start''"
| "step_string DbMigrate = ''db-migrate''"
| "step_string DbSeed = ''db-seed''"
| "step_string Acceptance = ''acceptance''"

definition all_steps :: "validation_step list" where
  "all_steps = [Install, PrismaValidate, Lint, Typecheck, Test, Build, PreviewStart, PreviewHealth,
     DbStart, DbMigrate, DbSeed, Acceptance]"

definition parse_step :: "string \<Rightarrow> validation_step option" where
  "parse_step s = find_first_opt (\<lambda>t. step_string t = s) all_steps"

fun command_status_string :: "command_status \<Rightarrow> string" where
  "command_status_string SUCCEEDED = ''SUCCEEDED''"
| "command_status_string CMD_FAILED = ''FAILED''"

definition parse_command_status :: "string \<Rightarrow> command_status option" where
  "parse_command_status s = find_first_opt (\<lambda>t. command_status_string t = s) [SUCCEEDED, CMD_FAILED]"

fun preview_status_string :: "preview_event_status \<Rightarrow> string" where
  "preview_status_string PvReady = ''READY''"
| "preview_status_string PvStopped = ''STOPPED''"
| "preview_status_string PvExpired = ''EXPIRED''"
| "preview_status_string PvError = ''ERROR''"

definition parse_preview_status :: "string \<Rightarrow> preview_event_status option" where
  "parse_preview_status s =
     find_first_opt (\<lambda>t. preview_status_string t = s) [PvReady, PvStopped, PvExpired, PvError]"

record preview_payload =
  pp_status :: preview_event_status
  pp_url :: "string option"
  pp_expiresAt :: string

definition parse_preview :: "formats \<Rightarrow> json \<Rightarrow> preview_payload option" where
  "parse_preview F j =
     (if \<not> strict_keys [''version'', ''previewSessionId'', ''status'', ''url'', ''expiresAt''] j \<or>
         prop_of j ''version'' \<noteq> Some (JStr ''v1'') then None
      else
        Option.bind (str_where (is_uuid F) (prop_of j ''previewSessionId'')) (\<lambda>_.
        Option.bind (Option.bind (str_prop (prop_of j ''status'')) parse_preview_status) (\<lambda>st.
        Option.bind (optional_str (is_url F) (prop_of j ''url'')) (\<lambda>url.
        Option.bind (str_where (is_datetime F) (prop_of j ''expiresAt'')) (\<lambda>at.
        Some \<lparr>pp_status = st, pp_url = url, pp_expiresAt = at\<rparr>)))))"

record progress_payload =
  gp_step :: validation_step
  gp_status :: command_status
  gp_exitCode :: int
  gp_durationMs :: int
  gp_stdout :: string
  gp_stderr :: string

definition parse_progress :: "formats \<Rightarrow> json \<Rightarrow> progress_payload option" where
  "parse_progress F j =
     (if \<not> strict_keys [''version'', ''phase'', ''sandboxSessionId'', ''ordinal'', ''step'', ''status'',
            ''exitCode'', ''durationMs'', ''stdout'', ''stderr''] j \<or>
         prop_of j ''version'' \<noteq> Some (JStr ''v1'') \<or>
         prop_of j ''phase'' \<noteq> Some (JStr ''sandbox-validation'') then None
      else
        Option.bind (str_where (is_uuid F) (prop_of j ''sandboxSessionId'')) (\<lambda>_.
        Option.bind (num_where (\<lambda>n. 0 < n) (prop_of j ''ordinal'')) (\<lambda>_.
        Option.bind (Option.bind (str_prop (prop_of j ''step'')) parse_step) (\<lambda>step.
        Option.bind (Option.bind (str_prop (prop_of j ''status'')) parse_command_status) (\<lambda>status.
        Option.bind (num_prop (prop_of j ''exitCode'')) (\<lambda>x.
        Option.bind (num_where (\<lambda>n. 0 \<le> n) (prop_of j ''durationMs'')) (\<lambda>ms.
        Option.bind (str_where (\<lambda>s. length s \<le> 64012) (prop_of j ''stdout'')) (\<lambda>out.
        Option.bind (str_where (\<lambda>s. length s \<le> 64012) (prop_of j ''stderr'')) (\<lambda>err.
        Some \<lparr>gp_step = step, gp_status = status, gp_exitCode = x, gp_durationMs = ms,
              gp_stdout = out, gp_stderr = err\<rparr>)))))))))"

definition event_database_statuses :: "database_status list" where
  "event_database_statuses = [DbQueued, DbProvisioning, DbHealthCheck, DbMigrating, DbReady, DbSuspended,
     DbFailed, DbDeleting, DbDeleted]"

definition parse_database_status :: "string \<Rightarrow> database_status option" where
  "parse_database_status s = find_first_opt (\<lambda>t. database_status_string t = s) event_database_statuses"

record database_payload =
  dp_databaseInstanceId :: string
  dp_operationVersion :: nat
  dp_status :: database_status
  dp_message :: "string option"

definition parse_database :: "formats \<Rightarrow> json \<Rightarrow> database_payload option" where
  "parse_database F j =
     (if \<not> strict_keys [''version'', ''integration'', ''databaseInstanceId'', ''operationId'',
            ''operationVersion'', ''provider'', ''status'', ''message''] j \<or>
         prop_of j ''version'' \<noteq> Some (JStr ''v1'') \<or>
         prop_of j ''integration'' \<noteq> Some (JStr ''generated-database'') \<or>
         prop_of j ''provider'' \<noteq> Some (JStr ''SUPABASE'') then None
      else
        Option.bind (str_where (is_uuid F) (prop_of j ''databaseInstanceId'')) (\<lambda>i.
        Option.bind (str_where (is_uuid F) (prop_of j ''operationId'')) (\<lambda>_.
        Option.bind (num_where (\<lambda>n. 0 \<le> n) (prop_of j ''operationVersion'')) (\<lambda>v.
        Option.bind (Option.bind (str_prop (prop_of j ''status'')) parse_database_status) (\<lambda>st.
        Option.bind (optional_str (bounded_text 2000) (prop_of j ''message'')) (\<lambda>m.
        Some \<lparr>dp_databaseInstanceId = i, dp_operationVersion = nat v, dp_status = st,
              dp_message = map_option js_trim m\<rparr>))))))"

fun scope_string :: "approval_scope \<Rightarrow> string" where
  "scope_string ScopePlan = ''plan''"
| "scope_string ScopeContent = ''content''"

definition parse_scope :: "string \<Rightarrow> approval_scope option" where
  "parse_scope s = find_first_opt (\<lambda>t. scope_string t = s) [ScopePlan, ScopeContent]"

text \<open>\<open>normalizeApprovalRequiredEventPayload\<close>, with the legacy payload that names no scope.\<close>

definition read_approval :: "json \<Rightarrow> (approval_scope \<times> string) option" where
  "read_approval j =
     (if strict_keys [''version'', ''scope'', ''reason''] j \<and> prop_of j ''version'' = Some (JStr ''v1'')
      then
        Option.bind (Option.bind (str_prop (prop_of j ''scope'')) parse_scope) (\<lambda>sc.
        Option.bind (str_prop (prop_of j ''reason'')) (\<lambda>r. normalizeApprovalRequired (Some sc) r))
      else if strict_keys [''reason''] j
      then Option.bind (str_prop (prop_of j ''reason'')) (normalizeApprovalRequired None)
      else None)"

end
