(* ===== verification/WorkspaceState.thy ===== *)
theory WorkspaceState
  imports RunEvents ControlApi "HOL-Library.List_Lexorder" "HOL-Library.Char_ord"
begin

text \<open>
  What the workspace page shows: \<open>apps/web/src/lib/workspace-state.ts\<close>. A projection is folded over
  the events of the stream; payloads are read as the JSON values they are, so whatever a payload
  lacks is left as it was.
\<close>

section \<open>The projection\<close>

datatype task_view = ViewIdle | ViewQueued | ViewRunning | ViewWaiting | ViewCompleted | ViewFailed | ViewSkipped

record task_projection =
  tp_id :: "string option"
  tp_agent :: agent_name
  tp_ordinal :: "int option"
  tp_description :: "string option"
  tp_status :: task_view
  tp_attempt :: "int option"

record workspace_projection =
  wp_events :: "envelope list"
  wp_tasks :: "agent_name \<Rightarrow> task_projection"
  wp_activeAgent :: "agent_name option"
  wp_approvalReason :: "string option"
  wp_approvalScope :: "approval_scope option"
  wp_preview :: "preview_payload option"
  wp_validations :: "progress_payload list"
  wp_generatedPaths :: "string list"
  wp_database :: "database_payload option"
  wp_inferredRunStatus :: "run_status option"
  wp_error :: "string option"

definition AGENT_ORDER :: "agent_name list" where
  "AGENT_ORDER = [Sophia, Mike, Emma, Bob, Alex, David, Sarah, Adrian, CustomerSuccess]"

definition createWorkspaceProjection :: workspace_projection where
  "createWorkspaceProjection =
     \<lparr>wp_events = [],
      wp_tasks = (\<lambda>a. \<lparr>tp_id = None, tp_agent = a, tp_ordinal = None, tp_description = None,
                        tp_status = ViewIdle, tp_attempt = None\<rparr>),
      wp_activeAgent = None, wp_approvalReason = None, wp_approvalScope = None, wp_preview = None,
      wp_validations = [], wp_generatedPaths = [], wp_database = None, wp_inferredRunStatus = None,
      wp_error = None\<rparr>"

section \<open>Reading payloads\<close>

definition readAgent :: "json option \<Rightarrow> agent_name option" where
  "readAgent v =
     (case str_prop v of None \<Rightarrow> None
      | Some s \<Rightarrow> find_first_opt (\<lambda>a. agent_string a = s) AGENT_ORDER)"

definition readRunStatus :: "json option \<Rightarrow> run_status option" where
  "readRunStatus v =
     (case str_prop v of None \<Rightarrow> None
      | Some s \<Rightarrow> find_first_opt (\<lambda>t. status_string t = s)
          [PENDING, RUNNING, PAUSED, COMPLETED, FAILED, CANCELLED])"

fun readError :: "json option \<Rightarrow> string option" where
  "readError (Some (JStr s)) = Some s"
| "readError (Some j) = str_prop (prop_of j ''message'')"
| "readError None = None"

definition string_paths :: "json option \<Rightarrow> string list" where
  "string_paths v =
     (case v of
        Some (JArr vs) \<Rightarrow> List.map_filter (\<lambda>x. case x of JStr s \<Rightarrow> Some s | _ \<Rightarrow> None) vs
      | _ \<Rightarrow> [])"

definition or_else :: "'a option \<Rightarrow> 'a option \<Rightarrow> 'a option" where
  "or_else x y = (case x of None \<Rightarrow> y | Some _ \<Rightarrow> x)"

text \<open>\<open>updateTask\<close>: a patch whose undefined fields leave the task as it was.\<close>

definition updateTask ::
    "agent_name \<Rightarrow> task_view \<Rightarrow> string option \<Rightarrow> int option \<Rightarrow> string option \<Rightarrow> int option
       \<Rightarrow> workspace_projection \<Rightarrow> workspace_projection" where
  "updateTask a st i ord descr att p =
     (let t = wp_tasks p a
      in p\<lparr>wp_tasks := (wp_tasks p)(a := \<lparr>tp_id = or_else i (tp_id t), tp_agent = a,
             tp_ordinal = or_else ord (tp_ordinal t), tp_description = or_else descr (tp_description t),
             tp_status = st, tp_attempt = or_else att (tp_attempt t)\<rparr>)\<rparr>)"

section \<open>The reducer\<close>

definition record_event :: "envelope \<Rightarrow> workspace_projection \<Rightarrow> workspace_projection" where
  "record_event e p =
     (let es = sort_key en_sequence (wp_events p @ [e])
      in p\<lparr>wp_events := drop (length es - 500) es\<rparr>)"

definition on_task_created :: "json \<Rightarrow> workspace_projection \<Rightarrow> workspace_projection" where
  "on_task_created j p =
     (case readAgent (prop_of j ''agent'') of None \<Rightarrow> p
      | Some a \<Rightarrow> updateTask a ViewQueued (str_prop (prop_of j ''taskId'')) (num_prop (prop_of j ''ordinal''))
                    (str_prop (prop_of j ''description'')) None p)"

definition on_task_started :: "json \<Rightarrow> workspace_projection \<Rightarrow> workspace_projection" where
  "on_task_started j p =
     (case readAgent (prop_of j ''agent'') of None \<Rightarrow> p
      | Some a \<Rightarrow> (updateTask a ViewRunning (str_prop (prop_of j ''taskId'')) (num_prop (prop_of j ''ordinal''))
                    None (num_prop (prop_of j ''attempt'')) p)\<lparr>wp_activeAgent := Some a\<rparr>)"

definition on_task_completed :: "json \<Rightarrow> workspace_projection \<Rightarrow> workspace_projection" where
  "on_task_completed j p =
     (case readAgent (prop_of j ''agent'') of None \<Rightarrow> p
      | Some a \<Rightarrow>
          (let q = updateTask a ViewCompleted (str_prop (prop_of j ''taskId''))
                     (num_prop (prop_of j ''ordinal'')) None (num_prop (prop_of j ''attempt'')) p
           in if wp_activeAgent q = Some a then q\<lparr>wp_activeAgent := None\<rparr> else q))"

definition on_task_failed :: "json \<Rightarrow> workspace_projection \<Rightarrow> workspace_projection" where
  "on_task_failed j p =
     (case readAgent (prop_of j ''agent'') of None \<Rightarrow> p
      | Some a \<Rightarrow> (updateTask a ViewFailed None None None None p)
          \<lparr>wp_activeAgent := None,
           wp_error := or_else (readError (prop_of j ''error'')) (Some (agent_string a @ '' failed''))\<rparr>)"

definition on_task_skipped :: "json \<Rightarrow> workspace_projection \<Rightarrow> workspace_projection" where
  "on_task_skipped j p =
     (case readAgent (prop_of j ''agent'') of None \<Rightarrow> p
      | Some a \<Rightarrow> updateTask a ViewSkipped (str_prop (prop_of j ''taskId'')) (num_prop (prop_of j ''ordinal''))
                    (str_prop (prop_of j ''description'')) None p)"

definition on_approval_required :: "json \<Rightarrow> workspace_projection \<Rightarrow> workspace_projection" where
  "on_approval_required j p =
     (let approval = read_approval j;
          q = p\<lparr>wp_approvalReason :=
                  or_else (map_option snd approval) (or_else (str_prop (prop_of j ''reason''))
                    (Some ''Approval is required before the run can continue.'')),
                wp_approvalScope := map_option fst approval,
                wp_inferredRunStatus := Some PAUSED\<rparr>
      in case wp_activeAgent p of None \<Rightarrow> q
         | Some a \<Rightarrow> updateTask a ViewWaiting None None None None q)"

definition clear_approval :: "workspace_projection \<Rightarrow> workspace_projection" where
  "clear_approval p = p\<lparr>wp_approvalReason := None, wp_approvalScope := None\<rparr>"

definition on_status_changed :: "json \<Rightarrow> workspace_projection \<Rightarrow> workspace_projection" where
  "on_status_changed j p =
     (case readRunStatus (prop_of j ''to'') of None \<Rightarrow> p
      | Some s \<Rightarrow>
          (let q = p\<lparr>wp_inferredRunStatus := Some s\<rparr>
           in if s \<noteq> PAUSED then clear_approval q else q))"

definition on_run_completed :: "workspace_projection \<Rightarrow> workspace_projection" where
  "on_run_completed p =
     (clear_approval p)\<lparr>wp_inferredRunStatus := Some COMPLETED, wp_activeAgent := None\<rparr>"

definition on_run_failed :: "json \<Rightarrow> workspace_projection \<Rightarrow> workspace_projection" where
  "on_run_failed j p =
     (clear_approval p)\<lparr>wp_inferredRunStatus := Some FAILED, wp_activeAgent := None,
        wp_error := or_else (readError (prop_of j ''error''))
          (or_else (str_prop (prop_of j ''message'')) (Some ''Run failed''))\<rparr>"

definition on_preview_updated :: "formats \<Rightarrow> json \<Rightarrow> workspace_projection \<Rightarrow> workspace_projection" where
  "on_preview_updated F j p =
     (case parse_preview F j of None \<Rightarrow> p | Some pv \<Rightarrow> p\<lparr>wp_preview := Some pv\<rparr>)"

definition on_task_progress :: "formats \<Rightarrow> json \<Rightarrow> workspace_projection \<Rightarrow> workspace_projection" where
  "on_task_progress F j p =
     (case parse_progress F j of None \<Rightarrow> p
      | Some v \<Rightarrow>
          p\<lparr>wp_validations := filter (\<lambda>x. gp_step x \<noteq> gp_step v) (wp_validations p) @ [v]\<rparr>)"

definition on_code_generated :: "json \<Rightarrow> workspace_projection \<Rightarrow> workspace_projection" where
  "on_code_generated j p =
     p\<lparr>wp_generatedPaths := sort (remdups (wp_generatedPaths p @ string_paths (prop_of j ''paths'')))\<rparr>"

definition on_integration_changed :: "formats \<Rightarrow> json \<Rightarrow> workspace_projection \<Rightarrow> workspace_projection" where
  "on_integration_changed F j p =
     (case parse_database F j of None \<Rightarrow> p
      | Some x \<Rightarrow>
          (case wp_database p of
             None \<Rightarrow> p\<lparr>wp_database := Some x\<rparr>
           | Some y \<Rightarrow>
               (if dp_operationVersion y \<le> dp_operationVersion x then p\<lparr>wp_database := Some x\<rparr> else p)))"

definition apply_event :: "formats \<Rightarrow> envelope \<Rightarrow> workspace_projection \<Rightarrow> workspace_projection" where
  "apply_event F e p =
     (let j = en_payload e
      in case en_type e of
           EvTaskCreated \<Rightarrow> on_task_created j p
         | EvTaskStarted \<Rightarrow> on_task_started j p
         | EvLegacyTaskStarted \<Rightarrow> on_task_started j p
         | EvTaskCompleted \<Rightarrow> on_task_completed j p
         | EvTaskFailed \<Rightarrow> on_task_failed j p
         | EvTaskSkipped \<Rightarrow> on_task_skipped j p
         | EvApprovalRequired \<Rightarrow> on_approval_required j p
         | EvLegacyApprovalRequired \<Rightarrow> on_approval_required j p
         | EvRunStatusChanged \<Rightarrow> on_status_changed j p
         | EvRunCompleted \<Rightarrow> on_run_completed p
         | EvRunFailed \<Rightarrow> on_run_failed j p
         | EvError \<Rightarrow> on_run_failed j p
         | EvPreviewUpdated \<Rightarrow> on_preview_updated F j p
         | EvTaskProgress \<Rightarrow> on_task_progress F j p
         | EvCodeGenerated \<Rightarrow> on_code_generated j p
         | EvIntegrationStatusChanged \<Rightarrow> on_integration_changed F j p
         | _ \<Rightarrow> p)"

definition reduceRunEvent :: "formats \<Rightarrow> workspace_projection \<Rightarrow> envelope \<Rightarrow> workspace_projection" where
  "reduceRunEvent F p e =
     (if list_ex (\<lambda>x. en_sequence x = en_sequence e) (wp_events p) then p
      else apply_event F e (record_event e p))"

definition project_events :: "formats \<Rightarrow> envelope list \<Rightarrow> workspace_projection \<Rightarrow> workspace_projection" where
  "project_events F es p = foldl (reduceRunEvent F) p es"

section \<open>What the page offers\<close>

fun availableRunActions :: "run_status \<Rightarrow> run_action list" where
  "availableRunActions PENDING = [Pause, Cancel]"
| "availableRunActions RUNNING = [Pause, Cancel]"
| "availableRunActions PAUSED = [Approve, Resume, Cancel]"
| "availableRunActions FAILED = [Retry]"
| "availableRunActions COMPLETED = []"
| "availableRunActions CANCELLED = []"

text \<open>\<open>Date.parse\<close> is the parameter \<open>date\<close>; \<open>None\<close> is its NaN.\<close>

definition isPreviewExpired :: "(string \<Rightarrow> time option) \<Rightarrow> preview_payload option \<Rightarrow> time \<Rightarrow> bool" where
  "isPreviewExpired date p now =
     (case p of None \<Rightarrow> False
      | Some v \<Rightarrow>
          (if pp_status v = PvExpired then True
           else if pp_status v \<noteq> PvReady then False
           else (case date (pp_expiresAt v) of None \<Rightarrow> False | Some t \<Rightarrow> t \<le> now)))"

definition canReopenPreview ::
    "(string \<Rightarrow> time option) \<Rightarrow> run_status option \<Rightarrow> preview_payload option \<Rightarrow> time \<Rightarrow> bool" where
  "canReopenPreview date st p now =
     (case p of None \<Rightarrow> False
      | Some v \<Rightarrow> st = Some COMPLETED \<and>
          (isPreviewExpired date p now \<or> pp_status v = PvStopped \<or> pp_status v = PvError))"

datatype reopen_outcome = ReopenWaiting | ReopenReady | ReopenFailed

definition previewReopenOutcome ::
    "(string \<Rightarrow> time option) \<Rightarrow> string option \<Rightarrow> preview_payload option \<Rightarrow> time \<Rightarrow> reopen_outcome" where
  "previewReopenOutcome date baseline p now =
     (case p of None \<Rightarrow> ReopenWaiting
      | Some v \<Rightarrow>
          (if Some (pp_expiresAt v) = baseline then ReopenWaiting
           else if pp_status v = PvError then ReopenFailed
           else if pp_status v = PvReady \<and> \<not> isPreviewExpired date p now then ReopenReady
           else ReopenWaiting))"

text \<open>The fields of a parsed \<open>URL\<close>.\<close>

record url_parts =
  url_protocol :: string
  url_hostname :: string
  url_username :: string
  url_password :: string

definition isSafePreviewUrl :: "(string \<Rightarrow> url_parts option) \<Rightarrow> string option \<Rightarrow> string \<Rightarrow> bool" where
  "isSafePreviewUrl parse_url v baseDomain =
     (case v of None \<Rightarrow> False
      | Some s \<Rightarrow>
          (case parse_url s of None \<Rightarrow> False
           | Some u \<Rightarrow>
               (if 0 < length (url_username u) \<or> 0 < length (url_password u) then False
                else
                  (let local = url_hostname u = ''localhost'' \<or> url_hostname u = ''127.0.0.1'' \<or>
                               suffix ''.localhost'' (url_hostname u)
                   in if url_protocol u \<noteq> ''https:'' \<and> \<not> (url_protocol u = ''http:'' \<and> local) then False
                      else
                        (let domain = dropWhile (\<lambda>c. c = CHR ''.'') (js_toLowerCase (js_trim baseDomain));
                             host = js_toLowerCase (url_hostname u)
                         in if domain = [] then local
                            else host = domain \<or> suffix (''.'' @ domain) host)))))"

definition languageForPath :: "string \<Rightarrow> string" where
  "languageForPath path =
     (if suffix ''.tsx'' path \<or> suffix ''.ts'' path then ''typescript''
      else if suffix ''.jsx'' path \<or> suffix ''.js'' path then ''javascript''
      else if suffix ''.json'' path then ''json''
      else if suffix ''.css'' path then ''css''
      else if suffix ''.prisma'' path then ''graphql''
      else if suffix ''.md'' path then ''markdown''
      else if suffix ''.sql'' path then ''sql''
      else if suffix ''.yml'' path \<or> suffix ''.yaml'' path then ''yaml''
      else ''plaintext'')"

end
