(* ===== verification/WorkspaceProperties.thy ===== *)
theory WorkspaceProperties
  imports WorkspaceState ControlProperties
begin

text \<open>
  The workspace page: every sequence of events gives a well-formed view, replayed events change
  nothing, and the actions it offers are those the control API accepts.
\<close>

section \<open>Well-formed views\<close>

definition events_window :: "envelope list \<Rightarrow> bool" where
  "events_window es \<longleftrightarrow> sorted_wrt (<) (map en_sequence es) \<and> length es \<le> 500"

definition view_ok :: "workspace_projection \<Rightarrow> bool" where
  "view_ok p \<longleftrightarrow> (\<forall>a. tp_agent (wp_tasks p a) = a) \<and> distinct (map gp_step (wp_validations p)) \<and>
     sorted (wp_generatedPaths p) \<and> distinct (wp_generatedPaths p) \<and>
     (wp_approvalReason p = None \<longrightarrow> wp_approvalScope p = None) \<and>
     (wp_approvalReason p \<noteq> None \<longrightarrow> wp_inferredRunStatus p = Some PAUSED)"

lemma updateTask_frame [simp]:
  "wp_events (updateTask a st i ord descr att p) = wp_events p"
  "wp_validations (updateTask a st i ord descr att p) = wp_validations p"
  "wp_generatedPaths (updateTask a st i ord descr att p) = wp_generatedPaths p"
  "wp_approvalReason (updateTask a st i ord descr att p) = wp_approvalReason p"
  "wp_approvalScope (updateTask a st i ord descr att p) = wp_approvalScope p"
  "wp_inferredRunStatus (updateTask a st i ord descr att p) = wp_inferredRunStatus p"
  "wp_activeAgent (updateTask a st i ord descr att p) = wp_activeAgent p"
  "wp_database (updateTask a st i ord descr att p) = wp_database p"
  "tp_agent (wp_tasks (updateTask a st i ord descr att p) b) = (if b = a then a else tp_agent (wp_tasks p b))"
  by (simp_all add: updateTask_def Let_def)

lemmas on_event_defs = on_task_created_def on_task_started_def on_task_completed_def on_task_failed_def
  on_task_skipped_def on_approval_required_def on_status_changed_def on_run_completed_def on_run_failed_def
  on_preview_updated_def on_task_progress_def on_code_generated_def on_integration_changed_def
  clear_approval_def Let_def

lemma distinct_replace_step:
  "distinct (map gp_step vs) \<Longrightarrow> distinct (map gp_step (filter (\<lambda>x. gp_step x \<noteq> gp_step v) vs @ [v]))"
  by (induction vs) auto

lemma or_else_Some [simp]: "or_else x (Some y) \<noteq> None"
  by (simp add: or_else_def split: option.split)

lemma on_event_view:
  assumes "view_ok p"
  shows "view_ok (on_task_created j p)" "view_ok (on_task_started j p)" "view_ok (on_task_completed j p)"
    "view_ok (on_task_failed j p)" "view_ok (on_task_skipped j p)" "view_ok (on_approval_required j p)"
    "view_ok (on_status_changed j p)" "view_ok (on_run_completed p)" "view_ok (on_run_failed j p)"
    "view_ok (on_preview_updated F j p)" "view_ok (on_task_progress F j p)" "view_ok (on_code_generated j p)"
    "view_ok (on_integration_changed F j p)"
  using assms distinct_replace_step [of "wp_validations p"]
  by (auto simp: view_ok_def on_event_defs or_else_def split: option.split)

lemma apply_event_view: "view_ok p \<Longrightarrow> view_ok (apply_event F e p)"
  by (cases "en_type e") (simp_all add: apply_event_def on_event_view)

lemma on_event_events:
  "wp_events (on_task_created j p) = wp_events p" "wp_events (on_task_started j p) = wp_events p"
  "wp_events (on_task_completed j p) = wp_events p" "wp_events (on_task_failed j p) = wp_events p"
  "wp_events (on_task_skipped j p) = wp_events p" "wp_events (on_approval_required j p) = wp_events p"
  "wp_events (on_status_changed j p) = wp_events p" "wp_events (on_run_completed p) = wp_events p"
  "wp_events (on_run_failed j p) = wp_events p" "wp_events (on_preview_updated F j p) = wp_events p"
  "wp_events (on_task_progress F j p) = wp_events p" "wp_events (on_code_generated j p) = wp_events p"
  "wp_events (on_integration_changed F j p) = wp_events p"
  by (auto simp: on_event_defs split: option.split)

lemma apply_event_events [simp]: "wp_events (apply_event F e p) = wp_events p"
  by (cases "en_type e") (simp_all add: apply_event_def on_event_events)

lemma events_window_add:
  assumes "events_window es" and "\<forall>x \<in> set es. en_sequence x \<noteq> en_sequence e"
  shows "events_window (let s = sort_key en_sequence (es @ [e]) in drop (length s - 500) s)"
proof -
  let ?s = "sort_key en_sequence (es @ [e])"
  have "distinct (map en_sequence es)" using assms(1) strict_sorted_iff by (auto simp: events_window_def)
  then have "distinct (map en_sequence (es @ [e]))" using assms(2) by auto
  then have "distinct (map en_sequence ?s)" by (auto simp: distinct_map)
  then have "sorted_wrt (<) (map en_sequence ?s)" by (simp add: strict_sorted_iff)
  then have "sorted_wrt (<) (map en_sequence (drop n ?s))" for n
    by (metis drop_map sorted_wrt_drop)
  then show ?thesis by (simp add: events_window_def Let_def)
qed

lemma reduce_ok:
  assumes "events_window (wp_events p)" and "view_ok p"
  shows "events_window (wp_events (reduceRunEvent F p e)) \<and> view_ok (reduceRunEvent F p e)"
proof (cases "list_ex (\<lambda>x. en_sequence x = en_sequence e) (wp_events p)")
  case True
  then show ?thesis using assms by (simp add: reduceRunEvent_def)
next
  case False
  have "view_ok (record_event e p)" using assms(2) by (simp add: view_ok_def record_event_def Let_def)
  moreover have "events_window (wp_events (record_event e p))"
    using events_window_add [OF assms(1), of e] False by (auto simp: record_event_def list_ex_iff Let_def)
  ultimately show ?thesis using False by (simp add: reduceRunEvent_def apply_event_view)
qed

lemma project_ok:
  "events_window (wp_events p) \<Longrightarrow> view_ok p \<Longrightarrow>
     events_window (wp_events (project_events F es p)) \<and> view_ok (project_events F es p)"
proof (induction es arbitrary: p)
  case (Cons e es)
  from reduce_ok [OF Cons.prems] Cons.IH show ?case by (simp add: project_events_def)
qed (simp add: project_events_def)

lemma create_ok: "events_window (wp_events createWorkspaceProjection)" "view_ok createWorkspaceProjection"
  by (simp_all add: createWorkspaceProjection_def events_window_def view_ok_def)

text \<open>C28: The view is well formed. Whatever events arrive, in whatever order and however often, the page
  keeps at most the 500 latest events in strictly increasing order of their sequence; the task filed
  under an agent is that agent's; a validation step is shown once, with its last result; the
  generated paths are sorted without repetition; and an approval is asked for only while the run is
  shown as paused, its scope never without its reason.\<close>

theorem workspace_view_well_formed:
  "let p = project_events F es createWorkspaceProjection in
     sorted_wrt (<) (map en_sequence (wp_events p)) \<and> length (wp_events p) \<le> 500 \<and>
     map (\<lambda>a. tp_agent (wp_tasks p a)) AGENT_ORDER = AGENT_ORDER \<and>
     distinct (map gp_step (wp_validations p)) \<and>
     sorted (wp_generatedPaths p) \<and> distinct (wp_generatedPaths p) \<and>
     (case (wp_approvalReason p, wp_approvalScope p) of
        (None, None) \<Rightarrow> True | (None, Some s) \<Rightarrow> False | (Some r, s) \<Rightarrow> wp_inferredRunStatus p = Some PAUSED)"
  using project_ok [OF create_ok, of F es]
  by (auto simp: Let_def events_window_def view_ok_def AGENT_ORDER_def split: option.split)

section \<open>Replays\<close>

lemma sort_key_snoc_max:
  "sorted (map f es) \<Longrightarrow> \<forall>x \<in> set es. f x \<le> f e \<Longrightarrow> sort_key f (es @ [e]) = es @ [e]"
  by (rule sort_key_id_if_sorted) (simp add: sorted_append)

definition last_500 :: "'a list \<Rightarrow> 'a list" where
  "last_500 es = drop (length es - 500) es"

lemma last_500_snoc: "last_500 (last_500 es @ [e]) = last_500 (es @ [e])"
proof (cases "length es \<le> 500")
  case False
  then have "Suc (length es - 500) = length es - 499" by simp
  with False show ?thesis by (simp add: last_500_def)
qed (simp add: last_500_def)

lemma record_event_events: "wp_events (record_event e p) = last_500 (sort_key en_sequence (wp_events p @ [e]))"
  by (simp add: record_event_def last_500_def Let_def)

lemma project_snoc: "project_events F (es @ [e]) p = reduceRunEvent F (project_events F es p) e"
  by (simp add: project_events_def)

text \<open>Events that arrive in order are all recorded, and the last 500 are kept.\<close>

lemma project_in_order:
  "sorted_wrt (<) (map en_sequence es) \<Longrightarrow>
     wp_events (project_events F es createWorkspaceProjection) = last_500 es"
proof (induction es rule: rev_induct)
  case Nil
  then show ?case by (simp add: project_events_def createWorkspaceProjection_def last_500_def)
next
  case (snoc e es)
  have below: "en_sequence x < en_sequence e" if "x \<in> set es" for x
    using snoc.prems that by (auto simp: sorted_wrt_append)
  have sub: "set (last_500 es) \<subseteq> set es" by (simp add: last_500_def set_drop_subset)
  have ih: "wp_events (project_events F es createWorkspaceProjection) = last_500 es"
    using snoc by (simp add: sorted_wrt_append)
  have srt: "sorted (map en_sequence (last_500 es))"
    using snoc.prems by (auto simp: last_500_def sorted_wrt_append drop_map [symmetric] strict_sorted_iff
        intro: sorted_wrt_drop)
  have "sort_key en_sequence (last_500 es @ [e]) = last_500 es @ [e]"
    by (rule sort_key_snoc_max [OF srt]) (use below sub in fastforce)
  moreover have "\<not> list_ex (\<lambda>x. en_sequence x = en_sequence e) (last_500 es)"
    using below sub by (fastforce simp: list_ex_iff)
  ultimately show ?case
    unfolding project_snoc reduceRunEvent_def ih if_False by (simp add: record_event_events ih last_500_snoc)
qed

lemma replay_one:
  assumes "\<exists>x \<in> set (wp_events p). en_sequence x = en_sequence e"
  shows "reduceRunEvent F p e = p"
  using assms by (auto simp: reduceRunEvent_def list_ex_iff)

text \<open>Replays change nothing. After events that arrived in order, any further deliveries of events
  with sequence numbers among the last 500 leave the view exactly as it is, whatever they carry.\<close>

lemma replay_changes_nothing:
  assumes "sorted_wrt (<) (map en_sequence es)"
    and "en_sequence ` set ds \<subseteq> en_sequence ` set (last_500 es)"
  shows "project_events F (es @ ds) createWorkspaceProjection = project_events F es createWorkspaceProjection"
  using assms(2)
proof (induction ds rule: rev_induct)
  case (snoc d ds)
  then have "project_events F (es @ ds) createWorkspaceProjection = project_events F es createWorkspaceProjection"
    by simp
  moreover have "\<exists>x \<in> set (wp_events (project_events F es createWorkspaceProjection)). en_sequence x = en_sequence d"
    using snoc.prems project_in_order [OF assms(1)] by fastforce
  ultimately show ?case
    using replay_one by (metis append_assoc project_snoc)
qed simp

definition sample_envelope :: "nat \<Rightarrow> event_type \<Rightarrow> envelope" where
  "sample_envelope n t = \<lparr>en_sequence = n, en_runId = ''run'', en_type = t, en_payload = JNull, en_occurredAt = ''now''\<rparr>"

definition open_formats :: formats where
  "open_formats = \<lparr>is_uuid = \<lambda>s. True, is_datetime = \<lambda>s. True, is_url = \<lambda>s. True\<rparr>"

section \<open>Offered actions\<close>

text \<open>The page offers what the server accepts. For every status and action, the workspace shows the
  action exactly if the control API resolves it to a transition of a run in that status.\<close>

lemma offered_actions_accepted:
  "a \<in> set (availableRunActions st) \<longleftrightarrow>
     (case resolveRunTransition a st now of Inl e \<Rightarrow> False | Inr (patch, enqueue) \<Rightarrow> True)"
  by (cases st; cases a) (simp_all add: resolveRunTransition_def)

section \<open>The database card\<close>

text \<open>An event of an operation that was superseded does not replace what the page shows.\<close>

lemma database_version_grows:
  assumes "wp_database p = Some x"
  shows "\<exists>y. wp_database (reduceRunEvent F p e) = Some y \<and> dp_operationVersion x \<le> dp_operationVersion y"
proof -
  have "wp_database (record_event e p) = Some x" using assms by (simp add: record_event_def Let_def)
  then show ?thesis
    using assms
    by (cases "en_type e")
      (auto simp: reduceRunEvent_def apply_event_def on_event_defs split: option.split)
qed

end
