(* ===== verification/EventStream.thy ===== *)
theory EventStream
  imports RunEvents ControlApi
begin

text \<open>
  The event stream between the control API and the workspace page: the blocks that
  \<open>control-api/src/app.ts\<close> writes for an event or a heartbeat, the parser \<open>parseEventStream\<close> and the
  reconnecting loop \<open>ControlApiClient.streamRunEvents\<close> of \<open>apps/web/src/lib/control-api.ts\<close>.

  A response body is the list of its chunks as decoded text (a streaming \<open>TextDecoder\<close> splits no
  character). \<open>JSON.stringify\<close> and \<open>JSON.parse\<close> are the two functions of \<open>codec\<close>.
\<close>

record codec =
  stringify :: "json \<Rightarrow> string"
  parse_json :: "string \<Rightarrow> json option"

abbreviation NL :: char where "NL \<equiv> CHR 0x0A"
abbreviation CR :: char where "CR \<equiv> CHR 0x0D"

section \<open>The server's blocks\<close>

datatype sse_write = WriteEvent envelope | WriteHeartbeat time

fun sse_block :: "codec \<Rightarrow> sse_write \<Rightarrow> string" where
  "sse_block C (WriteEvent e) =
     ''id: '' @ nat_string (en_sequence e) @ [NL] @ ''event: '' @ event_type_string (en_type e) @ [NL] @
     ''data: '' @ stringify C (envelope_json e) @ [NL, NL]"
| "sse_block C (WriteHeartbeat t) = '': heartbeat '' @ int_string t @ [NL, NL]"

fun written_events :: "sse_write list \<Rightarrow> envelope list" where
  "written_events [] = []"
| "written_events (WriteEvent e # ws) = e # written_events ws"
| "written_events (WriteHeartbeat t # ws) = written_events ws"

section \<open>The parser\<close>

fun normalise_crlf :: "string \<Rightarrow> string" where
  "normalise_crlf [] = []"
| "normalise_crlf [c] = [c]"
| "normalise_crlf (c # d # s) =
     (if c = CR \<and> d = NL then NL # normalise_crlf s else c # normalise_crlf (d # s))"

text \<open>The text before the first empty line, and the text after it.\<close>

fun take_block :: "string \<Rightarrow> (string \<times> string) option" where
  "take_block [] = None"
| "take_block [c] = None"
| "take_block (c # d # s) =
     (if c = NL \<and> d = NL then Some ([], s) else map_option (\<lambda>(b, r). (c # b, r)) (take_block (d # s)))"

lemma take_block_shorter: "take_block s = Some (b, r) \<Longrightarrow> length r < length s"
  by (induction s arbitrary: b r rule: take_block.induct) (auto split: if_splits)

function blocks :: "string \<Rightarrow> string list \<times> string" where
  "blocks s =
     (case take_block s of
        None \<Rightarrow> ([], s)
      | Some (b, r) \<Rightarrow> (case blocks r of (bs, rest) \<Rightarrow> (b # bs, rest)))"
  by pat_completeness auto

termination
  by (relation "measure length") (auto dest: take_block_shorter)

declare blocks.simps [simp del]

definition join_lines :: "string list \<Rightarrow> string" where
  "join_lines ls = (case ls of [] \<Rightarrow> [] | l # ls \<Rightarrow> l @ concat (map (\<lambda>x. NL # x) ls))"

definition block_data :: "string \<Rightarrow> string" where
  "block_data b =
     join_lines (map (\<lambda>l. dropWhile is_space (drop 5 l)) (filter (prefix ''data:'') (split_on NL b)))"

datatype stream_error =
    BadJson
  | BadEnvelope
  | ReadFailed string

definition parse_block :: "codec \<Rightarrow> formats \<Rightarrow> string \<Rightarrow> stream_error + envelope option" where
  "parse_block C F b =
     (let data = block_data b
      in if data = [] then Inr None
         else case parse_json C data of
                None \<Rightarrow> Inl BadJson
              | Some j \<Rightarrow> (case parse_envelope F j of None \<Rightarrow> Inl BadEnvelope | Some e \<Rightarrow> Inr (Some e)))"

text \<open>What the generator yields for the blocks of a chunk, up to the first one that throws.\<close>

fun parse_blocks :: "codec \<Rightarrow> formats \<Rightarrow> string list \<Rightarrow> envelope list \<times> stream_error option" where
  "parse_blocks C F [] = ([], None)"
| "parse_blocks C F (b # bs) =
     (case parse_block C F b of
        Inl err \<Rightarrow> ([], Some err)
      | Inr r \<Rightarrow>
          (case parse_blocks C F bs of (es, x) \<Rightarrow> ((case r of None \<Rightarrow> es | Some e \<Rightarrow> e # es), x)))"

text \<open>How a body ends: it is done (or the signal was seen before the next read), or a read throws.\<close>

datatype body_end = BodyDone | BodyThrows string

fun parseEventStream ::
    "codec \<Rightarrow> formats \<Rightarrow> string \<Rightarrow> string list \<Rightarrow> body_end \<Rightarrow> envelope list \<times> stream_error option" where
  "parseEventStream C F buffer [] fin =
     ([], case fin of BodyDone \<Rightarrow> None | BodyThrows m \<Rightarrow> Some (ReadFailed m))"
| "parseEventStream C F buffer (c # cs) fin =
     (case blocks (buffer @ normalise_crlf c) of (bs, rest) \<Rightarrow>
        (case parse_blocks C F bs of
           (es, Some err) \<Rightarrow> (es, Some err)
         | (es, None) \<Rightarrow> (case parseEventStream C F rest cs fin of (es', x) \<Rightarrow> (es @ es', x))))"

section \<open>The client's loop\<close>

text \<open>
  One turn of the loop: the answer to the request with its \<open>Last-Event-ID\<close>, the answer to the read of
  the run, and whether the signal was aborted before the turn, after the body and during the pause.
\<close>

datatype 'e fetch_answer = FetchFails 'e | FetchBody "string list" body_end

record 'e turn =
  tn_aborted :: bool
  tn_fetch :: "nat \<Rightarrow> 'e fetch_answer"
  tn_abortedAfter :: bool
  tn_run :: "'e + run_status"
  tn_pauseAborted :: bool

datatype client_note =
    NoteFetch nat
  | NoteConnected bool
  | NoteEvent envelope
  | NoteRun run_status

datatype 'e loop_end = LoopReturned | LoopThrew 'e | LoopBadStream stream_error | LoopAborted | LoopRunning

text \<open>Events at or below the cursor are skipped; the others move it.\<close>

fun deliver :: "nat \<Rightarrow> envelope list \<Rightarrow> envelope list \<times> nat" where
  "deliver cursor [] = ([], cursor)"
| "deliver cursor (e # es) =
     (if en_sequence e \<le> cursor then deliver cursor es
      else (case deliver (en_sequence e) es of (ds, c) \<Rightarrow> (e # ds, c)))"

fun streamRunEvents :: "codec \<Rightarrow> formats \<Rightarrow> nat \<Rightarrow> 'e turn list \<Rightarrow> client_note list \<times> 'e loop_end" where
  "streamRunEvents C F cursor [] = ([], LoopRunning)"
| "streamRunEvents C F cursor (t # ts) =
     (if tn_aborted t then ([], LoopReturned)
      else case tn_fetch t cursor of
        FetchFails e \<Rightarrow> ([NoteFetch cursor], LoopThrew e)
      | FetchBody cs fin \<Rightarrow>
          (case parseEventStream C F [] cs fin of (es, err) \<Rightarrow>
          (case deliver cursor es of (ds, cursor') \<Rightarrow>
             (let notes = [NoteFetch cursor, NoteConnected True] @ map NoteEvent ds @ [NoteConnected False]
              in case err of
                   Some x \<Rightarrow> (notes, LoopBadStream x)
                 | None \<Rightarrow>
                     (if tn_abortedAfter t then (notes, LoopReturned)
                      else case tn_run t of
                        Inl e \<Rightarrow> (notes, LoopThrew e)
                      | Inr st \<Rightarrow>
                          (if terminal_run_status st then (notes @ [NoteRun st], LoopReturned)
                           else if tn_pauseAborted t then (notes @ [NoteRun st], LoopAborted)
                           else (case streamRunEvents C F cursor' ts of (later, r) \<Rightarrow>
                                   (notes @ [NoteRun st] @ later, r))))))))"

fun noted_events :: "client_note list \<Rightarrow> envelope list" where
  "noted_events [] = []"
| "noted_events (NoteEvent e # ns) = e # noted_events ns"
| "noted_events (_ # ns) = noted_events ns"

end
