(* ===== verification/EventStreamProperties.thy ===== *)
theory EventStreamProperties
  imports EventStream ControlProperties
begin

text \<open>
  The event stream end to end: what the server writes is what the page reads, in whatever chunks it
  arrives and wherever the connection is cut, and over any number of connections every event is
  delivered once and in order.
\<close>

section \<open>Blocks\<close>

lemma take_block_line:
  "NL \<notin> set l \<Longrightarrow> take_block (l @ s) = map_option (\<lambda>(b, r). (l @ b, r)) (take_block s)"
proof (induction l)
  case (Cons c l)
  then show ?case by (cases "l @ s") (auto simp: option.map_comp comp_def case_prod_unfold)
qed (simp add: option.map_id)

lemma take_block_append: "take_block s = Some (b, r) \<Longrightarrow> take_block (s @ t) = Some (b, r @ t)"
  by (induction s arbitrary: b r rule: take_block.induct) (auto split: if_splits)

lemma blocks_None: "take_block s = None \<Longrightarrow> blocks s = ([], s)"
  by (simp add: blocks.simps)

lemma blocks_Some: "take_block s = Some (b, r) \<Longrightarrow> blocks s = (b # fst (blocks r), snd (blocks r))"
  by (simp add: blocks.simps case_prod_beta)

lemma blocks_append: "blocks s = (bs, r) \<Longrightarrow> blocks (s @ t) = (bs @ fst (blocks (r @ t)), snd (blocks (r @ t)))"
proof (induction s arbitrary: bs r rule: blocks.induct)
  case (1 s)
  show ?case
  proof (cases "take_block s")
    case None
    then show ?thesis using 1 by (simp add: blocks_None)
  next
    case (Some p)
    obtain b q where p: "p = (b, q)" by fastforce
    obtain bs' r' where q: "blocks q = (bs', r')" by fastforce
    then have "bs = b # bs'" "r = r'" using 1(2) Some p by (simp_all add: blocks_Some)
    then show ?thesis
      using 1(1) [OF Some p [symmetric] q] take_block_append [of s b q t] Some p by (simp add: blocks_Some)
  qed
qed

lemma blocks_rest: "blocks s = (bs, r) \<Longrightarrow> take_block r = None"
proof (induction s arbitrary: bs rule: blocks.induct)
  case (1 s)
  then show ?case
    by (cases "take_block s") (auto simp: blocks_None blocks_Some, metis prod.collapse)
qed

section \<open>Chunks\<close>

lemma normalise_crlf_plain: "CR \<notin> set s \<Longrightarrow> normalise_crlf s = s"
  by (induction s rule: normalise_crlf.induct) auto

definition body_error :: "body_end \<Rightarrow> stream_error option" where
  "body_error fin = (case fin of BodyDone \<Rightarrow> None | BodyThrows m \<Rightarrow> Some (ReadFailed m))"

definition finish :: "body_end \<Rightarrow> envelope list \<times> stream_error option \<Rightarrow> envelope list \<times> stream_error option" where
  "finish fin p = (case p of (es, Some x) \<Rightarrow> (es, Some x) | (es, None) \<Rightarrow> (es, body_error fin))"

lemma parse_blocks_append:
  "parse_blocks C F (bs @ bs') =
     (case parse_blocks C F bs of (es, Some x) \<Rightarrow> (es, Some x)
      | (es, None) \<Rightarrow> (case parse_blocks C F bs' of (es', y) \<Rightarrow> (es @ es', y)))"
  by (induction bs) (auto split: sum.splits option.splits prod.splits)

text \<open>Where the body is split into chunks makes no difference, as long as no carriage return occurs.\<close>

lemma chunks_irrelevant:
  assumes "\<forall>c \<in> set cs. CR \<notin> set c" and "take_block buf = None"
  shows "parseEventStream C F buf cs fin = finish fin (parse_blocks C F (fst (blocks (buf @ concat cs))))"
  using assms
proof (induction cs arbitrary: buf)
  case Nil
  then show ?case by (simp add: blocks_None finish_def body_error_def)
next
  case (Cons c cs)
  obtain bs r where b: "blocks (buf @ c) = (bs, r)" by fastforce
  have ih: "parseEventStream C F r cs fin = finish fin (parse_blocks C F (fst (blocks (r @ concat cs))))"
    using Cons.IH [of r] Cons.prems blocks_rest [OF b] by simp
  have "blocks (buf @ concat (c # cs)) = (bs @ fst (blocks (r @ concat cs)), snd (blocks (r @ concat cs)))"
    using blocks_append [OF b, of "concat cs"] by simp
  then show ?case
    using Cons.prems b ih
    by (simp add: normalise_crlf_plain parse_blocks_append finish_def split: prod.split option.split)
qed

text \<open>With carriage returns it does: a pair split between two chunks is not recognised.\<close>

lemma split_crlf_is_lost:
  "fst (blocks (normalise_crlf [CHR ''x'', CR, NL, CR, NL])) = [''x'']"
  "fst (blocks (normalise_crlf [CHR ''x'', CR, NL, CR] @ normalise_crlf [NL])) = []"
  by (simp_all add: blocks.simps)

section \<open>What the server writes\<close>

definition codec_ok :: "codec \<Rightarrow> envelope \<Rightarrow> bool" where
  "codec_ok C e \<longleftrightarrow>
     (let s = stringify C (envelope_json e)
      in parse_json C s = Some (envelope_json e) \<and> NL \<notin> set s \<and> CR \<notin> set s \<and> prefix ''{'' s)"

lemma digit_plain: "(n :: nat) < 10 \<Longrightarrow> char_of (48 + n) \<noteq> NL \<and> char_of (48 + n) \<noteq> CR"
proof -
  assume n: "n < 10"
  then have "of_char (char_of (48 + n) :: char) = 48 + n" by simp
  moreover have "of_char NL = (10 :: nat)" "of_char CR = (13 :: nat)" by simp_all
  ultimately show ?thesis by fastforce
qed

lemma nat_string_plain: "NL \<notin> set (nat_string n) \<and> CR \<notin> set (nat_string n)"
proof (induction n rule: nat_string.induct)
  case (1 n)
  then show ?case
    using digit_plain [of n] digit_plain [of "n mod 10"]
    by (subst nat_string.simps) (subst (2) nat_string.simps, auto)
qed

lemma event_type_plain: "NL \<notin> set (event_type_string t) \<and> CR \<notin> set (event_type_string t)"
  by (cases t) simp_all

text \<open>The lines of a block, without the empty line that ends it.\<close>

fun sse_lines :: "codec \<Rightarrow> sse_write \<Rightarrow> string list" where
  "sse_lines C (WriteEvent e) =
     [''id: '' @ nat_string (en_sequence e), ''event: '' @ event_type_string (en_type e),
      ''data: '' @ stringify C (envelope_json e)]"
| "sse_lines C (WriteHeartbeat t) = ['': heartbeat '' @ int_string t]"

definition plain_write :: "codec \<Rightarrow> sse_write \<Rightarrow> bool" where
  "plain_write C x \<longleftrightarrow> (case x of WriteEvent e \<Rightarrow> codec_ok C e | WriteHeartbeat t \<Rightarrow> True)"

lemma sse_block_lines: "sse_block C x = join_lines (sse_lines C x) @ [NL, NL]"
  by (cases x) (simp_all add: join_lines_def)

lemma sse_lines_plain:
  assumes "plain_write C x" and "l \<in> set (sse_lines C x)"
  shows "NL \<notin> set l \<and> CR \<notin> set l \<and> l \<noteq> []"
  using assms nat_string_plain event_type_plain
  by (cases x) (auto simp: plain_write_def codec_ok_def int_string_def Let_def)

lemma sse_block_plain: "plain_write C x \<Longrightarrow> CR \<notin> set (sse_block C x)"
  using nat_string_plain event_type_plain
  by (cases x) (auto simp: plain_write_def codec_ok_def int_string_def Let_def)

lemma take_block_join:
  "ls \<noteq> [] \<Longrightarrow> \<forall>l \<in> set ls. NL \<notin> set l \<and> l \<noteq> [] \<Longrightarrow>
     take_block (join_lines ls @ NL # NL # s) = Some (join_lines ls, s)"
proof (induction ls)
  case (Cons l ls)
  show ?case
  proof (cases ls)
    case Nil
    then show ?thesis using Cons.prems by (simp add: join_lines_def take_block_line)
  next
    case (Cons k ks)
    have rest: "take_block (join_lines ls @ NL # NL # s) = Some (join_lines ls, s)"
      using Cons.IH Cons.prems Cons by simp
    obtain c k' where "k = c # k'" "c \<noteq> NL" using Cons.prems Cons by (cases k) auto
    then obtain t where t: "join_lines ls = c # t" "c \<noteq> NL" using Cons by (simp add: join_lines_def)
    have "join_lines (l # ls) = l @ NL # join_lines ls" using Cons by (simp add: join_lines_def)
    moreover have "take_block (NL # join_lines ls @ NL # NL # s) = Some (NL # join_lines ls, s)"
      using rest t by simp
    ultimately show ?thesis using Cons.prems by (simp add: take_block_line)
  qed
qed simp

lemma blocks_text:
  "\<forall>x \<in> set ws. plain_write C x \<Longrightarrow>
     blocks (concat (map (sse_block C) ws)) = (map (\<lambda>x. join_lines (sse_lines C x)) ws, [])"
proof (induction ws)
  case Nil
  then show ?case by (simp add: blocks_None)
next
  case (Cons x ws)
  have ne: "sse_lines C x \<noteq> []" by (cases x) simp_all
  have "take_block (sse_block C x @ concat (map (sse_block C) ws)) =
      Some (join_lines (sse_lines C x), concat (map (sse_block C) ws))"
    using take_block_join [OF ne] sse_lines_plain [of C x] Cons.prems by (simp add: sse_block_lines)
  then show ?case using Cons by (simp add: blocks_Some)
qed

lemma split_on_lines:
  "ls \<noteq> [] \<Longrightarrow> \<forall>l \<in> set ls. NL \<notin> set l \<Longrightarrow> split_on NL (join_lines ls) = ls"
proof (induction ls)
  case (Cons l ls)
  show ?case
  proof (cases ls)
    case Nil
    then show ?thesis using Cons.prems by (simp add: join_lines_def split_on_plain)
  next
    case (Cons k ks)
    then have "join_lines (l # ls) = l @ NL # join_lines ls" by (simp add: join_lines_def)
    then show ?thesis using Cons.IH Cons.prems Cons by (simp add: split_on_append split_on_plain)
  qed
qed simp

lemma parse_server_block:
  assumes "plain_write C x" and "\<And>e. x = WriteEvent e \<Longrightarrow> valid_envelope F e"
  shows "parse_block C F (join_lines (sse_lines C x)) =
    Inr (case x of WriteEvent e \<Rightarrow> Some e | WriteHeartbeat t \<Rightarrow> None)"
proof -
  have "split_on NL (join_lines (sse_lines C x)) = sse_lines C x"
    by (rule split_on_lines) (use sse_lines_plain [OF assms(1)] in \<open>cases x; simp\<close>)+
  then have data: "block_data (join_lines (sse_lines C x)) =
      join_lines (map (\<lambda>l. dropWhile is_space (drop 5 l)) (filter (prefix ''data:'') (sse_lines C x)))"
    by (simp add: block_data_def)
  show ?thesis
  proof (cases x)
    case (WriteEvent e)
    then have ok: "codec_ok C e" using assms(1) by (simp add: plain_write_def)
    then obtain t where t: "stringify C (envelope_json e) = CHR ''{'' # t"
      by (auto simp: codec_ok_def Let_def prefix_def)
    have "block_data (join_lines (sse_lines C x)) = stringify C (envelope_json e)"
      by (subst data) (simp add: WriteEvent t join_lines_def is_space_def)
    then show ?thesis
      using ok t WriteEvent parse_envelope_json [OF assms(2)] by (simp add: parse_block_def codec_ok_def Let_def)
  next
    case (WriteHeartbeat t)
    then have "block_data (join_lines (sse_lines C x)) = []" by (subst data) (simp add: join_lines_def)
    then show ?thesis using WriteHeartbeat by (simp add: parse_block_def)
  qed
qed

definition server_write_ok :: "codec \<Rightarrow> formats \<Rightarrow> sse_write \<Rightarrow> bool" where
  "server_write_ok C F x \<longleftrightarrow> plain_write C x \<and> (\<forall>e. x = WriteEvent e \<longrightarrow> valid_envelope F e)"

lemma parse_server_blocks:
  "\<forall>x \<in> set ws. server_write_ok C F x \<Longrightarrow>
     parse_blocks C F (map (\<lambda>x. join_lines (sse_lines C x)) ws) = (written_events ws, None)"
proof (induction ws)
  case (Cons x ws)
  then have "parse_block C F (join_lines (sse_lines C x)) =
      Inr (case x of WriteEvent e \<Rightarrow> Some e | WriteHeartbeat t \<Rightarrow> None)"
    by (intro parse_server_block) (auto simp: server_write_ok_def)
  then show ?case using Cons by (cases x) auto
qed simp

lemma written_events_append: "written_events (xs @ ys) = written_events xs @ written_events ys"
  by (induction xs rule: written_events.induct) auto

lemma written_take: "prefix (written_events (take n ws)) (written_events ws)"
proof -
  have "written_events ws = written_events (take n ws) @ written_events (drop n ws)"
    by (simp flip: written_events_append)
  then show ?thesis by (simp add: prefix_def)
qed

text \<open>A body that carries the text of the server up to some point.\<close>

lemma cut_body:
  assumes ok: "\<forall>x \<in> set ws. server_write_ok C F x"
    and cut: "concat cs @ rest = concat (map (sse_block C) ws)"
  obtains n where "parseEventStream C F [] cs fin = (written_events (take n ws), body_error fin)"
    "rest = [] \<longrightarrow> n = length ws"
proof -
  let ?bs = "map (\<lambda>x. join_lines (sse_lines C x)) ws"
  have plain: "\<forall>x \<in> set ws. plain_write C x" using ok by (simp add: server_write_ok_def)
  have "CR \<notin> set (concat (map (sse_block C) ws))"
    using plain sse_block_plain by auto
  then have cr: "\<forall>c \<in> set cs. CR \<notin> set c" using cut by (metis Un_iff UN_I set_append set_concat)
  obtain bs r where b: "blocks (concat cs) = (bs, r)" by fastforce
  have all: "?bs = bs @ fst (blocks (r @ rest))"
    using blocks_append [OF b, of rest] blocks_text [OF plain] cut by simp
  let ?n = "length bs"
  have bs: "bs = map (\<lambda>x. join_lines (sse_lines C x)) (take ?n ws)"
    using arg_cong [OF all, of "take ?n"] by (simp add: take_map)
  have "parse_blocks C F bs = (written_events (take ?n ws), None)"
    by (subst bs, rule parse_server_blocks) (use ok in \<open>auto dest: in_set_takeD\<close>)
  then have "parseEventStream C F [] cs fin = (written_events (take ?n ws), body_error fin)"
    using chunks_irrelevant [OF cr, of "[]" C F fin] b by (simp add: finish_def)
  moreover have "rest = [] \<longrightarrow> ?n = length ws"
    using all blocks_rest [OF b] by (auto simp: blocks_None dest: arg_cong [where f = length])
  ultimately show ?thesis by (rule that)
qed

text \<open>C29: What the server writes is what the page reads. However the text of the server's events and
  heartbeats is divided into chunks, and wherever the connection is cut, the parser yields the written
  events in order, without an error of its own: all of them if the whole text arrived, and otherwise
  those up to some point.\<close>

theorem stream_round_trip:
  assumes "\<forall>x \<in> set ws. server_write_ok C F x"
    and "concat cs @ rest = concat (map (sse_block C) ws)"
  shows "prefix (fst (parseEventStream C F [] cs fin)) (written_events ws) \<and>
    (rest = [] \<longrightarrow> fst (parseEventStream C F [] cs fin) = written_events ws) \<and>
    snd (parseEventStream C F [] cs fin) =
      (case fin of BodyDone \<Rightarrow> None | BodyThrows m \<Rightarrow> Some (ReadFailed m))"
proof -
  obtain n where "parseEventStream C F [] cs fin = (written_events (take n ws), body_error fin)"
    "rest = [] \<longrightarrow> n = length ws"
    using cut_body [OF assms] by metis
  then show ?thesis using written_take by (auto simp: body_error_def)
qed

definition sample_codec :: "envelope \<Rightarrow> codec" where
  "sample_codec e = \<lparr>stringify = \<lambda>j. ''{}'', parse_json = \<lambda>s. Some (envelope_json e)\<rparr>"

definition lax_formats :: formats where
  "lax_formats = \<lparr>is_uuid = \<lambda>s. True, is_datetime = \<lambda>s. True, is_url = \<lambda>s. True\<rparr>"

definition first_envelope :: envelope where
  "first_envelope = \<lparr>en_sequence = 1, en_runId = ''run'', en_type = EvRunCreated, en_payload = JNull, en_occurredAt = ''now''\<rparr>"

lemma sample_write_ok: "server_write_ok (sample_codec first_envelope) lax_formats (WriteEvent first_envelope)"
  by (simp add: server_write_ok_def plain_write_def codec_ok_def sample_codec_def valid_envelope_def lax_formats_def
      first_envelope_def)

theorem stream_round_trip_witness:
  "parseEventStream (sample_codec first_envelope) lax_formats []
     [take 4 (sse_block (sample_codec first_envelope) (WriteEvent first_envelope)),
      drop 4 (sse_block (sample_codec first_envelope) (WriteEvent first_envelope))] BodyDone =
   ([first_envelope], None)"
  using stream_round_trip [of "[WriteEvent first_envelope]" "sample_codec first_envelope" lax_formats
      "[take 4 (sse_block (sample_codec first_envelope) (WriteEvent first_envelope)),
        drop 4 (sse_block (sample_codec first_envelope) (WriteEvent first_envelope))]" "[]" BodyDone]
    sample_write_ok by (simp add: prod_eq_iff del: sse_block.simps)

section \<open>Over all connections\<close>

lemma deliver_order:
  "deliver c es = (ds, c') \<Longrightarrow>
     sorted_wrt (<) (c # map en_sequence ds) \<and> c' = last (c # map en_sequence ds)"
proof (induction es arbitrary: c ds)
  case (Cons e es)
  show ?case
  proof (cases "en_sequence e \<le> c")
    case False
    obtain ds1 where d: "deliver (en_sequence e) es = (ds1, c')" "ds = e # ds1"
      using Cons.prems False by (auto split: prod.splits)
    with Cons.IH [OF d(1)] False show ?thesis by fastforce
  qed (use Cons in simp)
qed simp

lemma strict_last: "sorted_wrt (<) xs \<Longrightarrow> (k :: nat) \<in> set xs \<Longrightarrow> k \<le> last xs"
  by (induction xs rule: rev_induct) (auto simp: sorted_wrt_append less_imp_le)

lemma deliver_consecutive:
  "map en_sequence es = [Suc c..<Suc c + n] \<Longrightarrow> deliver c es = (es, c + n)"
proof (induction es arbitrary: c n)
  case Nil
  then have "n = 0" by (metis le_add1 list.map_disc_iff list.size(3) length_upt add_diff_cancel_left' add_Suc)
  then show ?case by simp
next
  case (Cons e es)
  then obtain m where n: "n = Suc m" by (cases n) auto
  with Cons.prems have "en_sequence e = Suc c" "map en_sequence es = [Suc (Suc c)..<Suc (Suc c) + m]"
    by (simp_all add: upt_rec)
  with Cons.IH [of "Suc c" m] n show ?case by simp
qed

lemma noted_append [simp]: "noted_events (xs @ ys) = noted_events xs @ noted_events ys"
  by (induction xs rule: noted_events.induct) auto

lemma noted_map [simp]: "noted_events (map NoteEvent es) = es"
  by (induction es) auto

text \<open>Every request carries the number of the last event that was handed over, or the first cursor.\<close>

fun resumes :: "nat \<Rightarrow> client_note list \<Rightarrow> bool" where
  "resumes c [] = True"
| "resumes c (NoteFetch k # ns) = (k = c \<and> resumes c ns)"
| "resumes c (NoteEvent e # ns) = resumes (en_sequence e) ns"
| "resumes c (_ # ns) = resumes c ns"

lemma resumes_append:
  "resumes c (xs @ ys) \<longleftrightarrow> resumes c xs \<and> resumes (last (c # map en_sequence (noted_events xs))) ys"
  by (induction c xs rule: resumes.induct) auto

lemma resumes_events: "resumes c (map NoteEvent es)"
  by (induction es arbitrary: c) auto

definition turn_notes :: "nat \<Rightarrow> envelope list \<Rightarrow> client_note list" where
  "turn_notes c ds = [NoteFetch c, NoteConnected True] @ map NoteEvent ds @ [NoteConnected False]"

lemma turn_notes_facts [simp]:
  "noted_events (turn_notes c ds) = ds" "resumes c (turn_notes c ds)"
  by (simp_all add: turn_notes_def resumes_append resumes_events)

text \<open>What one more turn adds.\<close>

lemma streamRunEvents_Cons:
  "fst (streamRunEvents C F c (t # ts)) = [] \<or> fst (streamRunEvents C F c (t # ts)) = [NoteFetch c] \<or>
   (\<exists>cs fin es err ds c'. tn_fetch t c = FetchBody cs fin \<and> parseEventStream C F [] cs fin = (es, err) \<and>
      deliver c es = (ds, c') \<and>
      (fst (streamRunEvents C F c (t # ts)) = turn_notes c ds \<or>
       (\<exists>st. fst (streamRunEvents C F c (t # ts)) = turn_notes c ds @ [NoteRun st]) \<or>
       (\<exists>st. fst (streamRunEvents C F c (t # ts)) =
          turn_notes c ds @ [NoteRun st] @ fst (streamRunEvents C F c' ts))))"
proof (cases "tn_aborted t")
  case False
  show ?thesis
  proof (cases "tn_fetch t c")
    case (FetchBody cs fin)
    obtain es err ds c' where p: "parseEventStream C F [] cs fin = (es, err)" "deliver c es = (ds, c')"
      by fastforce
    have "fst (streamRunEvents C F c (t # ts)) = turn_notes c ds \<or>
       (\<exists>st. fst (streamRunEvents C F c (t # ts)) = turn_notes c ds @ [NoteRun st]) \<or>
       (\<exists>st. fst (streamRunEvents C F c (t # ts)) =
          turn_notes c ds @ [NoteRun st] @ fst (streamRunEvents C F c' ts))"
      using False FetchBody p
      by (auto simp: turn_notes_def Let_def case_prod_beta split: option.split sum.split)
    with FetchBody p show ?thesis by blast
  qed (use False in simp)
qed simp

text \<open>Events are handed over once and in order. Whatever the server and the network answer, over all
  connections of a session the events handed to the page have strictly increasing sequence numbers
  above the first cursor, and every request resumes after the last event that was handed over.\<close>

lemma events_delivered_in_order:
  "sorted_wrt (<) (c # map en_sequence (noted_events (fst (streamRunEvents C F c ts)))) \<and>
   resumes c (fst (streamRunEvents C F c ts))"
proof (induction ts arbitrary: c)
  case (Cons t ts)
  from streamRunEvents_Cons [of C F c t ts] show ?case
  proof (elim disjE exE conjE)
    fix cs fin es err ds c' st
    assume d: "deliver c es = (ds, c')"
      and eq: "fst (streamRunEvents C F c (t # ts)) =
        turn_notes c ds @ [NoteRun st] @ fst (streamRunEvents C F c' ts)"
    have o: "sorted_wrt (<) (c # map en_sequence ds)" and l: "c' = last (c # map en_sequence ds)"
      using deliver_order [OF d] by auto
    let ?es = "noted_events (fst (streamRunEvents C F c' ts))"
    have ih: "sorted_wrt (<) (c' # map en_sequence ?es)" "resumes c' (fst (streamRunEvents C F c' ts))"
      using Cons.IH [of c'] by auto
    have top: "k \<le> c'" if "k \<in> set (c # map en_sequence ds)" for k
      using strict_last [OF o that] l by simp
    have "sorted_wrt (<) ((c # map en_sequence ds) @ map en_sequence ?es)"
      unfolding sorted_wrt_append
    proof (intro conjI ballI)
      fix x y
      assume "x \<in> set (c # map en_sequence ds)" "y \<in> set (map en_sequence ?es)"
      then have "x \<le> c'" "c' < y" using top ih(1) by auto
      then show "x < y" by simp
    qed (use o ih(1) in simp_all)
    moreover have "resumes c (turn_notes c ds @ [NoteRun st] @ fst (streamRunEvents C F c' ts))"
      unfolding resumes_append [of c] using ih(2) l by simp
    ultimately show ?thesis unfolding eq by simp
  qed (use deliver_order in \<open>auto simp: resumes_append\<close>)
qed simp

section \<open>From the store to the page\<close>

definition server_answer ::
    "uuid \<Rightarrow> uuid \<Rightarrow> (event_row \<Rightarrow> envelope) \<Rightarrow> codec \<Rightarrow> formats \<Rightarrow> nat \<Rightarrow> string list \<Rightarrow> bool" where
  "server_answer u i enc C F c cs \<longleftrightarrow>
     (\<exists>rounds ws rest. (\<forall>(d1, d2) \<in> set rounds. db_ok d1) \<and> (\<forall>x \<in> set ws. server_write_ok C F x) \<and>
        written_events ws = map enc (fst (stream_rounds u i c rounds)) \<and>
        concat cs @ rest = concat (map (sse_block C) ws))"

text \<open>One answer, read by the page: the next events of the run, converted.\<close>

lemma answer_delivered:
  assumes answer: "server_answer u i enc C F c cs" and enc: "\<And>e. en_sequence (enc e) = e_sequence e"
    and parse: "parseEventStream C F [] cs fin = (es, err)" and deliver: "deliver c es = (ds, c')"
  shows "\<exists>n. map en_sequence ds = [Suc c..<Suc c + n] \<and> c' = c + n \<and>
    set ds \<subseteq> enc ` {e. e_runId e = i}"
proof -
  obtain rounds ws rest where ok: "\<forall>(d1, d2) \<in> set rounds. db_ok d1" "\<forall>x \<in> set ws. server_write_ok C F x"
    and ws: "written_events ws = map enc (fst (stream_rounds u i c rounds))"
    and cut: "concat cs @ rest = concat (map (sse_block C) ws)"
    using answer unfolding server_answer_def by blast
  obtain k where "parseEventStream C F [] cs fin = (written_events (take k ws), body_error fin)"
    using cut_body [OF ok(2) cut] by metis
  then have "prefix es (map enc (fst (stream_rounds u i c rounds)))"
    using parse ws written_take [of k ws] by simp
  then obtain m where es: "es = take m (map enc (fst (stream_rounds u i c rounds)))"
    by (metis append_eq_conv_conj prefix_def)
  obtain n where n: "map e_sequence (fst (stream_rounds u i c rounds)) = [Suc c..<Suc c + n]"
    using rounds_in_order [OF ok(1), of u i c] by blast
  have "map en_sequence es = take m [Suc c..<Suc c + n]"
    unfolding es n [symmetric] by (simp add: take_map enc comp_def)
  also have "\<dots> = [Suc c..<Suc c + min m n]"
    by (cases "m \<le> n") (simp_all add: take_upt min_def del: upt.simps)
  finally have seq: "map en_sequence es = [Suc c..<Suc c + min m n]" .
  have "set es \<subseteq> enc ` {e. e_runId e = i}"
    using rounds_in_order [OF ok(1), of u i c] unfolding es by (auto dest!: in_set_takeD)
  with seq deliver deliver_consecutive [OF seq] show ?thesis by auto
qed

text \<open>C30: From the store to the page. Take the page's loop over any number of connections, each answered by
  the control API for the cursor it is asked for (reading any consistent stores, with heartbeats between
  the events), divided into any chunks and cut anywhere. Then the events handed to the page are those of
  the run that follow the first cursor, one by one, with no gap and no repetition.\<close>

theorem page_receives_every_event:
  assumes "\<forall>t \<in> set ts. \<forall>c cs fin. tn_fetch t c = FetchBody cs fin \<longrightarrow> server_answer u i enc C F c cs"
    and "\<And>e. en_sequence (enc e) = e_sequence e"
  shows "(\<exists>n. map en_sequence (noted_events (fst (streamRunEvents C F c ts))) = [Suc c..<Suc c + n]) \<and>
    set (noted_events (fst (streamRunEvents C F c ts))) \<subseteq> enc ` {e. e_runId e = i}"
  using assms(1)
proof (induction ts arbitrary: c)
  case Nil
  then show ?case by (auto intro: exI [of _ 0])
next
  case (Cons t ts)
  have none: ?case if "noted_events (fst (streamRunEvents C F c (t # ts))) = []"
    unfolding that by (auto intro: exI [of _ 0])
  from streamRunEvents_Cons [of C F c t ts] show ?case
  proof (elim disjE exE conjE)
    fix cs fin es err ds c'
    assume f: "tn_fetch t c = FetchBody cs fin" "parseEventStream C F [] cs fin = (es, err)" "deliver c es = (ds, c')"
    have "server_answer u i enc C F c cs" using Cons.prems f(1) by simp
    from answer_delivered [OF this assms(2) f(2,3)] obtain n where
      n: "map en_sequence ds = [Suc c..<Suc c + n]" "c' = c + n" "set ds \<subseteq> enc ` {e. e_runId e = i}" by blast
    { assume "fst (streamRunEvents C F c (t # ts)) = turn_notes c ds"
      then show ?case using n by auto }
    { fix st assume "fst (streamRunEvents C F c (t # ts)) = turn_notes c ds @ [NoteRun st]"
      then show ?case using n by auto }
    { fix st assume eq: "fst (streamRunEvents C F c (t # ts)) =
        turn_notes c ds @ [NoteRun st] @ fst (streamRunEvents C F c' ts)"
      obtain k where k: "map en_sequence (noted_events (fst (streamRunEvents C F c' ts))) = [Suc c'..<Suc c' + k]"
        and s: "set (noted_events (fst (streamRunEvents C F c' ts))) \<subseteq> enc ` {e. e_runId e = i}"
        using Cons.IH [of c'] Cons.prems by auto
      have "map en_sequence ds @ map en_sequence (noted_events (fst (streamRunEvents C F c' ts))) =
          [Suc c..<Suc c + (n + k)]"
        using upt_append_next [OF n(1) k [unfolded n(2)]] n(2) by simp
      then show ?case unfolding eq using n(3) s by (auto simp del: upt.simps) }
  qed (use none in simp_all)
qed

definition sample_turn :: "string turn" where
  "sample_turn = \<lparr>tn_aborted = False,
     tn_fetch = (\<lambda>c. if c = 0 then FetchBody [sse_block (sample_codec first_envelope) (WriteEvent first_envelope)] BodyDone
                     else FetchFails ''down''),
     tn_abortedAfter = False, tn_run = Inr COMPLETED, tn_pauseAborted = False\<rparr>"

definition number_row :: "event_row \<Rightarrow> envelope" where
  "number_row e = first_envelope\<lparr>en_sequence := e_sequence e\<rparr>"

theorem page_receives_every_event_witness:
  "fst (streamRunEvents (sample_codec first_envelope) lax_formats 0 [sample_turn]) \<noteq> [] \<and>
   (\<exists>n. map en_sequence (noted_events (fst (streamRunEvents (sample_codec first_envelope) lax_formats 0 [sample_turn]))) =
      [Suc 0..<Suc 0 + n])"
proof -
  let ?C = "sample_codec first_envelope"
  let ?block = "sse_block ?C (WriteEvent first_envelope)"
  have rows: "map number_row (fst (stream_rounds 7 3 0 [(sample_db, sample_db)])) = [first_envelope]"
    by code_simp
  have "server_answer 7 3 number_row ?C lax_formats 0 [?block]"
    unfolding server_answer_def
    by (intro exI [of _ "[(sample_db, sample_db)]"] exI [of _ "[WriteEvent first_envelope]"] exI [of _ "[]"])
      (simp add: db_ok_sample sample_write_ok rows del: sse_block.simps stream_rounds.simps)
  then have "\<forall>t \<in> set [sample_turn]. \<forall>c cs fin. tn_fetch t c = FetchBody cs fin \<longrightarrow>
      server_answer 7 3 number_row ?C lax_formats c cs"
    by (auto simp: sample_turn_def split: if_splits)
  moreover have "en_sequence (number_row e) = e_sequence e" for e by (simp add: number_row_def)
  ultimately have "\<exists>n. map en_sequence (noted_events (fst (streamRunEvents ?C lax_formats 0 [sample_turn]))) =
      [Suc 0..<Suc 0 + n]"
    using page_receives_every_event by blast
  moreover have "fst (streamRunEvents ?C lax_formats 0 [sample_turn]) \<noteq> []"
    by (simp add: sample_turn_def Let_def case_prod_beta split: option.split)
  ultimately show ?thesis by blast
qed

end
