(* ===== verification/Quality.thy ===== *)
theory Quality
  imports RunEvents "HOL-Library.List_Lexorder" "HOL-Library.Char_ord" "HOL-Library.AList"
begin

text \<open>
  The release evaluator of \<open>packages/quality\<close>: the schemas of \<open>schema.ts\<close> as predicates on typed
  records and \<open>evaluateRelease\<close> of \<open>evaluate.ts\<close>. Identifiers and dates are the strings the code
  compares and sorts; \<open>Date.parse\<close> of a valid date is the parameter \<open>date\<close>.
\<close>

section \<open>Schemas\<close>

text \<open>What an optional or nullable schema accepts.\<close>

fun opt_all :: "('a \<Rightarrow> bool) \<Rightarrow> 'a option \<Rightarrow> bool" where
  "opt_all p None \<longleftrightarrow> True"
| "opt_all p (Some x) \<longleftrightarrow> p x"

datatype check_kind =
    CK_LINT | CK_TYPECHECK | CK_TEST | CK_BUILD | CK_REGRESSION | CK_E2E | CK_ACCESSIBILITY
  | CK_PERFORMANCE | CK_SECURITY

fun check_kind_string :: "check_kind \<Rightarrow> string" where
  "check_kind_string CK_LINT = ''LINT''"
| "check_kind_string CK_TYPECHECK = ''TYPECHECK''"
| "check_kind_string CK_TEST = ''TEST''"
| "check_kind_string CK_BUILD = ''BUILD''"
| "check_kind_string CK_REGRESSION = ''REGRESSION''"
| "check_kind_string CK_E2E = ''E2E''"
| "check_kind_string CK_ACCESSIBILITY = ''ACCESSIBILITY''"
| "check_kind_string CK_PERFORMANCE = ''PERFORMANCE''"
| "check_kind_string CK_SECURITY = ''SECURITY''"

definition BASELINE_CHECKS :: "check_kind list" where
  "BASELINE_CHECKS = [CK_LINT, CK_TYPECHECK, CK_TEST, CK_BUILD]"

definition CheckKindSchema :: "check_kind list" where
  "CheckKindSchema = BASELINE_CHECKS @ [CK_REGRESSION, CK_E2E, CK_ACCESSIBILITY, CK_PERFORMANCE, CK_SECURITY]"

definition max_safe :: int where
  "max_safe = 9007199254740991"

record quality_scope =
  qs_workspaceId :: string
  qs_projectId :: string
  qs_runId :: string
  qs_controlVersion :: int
  qs_attempt :: int
  qs_snapshotSha256 :: string

definition dec_digit :: "char \<Rightarrow> bool" where
  "dec_digit c \<longleftrightarrow> CHR ''0'' \<le> c \<and> c \<le> CHR ''9''"

definition lower_letter :: "char \<Rightarrow> bool" where
  "lower_letter c \<longleftrightarrow> CHR ''a'' \<le> c \<and> c \<le> CHR ''z''"

definition valid_sha256 :: "string \<Rightarrow> bool" where
  "valid_sha256 s \<longleftrightarrow> length s = 64 \<and> list_all (\<lambda>c. dec_digit c \<or> CHR ''a'' \<le> c \<and> c \<le> CHR ''f'') s"

definition valid_quality_scope :: "formats \<Rightarrow> quality_scope \<Rightarrow> bool" where
  "valid_quality_scope F s \<longleftrightarrow>
     is_uuid F (qs_workspaceId s) \<and> is_uuid F (qs_projectId s) \<and> is_uuid F (qs_runId s) \<and>
     0 \<le> qs_controlVersion s \<and> qs_controlVersion s \<le> max_safe \<and>
     1 \<le> qs_attempt s \<and> qs_attempt s \<le> max_safe \<and> valid_sha256 (qs_snapshotSha256 s)"

text \<open>\<open>/^US-[0-9]{3}$/\<close>, \<open>/^US-[0-9]{3}:[1-9][0-9]?$/\<close> and \<open>/^[a-z][a-z0-9_]*(\.[a-z][a-z0-9_]*)+$/\<close>.\<close>

definition valid_story_id :: "string \<Rightarrow> bool" where
  "valid_story_id s \<longleftrightarrow> length s = 6 \<and> prefix ''US-'' s \<and> list_all dec_digit (drop 3 s)"

definition valid_criterion_id :: "string \<Rightarrow> bool" where
  "valid_criterion_id s \<longleftrightarrow>
     valid_story_id (take 6 s) \<and>
     (case drop 6 s of
        [c, d] \<Rightarrow> c = CHR '':'' \<and> dec_digit d \<and> d \<noteq> CHR ''0''
      | [c, d, e] \<Rightarrow> c = CHR '':'' \<and> dec_digit d \<and> d \<noteq> CHR ''0'' \<and> dec_digit e
      | _ \<Rightarrow> False)"

definition key_segment :: "string \<Rightarrow> bool" where
  "key_segment s \<longleftrightarrow>
     (case s of [] \<Rightarrow> False
      | c # cs \<Rightarrow> lower_letter c \<and> list_all (\<lambda>d. lower_letter d \<or> dec_digit d \<or> d = CHR ''_'') cs)"

definition valid_criterion_key :: "string \<Rightarrow> bool" where
  "valid_criterion_key s \<longleftrightarrow> (let parts = split_on (CHR ''.'') s in 2 \<le> length parts \<and> list_all key_segment parts)"

definition valid_task_attempt :: "int \<Rightarrow> bool" where
  "valid_task_attempt n \<longleftrightarrow> 0 \<le> n \<and> n \<le> max_safe"

record criterion =
  cr_id :: string
  cr_key :: string
  cr_text :: string

record acceptance_snapshot =
  ac_taskId :: string
  ac_taskAttempt :: int
  ac_scope :: quality_scope
  ac_criteria :: "criterion list"

definition valid_criterion :: "criterion \<Rightarrow> bool" where
  "valid_criterion c \<longleftrightarrow> valid_criterion_id (cr_id c) \<and> valid_criterion_key (cr_key c) \<and> bounded_text 4000 (cr_text c)"

definition valid_acceptance :: "formats \<Rightarrow> acceptance_snapshot \<Rightarrow> bool" where
  "valid_acceptance F a \<longleftrightarrow>
     is_uuid F (ac_taskId a) \<and> valid_task_attempt (ac_taskAttempt a) \<and> valid_quality_scope F (ac_scope a) \<and>
     1 \<le> length (ac_criteria a) \<and> length (ac_criteria a) \<le> 1000 \<and> list_all valid_criterion (ac_criteria a) \<and>
     distinct (map cr_id (ac_criteria a))"

datatype evidence_status = EV_PASSED | EV_FAILED | EV_SKIPPED | EV_ERROR

datatype evidence_kind = CheckEvidence check_kind | AcceptanceEvidence

record quality_evidence =
  qe_id :: string
  qe_sourceArtifactId :: string
  qe_scope :: quality_scope
  qe_kind :: evidence_kind
  qe_status :: evidence_status
  qe_completedAt :: string
  qe_acceptanceTaskId :: "string option"
  qe_acceptanceTaskAttempt :: "int option"
  qe_criterionIds :: "string list"

definition valid_evidence :: "formats \<Rightarrow> quality_evidence \<Rightarrow> bool" where
  "valid_evidence F e \<longleftrightarrow>
     is_uuid F (qe_id e) \<and> is_uuid F (qe_sourceArtifactId e) \<and> valid_quality_scope F (qe_scope e) \<and>
     is_datetime F (qe_completedAt e) \<and> opt_all (is_uuid F) (qe_acceptanceTaskId e) \<and>
     opt_all valid_task_attempt (qe_acceptanceTaskAttempt e) \<and>
     length (qe_criterionIds e) \<le> 1000 \<and> list_all valid_criterion_id (qe_criterionIds e) \<and>
     (if qe_kind e = AcceptanceEvidence
      then qe_acceptanceTaskId e \<noteq> None \<and> qe_acceptanceTaskAttempt e \<noteq> None \<and> qe_criterionIds e \<noteq> []
      else qe_acceptanceTaskId e = None \<and> qe_acceptanceTaskAttempt e = None \<and> qe_criterionIds e = []) \<and>
     distinct (qe_criterionIds e)"

record quality_policy =
  qp_requiredChecks :: "check_kind list"
  qp_maxEvidenceAgeSeconds :: int

definition valid_policy :: "quality_policy \<Rightarrow> bool" where
  "valid_policy p \<longleftrightarrow>
     length BASELINE_CHECKS \<le> length (qp_requiredChecks p) \<and>
     length (qp_requiredChecks p) \<le> length CheckKindSchema \<and>
     1 \<le> qp_maxEvidenceAgeSeconds p \<and> qp_maxEvidenceAgeSeconds p \<le> 604800 \<and>
     list_all (\<lambda>k. k \<in> set (qp_requiredChecks p)) BASELINE_CHECKS \<and> distinct (qp_requiredChecks p)"

definition STANDARD_RELEASE_POLICY :: quality_policy where
  "STANDARD_RELEASE_POLICY = \<lparr>qp_requiredChecks = CheckKindSchema, qp_maxEvidenceAgeSeconds = 86400\<rparr>"

record evaluation_input =
  ei_scope :: quality_scope
  ei_evaluatedAt :: string
  ei_policy :: quality_policy
  ei_acceptance :: "acceptance_snapshot option"
  ei_evidence :: "quality_evidence list"

definition valid_evaluation_input :: "formats \<Rightarrow> evaluation_input \<Rightarrow> bool" where
  "valid_evaluation_input F i \<longleftrightarrow>
     valid_quality_scope F (ei_scope i) \<and> is_datetime F (ei_evaluatedAt i) \<and> valid_policy (ei_policy i) \<and>
     opt_all (valid_acceptance F) (ei_acceptance i) \<and>
     length (ei_evidence i) \<le> 2000 \<and> list_all (valid_evidence F) (ei_evidence i)"

section \<open>Reports\<close>

datatype issue_code =
    MISSING_ACCEPTANCE | ACCEPTANCE_SCOPE_MISMATCH | DUPLICATE_EVIDENCE | EVIDENCE_SCOPE_MISMATCH
  | EVIDENCE_FROM_FUTURE | EVIDENCE_TOO_OLD | ACCEPTANCE_TASK_MISMATCH | UNKNOWN_CRITERION
  | EVIDENCE_NOT_PASSED | MISSING_CHECK | MISSING_CRITERION_EVIDENCE

fun issue_code_string :: "issue_code \<Rightarrow> string" where
  "issue_code_string MISSING_ACCEPTANCE = ''MISSING_ACCEPTANCE''"
| "issue_code_string ACCEPTANCE_SCOPE_MISMATCH = ''ACCEPTANCE_SCOPE_MISMATCH''"
| "issue_code_string DUPLICATE_EVIDENCE = ''DUPLICATE_EVIDENCE''"
| "issue_code_string EVIDENCE_SCOPE_MISMATCH = ''EVIDENCE_SCOPE_MISMATCH''"
| "issue_code_string EVIDENCE_FROM_FUTURE = ''EVIDENCE_FROM_FUTURE''"
| "issue_code_string EVIDENCE_TOO_OLD = ''EVIDENCE_TOO_OLD''"
| "issue_code_string ACCEPTANCE_TASK_MISMATCH = ''ACCEPTANCE_TASK_MISMATCH''"
| "issue_code_string UNKNOWN_CRITERION = ''UNKNOWN_CRITERION''"
| "issue_code_string EVIDENCE_NOT_PASSED = ''EVIDENCE_NOT_PASSED''"
| "issue_code_string MISSING_CHECK = ''MISSING_CHECK''"
| "issue_code_string MISSING_CRITERION_EVIDENCE = ''MISSING_CRITERION_EVIDENCE''"

record quality_issue =
  qi_code :: issue_code
  qi_evidenceId :: "string option"
  qi_check :: "check_kind option"
  qi_criterionId :: "string option"

text \<open>\<open>JSON.stringify\<close> of an issue, whose strings contain nothing that JSON escapes.\<close>

definition quoted :: "string \<Rightarrow> string" where
  "quoted s = CHR 0x22 # s @ [CHR 0x22]"

definition member_text :: "string \<Rightarrow> string \<Rightarrow> string" where
  "member_text k v = quoted k @ '':'' @ quoted v"

definition optional_text :: "string \<Rightarrow> string option \<Rightarrow> string" where
  "optional_text k v = (case v of None \<Rightarrow> [] | Some s \<Rightarrow> '','' @ member_text k s)"

definition issue_text :: "quality_issue \<Rightarrow> string" where
  "issue_text i =
     ''{'' @ member_text ''code'' (issue_code_string (qi_code i)) @
     optional_text ''evidenceId'' (qi_evidenceId i) @
     optional_text ''check'' (map_option check_kind_string (qi_check i)) @
     optional_text ''criterionId'' (qi_criterionId i) @ ''}''"

datatype coverage_status = CovPassed | CovBlocked

record coverage_report =
  cv_status :: coverage_status
  cv_evidenceIds :: "string list"

datatype assessment_status = AS_READY | AS_BLOCKED

record release_assessment =
  as_scope :: quality_scope
  as_evaluatedAt :: string
  as_policy :: quality_policy
  as_status :: assessment_status
  as_acceptanceTaskId :: "string option"
  as_checks :: "(check_kind \<times> coverage_report) list"
  as_trace :: "(string \<times> coverage_report) list"
  as_issues :: "quality_issue list"

definition complete_coverage :: "release_assessment \<Rightarrow> bool" where
  "complete_coverage a \<longleftrightarrow>
     as_acceptanceTaskId a \<noteq> None \<and> as_trace a \<noteq> [] \<and>
     length (as_checks a) = length (qp_requiredChecks (as_policy a)) \<and>
     distinct (map fst (as_checks a)) \<and>
     list_all (\<lambda>k. list_ex (\<lambda>c. fst c = k) (as_checks a)) (qp_requiredChecks (as_policy a)) \<and>
     distinct (map fst (as_trace a)) \<and>
     list_all (\<lambda>v. cv_status v = CovPassed \<and> cv_evidenceIds v \<noteq> [])
       (map snd (as_checks a) @ map snd (as_trace a))"

definition valid_coverage :: "formats \<Rightarrow> coverage_report \<Rightarrow> bool" where
  "valid_coverage F v \<longleftrightarrow> list_all (is_uuid F) (cv_evidenceIds v) \<and> length (cv_evidenceIds v) \<le> 2000"

definition valid_issue :: "formats \<Rightarrow> quality_issue \<Rightarrow> bool" where
  "valid_issue F i \<longleftrightarrow> opt_all (is_uuid F) (qi_evidenceId i) \<and> opt_all valid_criterion_id (qi_criterionId i)"

definition valid_assessment :: "formats \<Rightarrow> release_assessment \<Rightarrow> bool" where
  "valid_assessment F a \<longleftrightarrow>
     valid_quality_scope F (as_scope a) \<and> is_datetime F (as_evaluatedAt a) \<and> valid_policy (as_policy a) \<and>
     opt_all (is_uuid F) (as_acceptanceTaskId a) \<and>
     length (as_checks a) \<le> 9 \<and> list_all (\<lambda>(k, v). valid_coverage F v) (as_checks a) \<and>
     length (as_trace a) \<le> 1000 \<and>
     list_all (\<lambda>(c, v). valid_criterion_id c \<and> valid_coverage F v) (as_trace a) \<and>
     list_all (valid_issue F) (as_issues a) \<and>
     (as_status a = AS_READY) = (as_issues a = []) \<and>
     (as_status a = AS_READY \<longrightarrow> complete_coverage a)"

section \<open>The evaluator\<close>

definition issue_of :: "issue_code \<Rightarrow> quality_issue" where
  "issue_of c = \<lparr>qi_code = c, qi_evidenceId = None, qi_check = None, qi_criterionId = None\<rparr>"

definition acceptance_matches :: "evaluation_input \<Rightarrow> bool" where
  "acceptance_matches i = (case ei_acceptance i of None \<Rightarrow> False | Some a \<Rightarrow> ei_scope i = ac_scope a)"

definition acceptance_issues :: "evaluation_input \<Rightarrow> quality_issue list" where
  "acceptance_issues i =
     (case ei_acceptance i of
        None \<Rightarrow> [issue_of MISSING_ACCEPTANCE]
      | Some a \<Rightarrow> (if acceptance_matches i then [] else [issue_of ACCEPTANCE_SCOPE_MISMATCH]))"

definition acceptance_criteria :: "evaluation_input \<Rightarrow> criterion list" where
  "acceptance_criteria i = (case ei_acceptance i of None \<Rightarrow> [] | Some a \<Rightarrow> ac_criteria a)"

definition attests_task :: "evaluation_input \<Rightarrow> quality_evidence \<Rightarrow> bool" where
  "attests_task i e \<longleftrightarrow> acceptance_matches i \<and>
     qe_acceptanceTaskId e = map_option ac_taskId (ei_acceptance i) \<and>
     qe_acceptanceTaskAttempt e = map_option ac_taskAttempt (ei_acceptance i)"

text \<open>What makes a piece of evidence unusable.\<close>

definition reject_issues :: "(string \<Rightarrow> time) \<Rightarrow> evaluation_input \<Rightarrow> quality_evidence \<Rightarrow> quality_issue list" where
  "reject_issues date i e =
     (let reject = (\<lambda>c. (issue_of c)\<lparr>qi_evidenceId := Some (qe_id e)\<rparr>);
          age = date (ei_evaluatedAt i) - date (qe_completedAt e)
      in (if 1 < count_list (map qe_id (ei_evidence i)) (qe_id e) then [reject DUPLICATE_EVIDENCE] else []) @
         (if ei_scope i \<noteq> qe_scope e then [reject EVIDENCE_SCOPE_MISMATCH] else []) @
         (if age < 0 then [reject EVIDENCE_FROM_FUTURE]
          else if qp_maxEvidenceAgeSeconds (ei_policy i) * 1000 < age then [reject EVIDENCE_TOO_OLD] else []) @
         (if qe_kind e = AcceptanceEvidence
          then (if attests_task i e then [] else [reject ACCEPTANCE_TASK_MISMATCH]) @
               map (\<lambda>c. (reject UNKNOWN_CRITERION)\<lparr>qi_criterionId := Some c\<rparr>)
                 (filter (\<lambda>c. c \<notin> cr_id ` set (acceptance_criteria i)) (qe_criterionIds e))
          else []))"

definition evidence_issues :: "(string \<Rightarrow> time) \<Rightarrow> evaluation_input \<Rightarrow> quality_evidence \<Rightarrow> quality_issue list" where
  "evidence_issues date i e =
     reject_issues date i e @
     (if qe_status e \<noteq> EV_PASSED
      then [(issue_of EVIDENCE_NOT_PASSED)\<lparr>qi_evidenceId := Some (qe_id e)\<rparr>] else [])"

definition accepted_evidence :: "(string \<Rightarrow> time) \<Rightarrow> evaluation_input \<Rightarrow> quality_evidence list" where
  "accepted_evidence date i = filter (\<lambda>e. reject_issues date i e = []) (ei_evidence i)"

definition coverage :: "quality_evidence list \<Rightarrow> coverage_report" where
  "coverage es =
     \<lparr>cv_status = (if 0 < length es \<and> list_all (\<lambda>e. qe_status e = EV_PASSED) es then CovPassed else CovBlocked),
      cv_evidenceIds = sort (map qe_id es)\<rparr>"

definition sorted_checks :: "evaluation_input \<Rightarrow> check_kind list" where
  "sorted_checks i = sort_key check_kind_string (qp_requiredChecks (ei_policy i))"

definition check_evidence :: "(string \<Rightarrow> time) \<Rightarrow> evaluation_input \<Rightarrow> check_kind \<Rightarrow> quality_evidence list" where
  "check_evidence date i k = filter (\<lambda>e. qe_kind e = CheckEvidence k) (accepted_evidence date i)"

definition criterion_evidence :: "(string \<Rightarrow> time) \<Rightarrow> evaluation_input \<Rightarrow> string \<Rightarrow> quality_evidence list" where
  "criterion_evidence date i c =
     (if acceptance_matches i
      then filter (\<lambda>e. qe_kind e = AcceptanceEvidence \<and> c \<in> set (qe_criterionIds e)) (accepted_evidence date i)
      else [])"

definition all_issues :: "(string \<Rightarrow> time) \<Rightarrow> evaluation_input \<Rightarrow> quality_issue list" where
  "all_issues date i =
     acceptance_issues i @ concat (map (evidence_issues date i) (ei_evidence i)) @
     map (\<lambda>k. (issue_of MISSING_CHECK)\<lparr>qi_check := Some k\<rparr>)
       (filter (\<lambda>k. check_evidence date i k = []) (sorted_checks i)) @
     map (\<lambda>c. (issue_of MISSING_CRITERION_EVIDENCE)\<lparr>qi_criterionId := Some (cr_id c)\<rparr>)
       (filter (\<lambda>c. criterion_evidence date i (cr_id c) = []) (acceptance_criteria i))"

text \<open>\<open>new Map(entries)\<close>: a key keeps its first place and takes its last value.\<close>

definition map_entries :: "('k \<times> 'v) list \<Rightarrow> ('k \<times> 'v) list" where
  "map_entries kvs = fold (\<lambda>(k, v) m. AList.update k v m) kvs []"

definition unique_issues :: "quality_issue list \<Rightarrow> quality_issue list" where
  "unique_issues issues = map snd (sort_key fst (map_entries (map (\<lambda>i. (issue_text i, i)) issues)))"

datatype quality_error = QUALITY_INPUT_INVALID | ASSESSMENT_INVALID | NOT_ITERABLE

definition assessment_report :: "(string \<Rightarrow> time) \<Rightarrow> evaluation_input \<Rightarrow> release_assessment" where
  "assessment_report date i =
     (let issues = unique_issues (all_issues date i)
      in \<lparr>as_scope = ei_scope i, as_evaluatedAt = ei_evaluatedAt i,
          as_policy = (ei_policy i)\<lparr>qp_requiredChecks := sorted_checks i\<rparr>,
          as_status = (if length issues = 0 then AS_READY else AS_BLOCKED),
          as_acceptanceTaskId = map_option ac_taskId (ei_acceptance i),
          as_checks = map (\<lambda>k. (k, coverage (check_evidence date i k))) (sorted_checks i),
          as_trace = sort_key fst (map (\<lambda>c. (cr_id c, coverage (criterion_evidence date i (cr_id c))))
                       (acceptance_criteria i)),
          as_issues = issues\<rparr>)"

definition evaluateRelease ::
    "formats \<Rightarrow> (string \<Rightarrow> time) \<Rightarrow> evaluation_input \<Rightarrow> quality_error + release_assessment" where
  "evaluateRelease F date i =
     (if \<not> valid_evaluation_input F i then Inl QUALITY_INPUT_INVALID
      else let a = assessment_report date i
           in if valid_assessment F a then Inr a else Inl ASSESSMENT_INVALID)"

end
