(* ===== verification/ReleaseAssessor.thy ===== *)
theory ReleaseAssessor
  imports Quality SandboxRepository
begin

text \<open>
  What feeds the release evaluator and what becomes of its report: the adapters of
  \<open>packages/quality/src/adapters.ts\<close>, the worker's \<open>release-repository.ts\<close> and
  \<open>release-assessor.ts\<close>, and the on-demand trigger of the control API's \<open>release-repository.ts\<close>.

  Identifiers of rows are numbers in the tables of the run and texts in the quality package:
  \<open>text_of\<close> renders them, \<open>command_id\<close> is the generated identifier of the command row of a session and
  ordinal. \<open>iso\<close> is \<open>Date.toISOString\<close>, \<open>decode\<close> is \<open>JSON.parse\<close> of a line into the typed
  shape of a scenario report, \<open>digest\<close> is SHA-256 over the JSON text of the snapshot.
\<close>

section \<open>The acceptance snapshot\<close>

record emma_story =
  es_id :: string
  es_criteria :: "(string \<times> string) list"

definition json_text :: "string \<Rightarrow> json \<Rightarrow> string option" where
  "json_text k j = (case j of JObj kvs \<Rightarrow> (case map_of kvs k of Some (JStr s) \<Rightarrow> Some s | _ \<Rightarrow> None) | _ \<Rightarrow> None)"

definition json_array :: "string \<Rightarrow> nat \<Rightarrow> json \<Rightarrow> json list option" where
  "json_array k n j =
     (case j of
        JObj kvs \<Rightarrow>
          (case map_of kvs k of
             Some (JArr xs) \<Rightarrow> (if 1 \<le> length xs \<and> length xs \<le> n then Some xs else None)
           | _ \<Rightarrow> None)
      | _ \<Rightarrow> None)"

definition parse_emma_criterion :: "json \<Rightarrow> (string \<times> string) option" where
  "parse_emma_criterion j =
     Option.bind (json_text ''key'' j) (\<lambda>k.
     Option.bind (json_text ''text'' j) (\<lambda>t.
       if valid_criterion_key k \<and> bounded_text 4000 t then Some (k, js_trim t) else None))"

definition parse_emma_story :: "json \<Rightarrow> emma_story option" where
  "parse_emma_story j =
     Option.bind (json_text ''id'' j) (\<lambda>i.
     Option.bind (json_array ''acceptanceCriteria'' 20 j) (\<lambda>cs.
     Option.bind (those (map parse_emma_criterion cs)) (\<lambda>criteria.
       if valid_story_id i then Some \<lparr>es_id = i, es_criteria = criteria\<rparr> else None)))"

definition EmmaCriteriaSchema :: "json \<Rightarrow> emma_story list option" where
  "EmmaCriteriaSchema j =
     Option.bind (json_array ''userStories'' 50 j) (\<lambda>stories. those (map parse_emma_story stories))"

definition story_criteria :: "emma_story \<Rightarrow> criterion list" where
  "story_criteria s =
     map (\<lambda>(n, k, t). \<lparr>cr_id = es_id s @ '':'' @ nat_string (n + 1), cr_key = k, cr_text = t\<rparr>)
       (enumerate 0 (es_criteria s))"

definition createAcceptanceSnapshot ::
    "formats \<Rightarrow> quality_scope \<Rightarrow> string \<Rightarrow> int \<Rightarrow> json \<Rightarrow> quality_error + acceptance_snapshot" where
  "createAcceptanceSnapshot F scope taskId taskAttempt output =
     (case EmmaCriteriaSchema output of
        None \<Rightarrow> Inl QUALITY_INPUT_INVALID
      | Some stories \<Rightarrow>
          (if \<not> distinct (map es_id stories) then Inl QUALITY_INPUT_INVALID
           else let a = \<lparr>ac_taskId = taskId, ac_taskAttempt = taskAttempt, ac_scope = scope,
                         ac_criteria = concat (map story_criteria stories)\<rparr>
                in if valid_acceptance F a then Inr a else Inl QUALITY_INPUT_INVALID))"

section \<open>Scenarios and criteria\<close>

record criterion_resolution =
  cx_ids :: "(string \<times> string list) list"
  cx_unresolved :: "(string \<times> string list) list"

definition ids_by_key :: "acceptance_snapshot \<Rightarrow> string \<Rightarrow> string list" where
  "ids_by_key a k = map cr_id (filter (\<lambda>c. cr_key c = k) (ac_criteria a))"

definition resolveCriterionIdsByScenario ::
    "acceptance_snapshot \<Rightarrow> (string \<times> string list) list \<Rightarrow> criterion_resolution" where
  "resolveCriterionIdsByScenario a keys =
     \<lparr>cx_ids = filter (\<lambda>(s, ids). ids \<noteq> []) (map (\<lambda>(s, ks). (s, concat (map (ids_by_key a) ks))) keys),
      cx_unresolved = filter (\<lambda>(s, missing). missing \<noteq> [])
        (map (\<lambda>(s, ks). (s, filter (\<lambda>k. ids_by_key a k = []) ks)) keys)\<rparr>"

section \<open>Evidence from commands\<close>

definition step_kinds :: "validation_step \<Rightarrow> check_kind option" where
  "step_kinds s =
     (case s of Lint \<Rightarrow> Some CK_LINT | Typecheck \<Rightarrow> Some CK_TYPECHECK | Test \<Rightarrow> Some CK_TEST | Build \<Rightarrow> Some CK_BUILD
      | _ \<Rightarrow> None)"

definition quality_step :: "validation_step \<Rightarrow> bool" where
  "quality_step s \<longleftrightarrow>
     s \<in> {Install, PrismaValidate, Lint, Typecheck, Test, Build, PreviewStart, PreviewHealth}"

record quality_step_input =
  qv_name :: validation_step
  qv_startedAt :: string
  qv_completedAt :: string
  qv_exitCode :: int
  qv_error :: "string option"

definition parse_evidence :: "formats \<Rightarrow> quality_evidence \<Rightarrow> quality_error + quality_evidence" where
  "parse_evidence F e = (if valid_evidence F e then Inr e else Inl QUALITY_INPUT_INVALID)"

definition evidenceFromValidationStep ::
    "formats \<Rightarrow> (string \<Rightarrow> time) \<Rightarrow> quality_scope \<Rightarrow> string \<Rightarrow> quality_step_input \<Rightarrow>
     quality_error + quality_evidence option" where
  "evidenceFromValidationStep F date scope commandId s =
     (if \<not> (quality_step (qv_name s) \<and> is_datetime F (qv_startedAt s) \<and> is_datetime F (qv_completedAt s) \<and>
            date (qv_startedAt s) \<le> date (qv_completedAt s))
      then Inl QUALITY_INPUT_INVALID
      else case step_kinds (qv_name s) of
             None \<Rightarrow> Inr None
           | Some k \<Rightarrow>
               bind_res (parse_evidence F
                 \<lparr>qe_id = commandId, qe_sourceArtifactId = commandId, qe_scope = scope, qe_kind = CheckEvidence k,
                  qe_status = (if qv_error s \<noteq> None then EV_ERROR else if qv_exitCode s = 0 then EV_PASSED else EV_FAILED),
                  qe_completedAt = qv_completedAt s, qe_acceptanceTaskId = None, qe_acceptanceTaskAttempt = None,
                  qe_criterionIds = []\<rparr>)
                 (\<lambda>e. Inr (Some e)))"

section \<open>Evidence from the acceptance run\<close>

record scenario_result =
  sr_scenario :: string
  sr_status :: evidence_status
  sr_durationMs :: int
  sr_note :: "string option"

definition valid_scenario_result :: "scenario_result \<Rightarrow> bool" where
  "valid_scenario_result r \<longleftrightarrow>
     bounded_text 120 (sr_scenario r) \<and> 0 \<le> sr_durationMs r \<and> sr_durationMs r \<le> 3600000 \<and>
     opt_all (\<lambda>n. length n \<le> 2000) (sr_note r)"

text \<open>
  A plain object answers for the members it inherits from \<open>Object.prototype\<close> as well. Those with a
  length other than zero are taken for a list of criteria, and spreading them throws.
\<close>

definition inherited_members :: "string list" where
  "inherited_members =
     [''constructor'', ''__defineGetter__'', ''__defineSetter__'', ''hasOwnProperty'', ''__lookupGetter__'',
      ''__lookupSetter__'', ''isPrototypeOf'', ''propertyIsEnumerable'', ''__proto__'']"

definition scenario_ids :: "(string \<times> string list) list \<Rightarrow> string \<Rightarrow> quality_error + string list" where
  "scenario_ids m s =
     (case map_of m s of
        Some ids \<Rightarrow> Inr ids
      | None \<Rightarrow> (if s \<in> set inherited_members then Inl NOT_ITERABLE else Inr []))"

record acceptance_run =
  ar_id :: string
  ar_completedAt :: string
  ar_stdout :: string

fun scenario_evidence ::
    "formats \<Rightarrow> (nat \<Rightarrow> string) \<Rightarrow> quality_scope \<Rightarrow> acceptance_run \<Rightarrow> acceptance_snapshot \<Rightarrow>
     (string \<times> string list) list \<Rightarrow> nat \<Rightarrow> scenario_result list \<Rightarrow> quality_error + quality_evidence list" where
  "scenario_evidence F random scope ar a m n [] = Inr []"
| "scenario_evidence F random scope ar a m n (r # rs) =
     bind_res (scenario_ids m (js_trim (sr_scenario r))) (\<lambda>ids.
       if ids = [] then scenario_evidence F random scope ar a m n rs
       else bind_res (parse_evidence F
              \<lparr>qe_id = random n, qe_sourceArtifactId = ar_id ar, qe_scope = scope, qe_kind = AcceptanceEvidence,
               qe_status = sr_status r, qe_completedAt = ar_completedAt ar,
               qe_acceptanceTaskId = Some (ac_taskId a), qe_acceptanceTaskAttempt = Some (ac_taskAttempt a),
               qe_criterionIds = ids\<rparr>)
            (\<lambda>e. bind_res (scenario_evidence F random scope ar a m (Suc n) rs) (\<lambda>es. Inr (e # es))))"

definition evidenceFromAcceptanceRun ::
    "formats \<Rightarrow> (nat \<Rightarrow> string) \<Rightarrow> (string \<Rightarrow> scenario_result list option) \<Rightarrow> quality_scope \<Rightarrow> acceptance_run \<Rightarrow>
     acceptance_snapshot \<Rightarrow> (string \<times> string list) list \<Rightarrow> quality_error + quality_evidence list" where
  "evidenceFromAcceptanceRun F random decode scope ar a m =
     (case filter (\<lambda>l. l \<noteq> []) (map js_trim (split_on (CHR 0x0A) (ar_stdout ar))) of
        [] \<Rightarrow> Inr []
      | l # ls \<Rightarrow>
          (case decode (last (l # ls)) of
             None \<Rightarrow> Inr []
           | Some rs \<Rightarrow>
               (if 1 \<le> length rs \<and> length rs \<le> 50 \<and> list_all valid_scenario_result rs
                then scenario_evidence F random scope ar a m 0 rs else Inr [])))"

section \<open>The snapshot of the files\<close>

definition valid_snapshot_path :: "string \<Rightarrow> bool" where
  "valid_snapshot_path p \<longleftrightarrow>
     1 \<le> length p \<and> length p \<le> 1024 \<and> \<not> prefix ''/'' p \<and> CHR 0x5C \<notin> set p \<and>
     list_all (\<lambda>s. s \<noteq> [] \<and> s \<noteq> ''.'' \<and> s \<noteq> ''..'') (split_on (CHR ''/'') p)"

definition valid_snapshot_file :: "string \<times> nat \<times> string \<Rightarrow> bool" where
  "valid_snapshot_file f \<longleftrightarrow>
     (case f of (p, v, c) \<Rightarrow> valid_snapshot_path p \<and> 1 \<le> v \<and> int v \<le> max_safe \<and> length c \<le> 5000000)"

definition fingerprintProjectSnapshot ::
    "((string \<times> nat \<times> string) list \<Rightarrow> string) \<Rightarrow> (string \<times> nat \<times> string) list \<Rightarrow> quality_error + string" where
  "fingerprintProjectSnapshot digest fs =
     (if \<not> (1 \<le> length fs \<and> length fs \<le> 1000 \<and> list_all valid_snapshot_file fs \<and> distinct (map fst fs))
      then Inl QUALITY_INPUT_INVALID else Inr (digest (sort_key fst fs)))"

record release_options =
  ro_formats :: formats
  ro_ext :: externals
  ro_date :: "string \<Rightarrow> time"
  ro_iso :: "time \<Rightarrow> string"
  ro_text_of :: "uuid \<Rightarrow> string"
  ro_command_id :: "uuid \<Rightarrow> nat \<Rightarrow> string"
  ro_random :: "nat \<Rightarrow> string"
  ro_decode :: "string \<Rightarrow> scenario_result list option"
  ro_digest :: "(string \<times> nat \<times> string) list \<Rightarrow> string"
  ro_keys :: "(string \<times> string list) list"

section \<open>What the assessor reads\<close>

record evidence_inputs =
  li_files :: "(string \<times> nat \<times> string) list"
  li_acceptanceTask :: "(string \<times> int \<times> json) option"
  li_commands :: "(string \<times> quality_step_input) list"
  li_acceptanceRun :: "acceptance_run option"

definition SANDBOX_COMMAND_NAME_TO_STEP :: "(string \<times> validation_step) list" where
  "SANDBOX_COMMAND_NAME_TO_STEP =
     [(''INSTALL'', Install), (''PRISMA_VALIDATE'', PrismaValidate), (''LINT'', Lint), (''TYPECHECK'', Typecheck),
      (''TEST'', Test), (''BUILD'', Build), (''PREVIEW_START'', PreviewStart), (''PREVIEW_HEALTH'', PreviewHealth)]"

definition NON_BASELINE_SANDBOX_COMMAND_NAMES :: "string list" where
  "NON_BASELINE_SANDBOX_COMMAND_NAMES = [''ACCEPTANCE'', ''DB_START'', ''DB_MIGRATE'', ''DB_SEED'']"

definition emma_task :: "uuid \<Rightarrow> db \<Rightarrow> (uuid \<times> task) option" where
  "emma_task runId d =
     find_first_opt (\<lambda>(k, t). t_runId t = runId \<and> t_agentName t = Emma)
       (sort_key (\<lambda>(k, t). t_ordinal t) (tasks d))"

definition acceptance_task :: "release_options \<Rightarrow> uuid \<Rightarrow> db \<Rightarrow> (string \<times> int \<times> json) option" where
  "acceptance_task R runId d =
     (case emma_task runId d of
        None \<Rightarrow> None
      | Some (k, t) \<Rightarrow>
          (if t_status t \<noteq> T_COMPLETED then None
           else map_option (\<lambda>v. (ro_text_of R k, int (t_attempt t), output_json (ro_ext R) v)) (t_output t)))"

definition snapshot_files :: "uuid \<Rightarrow> db \<Rightarrow> (string \<times> nat \<times> string) list" where
  "snapshot_files pid d = map (\<lambda>f. (pf_path f, pf_version f, pf_content f)) (listProjectFiles pid d)"

definition session_commands :: "(sandbox_session \<Rightarrow> bool) \<Rightarrow> db \<Rightarrow> sandbox_command list" where
  "session_commands q d =
     sort_key c_ordinal
       (filter (\<lambda>c. case session_of d (c_sessionId c) of None \<Rightarrow> False | Some s \<Rightarrow> q s) (commands d))"

definition command_input :: "release_options \<Rightarrow> validation_step \<Rightarrow> sandbox_command \<Rightarrow> string \<times> quality_step_input" where
  "command_input R name c =
     (ro_command_id R (c_sessionId c) (c_ordinal c),
      \<lparr>qv_name = name, qv_startedAt = ro_iso R (c_startedAt c), qv_completedAt = ro_iso R (c_completedAt c),
       qv_exitCode = c_exitCode c, qv_error = None\<rparr>)"

definition loadEvidenceInputs :: "release_options \<Rightarrow> uuid \<Rightarrow> nat \<Rightarrow> db \<Rightarrow> thrown + evidence_inputs" where
  "loadEvidenceInputs R runId attempt d =
     (case run_of d runId of
        None \<Rightarrow> Inl (PrismaError ''P2025'')
      | Some r \<Rightarrow>
          (let cs = session_commands (\<lambda>s. s_runId s = runId \<and> s_attempt s = attempt) d
           in Inr \<lparr>li_files = snapshot_files (r_projectId r) d, li_acceptanceTask = acceptance_task R runId d,
                   li_commands =
                     map (\<lambda>c. command_input R
                            (case map_of SANDBOX_COMMAND_NAME_TO_STEP (c_name c) of None \<Rightarrow> Install | Some n \<Rightarrow> n) c)
                       (filter (\<lambda>c. c_name c \<notin> set NON_BASELINE_SANDBOX_COMMAND_NAMES) cs),
                   li_acceptanceRun =
                     map_option (\<lambda>c. \<lparr>ar_id = ro_command_id R (c_sessionId c) (c_ordinal c),
                                     ar_completedAt = ro_iso R (c_completedAt c), ar_stdout = c_stdout c\<rparr>)
                       (find_first_opt (\<lambda>c. c_name c = ''ACCEPTANCE'') cs)\<rparr>))"

section \<open>The assessment\<close>

record assessment_scope =
  ax_workspaceId :: uuid
  ax_projectId :: uuid
  ax_runId :: uuid
  ax_controlVersion :: nat
  ax_attempt :: nat

definition quality_scope_of :: "release_options \<Rightarrow> assessment_scope \<Rightarrow> string \<Rightarrow> quality_scope" where
  "quality_scope_of R x sha =
     \<lparr>qs_workspaceId = ro_text_of R (ax_workspaceId x), qs_projectId = ro_text_of R (ax_projectId x),
      qs_runId = ro_text_of R (ax_runId x), qs_controlVersion = int (ax_controlVersion x),
      qs_attempt = int (ax_attempt x), qs_snapshotSha256 = sha\<rparr>"

fun command_evidence ::
    "release_options \<Rightarrow> quality_scope \<Rightarrow> (string \<times> quality_step_input) list \<Rightarrow> quality_error + quality_evidence list" where
  "command_evidence R scope [] = Inr []"
| "command_evidence R scope ((i, s) # cs) =
     bind_res (evidenceFromValidationStep (ro_formats R) (ro_date R) scope i s) (\<lambda>e.
     bind_res (command_evidence R scope cs) (\<lambda>es. Inr (case e of None \<Rightarrow> es | Some x \<Rightarrow> x # es)))"

definition acceptance_evidence ::
    "release_options \<Rightarrow> quality_scope \<Rightarrow> acceptance_snapshot option \<Rightarrow> acceptance_run option \<Rightarrow>
     quality_error + quality_evidence list \<times> (string \<times> string list) list" where
  "acceptance_evidence R scope acceptance ar =
     (case (acceptance, ar) of
        (Some a, Some r) \<Rightarrow>
          (let x = resolveCriterionIdsByScenario a (ro_keys R)
           in bind_res (evidenceFromAcceptanceRun (ro_formats R) (ro_random R) (ro_decode R) scope r a (cx_ids x))
                (\<lambda>es. Inr (es, cx_unresolved x)))
      | _ \<Rightarrow> Inr ([], []))"

definition snapshot_of_task ::
    "release_options \<Rightarrow> quality_scope \<Rightarrow> (string \<times> int \<times> json) option \<Rightarrow> quality_error + acceptance_snapshot option" where
  "snapshot_of_task R scope t =
     (case t of
        None \<Rightarrow> Inr None
      | Some (i, n, out) \<Rightarrow> bind_res (createAcceptanceSnapshot (ro_formats R) scope i n out) (\<lambda>a. Inr (Some a)))"

record assessed =
  sd_report :: release_assessment
  sd_evidence :: "quality_evidence list"
  sd_unresolved :: "(string \<times> string list) list"

definition assess_inputs ::
    "release_options \<Rightarrow> assessment_scope \<Rightarrow> time \<Rightarrow> evidence_inputs \<Rightarrow> quality_error + assessed" where
  "assess_inputs R x now i =
     bind_res (fingerprintProjectSnapshot (ro_digest R) (li_files i)) (\<lambda>sha.
     let scope = quality_scope_of R x sha
     in bind_res (snapshot_of_task R scope (li_acceptanceTask i)) (\<lambda>acceptance.
        bind_res (command_evidence R scope (li_commands i)) (\<lambda>es.
        bind_res (acceptance_evidence R scope acceptance (li_acceptanceRun i)) (\<lambda>(more_es, unresolved).
        bind_res (evaluateRelease (ro_formats R) (ro_date R)
            \<lparr>ei_scope = scope, ei_evaluatedAt = ro_iso R now, ei_policy = STANDARD_RELEASE_POLICY,
             ei_acceptance = acceptance, ei_evidence = es @ more_es\<rparr>) (\<lambda>a.
        Inr \<lparr>sd_report = a, sd_evidence = es @ more_es, sd_unresolved = unresolved\<rparr>)))))"

end
