(* ===== verification/ReleaseStore.thy ===== *)
theory ReleaseStore
  imports ReleaseAssessor
begin

text \<open>
  The tables of the release assessments beside the tables of the runs, the transactions of the
  worker's \<open>PrismaReleaseAssessmentRepository\<close>, the assessor \<open>DeterministicReleaseAssessor.assess\<close>, and the
  on-demand assessment of the control API. A transaction that throws leaves the store as it was.
\<close>

datatype assessment_source = SRC_WORKER | SRC_MANUAL

text \<open>The JSON columns of an assessment: a report's, or the single diagnostic of a failed evaluation.\<close>

datatype stored_report =
    StoredReport quality_policy "(check_kind \<times> coverage_report) list" "(string \<times> coverage_report) list" "quality_issue list"
  | EVALUATOR_FAILURE

record assessment_row =
  rw_id :: string
  rw_scope :: assessment_scope
  rw_source :: assessment_source
  rw_snapshotSha256 :: string
  rw_status :: assessment_status
  rw_acceptanceTaskId :: "string option"
  rw_report :: stored_report
  rw_evaluatedAt :: time

record evidence_row =
  ew_id :: string
  ew_assessmentId :: string
  ew_sourceArtifactId :: string
  ew_kind :: evidence_kind
  ew_status :: evidence_status
  ew_completedAt :: time
  ew_acceptanceTaskId :: "string option"
  ew_acceptanceTaskAttempt :: "int option"
  ew_criterionIds :: "string list"

record release_store =
  rs_db :: db
  rs_rows :: "assessment_row list"
  rs_evidence :: "evidence_row list"

section \<open>Statements\<close>

definition same_assessment :: "assessment_scope \<Rightarrow> assessment_source \<Rightarrow> assessment_row \<Rightarrow> bool" where
  "same_assessment x src w \<longleftrightarrow>
     ax_runId (rw_scope w) = ax_runId x \<and> ax_controlVersion (rw_scope w) = ax_controlVersion x \<and>
     ax_attempt (rw_scope w) = ax_attempt x \<and> rw_source w = src"

text \<open>
  The upsert on (run, control version, attempt, source). An updated row takes the new identifier, and
  the foreign key of the evidence follows it (\<open>ON UPDATE CASCADE\<close>).
\<close>

definition upsert_assessment :: "assessment_row \<Rightarrow> release_store \<Rightarrow> thrown + release_store" where
  "upsert_assessment w s =
     (let same = same_assessment (rw_scope w) (rw_source w)
      in if list_ex (\<lambda>v. rw_id v = rw_id w \<and> \<not> same v) (rs_rows s) then Inl (PrismaError ''P2002'')
         else case find_first_opt same (rs_rows s) of
                None \<Rightarrow> Inr (s\<lparr>rs_rows := rs_rows s @ [w]\<rparr>)
              | Some old \<Rightarrow>
                  Inr (s\<lparr>rs_rows := map (\<lambda>v. if same v then w else v) (rs_rows s),
                         rs_evidence := map (\<lambda>e. if ew_assessmentId e = rw_id old
                                                 then e\<lparr>ew_assessmentId := rw_id w\<rparr> else e) (rs_evidence s)\<rparr>))"

definition delete_evidence :: "string \<Rightarrow> release_store \<Rightarrow> release_store" where
  "delete_evidence aid s = s\<lparr>rs_evidence := filter (\<lambda>e. ew_assessmentId e \<noteq> aid) (rs_evidence s)\<rparr>"

definition to_evidence_row :: "(string \<Rightarrow> time) \<Rightarrow> string \<Rightarrow> quality_evidence \<Rightarrow> evidence_row" where
  "to_evidence_row date aid e =
     \<lparr>ew_id = qe_id e, ew_assessmentId = aid, ew_sourceArtifactId = qe_sourceArtifactId e, ew_kind = qe_kind e,
      ew_status = qe_status e, ew_completedAt = date (qe_completedAt e), ew_acceptanceTaskId = qe_acceptanceTaskId e,
      ew_acceptanceTaskAttempt = qe_acceptanceTaskAttempt e, ew_criterionIds = qe_criterionIds e\<rparr>"

definition create_evidence :: "evidence_row list \<Rightarrow> release_store \<Rightarrow> thrown + release_store" where
  "create_evidence es s =
     (if es = [] \<or> distinct (map ew_id (rs_evidence s @ es)) then Inr (s\<lparr>rs_evidence := rs_evidence s @ es\<rparr>)
      else Inl (PrismaError ''P2002''))"

definition appendReleaseEvents :: "uuid \<Rightarrow> run_event_body list \<Rightarrow> release_store \<Rightarrow> thrown + release_store" where
  "appendReleaseEvents runId es s = bind_res (appendEvents runId es (rs_db s)) (\<lambda>d. Inr (s\<lparr>rs_db := d\<rparr>))"

section \<open>Transactions\<close>

definition report_row :: "(string \<Rightarrow> time) \<Rightarrow> string \<Rightarrow> assessment_scope \<Rightarrow> assessment_source \<Rightarrow> release_assessment \<Rightarrow> assessment_row" where
  "report_row date aid x src a =
     \<lparr>rw_id = aid, rw_scope = x, rw_source = src, rw_snapshotSha256 = qs_snapshotSha256 (as_scope a),
      rw_status = as_status a, rw_acceptanceTaskId = as_acceptanceTaskId a,
      rw_report = StoredReport (as_policy a) (as_checks a) (as_trace a) (as_issues a),
      rw_evaluatedAt = date (as_evaluatedAt a)\<rparr>"

definition failure_row :: "string \<Rightarrow> assessment_scope \<Rightarrow> assessment_source \<Rightarrow> time \<Rightarrow> assessment_row" where
  "failure_row aid x src now =
     \<lparr>rw_id = aid, rw_scope = x, rw_source = src, rw_snapshotSha256 = replicate 64 (CHR ''0''), rw_status = AS_BLOCKED,
      rw_acceptanceTaskId = None, rw_report = EVALUATOR_FAILURE, rw_evaluatedAt = now\<rparr>"

definition outcome_event :: "string \<Rightarrow> release_assessment \<Rightarrow> run_event_body" where
  "outcome_event aid a =
     (if as_status a = AS_READY then ReleaseReady aid (length (as_checks a)) (length (as_trace a))
      else ReleaseBlocked aid (max (length (as_issues a)) 1))"

definition persistAssessment ::
    "(string \<Rightarrow> time) \<Rightarrow> string \<Rightarrow> assessment_scope \<Rightarrow> assessed \<Rightarrow> release_store \<Rightarrow> thrown + release_store" where
  "persistAssessment date aid x r s =
     bind_res (upsert_assessment (report_row date aid x SRC_WORKER (sd_report r)) s) (\<lambda>s1.
     bind_res (create_evidence (map (to_evidence_row date aid) (sd_evidence r)) (delete_evidence aid s1))
       (appendReleaseEvents (ax_runId x)
         (ReleaseAssessmentStarted aid (ax_attempt x) # outcome_event aid (sd_report r) #
          map (\<lambda>(n, ks). ReleaseCriterionKeyUnresolved aid n ks) (sd_unresolved r))))"

definition persistEvaluatorFailure ::
    "string \<Rightarrow> assessment_scope \<Rightarrow> time \<Rightarrow> release_store \<Rightarrow> thrown + release_store" where
  "persistEvaluatorFailure aid x now s =
     bind_res (upsert_assessment (failure_row aid x SRC_WORKER now) s) (\<lambda>s1.
       appendReleaseEvents (ax_runId x) [ReleaseAssessmentStarted aid (ax_attempt x), ReleaseBlocked aid 1]
         (delete_evidence aid s1))"

section \<open>The assessor of the worker\<close>

text \<open>
  \<open>lost\<close> says which of the three calls of the repository loses its connection and throws; \<open>env\<close> is what
  the other connections do to the store before each of them.
\<close>

record assessor_call =
  al_id :: string
  al_now :: time
  al_lost :: "nat \<Rightarrow> bool"
  al_env :: "nat \<Rightarrow> release_store \<Rightarrow> release_store"

definition reached :: "assessor_call \<Rightarrow> nat \<Rightarrow> (release_store \<Rightarrow> thrown + 'a) \<Rightarrow> release_store \<Rightarrow> thrown + 'a" where
  "reached A n call s = (if al_lost A n then Inl (GenericError ''connection lost'') else call s)"

definition try_assess ::
    "release_options \<Rightarrow> assessor_call \<Rightarrow> assessment_scope \<Rightarrow> release_store \<Rightarrow> (unit + release_store) \<times> release_store" where
  "try_assess R A x s =
     (let s0 = al_env A 0 s
      in case reached A 0 (\<lambda>s. loadEvidenceInputs R (ax_runId x) (ax_attempt x) (rs_db s)) s0 of
           Inl _ \<Rightarrow> (Inl (), s0)
         | Inr i \<Rightarrow>
             (case assess_inputs R x (al_now A) i of
                Inl _ \<Rightarrow> (Inl (), s0)
              | Inr r \<Rightarrow>
                  (let s1 = al_env A 1 s0
                   in case reached A 1 (persistAssessment (ro_date R) (al_id A) x r) s1 of
                        Inl _ \<Rightarrow> (Inl (), s1)
                      | Inr s2 \<Rightarrow> (Inr s2, s2))))"

definition assess :: "release_options \<Rightarrow> assessor_call \<Rightarrow> run_execution \<Rightarrow> nat \<Rightarrow> release_store \<Rightarrow> release_store" where
  "assess R A run attempt s =
     (let x = \<lparr>ax_workspaceId = x_workspaceId run, ax_projectId = x_projectId run, ax_runId = x_id run,
               ax_controlVersion = x_controlVersion run, ax_attempt = attempt\<rparr>
      in case try_assess R A x s of
           (Inr s', _) \<Rightarrow> s'
         | (Inl _, s') \<Rightarrow>
             (let s2 = al_env A 2 s'
              in case reached A 2 (persistEvaluatorFailure (al_id A) x (al_now A)) s2 of Inl _ \<Rightarrow> s2 | Inr s3 \<Rightarrow> s3))"

section \<open>The on-demand assessment\<close>

datatype trigger_result = TriggerOk assessment_row | TriggerProjectNotFound | NoEligibleRun

text \<open>\<open>created\<close> orders the runs by their creation time, which the rows of the model do not carry.\<close>

definition latest_run :: "(uuid \<Rightarrow> time) \<Rightarrow> uuid \<Rightarrow> db \<Rightarrow> (uuid \<times> run) option" where
  "latest_run created pid d =
     find_first_opt (\<lambda>(k, r). r_projectId r = pid) (sort_key (\<lambda>(k, r). - created k) (runs d))"

definition manual_inputs :: "release_options \<Rightarrow> uuid \<Rightarrow> uuid \<Rightarrow> db \<Rightarrow> evidence_inputs" where
  "manual_inputs R pid runId d =
     \<lparr>li_files = snapshot_files pid d, li_acceptanceTask = acceptance_task R runId d,
      li_commands =
        concat (map (\<lambda>c. case map_of SANDBOX_COMMAND_NAME_TO_STEP (c_name c) of None \<Rightarrow> [] | Some n \<Rightarrow> [command_input R n c])
          (session_commands (\<lambda>s. s_runId s = runId) d)),
      li_acceptanceRun = None\<rparr>"

definition persist_manual :: "assessment_row \<Rightarrow> release_store \<Rightarrow> (thrown + trigger_result) \<times> release_store" where
  "persist_manual w s = (case upsert_assessment w s of Inl e \<Rightarrow> (Inl e, s) | Inr s' \<Rightarrow> (Inr (TriggerOk w), s'))"

definition member_project :: "db \<Rightarrow> uuid \<Rightarrow> uuid \<Rightarrow> project option" where
  "member_project d userId pid =
     (case map_of (projects d) pid of
        None \<Rightarrow> None
      | Some p \<Rightarrow> (if pj_archivedAt p = None \<and> map_of (memberships d) (pj_workspaceId p, userId) \<noteq> None then Some p else None))"

definition triggerReleaseAssessment ::
    "release_options \<Rightarrow> (uuid \<Rightarrow> time) \<Rightarrow> string \<Rightarrow> uuid \<Rightarrow> uuid \<Rightarrow> time \<Rightarrow> release_store \<Rightarrow>
     (thrown + trigger_result) \<times> release_store" where
  "triggerReleaseAssessment R created aid userId pid now s =
     (case member_project (rs_db s) userId pid of
        None \<Rightarrow> (Inr TriggerProjectNotFound, s)
      | Some p \<Rightarrow>
          (case latest_run created pid (rs_db s) of
             None \<Rightarrow> (Inr NoEligibleRun, s)
           | Some (runId, r) \<Rightarrow>
               (let x = \<lparr>ax_workspaceId = pj_workspaceId p, ax_projectId = pid, ax_runId = runId,
                         ax_controlVersion = r_controlVersion r, ax_attempt = 1\<rparr>
                in case assess_inputs R x now (manual_inputs R pid runId (rs_db s)) of
                     Inl _ \<Rightarrow> persist_manual (failure_row aid x SRC_MANUAL now) s
                   | Inr r \<Rightarrow>
                       (case persist_manual (report_row (ro_date R) aid x SRC_MANUAL (sd_report r)) s of
                          (Inl _, _) \<Rightarrow> persist_manual (failure_row aid x SRC_MANUAL now) s
                        | ok \<Rightarrow> ok))))"

definition getReleaseAssessment :: "uuid \<Rightarrow> string \<Rightarrow> release_store \<Rightarrow> assessment_row option" where
  "getReleaseAssessment userId aid s =
     find_first_opt (\<lambda>w. rw_id w = aid \<and>
         (case map_of (projects (rs_db s)) (ax_projectId (rw_scope w)) of
            None \<Rightarrow> False
          | Some p \<Rightarrow> map_of (memberships (rs_db s)) (pj_workspaceId p, userId) \<noteq> None)) (rs_rows s)"

end
