(* ===== verification/QualityProperties.thy ===== *)
theory QualityProperties
  imports Quality "HOL-Library.Multiset"
begin

text \<open>
  The release evaluator never fails on valid input, reports READY exactly for a fully attested
  release, and gives the same report for the same evidence in any order.
\<close>

section \<open>Issues as a set\<close>

lemma map_entries_snoc: "map_entries (kvs @ [(k, v)]) = AList.update k v (map_entries kvs)"
  by (simp add: map_entries_def)

lemma map_entries_distinct: "distinct (map fst (map_entries kvs))"
  by (induction kvs rule: rev_induct) (auto simp: map_entries_def intro: distinct_update)

lemma map_entries_sub: "set (map_entries kvs) \<subseteq> set kvs"
proof (induction kvs rule: rev_induct)
  case (snoc kv kvs)
  obtain k v where "kv = (k, v)" by fastforce
  have "set (AList.update k v m) \<subseteq> insert (k, v) (set m)" for m :: "('a \<times> 'b) list"
    by (induction m) auto
  with snoc show ?case unfolding \<open>kv = (k, v)\<close> map_entries_snoc by fastforce
qed (simp add: map_entries_def)

lemma map_entries_keys: "fst ` set (map_entries kvs) = fst ` set kvs"
proof (induction kvs rule: rev_induct)
  case (snoc kv kvs)
  obtain k v where "kv = (k, v)" by fastforce
  with snoc show ?case by (simp add: map_entries_snoc dom_update)
qed (simp add: map_entries_def)

lemma unique_issues_sub: "set (unique_issues xs) \<subseteq> set xs"
  using map_entries_sub [of "map (\<lambda>i. (issue_text i, i)) xs"] by (auto simp: unique_issues_def)

lemma unique_issues_Nil [simp]: "unique_issues xs = [] \<longleftrightarrow> xs = []"
proof
  let ?m = "map_entries (map (\<lambda>i. (issue_text i, i)) xs)"
  assume "unique_issues xs = []"
  then have "set (sort_key fst ?m) = {}" unfolding unique_issues_def by (simp only: map_is_Nil_conv list.set)
  then have "set ?m = {}" by (simp only: set_sort)
  then have "fst ` set (map (\<lambda>i. (issue_text i, i)) xs) = {}"
    using map_entries_keys [of "map (\<lambda>i. (issue_text i, i)) xs"] by simp
  then show "xs = []" by simp
qed (simp add: unique_issues_def map_entries_def)

text \<open>If the texts tell the issues apart, the result depends on the set of issues only.\<close>

lemma map_entries_set:
  assumes "inj_on issue_text (set xs)"
  shows "set (map_entries (map (\<lambda>i. (issue_text i, i)) xs)) = (\<lambda>i. (issue_text i, i)) ` set xs"
proof
  let ?m = "map_entries (map (\<lambda>i. (issue_text i, i)) xs)"
  show "set ?m \<subseteq> (\<lambda>i. (issue_text i, i)) ` set xs"
    using map_entries_sub [of "map (\<lambda>i. (issue_text i, i)) xs"] by simp
  show "(\<lambda>i. (issue_text i, i)) ` set xs \<subseteq> set ?m"
  proof
    fix p assume "p \<in> (\<lambda>i. (issue_text i, i)) ` set xs"
    then obtain i where i: "i \<in> set xs" "p = (issue_text i, i)" by blast
    then have "issue_text i \<in> fst ` set ?m" using map_entries_keys [of "map (\<lambda>i. (issue_text i, i)) xs"] by force
    then obtain j where "(issue_text i, j) \<in> set ?m" by force
    moreover from this obtain k where "k \<in> set xs" "(issue_text i, j) = (issue_text k, k)"
      using \<open>set ?m \<subseteq> _\<close> by blast
    ultimately show "p \<in> set ?m" using assms i by (auto dest: inj_onD)
  qed
qed

lemma unique_issues_cong:
  assumes "set xs = set ys" and "inj_on issue_text (set xs)"
  shows "unique_issues xs = unique_issues ys"
proof -
  let ?f = "\<lambda>xs. sort_key fst (map_entries (map (\<lambda>i. (issue_text i, i)) xs))"
  have sets: "set (?f zs) = (\<lambda>i. (issue_text i, i)) ` set xs" if "set zs = set xs" for zs
    using map_entries_set [of zs] assms(2) that by simp
  have dist: "distinct (map fst (?f zs))" for zs :: "quality_issue list"
    using map_entries_distinct [of "map (\<lambda>i. (issue_text i, i)) zs"] by (auto simp: distinct_map)
  have "?f xs = ?f ys"
  proof (rule map_sorted_distinct_set_unique [where f = fst])
    show "inj_on fst (set (?f xs) \<union> set (?f ys))"
      using sets [of xs] sets [of ys] assms by (auto simp: inj_on_def)
  qed (use dist sets [of xs] sets [of ys] assms(1) in simp_all)
  then show ?thesis by (simp add: unique_issues_def)
qed

section \<open>The text of an issue\<close>

fun join_on :: "char \<Rightarrow> string list \<Rightarrow> string" where
  "join_on c [] = []"
| "join_on c [x] = x"
| "join_on c (x # xs) = x @ c # join_on c xs"

lemma split_on_join_on: "xs \<noteq> [] \<Longrightarrow> \<forall>x \<in> set xs. c \<notin> set x \<Longrightarrow> split_on c (join_on c xs) = xs"
  by (induction c xs rule: join_on.induct) (simp_all add: split_on_plain split_on_append)

definition optional_tokens :: "string \<Rightarrow> string option \<Rightarrow> string list" where
  "optional_tokens k v = (case v of None \<Rightarrow> [] | Some s \<Rightarrow> ['','', k, '':'', s])"

definition issue_tokens :: "quality_issue \<Rightarrow> string list" where
  "issue_tokens i =
     [''{'', ''code'', '':'', issue_code_string (qi_code i)] @
     optional_tokens ''evidenceId'' (qi_evidenceId i) @
     optional_tokens ''check'' (map_option check_kind_string (qi_check i)) @
     optional_tokens ''criterionId'' (qi_criterionId i) @ [''}'']"

lemma issue_text_tokens: "issue_text i = join_on (CHR 0x22) (issue_tokens i)"
  by (auto simp: issue_text_def issue_tokens_def optional_text_def optional_tokens_def member_text_def quoted_def
      split: option.split)

lemma issue_code_string_inj: "issue_code_string a = issue_code_string b \<Longrightarrow> a = b"
  by (cases a; cases b) simp_all

lemma check_kind_string_inj: "check_kind_string a = check_kind_string b \<Longrightarrow> a = b"
  by (cases a; cases b) simp_all

lemma optional_tokens_inj:
  assumes "a \<noteq> b" and "a \<noteq> c" and "b \<noteq> c"
    and "optional_tokens a x @ optional_tokens b y @ optional_tokens c z @ [''}''] =
      optional_tokens a x' @ optional_tokens b y' @ optional_tokens c z' @ [''}'']"
  shows "x = x' \<and> y = y' \<and> z = z'"
  using assms by (cases x; cases y; cases z; cases x'; cases y'; cases z'; simp add: optional_tokens_def)

lemma issue_tokens_inj:
  assumes "issue_tokens i = issue_tokens j"
  shows "i = j"
proof -
  have "qi_evidenceId i = qi_evidenceId j \<and> map_option check_kind_string (qi_check i) =
      map_option check_kind_string (qi_check j) \<and> qi_criterionId i = qi_criterionId j"
    by (rule optional_tokens_inj [of "''evidenceId''" "''check''" "''criterionId''"]) (use assms in \<open>simp_all add: issue_tokens_def\<close>)
  moreover have "qi_code i = qi_code j"
    using assms by (intro issue_code_string_inj) (simp add: issue_tokens_def)
  moreover have "qi_check i = qi_check j"
    using calculation(1) check_kind_string_inj by (cases "qi_check i"; cases "qi_check j") auto
  ultimately show ?thesis by (intro quality_issue.equality) simp_all
qed

definition plain_issue :: "quality_issue \<Rightarrow> bool" where
  "plain_issue i \<longleftrightarrow> (\<forall>s. qi_evidenceId i = Some s \<or> qi_criterionId i = Some s \<longrightarrow> CHR 0x22 \<notin> set s)"

lemma issue_tokens_plain: "plain_issue i \<Longrightarrow> \<forall>x \<in> set (issue_tokens i). CHR 0x22 \<notin> set x"
proof -
  have "CHR 0x22 \<notin> set (issue_code_string c)" for c by (cases c) simp_all
  moreover have "CHR 0x22 \<notin> set (check_kind_string k)" for k by (cases k) simp_all
  ultimately show "plain_issue i \<Longrightarrow> \<forall>x \<in> set (issue_tokens i). CHR 0x22 \<notin> set x"
    by (auto simp: issue_tokens_def optional_tokens_def plain_issue_def split: option.splits)
qed

lemma issue_text_inj:
  assumes "plain_issue i" and "plain_issue j" and "issue_text i = issue_text j"
  shows "i = j"
proof -
  have "split_on (CHR 0x22) (issue_text k) = issue_tokens k" if "plain_issue k" for k
    unfolding issue_text_tokens
    by (rule split_on_join_on [OF _ issue_tokens_plain [OF that]]) (simp add: issue_tokens_def)
  with assms show ?thesis using issue_tokens_inj by metis
qed

section \<open>Attested releases\<close>

text \<open>What a release needs to be READY, without a word about issues, reports or orders.\<close>

definition fresh_evidence :: "(string \<Rightarrow> time) \<Rightarrow> evaluation_input \<Rightarrow> quality_evidence \<Rightarrow> bool" where
  "fresh_evidence date i e \<longleftrightarrow>
     date (qe_completedAt e) \<le> date (ei_evaluatedAt i) \<and>
     date (ei_evaluatedAt i) - date (qe_completedAt e) \<le> qp_maxEvidenceAgeSeconds (ei_policy i) * 1000"

definition release_attested :: "(string \<Rightarrow> time) \<Rightarrow> evaluation_input \<Rightarrow> bool" where
  "release_attested date i \<longleftrightarrow>
     (\<exists>a. ei_acceptance i = Some a \<and> ac_scope a = ei_scope i \<and>
        distinct (map qe_id (ei_evidence i)) \<and>
        (\<forall>e \<in> set (ei_evidence i). qe_scope e = ei_scope i \<and> fresh_evidence date i e \<and> qe_status e = EV_PASSED \<and>
           (qe_kind e = AcceptanceEvidence \<longrightarrow>
              qe_acceptanceTaskId e = Some (ac_taskId a) \<and>
              qe_acceptanceTaskAttempt e = Some (ac_taskAttempt a) \<and>
              set (qe_criterionIds e) \<subseteq> cr_id ` set (ac_criteria a))) \<and>
        (\<forall>k \<in> set (qp_requiredChecks (ei_policy i)). \<exists>e \<in> set (ei_evidence i). qe_kind e = CheckEvidence k) \<and>
        (\<forall>c \<in> set (ac_criteria a). \<exists>e \<in> set (ei_evidence i).
           qe_kind e = AcceptanceEvidence \<and> cr_id c \<in> set (qe_criterionIds e)))"

lemma distinct_count_list: "distinct xs \<longleftrightarrow> (\<forall>x \<in> set xs. \<not> 1 < count_list xs x)"
proof (induction xs)
  case (Cons a xs)
  show ?case
  proof (cases "a \<in> set xs")
    case True
    then have "count_list xs a \<noteq> 0" by (simp add: count_list_0_iff)
    with True show ?thesis by auto
  next
    case False
    then have "count_list xs a = 0" "\<And>x. x \<in> set xs \<Longrightarrow> x \<noteq> a" by (auto simp: count_list_0_iff)
    with False Cons show ?thesis by auto
  qed
qed simp

lemma evidence_issues_Nil:
  "evidence_issues date i e = [] \<longleftrightarrow>
     \<not> 1 < count_list (map qe_id (ei_evidence i)) (qe_id e) \<and> qe_scope e = ei_scope i \<and>
     fresh_evidence date i e \<and> qe_status e = EV_PASSED \<and>
     (qe_kind e = AcceptanceEvidence \<longrightarrow> attests_task i e \<and>
        set (qe_criterionIds e) \<subseteq> cr_id ` set (acceptance_criteria i))"
  by (auto simp: evidence_issues_def reject_issues_def Let_def fresh_evidence_def filter_empty_conv)

lemma reject_issues_Nil: "evidence_issues date i e = [] \<Longrightarrow> reject_issues date i e = []"
  by (simp add: evidence_issues_def)

lemma all_issues_Nil: "all_issues date i = [] \<longleftrightarrow> release_attested date i"
proof
  assume none: "all_issues date i = []"
  then obtain a where a: "ei_acceptance i = Some a" "acceptance_matches i"
    by (auto simp: all_issues_def acceptance_issues_def split: option.splits if_splits)
  have ev: "evidence_issues date i e = []" if "e \<in> set (ei_evidence i)" for e
    using none that by (auto simp: all_issues_def)
  have "distinct (map qe_id (ei_evidence i))"
    unfolding distinct_count_list using ev by (auto simp: evidence_issues_Nil)
  moreover have "\<exists>e \<in> set (ei_evidence i). qe_kind e = CheckEvidence k"
    if "k \<in> set (qp_requiredChecks (ei_policy i))" for k
    using none that
    by (fastforce simp: all_issues_def filter_empty_conv sorted_checks_def check_evidence_def accepted_evidence_def)
  moreover have "\<exists>e \<in> set (ei_evidence i). qe_kind e = AcceptanceEvidence \<and> cr_id c \<in> set (qe_criterionIds e)"
    if "c \<in> set (ac_criteria a)" for c
    using none that a
    by (fastforce simp: all_issues_def filter_empty_conv criterion_evidence_def accepted_evidence_def
        acceptance_criteria_def)
  moreover have "qe_scope e = ei_scope i \<and> fresh_evidence date i e \<and> qe_status e = EV_PASSED \<and>
      (qe_kind e = AcceptanceEvidence \<longrightarrow>
         qe_acceptanceTaskId e = Some (ac_taskId a) \<and> qe_acceptanceTaskAttempt e = Some (ac_taskAttempt a) \<and>
         set (qe_criterionIds e) \<subseteq> cr_id ` set (ac_criteria a))" if "e \<in> set (ei_evidence i)" for e
    using ev [OF that] a unfolding evidence_issues_Nil by (simp add: attests_task_def acceptance_criteria_def)
  ultimately show "release_attested date i"
    using a unfolding release_attested_def by (auto simp: acceptance_matches_def)
next
  assume "release_attested date i"
  then obtain a where a: "ei_acceptance i = Some a" "ac_scope a = ei_scope i"
    and d: "distinct (map qe_id (ei_evidence i))"
    and e: "\<And>e. e \<in> set (ei_evidence i) \<Longrightarrow> qe_scope e = ei_scope i \<and> fresh_evidence date i e \<and>
       qe_status e = EV_PASSED \<and>
           (qe_kind e = AcceptanceEvidence \<longrightarrow>
              qe_acceptanceTaskId e = Some (ac_taskId a) \<and>
              qe_acceptanceTaskAttempt e = Some (ac_taskAttempt a) \<and>
              set (qe_criterionIds e) \<subseteq> cr_id ` set (ac_criteria a))"
    and k: "\<And>k. k \<in> set (qp_requiredChecks (ei_policy i)) \<Longrightarrow>
       \<exists>e \<in> set (ei_evidence i). qe_kind e = CheckEvidence k"
    and c: "\<And>c. c \<in> set (ac_criteria a) \<Longrightarrow> \<exists>e \<in> set (ei_evidence i).
           qe_kind e = AcceptanceEvidence \<and> cr_id c \<in> set (qe_criterionIds e)"
    unfolding release_attested_def by blast
  have m: "acceptance_matches i" using a by (simp add: acceptance_matches_def)
  have ev: "evidence_issues date i x = []" if "x \<in> set (ei_evidence i)" for x
  proof -
    have "\<not> 1 < count_list (map qe_id (ei_evidence i)) (qe_id x)"
      using d that unfolding distinct_count_list by simp
    with e [OF that] a m show ?thesis
      unfolding evidence_issues_Nil by (simp add: attests_task_def acceptance_criteria_def)
  qed
  then have acc: "accepted_evidence date i = ei_evidence i"
    by (auto simp: accepted_evidence_def filter_id_conv intro: reject_issues_Nil)
  have "acceptance_issues i = []" using a m by (simp add: acceptance_issues_def)
  moreover have "concat (map (evidence_issues date i) (ei_evidence i)) = []" using ev by simp
  moreover have "filter (\<lambda>k. check_evidence date i k = []) (sorted_checks i) = []"
    using k by (fastforce simp: filter_empty_conv sorted_checks_def check_evidence_def acc)
  moreover have "filter (\<lambda>c. criterion_evidence date i (cr_id c) = []) (acceptance_criteria i) = []"
    using c a m by (fastforce simp: filter_empty_conv criterion_evidence_def acc acceptance_criteria_def)
  ultimately show "all_issues date i = []" by (simp add: all_issues_def)
qed

section \<open>Every report is valid\<close>

lemma accepted_sub: "set (accepted_evidence date i) \<subseteq> set (ei_evidence i)"
  by (auto simp: accepted_evidence_def)

lemma coverage_valid:
  fixes es :: "quality_evidence list"
  assumes "valid_evaluation_input F i" and "set es \<subseteq> set (accepted_evidence date i)"
    and "length es \<le> length (accepted_evidence date i)"
  shows "valid_coverage F (coverage es)"
proof -
  have "set es \<subseteq> set (ei_evidence i)" using assms(2) accepted_sub [of date i] by auto
  moreover have "length es \<le> length (ei_evidence i)"
    using assms(3) by (auto simp: accepted_evidence_def intro: order_trans [OF _ length_filter_le])
  moreover have "length (ei_evidence i) \<le> 2000" "\<forall>e \<in> set (ei_evidence i). is_uuid F (qe_id e)"
    using assms(1) by (auto simp: valid_evaluation_input_def list_all_iff valid_evidence_def)
  ultimately show ?thesis by (auto simp: valid_coverage_def coverage_def list_all_iff)
qed

lemma check_coverage_valid:
  "valid_evaluation_input F i \<Longrightarrow> valid_coverage F (coverage (check_evidence date i k))"
  by (rule coverage_valid [where date = date]) (auto simp: check_evidence_def)

lemma criterion_coverage_valid:
  "valid_evaluation_input F i \<Longrightarrow> valid_coverage F (coverage (criterion_evidence date i c))"
  by (rule coverage_valid [where date = date]) (auto simp: criterion_evidence_def)

lemma all_issues_valid:
  assumes "valid_evaluation_input F i" and "x \<in> set (all_issues date i)"
  shows "valid_issue F x"
proof -
  have ev: "is_uuid F (qe_id e)" "\<forall>c \<in> set (qe_criterionIds e). valid_criterion_id c"
    if "e \<in> set (ei_evidence i)" for e
    using assms(1) that by (auto simp: valid_evaluation_input_def list_all_iff valid_evidence_def)
  have cr: "valid_criterion_id (cr_id c)" if "c \<in> set (acceptance_criteria i)" for c
    using assms(1) that
    by (cases "ei_acceptance i") (auto simp: valid_evaluation_input_def acceptance_criteria_def
        valid_acceptance_def list_all_iff valid_criterion_def)
  from assms(2) show ?thesis
    by (auto simp: all_issues_def acceptance_issues_def evidence_issues_def reject_issues_def Let_def
        valid_issue_def issue_of_def ev cr split: option.splits if_splits)
qed

lemma coverage_passed:
  "es \<noteq> [] \<Longrightarrow> \<forall>e \<in> set es. qe_status e = EV_PASSED \<Longrightarrow>
     cv_status (coverage es) = CovPassed \<and> cv_evidenceIds (coverage es) \<noteq> []"
  by (auto simp: coverage_def list_all_iff) (metis length_0_conv length_map length_sort)

lemma map_fst_sort_key: "distinct (map fst (sort_key fst xs)) \<longleftrightarrow> distinct (map fst xs)"
  by (simp add: distinct_map)

lemma checks_complete:
  assumes "map fst xs = ks" and "distinct ks"
  shows "length xs = length ks \<and> distinct (map fst xs) \<and> list_all (\<lambda>k. list_ex (\<lambda>c. fst c = k) xs) ks"
  using assms by (auto simp: list_all_iff list_ex_iff)

lemma report_complete:
  assumes valid: "valid_evaluation_input F i" and ready: "all_issues date i = []"
  shows "complete_coverage (assessment_report date i)"
proof -
  from ready have r: "release_attested date i" by (simp add: all_issues_Nil)
  then obtain a where a: "ei_acceptance i = Some a" by (auto simp: release_attested_def)
  have va: "valid_acceptance F a" using valid a by (simp add: valid_evaluation_input_def)
  have vp: "valid_policy (ei_policy i)" using valid by (simp add: valid_evaluation_input_def)
  have passed: "qe_status e = EV_PASSED" if "e \<in> set (accepted_evidence date i)" for e
    using r that accepted_sub [of date i] by (auto simp: release_attested_def)
  have checks: "cv_status (coverage (check_evidence date i k)) = CovPassed \<and>
      cv_evidenceIds (coverage (check_evidence date i k)) \<noteq> []" if "k \<in> set (sorted_checks i)" for k
    using ready that passed
    by (intro coverage_passed) (auto simp: all_issues_def filter_empty_conv check_evidence_def)
  have trace: "cv_status (coverage (criterion_evidence date i (cr_id c))) = CovPassed \<and>
      cv_evidenceIds (coverage (criterion_evidence date i (cr_id c))) \<noteq> []" if "c \<in> set (ac_criteria a)" for c
    using ready that passed a
    by (intro coverage_passed) (auto simp: all_issues_def filter_empty_conv criterion_evidence_def acceptance_criteria_def)
  have crit: "acceptance_criteria i = ac_criteria a" using a by (simp add: acceptance_criteria_def)
  have set_trace: "set (as_trace (assessment_report date i)) =
      (\<lambda>c. (cr_id c, coverage (criterion_evidence date i (cr_id c)))) ` set (ac_criteria a)"
    by (simp add: assessment_report_def Let_def crit)
  have "ac_criteria a \<noteq> []" "distinct (map cr_id (ac_criteria a))" using va by (auto simp: valid_acceptance_def)
  moreover have "as_trace (assessment_report date i) \<noteq> []"
    using set_trace \<open>ac_criteria a \<noteq> []\<close> by (metis image_is_empty list.set(1) set_empty)
  moreover have "distinct (map fst (as_trace (assessment_report date i)))"
    using \<open>distinct (map cr_id (ac_criteria a))\<close>
    by (simp add: assessment_report_def Let_def crit map_fst_sort_key comp_def)
  moreover have "distinct (qp_requiredChecks (ei_policy i))" using vp by (simp add: valid_policy_def)
  moreover have "list_all (\<lambda>v. cv_status v = CovPassed \<and> cv_evidenceIds v \<noteq> [])
       (map snd (as_checks (assessment_report date i)) @ map snd (as_trace (assessment_report date i)))"
  proof -
    have "map snd (as_checks (assessment_report date i)) =
        map (\<lambda>k. coverage (check_evidence date i k)) (sorted_checks i)"
      by (simp add: assessment_report_def Let_def comp_def)
    moreover have "set (map snd (as_trace (assessment_report date i))) =
        (\<lambda>c. coverage (criterion_evidence date i (cr_id c))) ` set (ac_criteria a)"
      unfolding set_map set_trace image_image by simp
    ultimately show ?thesis using checks trace unfolding list_all_iff set_append by auto
  qed
  moreover have "as_acceptanceTaskId (assessment_report date i) = Some (ac_taskId a)"
    by (simp add: assessment_report_def Let_def a)
  moreover have "map fst (as_checks (assessment_report date i)) = sorted_checks i"
    by (simp add: assessment_report_def Let_def comp_def)
  moreover have "qp_requiredChecks (as_policy (assessment_report date i)) = sorted_checks i"
    by (simp add: assessment_report_def Let_def)
  moreover have "distinct (sorted_checks i)" using vp by (simp add: valid_policy_def sorted_checks_def)
  ultimately show ?thesis
    unfolding complete_coverage_def by (metis checks_complete option.distinct(1))
qed

lemma report_valid:
  assumes valid: "valid_evaluation_input F i"
  shows "valid_assessment F (assessment_report date i)"
proof -
  let ?a = "assessment_report date i"
  have v: "valid_quality_scope F (ei_scope i)" "is_datetime F (ei_evaluatedAt i)" "valid_policy (ei_policy i)"
    "opt_all (valid_acceptance F) (ei_acceptance i)"
    using valid by (simp_all add: valid_evaluation_input_def)
  have "valid_policy (as_policy ?a)" "length (as_checks ?a) \<le> 9"
    using v(3) by (simp_all add: valid_policy_def assessment_report_def Let_def sorted_checks_def CheckKindSchema_def
        BASELINE_CHECKS_def)
  moreover have "list_all (\<lambda>(k, v). valid_coverage F v) (as_checks ?a)"
    using check_coverage_valid [OF valid] by (auto simp: list_all_iff assessment_report_def Let_def)
  moreover have "length (as_trace ?a) \<le> 1000 \<and>
      list_all (\<lambda>(c, v). valid_criterion_id c \<and> valid_coverage F v) (as_trace ?a)"
    using v(4) criterion_coverage_valid [OF valid]
    by (cases "ei_acceptance i") (auto simp: list_all_iff assessment_report_def Let_def acceptance_criteria_def
        valid_acceptance_def valid_criterion_def)
  moreover have "list_all (valid_issue F) (as_issues ?a)"
    using unique_issues_sub [of "all_issues date i"] all_issues_valid [OF valid]
    by (auto simp: list_all_iff assessment_report_def Let_def)
  moreover have "opt_all (is_uuid F) (as_acceptanceTaskId ?a)"
    using v(4) by (cases "ei_acceptance i") (simp_all add: assessment_report_def Let_def valid_acceptance_def)
  moreover have "as_status ?a = AS_READY \<longleftrightarrow> all_issues date i = []" "as_issues ?a = [] \<longleftrightarrow> all_issues date i = []"
    by (simp_all add: assessment_report_def Let_def)
  moreover have "as_scope ?a = ei_scope i" "as_evaluatedAt ?a = ei_evaluatedAt i"
    by (simp_all add: assessment_report_def Let_def)
  ultimately show ?thesis
    using v(1,2) report_complete [OF valid, of date] by (simp add: valid_assessment_def)
qed

text \<open>C31: The evaluator is total on valid input and decides exactly whether the release is attested. Its own
  report always passes the schema of an assessment; and the report is READY if and only if there is
  an acceptance snapshot of exactly this scope, every submitted piece of evidence is of this scope,
  fresh, passed and unique, acceptance evidence names the current attempt of the acceptance task and
  only its criteria, and every required check and every criterion has evidence.\<close>

theorem ready_iff_attested:
  assumes "valid_evaluation_input F i"
  shows "\<exists>a. evaluateRelease F date i = Inr a \<and> (as_status a = AS_READY \<longleftrightarrow> release_attested date i)"
proof -
  have "evaluateRelease F date i = Inr (assessment_report date i)"
    using assms report_valid [OF assms] by (simp add: evaluateRelease_def Let_def)
  moreover have "as_status (assessment_report date i) = AS_READY \<longleftrightarrow> release_attested date i"
    by (simp add: assessment_report_def Let_def all_issues_Nil)
  ultimately show ?thesis by blast
qed

section \<open>The order of the evidence\<close>

lemma dec_digit_plain: "dec_digit c \<Longrightarrow> c \<noteq> CHR 0x22"
  by (auto simp: dec_digit_def)

lemma valid_criterion_plain:
  assumes "valid_criterion_id s"
  shows "CHR 0x22 \<notin> set s"
proof -
  have story: "valid_story_id (take 6 s)" using assms by (simp add: valid_criterion_id_def)
  have "set (take 6 s) \<subseteq> set (take 3 (take 6 s)) \<union> set (drop 3 (take 6 s))"
    by (metis append_take_drop_id order_refl set_append)
  moreover have "take 3 (take 6 s) = ''US-''"
    using story by (auto simp: valid_story_id_def prefix_def simp del: take_take)
  moreover have "CHR 0x22 \<notin> set (drop 3 (take 6 s))"
    using story dec_digit_plain unfolding valid_story_id_def list_all_iff by blast
  ultimately have "CHR 0x22 \<notin> set (take 6 s)" by auto
  moreover have "CHR 0x22 \<notin> set (drop 6 s)"
    using assms by (auto simp: valid_criterion_id_def split: list.splits dest: dec_digit_plain)
  ultimately show ?thesis by (metis append_take_drop_id Un_iff set_append)
qed

lemma all_issues_plain:
  assumes "valid_evaluation_input F i" and "\<And>s. is_uuid F s \<Longrightarrow> CHR 0x22 \<notin> set s"
  shows "inj_on issue_text (set (all_issues date i))"
proof -
  have "plain_issue x" if "x \<in> set (all_issues date i)" for x
    using all_issues_valid [OF assms(1) that] assms(2) valid_criterion_plain
    by (auto simp: plain_issue_def valid_issue_def)
  then show ?thesis by (auto intro: inj_onI issue_text_inj)
qed

lemma sort_map_mset: "mset xs = mset ys \<Longrightarrow> sort (map f xs) = sort (map f ys)"
  by (metis mset_map mset_sort properties_for_sort sorted_sort)

lemma sort_key_inj_mset:
  assumes "mset xs = mset ys" and "inj f"
  shows "sort_key f xs = sort_key f ys"
proof -
  have "map f (sort_key f zs) = sort (map f zs)" for zs
    by (rule sym, rule properties_for_sort) simp_all
  then have "map f (sort_key f xs) = map f (sort_key f ys)" using sort_map_mset [OF assms(1), of f] by simp
  then show ?thesis using assms(2) by (simp add: inj_map_eq_map)
qed

text \<open>The same input with its evidence and its required checks in another order.\<close>

definition reordered :: "evaluation_input \<Rightarrow> evaluation_input \<Rightarrow> bool" where
  "reordered i j \<longleftrightarrow>
     ei_scope j = ei_scope i \<and> ei_evaluatedAt j = ei_evaluatedAt i \<and> ei_acceptance j = ei_acceptance i \<and>
     qp_maxEvidenceAgeSeconds (ei_policy j) = qp_maxEvidenceAgeSeconds (ei_policy i) \<and>
     mset (qp_requiredChecks (ei_policy j)) = mset (qp_requiredChecks (ei_policy i)) \<and>
     mset (ei_evidence j) = mset (ei_evidence i)"

lemma sorted_checks_reordered: "reordered i j \<Longrightarrow> sorted_checks j = sorted_checks i"
  unfolding sorted_checks_def reordered_def
  by (intro sort_key_inj_mset) (auto intro: injI check_kind_string_inj)

lemma acceptance_reordered:
  assumes "reordered i j"
  shows "acceptance_matches j = acceptance_matches i" and "acceptance_criteria j = acceptance_criteria i"
  using assms by (cases "ei_acceptance i"; simp add: reordered_def acceptance_matches_def acceptance_criteria_def)+

lemma reject_issues_reordered:
  assumes "reordered i j"
  shows "reject_issues date j e = reject_issues date i e"
proof -
  have "count_list (map qe_id (ei_evidence j)) x = count_list (map qe_id (ei_evidence i)) x" for x
    using assms unfolding reordered_def by (metis count_mset mset_map)
  with assms acceptance_reordered [OF assms] show ?thesis
    by (simp add: reject_issues_def Let_def attests_task_def reordered_def)
qed

lemma accepted_reordered: "reordered i j \<Longrightarrow> mset (accepted_evidence date j) = mset (accepted_evidence date i)"
  using reject_issues_reordered [of i j date]
  by (simp add: accepted_evidence_def reordered_def)

lemma check_evidence_reordered:
  "reordered i j \<Longrightarrow> mset (check_evidence date j k) = mset (check_evidence date i k)"
  using accepted_reordered [of i j date] by (simp add: check_evidence_def)

lemma criterion_evidence_reordered:
  "reordered i j \<Longrightarrow> mset (criterion_evidence date j c) = mset (criterion_evidence date i c)"
  using accepted_reordered [of i j date] acceptance_reordered [of i j] by (simp add: criterion_evidence_def)

lemma coverage_mset:
  assumes "mset xs = mset ys"
  shows "coverage xs = coverage ys"
proof -
  have "set xs = set ys" "length xs = length ys" using assms by (auto dest: mset_eq_setD mset_eq_length)
  then show ?thesis using sort_map_mset [OF assms, of qe_id] by (simp add: coverage_def list_all_iff)
qed

lemma Nil_mset: "mset xs = mset ys \<Longrightarrow> (xs = []) = (ys = [])"
  by auto

lemma all_issues_reordered:
  assumes "reordered i j"
  shows "set (all_issues date j) = set (all_issues date i)"
proof -
  have "acceptance_issues j = acceptance_issues i" "acceptance_criteria j = acceptance_criteria i"
    using assms acceptance_reordered [OF assms] by (simp_all add: acceptance_issues_def reordered_def)
  moreover have "evidence_issues date j = evidence_issues date i"
    using reject_issues_reordered [OF assms] by (intro ext) (simp add: evidence_issues_def)
  moreover have "set (ei_evidence j) = set (ei_evidence i)"
    using assms by (auto simp: reordered_def dest: mset_eq_setD)
  ultimately show ?thesis
    using sorted_checks_reordered [OF assms] Nil_mset [OF check_evidence_reordered [OF assms]]
      Nil_mset [OF criterion_evidence_reordered [OF assms]]
    by (simp add: all_issues_def)
qed

lemma valid_reordered: "reordered i j \<Longrightarrow> valid_evaluation_input F i \<Longrightarrow> valid_evaluation_input F j"
  by (auto simp: reordered_def valid_evaluation_input_def valid_policy_def list_all_iff
      dest: mset_eq_setD mset_eq_length mset_eq_imp_distinct_iff)

text \<open>The report does not depend on the order the evidence or the required checks come in. Two inputs that
  differ only in those orders get the same report, down to the order of its checks, evidence ids and
  issues. UUIDs contain no quotation mark, so the text of an issue tells it from every other.\<close>

lemma report_order_independent:
  assumes "reordered i j" and "valid_evaluation_input F i"
    and "\<And>s. is_uuid F s \<Longrightarrow> CHR 0x22 \<notin> set s"
  shows "evaluateRelease F date j = evaluateRelease F date i"
proof -
  have vj: "valid_evaluation_input F j" by (rule valid_reordered [OF assms(1,2)])
  have "unique_issues (all_issues date j) = unique_issues (all_issues date i)"
    by (rule unique_issues_cong [OF all_issues_reordered [OF assms(1)] all_issues_plain [OF vj assms(3)]])
  moreover have "coverage (check_evidence date j k) = coverage (check_evidence date i k)" for k
    by (rule coverage_mset [OF check_evidence_reordered [OF assms(1)]])
  moreover have "coverage (criterion_evidence date j c) = coverage (criterion_evidence date i c)" for c
    by (rule coverage_mset [OF criterion_evidence_reordered [OF assms(1)]])
  moreover have "acceptance_criteria j = acceptance_criteria i" by (rule acceptance_reordered [OF assms(1)])
  moreover have "(ei_policy j)\<lparr>qp_requiredChecks := sorted_checks j\<rparr> = (ei_policy i)\<lparr>qp_requiredChecks := sorted_checks i\<rparr>"
    using assms(1) sorted_checks_reordered [OF assms(1)]
    by (intro quality_policy.equality) (simp_all add: reordered_def)
  ultimately have "assessment_report date j = assessment_report date i"
    using assms(1) sorted_checks_reordered [OF assms(1)]
    by (simp add: assessment_report_def Let_def reordered_def)
  then show ?thesis using vj assms(2) by (simp add: evaluateRelease_def)
qed

section \<open>A concrete release\<close>

definition sample_scope :: quality_scope where
  "sample_scope = \<lparr>qs_workspaceId = ''w'', qs_projectId = ''p'', qs_runId = ''r'', qs_controlVersion = 3,
     qs_attempt = 1, qs_snapshotSha256 = replicate 64 (CHR ''a'')\<rparr>"

definition sample_evidence :: "string \<Rightarrow> evidence_kind \<Rightarrow> quality_evidence" where
  "sample_evidence n k = \<lparr>qe_id = n, qe_sourceArtifactId = n, qe_scope = sample_scope, qe_kind = k,
     qe_status = EV_PASSED, qe_completedAt = ''then'',
     qe_acceptanceTaskId = (if k = AcceptanceEvidence then Some ''t'' else None),
     qe_acceptanceTaskAttempt = (if k = AcceptanceEvidence then Some 0 else None),
     qe_criterionIds = (if k = AcceptanceEvidence then [''US-001:1''] else [])\<rparr>"

definition sample_release :: evaluation_input where
  "sample_release =
     \<lparr>ei_scope = sample_scope, ei_evaluatedAt = ''now'',
      ei_policy = \<lparr>qp_requiredChecks = BASELINE_CHECKS, qp_maxEvidenceAgeSeconds = 60\<rparr>,
      ei_acceptance = Some \<lparr>ac_taskId = ''t'', ac_taskAttempt = 0, ac_scope = sample_scope,
        ac_criteria = [\<lparr>cr_id = ''US-001:1'', cr_key = ''auth.sign_in'', cr_text = ''works''\<rparr>]\<rparr>,
      ei_evidence = [sample_evidence ''a'' (CheckEvidence CK_LINT), sample_evidence ''b'' (CheckEvidence CK_TYPECHECK),
        sample_evidence ''c'' (CheckEvidence CK_TEST), sample_evidence ''d'' (CheckEvidence CK_BUILD),
        sample_evidence ''e'' AcceptanceEvidence]\<rparr>"

definition sample_date :: "string \<Rightarrow> time" where
  "sample_date s = (if s = ''now'' then 60000 else 0)"

definition plain_formats :: formats where
  "plain_formats = \<lparr>is_uuid = (\<lambda>s. CHR 0x22 \<notin> set s), is_datetime = (\<lambda>s. s \<noteq> []), is_url = (\<lambda>s. True)\<rparr>"

lemma sample_release_valid: "valid_evaluation_input plain_formats sample_release"
proof -
  have "opt_all (valid_acceptance plain_formats) (ei_acceptance sample_release)"
  proof -
    have "ei_acceptance sample_release =
        Some \<lparr>ac_taskId = ''t'', ac_taskAttempt = 0, ac_scope = sample_scope,
          ac_criteria = [\<lparr>cr_id = ''US-001:1'', cr_key = ''auth.sign_in'', cr_text = ''works''\<rparr>]\<rparr>"
      by (simp add: sample_release_def)
    moreover have "valid_acceptance plain_formats \<lparr>ac_taskId = ''t'', ac_taskAttempt = 0, ac_scope = sample_scope,
          ac_criteria = [\<lparr>cr_id = ''US-001:1'', cr_key = ''auth.sign_in'', cr_text = ''works''\<rparr>]\<rparr>"
      by code_simp
    ultimately show ?thesis by simp
  qed
  moreover have "list_all (valid_evidence plain_formats) (ei_evidence sample_release)"
    unfolding sample_release_def valid_evidence_def sample_evidence_def by (simp; code_simp)
  moreover have "valid_quality_scope plain_formats (ei_scope sample_release)" by code_simp
  moreover have "valid_policy (ei_policy sample_release)" by code_simp
  moreover have "length (ei_evidence sample_release) \<le> 2000" by code_simp
  moreover have "is_datetime plain_formats (ei_evaluatedAt sample_release)" by code_simp
  ultimately show ?thesis by (simp add: valid_evaluation_input_def)
qed

lemma ready_iff_attested_witness:
  "map_option as_status (case evaluateRelease plain_formats sample_date sample_release of Inl _ \<Rightarrow> None | Inr a \<Rightarrow> Some a) =
     Some AS_READY"
proof -
  have "release_attested sample_date sample_release" unfolding all_issues_Nil [symmetric] by code_simp
  with ready_iff_attested [OF sample_release_valid, of sample_date] show ?thesis by auto
qed

end
