(* ===== verification/ReleaseProperties.thy ===== *)
theory ReleaseProperties
  imports ReleaseStore QualityProperties Samples
begin

text \<open>
  The assessor never reports READY, always leaves an assessment, and acceptance evidence only speaks
  for the criteria the manifest maps a scenario to.
\<close>

section \<open>Adapters\<close>

lemma enumerate_map_fst: "map fst (enumerate n xs) = [n..<n + length xs]"
  by (simp add: enumerate_eq_zip)

lemma criterion_number:
  assumes "n < 20" and "length s = 6"
  shows "valid_criterion_id (s @ '':'' @ nat_string (n + 1)) = valid_story_id s"
proof -
  have "list_all (\<lambda>n. case nat_string (n + 1) of
      [d] \<Rightarrow> dec_digit d \<and> d \<noteq> CHR ''0'' | [d, e] \<Rightarrow> dec_digit d \<and> d \<noteq> CHR ''0'' \<and> dec_digit e | _ \<Rightarrow> False) [0..<20]"
    by code_simp
  then have "case nat_string (n + 1) of
      [d] \<Rightarrow> dec_digit d \<and> d \<noteq> CHR ''0'' | [d, e] \<Rightarrow> dec_digit d \<and> d \<noteq> CHR ''0'' \<and> dec_digit e | _ \<Rightarrow> False"
    using assms unfolding list_all_iff by simp
  then show ?thesis using assms(2) by (auto simp: valid_criterion_id_def split: list.splits)
qed

lemma those_Some: "those xs = Some ys \<longleftrightarrow> xs = map Some ys"
  by (induction xs arbitrary: ys) (auto simp: Cons_eq_map_conv split: option.splits)

lemma those_map: "those (map f xs) = Some ys \<Longrightarrow> length ys = length xs \<and> (\<forall>y \<in> set ys. \<exists>x \<in> set xs. f x = Some y)"
  unfolding those_Some by (metis (mono_tags, lifting) imageE image_eqI image_set length_map)

lemma parse_emma_criterion_Some:
  "parse_emma_criterion j = Some (k, t) \<Longrightarrow> valid_criterion_key k \<and> bounded_text 4000 t"
  by (auto simp: parse_emma_criterion_def bind_eq_Some_conv split: if_splits)

lemma parse_emma_story_Some:
  assumes "parse_emma_story j = Some s"
  shows "valid_story_id (es_id s) \<and> 1 \<le> length (es_criteria s) \<and> length (es_criteria s) \<le> 20 \<and>
    (\<forall>(k, t) \<in> set (es_criteria s). valid_criterion_key k \<and> bounded_text 4000 t)"
proof -
  obtain cs where cs: "json_array ''acceptanceCriteria'' 20 j = Some cs"
    and those: "those (map parse_emma_criterion cs) = Some (es_criteria s)" and i: "valid_story_id (es_id s)"
    using assms by (auto simp: parse_emma_story_def bind_eq_Some_conv split: if_splits)
  have "1 \<le> length cs \<and> length cs \<le> 20"
    using cs by (auto simp: json_array_def split: json.splits option.splits if_splits)
  moreover have "\<forall>(k, t) \<in> set (es_criteria s). valid_criterion_key k \<and> bounded_text 4000 t"
    using those_map [OF those] parse_emma_criterion_Some by fastforce
  ultimately show ?thesis using i those_map [OF those] by auto
qed

lemma EmmaCriteriaSchema_Some:
  assumes "EmmaCriteriaSchema j = Some stories"
  shows "1 \<le> length stories \<and> length stories \<le> 50 \<and> (\<forall>s \<in> set stories. \<exists>k. parse_emma_story k = Some s)"
proof -
  obtain xs where xs: "json_array ''userStories'' 50 j = Some xs" "those (map parse_emma_story xs) = Some stories"
    using assms by (auto simp: EmmaCriteriaSchema_def bind_eq_Some_conv)
  have "1 \<le> length xs \<and> length xs \<le> 50"
    using xs(1) by (auto simp: json_array_def split: json.splits option.splits if_splits)
  with those_map [OF xs(2)] show ?thesis by auto
qed

lemma nat_string_inj20:
  assumes "m < 20" and "n < 20" and "nat_string (m + 1) = nat_string (n + 1)"
  shows "m = n"
proof -
  have "distinct (map (\<lambda>n. nat_string (n + 1)) [0..<20])" by code_simp
  then show ?thesis using assms unfolding distinct_map inj_on_def by simp
qed

lemma story_criteria_ids:
  "map cr_id (story_criteria s) = map (\<lambda>n. es_id s @ '':'' @ nat_string (n + 1)) [0..<length (es_criteria s)]"
proof -
  have "map cr_id (story_criteria s) =
      map (\<lambda>n. es_id s @ '':'' @ nat_string (n + 1)) (map fst (enumerate 0 (es_criteria s)))"
    unfolding story_criteria_def map_map by (rule map_cong) auto
  then show ?thesis unfolding enumerate_map_fst by simp
qed

lemma story_criteria_distinct:
  assumes "length (es_criteria s) \<le> 20"
  shows "distinct (map cr_id (story_criteria s))"
  unfolding story_criteria_ids distinct_map using assms by (auto intro!: inj_onI nat_string_inj20)

lemma story_criteria_valid:
  assumes "parse_emma_story j = Some s" and "c \<in> set (story_criteria s)"
  shows "valid_criterion c \<and> take 6 (cr_id c) = es_id s"
proof -
  have s: "valid_story_id (es_id s)" "length (es_criteria s) \<le> 20"
    "\<forall>(k, t) \<in> set (es_criteria s). valid_criterion_key k \<and> bounded_text 4000 t"
    using parse_emma_story_Some [OF assms(1)] by auto
  have six: "length (es_id s) = 6" using s(1) by (simp add: valid_story_id_def)
  obtain n k t where c: "c = \<lparr>cr_id = es_id s @ '':'' @ nat_string (n + 1), cr_key = k, cr_text = t\<rparr>"
    and n: "(n, k, t) \<in> set (enumerate 0 (es_criteria s))"
    using assms(2) by (auto simp: story_criteria_def)
  have nth: "n < length (es_criteria s)" "es_criteria s ! n = (k, t)" using n by (auto simp: in_set_enumerate_eq)
  have "(k, t) \<in> set (es_criteria s)" using nth_mem [OF nth(1)] nth(2) by simp
  moreover have "n < 20" using nth(1) s(2) by simp
  ultimately show ?thesis
    using s(1,3) six criterion_number [of n "es_id s"] unfolding c by (auto simp: valid_criterion_def)
qed

lemma concat_length_le: "\<forall>x \<in> set xs. length (f x) \<le> k \<Longrightarrow> length (concat (map f xs)) \<le> length xs * k"
  by (induction xs) auto

lemma stories_distinct:
  assumes "\<forall>s \<in> set stories. \<exists>j. parse_emma_story j = Some s" and "distinct (map es_id stories)"
  shows "distinct (map cr_id (concat (map story_criteria stories)))"
  using assms
proof (induction stories)
  case (Cons s ss)
  obtain j where j: "parse_emma_story j = Some s" using Cons.prems(1) by auto
  have "cr_id c \<noteq> cr_id c'" if cs: "c \<in> set (story_criteria s)" and ss: "s' \<in> set ss" and cs': "c' \<in> set (story_criteria s')" for c c' s'
  proof -
    obtain j' where "parse_emma_story j' = Some s'" using Cons.prems(1) ss by auto
    then have "take 6 (cr_id c') = es_id s'" using story_criteria_valid cs' by blast
    moreover have "take 6 (cr_id c) = es_id s" using story_criteria_valid [OF j cs] by simp
    moreover have "es_id s \<noteq> es_id s'" using Cons.prems(2) ss by auto
    ultimately show ?thesis by metis
  qed
  moreover have "distinct (map cr_id (story_criteria s))"
    by (rule story_criteria_distinct) (use parse_emma_story_Some [OF j] in simp)
  ultimately show ?case using Cons by (auto simp: image_iff)
qed simp

text \<open>Emma's output that its schema accepts, with distinct stories, always gives a valid snapshot.\<close>

lemma snapshot_accepts_emma:
  assumes "EmmaCriteriaSchema out = Some stories" and "distinct (map es_id stories)"
    and "valid_quality_scope F scope" and "is_uuid F taskId" and "valid_task_attempt n"
  shows "\<exists>a. createAcceptanceSnapshot F scope taskId n out = Inr a \<and> valid_acceptance F a \<and> ac_scope a = scope \<and>
    length (ac_criteria a) = sum_list (map (\<lambda>s. length (es_criteria s)) stories)"
proof -
  let ?cs = "concat (map story_criteria stories)"
  note st = EmmaCriteriaSchema_Some [OF assms(1)]
  have len: "length (story_criteria s) = length (es_criteria s)" for s by (simp add: story_criteria_def)
  have each: "1 \<le> length (es_criteria s) \<and> length (es_criteria s) \<le> 20" if "s \<in> set stories" for s
    using st that parse_emma_story_Some by blast
  have "length ?cs \<le> length stories * 20"
    by (rule concat_length_le) (use each len in simp)
  then have "length ?cs \<le> 1000" using st by linarith
  moreover have "1 \<le> length ?cs"
    using st each len by (cases stories) (auto simp: Suc_le_eq)
  moreover have "list_all valid_criterion ?cs"
    using st story_criteria_valid by (fastforce simp: list_all_iff)
  moreover have "distinct (map cr_id ?cs)" by (rule stories_distinct) (use st assms(2) in auto)
  ultimately have "valid_acceptance F \<lparr>ac_taskId = taskId, ac_taskAttempt = n, ac_scope = scope, ac_criteria = ?cs\<rparr>"
    using assms(3-5) by (simp add: valid_acceptance_def)
  then show ?thesis
    using assms(1,2) by (simp add: createAcceptanceSnapshot_def length_concat comp_def len)
qed

section \<open>Acceptance evidence\<close>

lemma scenario_evidence_mapped:
  assumes "scenario_evidence F rnd scope ar a m n rs = Inr es" and "e \<in> set es"
  shows "qe_kind e = AcceptanceEvidence \<and> qe_scope e = scope \<and> qe_sourceArtifactId e = ar_id ar \<and>
    qe_acceptanceTaskId e = Some (ac_taskId a) \<and> qe_acceptanceTaskAttempt e = Some (ac_taskAttempt a) \<and>
    (\<exists>s. (s, qe_criterionIds e) \<in> set m) \<and> valid_evidence F e"
  using assms
proof (induction rs arbitrary: n es)
  case (Cons r rs)
  obtain ids where ids: "scenario_ids m (js_trim (sr_scenario r)) = Inr ids"
    using Cons.prems(1) by (auto simp: bind_res_Inr_iff)
  show ?case
  proof (cases "ids = []")
    case True
    then show ?thesis using Cons ids by simp
  next
    case False
    then have m: "(js_trim (sr_scenario r), ids) \<in> set m"
      using ids by (auto simp: scenario_ids_def split: option.splits if_splits dest: map_of_SomeD)
    obtain x ys where "scenario_evidence F rnd scope ar a m (Suc n) rs = Inr ys" "es = x # ys"
      "parse_evidence F
              \<lparr>qe_id = rnd n, qe_sourceArtifactId = ar_id ar, qe_scope = scope, qe_kind = AcceptanceEvidence,
               qe_status = sr_status r, qe_completedAt = ar_completedAt ar,
               qe_acceptanceTaskId = Some (ac_taskId a), qe_acceptanceTaskAttempt = Some (ac_taskAttempt a),
               qe_criterionIds = ids\<rparr> = Inr x"
      using Cons.prems(1) ids False by (auto simp: bind_res_Inr_iff)
    then show ?thesis using Cons.IH [of "Suc n" ys] Cons.prems(2) m by (auto simp: parse_evidence_def split: if_splits)
  qed
qed simp

lemma resolved_ids:
  "(s, ids) \<in> set (cx_ids (resolveCriterionIdsByScenario a keys)) \<Longrightarrow>
     \<exists>ks. (s, ks) \<in> set keys \<and> ids = concat (map (ids_by_key a) ks)"
  by (auto simp: resolveCriterionIdsByScenario_def)

lemma evidenceFromAcceptanceRun_mapped:
  assumes "evidenceFromAcceptanceRun F rnd decode scope ar a m = Inr es" and "e \<in> set es"
  shows "\<exists>n rs. scenario_evidence F rnd scope ar a m n rs = Inr es"
  using assms by (auto simp: evidenceFromAcceptanceRun_def split: list.splits option.splits if_splits)


section \<open>The assessor never reports READY\<close>

lemma command_evidence_kind:
  assumes "command_evidence R scope cs = Inr es" and "e \<in> set es"
  shows "qe_kind e \<in> CheckEvidence ` set BASELINE_CHECKS"
  using assms
proof (induction cs arbitrary: es)
  case (Cons c cs)
  obtain i s where c: "c = (i, s)" by fastforce
  obtain x ys where x: "evidenceFromValidationStep (ro_formats R) (ro_date R) scope i s = Inr x"
    and ys: "command_evidence R scope cs = Inr ys" and es: "es = (case x of None \<Rightarrow> ys | Some y \<Rightarrow> y # ys)"
    using Cons.prems(1) unfolding c by (auto simp: bind_res_Inr_iff)
  have "qe_kind y \<in> CheckEvidence ` set BASELINE_CHECKS" if "x = Some y" for y
    using x that by (auto simp: evidenceFromValidationStep_def step_kinds_def bind_res_Inr_iff parse_evidence_def
        BASELINE_CHECKS_def split: if_splits validation_step.splits)
  then show ?case using Cons.IH [OF ys] Cons.prems(2) es by (auto split: option.splits)
qed simp

lemma acceptance_evidence_kind:
  assumes "acceptance_evidence R scope acc ar = Inr (es, un)" and "e \<in> set es"
  shows "qe_kind e = AcceptanceEvidence"
proof -
  obtain a r where "acc = Some a" "ar = Some r"
    and "evidenceFromAcceptanceRun (ro_formats R) (ro_random R) (ro_decode R) scope r a
      (cx_ids (resolveCriterionIdsByScenario a (ro_keys R))) = Inr es"
    using assms by (auto simp: acceptance_evidence_def Let_def bind_res_Inr_iff split: option.splits)
  then show ?thesis using evidenceFromAcceptanceRun_mapped scenario_evidence_mapped assms(2) by blast
qed

lemma evaluateRelease_Inr: "evaluateRelease F date i = Inr a \<Longrightarrow> a = assessment_report date i"
  by (auto simp: evaluateRelease_def Let_def split: if_splits)

lemma assess_inputs_blocked:
  assumes "assess_inputs R x now i = Inr r"
  shows "as_status (sd_report r) = AS_BLOCKED"
proof -
  obtain sha acc es es' un a where es: "command_evidence R (quality_scope_of R x sha) (li_commands i) = Inr es"
    and es': "acceptance_evidence R (quality_scope_of R x sha) acc (li_acceptanceRun i) = Inr (es', un)"
    and a: "evaluateRelease (ro_formats R) (ro_date R)
            \<lparr>ei_scope = quality_scope_of R x sha, ei_evaluatedAt = ro_iso R now, ei_policy = STANDARD_RELEASE_POLICY,
             ei_acceptance = acc, ei_evidence = es @ es'\<rparr> = Inr a" and r: "sd_report r = a"
    using assms unfolding assess_inputs_def Let_def by (auto simp: bind_res_Inr_iff)
  let ?i = "\<lparr>ei_scope = quality_scope_of R x sha, ei_evaluatedAt = ro_iso R now, ei_policy = STANDARD_RELEASE_POLICY,
             ei_acceptance = acc, ei_evidence = es @ es'\<rparr>"
  have "\<not> release_attested (ro_date R) ?i"
  proof
    assume "release_attested (ro_date R) ?i"
    then have "\<exists>e \<in> set (es @ es'). qe_kind e = CheckEvidence CK_SECURITY"
      by (auto simp: release_attested_def STANDARD_RELEASE_POLICY_def CheckKindSchema_def)
    then show False
      using command_evidence_kind [OF es] acceptance_evidence_kind [OF es'] by (fastforce simp: BASELINE_CHECKS_def)
  qed
  then have "all_issues (ro_date R) ?i \<noteq> []" by (simp add: all_issues_Nil)
  then show ?thesis using evaluateRelease_Inr [OF a] r by (simp add: assessment_report_def Let_def)
qed

definition never_ready :: "release_store \<Rightarrow> bool" where
  "never_ready s \<longleftrightarrow> (\<forall>w \<in> set (rs_rows s). rw_status w = AS_BLOCKED)"

lemma upsert_rows:
  "upsert_assessment w s = Inr s' \<Longrightarrow> v \<in> set (rs_rows s') \<Longrightarrow> v = w \<or> v \<in> set (rs_rows s)"
  by (auto simp: upsert_assessment_def Let_def split: if_splits option.splits)

lemma persist_rows:
  assumes "persistAssessment date aid x r s = Inr s'"
  shows "\<exists>s1. upsert_assessment (report_row date aid x SRC_WORKER (sd_report r)) s = Inr s1 \<and> rs_rows s' = rs_rows s1"
  using assms by (auto simp: persistAssessment_def bind_res_Inr_iff appendReleaseEvents_def create_evidence_def
      delete_evidence_def split: if_splits)

lemma persist_failure_rows:
  assumes "persistEvaluatorFailure aid x now s = Inr s'"
  shows "\<exists>s1. upsert_assessment (failure_row aid x SRC_WORKER now) s = Inr s1 \<and> rs_rows s' = rs_rows s1"
  using assms by (auto simp: persistEvaluatorFailure_def bind_res_Inr_iff appendReleaseEvents_def delete_evidence_def)

lemma persist_never_ready:
  assumes "persistAssessment date aid x r s = Inr s'" and "as_status (sd_report r) = AS_BLOCKED" and "never_ready s"
  shows "never_ready s'"
  using persist_rows [OF assms(1)] upsert_rows assms(2,3) by (fastforce simp: never_ready_def report_row_def)

lemma persist_failure_never_ready:
  assumes "persistEvaluatorFailure aid x now s = Inr s'" and "never_ready s"
  shows "never_ready s'"
  using persist_failure_rows [OF assms(1)] upsert_rows assms(2) by (fastforce simp: never_ready_def failure_row_def)

lemma try_assess_never_ready:
  assumes "never_ready s" and "\<And>n t. never_ready t \<Longrightarrow> never_ready (al_env A n t)"
    and "try_assess R A x s = (res, s')"
  shows "never_ready s' \<and> (\<forall>t. res = Inr t \<longrightarrow> never_ready t)"
  using assms assess_inputs_blocked persist_never_ready
  by (fastforce simp: try_assess_def Let_def reached_def split: sum.splits if_splits)

lemma assess_never_ready:
  assumes "never_ready s" and "\<And>n t. never_ready t \<Longrightarrow> never_ready (al_env A n t)"
  shows "never_ready (assess R A run n s)"
proof -
  let ?x = "\<lparr>ax_workspaceId = x_workspaceId run, ax_projectId = x_projectId run, ax_runId = x_id run,
               ax_controlVersion = x_controlVersion run, ax_attempt = n\<rparr>"
  obtain res t where t: "try_assess R A ?x s = (res, t)" by fastforce
  then have "never_ready t" "\<And>t'. res = Inr t' \<Longrightarrow> never_ready t'" using try_assess_never_ready [OF assms] by blast+
  then show ?thesis
    using t assms(2) persist_failure_never_ready
    by (auto simp: assess_def Let_def reached_def split: sum.splits if_splits)
qed

lemma trigger_never_ready:
  assumes "never_ready s"
  shows "never_ready (snd (triggerReleaseAssessment R created aid u p now s))"
proof -
  have pm: "never_ready (snd (persist_manual w s))" if "rw_status w = AS_BLOCKED" for w
    using that assms upsert_rows by (fastforce simp: persist_manual_def never_ready_def split: sum.splits)
  have both: "never_ready (snd (case persist_manual w s of (Inl _, _) \<Rightarrow> persist_manual v s | ok \<Rightarrow> ok))"
    if "rw_status w = AS_BLOCKED" "rw_status v = AS_BLOCKED" for w v
    using pm [OF that(1)] pm [OF that(2)] by (auto split: prod.split sum.split)
  have blocked: "rw_status (report_row (ro_date R) aid x SRC_MANUAL (sd_report r)) = AS_BLOCKED"
    if "assess_inputs R x now i = Inr r" for x i r
    using assess_inputs_blocked [OF that] by (simp add: report_row_def)
  have failed: "rw_status (failure_row aid x SRC_MANUAL now) = AS_BLOCKED" for x by (simp add: failure_row_def)
  show ?thesis
    unfolding triggerReleaseAssessment_def Let_def
    by (auto simp: assms pm failed intro!: both blocked split: option.split sum.split)
qed

text \<open>C33: Observing a run can never declare it ready. Under the standard policy a release needs regression,
  end-to-end, accessibility, performance and security evidence, and no evidence of those kinds is ever
  collected: whatever the assessor reads, whatever fails and whatever the other connections do meanwhile, every
  assessment that is stored stays BLOCKED, by the worker and by an on-demand trigger.\<close>

theorem assessor_never_ready:
  assumes "never_ready s" and "\<And>n t. never_ready t \<Longrightarrow> never_ready (al_env A n t)"
  shows "never_ready (assess R A run n s) \<and> never_ready (snd (triggerReleaseAssessment R created aid u p now s))"
  using assess_never_ready [OF assms] trigger_never_ready [OF assms(1)] by blast

section \<open>Every assessment leaves a record\<close>

lemma appendEvents_bodies:
  "appendEvents i bs d = Inr d' \<Longrightarrow>
     \<exists>bs'. map validateRunEventPayload bs = map Some bs' \<and> map e_body (events d') = map e_body (events d) @ bs'"
proof (induction bs arbitrary: d)
  case (Cons b bs)
  obtain d1 where d1: "appendEvent i b d = Inr d1" "appendEvents i bs d1 = Inr d'"
    using Cons.prems by (auto simp: bind_res_Inr_iff)
  obtain b' where "validateRunEventPayload b = Some b'" "map e_body (events d1) = map e_body (events d) @ [b']"
    using d1(1) by (auto simp: appendEvent_Inr)
  moreover obtain bs' where "map validateRunEventPayload bs = map Some bs'"
    "map e_body (events d') = map e_body (events d1) @ bs'" using Cons.IH [OF d1(2)] by blast
  ultimately show ?case by (intro exI [where x = "b' # bs'"]) simp
qed simp

lemma appendEvents_total:
  assumes "db_ok d" and "run_of d i = Some r" and "\<forall>b \<in> set bs. validateRunEventPayload b \<noteq> None"
  shows "\<exists>d'. appendEvents i bs d = Inr d'"
  using assms
proof (induction bs arbitrary: d r)
  case (Cons b bs)
  obtain b' where b: "validateRunEventPayload b = Some b'" using Cons.prems(3) by auto
  have "events_ok d" using Cons.prems(1) by (simp add: db_ok_def)
  from appendEvent_total [OF this Cons.prems(2) b] obtain d1 where d1: "appendEvent i b d = Inr d1" by blast
  then have "\<exists>r. run_of d1 i = Some r" by (auto simp: appendEvent_Inr)
  then show ?case using Cons.IH [of d1] db_ok_appendEvent [OF Cons.prems(1) d1] Cons.prems(3) d1 by auto
qed simp

text \<open>What a stored outcome is: the row of the attempt and its first two events.\<close>

definition recorded :: "string \<Rightarrow> assessment_scope \<Rightarrow> release_store \<Rightarrow> release_store \<Rightarrow> bool" where
  "recorded aid x s s' \<longleftrightarrow>
     (\<exists>w \<in> set (rs_rows s'). same_assessment x SRC_WORKER w \<and> rw_id w = aid \<and> rw_status w = AS_BLOCKED) \<and>
     (\<exists>n bs. map e_body (events (rs_db s')) =
        map e_body (events (rs_db s)) @ ReleaseAssessmentStarted aid (ax_attempt x) # ReleaseBlocked aid n # bs) \<and>
     db_ok (rs_db s')"

lemma upsert_has_row:
  assumes "upsert_assessment w s = Inr s'"
  shows "w \<in> set (rs_rows s') \<and> rs_db s' = rs_db s"
proof (cases "find_first_opt (same_assessment (rw_scope w) (rw_source w)) (rs_rows s)")
  case (Some old)
  then show ?thesis using assms find_first_opt_Some [OF Some]
    by (auto simp: upsert_assessment_def Let_def image_iff split: if_splits)
qed (use assms in \<open>auto simp: upsert_assessment_def Let_def split: if_splits\<close>)

lemma upsert_total:
  assumes "\<forall>v \<in> set (rs_rows s). rw_id v \<noteq> rw_id w"
  shows "\<exists>s'. upsert_assessment w s = Inr s'"
  using assms by (auto simp: upsert_assessment_def Let_def list_ex_iff split: option.split)

lemma appendReleaseEvents_Inr:
  assumes "appendReleaseEvents i bs s = Inr s'" and "db_ok (rs_db s)"
  shows "rs_rows s' = rs_rows s \<and> db_ok (rs_db s') \<and>
    (\<exists>bs'. map validateRunEventPayload bs = map Some bs' \<and>
       map e_body (events (rs_db s')) = map e_body (events (rs_db s)) @ bs')"
  using assms appendEvents_bodies db_ok_appendEvents by (fastforce simp: appendReleaseEvents_def bind_res_Inr_iff)

lemma persist_recorded:
  assumes "persistAssessment date aid x r s = Inr s'" and "as_status (sd_report r) = AS_BLOCKED" and ok: "db_ok (rs_db s)"
  shows "recorded aid x s s'"
proof -
  let ?w = "report_row date aid x SRC_WORKER (sd_report r)"
  obtain s1 s2 where s1: "upsert_assessment ?w s = Inr s1"
    and s2: "create_evidence (map (to_evidence_row date aid) (sd_evidence r)) (delete_evidence aid s1) = Inr s2"
    and s3: "appendReleaseEvents (ax_runId x)
         (ReleaseAssessmentStarted aid (ax_attempt x) # outcome_event aid (sd_report r) #
          map (\<lambda>(n, ks). ReleaseCriterionKeyUnresolved aid n ks) (sd_unresolved r)) s2 = Inr s'"
    using assms(1) by (auto simp: persistAssessment_def bind_res_Inr_iff)
  have frame: "rs_rows s2 = rs_rows s1" "rs_db s2 = rs_db s1"
    using s2 by (auto simp: create_evidence_def delete_evidence_def split: if_splits)
  note row = upsert_has_row [OF s1]
  have w: "same_assessment x SRC_WORKER ?w" "rw_id ?w = aid" "rw_status ?w = AS_BLOCKED"
    using assms(2) by (simp_all add: report_row_def same_assessment_def)
  have "db_ok (rs_db s2)" using ok frame row by simp
  note app = appendReleaseEvents_Inr [OF s3 this]
  obtain n where n: "outcome_event aid (sd_report r) = ReleaseBlocked aid n"
    using assms(2) by (auto simp: outcome_event_def)
  have "\<exists>bs. map e_body (events (rs_db s')) =
      map e_body (events (rs_db s)) @ ReleaseAssessmentStarted aid (ax_attempt x) # ReleaseBlocked aid n # bs"
    using app frame row unfolding n by (auto simp: validateRunEventPayload_def Cons_eq_map_conv split: if_splits)
  moreover have "?w \<in> set (rs_rows s')" "db_ok (rs_db s')" using app frame row by simp_all
  ultimately show ?thesis using w unfolding recorded_def by blast
qed

lemma persist_failure_recorded:
  assumes fresh: "\<forall>v \<in> set (rs_rows s). rw_id v \<noteq> aid" and ok: "db_ok (rs_db s)"
    and r: "run_of (rs_db s) (ax_runId x) = Some r" and n: "0 < ax_attempt x"
  shows "\<exists>s'. persistEvaluatorFailure aid x now s = Inr s' \<and> recorded aid x s s'"
proof -
  let ?w = "failure_row aid x SRC_WORKER now"
  let ?bs = "[ReleaseAssessmentStarted aid (ax_attempt x), ReleaseBlocked aid 1]"
  obtain s1 where s1: "upsert_assessment ?w s = Inr s1" using upsert_total [of s ?w] fresh by (auto simp: failure_row_def)
  note row = upsert_has_row [OF s1]
  let ?t = "delete_evidence aid s1"
  have t: "rs_db ?t = rs_db s" "rs_rows ?t = rs_rows s1" using row by (simp_all add: delete_evidence_def)
  have valid: "map validateRunEventPayload ?bs = map Some ?bs" using n by (simp add: validateRunEventPayload_def)
  then have "\<forall>b \<in> set ?bs. validateRunEventPayload b \<noteq> None" by simp
  from appendEvents_total [OF ok r this] obtain d where d: "appendEvents (ax_runId x) ?bs (rs_db s) = Inr d" by blast
  then have s3: "appendReleaseEvents (ax_runId x) ?bs ?t = Inr (?t\<lparr>rs_db := d\<rparr>)"
    using t by (simp add: appendReleaseEvents_def del: appendEvents.simps)
  have w: "same_assessment x SRC_WORKER ?w" "rw_id ?w = aid" "rw_status ?w = AS_BLOCKED"
    by (simp_all add: failure_row_def same_assessment_def)
  have "db_ok (rs_db ?t)" using t ok by simp
  note app = appendReleaseEvents_Inr [OF s3 this]
  have "map e_body (events d) = map e_body (events (rs_db s)) @ ?bs"
    using app t valid by (auto dest: map_injective [OF _ inj_Some])
  moreover have "?w \<in> set (rs_rows (?t\<lparr>rs_db := d\<rparr>))" "db_ok d" using app t row by simp_all
  ultimately have "recorded aid x s (?t\<lparr>rs_db := d\<rparr>)" using w unfolding recorded_def by auto
  then show ?thesis using s1 s3 by (simp add: persistEvaluatorFailure_def)
qed

lemma try_assess_cases:
  assumes "\<And>k t. al_env A k t = t"
  shows "try_assess R A x s = (Inl (), s) \<or>
    (\<exists>q t. try_assess R A x s = (Inr t, t) \<and> persistAssessment (ro_date R) (al_id A) x q s = Inr t \<and>
       as_status (sd_report q) = AS_BLOCKED)"
proof (cases "reached A 0 (\<lambda>s. loadEvidenceInputs R (ax_runId x) (ax_attempt x) (rs_db s)) s")
  case (Inr i)
  show ?thesis
  proof (cases "assess_inputs R x (al_now A) i")
    case r: (Inr q)
    show ?thesis
      using Inr r assms assess_inputs_blocked [OF r]
      by (cases "reached A 1 (persistAssessment (ro_date R) (al_id A) x q) s")
        (auto simp: try_assess_def reached_def split: if_splits)
  qed (use Inr assms in \<open>simp add: try_assess_def\<close>)
qed (use assms in \<open>simp add: try_assess_def\<close>)


text \<open>
  The on-demand assessment reads the commands of every attempt of the run, where the assessor of the worker
  reads those of its own attempt only: a command of a superseded attempt becomes evidence of attempt 1.
\<close>

lemma manual_reads_every_attempt:
  assumes "c \<in> set (commands d)" and "session_of d (c_sessionId c) = Some s" and "s_runId s = runId"
    and "map_of SANDBOX_COMMAND_NAME_TO_STEP (c_name c) = Some n"
  shows "command_input R n c \<in> set (li_commands (manual_inputs R pid runId d))"
  using assms by (auto simp: manual_inputs_def session_commands_def intro!: bexI [where x = c])

lemma worker_reads_its_attempt:
  assumes "loadEvidenceInputs R runId attempt d = Inr i" and "(k, v) \<in> set (li_commands i)"
  shows "\<exists>c s. c \<in> set (commands d) \<and> session_of d (c_sessionId c) = Some s \<and> s_runId s = runId \<and>
    s_attempt s = attempt \<and> k = ro_command_id R (c_sessionId c) (c_ordinal c)"
  using assms
  by (fastforce simp: loadEvidenceInputs_def Let_def session_commands_def command_input_def split: option.splits)

section \<open>Concrete assessments\<close>

definition sample_options :: release_options where
  "sample_options =
     \<lparr>ro_formats = plain_formats, ro_ext = sample_externals, ro_date = sample_date, ro_iso = (\<lambda>t. ''now''),
      ro_text_of = nat_string, ro_command_id = (\<lambda>s n. nat_string s @ ''-'' @ nat_string n),
      ro_random = nat_string, ro_decode = (\<lambda>l. None), ro_digest = (\<lambda>fs. replicate 64 (CHR ''a'')),
      ro_keys = [(''client-sign-in'', [''auth.sign_in''])]\<rparr>"

definition sample_call :: assessor_call where
  "sample_call = \<lparr>al_id = ''a1'', al_now = 60000, al_lost = (\<lambda>n. False), al_env = (\<lambda>n s. s)\<rparr>"

definition sample_release_store :: release_store where
  "sample_release_store = \<lparr>rs_db = sample_db, rs_rows = [], rs_evidence = []\<rparr>"

definition sample_execution :: run_execution where
  "sample_execution = toRunExecutionRecord 3 sample_run"

lemma sample_execution_id: "x_id sample_execution = 3"
  by (simp add: sample_execution_def toRunExecutionRecord_def)


lemma assessor_never_ready_witness:
  "never_ready (assess sample_options sample_call sample_execution 1 sample_release_store) \<and>
   never_ready (snd (triggerReleaseAssessment sample_options (\<lambda>k. 0) ''a2'' 7 2 60000 sample_release_store))"
  by (rule assessor_never_ready) (simp_all add: never_ready_def sample_release_store_def sample_call_def)

definition sample_snapshot :: acceptance_snapshot where
  "sample_snapshot = \<lparr>ac_taskId = ''t'', ac_taskAttempt = 0, ac_scope = sample_scope,
     ac_criteria = [\<lparr>cr_id = ''US-001:1'', cr_key = ''auth.sign_in'', cr_text = ''works''\<rparr>]\<rparr>"

definition sample_evidence_of_run :: "quality_error + quality_evidence list" where
  "sample_evidence_of_run =
     evidenceFromAcceptanceRun plain_formats (\<lambda>n. ''e'')
       (\<lambda>l. Some [\<lparr>sr_scenario = ''client-sign-in'', sr_status = EV_PASSED, sr_durationMs = 5, sr_note = None\<rparr>,
                  \<lparr>sr_scenario = ''other'', sr_status = EV_PASSED, sr_durationMs = 5, sr_note = None\<rparr>])
       sample_scope \<lparr>ar_id = ''c'', ar_completedAt = ''then'', ar_stdout = ''report''\<rparr> sample_snapshot
       (cx_ids (resolveCriterionIdsByScenario sample_snapshot [(''client-sign-in'', [''auth.sign_in''])]))"

lemma sample_evidence_value: "sample_evidence_of_run =
   Inr [(sample_evidence ''e'' AcceptanceEvidence)\<lparr>qe_sourceArtifactId := ''c''\<rparr>]"
  by code_simp


end
