(* ===== verification/ReleaseRoutes.thy ===== *)
theory ReleaseRoutes
  imports ReleaseProperties ControlApi
begin

text \<open>
  The routes of \<open>control-api/src/release-routes.ts\<close>: the on-demand assessment of a project and the
  reading of an assessment, with the membership checks in front of them.
\<close>

definition getReleaseProjectMembership :: "uuid \<Rightarrow> uuid \<Rightarrow> db \<Rightarrow> (uuid \<times> workspace_role) option" where
  "getReleaseProjectMembership userId pid d =
     (case map_of (projects d) pid of
        None \<Rightarrow> None
      | Some p \<Rightarrow>
          (if pj_archivedAt p \<noteq> None then None
           else map_option (\<lambda>r. (pj_workspaceId p, r)) (map_of (memberships d) (pj_workspaceId p, userId))))"

definition releaseAccessDenied :: api_failure where
  "releaseAccessDenied = ApiError 404 ''WORKSPACE_ACCESS_DENIED'' ''Workspace access denied'' JNull"

text \<open>\<open>env\<close> is what other connections do between the membership check and the assessment.\<close>

definition triggerReleaseAssessment_route ::
    "release_options \<Rightarrow> (uuid \<Rightarrow> time) \<Rightarrow> string \<Rightarrow> uuid option \<Rightarrow> uuid \<Rightarrow> time \<Rightarrow>
     (release_store \<Rightarrow> release_store) \<Rightarrow> release_store \<Rightarrow> (api_failure + nat \<times> assessment_row) \<times> release_store" where
  "triggerReleaseAssessment_route R created aid who pid now env s =
     (case requirePrincipal who of
        Inl e \<Rightarrow> (Inl e, s)
      | Inr u \<Rightarrow>
          (case getReleaseProjectMembership u pid (rs_db s) of
             None \<Rightarrow> (Inl releaseAccessDenied, s)
           | Some _ \<Rightarrow>
               (case triggerReleaseAssessment R created aid u pid now (env s) of
                  (Inl e, s') \<Rightarrow> (Inl (OtherError (RepoThrown e)), s')
                | (Inr TriggerProjectNotFound, s') \<Rightarrow>
                    (Inl (ApiError 404 ''PROJECT_NOT_FOUND'' ''Project not found'' JNull), s')
                | (Inr NoEligibleRun, s') \<Rightarrow>
                    (Inl (ApiError 409 ''NO_ELIGIBLE_RUN'' ''The project has no run to assess yet'' JNull), s')
                | (Inr (TriggerOk w), s') \<Rightarrow> (Inr (201, w), s'))))"

definition getReleaseAssessment_route ::
    "uuid option \<Rightarrow> string \<Rightarrow> release_store \<Rightarrow> api_failure + nat \<times> assessment_row" where
  "getReleaseAssessment_route who aid s =
     bind_res (requirePrincipal who) (\<lambda>u.
       case getReleaseAssessment u aid s of
         None \<Rightarrow> Inl (ApiError 404 ''RELEASE_ASSESSMENT_NOT_FOUND'' ''Release assessment not found'' JNull)
       | Some w \<Rightarrow> Inr (200, w))"

lemma trigger_needs_membership:
  assumes "triggerReleaseAssessment_route R created aid who pid now env s = (Inr v, s')"
  shows "\<exists>u p. who = Some u \<and> map_of (projects (rs_db s)) pid = Some p \<and> pj_archivedAt p = None \<and>
    map_of (memberships (rs_db s)) (pj_workspaceId p, u) \<noteq> None"
  using assms
  by (auto simp: triggerReleaseAssessment_route_def requirePrincipal_def getReleaseProjectMembership_def
      split: option.splits if_splits)

lemma read_needs_membership:
  assumes "getReleaseAssessment_route who aid s = Inr (c, w)"
  shows "c = 200 \<and> rw_id w = aid \<and> w \<in> set (rs_rows s) \<and> (\<exists>u p. who = Some u \<and>
    map_of (projects (rs_db s)) (ax_projectId (rw_scope w)) = Some p \<and>
    map_of (memberships (rs_db s)) (pj_workspaceId p, u) \<noteq> None)"
  using assms
  by (auto simp: getReleaseAssessment_route_def getReleaseAssessment_def bind_res_Inr_iff requirePrincipal_def
      split: option.splits dest!: find_first_opt_Some)

end
