(* ===== verification/PreviewLife.thy ===== *)
theory PreviewLife
  imports ValidationLaws PreviewGateway PreviewTicket
begin

text \<open>
  How the preview of a run comes and goes: \<open>Phase2RunValidator\<close> of the worker's \<open>validation.ts\<close>, which
  runs the project validation with the hooks that record it in the database and publishes the
  preview, the lease that revokes it, and \<open>PreviewReopenProcessor\<close> of \<open>preview-reopen.ts\<close>.

  The state is the database, the sandbox service, the calls made to the session store and the sandbox
  service, and the three variables the functions share with their hooks. The database, the store and
  the service may each fail at any call; other connections change the database between the calls.
\<close>

section \<open>The state\<close>

datatype preview_call =
    CreatedSandbox string
  | TerminatedSandbox string
  | PutTarget preview_target
  | DeletedTarget string

record 'p preview_world =
  lw_db :: db
  lw_tick :: nat
  lw_service :: 'p
  lw_calls :: "preview_call list"
  lw_session :: "uuid option"
  lw_sandbox :: "sandbox_handle option"
  lw_result :: "validation_result option"
  lw_revoked :: bool

type_synonym ('p, 'a) life_act = "(thrown, 'p preview_world, 'a) action"

record 'p preview_options =
  lo_env :: "nat \<Rightarrow> db \<Rightarrow> db"
  lo_now :: "nat \<Rightarrow> time"
  lo_lost :: "nat \<Rightarrow> bool"
  lo_put :: "nat \<Rightarrow> preview_target \<Rightarrow> thrown option"
  lo_delete :: "nat \<Rightarrow> string \<Rightarrow> thrown option"
  lo_signer :: ticket_signer
  lo_text_of :: "uuid \<Rightarrow> string"
  lo_secret :: "nat \<Rightarrow> string"
  lo_provider :: "'p sandbox_provider"
  lo_config :: runner_config
  lo_scripts :: "string \<times> string"
  lo_stringify :: "acceptance_scenario list \<Rightarrow> string"
  lo_manifest :: "(project_type \<Rightarrow> acceptance_scenario list option) option"

definition life_tx :: "'p preview_options \<Rightarrow> (time \<Rightarrow> 'a tx) \<Rightarrow> ('p, 'a) life_act" where
  "life_tx L t w =
     (let n = lw_tick w; d = lo_env L n (lw_db w)
      in if lo_lost L n then (Inl (GenericError ''connection lost''), w\<lparr>lw_db := d, lw_tick := Suc n\<rparr>)
         else case t (lo_now L n) d of
                Inl e \<Rightarrow> (Inl e, w\<lparr>lw_db := d, lw_tick := Suc n\<rparr>)
              | Inr (a, d') \<Rightarrow> (Inr a, w\<lparr>lw_db := d', lw_tick := Suc n\<rparr>))"

definition life_query :: "(db \<Rightarrow> thrown + 'a) \<Rightarrow> 'a tx" where
  "life_query q d = (case q d of Inl e \<Rightarrow> Inl e | Inr a \<Rightarrow> Inr (a, d))"

definition log_call :: "preview_call \<Rightarrow> 'p preview_world \<Rightarrow> 'p preview_world" where
  "log_call c w = w\<lparr>lw_calls := lw_calls w @ [c], lw_tick := Suc (lw_tick w)\<rparr>"

definition store_put :: "'p preview_options \<Rightarrow> preview_target \<Rightarrow> ('p, unit) life_act" where
  "store_put L t w =
     ((case lo_put L (lw_tick w) t of None \<Rightarrow> Inr () | Some e \<Rightarrow> Inl e), log_call (PutTarget t) w)"

definition store_delete :: "'p preview_options \<Rightarrow> uuid \<Rightarrow> ('p, unit) life_act" where
  "store_delete L sid w =
     (let k = lo_text_of L sid
      in ((case lo_delete L (lw_tick w) k of None \<Rightarrow> Inr () | Some e \<Rightarrow> Inl e), log_call (DeletedTarget k) w))"

text \<open>The sandbox service sees its own part of the state only.\<close>

definition in_service :: "(thrown, 'p, 'a) action \<Rightarrow> ('p, 'a) life_act" where
  "in_service m w = (case m (lw_service w) of (r, p) \<Rightarrow> (r, w\<lparr>lw_service := p, lw_tick := Suc (lw_tick w)\<rparr>))"

definition create_sandbox :: "'p preview_options \<Rightarrow> sandbox_spec \<Rightarrow> ('p, sandbox_handle) life_act" where
  "create_sandbox L spec w =
     (case in_service (sp_create (lo_provider L) spec) w of
        (Inl e, w') \<Rightarrow> (Inl e, w')
      | (Inr sb, w') \<Rightarrow> (Inr sb, log_call (CreatedSandbox (sh_id sb)) w'))"

definition terminate_sandbox :: "'p preview_options \<Rightarrow> string \<Rightarrow> ('p, unit) life_act" where
  "terminate_sandbox L i w = in_service (sp_terminate (lo_provider L) i) (log_call (TerminatedSandbox i) w)"

definition life_provider :: "'p preview_options \<Rightarrow> 'p preview_world sandbox_provider" where
  "life_provider L =
     \<lparr>sp_create = create_sandbox L, sp_writeFiles = (\<lambda>i fs. in_service (sp_writeFiles (lo_provider L) i fs)),
      sp_exec = (\<lambda>i c. in_service (sp_exec (lo_provider L) i c)),
      sp_startProcess = (\<lambda>i c. in_service (sp_startProcess (lo_provider L) i c)),
      sp_exposePort = (\<lambda>i n. in_service (sp_exposePort (lo_provider L) i n)),
      sp_terminate = terminate_sandbox L\<rparr>"

definition life_runner :: "'p preview_options \<Rightarrow> 'p preview_world runner" where
  "life_runner L =
     new_runner (life_provider L) (\<lambda>w. lo_now L (lw_tick w)) (fst (lo_scripts L)) (snd (lo_scripts L)) (lo_stringify L)
       (lo_config L)"

definition start_function :: "('p, unit) life_act" where
  "start_function w = (Inr (), w\<lparr>lw_session := None, lw_sandbox := None, lw_result := None\<rparr>)"

definition ticket_thrown :: "ticket_throw \<Rightarrow> thrown" where
  "ticket_thrown e =
     (case e of
        TicketZodError \<Rightarrow> ZodError
      | _ \<Rightarrow> throw_node (plain_error ClsError ''PreviewTicketError'' ''preview ticket''))"

definition requireSessionId :: "('p, uuid) life_act" where
  "requireSessionId w =
     (case lw_session w of
        None \<Rightarrow> (Inl (GenericError ''Sandbox session was not persisted before lifecycle update''), w)
      | Some k \<Rightarrow> (Inr k, w))"

definition issue_act :: "'p preview_options \<Rightarrow> uuid \<Rightarrow> time \<Rightarrow> ('p, string) life_act" where
  "issue_act L sid expiresAt w =
     (case issue (lo_signer L) (lo_text_of L sid) (Some expiresAt) (lo_now L (lw_tick w)) of
        Inl e \<Rightarrow> (Inl (ticket_thrown e), w)
      | Inr url \<Rightarrow> (Inr url, w))"

definition strip_slash :: "string \<Rightarrow> string" where
  "strip_slash s = (if s \<noteq> [] \<and> last s = CHR ''/'' then butlast s else s)"

text \<open>\<open>previewEnvironment\<close>: the public address of the preview and a fresh session secret.\<close>

definition preview_environment :: "'p preview_options \<Rightarrow> sandbox_handle \<Rightarrow> time \<Rightarrow> ('p, (string \<times> string) list) life_act" where
  "preview_environment L sb expiresAt =
     bind_act requireSessionId (\<lambda>sid.
     bind_act (issue_act L sid expiresAt) (\<lambda>url w.
       (let secret = lo_secret L (lw_tick w)
        in (Inr [(''NEXTAUTH_URL'', strip_slash url), (''NEXTAUTH_SECRET'', secret), (''AUTH_SECRET'', secret)], w))))"

section \<open>Validation of a run\<close>

definition stop_unless :: "string \<Rightarrow> bool \<Rightarrow> ('p, unit) life_act" where
  "stop_unless msg ok = (if ok then return_act () else throw_act (RunStoppedError msg ''stopped''))"

definition on_sandbox_created ::
    "'p preview_options \<Rightarrow> run_execution \<Rightarrow> nat \<Rightarrow> sandbox_handle \<Rightarrow> time \<Rightarrow> ('p, unit) life_act" where
  "on_sandbox_created L run attempt sb expiresAt w =
     bind_act (life_tx L (\<lambda>now. createSandboxSession
         \<lparr>cs_run = run, cs_attempt = attempt, cs_externalId = sh_id sb, cs_expiresAt = expiresAt, cs_now = now\<rparr>))
       (\<lambda>m w. case m of
          SessionStopped \<Rightarrow> (Inl (RunStoppedError ''Run stopped while the sandbox was being recorded'' ''stopped''), w)
        | SessionOk k \<Rightarrow> (Inr (), w\<lparr>lw_session := Some k\<rparr>))
       (w\<lparr>lw_sandbox := Some sb\<rparr>)"

definition run_hooks :: "'p preview_options \<Rightarrow> run_execution \<Rightarrow> nat \<Rightarrow> 'p preview_world hooks" where
  "run_hooks L run attempt =
     \<lparr>hk_created = Some (on_sandbox_created L run attempt),
      hk_restored = Some (\<lambda>_. bind_act requireSessionId (\<lambda>sid.
        bind_act (life_tx L (markSandboxFilesRestored (x_id run) (x_controlVersion run) sid))
          (stop_unless ''Run stopped after restoring the project revision''))),
      hk_step = Some (\<lambda>_ step. bind_act requireSessionId (\<lambda>sid.
        bind_act (life_tx L (\<lambda>now. recordSandboxCommand
            \<lparr>rc_runId = x_id run, rc_expectedControlVersion = x_controlVersion run, rc_sessionId = sid,
             rc_step = step, rc_now = now\<rparr>))
          (stop_unless ''Run stopped during sandbox validation''))),
      hk_environment = Some (preview_environment L)\<rparr>"

record lease =
  le_session :: uuid
  le_sandbox :: string

definition set_result :: "validation_result \<Rightarrow> ('p, unit) life_act" where
  "set_result r w = (Inr (), w\<lparr>lw_result := Some r\<rparr>)"

definition target_of ::
    "'p preview_options \<Rightarrow> uuid \<Rightarrow> uuid \<Rightarrow> uuid \<Rightarrow> uuid \<Rightarrow> validation_result \<Rightarrow> preview_target" where
  "target_of L sid workspaceId projectId runId r =
     \<lparr>pt_sessionId = lo_text_of L sid, pt_workspaceId = lo_text_of L workspaceId, pt_projectId = lo_text_of L projectId,
      pt_runId = lo_text_of L runId, pt_upstreamUrl = pu_url (vr_preview r),
      pt_requestHeaders = or_default (pu_requestHeaders (vr_preview r)) [], pt_expiresAt = vr_expiresAt r\<rparr>"

text \<open>Everything after the runner has returned: the ticket, the target in the store, the row.\<close>

definition publish_preview :: "'p preview_options \<Rightarrow> run_execution \<Rightarrow> validation_result \<Rightarrow> ('p, lease) life_act" where
  "publish_preview L run r =
     bind_act requireSessionId (\<lambda>sid.
     bind_act (issue_act L sid (vr_expiresAt r)) (\<lambda>url.
     bind_act (store_put L (target_of L sid (x_workspaceId run) (x_projectId run) (x_id run) r)) (\<lambda>_.
     bind_act (life_tx L (\<lambda>now. recordPreviewReady
         \<lparr>pv_run = run, pv_sessionId = sid, pv_gatewayUrl = url, pv_processId = vr_processId r,
          pv_expiresAt = vr_expiresAt r, pv_now = now\<rparr>)) (\<lambda>ok.
     bind_act (stop_unless ''Run stopped before the preview became visible'' ok) (\<lambda>_.
     return_act \<lparr>le_session = sid, le_sandbox = sh_id (vr_sandbox r)\<rparr>)))))"

definition quietly :: "('p, unit) life_act \<Rightarrow> ('p, unit) life_act" where
  "quietly m = catch_act m (\<lambda>_. return_act ())"

definition terminate_known :: "'p preview_options \<Rightarrow> ('p, unit) life_act" where
  "terminate_known L w =
     (case lw_result w of
        Some r \<Rightarrow> quietly (terminate_sandbox L (sh_id (vr_sandbox r))) w
      | None \<Rightarrow>
          (case lw_sandbox w of
             Some sb \<Rightarrow> quietly (terminate_sandbox L (sh_id sb)) w
           | None \<Rightarrow> (Inr (), w)))"

definition validation_failed :: "'p preview_options \<Rightarrow> thrown \<Rightarrow> ('p, lease) life_act" where
  "validation_failed L e w =
     bind_act (case lw_session w of
         None \<Rightarrow> return_act ()
       | Some sid \<Rightarrow>
           bind_act (quietly (store_delete L sid)) (\<lambda>_.
             quietly (life_tx L (markSandboxFailed sid (worker_error_json (toWorkerError e))))))
       (\<lambda>_. bind_act (terminate_known L) (\<lambda>_. throw_act e)) w"

definition runner_input ::
    "(string \<times> string) list \<Rightarrow> (string \<times> string) list \<Rightarrow> acceptance_scenario list option \<Rightarrow> bool \<Rightarrow>
     'p preview_world hooks \<Rightarrow> 'p preview_world validation_input" where
  "runner_input fs metadata m previewOnly hooks =
     \<lparr>vi_files = fs, vi_metadata = metadata, vi_hooks = hooks, vi_manifest = m, vi_previewOnly = previewOnly\<rparr>"

definition validate_run :: "'p preview_options \<Rightarrow> run_execution \<Rightarrow> nat \<Rightarrow> ('p, lease) life_act" where
  "validate_run L run attempt =
     bind_act (life_tx L (\<lambda>_. life_query (\<lambda>d. Inr (listProjectFiles (x_projectId run) d)))) (\<lambda>fs.
     bind_act (case lo_manifest L of
         None \<Rightarrow> return_act None
       | Some f \<Rightarrow>
           bind_act (life_tx L (\<lambda>_. life_query (getProjectType (x_projectId run)))) (\<lambda>t. return_act (f t))) (\<lambda>m.
     bind_act start_function (\<lambda>_.
     catch_act
       (bind_act (validate_project (life_runner L)
           (runner_input (map (\<lambda>f. (pf_path f, pf_content f)) fs)
             [(''workspaceId'', lo_text_of L (x_workspaceId run)), (''projectId'', lo_text_of L (x_projectId run)),
              (''runId'', lo_text_of L (x_id run)), (''attempt'', nat_string attempt)]
             m False (run_hooks L run attempt))) (\<lambda>r.
        bind_act (set_result r) (\<lambda>_. publish_preview L run r)))
       (validation_failed L))))"

section \<open>The lease\<close>

text \<open>\<open>Promise.allSettled\<close> runs all three whatever happens to the others.\<close>

definition settle :: "('p, unit) life_act \<Rightarrow> ('p, bool) life_act" where
  "settle m w = (case m w of (Inl _, w') \<Rightarrow> (Inr False, w') | (Inr _, w') \<Rightarrow> (Inr True, w'))"

definition revoke :: "'p preview_options \<Rightarrow> lease \<Rightarrow> ('p, unit) life_act" where
  "revoke L l w =
     (if lw_revoked w then (Inr (), w)
      else bind_act (settle (store_delete L (le_session l))) (\<lambda>a.
           bind_act (settle (terminate_sandbox L (le_sandbox l))) (\<lambda>b.
           bind_act (settle (life_tx L (markPreviewStopped (le_session l)))) (\<lambda>c.
           if a \<and> b \<and> c then return_act () else throw_act (GenericError ''Preview lease cleanup failed'')))) (w\<lparr>lw_revoked := True\<rparr>))"

section \<open>Opening a finished preview again\<close>

record reopen_job =
  rj_projectId :: uuid
  rj_workspaceId :: uuid
  rj_runId :: uuid

definition PreviewReopenNotApplicableError :: thrown where
  "PreviewReopenNotApplicableError =
     throw_node (plain_error ClsError ''PreviewReopenNotApplicableError''
       ''The run is not a completed run of this project; there is no preview to reopen'')"

definition not_applicable :: "thrown \<Rightarrow> bool" where
  "not_applicable e \<longleftrightarrow>
     (case node_of (fst e) (snd e) of None \<Rightarrow> False | Some n \<Rightarrow> en_name n = Some ''PreviewReopenNotApplicableError'')"

definition on_reopen_created :: "'p preview_options \<Rightarrow> reopen_job \<Rightarrow> sandbox_handle \<Rightarrow> time \<Rightarrow> ('p, unit) life_act" where
  "on_reopen_created L job sb expiresAt w =
     bind_act (life_tx L (\<lambda>_. createPreviewReopenSession
         \<lparr>ro_projectId = rj_projectId job, ro_workspaceId = rj_workspaceId job, ro_runId = rj_runId job,
          ro_externalId = sh_id sb, ro_expiresAt = expiresAt\<rparr>))
       (\<lambda>k w. case k of
          None \<Rightarrow> (Inl PreviewReopenNotApplicableError, w)
        | Some i \<Rightarrow> (Inr (), w\<lparr>lw_session := Some i\<rparr>))
       (w\<lparr>lw_sandbox := Some sb\<rparr>)"

definition reopen_hooks :: "'p preview_options \<Rightarrow> reopen_job \<Rightarrow> 'p preview_world hooks" where
  "reopen_hooks L job =
     \<lparr>hk_created = Some (on_reopen_created L job), hk_restored = None, hk_step = None,
      hk_environment = Some (preview_environment L)\<rparr>"

definition publish_reopened :: "'p preview_options \<Rightarrow> reopen_job \<Rightarrow> validation_result \<Rightarrow> ('p, unit) life_act" where
  "publish_reopened L job r =
     bind_act requireSessionId (\<lambda>sid.
     bind_act (issue_act L sid (vr_expiresAt r)) (\<lambda>url.
     bind_act (store_put L (target_of L sid (rj_workspaceId job) (rj_projectId job) (rj_runId job) r)) (\<lambda>_.
     life_tx L (\<lambda>now. recordPreviewReopened
         \<lparr>rp_sessionId = sid, rp_projectId = rj_projectId job, rp_workspaceId = rj_workspaceId job,
          rp_runId = rj_runId job, rp_gatewayUrl = url, rp_processId = vr_processId r, rp_expiresAt = vr_expiresAt r,
          rp_now = now\<rparr>))))"

definition reopen_failed :: "'p preview_options \<Rightarrow> reopen_job \<Rightarrow> thrown \<Rightarrow> ('p, unit) life_act" where
  "reopen_failed L job e w =
     bind_act (case lw_session w of None \<Rightarrow> return_act () | Some sid \<Rightarrow> quietly (store_delete L sid)) (\<lambda>_.
     bind_act (terminate_known L) (\<lambda>_ w.
       if not_applicable e then (Inr (), w)
       else quietly (life_tx L
              (recordPreviewReopenFailed (rj_runId job) (lw_session w) (worker_error_json (toWorkerError e)))) w)) w"

definition reopen_preview :: "'p preview_options \<Rightarrow> reopen_job \<Rightarrow> ('p, unit) life_act" where
  "reopen_preview L job =
     bind_act (life_tx L (\<lambda>_. life_query (\<lambda>d. Inr (listProjectFiles (rj_projectId job) d)))) (\<lambda>fs.
     if fs = []
     then life_tx L (recordPreviewReopenFailed (rj_runId job) None
            (JObj [(''message'', JStr ''The project has no saved files to preview.'')]))
     else
     bind_act start_function (\<lambda>_.
     catch_act
       (bind_act (validate_project (life_runner L)
           (runner_input (map (\<lambda>f. (pf_path f, pf_content f)) fs)
             [(''workspaceId'', lo_text_of L (rj_workspaceId job)), (''projectId'', lo_text_of L (rj_projectId job)),
              (''runId'', lo_text_of L (rj_runId job)), (''purpose'', ''preview-reopen'')]
             None True (reopen_hooks L job))) (\<lambda>r.
        bind_act (set_result r) (\<lambda>_. publish_reopened L job r)))
       (reopen_failed L job)))"

end
