(* ===== verification/PreviewLifeProperties.thy ===== *)
theory PreviewLifeProperties
  imports PreviewLife TicketProperties SandboxLaws Samples
begin

text \<open>
  A validation that fails, a lease that is revoked and a preview that cannot be opened again leave
  nothing behind: no sandbox, no target in the session store. A validation that succeeds leaves a
  preview that the gateway can route.
\<close>

section \<open>Actions that call neither the store nor the life cycle of a sandbox\<close>

definition same_calls :: "'p preview_world \<Rightarrow> 'p preview_world \<Rightarrow> bool" where
  "same_calls w w' \<longleftrightarrow> lw_calls w' = lw_calls w \<and> lw_sandbox w' = lw_sandbox w \<and> lw_result w' = lw_result w \<and>
     lw_revoked w' = lw_revoked w"

definition quiet :: "('p, 'a) life_act \<Rightarrow> bool" where
  "quiet m \<longleftrightarrow> (\<forall>w. same_calls w (snd (m w)))"

lemma quietD: "quiet m \<Longrightarrow> m w = (r, w') \<Longrightarrow> same_calls w w'"
  by (metis quiet_def snd_conv)

lemma same_calls_trans: "same_calls a b \<Longrightarrow> same_calls b c \<Longrightarrow> same_calls a c"
  by (simp add: same_calls_def)

named_theorems quiet_intros \<open>actions that make no logged call\<close>

lemma quiet_return [quiet_intros]: "quiet (return_act a)"
  by (simp add: quiet_def return_act_def same_calls_def)

lemma quiet_throw [quiet_intros]: "quiet (throw_act e)"
  by (simp add: quiet_def throw_act_def same_calls_def)

lemma quiet_bind [quiet_intros]: "quiet m \<Longrightarrow> (\<And>a. quiet (f a)) \<Longrightarrow> quiet (bind_act m f)"
  unfolding quiet_def bind_act_def by (auto split: prod.split sum.split) (metis same_calls_trans snd_conv)+

lemma quiet_catch [quiet_intros]: "quiet m \<Longrightarrow> (\<And>e. quiet (h e)) \<Longrightarrow> quiet (catch_act m h)"
  unfolding quiet_def catch_act_def by (auto split: prod.split sum.split) (metis same_calls_trans snd_conv)+

lemma quiet_if [quiet_intros]: "quiet m \<Longrightarrow> quiet n \<Longrightarrow> quiet (if b then m else n)"
  by simp

lemma quiet_pair [quiet_intros]: "(\<And>a b. quiet (f a b)) \<Longrightarrow> quiet (case p of (a, b) \<Rightarrow> f a b)"
  by (simp split: prod.split)

lemma quiet_clock [quiet_intros]: "quiet (clock R)"
  by (simp add: quiet_def clock_def same_calls_def)

lemma quiet_service [quiet_intros]: "quiet (in_service m)"
  by (auto simp: quiet_def in_service_def same_calls_def split: prod.split)

lemma quiet_life_tx [quiet_intros]: "quiet (life_tx L t)"
  by (auto simp: quiet_def life_tx_def Let_def same_calls_def split: sum.split prod.split)

lemma quiet_session [quiet_intros]: "quiet requireSessionId"
  by (auto simp: quiet_def requireSessionId_def same_calls_def split: option.split)

lemma quiet_issue [quiet_intros]: "quiet (issue_act L sid t)"
  by (auto simp: quiet_def issue_act_def same_calls_def split: sum.split)

lemma quiet_stop [quiet_intros]: "quiet (stop_unless msg ok)"
  by (simp add: stop_unless_def quiet_intros)

lemma quiet_environment [quiet_intros]: "quiet (preview_environment L sb t)"
proof -
  have "quiet (\<lambda>w. (Inr (f w), w))" for f :: "'a preview_world \<Rightarrow> (string \<times> string) list"
    by (simp add: quiet_def same_calls_def)
  then show ?thesis unfolding preview_environment_def Let_def by (intro quiet_intros)
qed

text \<open>The calls of the runner that go to the service.\<close>

lemma runner_provider [simp]: "vr_provider (life_runner L) = life_provider L"
  by (simp add: life_runner_def new_runner_def)

lemma quiet_provider [quiet_intros]:
  "quiet (sp_writeFiles (life_provider L) i fs)" "quiet (sp_exec (life_provider L) i c)"
  "quiet (sp_startProcess (life_provider L) i c)" "quiet (sp_exposePort (life_provider L) i n)"
  by (simp_all add: life_provider_def quiet_intros)

lemma quiet_execute [quiet_intros]: "quiet (executeStep (life_runner L) sb n s c t e)"
  unfolding executeStep_def by (simp add: quiet_intros)

lemma quiet_try [quiet_intros]: "quiet m \<Longrightarrow> quiet (tryStep (life_runner L) n s c m)"
  unfolding tryStep_def by (simp add: quiet_intros)

lemma quiet_assert [quiet_intros]: "quiet (assert_successful s)"
  by (simp add: assert_successful_def quiet_intros)

lemma quiet_retry: "quiet ex \<Longrightarrow> quiet (retry_install ex n s)"
  by (induction n arbitrary: s) (simp_all add: quiet_intros)

lemma quiet_command [quiet_intros]: "quiet (run_command_step (life_runner L) sb n c)"
  unfolding run_command_step_def Let_def by (intro quiet_intros quiet_retry)

definition quiet_hooks :: "'p preview_world hooks \<Rightarrow> bool" where
  "quiet_hooks H \<longleftrightarrow>
     (\<forall>h sb. hk_restored H = Some h \<longrightarrow> quiet (h sb)) \<and> (\<forall>h sb s. hk_step H = Some h \<longrightarrow> quiet (h sb s)) \<and>
     (\<forall>h sb t. hk_environment H = Some h \<longrightarrow> quiet (h sb t))"

lemma quiet_step: "quiet_hooks H \<Longrightarrow> quiet (on_step H sb s)"
  by (auto simp: on_step_def quiet_hooks_def quiet_return split: option.split)

lemma quiet_commands: "quiet_hooks H \<Longrightarrow> quiet (run_commands (life_runner L) H sb cs steps)"
  by (induction cs arbitrary: steps) (auto intro!: quiet_intros quiet_step)

lemma quiet_database: "quiet_hooks H \<Longrightarrow> quiet (provisionDatabase (life_runner L) H sb steps)"
  unfolding provisionDatabase_def Let_def runner_provider by (intro quiet_intros quiet_step)

lemma quiet_start: "quiet_hooks H \<Longrightarrow> quiet (start_preview (life_runner L) H sb t ready steps)"
  unfolding start_preview_def Let_def runner_provider
  by (intro quiet_intros quiet_step) (auto simp: quiet_hooks_def quiet_return split: option.split)

lemma quiet_health [quiet_intros]: "quiet (check_health (life_runner L) sb n)"
  by (auto simp: check_health_def intro!: quiet_intros split: option.split)

lemma quiet_acceptance:
  "quiet_hooks (vi_hooks inp) \<Longrightarrow> quiet (acceptance_phase (life_runner L) inp sb steps)"
  by (auto simp: acceptance_phase_def runAcceptanceCheck_def Let_def intro!: quiet_intros quiet_step split: option.split)

lemma quiet_run_hooks: "quiet_hooks (run_hooks L run n)"
  by (auto simp: quiet_hooks_def run_hooks_def intro!: quiet_intros)

lemma quiet_reopen_hooks: "quiet_hooks (reopen_hooks L job)"
  by (auto simp: quiet_hooks_def reopen_hooks_def intro!: quiet_intros)

section \<open>The calls of a validation\<close>

text \<open>The hook that runs first records the sandbox, and nothing after it makes a logged call.\<close>

definition records_sandbox :: "'p preview_world hooks \<Rightarrow> bool" where
  "records_sandbox H \<longleftrightarrow> quiet_hooks H \<and> (\<exists>h. hk_created H = Some h \<and> (\<forall>sb t w. let w' = snd (h sb t w) in
     lw_calls w' = lw_calls w \<and> lw_sandbox w' = Some sb \<and> lw_result w' = lw_result w \<and> lw_revoked w' = lw_revoked w))"

lemma created_then_quiet:
  assumes "quiet m" and "\<And>a w. quiet (f a)"
  shows "same_calls w (snd (bind_act m f w))"
  using quiet_bind [OF assms(1), of f] assms(2) by (simp add: quiet_def)

lemma run_records: "records_sandbox (run_hooks L run n)"
proof -
  have "quiet (\<lambda>w :: 'a preview_world. case m of
          SessionStopped \<Rightarrow> (Inl (RunStoppedError ''Run stopped while the sandbox was being recorded'' ''stopped''), w)
        | SessionOk k \<Rightarrow> (Inr (), w\<lparr>lw_session := Some k\<rparr>))" for m
    by (cases m) (simp_all add: quiet_def same_calls_def)
  then have "same_calls (w\<lparr>lw_sandbox := Some sb\<rparr>) (snd (on_sandbox_created L run n sb t w))" for sb t w
    unfolding on_sandbox_created_def by (intro created_then_quiet quiet_intros)
  then show ?thesis
    by (auto simp: records_sandbox_def quiet_run_hooks run_hooks_def Let_def same_calls_def) (metis quiet_run_hooks run_hooks_def)
qed

lemma reopen_records: "records_sandbox (reopen_hooks L job)"
proof -
  have "quiet (\<lambda>w :: 'a preview_world. case m of
          None \<Rightarrow> (Inl PreviewReopenNotApplicableError, w)
        | Some i \<Rightarrow> (Inr (), w\<lparr>lw_session := Some i\<rparr>))" for m
    by (cases m) (simp_all add: quiet_def same_calls_def)
  then have "same_calls (w\<lparr>lw_sandbox := Some sb\<rparr>) (snd (on_reopen_created L job sb t w))" for sb t w
    unfolding on_reopen_created_def by (intro created_then_quiet quiet_intros)
  then show ?thesis
    by (auto simp: records_sandbox_def quiet_reopen_hooks reopen_hooks_def Let_def same_calls_def) (metis quiet_reopen_hooks reopen_hooks_def)
qed

lemma sandbox_body:
  assumes "records_sandbox (vi_hooks inp)" and "validate_sandbox (life_runner L) inp parsed sb t w = (r, w')"
  shows "lw_calls w' = lw_calls w \<and> lw_sandbox w' = Some sb \<and> lw_result w' = lw_result w \<and> lw_revoked w' = lw_revoked w"
proof -
  obtain h where h: "hk_created (vi_hooks inp) = Some h" and q: "quiet_hooks (vi_hooks inp)"
    and rec: "\<And>w. let w' = snd (h sb t w) in
     lw_calls w' = lw_calls w \<and> lw_sandbox w' = Some sb \<and> lw_result w' = lw_result w \<and> lw_revoked w' = lw_revoked w"
    using assms(1) by (auto simp: records_sandbox_def)
  have restored: "quiet (case hk_restored (vi_hooks inp) of None \<Rightarrow> return_act () | Some h \<Rightarrow> h sb)"
    using q by (auto simp: quiet_hooks_def quiet_return split: option.split)
  have "\<exists>f. validate_sandbox (life_runner L) inp parsed sb t = bind_act (h sb t) (\<lambda>_. f) \<and> quiet f"
    unfolding validate_sandbox_def Let_def h option.case runner_provider
    by (rule exI, rule conjI, rule refl)
      (intro quiet_intros quiet_commands [OF q] quiet_database [OF q] quiet_start [OF q] quiet_acceptance [OF q]
        quiet_step [OF q] restored)
  then obtain f where split: "validate_sandbox (life_runner L) inp parsed sb t = bind_act (h sb t) (\<lambda>_. f)" and "quiet f"
    by blast
  obtain r1 w1 where w1: "h sb t w = (r1, w1)" by fastforce
  have "lw_calls w1 = lw_calls w \<and> lw_sandbox w1 = Some sb \<and> lw_result w1 = lw_result w \<and> lw_revoked w1 = lw_revoked w"
    using rec [of w] w1 by (simp add: Let_def)
  moreover have "w' = w1 \<or> same_calls w1 w'"
    using assms(2) w1 quietD [OF \<open>quiet f\<close>] unfolding split
    by (auto simp: bind_act_def split: sum.splits)
  ultimately show ?thesis by (auto simp: same_calls_def)
qed

text \<open>What a validation of the project calls: it creates at most one sandbox, and terminates it when it throws.\<close>

lemma create_sandbox_cases:
  assumes "create_sandbox L spec w = (r, w')"
  shows "lw_sandbox w' = lw_sandbox w \<and> lw_result w' = lw_result w \<and> lw_revoked w' = lw_revoked w \<and>
    lw_session w' = lw_session w \<and> lw_db w' = lw_db w \<and>
    (case r of Inl _ \<Rightarrow> lw_calls w' = lw_calls w | Inr sb \<Rightarrow> lw_calls w' = lw_calls w @ [CreatedSandbox (sh_id sb)])"
  using assms
  by (auto simp: create_sandbox_def in_service_def log_call_def split: prod.splits sum.splits)

lemma terminate_cases:
  assumes "terminate_sandbox L i w = (r, w')"
  shows "lw_calls w' = lw_calls w @ [TerminatedSandbox i] \<and> lw_sandbox w' = lw_sandbox w \<and> lw_result w' = lw_result w \<and>
    lw_session w' = lw_session w \<and> lw_db w' = lw_db w \<and> lw_revoked w' = lw_revoked w"
  using assms by (auto simp: terminate_sandbox_def in_service_def log_call_def split: prod.splits)

lemma project_calls:
  assumes rec: "records_sandbox (vi_hooks inp)" and run: "validate_project (life_runner L) inp w = (r, w')"
    and none: "lw_sandbox w = None"
  shows "lw_result w' = lw_result w \<and> lw_revoked w' = lw_revoked w \<and>
    (case r of
       Inr res \<Rightarrow> lw_calls w' = lw_calls w @ [CreatedSandbox (sh_id (vr_sandbox res))] \<and> lw_sandbox w' = Some (vr_sandbox res)
     | Inl e \<Rightarrow> lw_calls w' = lw_calls w \<and> lw_sandbox w' = None \<or>
         (\<exists>sb. lw_calls w' = lw_calls w @ [CreatedSandbox (sh_id sb), TerminatedSandbox (sh_id sb)] \<and> lw_sandbox w' = Some sb))"
proof (cases "parse_validation_input (vi_files inp) (vi_metadata inp) = None \<or>
    \<not> (case vi_manifest inp of None \<Rightarrow> True | Some m \<Rightarrow> valid_acceptance_manifest m)")
  case True
  then have "r = Inl ZodError \<and> w' = w"
    using run by (auto simp: validate_project_def throw_act_def split: option.splits)
  then show ?thesis using none by simp
next
  case False
  then obtain parsed where p: "parse_validation_input (vi_files inp) (vi_metadata inp) = Some parsed"
    and m: "case vi_manifest inp of None \<Rightarrow> True | Some m \<Rightarrow> valid_acceptance_manifest m" by auto
  let ?spec = "sandbox_spec_of (life_runner L) (vi_metadata inp)"
  obtain rc w1 where c: "create_sandbox L ?spec w = (rc, w1)" by fastforce
  note cc = create_sandbox_cases [OF c]
  have prov: "sp_terminate (life_provider L) = terminate_sandbox L" "sp_create (life_provider L) = create_sandbox L"
    by (simp_all add: life_provider_def)
  show ?thesis
  proof (cases rc)
    case (Inl e)
    then have "r = Inl e \<and> w' = w1"
      using run c p m by (simp add: validate_project_def bind_act_def clock_def prov)
    then show ?thesis using cc Inl none by simp
  next
    case (Inr sb)
    let ?t = "vr_now (life_runner L) w + vr_timeoutMs (life_runner L)"
    obtain rb w2 where b: "validate_sandbox (life_runner L) inp parsed sb ?t w1 = (rb, w2)" by fastforce
    note body = sandbox_body [OF rec b]
    show ?thesis
    proof (cases rb)
      case (Inl e)
      obtain q w3 where t: "terminate_sandbox L (sh_id sb) w2 = (q, w3)" by fastforce
      have "r = Inl e \<and> w' = w3"
        using run c p m b t \<open>rc = Inr sb\<close> Inl
        by (cases q) (simp_all add: validate_project_def bind_act_def clock_def prov catch_act_def throw_act_def return_act_def)
      then show ?thesis using terminate_cases [OF t] body cc \<open>rc = Inr sb\<close> by simp
    next
      case res: (Inr res)
      have "r = Inr res \<and> w' = w2"
        using run c p m b \<open>rc = Inr sb\<close> res
        by (simp add: validate_project_def bind_act_def clock_def prov catch_act_def)
      moreover have "vr_sandbox res = sb" using validate_sandbox_steps [of "life_runner L" inp parsed sb ?t w1 res w2] b res by simp
      ultimately show ?thesis using body cc \<open>rc = Inr sb\<close> by simp
    qed
  qed
qed

section \<open>What the store was told last\<close>

definition store_call :: "string \<Rightarrow> preview_call \<Rightarrow> bool \<Rightarrow> bool" where
  "store_call k c b =
     (case c of
        PutTarget t \<Rightarrow> b \<or> pt_sessionId t = k
      | DeletedTarget j \<Rightarrow> b \<and> j \<noteq> k
      | _ \<Rightarrow> b)"

text \<open>The last call of the store that names the session publishes it.\<close>

definition published :: "preview_call list \<Rightarrow> string \<Rightarrow> bool" where
  "published cs k = fold (store_call k) cs False"

lemma published_append: "published (cs @ ds) k = fold (store_call k) ds (published cs k)"
  by (simp add: published_def)

lemma quietly_calls:
  assumes "quietly m w = (r, w')"
  shows "r = Inr () \<and> (\<exists>q. m w = (q, w'))"
  using assms by (cases "m w") (auto simp: quietly_def catch_act_def return_act_def split: sum.splits)

lemma store_delete_cases:
  assumes "store_delete L sid w = (r, w')"
  shows "lw_calls w' = lw_calls w @ [DeletedTarget (lo_text_of L sid)] \<and> lw_sandbox w' = lw_sandbox w \<and>
    lw_result w' = lw_result w \<and> lw_session w' = lw_session w \<and> lw_db w' = lw_db w \<and> lw_revoked w' = lw_revoked w"
  using assms by (auto simp: store_delete_def log_call_def Let_def)

lemma store_put_cases:
  assumes "store_put L t w = (r, w')"
  shows "lw_calls w' = lw_calls w @ [PutTarget t] \<and> lw_sandbox w' = lw_sandbox w \<and>
    lw_result w' = lw_result w \<and> lw_session w' = lw_session w \<and> lw_db w' = lw_db w \<and> lw_revoked w' = lw_revoked w"
  using assms by (auto simp: store_put_def log_call_def)

lemma life_tx_vars:
  assumes "life_tx L t w = (r, w')"
  shows "lw_calls w' = lw_calls w \<and> lw_sandbox w' = lw_sandbox w \<and> lw_result w' = lw_result w \<and>
    lw_session w' = lw_session w \<and> lw_revoked w' = lw_revoked w"
  using assms by (auto simp: life_tx_def Let_def split: if_splits sum.splits)

definition known_sandbox :: "'p preview_world \<Rightarrow> string option" where
  "known_sandbox w =
     (case lw_result w of Some r \<Rightarrow> Some (sh_id (vr_sandbox r)) | None \<Rightarrow> map_option sh_id (lw_sandbox w))"

lemma terminate_known_cases:
  assumes "terminate_known L w = (r, w')"
  shows "r = Inr () \<and> lw_session w' = lw_session w \<and> lw_db w' = lw_db w \<and>
    lw_calls w' = lw_calls w @ (case known_sandbox w of None \<Rightarrow> [] | Some i \<Rightarrow> [TerminatedSandbox i])"
proof -
  have "r = Inr () \<and> lw_session w' = lw_session w \<and> lw_db w' = lw_db w \<and> lw_calls w' = lw_calls w @ [TerminatedSandbox i]"
    if "quietly (terminate_sandbox L i) w = (r, w')" for i
    using quietly_calls [OF that] terminate_cases [of L i w] by auto
  then show ?thesis
    using assms by (auto simp: terminate_known_def known_sandbox_def split: option.splits)
qed

text \<open>The handler of a failed validation.\<close>

definition cleanup_calls :: "'p preview_options \<Rightarrow> 'p preview_world \<Rightarrow> preview_call list" where
  "cleanup_calls L w =
     (case lw_session w of None \<Rightarrow> [] | Some k \<Rightarrow> [DeletedTarget (lo_text_of L k)]) @
     (case known_sandbox w of None \<Rightarrow> [] | Some i \<Rightarrow> [TerminatedSandbox i])"

lemma validation_failed_cases:
  assumes "validation_failed L e w = (r, w')"
  shows "r = Inl e \<and> lw_calls w' = lw_calls w @ cleanup_calls L w \<and> lw_session w' = lw_session w"
proof -
  let ?first = "case lw_session w of
         None \<Rightarrow> return_act ()
       | Some sid \<Rightarrow>
           bind_act (quietly (store_delete L sid)) (\<lambda>_.
             quietly (life_tx L (markSandboxFailed sid (worker_error_json (toWorkerError e)))))"
  obtain r1 w1 where f: "?first w = (r1, w1)" by fastforce
  have one: "r1 = Inr () \<and> lw_calls w1 = lw_calls w @ (case lw_session w of None \<Rightarrow> [] | Some k \<Rightarrow> [DeletedTarget (lo_text_of L k)]) \<and>
      lw_session w1 = lw_session w \<and> known_sandbox w1 = known_sandbox w"
  proof (cases "lw_session w")
    case None
    then show ?thesis using f by (simp add: return_act_def)
  next
    case (Some sid)
    obtain q w2 where d: "quietly (store_delete L sid) w = (q, w2)" by fastforce
    obtain q' w3 where t: "quietly (life_tx L (markSandboxFailed sid (worker_error_json (toWorkerError e)))) w2 = (q', w3)"
      by fastforce
    have e: "r1 = q'" "w1 = w3" using f Some d t quietly_calls [OF d] by (simp_all add: bind_act_def)
    obtain p where "store_delete L sid w = (p, w2)" using quietly_calls [OF d] by blast
    note del = store_delete_cases [OF this]
    obtain p' where "life_tx L (markSandboxFailed sid (worker_error_json (toWorkerError e))) w2 = (p', w3)"
      using quietly_calls [OF t] by blast
    note tx = life_tx_vars [OF this]
    show ?thesis using e del tx Some quietly_calls [OF t] by (simp add: known_sandbox_def split: option.split)
  qed
  obtain r2 w2 where k: "terminate_known L w1 = (r2, w2)" by fastforce
  note two = terminate_known_cases [OF k]
  have "r = Inl e \<and> w' = w2"
    using assms f k one two by (simp add: validation_failed_def bind_act_def throw_act_def)
  then show ?thesis using one two by (simp add: cleanup_calls_def)
qed

section \<open>Publishing\<close>

definition published_as ::
    "'p preview_options \<Rightarrow> run_execution \<Rightarrow> validation_result \<Rightarrow> uuid \<Rightarrow> 'p preview_world \<Rightarrow> bool" where
  "published_as L run r sid w' \<longleftrightarrow>
     (\<exists>url t now d. issue (lo_signer L) (lo_text_of L sid) (Some (vr_expiresAt r)) t = Inr url \<and>
        recordPreviewReady \<lparr>pv_run = run, pv_sessionId = sid, pv_gatewayUrl = url, pv_processId = vr_processId r,
          pv_expiresAt = vr_expiresAt r, pv_now = now\<rparr> d = Inr (True, lw_db w'))"

lemma requireSessionId_cases:
  "requireSessionId w = (r, w') \<Longrightarrow> w' = w \<and> (case r of Inl e \<Rightarrow> lw_session w = None | Inr k \<Rightarrow> lw_session w = Some k)"
  by (auto simp: requireSessionId_def split: option.splits)

lemma issue_act_cases:
  "issue_act L sid t w = (r, w') \<Longrightarrow> w' = w \<and>
     (case r of Inl e \<Rightarrow> True | Inr url \<Rightarrow> issue (lo_signer L) (lo_text_of L sid) (Some t) (lo_now L (lw_tick w)) = Inr url)"
  by (auto simp: issue_act_def split: sum.splits)

lemma life_tx_Inr:
  assumes "life_tx L t w = (Inr a, w')"
  shows "\<exists>now d. t now d = Inr (a, lw_db w')"
proof -
  have "t (lo_now L (lw_tick w)) (lo_env L (lw_tick w) (lw_db w)) = Inr (a, lw_db w')"
    using assms by (auto simp: life_tx_def Let_def split: if_splits sum.splits)
  then show ?thesis by blast
qed

lemma publish_cases:
  assumes "publish_preview L run r w = (q, w')"
  shows "lw_session w' = lw_session w \<and> known_sandbox w' = known_sandbox w \<and>
    (lw_calls w' = lw_calls w \<and> (\<exists>e. q = Inl e) \<or>
     (\<exists>sid. lw_session w = Some sid \<and>
        lw_calls w' = lw_calls w @ [PutTarget (target_of L sid (x_workspaceId run) (x_projectId run) (x_id run) r)] \<and>
        (\<forall>l. q = Inr l \<longrightarrow> l = \<lparr>le_session = sid, le_sandbox = sh_id (vr_sandbox r)\<rparr> \<and> published_as L run r sid w')))"
proof (cases "lw_session w")
  case None
  then show ?thesis using assms by (auto simp: publish_preview_def requireSessionId_def bind_act_def)
next
  case (Some sid)
  let ?t = "target_of L sid (x_workspaceId run) (x_projectId run) (x_id run) r"
  obtain ri w1 where i: "issue_act L sid (vr_expiresAt r) w = (ri, w1)" by fastforce
  note ic = issue_act_cases [OF i]
  show ?thesis
  proof (cases ri)
    case (Inl e)
    then show ?thesis using assms Some i ic by (auto simp: publish_preview_def requireSessionId_def bind_act_def)
  next
    case (Inr url)
    obtain rp w2 where p: "store_put L ?t w1 = (rp, w2)" by fastforce
    note pc = store_put_cases [OF p]
    show ?thesis
    proof (cases rp)
      case (Inl e)
      then have "q = Inl e \<and> w' = w2"
        using assms Some i \<open>ri = Inr url\<close> p by (simp add: publish_preview_def requireSessionId_def bind_act_def)
      then show ?thesis using pc ic Some by (simp add: known_sandbox_def split: option.split)
    next
      case put: (Inr u)
      let ?rec = "\<lambda>now. recordPreviewReady
         \<lparr>pv_run = run, pv_sessionId = sid, pv_gatewayUrl = url, pv_processId = vr_processId r,
          pv_expiresAt = vr_expiresAt r, pv_now = now\<rparr>"
      obtain rt w3 where t: "life_tx L ?rec w2 = (rt, w3)" by fastforce
      note tc = life_tx_vars [OF t]
      have final: "w' = w3 \<and> (\<forall>l. q = Inr l \<longrightarrow> l = \<lparr>le_session = sid, le_sandbox = sh_id (vr_sandbox r)\<rparr> \<and> rt = Inr True)"
        using assms Some i \<open>ri = Inr url\<close> p put t
        by (cases rt) (auto simp: publish_preview_def requireSessionId_def bind_act_def stop_unless_def return_act_def
            throw_act_def split: if_splits)
      have "published_as L run r sid w3" if "rt = Inr True"
        using life_tx_Inr [of L ?rec w2 True w3] t that ic Inr unfolding published_as_def by fastforce
      then show ?thesis using final tc pc ic Some by (simp add: known_sandbox_def split: option.split)
    qed
  qed
qed

section \<open>The outcome of a validation\<close>

lemma validate_run_cases:
  assumes "validate_run L run n w = (q, w')"
  obtains (early) e where "q = Inl e" "lw_calls w' = lw_calls w"
  | (failed) e w1 where "q = Inl e" "lw_calls w' = lw_calls w1 @ cleanup_calls L w1"
      "lw_calls w1 = lw_calls w \<and> known_sandbox w1 = None \<or>
       (\<exists>i. known_sandbox w1 = Some i \<and> lw_calls w1 = lw_calls w @ [CreatedSandbox i, TerminatedSandbox i])"
  | (unpublished) e w1 i r where "q = Inl e" "lw_calls w' = lw_calls w1 @ cleanup_calls L w1" "known_sandbox w1 = Some i"
      "lw_calls w1 = lw_calls w @ [CreatedSandbox i] \<or>
       (\<exists>sid. lw_session w1 = Some sid \<and> lw_calls w1 = lw_calls w @
          [CreatedSandbox i, PutTarget (target_of L sid (x_workspaceId run) (x_projectId run) (x_id run) r)])"
  | (ready) sid r where "q = Inr \<lparr>le_session = sid, le_sandbox = sh_id (vr_sandbox r)\<rparr>" "published_as L run r sid w'"
      "lw_calls w' = lw_calls w @ [CreatedSandbox (sh_id (vr_sandbox r)),
         PutTarget (target_of L sid (x_workspaceId run) (x_projectId run) (x_id run) r)]"
proof -
  let ?files = "life_tx L (\<lambda>_. life_query (\<lambda>d. Inr (listProjectFiles (x_projectId run) d)))"
  let ?manifest = "case lo_manifest L of
         None \<Rightarrow> return_act None
       | Some f \<Rightarrow>
           bind_act (life_tx L (\<lambda>_. life_query (getProjectType (x_projectId run)))) (\<lambda>t. return_act (f t))"
  have quiet: "quiet ?files" "quiet ?manifest" by (auto intro!: quiet_intros split: option.split)
  let ?input = "\<lambda>fs m. runner_input (map (\<lambda>f. (pf_path f, pf_content f)) fs)
             [(''workspaceId'', lo_text_of L (x_workspaceId run)), (''projectId'', lo_text_of L (x_projectId run)),
              (''runId'', lo_text_of L (x_id run)), (''attempt'', nat_string n)]
             m False (run_hooks L run n)"
  let ?body = "\<lambda>fs m. bind_act (validate_project (life_runner L) (?input fs m)) (\<lambda>r.
        bind_act (set_result r) (\<lambda>_. publish_preview L run r))"
  obtain rf wf where f: "?files w = (rf, wf)" by fastforce
  show thesis
  proof (cases rf)
    case (Inl e)
    then have "q = Inl e" "lw_calls w' = lw_calls w"
      using assms f quietD [OF quiet(1) f] by (simp_all add: validate_run_def bind_act_def same_calls_def)
    then show thesis by (rule early)
  next
    case (Inr fs)
    obtain rm wm where m: "?manifest wf = (rm, wm)" by fastforce
    note qm = quietD [OF quiet(1) f] quietD [OF quiet(2) m]
    show thesis
    proof (cases rm)
      case (Inl e)
      then have "q = Inl e" "lw_calls w' = lw_calls w"
        using assms f m \<open>rf = Inr fs\<close> qm by (simp_all add: validate_run_def bind_act_def same_calls_def)
      then show thesis by (rule early)
    next
      case man: (Inr ma)
      obtain w0 where s: "start_function wm = (Inr (), w0)" "lw_calls w0 = lw_calls w" "lw_sandbox w0 = None"
        "lw_result w0 = None"
        using qm by (auto simp: start_function_def same_calls_def)
      have run: "catch_act (?body fs ma) (validation_failed L) w0 = (q, w')"
        using assms f m \<open>rf = Inr fs\<close> man s(1) by (simp add: validate_run_def bind_act_def)
      obtain rv w1 where v: "validate_project (life_runner L) (?input fs ma) w0 = (rv, w1)" by fastforce
      have "records_sandbox (vi_hooks (?input fs ma))" by (simp add: runner_input_def run_records)
      note pc = project_calls [OF this v s(3)]
      show thesis
      proof (cases rv)
        case (Inl e)
        then have "validation_failed L e w1 = (q, w')" using run v by (simp add: catch_act_def bind_act_def)
        note fc = validation_failed_cases [OF this]
        show thesis
          by (rule failed [of e w1]) (use fc pc Inl s in \<open>auto simp: known_sandbox_def\<close>)
      next
        case (Inr r)
        let ?w2 = "w1\<lparr>lw_result := Some r\<rparr>"
        have k2: "known_sandbox ?w2 = Some (sh_id (vr_sandbox r))" by (simp add: known_sandbox_def)
        obtain rp w3 where p: "publish_preview L run r ?w2 = (rp, w3)" by fastforce
        note pub = publish_cases [OF p]
        have calls: "lw_calls ?w2 = lw_calls w @ [CreatedSandbox (sh_id (vr_sandbox r))]" using pc Inr s by simp
        show thesis
        proof (cases rp)
          case (Inl e)
          then have "validation_failed L e w3 = (q, w')"
            using run v \<open>rv = Inr r\<close> p by (simp add: catch_act_def bind_act_def set_result_def)
          note fc = validation_failed_cases [OF this]
          show thesis
            by (rule unpublished [of e w3 "sh_id (vr_sandbox r)" r]) (use fc pub Inl calls k2 in auto)
        next
          case l: (Inr l)
          then have "q = Inr l \<and> w' = w3"
            using run v \<open>rv = Inr r\<close> p by (simp add: catch_act_def bind_act_def set_result_def)
          then show thesis using ready pub l calls by auto
        qed
      qed
    qed
  qed
qed

lemma fold_cleanup:
  "fold (store_call k) (cleanup_calls L w) b \<longleftrightarrow> b \<and> (\<forall>j. lw_session w = Some j \<longrightarrow> lo_text_of L j \<noteq> k)"
  by (auto simp: cleanup_calls_def store_call_def split: option.split)

text \<open>C35: A validation that fails leaves nothing behind. Whatever throws - the queries, the hooks, a step, the
  store or the last transaction - every sandbox that was created has been told to terminate, and if
  the store was told of a preview target, the last it was told of that session is its deletion: no
  session is published that was not published before.\<close>

theorem failed_validation_cleans_up:
  assumes "validate_run L run n w = (Inl e, w')"
  shows "\<exists>calls. lw_calls w' = lw_calls w @ calls \<and>
    (\<forall>i. CreatedSandbox i \<in> set calls \<longrightarrow> TerminatedSandbox i \<in> set calls) \<and>
    (\<forall>k. published (lw_calls w') k \<longrightarrow> published (lw_calls w) k)"
  using assms
proof (cases rule: validate_run_cases)
  case early
  then show ?thesis by simp
next
  case (failed e' w1)
  then show ?thesis
    by (auto simp: published_append fold_cleanup store_call_def cleanup_calls_def split: option.splits)
next
  case (unpublished e' w1 i r)
  then show ?thesis
    by (auto simp: published_append fold_cleanup store_call_def cleanup_calls_def target_of_def split: option.splits)
qed simp

section \<open>A preview that is ready\<close>

lemma recordPreviewReady_True:
  assumes "recordPreviewReady i d = Inr (True, d')"
  shows "\<exists>p r s. preview_of d' (pv_sessionId i) = Some p \<and> p_status p = P_READY \<and> p_gatewayUrl p = pv_gatewayUrl i \<and>
    p_expiresAt p = pv_expiresAt i \<and> run_of d' (x_id (pv_run i)) = Some r \<and> r_status r = RUNNING \<and>
    r_controlVersion r = x_controlVersion (pv_run i) \<and>
    session_of d' (pv_sessionId i) = Some s \<and> s_status s = S_READY \<and> s_runId s = x_id (pv_run i)"
proof -
  let ?run = "x_id (pv_run i)"
  obtain d1 n d2 where d1: "touchActiveRun ?run (x_controlVersion (pv_run i)) (pv_now i) d = (True, d1)"
    and d2: "updateMany_session (pv_sessionId i) (\<lambda>s. s_runId s = ?run) (\<lambda>s. s\<lparr>s_status := S_READY, s_error := None\<rparr>) d1 = (1, d2)"
    and d3: "appendEvent ?run (PreviewUpdated (pv_sessionId i) PvReady (Some (pv_gatewayUrl i)) (pv_expiresAt i))
      (upsert_preview i d2) = Inr d'"
    using assms by (auto simp: recordPreviewReady_def Let_def bind_res_Inr_iff split: prod.splits if_splits)
  obtain r where r: "run_of d1 ?run = Some r" "r_status r = RUNNING" "r_controlVersion r = x_controlVersion (pv_run i)"
    using d1 by (auto simp: touchActiveRun_def updateMany_run_def Let_def split: option.splits if_splits)
  obtain s where s: "session_of d2 (pv_sessionId i) = Some s" "s_status s = S_READY" "s_runId s = ?run"
    and frame2: "runs d2 = runs d1" "previews d2 = previews d1"
    using d2 by (auto simp: updateMany_session_def split: option.splits if_splits)
  let ?d = "upsert_preview i d2"
  have "preview_of ?d (pv_sessionId i) \<noteq> None \<and> (\<forall>p. preview_of ?d (pv_sessionId i) = Some p \<longrightarrow>
      p_status p = P_READY \<and> p_gatewayUrl p = pv_gatewayUrl i \<and> p_expiresAt p = pv_expiresAt i)"
    by (auto simp: upsert_preview_def split: option.split)
  moreover have "runs ?d = runs d2" "sessions ?d = sessions d2"
    by (auto simp: upsert_preview_def set_preview_def split: option.split)
  moreover have "previews d' = previews ?d" "sessions d' = sessions ?d"
    using appendEvent_frame [OF d3] appendEvent_sandbox_frame [OF d3] by simp_all
  moreover have "\<exists>r'. run_of d' ?run = Some r' \<and> r_status r' = RUNNING \<and> r_controlVersion r' = x_controlVersion (pv_run i)"
    using d3 r frame2 calculation(2) by (auto simp: appendEvent_Inr)
  ultimately show ?thesis using s by auto
qed

text \<open>C36: A validation that succeeds leaves a preview the gateway can route. The store was told last to publish the
  session of the lease, for this workspace, project and run; the run is still running at its control
  version, its session and its preview are ready; and the public address that was recorded
  verifies, until the recorded expiry, as exactly the session and the expiry of that target.\<close>

theorem ready_preview_is_routable:
  assumes "validate_run L run n w = (Inr l, w')"
    and "new_signer hmac is_uuid secret domain protocol = Inr (lo_signer L)" and "uuids_have_shape (lo_signer L)"
    and "\<And>k. js_toLowerCase (lo_text_of L k) = lo_text_of L k"
  shows "\<exists>t p r s label. last (lw_calls w') = PutTarget t \<and> published (lw_calls w') (pt_sessionId t) \<and>
    pt_sessionId t = lo_text_of L (le_session l) \<and> pt_runId t = lo_text_of L (x_id run) \<and>
    pt_workspaceId t = lo_text_of L (x_workspaceId run) \<and> pt_projectId t = lo_text_of L (x_projectId run) \<and>
    run_of (lw_db w') (x_id run) = Some r \<and> r_status r = RUNNING \<and> r_controlVersion r = x_controlVersion run \<and>
    session_of (lw_db w') (le_session l) = Some s \<and> s_status s = S_READY \<and>
    preview_of (lw_db w') (le_session l) = Some p \<and> p_status p = P_READY \<and> p_expiresAt p = pt_expiresAt t \<and>
    p_gatewayUrl p = ts_protocol (lo_signer L) @ ''://'' @ label @ ''.'' @ ts_baseDomain (lo_signer L) @ ''/'' \<and>
    (\<forall>now < pt_expiresAt t. verifyHost (lo_signer L) (label @ ''.'' @ ts_baseDomain (lo_signer L)) now =
       Inr (pt_sessionId t, pt_expiresAt t))"
  using assms(1)
proof (cases rule: validate_run_cases)
  case (ready sid r)
  let ?t = "target_of L sid (x_workspaceId run) (x_projectId run) (x_id run) r"
  obtain url t now d where issued: "issue (lo_signer L) (lo_text_of L sid) (Some (vr_expiresAt r)) t = Inr url"
    and rec: "recordPreviewReady \<lparr>pv_run = run, pv_sessionId = sid, pv_gatewayUrl = url, pv_processId = vr_processId r,
          pv_expiresAt = vr_expiresAt r, pv_now = now\<rparr> d = Inr (True, lw_db w')"
    using ready(2) unfolding published_as_def by blast
  obtain label where label: "url = ts_protocol (lo_signer L) @ ''://'' @ label @ ''.'' @ ts_baseDomain (lo_signer L) @ ''/''"
    and verify: "\<And>now. verifyHost (lo_signer L) (label @ ''.'' @ ts_baseDomain (lo_signer L) @ []) now =
      (if vr_expiresAt r \<le> now then Inl EXPIRED_TICKET else Inr (lo_text_of L sid, vr_expiresAt r))"
    using issued_ticket_host [OF assms(2,3) assms(4) issued, of "[]"] by auto
  have "published (lw_calls w') (pt_sessionId ?t)" using ready(3) by (simp add: published_append store_call_def)
  moreover have "last (lw_calls w') = PutTarget ?t" using ready(3) by simp
  moreover have "le_session l = sid" using ready(1) by simp
  ultimately show ?thesis
    using recordPreviewReady_True [OF rec] label verify by (auto simp: target_of_def)
qed simp_all

section \<open>The lease\<close>

text \<open>
  The first revocation deletes the target, terminates the sandbox and stops the preview, each whatever
  the others do; later revocations do nothing.
\<close>

lemma settle_cases: "settle m w = (r, w') \<Longrightarrow> \<exists>q b. m w = (q, w') \<and> r = Inr b"
  by (cases "m w") (auto simp: settle_def split: sum.splits)

lemma revoke_once:
  assumes "revoke L l w = (r, w')" and "\<not> lw_revoked w"
  shows "lw_calls w' = lw_calls w @ [DeletedTarget (lo_text_of L (le_session l)), TerminatedSandbox (le_sandbox l)] \<and>
    lw_revoked w' \<and> \<not> published (lw_calls w') (lo_text_of L (le_session l))"
proof -
  let ?w = "w\<lparr>lw_revoked := True\<rparr>"
  obtain r1 w1 where 1: "settle (store_delete L (le_session l)) ?w = (r1, w1)" by fastforce
  obtain r2 w2 where 2: "settle (terminate_sandbox L (le_sandbox l)) w1 = (r2, w2)" by fastforce
  obtain r3 w3 where 3: "settle (life_tx L (markPreviewStopped (le_session l))) w2 = (r3, w3)" by fastforce
  obtain b1 b2 b3 where b: "r1 = Inr b1" "r2 = Inr b2" "r3 = Inr b3"
    using settle_cases [OF 1] settle_cases [OF 2] settle_cases [OF 3] by blast
  have "w' = w3"
    using assms 1 2 3 b by (auto simp: revoke_def bind_act_def return_act_def throw_act_def split: if_splits)
  moreover obtain q1 where q1: "store_delete L (le_session l) ?w = (q1, w1)" using settle_cases [OF 1] by blast
  moreover obtain q2 where q2: "terminate_sandbox L (le_sandbox l) w1 = (q2, w2)" using settle_cases [OF 2] by blast
  moreover obtain q3 where q3: "life_tx L (markPreviewStopped (le_session l)) w2 = (q3, w3)" using settle_cases [OF 3] by blast
  ultimately show ?thesis
    using store_delete_cases [OF q1] terminate_cases [OF q2] life_tx_vars [OF q3]
    by (simp add: published_append store_call_def)
qed

lemma revoke_again: "lw_revoked w \<Longrightarrow> revoke L l w = (Inr (), w)"
  by (simp add: revoke_def)

section \<open>Opening a preview again\<close>

lemma publish_reopened_cases:
  assumes "publish_reopened L job r w = (q, w')"
  shows "lw_session w' = lw_session w \<and> known_sandbox w' = known_sandbox w \<and>
    (lw_calls w' = lw_calls w \<and> (\<exists>e. q = Inl e) \<or>
     (\<exists>sid. lw_session w = Some sid \<and>
        lw_calls w' = lw_calls w @ [PutTarget (target_of L sid (rj_workspaceId job) (rj_projectId job) (rj_runId job) r)]))"
proof (cases "lw_session w")
  case None
  then show ?thesis using assms by (auto simp: publish_reopened_def requireSessionId_def bind_act_def)
next
  case (Some sid)
  let ?t = "target_of L sid (rj_workspaceId job) (rj_projectId job) (rj_runId job) r"
  obtain ri w1 where i: "issue_act L sid (vr_expiresAt r) w = (ri, w1)" by fastforce
  note ic = issue_act_cases [OF i]
  show ?thesis
  proof (cases ri)
    case (Inl e)
    then show ?thesis using assms Some i ic by (auto simp: publish_reopened_def requireSessionId_def bind_act_def)
  next
    case (Inr url)
    obtain rp w2 where p: "store_put L ?t w1 = (rp, w2)" by fastforce
    note pc = store_put_cases [OF p]
    show ?thesis
    proof (cases rp)
      case (Inl e)
      then have "w' = w2"
        using assms Some i \<open>ri = Inr url\<close> p by (simp add: publish_reopened_def requireSessionId_def bind_act_def)
      then show ?thesis using pc ic Some by (simp add: known_sandbox_def split: option.split)
    next
      case put: (Inr u)
      then have tx: "life_tx L (\<lambda>now. recordPreviewReopened
         \<lparr>rp_sessionId = sid, rp_projectId = rj_projectId job, rp_workspaceId = rj_workspaceId job,
          rp_runId = rj_runId job, rp_gatewayUrl = url, rp_processId = vr_processId r, rp_expiresAt = vr_expiresAt r,
          rp_now = now\<rparr>) w2 = (q, w')"
        using assms Some i \<open>ri = Inr url\<close> p by (simp add: publish_reopened_def requireSessionId_def bind_act_def)
      show ?thesis using life_tx_vars [OF tx] pc ic Some by (simp add: known_sandbox_def split: option.split)
    qed
  qed
qed

lemma reopen_failed_cases:
  assumes "reopen_failed L job e w = (r, w')"
  shows "r = Inr () \<and> lw_calls w' = lw_calls w @ cleanup_calls L w"
proof -
  obtain r1 w1 where f: "(case lw_session w of None \<Rightarrow> return_act () | Some sid \<Rightarrow> quietly (store_delete L sid)) w = (r1, w1)"
    by fastforce
  have one: "r1 = Inr () \<and> lw_calls w1 = lw_calls w @ (case lw_session w of None \<Rightarrow> [] | Some k \<Rightarrow> [DeletedTarget (lo_text_of L k)]) \<and>
      known_sandbox w1 = known_sandbox w"
  proof (cases "lw_session w")
    case (Some sid)
    then have d: "quietly (store_delete L sid) w = (r1, w1)" using f by simp
    obtain p where "store_delete L sid w = (p, w1)" using quietly_calls [OF d] by blast
    from store_delete_cases [OF this] show ?thesis
      using Some quietly_calls [OF d] by (simp add: known_sandbox_def split: option.split)
  qed (use f in \<open>simp add: return_act_def\<close>)
  obtain r2 w2 where k: "terminate_known L w1 = (r2, w2)" by fastforce
  note two = terminate_known_cases [OF k]
  show ?thesis
  proof (cases "not_applicable e")
    case True
    then have "r = Inr () \<and> w' = w2" using assms f k one two by (simp add: reopen_failed_def bind_act_def)
    then show ?thesis using one two by (simp add: cleanup_calls_def)
  next
    case False
    then have q: "quietly (life_tx L (recordPreviewReopenFailed (rj_runId job) (lw_session w2)
        (worker_error_json (toWorkerError e)))) w2 = (r, w')"
      using assms f k one two by (simp add: reopen_failed_def bind_act_def)
    obtain p where "life_tx L (recordPreviewReopenFailed (rj_runId job) (lw_session w2)
        (worker_error_json (toWorkerError e))) w2 = (p, w')" using quietly_calls [OF q] by blast
    from life_tx_vars [OF this] show ?thesis using quietly_calls [OF q] one two by (simp add: cleanup_calls_def)
  qed
qed

text \<open>
  A job that opens a preview again either publishes one session over one sandbox, or leaves no sandbox
  running and no session published; once it has read the files it never throws.
\<close>

lemma reopen_cleans_up:
  assumes "reopen_preview L job w = (q, w')"
  shows "(\<exists>i t. lw_calls w' = lw_calls w @ [CreatedSandbox i, PutTarget t] \<and> q = Inr ()) \<or>
    (\<exists>calls. lw_calls w' = lw_calls w @ calls \<and>
       (\<forall>i. CreatedSandbox i \<in> set calls \<longrightarrow> TerminatedSandbox i \<in> set calls \<and> q = Inr ()) \<and>
       (\<forall>k. published (lw_calls w') k \<longrightarrow> published (lw_calls w) k))"
proof -
  let ?files = "life_tx L (\<lambda>_. life_query (\<lambda>d. Inr (listProjectFiles (rj_projectId job) d)))"
  obtain rf wf where f: "?files w = (rf, wf)" by fastforce
  note qf = life_tx_vars [OF f]
  show ?thesis
  proof (cases "\<exists>fs. rf = Inr fs \<and> fs \<noteq> []")
    case False
    have "lw_calls w' = lw_calls w"
    proof (cases rf)
      case (Inl e)
      then show ?thesis using assms f qf by (simp add: reopen_preview_def bind_act_def)
    next
      case (Inr fs)
      then have tx: "life_tx L (recordPreviewReopenFailed (rj_runId job) None
            (JObj [(''message'', JStr ''The project has no saved files to preview.'')])) wf = (q, w')"
        using assms f False by (simp add: reopen_preview_def bind_act_def)
      show ?thesis using life_tx_vars [OF tx] qf by simp
    qed
    then show ?thesis by auto
  next
    case True
    then obtain fs where fs: "rf = Inr fs" "fs \<noteq> []" by blast
    let ?input = "runner_input (map (\<lambda>f. (pf_path f, pf_content f)) fs)
             [(''workspaceId'', lo_text_of L (rj_workspaceId job)), (''projectId'', lo_text_of L (rj_projectId job)),
              (''runId'', lo_text_of L (rj_runId job)), (''purpose'', ''preview-reopen'')]
             None True (reopen_hooks L job)"
    let ?body = "bind_act (validate_project (life_runner L) ?input) (\<lambda>r.
        bind_act (set_result r) (\<lambda>_. publish_reopened L job r))"
    obtain w0 where s: "start_function wf = (Inr (), w0)" "lw_calls w0 = lw_calls w" "lw_sandbox w0 = None" "lw_result w0 = None"
      using qf by (auto simp: start_function_def)
    have run: "catch_act ?body (reopen_failed L job) w0 = (q, w')"
      using assms f fs s(1) by (simp add: reopen_preview_def bind_act_def)
    obtain rv w1 where v: "validate_project (life_runner L) ?input w0 = (rv, w1)" by fastforce
    have "records_sandbox (vi_hooks ?input)" by (simp add: runner_input_def reopen_records)
    note pc = project_calls [OF this v s(3)]
    show ?thesis
    proof (cases rv)
      case (Inl e)
      then have "reopen_failed L job e w1 = (q, w')" using run v by (simp add: catch_act_def bind_act_def)
      note fc = reopen_failed_cases [OF this]
      have "lw_calls w1 = lw_calls w \<and> known_sandbox w1 = None \<or>
          (\<exists>i. known_sandbox w1 = Some i \<and> lw_calls w1 = lw_calls w @ [CreatedSandbox i, TerminatedSandbox i])"
        using pc Inl s by (auto simp: known_sandbox_def)
      then show ?thesis using fc
        by (auto simp: published_append fold_cleanup store_call_def cleanup_calls_def split: option.splits)
    next
      case (Inr r)
      let ?w2 = "w1\<lparr>lw_result := Some r\<rparr>"
      have k2: "known_sandbox ?w2 = Some (sh_id (vr_sandbox r))" by (simp add: known_sandbox_def)
      obtain rp w3 where p: "publish_reopened L job r ?w2 = (rp, w3)" by fastforce
      note pub = publish_reopened_cases [OF p]
      have calls: "lw_calls ?w2 = lw_calls w @ [CreatedSandbox (sh_id (vr_sandbox r))]" using pc Inr s by simp
      show ?thesis
      proof (cases rp)
        case (Inl e)
        then have "reopen_failed L job e w3 = (q, w')"
          using run v \<open>rv = Inr r\<close> p by (simp add: catch_act_def bind_act_def set_result_def)
        note fc = reopen_failed_cases [OF this]
        show ?thesis using fc pub calls k2
          by (auto simp: published_append fold_cleanup store_call_def cleanup_calls_def target_of_def split: option.splits)
      next
        case l: (Inr l)
        then have "q = Inr l \<and> w' = w3"
          using run v \<open>rv = Inr r\<close> p by (simp add: catch_act_def bind_act_def set_result_def)
        then show ?thesis using pub l calls by auto
      qed
    qed
  qed
qed

section \<open>Concrete validations\<close>

definition tiny_uuid :: string where
  "tiny_uuid = ''00000000-0000-0000-0000-000000000001''"

definition tiny_signer :: ticket_signer where
  "tiny_signer = \<lparr>ts_mac = (\<lambda>m. replicate 16 0), ts_uuid = (\<lambda>s. s = tiny_uuid),
     ts_baseDomain = ''preview.example.test'', ts_protocol = ''https''\<rparr>"

definition live_options :: "int \<Rightarrow> unit preview_options" where
  "live_options code =
     \<lparr>lo_env = (\<lambda>n d. d), lo_now = (\<lambda>n. 0), lo_lost = (\<lambda>n. False), lo_put = (\<lambda>n t. None), lo_delete = (\<lambda>n k. None),
      lo_signer = tiny_signer, lo_text_of = (\<lambda>k. tiny_uuid), lo_secret = (\<lambda>n. ''s''), lo_provider = sample_provider code,
      lo_config = \<lparr>rc_template = None, rc_allowedHosts = None, rc_browserViability = None, rc_acceptanceCheck = None,
        rc_provisionLocalDatabase = None, rc_sandboxTimeoutMs = Some 50, rc_projectDirectory = None, rc_previewPort = None\<rparr>,
      lo_scripts = ([], []), lo_stringify = (\<lambda>m. []), lo_manifest = None\<rparr>"

definition live_world :: "unit preview_world" where
  "live_world =
     \<lparr>lw_db = sample_db\<lparr>files := [\<lparr>pf_projectId = 2, pf_path = ''package.json'', pf_content = ''{}'', pf_version = 1\<rparr>]\<rparr>,
      lw_tick = 0, lw_service = (), lw_calls = [], lw_session = None, lw_sandbox = None, lw_result = None, lw_revoked = False\<rparr>"

text \<open>The bounds as integers, so that an evaluation does not count up to them.\<close>

lemma truncateDiagnostic_code [code]:
  "truncateDiagnostic s = (if int (length s) \<le> 64000 then s else take 64000 s @ ''\<newline>[truncated]'')"
  by (simp add: truncateDiagnostic_def)

lemma valid_progress_code [code]:
  "valid_progress p \<longleftrightarrow> 0 < pr_ordinal p \<and> 0 \<le> pr_durationMs p \<and>
     int (length (pr_stdout p)) \<le> 64012 \<and> int (length (pr_stderr p)) \<le> 64012"
  by (auto simp: valid_progress_def)

lemma parse_validation_input_code [code]: "parse_validation_input fs metadata =
     (let parsed = map (\<lambda>(p, c). (js_trim p, c)) fs in
      if 1 \<le> length fs \<and> int (length fs) \<le> 1000 \<and>
         list_all (\<lambda>(p, c). valid_project_file_path p \<and> int (length c) \<le> 5000000) fs \<and>
         list_all (\<lambda>(k, v). 1 \<le> length k \<and> int (length k) \<le> 128 \<and> int (length v) \<le> 8192) metadata \<and>
         distinct (map fst parsed) \<and> ''package.json'' \<in> set (map fst parsed)
      then Some parsed else None)"
  by (simp add: parse_validation_input_def)

lemma tiny_shape: "uuids_have_shape tiny_signer"
proof -
  have "list_all (\<lambda>c. hex_digit c \<noteq> None) ''00000000000000000000000000000001''"
    by (simp add: hex_digit_def base36_digit_def lower_char_def Let_def)
  moreover have "tiny_uuid = uuid_layout ''00000000000000000000000000000001''"
    by (simp add: tiny_uuid_def uuid_layout_def)
  ultimately have "uuid_shape tiny_uuid"
    unfolding uuid_shape_def by (intro exI [of _ "''00000000000000000000000000000001''"]) simp
  then show ?thesis by (simp add: uuids_have_shape_def tiny_signer_def)
qed

lemma tiny_new: "new_signer (\<lambda>_. ts_mac tiny_signer) (ts_uuid tiny_signer) ''phase-2-preview-signing-secret-at-least-32-bytes''
    '' Preview.Example.test'' None = Inr tiny_signer"
proof -
  have "utf8_length ''phase-2-preview-signing-secret-at-least-32-bytes'' = 48" by code_simp
  moreover have "js_toLowerCase (js_trim '' Preview.Example.test'') = ''preview.example.test''" by code_simp
  ultimately show ?thesis using sample_domain by (simp only: new_signer_def tiny_signer_def Let_def) simp
qed

definition live_run :: run_execution where
  "live_run = toRunExecutionRecord 3 sample_run"

text \<open>A project whose first command fails: one sandbox is created and terminated, nothing is published.\<close>

lemma failing_run:
  "(case validate_run (live_options 1) live_run 1 live_world of
      (Inl _, w') \<Rightarrow> lw_calls w' = [CreatedSandbox ''box'', TerminatedSandbox ''box'', DeletedTarget tiny_uuid, TerminatedSandbox ''box'']
    | _ \<Rightarrow> False)"
  by code_simp

lemma failed_validation_cleans_up_witness:
  "\<exists>e w'. validate_run (live_options 1) live_run 1 live_world = (Inl e, w') \<and> CreatedSandbox ''box'' \<in> set (lw_calls w') \<and>
     (\<forall>i. CreatedSandbox i \<in> set (lw_calls w') \<longrightarrow> TerminatedSandbox i \<in> set (lw_calls w')) \<and>
     \<not> published (lw_calls w') tiny_uuid"
proof -
  obtain e w' where run: "validate_run (live_options 1) live_run 1 live_world = (Inl e, w')"
    "CreatedSandbox ''box'' \<in> set (lw_calls w')"
    using failing_run by (auto split: prod.splits sum.splits)
  have "lw_calls live_world = []" by (simp add: live_world_def)
  with failed_validation_cleans_up [OF run(1)] run show ?thesis by (auto simp: published_def)
qed

lemma ready_run:
  "(case validate_run (live_options 0) live_run 1 live_world of
      (Inr l, w') \<Rightarrow> le_sandbox l = ''box'' | _ \<Rightarrow> False)"
  by code_simp

lemma ready_preview_is_routable_witness:
  "\<exists>l w'. validate_run (live_options 0) live_run 1 live_world = (Inr l, w') \<and> published (lw_calls w') tiny_uuid \<and>
     (\<exists>label (t :: preview_target). verifyHost tiny_signer (label @ ''.preview.example.test'') (pt_expiresAt t - 1) = Inr (tiny_uuid, pt_expiresAt t))"
proof -
  obtain l w' where run: "validate_run (live_options 0) live_run 1 live_world = (Inr l, w')"
    using ready_run by (auto split: prod.splits sum.splits)
  have S: "lo_signer (live_options 0) = tiny_signer" "\<And>k. lo_text_of (live_options 0) k = tiny_uuid"
    by (simp_all add: live_options_def)
  have low: "js_toLowerCase tiny_uuid = tiny_uuid" by code_simp
  note routable = ready_preview_is_routable [OF run, unfolded S, OF tiny_new tiny_shape low]
  obtain t :: preview_target and label where t: "published (lw_calls w') (pt_sessionId t)" "pt_sessionId t = tiny_uuid"
    and v: "\<forall>now < pt_expiresAt t. verifyHost tiny_signer (label @ ''.'' @ ts_baseDomain tiny_signer) now = Inr (pt_sessionId t, pt_expiresAt t)"
    using routable by (elim exE conjE) (rule that; assumption)
  have "verifyHost tiny_signer (label @ ''.'' @ ts_baseDomain tiny_signer) (pt_expiresAt t - 1) = Inr (tiny_uuid, pt_expiresAt t)"
    using v t(2) by simp
  then have "verifyHost tiny_signer (label @ ''.preview.example.test'') (pt_expiresAt t - 1) = Inr (tiny_uuid, pt_expiresAt t)"
    by (simp add: tiny_signer_def)
  then show ?thesis using run t by auto
qed

end
