(* ===== verification/Attachments.thy ===== *)
theory Attachments
  imports ControlApi "HOL-Library.Word"
begin

text \<open>
  Project attachments in the store: the contracts of \<open>packages/contracts/src/attachments.ts\<close>, the inspection
  of uploaded bytes (\<open>storage-provider/src/content-inspection.ts\<close>), the transactions of the control API's
  \<open>PrismaAttachmentRepository\<close> and of the worker's \<open>PrismaAttachmentScanRepository\<close>.

  A transaction that reads a row and then writes it takes an argument \<open>race\<close>: what other connections
  commit between the two statements. PostgreSQL's default isolation does not prevent it.
\<close>

section \<open>Contracts\<close>

definition MAX_PROJECT_ATTACHMENTS :: nat where
  "MAX_PROJECT_ATTACHMENTS = 5"

definition MAX_ATTACHMENT_BYTES :: nat where
  "MAX_ATTACHMENT_BYTES = 10 * 1024 * 1024"

definition ATTACHMENT_UPLOAD_TTL_SECONDS :: int where
  "ATTACHMENT_UPLOAD_TTL_SECONDS = 15 * 60"

definition ATTACHMENT_DOWNLOAD_TTL_SECONDS :: int where
  "ATTACHMENT_DOWNLOAD_TTL_SECONDS = 5 * 60"

definition ALLOWED_ATTACHMENT_MIME_TYPES :: "string list" where
  "ALLOWED_ATTACHMENT_MIME_TYPES =
     [''application/pdf'', ''text/plain'', ''image/png'', ''image/jpeg'', ''image/webp'']"

text \<open>The file name of an upload: the parsed value is the trimmed text.\<close>

definition AttachmentFileNameSchema :: "string \<Rightarrow> string option" where
  "AttachmentFileNameSchema v =
     (let s = js_trim v
      in if s \<noteq> [] \<and> length s \<le> 255 \<and>
            \<not> list_ex (\<lambda>c. of_char c < (32 :: nat) \<or> of_char c = (127 :: nat)) s \<and>
            CHR ''/'' \<notin> set s \<and> CHR 0x5C \<notin> set s \<and> s \<noteq> ''.'' \<and> s \<noteq> ''..''
         then Some s else None)"

record upload_metadata =
  um_fileName :: string
  um_contentType :: string
  um_sizeBytes :: nat

definition CreateAttachmentUploadIntentInputSchema :: "string \<Rightarrow> string \<Rightarrow> int \<Rightarrow> upload_metadata option" where
  "CreateAttachmentUploadIntentInputSchema fileName contentType sizeBytes =
     (case AttachmentFileNameSchema fileName of
        None \<Rightarrow> None
      | Some n \<Rightarrow>
          (if contentType \<in> set ALLOWED_ATTACHMENT_MIME_TYPES \<and> 0 < sizeBytes \<and> sizeBytes \<le> int MAX_ATTACHMENT_BYTES
           then Some \<lparr>um_fileName = n, um_contentType = contentType, um_sizeBytes = nat sizeBytes\<rparr>
           else None))"

record scan_job =
  sj_attachmentId :: uuid
  sj_scanVersion :: nat

fun attachment_status_string :: "attachment_status \<Rightarrow> string" where
  "attachment_status_string AT_AWAITING_UPLOAD = ''AWAITING_UPLOAD''"
| "attachment_status_string AT_QUARANTINED = ''QUARANTINED''"
| "attachment_status_string AT_SCANNING = ''SCANNING''"
| "attachment_status_string AT_CLEAN = ''CLEAN''"
| "attachment_status_string AT_REJECTED = ''REJECTED''"
| "attachment_status_string AT_FAILED = ''FAILED''"
| "attachment_status_string AT_EXPIRED = ''EXPIRED''"

section \<open>Inspection of the bytes\<close>

type_synonym bytes = "8 word list"

text \<open>
  \<open>new TextDecoder("utf-8", \{fatal: true\})\<close>: the code points, or nothing for text that is not UTF-8. The
  decoder drops a leading byte order mark; it is kept here, as no caller distinguishes the two.
\<close>

definition in_range :: "8 word \<Rightarrow> 8 word \<Rightarrow> 8 word \<Rightarrow> bool" where
  "in_range lo hi b \<longleftrightarrow> lo \<le> b \<and> b \<le> hi"

definition low_bits :: "8 word \<Rightarrow> nat" where
  "low_bits b = unat b mod 64"

fun utf8_decode :: "bytes \<Rightarrow> nat list option" where
  "utf8_decode [] = Some []"
| "utf8_decode (b # bs) =
     (if b \<le> 0x7F then map_option ((#) (unat b)) (utf8_decode bs)
      else if in_range 0xC2 0xDF b then
        (case bs of
           c # r \<Rightarrow>
             (if in_range 0x80 0xBF c then map_option ((#) ((unat b - 0xC0) * 64 + low_bits c)) (utf8_decode r) else None)
         | _ \<Rightarrow> None)
      else if in_range 0xE0 0xEF b then
        (case bs of
           c # d # r \<Rightarrow>
             (if in_range (if b = 0xE0 then 0xA0 else 0x80) (if b = 0xED then 0x9F else 0xBF) c \<and> in_range 0x80 0xBF d
              then map_option ((#) (((unat b - 0xE0) * 64 + low_bits c) * 64 + low_bits d)) (utf8_decode r) else None)
         | _ \<Rightarrow> None)
      else if in_range 0xF0 0xF4 b then
        (case bs of
           c # d # e # r \<Rightarrow>
             (if in_range (if b = 0xF0 then 0x90 else 0x80) (if b = 0xF4 then 0x8F else 0xBF) c \<and>
                 in_range 0x80 0xBF d \<and> in_range 0x80 0xBF e
              then map_option ((#) ((((unat b - 0xF0) * 64 + low_bits c) * 64 + low_bits d) * 64 + low_bits e)) (utf8_decode r)
              else None)
         | _ \<Rightarrow> None)
      else None)"

definition isPlainText :: "bytes \<Rightarrow> bool" where
  "isPlainText bs \<longleftrightarrow>
     bs \<noteq> [] \<and> 0 \<notin> set bs \<and>
     (case utf8_decode bs of
        None \<Rightarrow> False
      | Some cs \<Rightarrow> \<not> list_ex (\<lambda>c. c < 32 \<and> c \<notin> {9, 10, 12, 13}) cs)"

definition startsWith :: "bytes \<Rightarrow> bytes \<Rightarrow> bool" where
  "startsWith bs p \<longleftrightarrow> length p \<le> length bs \<and> take (length p) bs = p"

definition detectAttachmentMimeType :: "bytes \<Rightarrow> string option" where
  "detectAttachmentMimeType bs =
     (if startsWith bs [0x25, 0x50, 0x44, 0x46, 0x2d] then Some ''application/pdf''
      else if startsWith bs [0x89, 0x50, 0x4e, 0x47, 0x0d, 0x0a, 0x1a, 0x0a] then Some ''image/png''
      else if startsWith bs [0xff, 0xd8, 0xff] then Some ''image/jpeg''
      else if startsWith bs [0x52, 0x49, 0x46, 0x46] \<and> 12 \<le> length bs \<and>
              startsWith (drop 8 bs) [0x57, 0x45, 0x42, 0x50] then Some ''image/webp''
      else if isPlainText bs then Some ''text/plain'' else None)"

lemma detected_type_allowed: "detectAttachmentMimeType bs = Some t \<Longrightarrow> t \<in> set ALLOWED_ATTACHMENT_MIME_TYPES"
  by (auto simp: detectAttachmentMimeType_def ALLOWED_ATTACHMENT_MIME_TYPES_def split: if_splits)

text \<open>A byte below 128 is a code point of its own.\<close>

lemma in_range_high: "in_range lo hi b \<Longrightarrow> 0x80 \<le> lo \<Longrightarrow> \<not> b \<le> 0x7F"
  unfolding in_range_def by (drule (1) order_trans [OF _ conjunct1]) (auto simp: word_le_nat_alt)

lemma utf8_ascii: "utf8_decode bs = Some cs \<Longrightarrow> b \<in> set bs \<Longrightarrow> b \<le> 0x7F \<Longrightarrow> unat b \<in> set cs"
proof (induction bs arbitrary: cs rule: utf8_decode.induct)
  case (2 b' bs)
  note dec = "2.prems"(1)
  show ?case
  proof (cases "b' \<le> 0x7F")
    case True
    with dec obtain cs' where "utf8_decode bs = Some cs'" "cs = unat b' # cs'"
      by (auto split: if_splits)
    then show ?thesis using "2.IH"(1) [OF True] "2.prems"(2,3) by auto
  next
    case nb: False
    then have neq: "b \<noteq> b'" using "2.prems"(3) by blast
    note dec = dec [unfolded utf8_decode.simps if_not_P [OF nb]]
    show ?thesis
    proof (cases "in_range 0xC2 0xDF b'")
      case r2: True
      with dec obtain c r cs' where d: "bs = c # r" "in_range 0x80 0xBF c" "utf8_decode r = Some cs'" "set cs' \<subseteq> set cs"
        by (auto simp: subset_insertI split: list.splits if_splits)
      have "b \<noteq> c" using in_range_high [OF d(2)] "2.prems"(3) by auto
      then have "b \<in> set r" using neq "2.prems"(2) d(1) by simp
      from "2.IH"(2) [OF nb r2 d(1,2,3) this "2.prems"(3)] d(4) show ?thesis by blast
    next
      case n2: False
      note dec = dec [unfolded if_not_P [OF n2]]
      show ?thesis
      proof (cases "in_range 0xE0 0xEF b'")
        case r3: True
        with dec obtain c c2 r cs' where d: "bs = c # c2 # r"
          "in_range (if b' = 0xE0 then 0xA0 else 0x80) (if b' = 0xED then 0x9F else 0xBF) c \<and> in_range 0x80 0xBF c2"
          "utf8_decode r = Some cs'" "set cs' \<subseteq> set cs"
          by (auto simp: subset_insertI split: list.splits if_split_asm)
        have "b \<noteq> c" "b \<noteq> c2" using in_range_high d(2) "2.prems"(3) by (auto split: if_splits)
        then have "b \<in> set r" using neq "2.prems"(2) d(1) by simp
        from "2.IH"(3) [OF nb n2 r3 d(1) refl d(2,3) this "2.prems"(3)] d(4) show ?thesis by blast
      next
        case n3: False
        note dec = dec [unfolded if_not_P [OF n3]]
        then have r4: "in_range 0xF0 0xF4 b'" by (auto split: if_splits)
        with dec obtain c c2 c3 r cs' where d: "bs = c # c2 # c3 # r"
          "in_range (if b' = 0xF0 then 0x90 else 0x80) (if b' = 0xF4 then 0x8F else 0xBF) c \<and>
             in_range 0x80 0xBF c2 \<and> in_range 0x80 0xBF c3"
          "utf8_decode r = Some cs'" "set cs' \<subseteq> set cs"
          by (auto simp: subset_insertI split: list.splits if_split_asm)
        have "b \<noteq> c" "b \<noteq> c2" "b \<noteq> c3" using in_range_high d(2) "2.prems"(3) by (auto split: if_splits)
        then have "b \<in> set r" using neq "2.prems"(2) d(1) by simp
        from "2.IH"(4) [OF nb n2 n3 r4 d(1) refl refl d(2,3) this "2.prems"(3)] d(4) show ?thesis by blast
      qed
    qed
  qed
qed simp

text \<open>Of the control characters plain text has only white space.\<close>

lemma plain_text_bytes:
  assumes "isPlainText bs" and "b \<in> set bs" and "unat b < 32"
  shows "unat b \<in> {9, 10, 12, 13}"
proof -
  obtain cs where cs: "utf8_decode bs = Some cs" "\<not> list_ex (\<lambda>c. c < 32 \<and> c \<notin> {9, 10, 12, 13}) cs"
    using assms(1) by (auto simp: isPlainText_def split: option.splits)
  have "b \<le> 0x7F" using assms(3) by (simp add: word_le_nat_alt)
  from utf8_ascii [OF cs(1) assms(2) this] cs(2) assms(3) show ?thesis
    by (auto simp: list_ex_iff)
qed

section \<open>Keys of the objects\<close>

definition attachment_prefix :: "(uuid \<Rightarrow> string) \<Rightarrow> uuid \<Rightarrow> uuid \<Rightarrow> uuid \<Rightarrow> string" where
  "attachment_prefix txt w p i =
     ''tenants/'' @ txt w @ ''/projects/'' @ txt p @ ''/attachments/'' @ txt i"

definition quarantine_key :: "(uuid \<Rightarrow> string) \<Rightarrow> uuid \<Rightarrow> uuid \<Rightarrow> uuid \<Rightarrow> string" where
  "quarantine_key txt w p i = attachment_prefix txt w p i @ ''/quarantine/source''"

definition clean_key :: "(uuid \<Rightarrow> string) \<Rightarrow> uuid \<Rightarrow> uuid \<Rightarrow> uuid \<Rightarrow> string \<Rightarrow> string" where
  "clean_key txt w p i sha = attachment_prefix txt w p i @ ''/clean/'' @ sha"

section \<open>Transactions of the control API\<close>

abbreviation attachment_of :: "db \<Rightarrow> uuid \<Rightarrow> attachment option" where
  "attachment_of d i \<equiv> map_of (attachments d) i"

definition set_attachment :: "uuid \<Rightarrow> attachment \<Rightarrow> db \<Rightarrow> db" where
  "set_attachment i a d = d\<lparr>attachments := AList.update i a (attachments d)\<rparr>"

lemma attachment_of_set [simp]: "attachment_of (set_attachment i a d) = (attachment_of d)(i \<mapsto> a)"
  by (simp add: set_attachment_def update_conv' fun_upd_def)

lemma set_attachment_ids: "i \<in> fst ` set (attachments d) \<Longrightarrow>
    map fst (attachments (set_attachment i a d)) = map fst (attachments d)"
  by (simp add: set_attachment_def update_keys)

record create_attachment_input =
  ca_userId :: uuid
  ca_projectId :: uuid
  ca_attachmentId :: uuid
  ca_metadata :: upload_metadata
  ca_uploadExpiresAt :: time

datatype create_attachment_result =
    AttachmentCreated uuid attachment | AttachmentProjectNotFound | AttachmentLimitReached

definition project_attachments :: "uuid \<Rightarrow> db \<Rightarrow> (uuid \<times> attachment) list" where
  "project_attachments p d = filter (\<lambda>(i, a). at_projectId a = p) (attachments d)"

definition new_attachment :: "(uuid \<Rightarrow> string) \<Rightarrow> uuid \<Rightarrow> create_attachment_input \<Rightarrow> attachment" where
  "new_attachment txt w inp =
     \<lparr>at_workspaceId = w, at_projectId = ca_projectId inp, at_fileName = um_fileName (ca_metadata inp),
      at_declaredContentType = um_contentType (ca_metadata inp), at_detectedContentType = None,
      at_sizeBytes = um_sizeBytes (ca_metadata inp),
      at_quarantineObjectKey = quarantine_key txt w (ca_projectId inp) (ca_attachmentId inp),
      at_cleanObjectKey = None, at_etag = None, at_sha256 = None, at_status = AT_AWAITING_UPLOAD, at_scanVersion = 0,
      at_failureCode = None, at_scanMetadata = None, at_uploadExpiresAt = ca_uploadExpiresAt inp, at_scannedAt = None\<rparr>"

text \<open>The insert, with the constraints of the table: the key, the unique object keys, the foreign key.\<close>

definition insert_attachment :: "uuid \<Rightarrow> attachment \<Rightarrow> db \<Rightarrow> thrown + db" where
  "insert_attachment i a d =
     (if attachment_of d i \<noteq> None \<or>
         list_ex (\<lambda>(k, b). at_quarantineObjectKey b = at_quarantineObjectKey a) (attachments d)
      then Inl (PrismaError ''P2002'')
      else case map_of (projects d) (at_projectId a) of
             None \<Rightarrow> Inl (PrismaError ''P2003'')
           | Some p \<Rightarrow>
               (if pj_workspaceId p \<noteq> at_workspaceId a then Inl (PrismaError ''P2003'')
                else Inr (d\<lparr>attachments := attachments d @ [(i, a)]\<rparr>)))"

text \<open>The advisory lock is held from the count to the commit, so only \<open>race\<close> before it can interfere.\<close>

definition createAttachment ::
    "(uuid \<Rightarrow> string) \<Rightarrow> create_attachment_input \<Rightarrow> (db \<Rightarrow> db) \<Rightarrow> create_attachment_result tx" where
  "createAttachment txt inp race d =
     (case getProject (ca_userId inp) (ca_projectId inp) d of
        None \<Rightarrow> Inr (AttachmentProjectNotFound, d)
      | Some p \<Rightarrow>
          (let d1 = race d
           in if 5 \<le> length (project_attachments (ca_projectId inp) d1) then Inr (AttachmentLimitReached, d1)
              else let a = new_attachment txt (pj_workspaceId p) inp
                   in case insert_attachment (ca_attachmentId inp) a d1 of
                        Inl e \<Rightarrow> Inl e
                      | Inr d2 \<Rightarrow> Inr (AttachmentCreated (ca_attachmentId inp) a, d2)))"

definition listAttachments :: "uuid \<Rightarrow> uuid \<Rightarrow> (db \<Rightarrow> db) \<Rightarrow> db \<Rightarrow> (uuid \<times> attachment) list option" where
  "listAttachments userId p race d =
     (case getProject userId p d of
        None \<Rightarrow> None
      | Some _ \<Rightarrow> Some (project_attachments p (race d)))"

definition getAttachment :: "uuid \<Rightarrow> uuid \<Rightarrow> uuid \<Rightarrow> db \<Rightarrow> attachment option" where
  "getAttachment userId p i d =
     (case attachment_of d i of
        None \<Rightarrow> None
      | Some a \<Rightarrow> (if at_projectId a = p \<and> project_member d userId p then Some a else None))"

record complete_upload_input =
  cu_userId :: uuid
  cu_projectId :: uuid
  cu_attachmentId :: uuid
  cu_etag :: "string option"
  cu_now :: time

datatype complete_upload_result =
    UploadCompleted attachment | UploadNotFound | UploadStale attachment_status

definition completeUpload :: "complete_upload_input \<Rightarrow> (db \<Rightarrow> db) \<Rightarrow> complete_upload_result tx" where
  "completeUpload inp race d =
     (let i = cu_attachmentId inp
      in case getAttachment (cu_userId inp) (cu_projectId inp) i d of
           None \<Rightarrow> Inr (UploadNotFound, d)
         | Some cur \<Rightarrow>
             (if at_status cur \<noteq> AT_AWAITING_UPLOAD then Inr (UploadStale (at_status cur), d)
              else let d1 = race d
                   in case attachment_of d1 i of
                        None \<Rightarrow> Inl (PrismaError ''P2025'')
                      | Some a \<Rightarrow>
                          (if at_uploadExpiresAt cur \<le> cu_now inp
                           then Inr (UploadStale AT_EXPIRED,
                                  set_attachment i (a\<lparr>at_status := AT_EXPIRED, at_failureCode := Some ''UPLOAD_EXPIRED''\<rparr>) d1)
                           else if at_status a = AT_AWAITING_UPLOAD \<and> at_scanVersion a = at_scanVersion cur
                           then let b = a\<lparr>at_status := AT_QUARANTINED, at_scanVersion := Suc (at_scanVersion a),
                                         at_etag := cu_etag inp, at_failureCode := None\<rparr>
                                in Inr (UploadCompleted b, set_attachment i b d1)
                           else Inr (UploadStale (at_status a), d1))))"

record fail_attachment_input =
  fa_userId :: uuid
  fa_projectId :: uuid
  fa_attachmentId :: uuid
  fa_expectedStatus :: attachment_status
  fa_failureCode :: string

definition failAttachment :: "fail_attachment_input \<Rightarrow> unit tx" where
  "failAttachment inp d =
     (case getAttachment (fa_userId inp) (fa_projectId inp) (fa_attachmentId inp) d of
        None \<Rightarrow> Inr ((), d)
      | Some a \<Rightarrow>
          (if at_status a = fa_expectedStatus inp
           then Inr ((), set_attachment (fa_attachmentId inp)
                           (a\<lparr>at_status := AT_FAILED, at_failureCode := Some (fa_failureCode inp)\<rparr>) d)
           else Inr ((), d)))"

section \<open>Transactions of the worker\<close>

record scan_record =
  sn_id :: uuid
  sn_workspaceId :: uuid
  sn_projectId :: uuid
  sn_fileName :: string
  sn_declaredContentType :: string
  sn_sizeBytes :: nat
  sn_quarantineObjectKey :: string
  sn_scanVersion :: nat

definition toScanRecord :: "uuid \<Rightarrow> attachment \<Rightarrow> scan_record" where
  "toScanRecord i a =
     \<lparr>sn_id = i, sn_workspaceId = at_workspaceId a, sn_projectId = at_projectId a, sn_fileName = at_fileName a,
      sn_declaredContentType = at_declaredContentType a, sn_sizeBytes = at_sizeBytes a,
      sn_quarantineObjectKey = at_quarantineObjectKey a, sn_scanVersion = at_scanVersion a\<rparr>"

datatype scan_claim = ScanReady scan_record | ScanMissing | ScanStale

definition claim_scan :: "scan_job \<Rightarrow> (db \<Rightarrow> db) \<Rightarrow> scan_claim tx" where
  "claim_scan job race d =
     (let i = sj_attachmentId job
      in case attachment_of d i of
           None \<Rightarrow> Inr (ScanMissing, d)
         | Some cur \<Rightarrow>
             (if at_scanVersion cur \<noteq> sj_scanVersion job \<or> at_status cur \<notin> {AT_QUARANTINED, AT_SCANNING}
              then Inr (ScanStale, d)
              else let d1 = race d
                   in case attachment_of d1 i of
                        None \<Rightarrow> (if at_status cur = AT_QUARANTINED then Inr (ScanStale, d1) else Inl (PrismaError ''P2025''))
                      | Some a \<Rightarrow>
                          (if at_status cur = AT_QUARANTINED
                           then if at_status a = AT_QUARANTINED \<and> at_scanVersion a = sj_scanVersion job
                                then let b = a\<lparr>at_status := AT_SCANNING, at_failureCode := None\<rparr>
                                     in Inr (ScanReady (toScanRecord i b), set_attachment i b d1)
                                else Inr (ScanStale, d1)
                           else Inr (ScanReady (toScanRecord i a), d1))))"

text \<open>\<open>updateMany\<close> on the row that is still being scanned at the claimed version: the count is one or zero.\<close>

definition update_scanning :: "uuid \<Rightarrow> nat \<Rightarrow> (attachment \<Rightarrow> attachment) \<Rightarrow> bool tx" where
  "update_scanning i v f d =
     (case attachment_of d i of
        None \<Rightarrow> Inr (False, d)
      | Some a \<Rightarrow>
          (if at_status a = AT_SCANNING \<and> at_scanVersion a = v
           then if at_cleanObjectKey (f a) \<noteq> None \<and>
                   list_ex (\<lambda>(k, b). k \<noteq> i \<and> at_cleanObjectKey b = at_cleanObjectKey (f a)) (attachments d)
                then Inl (PrismaError ''P2002'')
                else Inr (True, set_attachment i (f a) d)
           else Inr (False, d)))"

record clean_input =
  cn_attachmentId :: uuid
  cn_scanVersion :: nat
  cn_detectedContentType :: string
  cn_sha256 :: string
  cn_cleanObjectKey :: string
  cn_metadata :: json
  cn_now :: time

definition clean_row :: "clean_input \<Rightarrow> attachment \<Rightarrow> attachment" where
  "clean_row inp a =
     a\<lparr>at_status := AT_CLEAN, at_detectedContentType := Some (cn_detectedContentType inp),
       at_sha256 := Some (cn_sha256 inp), at_cleanObjectKey := Some (cn_cleanObjectKey inp),
       at_scanMetadata := Some (cn_metadata inp), at_failureCode := None, at_scannedAt := Some (cn_now inp)\<rparr>"

definition completeClean :: "clean_input \<Rightarrow> bool tx" where
  "completeClean inp = update_scanning (cn_attachmentId inp) (cn_scanVersion inp) (clean_row inp)"

record finish_input =
  fn_attachmentId :: uuid
  fn_scanVersion :: nat
  fn_failureCode :: string
  fn_detectedContentType :: "string option"
  fn_sha256 :: "string option"
  fn_metadata :: json
  fn_now :: time

definition finish_row :: "attachment_status \<Rightarrow> finish_input \<Rightarrow> attachment \<Rightarrow> attachment" where
  "finish_row st inp a =
     a\<lparr>at_status := st, at_failureCode := Some (fn_failureCode inp), at_scanMetadata := Some (fn_metadata inp),
       at_scannedAt := Some (fn_now inp),
       at_detectedContentType := (case fn_detectedContentType inp of None \<Rightarrow> at_detectedContentType a | Some t \<Rightarrow> Some t),
       at_sha256 := (case fn_sha256 inp of None \<Rightarrow> at_sha256 a | Some h \<Rightarrow> Some h)\<rparr>"

definition finish_scan :: "attachment_status \<Rightarrow> finish_input \<Rightarrow> bool tx" where
  "finish_scan st inp = update_scanning (fn_attachmentId inp) (fn_scanVersion inp) (finish_row st inp)"

definition reject_scan :: "finish_input \<Rightarrow> bool tx" where
  "reject_scan = finish_scan AT_REJECTED"

definition fail_scan :: "finish_input \<Rightarrow> bool tx" where
  "fail_scan = finish_scan AT_FAILED"

end
