(* ===== verification/AttachmentFlow.thy ===== *)
theory AttachmentFlow
  imports Attachments
begin

text \<open>
  An attachment from the announced upload to the prompt of an agent: the object storage as
  \<open>S3ObjectStorageProvider\<close> uses it, the replies of the malware scanner (\<open>ClamAvScanner\<close>), the routes of
  \<open>control-api/src/attachment-routes.ts\<close>, the worker's \<open>AttachmentProcessor\<close> and \<open>PrismaRunAttachmentLoader\<close>.

  At every call to the database, the storage, the scanner or the queue other connections have changed
  the database (\<open>ao_env_db\<close>) and others have written objects (\<open>ao_env_objects\<close>: the holder of a signed upload
  address among them), and the call may fail (\<open>ao_fails\<close>).
\<close>

section \<open>State and services\<close>

record stored_object =
  so_bytes :: bytes
  so_contentType :: "string option"
  so_etag :: "string option"

type_synonym object_store = "string \<rightharpoonup> stored_object"

record attach_world =
  aw_db :: db
  aw_objects :: object_store
  aw_queue :: "scan_job list"
  aw_tick :: nat

type_synonym ('e, 'a) attach_act = "('e, attach_world, 'a) action"

record attach_options =
  ao_env_db :: "nat \<Rightarrow> db \<Rightarrow> db"
  ao_env_objects :: "nat \<Rightarrow> object_store \<Rightarrow> object_store"
  ao_race :: "nat \<Rightarrow> db \<Rightarrow> db"
  ao_fails :: "nat \<Rightarrow> thrown option"
  ao_now :: "nat \<Rightarrow> time"
  ao_text_of :: "uuid \<Rightarrow> string"
  ao_hash :: "bytes \<Rightarrow> string"
  ao_etag :: "bytes \<Rightarrow> string option"
  ao_url :: "string \<Rightarrow> string \<Rightarrow> int \<Rightarrow> string"
  ao_kmsKeyId :: "string option"
  ao_reply :: "nat \<Rightarrow> bytes \<Rightarrow> string"

definition attach_call :: "attach_options \<Rightarrow> (nat \<Rightarrow> (thrown, 'a) attach_act) \<Rightarrow> (thrown, 'a) attach_act" where
  "attach_call A f w =
     (let n = aw_tick w;
          w1 = w\<lparr>aw_db := ao_env_db A n (aw_db w), aw_objects := ao_env_objects A n (aw_objects w), aw_tick := Suc n\<rparr>
      in case ao_fails A n of Some e \<Rightarrow> (Inl e, w1) | None \<Rightarrow> f n w1)"

definition attach_tx :: "attach_options \<Rightarrow> ((db \<Rightarrow> db) \<Rightarrow> 'a tx) \<Rightarrow> (thrown, 'a) attach_act" where
  "attach_tx A t =
     attach_call A (\<lambda>n w. case t (ao_race A n) (aw_db w) of
       Inl e \<Rightarrow> (Inl e, w) | Inr (a, d) \<Rightarrow> (Inr a, w\<lparr>aw_db := d\<rparr>))"

definition attach_read :: "attach_options \<Rightarrow> ((db \<Rightarrow> db) \<Rightarrow> db \<Rightarrow> 'a) \<Rightarrow> (thrown, 'a) attach_act" where
  "attach_read A q = attach_call A (\<lambda>n w. (Inr (q (ao_race A n) (aw_db w)), w))"

definition current_time :: "attach_options \<Rightarrow> ('e, time) attach_act" where
  "current_time A w = (Inr (ao_now A (aw_tick w)), w)"

text \<open>\<open>.catch(() => undefined)\<close>\<close>

definition ignore_failure :: "(thrown, unit) attach_act \<Rightarrow> (thrown, unit) attach_act" where
  "ignore_failure m = catch_act m (\<lambda>_. return_act ())"

section \<open>Object storage\<close>

record signed_request =
  sr_url :: string
  sr_method :: string
  sr_headers :: "(string \<times> string) list"
  sr_expiresAt :: time

definition encryption_algorithm :: "attach_options \<Rightarrow> string" where
  "encryption_algorithm A = (case ao_kmsKeyId A of None \<Rightarrow> ''AES256'' | Some _ \<Rightarrow> ''aws:kms'')"

definition createUploadRequest :: "attach_options \<Rightarrow> string \<Rightarrow> string \<Rightarrow> int \<Rightarrow> (thrown, signed_request) attach_act" where
  "createUploadRequest A key contentType ttl =
     attach_call A (\<lambda>n w. (Inr
       \<lparr>sr_url = ao_url A ''PUT'' key ttl, sr_method = ''PUT'',
        sr_headers = [(''content-type'', contentType), (''x-amz-server-side-encryption'', encryption_algorithm A)] @
          (case ao_kmsKeyId A of None \<Rightarrow> [] | Some k \<Rightarrow> [(''x-amz-server-side-encryption-aws-kms-key-id'', k)]),
        sr_expiresAt = ao_now A n + ttl * 1000\<rparr>, w))"

definition createDownloadRequest :: "attach_options \<Rightarrow> string \<Rightarrow> string \<Rightarrow> int \<Rightarrow> (thrown, signed_request) attach_act" where
  "createDownloadRequest A key fileName ttl =
     attach_call A (\<lambda>n w. (Inr
       \<lparr>sr_url = ao_url A ''GET'' key ttl, sr_method = ''GET'', sr_headers = [], sr_expiresAt = ao_now A n + ttl * 1000\<rparr>, w))"

record object_metadata =
  om_sizeBytes :: nat
  om_contentType :: "string option"
  om_etag :: "string option"

definition headObject :: "attach_options \<Rightarrow> string \<Rightarrow> (thrown, object_metadata option) attach_act" where
  "headObject A key =
     attach_call A (\<lambda>n w. (Inr (map_option
       (\<lambda>b. \<lparr>om_sizeBytes = length (so_bytes b), om_contentType = so_contentType b, om_etag = so_etag b\<rparr>)
       (aw_objects w key)), w))"

definition object_missing :: thrown where
  "object_missing = throw_node (plain_error ClsError ''NoSuchKey'' ''The specified key does not exist.'')"

definition object_too_large :: thrown where
  "object_too_large = throw_node (plain_error ClsError ''RangeError'' ''Object exceeds the allowed size'')"

definition getObject :: "attach_options \<Rightarrow> string \<Rightarrow> nat \<Rightarrow> (thrown, bytes) attach_act" where
  "getObject A key maxBytes =
     attach_call A (\<lambda>n w. case aw_objects w key of
       None \<Rightarrow> (Inl object_missing, w)
     | Some b \<Rightarrow> (if maxBytes < length (so_bytes b) then (Inl object_too_large, w) else (Inr (so_bytes b), w)))"

definition copyObject :: "attach_options \<Rightarrow> string \<Rightarrow> string \<Rightarrow> string \<Rightarrow> (thrown, unit) attach_act" where
  "copyObject A src dst contentType =
     attach_call A (\<lambda>n w. case aw_objects w src of
       None \<Rightarrow> (Inl object_missing, w)
     | Some b \<Rightarrow>
         (Inr (), w\<lparr>aw_objects := (aw_objects w)(dst \<mapsto>
            \<lparr>so_bytes = so_bytes b, so_contentType = Some contentType, so_etag = ao_etag A (so_bytes b)\<rparr>)\<rparr>))"

definition deleteObject :: "attach_options \<Rightarrow> string \<Rightarrow> (thrown, unit) attach_act" where
  "deleteObject A key = attach_call A (\<lambda>n w. (Inr (), w\<lparr>aw_objects := (aw_objects w)(key := None)\<rparr>))"

section \<open>Malware scanner\<close>

datatype scan_verdict = CleanBytes string | InfectedBytes string string

text \<open>What \<open>ClamAvScanner.scan\<close> makes of the daemon's reply.\<close>

definition strip_nuls :: "string \<Rightarrow> string" where
  "strip_nuls s = rev (dropWhile (\<lambda>c. c = CHR 0x00) (rev s))"

definition infected_signature :: "string \<Rightarrow> string option" where
  "infected_signature s =
     (let m = take (length s - 14) (drop 8 s)
      in if s = ''stream: '' @ m @ '' FOUND'' \<and> m \<noteq> [] \<and> CHR 0x0A \<notin> set m \<and> CHR 0x0D \<notin> set m then Some m else None)"

definition clamav_verdict :: "string \<Rightarrow> thrown + scan_verdict" where
  "clamav_verdict r =
     (let s = js_trim (strip_nuls r)
      in if s = ''stream: OK'' then Inr (CleanBytes ''clamav'')
         else case infected_signature s of
                Some g \<Rightarrow> Inr (InfectedBytes ''clamav'' g)
              | None \<Rightarrow> Inl (GenericError (''Unexpected ClamAV response: '' @ take 200 s)))"

definition scan_bytes :: "attach_options \<Rightarrow> bytes \<Rightarrow> (thrown, scan_verdict) attach_act" where
  "scan_bytes A bs = attach_call A (\<lambda>n w. (clamav_verdict (ao_reply A n bs), w))"

lemma infected_signature_exact:
  "infected_signature s = Some m \<longleftrightarrow>
     s = ''stream: '' @ m @ '' FOUND'' \<and> m \<noteq> [] \<and> CHR 0x0A \<notin> set m \<and> CHR 0x0D \<notin> set m"
  by (auto simp: infected_signature_def Let_def)

section \<open>Routes of the control API\<close>

record project_attachment =
  pa_id :: uuid
  pa_projectId :: uuid
  pa_fileName :: string
  pa_contentType :: string
  pa_detectedContentType :: "string option"
  pa_sizeBytes :: nat
  pa_sha256 :: "string option"
  pa_status :: attachment_status
  pa_failureCode :: "string option"
  pa_scannedAt :: "time option"

definition toProjectAttachment :: "uuid \<Rightarrow> attachment \<Rightarrow> project_attachment" where
  "toProjectAttachment i a =
     \<lparr>pa_id = i, pa_projectId = at_projectId a, pa_fileName = at_fileName a, pa_contentType = at_declaredContentType a,
      pa_detectedContentType = at_detectedContentType a, pa_sizeBytes = at_sizeBytes a, pa_sha256 = at_sha256 a,
      pa_status = at_status a, pa_failureCode = at_failureCode a, pa_scannedAt = at_scannedAt a\<rparr>"

text \<open>An awaited call in a handler: what it throws goes to the handler's \<open>catch\<close>, or out of the route.\<close>

definition rescue ::
    "(thrown, 'a) attach_act \<Rightarrow> (thrown \<Rightarrow> (api_failure, 'a) attach_act) \<Rightarrow> (api_failure, 'a) attach_act" where
  "rescue m h w = (case m w of (Inl e, w') \<Rightarrow> h e w' | (Inr a, w') \<Rightarrow> (Inr a, w'))"

definition awaited :: "(thrown, 'a) attach_act \<Rightarrow> (api_failure, 'a) attach_act" where
  "awaited m = rescue m (\<lambda>e. throw_act (OtherError (RepoThrown e)))"

definition api_error :: "nat \<Rightarrow> string \<Rightarrow> string \<Rightarrow> (api_failure, 'a) attach_act" where
  "api_error status code msg = throw_act (ApiError status code msg JNull)"

definition createUploadIntent_route ::
    "attach_options \<Rightarrow> uuid option \<Rightarrow> uuid \<Rightarrow> uuid \<Rightarrow> upload_metadata \<Rightarrow>
     (api_failure, nat \<times> project_attachment \<times> signed_request) attach_act" where
  "createUploadIntent_route A who pid newId body =
     bind_act (of_res (requirePrincipal who)) (\<lambda>u.
     bind_act (current_time A) (\<lambda>createdAt.
     bind_act (awaited (attach_tx A (createAttachment (ao_text_of A)
         \<lparr>ca_userId = u, ca_projectId = pid, ca_attachmentId = newId, ca_metadata = body,
          ca_uploadExpiresAt = createdAt + ATTACHMENT_UPLOAD_TTL_SECONDS * 1000\<rparr>))) (\<lambda>created.
     case created of
       AttachmentProjectNotFound \<Rightarrow> throw_act PROJECT_NOT_FOUND
     | AttachmentLimitReached \<Rightarrow>
         api_error 409 ''ATTACHMENT_LIMIT_REACHED'' ''A project can contain at most five attachments''
     | AttachmentCreated i a \<Rightarrow>
         bind_act (rescue
           (createUploadRequest A (at_quarantineObjectKey a) (um_contentType body) ATTACHMENT_UPLOAD_TTL_SECONDS)
           (\<lambda>_. bind_act (awaited (attach_tx A (\<lambda>_. failAttachment
               \<lparr>fa_userId = u, fa_projectId = pid, fa_attachmentId = newId, fa_expectedStatus = AT_AWAITING_UPLOAD,
                fa_failureCode = ''UPLOAD_SIGNING_FAILED''\<rparr>))) (\<lambda>_.
             api_error 503 ''OBJECT_STORAGE_UNAVAILABLE'' ''The attachment upload could not be prepared''))) (\<lambda>up.
         return_act (201, toProjectAttachment i a, up)))))"

text \<open>\<open>replace(/^"|"$/gu, "")\<close>\<close>

definition strip_quotes :: "string \<Rightarrow> string" where
  "strip_quotes s =
     (let t = (if s \<noteq> [] \<and> hd s = CHR 0x22 then tl s else s)
      in if t \<noteq> [] \<and> last t = CHR 0x22 then butlast t else t)"

definition drop_object :: "attach_options \<Rightarrow> string \<Rightarrow> (api_failure, unit) attach_act" where
  "drop_object A key = awaited (ignore_failure (deleteObject A key))"

definition metadata_matches :: "attachment \<Rightarrow> string option \<Rightarrow> object_metadata \<Rightarrow> bool" where
  "metadata_matches a supplied m \<longleftrightarrow>
     om_sizeBytes m = at_sizeBytes a \<and> om_contentType m = Some (at_declaredContentType a) \<and>
     (case supplied of None \<Rightarrow> True | Some e \<Rightarrow> Some (strip_quotes e) = map_option strip_quotes (om_etag m))"

definition enqueue_scan :: "attach_options \<Rightarrow> scan_job \<Rightarrow> (thrown, unit) attach_act" where
  "enqueue_scan A job = attach_call A (\<lambda>n w. (Inr (), w\<lparr>aw_queue := aw_queue w @ [job]\<rparr>))"

definition conflict_status :: "attachment_status \<Rightarrow> (api_failure, 'a) attach_act" where
  "conflict_status st = api_error 409 ''ATTACHMENT_STATE_CONFLICT'' (''Attachment is '' @ attachment_status_string st)"

text \<open>The second half of the completion: the uploaded object has been checked.\<close>

definition finish_upload ::
    "attach_options \<Rightarrow> uuid \<Rightarrow> uuid \<Rightarrow> uuid \<Rightarrow> attachment \<Rightarrow> string option \<Rightarrow> (api_failure, nat \<times> project_attachment) attach_act" where
  "finish_upload A u pid i att etag =
     bind_act (current_time A) (\<lambda>now.
     bind_act (awaited (attach_tx A (completeUpload
         \<lparr>cu_userId = u, cu_projectId = pid, cu_attachmentId = i, cu_etag = etag, cu_now = now\<rparr>))) (\<lambda>r.
     case r of
       UploadNotFound \<Rightarrow> api_error 404 ''ATTACHMENT_NOT_FOUND'' ''Attachment not found''
     | UploadStale st \<Rightarrow>
         (if st = AT_EXPIRED
          then bind_act (drop_object A (at_quarantineObjectKey att)) (\<lambda>_. conflict_status st)
          else conflict_status st)
     | UploadCompleted b \<Rightarrow>
         bind_act (rescue (enqueue_scan A \<lparr>sj_attachmentId = i, sj_scanVersion = at_scanVersion b\<rparr>) (\<lambda>_.
           bind_act (awaited (attach_tx A (\<lambda>_. failAttachment
               \<lparr>fa_userId = u, fa_projectId = pid, fa_attachmentId = i, fa_expectedStatus = AT_QUARANTINED,
                fa_failureCode = ''SCAN_QUEUE_UNAVAILABLE''\<rparr>))) (\<lambda>_.
           bind_act (drop_object A (at_quarantineObjectKey b)) (\<lambda>_.
           api_error 503 ''ATTACHMENT_SCAN_QUEUE_UNAVAILABLE''
             ''Upload was quarantined but could not be queued for scanning'')))) (\<lambda>_.
         return_act (202, toProjectAttachment i b))))"

definition completeUpload_route ::
    "attach_options \<Rightarrow> uuid option \<Rightarrow> uuid \<Rightarrow> uuid \<Rightarrow> string option \<Rightarrow> (api_failure, nat \<times> project_attachment) attach_act" where
  "completeUpload_route A who pid i supplied =
     bind_act (of_res (requirePrincipal who)) (\<lambda>u.
     bind_act (awaited (attach_read A (\<lambda>_. getAttachment u pid i))) (\<lambda>found.
     case found of
       None \<Rightarrow> api_error 404 ''ATTACHMENT_NOT_FOUND'' ''Attachment not found''
     | Some att \<Rightarrow>
         (if at_status att \<noteq> AT_AWAITING_UPLOAD then conflict_status (at_status att)
          else bind_act (current_time A) (\<lambda>now.
            if at_uploadExpiresAt att \<le> now
            then bind_act (current_time A) (\<lambda>now2.
                 bind_act (awaited (attach_tx A (completeUpload
                   \<lparr>cu_userId = u, cu_projectId = pid, cu_attachmentId = i, cu_etag = None, cu_now = now2\<rparr>))) (\<lambda>_.
                 bind_act (drop_object A (at_quarantineObjectKey att)) (\<lambda>_.
                 api_error 409 ''ATTACHMENT_UPLOAD_EXPIRED'' ''The attachment upload intent has expired'')))
            else bind_act (rescue (headObject A (at_quarantineObjectKey att)) (\<lambda>_.
                   api_error 503 ''OBJECT_STORAGE_UNAVAILABLE'' ''The uploaded object could not be verified'')) (\<lambda>m.
                 case m of
                   None \<Rightarrow> api_error 409 ''ATTACHMENT_UPLOAD_MISSING'' ''The uploaded object was not found''
                 | Some meta \<Rightarrow>
                     (if \<not> metadata_matches att supplied meta
                      then bind_act (awaited (attach_tx A (\<lambda>_. failAttachment
                             \<lparr>fa_userId = u, fa_projectId = pid, fa_attachmentId = i,
                              fa_expectedStatus = AT_AWAITING_UPLOAD, fa_failureCode = ''UPLOAD_METADATA_MISMATCH''\<rparr>))) (\<lambda>_.
                           bind_act (drop_object A (at_quarantineObjectKey att)) (\<lambda>_.
                           api_error 409 ''ATTACHMENT_UPLOAD_MISMATCH''
                             ''Uploaded object metadata does not match the upload intent''))
                      else finish_upload A u pid i att (map_option strip_quotes (om_etag meta))))))))"

definition listAttachments_route ::
    "attach_options \<Rightarrow> uuid option \<Rightarrow> uuid \<Rightarrow> (api_failure, nat \<times> project_attachment list) attach_act" where
  "listAttachments_route A who pid =
     bind_act (of_res (requirePrincipal who)) (\<lambda>u.
     bind_act (awaited (attach_read A (listAttachments u pid))) (\<lambda>r.
     case r of
       None \<Rightarrow> throw_act PROJECT_NOT_FOUND
     | Some rows \<Rightarrow> return_act (200, map (\<lambda>(i, a). toProjectAttachment i a) rows)))"

definition downloadAttachment_route ::
    "attach_options \<Rightarrow> uuid option \<Rightarrow> uuid \<Rightarrow> uuid \<Rightarrow> (api_failure, nat \<times> signed_request) attach_act" where
  "downloadAttachment_route A who pid i =
     bind_act (of_res (requirePrincipal who)) (\<lambda>u.
     bind_act (awaited (attach_read A (\<lambda>_. getAttachment u pid i))) (\<lambda>found.
     case found of
       None \<Rightarrow> api_error 404 ''ATTACHMENT_NOT_FOUND'' ''Attachment not found''
     | Some att \<Rightarrow>
         (case at_cleanObjectKey att of
            Some key \<Rightarrow>
              (if at_status att = AT_CLEAN
               then bind_act (awaited (createDownloadRequest A key (at_fileName att) ATTACHMENT_DOWNLOAD_TTL_SECONDS))
                      (\<lambda>r. return_act (200, r))
               else api_error 409 ''ATTACHMENT_NOT_CLEAN'' ''Only clean attachments can be downloaded'')
          | None \<Rightarrow> api_error 409 ''ATTACHMENT_NOT_CLEAN'' ''Only clean attachments can be downloaded'')))"

section \<open>The worker's scan\<close>

datatype scan_outcome = OutcomeClean | OutcomeRejected | OutcomeFailed | OutcomeMissing | OutcomeStale

definition rejectAndDelete ::
    "attach_options \<Rightarrow> scan_record \<Rightarrow> string \<Rightarrow> string option \<Rightarrow> string option \<Rightarrow> json \<Rightarrow> (thrown, scan_outcome) attach_act" where
  "rejectAndDelete A a code detected sha meta =
     bind_act (current_time A) (\<lambda>now.
     bind_act (attach_tx A (\<lambda>_. reject_scan
       \<lparr>fn_attachmentId = sn_id a, fn_scanVersion = sn_scanVersion a, fn_failureCode = code,
        fn_detectedContentType = detected, fn_sha256 = sha, fn_metadata = meta, fn_now = now\<rparr>)) (\<lambda>rejected.
     if rejected then bind_act (ignore_failure (deleteObject A (sn_quarantineObjectKey a))) (\<lambda>_. return_act OutcomeRejected)
     else return_act OutcomeStale))"

definition nullable_text :: "string option \<Rightarrow> json" where
  "nullable_text s = (case s of None \<Rightarrow> JNull | Some t \<Rightarrow> JStr t)"

definition scan_clean_key :: "attach_options \<Rightarrow> scan_record \<Rightarrow> bytes \<Rightarrow> string" where
  "scan_clean_key A a bs =
     clean_key (ao_text_of A) (sn_workspaceId a) (sn_projectId a) (sn_id a) (ao_hash A bs)"

text \<open>What follows a clean verdict: the copy, the commit, and the clean-up of whichever object is left over.\<close>

definition publish_clean ::
    "attach_options \<Rightarrow> scan_record \<Rightarrow> bytes \<Rightarrow> string \<Rightarrow> string \<Rightarrow> (thrown, scan_outcome) attach_act" where
  "publish_clean A a bs contentType scanner =
     bind_act (copyObject A (sn_quarantineObjectKey a) (scan_clean_key A a bs) contentType) (\<lambda>_.
     bind_act (current_time A) (\<lambda>now.
     bind_act (attach_tx A (\<lambda>_. completeClean
       \<lparr>cn_attachmentId = sn_id a, cn_scanVersion = sn_scanVersion a, cn_detectedContentType = contentType,
        cn_sha256 = ao_hash A bs, cn_cleanObjectKey = scan_clean_key A a bs,
        cn_metadata = JObj [(''scanner'', JStr scanner)], cn_now = now\<rparr>)) (\<lambda>committed.
     if \<not> committed
     then bind_act (ignore_failure (deleteObject A (scan_clean_key A a bs))) (\<lambda>_. return_act OutcomeStale)
     else bind_act (ignore_failure (deleteObject A (sn_quarantineObjectKey a))) (\<lambda>_. return_act OutcomeClean))))"

definition inspect_object :: "attach_options \<Rightarrow> scan_record \<Rightarrow> (thrown, scan_outcome) attach_act" where
  "inspect_object A a =
     bind_act (getObject A (sn_quarantineObjectKey a) (sn_sizeBytes a)) (\<lambda>bs.
     if length bs \<noteq> sn_sizeBytes a
     then rejectAndDelete A a ''SIZE_MISMATCH'' None None
            (JObj [(''expectedBytes'', JNum (int (sn_sizeBytes a))), (''actualBytes'', JNum (int (length bs)))])
     else let detected = detectAttachmentMimeType bs; sha = ao_hash A bs
          in case detected of
               Some t \<Rightarrow>
                 (if t \<noteq> sn_declaredContentType a
                  then rejectAndDelete A a ''CONTENT_TYPE_MISMATCH'' detected (Some sha)
                         (JObj [(''declaredContentType'', JStr (sn_declaredContentType a)), (''detectedContentType'', nullable_text detected)])
                  else bind_act (scan_bytes A bs) (\<lambda>v.
                    case v of
                      InfectedBytes scanner signature \<Rightarrow>
                        rejectAndDelete A a ''MALWARE_DETECTED'' detected (Some sha)
                          (JObj [(''scanner'', JStr scanner), (''signature'', JStr signature)])
                    | CleanBytes scanner \<Rightarrow> publish_clean A a bs t scanner))
             | None \<Rightarrow>
                 rejectAndDelete A a ''CONTENT_TYPE_MISMATCH'' detected (Some sha)
                   (JObj [(''declaredContentType'', JStr (sn_declaredContentType a)), (''detectedContentType'', nullable_text detected)]))"

definition failure_message :: "thrown \<Rightarrow> string" where
  "failure_message e =
     (case node_of (fst e) (snd e) of
        Some n \<Rightarrow> (if en_class n = ClsNotError then ''Scan failed'' else en_message n)
      | None \<Rightarrow> ''Scan failed'')"

text \<open>The body of \<open>process\<close> once the job is claimed: every failure is retried, the last one recorded.\<close>

definition scan_claimed :: "attach_options \<Rightarrow> scan_record \<Rightarrow> nat \<Rightarrow> nat \<Rightarrow> (thrown, scan_outcome) attach_act" where
  "scan_claimed A a attempt maxAttempts =
     catch_act (inspect_object A a) (\<lambda>e.
       if attempt < maxAttempts then throw_act e
       else bind_act (current_time A) (\<lambda>now.
            bind_act (attach_tx A (\<lambda>_. fail_scan
              \<lparr>fn_attachmentId = sn_id a, fn_scanVersion = sn_scanVersion a, fn_failureCode = ''SCAN_PROVIDER_FAILURE'',
               fn_detectedContentType = None, fn_sha256 = None,
               fn_metadata = JObj [(''message'', JStr (failure_message e))], fn_now = now\<rparr>)) (\<lambda>_.
            return_act OutcomeFailed)))"

definition process_scan :: "attach_options \<Rightarrow> scan_job \<Rightarrow> nat \<Rightarrow> nat \<Rightarrow> (thrown, scan_outcome) attach_act" where
  "process_scan A job attempt maxAttempts =
     bind_act (attach_tx A (claim_scan job)) (\<lambda>c.
     case c of
       ScanMissing \<Rightarrow> return_act OutcomeMissing
     | ScanStale \<Rightarrow> return_act OutcomeStale
     | ScanReady a \<Rightarrow> scan_claimed A a attempt maxAttempts)"

section \<open>Attachments of a run\<close>

text \<open>\<open>Buffer.toString("base64")\<close>\<close>

definition base64_char :: "nat \<Rightarrow> char" where
  "base64_char n =
     (''ABCDEFGHIJKLMNOPQRSTUVWXYZ'' @ ''abcdefghijklmnopqrstuvwxyz'' @ ''0123456789+/'') ! (n mod 64)"

fun base64 :: "bytes \<Rightarrow> string" where
  "base64 [] = []"
| "base64 [a] = [base64_char (unat a div 4), base64_char (unat a mod 4 * 16), CHR ''='', CHR ''='']"
| "base64 [a, b] =
     [base64_char (unat a div 4), base64_char (unat a mod 4 * 16 + unat b div 16), base64_char (unat b mod 16 * 4), CHR ''='']"
| "base64 (a # b # c # bs) =
     base64_char (unat a div 4) # base64_char (unat a mod 4 * 16 + unat b div 16) #
     base64_char (unat b mod 16 * 4 + unat c div 64) # base64_char (unat c mod 64) # base64 bs"

datatype reference_kind = FileReference | ImageReference

record agent_reference =
  rf_id :: uuid
  rf_kind :: reference_kind
  rf_fileName :: string
  rf_mimeType :: string
  rf_dataBase64 :: string

definition reference_kind_of :: "string \<Rightarrow> reference_kind option" where
  "reference_kind_of t =
     (if t = ''application/pdf'' \<or> t = ''text/plain'' then Some FileReference
      else if t = ''image/png'' \<or> t = ''image/jpeg'' \<or> t = ''image/webp'' then Some ImageReference
      else None)"

definition load_one :: "attach_options \<Rightarrow> run_attachment \<Rightarrow> (thrown, agent_reference) attach_act" where
  "load_one A s =
     (let name = ao_text_of A (ra_attachmentId s)
      in bind_act (getObject A (ra_objectKey s) (ra_sizeBytes s)) (\<lambda>bs.
         if length bs \<noteq> ra_sizeBytes s
         then throw_act (GenericError (''Attachment '' @ name @ '' size changed after scanning''))
         else if ao_hash A bs \<noteq> ra_sha256 s
         then throw_act (GenericError (''Attachment '' @ name @ '' hash changed after scanning''))
         else case reference_kind_of (ra_contentType s) of
                None \<Rightarrow> throw_act (GenericError (''Attachment '' @ name @ '' has an unsupported clean MIME type''))
              | Some k \<Rightarrow>
                  return_act \<lparr>rf_id = ra_attachmentId s, rf_kind = k, rf_fileName = ra_fileName s,
                              rf_mimeType = ra_contentType s, rf_dataBase64 = base64 bs\<rparr>))"

fun load_each :: "attach_options \<Rightarrow> run_attachment list \<Rightarrow> (thrown, agent_reference list) attach_act" where
  "load_each A [] = return_act []"
| "load_each A (s # ss) =
     bind_act (load_one A s) (\<lambda>r. bind_act (load_each A ss) (\<lambda>rs. return_act (r # rs)))"

definition run_snapshots :: "uuid \<Rightarrow> db \<Rightarrow> run_attachment list" where
  "run_snapshots i d = filter (\<lambda>s. ra_runId s = i) (run_attachments d)"

definition MAX_COMBINED_ATTACHMENT_BYTES :: nat where
  "MAX_COMBINED_ATTACHMENT_BYTES = MAX_ATTACHMENT_BYTES * MAX_PROJECT_ATTACHMENTS"

definition load_attachments :: "attach_options \<Rightarrow> uuid \<Rightarrow> (thrown, agent_reference list) attach_act" where
  "load_attachments A runId =
     bind_act (attach_read A (\<lambda>_. run_snapshots runId)) (\<lambda>snapshots.
     if MAX_PROJECT_ATTACHMENTS < length snapshots \<or>
        MAX_COMBINED_ATTACHMENT_BYTES < sum_list (map ra_sizeBytes snapshots)
     then throw_act (throw_node (plain_error ClsError ''RangeError'' ''Run attachment snapshot exceeds platform limits''))
     else load_each A snapshots)"

end
