(* ===== verification/AttachmentLaws.thy ===== *)
theory AttachmentLaws
  imports AttachmentFlow
begin

text \<open>
  The life of a row of attachments: which statuses follow which, what never changes, and the invariant
  of the table, along every sequence of the transactions with their races. The locale carries a
  relation through the combinators the routes and the scan are built from.
\<close>

section \<open>Relations that actions keep\<close>

locale act_relation =
  fixes R :: "'w \<Rightarrow> 'w \<Rightarrow> bool"
  assumes refl: "R w w" and trans: "R u v \<Longrightarrow> R v w \<Longrightarrow> R u w"
begin

definition follows :: "('e, 'w, 'a) action \<Rightarrow> bool" where
  "follows m \<longleftrightarrow> (\<forall>w r w'. m w = (r, w') \<longrightarrow> R w w')"

lemma followsD: "follows m \<Longrightarrow> m w = (r, w') \<Longrightarrow> R w w'"
  by (simp add: follows_def)

lemma follows_same: "(\<And>w. snd (m w) = w) \<Longrightarrow> follows m"
  unfolding follows_def by (metis refl snd_conv)

lemma follows_bind:
  assumes "follows m" and "\<And>a. follows (f a)"
  shows "follows (bind_act m f)"
  unfolding follows_def
proof (intro allI impI)
  fix w r w'
  assume "bind_act m f w = (r, w')"
  then show "R w w'"
    by (rule bind_act_cases) (use assms in \<open>auto intro: followsD trans\<close>)
qed

lemma follows_handled:
  assumes "follows m" and "\<And>e. follows (h e)"
    and c: "\<And>w. c w = (case m w of (Inl e, w') \<Rightarrow> h e w' | (Inr a, w') \<Rightarrow> (f a, w'))"
  shows "follows c"
  unfolding follows_def
proof (intro allI impI)
  fix w r w'
  assume run: "c w = (r, w')"
  obtain x w1 where m: "m w = (x, w1)" by fastforce
  with assms(1) have R1: "R w w1" by (rule followsD)
  show "R w w'"
  proof (cases x)
    case (Inl e)
    then have "h e w1 = (r, w')" using run m by (simp add: c)
    from trans [OF R1 followsD [OF assms(2) this]] show ?thesis .
  next
    case (Inr a)
    with run m R1 show ?thesis by (simp add: c)
  qed
qed

lemma follows_catch: "follows m \<Longrightarrow> (\<And>e. follows (h e)) \<Longrightarrow> follows (catch_act m h)"
  by (rule follows_handled [where f = Inr]) (auto simp: catch_act_def)

end

section \<open>The life of a row\<close>

text \<open>
  \<open>AT_EXPIRED\<close> can replace every status: the transaction that completes an upload reads the row, finds
  the announcement expired and writes without looking at the status again.
\<close>

fun upload_edge :: "attachment_status \<Rightarrow> attachment_status \<Rightarrow> bool" where
  "upload_edge AT_AWAITING_UPLOAD t \<longleftrightarrow> t \<in> {AT_QUARANTINED, AT_FAILED, AT_EXPIRED}"
| "upload_edge AT_QUARANTINED t \<longleftrightarrow> t \<in> {AT_SCANNING, AT_FAILED, AT_EXPIRED}"
| "upload_edge AT_SCANNING t \<longleftrightarrow> t \<in> {AT_CLEAN, AT_REJECTED, AT_FAILED, AT_EXPIRED}"
| "upload_edge _ t \<longleftrightarrow> t = AT_EXPIRED"

definition settled :: "attachment_status \<Rightarrow> bool" where
  "settled s \<longleftrightarrow> s \<in> {AT_CLEAN, AT_REJECTED, AT_FAILED, AT_EXPIRED}"

definition expired_row :: "attachment \<Rightarrow> attachment" where
  "expired_row a = a\<lparr>at_status := AT_EXPIRED, at_failureCode := Some ''UPLOAD_EXPIRED''\<rparr>"

definition same_upload :: "attachment \<Rightarrow> attachment \<Rightarrow> bool" where
  "same_upload a b \<longleftrightarrow>
     at_workspaceId b = at_workspaceId a \<and> at_projectId b = at_projectId a \<and> at_fileName b = at_fileName a \<and>
     at_declaredContentType b = at_declaredContentType a \<and> at_sizeBytes b = at_sizeBytes a \<and>
     at_quarantineObjectKey b = at_quarantineObjectKey a \<and> at_uploadExpiresAt b = at_uploadExpiresAt a"

definition row_later :: "attachment \<Rightarrow> attachment \<Rightarrow> bool" where
  "row_later a b \<longleftrightarrow>
     same_upload a b \<and> at_scanVersion a \<le> at_scanVersion b \<and> upload_edge\<^sup>*\<^sup>* (at_status a) (at_status b) \<and>
     (settled (at_status a) \<longrightarrow> b = a \<or> b = expired_row a)"

lemma same_upload_refl [simp]: "same_upload a a"
  by (simp add: same_upload_def)

lemma row_later_refl [simp]: "row_later a a"
  by (simp add: row_later_def)

lemma row_later_trans [trans]: "row_later a b \<Longrightarrow> row_later b c \<Longrightarrow> row_later a c"
proof -
  assume ab: "row_later a b" and bc: "row_later b c"
  have twice: "expired_row (expired_row x) = expired_row x" "settled (at_status (expired_row x))" for x
    by (simp_all add: expired_row_def settled_def)
  have "same_upload a c" using ab bc by (simp add: row_later_def same_upload_def)
  moreover have "at_scanVersion a \<le> at_scanVersion c" using ab bc by (auto simp: row_later_def)
  moreover have "upload_edge\<^sup>*\<^sup>* (at_status a) (at_status c)"
    using ab bc unfolding row_later_def by (meson rtranclp_trans)
  moreover have "c = a \<or> c = expired_row a" if "settled (at_status a)"
    using ab bc that twice unfolding row_later_def by metis
  ultimately show ?thesis by (simp add: row_later_def)
qed

lemma row_later_expired: "row_later a (expired_row a)"
  by (cases "at_status a")
     (auto simp: row_later_def expired_row_def same_upload_def intro!: r_into_rtranclp)

definition rows_later :: "db \<Rightarrow> db \<Rightarrow> bool" where
  "rows_later d d' \<longleftrightarrow>
     (\<forall>i a. attachment_of d i = Some a \<longrightarrow> (\<exists>b. attachment_of d' i = Some b \<and> row_later a b))"

lemma rows_later_refl: "rows_later d d"
  by (auto simp: rows_later_def)

lemma rows_later_trans: "rows_later d e \<Longrightarrow> rows_later e f \<Longrightarrow> rows_later d f"
  unfolding rows_later_def using row_later_trans by meson

lemma rows_later_same: "attachments d' = attachments d \<Longrightarrow> rows_later d d'"
  by (auto simp: rows_later_def)

lemma rows_later_set:
  "attachment_of d i = Some a \<Longrightarrow> row_later a b \<Longrightarrow> rows_later d (set_attachment i b d)"
  by (auto simp: rows_later_def)

lemma rows_later_insert: "attachments d' = attachments d @ [x] \<Longrightarrow> rows_later d d'"
  by (auto simp: rows_later_def map_of_append map_add_def split: option.splits)

section \<open>Every sequence of transactions\<close>

definition metadata_ok :: "upload_metadata \<Rightarrow> bool" where
  "metadata_ok m \<longleftrightarrow>
     um_contentType m \<in> set ALLOWED_ATTACHMENT_MIME_TYPES \<and> 0 < um_sizeBytes m \<and> um_sizeBytes m \<le> MAX_ATTACHMENT_BYTES"

lemma parsed_metadata_ok: "CreateAttachmentUploadIntentInputSchema f t n = Some m \<Longrightarrow> metadata_ok m"
  by (auto simp: CreateAttachmentUploadIntentInputSchema_def metadata_ok_def split: option.splits if_splits)

definition clean_input_ok :: "(uuid \<Rightarrow> string) \<Rightarrow> clean_input \<Rightarrow> db \<Rightarrow> bool" where
  "clean_input_ok nm inp d \<longleftrightarrow>
     (\<forall>a. attachment_of d (cn_attachmentId inp) = Some a \<longrightarrow>
        cn_detectedContentType inp = at_declaredContentType a \<and>
        cn_cleanObjectKey inp = clean_key nm (at_workspaceId a) (at_projectId a) (cn_attachmentId inp) (cn_sha256 inp))"

text \<open>One write of one transaction, on the row as it then is.\<close>

inductive row_step :: "(uuid \<Rightarrow> string) \<Rightarrow> uuid \<Rightarrow> attachment \<Rightarrow> attachment \<Rightarrow> bool" for nm i a where
  expire: "row_step nm i a (expired_row a)"
| quarantine: "at_status a = AT_AWAITING_UPLOAD \<Longrightarrow>
    row_step nm i a (a\<lparr>at_status := AT_QUARANTINED, at_scanVersion := Suc (at_scanVersion a), at_etag := e,
                        at_failureCode := None\<rparr>)"
| fail_upload: "at_status a \<in> {AT_AWAITING_UPLOAD, AT_QUARANTINED} \<Longrightarrow>
    row_step nm i a (a\<lparr>at_status := AT_FAILED, at_failureCode := Some c\<rparr>)"
| scan: "at_status a = AT_QUARANTINED \<Longrightarrow> row_step nm i a (a\<lparr>at_status := AT_SCANNING, at_failureCode := None\<rparr>)"
| clean: "at_status a = AT_SCANNING \<Longrightarrow> cn_detectedContentType inp = at_declaredContentType a \<Longrightarrow>
    cn_cleanObjectKey inp = clean_key nm (at_workspaceId a) (at_projectId a) i (cn_sha256 inp) \<Longrightarrow>
    row_step nm i a (clean_row inp a)"
| finish: "at_status a = AT_SCANNING \<Longrightarrow> st \<in> {AT_REJECTED, AT_FAILED} \<Longrightarrow> row_step nm i a (finish_row st fin a)"

inductive table_step :: "(uuid \<Rightarrow> string) \<Rightarrow> db \<Rightarrow> db \<Rightarrow> bool" for nm d where
  kept_table: "attachments d' = attachments d \<Longrightarrow> table_step nm d d'"
| new_row: "attachment_of d (ca_attachmentId inp) = None \<Longrightarrow> metadata_ok (ca_metadata inp) \<Longrightarrow>
    length (project_attachments (ca_projectId inp) d) < 5 \<Longrightarrow>
    attachments d' = attachments d @ [(ca_attachmentId inp, new_attachment nm w inp)] \<Longrightarrow> table_step nm d d'"
| change_row: "attachment_of d i = Some a \<Longrightarrow> row_step nm i a b \<Longrightarrow> table_step nm d (set_attachment i b d)"

abbreviation attach_run :: "(uuid \<Rightarrow> string) \<Rightarrow> db \<Rightarrow> db \<Rightarrow> bool" where
  "attach_run nm \<equiv> (table_step nm)\<^sup>*\<^sup>*"

inductive_cases table_stepE: "table_step nm d d'"

section \<open>Rows only move forward\<close>

lemma row_later_step:
  assumes "same_upload a b" and "at_scanVersion a \<le> at_scanVersion b" and "upload_edge (at_status a) (at_status b)"
    and "\<not> settled (at_status a)"
  shows "row_later a b"
  using assms by (auto simp: row_later_def)

lemma row_step_later: "row_step nm i a b \<Longrightarrow> row_later a b"
proof (induction rule: row_step.induct)
  case expire
  show ?case by (rule row_later_expired)
qed (auto intro!: row_later_step simp: same_upload_def settled_def clean_row_def finish_row_def)

lemma table_step_later: "table_step nm d d' \<Longrightarrow> rows_later d d'"
  by (induction rule: table_step.induct)
     (auto intro: rows_later_same rows_later_insert rows_later_set row_step_later)

lemma attach_run_later: "attach_run nm d d' \<Longrightarrow> rows_later d d'"
  by (induction rule: rtranclp_induct) (auto intro: rows_later_refl rows_later_trans table_step_later)

lemma attach_run_row:
  assumes "attach_run nm d d'" and "attachment_of d i = Some a"
  obtains b where "attachment_of d' i = Some b" "row_later a b"
  using attach_run_later [OF assms(1)] assms(2) by (auto simp: rows_later_def)

section \<open>The invariant of the table\<close>

definition upload_row_ok :: "(uuid \<Rightarrow> string) \<Rightarrow> uuid \<Rightarrow> attachment \<Rightarrow> bool" where
  "upload_row_ok nm i a \<longleftrightarrow>
     at_declaredContentType a \<in> set ALLOWED_ATTACHMENT_MIME_TYPES \<and>
     0 < at_sizeBytes a \<and> at_sizeBytes a \<le> MAX_ATTACHMENT_BYTES \<and>
     at_quarantineObjectKey a = quarantine_key nm (at_workspaceId a) (at_projectId a) i \<and>
     (at_status a = AT_AWAITING_UPLOAD \<longrightarrow> at_scanVersion a = 0) \<and>
     (at_status a \<in> {AT_QUARANTINED, AT_SCANNING, AT_CLEAN, AT_REJECTED} \<longrightarrow> at_scanVersion a = 1) \<and>
     at_scanVersion a \<le> 1 \<and>
     (at_status a = AT_CLEAN \<longrightarrow>
        at_detectedContentType a = Some (at_declaredContentType a) \<and>
        (\<exists>h. at_sha256 a = Some h \<and>
             at_cleanObjectKey a = Some (clean_key nm (at_workspaceId a) (at_projectId a) i h))) \<and>
     (at_cleanObjectKey a \<noteq> None \<longrightarrow> at_status a \<in> {AT_CLEAN, AT_EXPIRED})"

definition attachments_ok :: "(uuid \<Rightarrow> string) \<Rightarrow> db \<Rightarrow> bool" where
  "attachments_ok nm d \<longleftrightarrow>
     distinct (map fst (attachments d)) \<and>
     (\<forall>p. length (project_attachments p d) \<le> MAX_PROJECT_ATTACHMENTS) \<and>
     (\<forall>i a. attachment_of d i = Some a \<longrightarrow> upload_row_ok nm i a)"

lemma row_step_ok: "row_step nm i a b \<Longrightarrow> upload_row_ok nm i a \<Longrightarrow> upload_row_ok nm i b"
  by (induction rule: row_step.induct)
     (auto simp: upload_row_ok_def expired_row_def clean_row_def finish_row_def)

lemma row_step_project: "row_step nm i a b \<Longrightarrow> at_projectId b = at_projectId a"
  using row_step_later by (auto simp: row_later_def same_upload_def)

lemma project_attachments_length:
  "length (project_attachments p d) = length (filter (\<lambda>q. q = p) (map (at_projectId \<circ> snd) (attachments d)))"
  by (simp add: project_attachments_def filter_map case_prod_unfold o_def)

lemma update_projects:
  assumes "map_of xs i = Some a" and "at_projectId b = at_projectId a"
  shows "map (at_projectId \<circ> snd) (AList.update i b xs) = map (at_projectId \<circ> snd) xs"
  using assms by (induction xs) (auto split: if_splits)

lemma table_step_ok:
  assumes step: "table_step nm d d'" and ok: "attachments_ok nm d"
  shows "attachments_ok nm d'"
  using step
proof (rule table_stepE)
  assume "attachments d' = attachments d"
  with ok show ?thesis by (simp add: attachments_ok_def project_attachments_def)
next
  fix inp w
  let ?i = "ca_attachmentId inp" and ?a = "new_attachment nm w inp"
  assume n: "attachment_of d ?i = None" "metadata_ok (ca_metadata inp)"
      "length (project_attachments (ca_projectId inp) d) < 5" "attachments d' = attachments d @ [(?i, ?a)]"
  have "upload_row_ok nm ?i ?a" using n(2) by (auto simp: upload_row_ok_def new_attachment_def metadata_ok_def)
  moreover have "distinct (map fst (attachments d'))"
    using ok n(1,4) by (auto simp: attachments_ok_def map_of_eq_None_iff)
  moreover have "length (project_attachments p d') \<le> MAX_PROJECT_ATTACHMENTS" for p
    using ok n(3,4) by (auto simp: attachments_ok_def project_attachments_def new_attachment_def MAX_PROJECT_ATTACHMENTS_def)
  moreover have "attachment_of d' = (attachment_of d)(?i \<mapsto> ?a)"
    using n(1,4) by (auto simp: map_of_append map_add_def fun_eq_iff split: option.splits)
  ultimately show ?thesis using ok by (auto simp: attachments_ok_def)
next
  fix i a b
  assume c: "d' = set_attachment i b d" "attachment_of d i = Some a" "row_step nm i a b"
  have "map (at_projectId \<circ> snd) (attachments d') = map (at_projectId \<circ> snd) (attachments d)"
    using c update_projects [OF c(2) row_step_project [OF c(3)]] by (simp add: set_attachment_def)
  moreover have "map fst (attachments d') = map fst (attachments d)"
    using c(2) unfolding c(1) by (intro set_attachment_ids) (metis map_of_eq_None_iff option.distinct(1))
  ultimately show ?thesis
    using ok c row_step_ok [OF c(3)] by (simp add: attachments_ok_def project_attachments_length)
qed

lemma attach_run_ok: "attach_run nm d d' \<Longrightarrow> attachments_ok nm d \<Longrightarrow> attachments_ok nm d'"
  by (induction rule: rtranclp_induct) (auto intro: table_step_ok)

section \<open>The transactions are such runs\<close>

lemma attach_run_change:
  "attach_run nm d e \<Longrightarrow> attachment_of e i = Some a \<Longrightarrow> row_step nm i a b \<Longrightarrow>
     attach_run nm d (set_attachment i b e)"
  by (rule rtranclp.rtrancl_into_rtrancl) (auto intro: change_row)

lemma createAttachment_run:
  assumes "createAttachment nm inp race d = Inr (r, d')" and "attach_run nm d (race d)" and "metadata_ok (ca_metadata inp)"
  shows "attach_run nm d d'"
proof -
  consider "d' = d" | "d' = race d" | "table_step nm (race d) d'"
    using assms(1,3)
    by (fastforce simp: createAttachment_def insert_attachment_def Let_def new_attachment_def
        intro: new_row split: option.splits if_splits sum.splits)
  then show ?thesis using assms(2) by cases auto
qed

lemma completeUpload_run:
  assumes "completeUpload inp race d = Inr (r, d')" and "attach_run nm d (race d)"
  shows "attach_run nm d d'"
proof -
  consider "d' = d" | "d' = race d"
    | a b where "attachment_of (race d) (cu_attachmentId inp) = Some a" "row_step nm (cu_attachmentId inp) a b"
        "d' = set_attachment (cu_attachmentId inp) b (race d)"
    using assms(1)
    by (fastforce simp: completeUpload_def Let_def expired_row_def [symmetric] split: option.splits if_splits
        intro: row_step.quarantine row_step.expire)
  then show ?thesis using assms(2) by cases (auto intro: attach_run_change)
qed

lemma failAttachment_run:
  assumes "failAttachment inp d = Inr (r, d')" and "fa_expectedStatus inp \<in> {AT_AWAITING_UPLOAD, AT_QUARANTINED}"
  shows "attach_run nm d d'"
  using assms
  by (auto simp: failAttachment_def getAttachment_def split: option.splits if_splits
      intro!: attach_run_change [OF rtranclp.rtrancl_refl _ row_step.fail_upload])

lemma claim_scan_run:
  assumes "claim_scan job race d = Inr (c, d')" and "attach_run nm d (race d)"
  shows "attach_run nm d d'"
  using assms
  by (auto simp: claim_scan_def Let_def split: option.splits if_splits
      intro: attach_run_change [OF _ _ row_step.scan])

lemma update_scanning_cases:
  assumes "update_scanning i v f d = Inr (b, d')"
  obtains "\<not> b" "d' = d"
    | a where "b" "attachment_of d i = Some a" "at_status a = AT_SCANNING" "at_scanVersion a = v" "d' = set_attachment i (f a) d"
  using assms by (auto simp: update_scanning_def split: option.splits if_splits)

lemma finish_scan_run:
  assumes "finish_scan st inp d = Inr (b, d')" and "st \<in> {AT_REJECTED, AT_FAILED}"
  shows "attach_run nm d d'"
  using assms(1) unfolding finish_scan_def
  by (rule update_scanning_cases)
     (use assms(2) in \<open>auto intro: attach_run_change [OF rtranclp.rtrancl_refl _ row_step.finish]\<close>)

lemma completeClean_run:
  assumes "completeClean inp d = Inr (b, d')" and "clean_input_ok nm inp d"
  shows "attach_run nm d d'"
  using assms(1) unfolding completeClean_def
proof (rule update_scanning_cases)
  fix a
  assume "attachment_of d (cn_attachmentId inp) = Some a" "at_status a = AT_SCANNING"
    "d' = set_attachment (cn_attachmentId inp) (clean_row inp a) d"
  then show ?thesis
    using assms(2) by (auto simp: clean_input_ok_def intro: attach_run_change [OF rtranclp.rtrancl_refl _ row_step.clean])
qed simp

end
