(* ===== verification/AttachmentProperties.thy ===== *)
theory AttachmentProperties
  imports AttachmentLaws Samples
begin

text \<open>
  The attachments end to end: the invariant of the table under every request and scan with other
  clients in between, what a clean outcome says about the bytes, what an agent is given, and the two
  races that the scan does not exclude.
\<close>

section \<open>Requests\<close>

datatype attach_request =
    UploadIntent "uuid option" uuid uuid string string int
  | CompleteUpload "uuid option" uuid uuid "string option"
  | ListUploads "uuid option" uuid
  | Download "uuid option" uuid uuid
  | ScanDelivery scan_job nat nat
  | LoadForRun uuid

text \<open>A body the schema refuses is answered before the handler runs.\<close>

fun serve :: "attach_options \<Rightarrow> attach_request \<Rightarrow> attach_world \<Rightarrow> attach_world" where
  "serve A (UploadIntent who p i f t n) w =
     (case CreateAttachmentUploadIntentInputSchema f t n of
        None \<Rightarrow> w | Some m \<Rightarrow> snd (createUploadIntent_route A who p i m w))"
| "serve A (CompleteUpload who p i e) w = snd (completeUpload_route A who p i e w)"
| "serve A (ListUploads who p) w = snd (listAttachments_route A who p w)"
| "serve A (Download who p i) w = snd (downloadAttachment_route A who p i w)"
| "serve A (ScanDelivery job k m) w = snd (process_scan A job k m w)"
| "serve A (LoadForRun r) w = snd (load_attachments A r w)"

text \<open>Whatever else is committed is a sequence of the same transactions.\<close>

definition others_ok :: "attach_options \<Rightarrow> bool" where
  "others_ok A \<longleftrightarrow>
     (\<forall>n d. attach_run (ao_text_of A) d (ao_env_db A n d) \<and> attach_run (ao_text_of A) d (ao_race A n d))"

section \<open>Every action is a run of the table\<close>

definition db_run :: "(uuid \<Rightarrow> string) \<Rightarrow> attach_world \<Rightarrow> attach_world \<Rightarrow> bool" where
  "db_run nm w w' \<longleftrightarrow> attach_run nm (aw_db w) (aw_db w')"

definition upload_claimed :: "scan_record \<Rightarrow> db \<Rightarrow> bool" where
  "upload_claimed a d \<longleftrightarrow>
     (\<exists>b. attachment_of d (sn_id a) = Some b \<and> at_workspaceId b = sn_workspaceId a \<and> at_projectId b = sn_projectId a \<and>
          at_declaredContentType b = sn_declaredContentType a \<and> at_sizeBytes b = sn_sizeBytes a \<and>
          at_quarantineObjectKey b = sn_quarantineObjectKey a)"

definition claimed_run :: "(uuid \<Rightarrow> string) \<Rightarrow> scan_record \<Rightarrow> attach_world \<Rightarrow> attach_world \<Rightarrow> bool" where
  "claimed_run nm a w w' \<longleftrightarrow> (upload_claimed a (aw_db w) \<longrightarrow> db_run nm w w')"

lemma upload_claimed_later: "attach_run nm d d' \<Longrightarrow> upload_claimed a d \<Longrightarrow> upload_claimed a d'"
  unfolding upload_claimed_def
  by (elim exE conjE attach_run_row) (auto simp: row_later_def same_upload_def)

interpretation runs: act_relation "db_run nm" for nm
  by unfold_locales (auto simp: db_run_def)

interpretation scans: act_relation "claimed_run nm a" for nm a
  by unfold_locales (auto simp: claimed_run_def db_run_def dest: upload_claimed_later)

named_theorems run_intros \<open>actions that are runs of the table\<close>

lemmas [run_intros] = runs.follows_bind runs.follows_catch

lemma scans_runs: "runs.follows nm m \<Longrightarrow> scans.follows nm a m"
  by (auto simp: runs.follows_def scans.follows_def claimed_run_def)

lemma runs_pure [run_intros]:
  "runs.follows nm (return_act a)" "runs.follows nm (throw_act e)" "runs.follows nm (of_res r)"
  "runs.follows nm (current_time A)" "runs.follows nm (api_error s c m)" "runs.follows nm (conflict_status st)"
  by (rule runs.follows_same; simp add: return_act_def throw_act_def of_res_def current_time_def api_error_def
        conflict_status_def)+

lemma runs_cases [run_intros]:
  "runs.follows nm m \<Longrightarrow> runs.follows nm m' \<Longrightarrow> runs.follows nm (if b then m else m')"
  "runs.follows nm m \<Longrightarrow> (\<And>x. runs.follows nm (f x)) \<Longrightarrow> runs.follows nm (case opt of None \<Rightarrow> m | Some x \<Rightarrow> f x)"
  "runs.follows nm m \<Longrightarrow> runs.follows nm m' \<Longrightarrow> (\<And>i a. runs.follows nm (g i a)) \<Longrightarrow>
     runs.follows nm (case cr of AttachmentCreated i a \<Rightarrow> g i a | AttachmentProjectNotFound \<Rightarrow> m | AttachmentLimitReached \<Rightarrow> m')"
  "(\<And>b. runs.follows nm (h b)) \<Longrightarrow> runs.follows nm m \<Longrightarrow> (\<And>s. runs.follows nm (k s)) \<Longrightarrow>
     runs.follows nm (case ur of UploadCompleted b \<Rightarrow> h b | UploadNotFound \<Rightarrow> m | UploadStale s \<Rightarrow> k s)"
  by (auto split: option.split create_attachment_result.split complete_upload_result.split)

lemma runs_call:
  assumes "others_ok A" and "ao_text_of A = nm" and "\<And>n w r w'. f n w = (r, w') \<Longrightarrow> db_run nm w w'"
  shows "runs.follows nm (attach_call A f)"
  unfolding runs.follows_def
proof (intro allI impI)
  fix w r w'
  assume run: "attach_call A f w = (r, w')"
  let ?w1 = "w\<lparr>aw_db := ao_env_db A (aw_tick w) (aw_db w), aw_objects := ao_env_objects A (aw_tick w) (aw_objects w),
               aw_tick := Suc (aw_tick w)\<rparr>"
  have "db_run nm w ?w1" using assms(1,2) by (simp add: others_ok_def db_run_def)
  moreover have "w' = ?w1 \<or> f (aw_tick w) ?w1 = (r, w')"
    using run by (auto simp: attach_call_def Let_def split: option.splits)
  ultimately show "db_run nm w w'" using runs.trans [OF _ assms(3)] by auto
qed

lemma attach_tx_cases:
  assumes "attach_tx A t w = (r, w')"
  shows "aw_db w' = ao_env_db A (aw_tick w) (aw_db w) \<or>
    (\<exists>b. t (ao_race A (aw_tick w)) (ao_env_db A (aw_tick w) (aw_db w)) = Inr (b, aw_db w'))"
  using assms by (auto simp: attach_tx_def attach_call_def Let_def split: option.splits sum.splits)

lemma runs_tx:
  assumes "others_ok A" and "ao_text_of A = nm"
    and "\<And>race d a d'. attach_run nm d (race d) \<Longrightarrow> t race d = Inr (a, d') \<Longrightarrow> attach_run nm d d'"
  shows "runs.follows nm (attach_tx A t)"
  unfolding attach_tx_def
proof (rule runs_call [OF assms(1,2)])
  fix n r and w w' :: attach_world
  assume "(case t (ao_race A n) (aw_db w) of Inl e \<Rightarrow> (Inl e, w) | Inr (a, d) \<Rightarrow> (Inr a, w\<lparr>aw_db := d\<rparr>)) = (r, w')"
  then consider "w' = w" | a where "t (ao_race A n) (aw_db w) = Inr (a, aw_db w')"
    by (auto split: sum.splits)
  then show "db_run nm w w'"
  proof cases
    case (2 a)
    then show ?thesis
      unfolding db_run_def by (rule assms(3) [rotated]) (use assms(1,2) in \<open>auto simp: others_ok_def\<close>)
  qed (simp add: runs.refl)
qed

lemma runs_store [run_intros]:
  assumes "others_ok A" and "ao_text_of A = nm"
  shows "runs.follows nm (attach_read A q)" "runs.follows nm (getObject A key n)" "runs.follows nm (copyObject A s k t)"
    "runs.follows nm (deleteObject A key)" "runs.follows nm (headObject A key)" "runs.follows nm (scan_bytes A bs)"
    "runs.follows nm (enqueue_scan A job)" "runs.follows nm (createUploadRequest A key t ttl)"
    "runs.follows nm (createDownloadRequest A key f ttl)"
  unfolding attach_read_def getObject_def copyObject_def deleteObject_def headObject_def scan_bytes_def
    enqueue_scan_def createUploadRequest_def createDownloadRequest_def
  by (rule runs_call [OF assms]; auto simp: db_run_def split: option.splits if_splits)+

lemma runs_rescue [run_intros]:
  assumes "runs.follows nm m" and "\<And>e. runs.follows nm (h e)"
  shows "runs.follows nm (rescue m h)"
  by (rule runs.follows_handled [where m = m and h = h and f = Inr]) (use assms in \<open>auto simp: rescue_def\<close>)

lemma runs_awaited [run_intros]: "runs.follows nm m \<Longrightarrow> runs.follows nm (awaited m)"
  unfolding awaited_def by (intro run_intros)

lemma runs_ignore [run_intros]: "runs.follows nm m \<Longrightarrow> runs.follows nm (ignore_failure m)"
  unfolding ignore_failure_def by (intro run_intros)

lemma runs_drop [run_intros]: "others_ok A \<Longrightarrow> ao_text_of A = nm \<Longrightarrow> runs.follows nm (drop_object A key)"
  unfolding drop_object_def by (intro run_intros)

lemma runs_transactions [run_intros]:
  assumes "others_ok A" and "ao_text_of A = nm"
  shows "metadata_ok (ca_metadata inp) \<Longrightarrow> runs.follows nm (attach_tx A (createAttachment nm inp))"
    "runs.follows nm (attach_tx A (completeUpload cinp))"
    "fa_expectedStatus finp \<in> {AT_AWAITING_UPLOAD, AT_QUARANTINED} \<Longrightarrow> runs.follows nm (attach_tx A (\<lambda>_. failAttachment finp))"
    "runs.follows nm (attach_tx A (claim_scan job))"
    "runs.follows nm (attach_tx A (\<lambda>_. reject_scan sinp))"
    "runs.follows nm (attach_tx A (\<lambda>_. fail_scan sinp))"
  unfolding reject_scan_def fail_scan_def
  by (rule runs_tx [OF assms];
      auto intro: createAttachment_run completeUpload_run failAttachment_run claim_scan_run finish_scan_run)+

lemma runs_routes:
  assumes "others_ok A" and "ao_text_of A = nm"
  shows "metadata_ok m \<Longrightarrow> runs.follows nm (createUploadIntent_route A who p i m)"
    and "runs.follows nm (completeUpload_route A who p i e)"
    and "runs.follows nm (listAttachments_route A who p)"
    and "runs.follows nm (downloadAttachment_route A who p i)"
    and "runs.follows nm (load_attachments A r)"
proof -
  show "runs.follows nm (createUploadIntent_route A who p i m)" if "metadata_ok m"
    unfolding createUploadIntent_route_def assms(2) by (intro run_intros assms) (simp_all add: that)
  show "runs.follows nm (completeUpload_route A who p i e)"
    unfolding completeUpload_route_def finish_upload_def by (intro run_intros assms) simp_all
  show "runs.follows nm (listAttachments_route A who p)"
    unfolding listAttachments_route_def by (intro run_intros assms)
  show "runs.follows nm (downloadAttachment_route A who p i)"
    unfolding downloadAttachment_route_def by (intro run_intros assms)
  have one: "runs.follows nm (load_one A s)" for s
    unfolding load_one_def Let_def by (intro run_intros assms)
  have "runs.follows nm (load_each A ss)" for ss
    by (induction ss) (auto intro!: run_intros one)
  then show "runs.follows nm (load_attachments A r)"
    unfolding load_attachments_def by (intro run_intros assms)
qed

section \<open>The scan\<close>

lemma completeClean_claimed:
  assumes "completeClean inp d = Inr (b, d')" and "upload_claimed a d" and "cn_attachmentId inp = sn_id a"
    and "cn_detectedContentType inp = sn_declaredContentType a"
    and "cn_cleanObjectKey inp = clean_key nm (sn_workspaceId a) (sn_projectId a) (sn_id a) (cn_sha256 inp)"
  shows "attach_run nm d d'"
  using assms(2-5) by (intro completeClean_run [OF assms(1)]) (auto simp: clean_input_ok_def upload_claimed_def)

lemma scans_publish:
  assumes "others_ok A" and "ao_text_of A = nm" and "t = sn_declaredContentType a"
  shows "scans.follows nm a (publish_clean A a bs t scanner)"
proof -
  let ?inp = "\<lambda>now. \<lparr>cn_attachmentId = sn_id a, cn_scanVersion = sn_scanVersion a, cn_detectedContentType = t,
        cn_sha256 = ao_hash A bs, cn_cleanObjectKey = scan_clean_key A a bs,
        cn_metadata = JObj [(''scanner'', JStr scanner)], cn_now = now\<rparr>"
  have commit: "scans.follows nm a (attach_tx A (\<lambda>_. completeClean (?inp now)))" for now
    unfolding scans.follows_def claimed_run_def
  proof (intro allI impI)
    fix w r w'
    assume run: "attach_tx A (\<lambda>_. completeClean (?inp now)) w = (r, w')" and c: "upload_claimed a (aw_db w)"
    let ?d = "ao_env_db A (aw_tick w) (aw_db w)"
    have env: "attach_run nm (aw_db w) ?d" using assms(1,2) by (simp add: others_ok_def)
    have "aw_db w' = ?d \<or> (\<exists>b. completeClean (?inp now) ?d = Inr (b, aw_db w'))"
      using attach_tx_cases [OF run] by simp
    then have "attach_run nm ?d (aw_db w')"
    proof
      assume "\<exists>b. completeClean (?inp now) ?d = Inr (b, aw_db w')"
      then obtain b where "completeClean (?inp now) ?d = Inr (b, aw_db w')" ..
      from this upload_claimed_later [OF env c] show ?thesis
        by (rule completeClean_claimed) (use assms(2,3) in \<open>simp_all add: scan_clean_key_def\<close>)
    qed simp
    with env show "db_run nm w w'" by (simp add: db_run_def)
  qed
  have drop: "runs.follows nm (bind_act (ignore_failure (deleteObject A key)) (\<lambda>_. return_act q))" for key q
    by (intro run_intros assms(1,2))
  have rest: "scans.follows nm a (if \<not> c then bind_act (ignore_failure (deleteObject A k1)) (\<lambda>_. return_act q1)
      else bind_act (ignore_failure (deleteObject A k2)) (\<lambda>_. return_act q2))" for c k1 k2 q1 q2
    by (rule scans_runs) (simp add: drop)
  have copy: "scans.follows nm a (copyObject A s k ct)" for s k ct
    by (rule scans_runs) (rule run_intros assms)+
  have clock: "scans.follows nm a (current_time A)"
    by (rule scans_runs) (rule run_intros)
  show ?thesis
    unfolding publish_clean_def by (intro scans.follows_bind copy clock commit rest)
qed

lemma scans_inspect:
  assumes "others_ok A" and "ao_text_of A = nm"
  shows "scans.follows nm a (inspect_object A a)"
proof -
  have reject: "scans.follows nm a (rejectAndDelete A a c d s j)" for c d s j
    unfolding rejectAndDelete_def by (intro scans_runs run_intros assms)
  show ?thesis
    unfolding inspect_object_def Let_def
    by (intro scans.follows_bind scans_runs [OF runs_store(2) [OF assms]])
       (auto split: option.split scan_verdict.split
          intro!: scans.follows_bind reject scans_runs [OF runs_store(6) [OF assms]] scans_publish assms)
qed

lemma claim_scan_claimed:
  assumes "claim_scan job race d = Inr (ScanReady a, d')"
  shows "upload_claimed a d' \<and> sn_id a = sj_attachmentId job"
  using assms
  by (auto simp: claim_scan_def Let_def upload_claimed_def toScanRecord_def split: option.splits if_splits)

lemma scans_claimed:
  assumes "others_ok A" and "ao_text_of A = nm"
  shows "scans.follows nm a (scan_claimed A a k m)"
  unfolding scan_claimed_def
  by (intro scans.follows_catch scans_inspect assms scans_runs) (intro run_intros assms)

lemma claim_tx_claimed:
  "attach_tx A (claim_scan job) w = (Inr (ScanReady a), w1) \<Longrightarrow> upload_claimed a (aw_db w1)"
  by (auto simp: attach_tx_def attach_call_def Let_def dest!: claim_scan_claimed split: option.splits sum.splits)

lemma runs_process:
  assumes "others_ok A" and "ao_text_of A = nm"
  shows "runs.follows nm (process_scan A job k m)"
  unfolding runs.follows_def
proof (intro allI impI)
  fix w r w'
  assume run: "process_scan A job k m w = (r, w')"
  have claim: "runs.follows nm (attach_tx A (claim_scan job))" by (intro run_intros assms)
  from run [unfolded process_scan_def] show "db_run nm w w'"
  proof (rule bind_act_cases)
    fix e
    assume "attach_tx A (claim_scan job) w = (Inl e, w')"
    with claim show ?thesis by (rule runs.followsD)
  next
    fix c w1
    assume c: "attach_tx A (claim_scan job) w = (Inr c, w1)"
      and rest: "(case c of ScanReady a \<Rightarrow> scan_claimed A a k m | ScanMissing \<Rightarrow> return_act OutcomeMissing
                  | ScanStale \<Rightarrow> return_act OutcomeStale) w1 = (r, w')"
    from claim c have first: "db_run nm w w1" by (rule runs.followsD)
    show ?thesis
    proof (cases c)
      case (ScanReady a)
      have "claimed_run nm a w1 w'"
        using scans.followsD [OF scans_claimed [OF assms], where w = w1 and r = r] rest ScanReady by simp
      with claim_tx_claimed c first ScanReady show ?thesis
        unfolding claimed_run_def by (blast intro: runs.trans)
    qed (use rest first in \<open>auto simp: return_act_def\<close>)
  qed
qed

lemma follows_snd: "runs.follows nm m \<Longrightarrow> db_run nm w (snd (m w))"
  by (rule runs.followsD [OF _ surjective_pairing])

lemma serve_run:
  assumes "others_ok A"
  shows "attach_run (ao_text_of A) (aw_db w) (aw_db (serve A q w))"
proof -
  have "db_run (ao_text_of A) w (serve A q w)"
  proof (cases q)
    case (UploadIntent who p i f t n)
    show ?thesis
      by (cases "CreateAttachmentUploadIntentInputSchema f t n")
         (simp_all add: UploadIntent runs.refl follows_snd runs_routes(1) [OF assms refl] parsed_metadata_ok)
  next
    case (ScanDelivery job k m)
    then show ?thesis by (simp add: follows_snd runs_process [OF assms refl])
  qed (simp_all add: follows_snd runs_routes(2-5) [OF assms refl])
  then show ?thesis by (simp add: db_run_def)
qed

section \<open>The invariant under every request\<close>

text \<open>C37: The table of attachments keeps its invariant under every request of the control API, every
  delivery of a scan job and every loading of a run's attachments, at any interleaving with other
  clients: at most five attachments a project, each with the size and type the contract allows, and a clean
  one has the type it was declared with and the key its digest determines. Nothing is ever forgotten:
  a row keeps what was announced, its status follows the life cycle, and once it is settled only an
  expiry that was decided earlier can still overwrite the status.\<close>

theorem attachments_invariant:
  assumes "others_ok A" and "attachments_ok (ao_text_of A) (aw_db w)"
  shows "attachments_ok (ao_text_of A) (aw_db (serve A q w)) \<and> rows_later (aw_db w) (aw_db (serve A q w))"
  using attach_run_ok attach_run_later serve_run [OF assms(1)] assms(2) by blast

section \<open>What a clean outcome says\<close>

text \<open>The objects after the next calls, as far as others have written them.\<close>

fun objects_after :: "attach_options \<Rightarrow> nat \<Rightarrow> nat \<Rightarrow> object_store \<Rightarrow> object_store" where
  "objects_after A n 0 os = os"
| "objects_after A n (Suc k) os = objects_after A (Suc n) k (ao_env_objects A n os)"

lemma attach_call_Inr:
  "attach_call A f w = (Inr r, w') \<longleftrightarrow>
     ao_fails A (aw_tick w) = None \<and>
     f (aw_tick w) (w\<lparr>aw_db := ao_env_db A (aw_tick w) (aw_db w), aw_objects := ao_env_objects A (aw_tick w) (aw_objects w),
                      aw_tick := Suc (aw_tick w)\<rparr>) = (Inr r, w')"
  by (auto simp: attach_call_def Let_def split: option.splits)

lemma getObject_Inr:
  assumes "getObject A key n w = (Inr bs, w1)"
  shows "\<exists>ob. ao_env_objects A (aw_tick w) (aw_objects w) key = Some ob \<and> bs = so_bytes ob"
    and "aw_objects w1 = ao_env_objects A (aw_tick w) (aw_objects w)" and "aw_tick w1 = Suc (aw_tick w)"
  using assms by (auto simp: getObject_def attach_call_Inr split: option.splits if_splits)

lemma scan_bytes_Inr:
  assumes "scan_bytes A bs w = (Inr v, w1)"
  shows "clamav_verdict (ao_reply A (aw_tick w) bs) = Inr v"
    and "aw_objects w1 = ao_env_objects A (aw_tick w) (aw_objects w)" and "aw_tick w1 = Suc (aw_tick w)"
  using assms by (auto simp: scan_bytes_def attach_call_Inr)

lemma copyObject_Inr:
  assumes "copyObject A s k t w = (Inr u, w1)"
  shows "\<exists>ob. ao_env_objects A (aw_tick w) (aw_objects w) s = Some ob \<and>
      aw_objects w1 = (ao_env_objects A (aw_tick w) (aw_objects w))(k \<mapsto>
        \<lparr>so_bytes = so_bytes ob, so_contentType = Some t, so_etag = ao_etag A (so_bytes ob)\<rparr>)"
    and "aw_tick w1 = Suc (aw_tick w)"
  using assms by (auto simp: copyObject_def attach_call_Inr split: option.splits)

lemma attach_tx_Inr:
  assumes "attach_tx A t w = (Inr a, w1)"
  shows "t (ao_race A (aw_tick w)) (ao_env_db A (aw_tick w) (aw_db w)) = Inr (a, aw_db w1)"
    and "aw_objects w1 = ao_env_objects A (aw_tick w) (aw_objects w)" and "aw_tick w1 = Suc (aw_tick w)"
  using assms by (auto simp: attach_tx_def attach_call_Inr split: sum.splits)

lemma ignored_delete_objects:
  assumes "ignore_failure (deleteObject A key) w = (r, w1)" and "k \<noteq> key"
  shows "aw_objects w1 k = ao_env_objects A (aw_tick w) (aw_objects w) k"
  using assms
  by (auto simp: ignore_failure_def catch_act_def deleteObject_def attach_call_def return_act_def Let_def
      split: option.splits)

lemma reject_not_clean: "returns (\<lambda>q. q \<noteq> OutcomeClean) (rejectAndDelete A a c d s j)"
  unfolding rejectAndDelete_def
  by (intro returns_bind) (auto intro!: returns_bind returns_return)

lemma reject_never_clean: "rejectAndDelete A a c d s j w \<noteq> (Inr OutcomeClean, w')"
  using reject_not_clean unfolding returns_def by blast

lemma inspect_clean:
  assumes "inspect_object A a w = (Inr OutcomeClean, w')"
  obtains bs scanner w1 w2 where
    "getObject A (sn_quarantineObjectKey a) (sn_sizeBytes a) w = (Inr bs, w1)" "length bs = sn_sizeBytes a"
    "detectAttachmentMimeType bs = Some (sn_declaredContentType a)" "scan_bytes A bs w1 = (Inr (CleanBytes scanner), w2)"
    "publish_clean A a bs (sn_declaredContentType a) scanner w2 = (Inr OutcomeClean, w')"
proof -
  obtain bs w1 where g: "getObject A (sn_quarantineObjectKey a) (sn_sizeBytes a) w = (Inr bs, w1)"
    and rest: "(if length bs \<noteq> sn_sizeBytes a
     then rejectAndDelete A a ''SIZE_MISMATCH'' None None
            (JObj [(''expectedBytes'', JNum (int (sn_sizeBytes a))), (''actualBytes'', JNum (int (length bs)))])
     else (case detectAttachmentMimeType bs of
               Some t \<Rightarrow>
                 (if t \<noteq> sn_declaredContentType a
                  then rejectAndDelete A a ''CONTENT_TYPE_MISMATCH'' (detectAttachmentMimeType bs) (Some (ao_hash A bs))
                         (JObj [(''declaredContentType'', JStr (sn_declaredContentType a)),
                                (''detectedContentType'', nullable_text (detectAttachmentMimeType bs))])
                  else bind_act (scan_bytes A bs) (\<lambda>v.
                    case v of
                      InfectedBytes scanner signature \<Rightarrow>
                        rejectAndDelete A a ''MALWARE_DETECTED'' (detectAttachmentMimeType bs) (Some (ao_hash A bs))
                          (JObj [(''scanner'', JStr scanner), (''signature'', JStr signature)])
                    | CleanBytes scanner \<Rightarrow> publish_clean A a bs t scanner))
             | None \<Rightarrow>
                 rejectAndDelete A a ''CONTENT_TYPE_MISMATCH'' (detectAttachmentMimeType bs) (Some (ao_hash A bs))
                   (JObj [(''declaredContentType'', JStr (sn_declaredContentType a)),
                          (''detectedContentType'', nullable_text (detectAttachmentMimeType bs))]))) w1 = (Inr OutcomeClean, w')"
    using assms unfolding inspect_object_def Let_def bind_act_Inr by blast
  have len: "length bs = sn_sizeBytes a" using rest reject_never_clean by (auto split: if_splits)
  then obtain t where t: "detectAttachmentMimeType bs = Some t"
    using rest reject_never_clean by (cases "detectAttachmentMimeType bs") auto
  have same: "t = sn_declaredContentType a" using rest reject_never_clean len t by (auto split: if_splits)
  obtain v w2 where v: "scan_bytes A bs w1 = (Inr v, w2)"
    and next_step: "(case v of
                      InfectedBytes scanner signature \<Rightarrow>
                        rejectAndDelete A a ''MALWARE_DETECTED'' (Some (sn_declaredContentType a)) (Some (ao_hash A bs))
                          (JObj [(''scanner'', JStr scanner), (''signature'', JStr signature)])
                    | CleanBytes scanner \<Rightarrow> publish_clean A a bs (sn_declaredContentType a) scanner) w2 = (Inr OutcomeClean, w')"
    using rest len t same by (auto simp: bind_act_Inr)
  show thesis
  proof (cases v)
    case (CleanBytes scanner)
    show thesis by (rule that [OF g len _ v [unfolded CleanBytes]]) (use t same next_step CleanBytes in auto)
  next
    case (InfectedBytes s g)
    then show thesis using next_step reject_never_clean by auto
  qed
qed

lemma publish_clean_clean:
  assumes "publish_clean A a bs t scanner w = (Inr OutcomeClean, w')"
  obtains w1 w2 inp where
    "copyObject A (sn_quarantineObjectKey a) (scan_clean_key A a bs) t w = (Inr (), w1)"
    "cn_attachmentId inp = sn_id a" "cn_detectedContentType inp = t" "cn_sha256 inp = ao_hash A bs"
    "cn_cleanObjectKey inp = scan_clean_key A a bs"
    "attach_tx A (\<lambda>_. completeClean inp) w1 = (Inr True, w2)"
    "ignore_failure (deleteObject A (sn_quarantineObjectKey a)) w2 = (Inr (), w')"
proof -
  let ?inp = "\<lambda>now. \<lparr>cn_attachmentId = sn_id a, cn_scanVersion = sn_scanVersion a, cn_detectedContentType = t,
        cn_sha256 = ao_hash A bs, cn_cleanObjectKey = scan_clean_key A a bs,
        cn_metadata = JObj [(''scanner'', JStr scanner)], cn_now = now\<rparr>"
  obtain w1 w2 now c where c: "copyObject A (sn_quarantineObjectKey a) (scan_clean_key A a bs) t w = (Inr (), w1)"
      "attach_tx A (\<lambda>_. completeClean (?inp now)) w1 = (Inr c, w2)"
      "(if \<not> c then bind_act (ignore_failure (deleteObject A (scan_clean_key A a bs))) (\<lambda>_. return_act OutcomeStale)
        else bind_act (ignore_failure (deleteObject A (sn_quarantineObjectKey a))) (\<lambda>_. return_act OutcomeClean)) w2
       = (Inr OutcomeClean, w')"
    using assms unfolding publish_clean_def bind_act_Inr current_time_def by fastforce
  then have "c" by (auto simp: bind_act_Inr split: if_splits)
  then show thesis using c by (intro that [of w1 "?inp now" w2]) (auto simp: bind_act_Inr)
qed

lemma process_clean:
  assumes "process_scan A job k m w = (Inr OutcomeClean, w')"
  obtains a w1 where "attach_tx A (claim_scan job) w = (Inr (ScanReady a), w1)" "inspect_object A a w1 = (Inr OutcomeClean, w')"
proof -
  obtain c w1 where c: "attach_tx A (claim_scan job) w = (Inr c, w1)"
    and rest: "(case c of ScanReady a \<Rightarrow> scan_claimed A a k m | ScanMissing \<Rightarrow> return_act OutcomeMissing
                  | ScanStale \<Rightarrow> return_act OutcomeStale) w1 = (Inr OutcomeClean, w')"
    using assms unfolding process_scan_def bind_act_Inr by blast
  show thesis
  proof (cases c)
    case (ScanReady a)
    with rest have "inspect_object A a w1 = (Inr OutcomeClean, w')"
      by (auto simp: scan_claimed_def catch_act_Inr bind_act_Inr split: if_splits)
    with c ScanReady show thesis by (blast intro: that)
  qed (use rest in auto)
qed

lemma scan_steps:
  assumes "process_scan A job k m w = (Inr OutcomeClean, w')"
  obtains a bs scanner inp w1 w2 w3 w4 w5 where
    "attach_tx A (claim_scan job) w = (Inr (ScanReady a), w1)"
    "getObject A (sn_quarantineObjectKey a) (sn_sizeBytes a) w1 = (Inr bs, w2)" "length bs = sn_sizeBytes a"
    "detectAttachmentMimeType bs = Some (sn_declaredContentType a)" "scan_bytes A bs w2 = (Inr (CleanBytes scanner), w3)"
    "copyObject A (sn_quarantineObjectKey a) (scan_clean_key A a bs) (sn_declaredContentType a) w3 = (Inr (), w4)"
    "cn_attachmentId inp = sn_id a" "cn_detectedContentType inp = sn_declaredContentType a"
    "cn_sha256 inp = ao_hash A bs" "cn_cleanObjectKey inp = scan_clean_key A a bs"
    "attach_tx A (\<lambda>_. completeClean inp) w4 = (Inr True, w5)"
    "ignore_failure (deleteObject A (sn_quarantineObjectKey a)) w5 = (Inr (), w')"
proof -
  obtain a w1 where claim: "attach_tx A (claim_scan job) w = (Inr (ScanReady a), w1)"
    and inspect: "inspect_object A a w1 = (Inr OutcomeClean, w')"
    using assms by (rule process_clean)
  from inspect show thesis
  proof (rule inspect_clean)
    fix bs scanner w2 w3
    assume c: "getObject A (sn_quarantineObjectKey a) (sn_sizeBytes a) w1 = (Inr bs, w2)" "length bs = sn_sizeBytes a"
      "detectAttachmentMimeType bs = Some (sn_declaredContentType a)" "scan_bytes A bs w2 = (Inr (CleanBytes scanner), w3)"
      and pub: "publish_clean A a bs (sn_declaredContentType a) scanner w3 = (Inr OutcomeClean, w')"
    from pub show thesis by (rule publish_clean_clean) (rule that [OF claim c])
  qed
qed

lemma runsD: "runs.follows nm m \<Longrightarrow> m w = (r, w') \<Longrightarrow> attach_run nm (aw_db w) (aw_db w')"
  using runs.followsD [of nm m w r w'] by (simp add: db_run_def)

text \<open>The row between the claim and the commit, and after it.\<close>

lemma committed_row:
  assumes "others_ok A" and "attachments_ok (ao_text_of A) (aw_db w)"
    and claim: "attach_tx A (claim_scan job) w = (Inr (ScanReady a), w1)"
    and between: "attach_run (ao_text_of A) (aw_db w1) (aw_db w4)"
    and inp: "cn_attachmentId inp = sn_id a"
    and commit: "attach_tx A (\<lambda>_. completeClean inp) w4 = (Inr True, w5)"
    and after: "attach_run (ao_text_of A) (aw_db w5) (aw_db w')"
  obtains row b where "attachment_of (aw_db w') (sj_attachmentId job) = Some b" "sn_id a = sj_attachmentId job"
    "b = clean_row inp row \<or> b = expired_row (clean_row inp row)"
    "at_declaredContentType row = sn_declaredContentType a" "at_sizeBytes row = sn_sizeBytes a"
    "at_quarantineObjectKey row = sn_quarantineObjectKey a"
    "sn_quarantineObjectKey a = quarantine_key (ao_text_of A) (sn_workspaceId a) (sn_projectId a) (sn_id a)"
proof -
  let ?nm = "ao_text_of A" and ?d = "ao_env_db A (aw_tick w4) (aw_db w4)" and ?i = "sj_attachmentId job"
  have id: "sn_id a = ?i" and here: "upload_claimed a (aw_db w1)"
    using claim_scan_claimed [OF attach_tx_Inr(1) [OF claim]] by auto
  have toD: "attach_run ?nm (aw_db w1) ?d"
    using between assms(1) by (meson others_ok_def rtranclp_trans)
  have "attach_run ?nm (aw_db w) (aw_db w1)"
    by (rule runsD [OF runs_transactions(4) [OF assms(1) refl] claim])
  then have ok: "attachments_ok ?nm ?d" using attach_run_ok assms(2) rtranclp_trans [OF _ toD] by blast
  obtain row where row: "attachment_of ?d ?i = Some row" "aw_db w5 = set_attachment ?i (clean_row inp row) ?d"
    using attach_tx_Inr(1) [OF commit] unfolding completeClean_def inp id
    by (rule update_scanning_cases) auto
  obtain b where b: "attachment_of (aw_db w') ?i = Some b" "row_later (clean_row inp row) b"
    using after by (rule attach_run_row [where i = ?i and a = "clean_row inp row"]) (auto simp: row(2))
  have "b = clean_row inp row \<or> b = expired_row (clean_row inp row)"
    using b(2) by (simp add: row_later_def settled_def clean_row_def)
  moreover have "upload_claimed a ?d" by (rule upload_claimed_later [OF toD here])
  moreover have "upload_row_ok ?nm ?i row" using ok row(1) by (simp add: attachments_ok_def)
  ultimately show thesis
    using b(1) id row(1) by (intro that [of b row]) (auto simp: upload_claimed_def upload_row_ok_def)
qed

lemma keys_differ: "clean_key nm w p i h \<noteq> quarantine_key nm w p i"
  by (simp add: clean_key_def quarantine_key_def)

text \<open>C38: A scan that ends clean has read the whole object that was quarantined, found the declared size and the
  declared type in its bytes and a clean verdict of the scanner on them, and has recorded their digest, their
  type and the key of the copy on the row, where they stay. If nobody else writes to the two objects of the
  attachment meanwhile, the copy holds exactly these bytes.\<close>

theorem clean_scan_outcome:
  assumes "others_ok A" and "attachments_ok (ao_text_of A) (aw_db w)"
    and "process_scan A job k m w = (Inr OutcomeClean, w')"
  shows "\<exists>b ob scanner key.
    attachment_of (aw_db w') (sj_attachmentId job) = Some b \<and> at_status b \<in> {AT_CLEAN, AT_EXPIRED} \<and>
    objects_after A (aw_tick w) 2 (aw_objects w) (at_quarantineObjectKey b) = Some ob \<and>
    length (so_bytes ob) = at_sizeBytes b \<and>
    detectAttachmentMimeType (so_bytes ob) = Some (at_declaredContentType b) \<and>
    at_detectedContentType b = Some (at_declaredContentType b) \<and>
    clamav_verdict (ao_reply A (aw_tick w + 2) (so_bytes ob)) = Inr (CleanBytes scanner) \<and>
    at_sha256 b = Some (ao_hash A (so_bytes ob)) \<and> at_cleanObjectKey b = Some key \<and>
    ((\<forall>n os. ao_env_objects A n os (at_quarantineObjectKey b) = os (at_quarantineObjectKey b) \<and>
             ao_env_objects A n os key = os key) \<longrightarrow>
     (\<exists>c. aw_objects w' key = Some c \<and> so_bytes c = so_bytes ob \<and> so_contentType c = Some (at_declaredContentType b)))"
proof -
  let ?env = "ao_env_objects A"
  obtain a bs scanner inp w1 w2 w3 w4 w5 where
      claim: "attach_tx A (claim_scan job) w = (Inr (ScanReady a), w1)"
    and get: "getObject A (sn_quarantineObjectKey a) (sn_sizeBytes a) w1 = (Inr bs, w2)"
    and len: "length bs = sn_sizeBytes a" and det: "detectAttachmentMimeType bs = Some (sn_declaredContentType a)"
    and scan: "scan_bytes A bs w2 = (Inr (CleanBytes scanner), w3)"
    and copy: "copyObject A (sn_quarantineObjectKey a) (scan_clean_key A a bs) (sn_declaredContentType a) w3 = (Inr (), w4)"
    and inp: "cn_attachmentId inp = sn_id a" "cn_detectedContentType inp = sn_declaredContentType a"
      "cn_sha256 inp = ao_hash A bs" "cn_cleanObjectKey inp = scan_clean_key A a bs"
    and commit: "attach_tx A (\<lambda>_. completeClean inp) w4 = (Inr True, w5)"
    and del: "ignore_failure (deleteObject A (sn_quarantineObjectKey a)) w5 = (Inr (), w')"
    using assms(3) by (rule scan_steps)
  let ?key = "scan_clean_key A a bs" and ?q = "sn_quarantineObjectKey a"
  have "attach_run (ao_text_of A) (aw_db w1) (aw_db w2)" by (rule runsD [OF runs_store(2) [OF assms(1) refl] get])
  also have "attach_run (ao_text_of A) (aw_db w2) (aw_db w3)" by (rule runsD [OF runs_store(6) [OF assms(1) refl] scan])
  also have "attach_run (ao_text_of A) (aw_db w3) (aw_db w4)" by (rule runsD [OF runs_store(3) [OF assms(1) refl] copy])
  finally have between: "attach_run (ao_text_of A) (aw_db w1) (aw_db w4)" .
  have after: "attach_run (ao_text_of A) (aw_db w5) (aw_db w')" by (rule runsD [OF runs_ignore [OF runs_store(4) [OF assms(1) refl]] del])
  obtain row b where b: "attachment_of (aw_db w') (sj_attachmentId job) = Some b"
      "b = clean_row inp row \<or> b = expired_row (clean_row inp row)"
      "at_declaredContentType row = sn_declaredContentType a" "at_sizeBytes row = sn_sizeBytes a"
      "at_quarantineObjectKey row = ?q"
      "?q = quarantine_key (ao_text_of A) (sn_workspaceId a) (sn_projectId a) (sn_id a)"
    by (rule committed_row [OF assms(1,2) claim between inp(1) commit after])
  have tick: "aw_tick w1 = aw_tick w + 1" "aw_tick w2 = aw_tick w + 2"
    using attach_tx_Inr(3) [OF claim] getObject_Inr(3) [OF get] by simp_all
  obtain ob where ob: "objects_after A (aw_tick w) 2 (aw_objects w) ?q = Some ob" "bs = so_bytes ob"
    using getObject_Inr(1) [OF get] attach_tx_Inr(2) [OF claim] tick by (auto simp: numeral_2_eq_2)
  have kept: "\<exists>c. aw_objects w' ?key = Some c \<and> so_bytes c = bs \<and> so_contentType c = Some (sn_declaredContentType a)"
    if alone: "\<forall>n os. ?env n os ?q = os ?q \<and> ?env n os ?key = os ?key"
  proof -
    have "?env (aw_tick w3) (aw_objects w3) ?q = Some ob"
      using ob alone scan_bytes_Inr(2) [OF scan] getObject_Inr(2) [OF get] attach_tx_Inr(2) [OF claim]
      by (simp add: numeral_2_eq_2)
    then obtain c where "aw_objects w4 ?key = Some c" "so_bytes c = bs" "so_contentType c = Some (sn_declaredContentType a)"
      using copyObject_Inr(1) [OF copy] ob(2) by auto
    moreover have "?key \<noteq> ?q" unfolding b(6) by (simp add: scan_clean_key_def keys_differ)
    ultimately show ?thesis
      using ignored_delete_objects [OF del] attach_tx_Inr(2) [OF commit] alone by simp
  qed
  have fields: "at_status b \<in> {AT_CLEAN, AT_EXPIRED}" "at_declaredContentType b = sn_declaredContentType a"
      "at_detectedContentType b = Some (sn_declaredContentType a)" "at_sizeBytes b = sn_sizeBytes a"
      "at_quarantineObjectKey b = ?q" "at_sha256 b = Some (ao_hash A bs)" "at_cleanObjectKey b = Some ?key"
    using b(2-5) inp by (auto simp: clean_row_def expired_row_def)
  have verdict: "clamav_verdict (ao_reply A (aw_tick w + 2) bs) = Inr (CleanBytes scanner)"
    using scan_bytes_Inr(1) [OF scan] tick(2) by simp
  show ?thesis
    by (rule exI [of _ b], rule exI [of _ ob], rule exI [of _ scanner], rule exI [of _ ?key])
       (use b(1) fields(1) ob(1) len det verdict impI [OF kept] in \<open>simp only: fields(2-7) ob(2) [symmetric] simp_thms\<close>)
qed

section \<open>What an agent is given\<close>

lemma load_one_exact:
  assumes "load_one A s w = (Inr r, w')"
  shows "\<exists>bs. length bs = ra_sizeBytes s \<and> ao_hash A bs = ra_sha256 s \<and> rf_dataBase64 r = base64 bs \<and>
    rf_id r = ra_attachmentId s \<and> rf_fileName r = ra_fileName s \<and> rf_mimeType r = ra_contentType s \<and>
    reference_kind_of (ra_contentType s) = Some (rf_kind r)"
  using assms by (auto simp: load_one_def Let_def bind_act_Inr split: if_splits option.splits)

text \<open>C39: What an agent of a run is given are the files of the run's snapshot, all of them and in order, at most
  five and at most fifty megabytes together, each with the size and the digest that were recorded when the
  file was found clean; an object that has changed since, is missing or is of another type stops the load.\<close>

theorem references_are_snapshot:
  assumes "load_attachments A i w = (Inr refs, w')"
  shows "list_all2 (\<lambda>s r. \<exists>bs. length bs = ra_sizeBytes s \<and> ao_hash A bs = ra_sha256 s \<and> rf_dataBase64 r = base64 bs \<and>
       rf_id r = ra_attachmentId s \<and> rf_fileName r = ra_fileName s \<and> rf_mimeType r = ra_contentType s \<and>
       reference_kind_of (ra_contentType s) = Some (rf_kind r))
      (run_snapshots i (ao_env_db A (aw_tick w) (aw_db w))) refs
    \<and> length refs \<le> 5 \<and>
      sum_list (map ra_sizeBytes (run_snapshots i (ao_env_db A (aw_tick w) (aw_db w)))) \<le> 50 * 1024 * 1024"
proof -
  let ?ss = "run_snapshots i (ao_env_db A (aw_tick w) (aw_db w))"
  let ?P = "\<lambda>s r. \<exists>bs. length bs = ra_sizeBytes s \<and> ao_hash A bs = ra_sha256 s \<and> rf_dataBase64 r = base64 bs \<and>
       rf_id r = ra_attachmentId s \<and> rf_fileName r = ra_fileName s \<and> rf_mimeType r = ra_contentType s \<and>
       reference_kind_of (ra_contentType s) = Some (rf_kind r)"
  have each: "load_each A ss v = (Inr rs, v') \<Longrightarrow> list_all2 ?P ss rs" for ss v rs v'
    by (induction ss arbitrary: v rs) (auto simp: bind_act_Inr dest!: load_one_exact)
  obtain w1 where load: "load_each A ?ss w1 = (Inr refs, w')" "length ?ss \<le> MAX_PROJECT_ATTACHMENTS"
      "sum_list (map ra_sizeBytes ?ss) \<le> MAX_COMBINED_ATTACHMENT_BYTES"
    using assms by (auto simp: load_attachments_def bind_act_Inr attach_read_def attach_call_Inr split: if_splits)
  from each [OF load(1)] have "list_all2 ?P ?ss refs" .
  with load(2,3) show ?thesis
    by (auto simp: MAX_PROJECT_ATTACHMENTS_def MAX_COMBINED_ATTACHMENT_BYTES_def MAX_ATTACHMENT_BYTES_def
        dest: list_all2_lengthD)
qed

section \<open>A small store\<close>

definition race_key :: string where
  "race_key = quarantine_key nat_string 1 2 5"

definition race_row :: attachment where
  "race_row = \<lparr>at_workspaceId = 1, at_projectId = 2, at_fileName = ''a.txt'', at_declaredContentType = ''text/plain'',
     at_detectedContentType = None, at_sizeBytes = 2, at_quarantineObjectKey = race_key, at_cleanObjectKey = None,
     at_etag = None, at_sha256 = None, at_status = AT_QUARANTINED, at_scanVersion = 1, at_failureCode = None,
     at_scanMetadata = None, at_uploadExpiresAt = 1000, at_scannedAt = None\<rparr>"

definition text_object :: "bytes \<Rightarrow> stored_object" where
  "text_object bs = \<lparr>so_bytes = bs, so_contentType = Some ''text/plain'', so_etag = None\<rparr>"

definition race_world :: attach_world where
  "race_world = \<lparr>aw_db = sample_db\<lparr>attachments := [(5, race_row)]\<rparr>, aw_objects = [race_key \<mapsto> text_object [104, 105]],
     aw_queue = [], aw_tick = 0\<rparr>"

definition harmful :: bytes where
  "harmful = [120, 120]"

text \<open>The scanner knows the harmful bytes; the digest of this small world is injective on two bytes.\<close>

definition race_options :: "(nat \<Rightarrow> db \<Rightarrow> db) \<Rightarrow> (nat \<Rightarrow> object_store \<Rightarrow> object_store) \<Rightarrow> attach_options" where
  "race_options db_env object_env =
     \<lparr>ao_env_db = db_env, ao_env_objects = object_env, ao_race = (\<lambda>_ d. d), ao_fails = (\<lambda>_. None), ao_now = (\<lambda>_. 500),
      ao_text_of = nat_string, ao_hash = (\<lambda>bs. concat (map (\<lambda>b. nat_string (unat b)) bs)), ao_etag = (\<lambda>_. None),
      ao_url = (\<lambda>m k t. k), ao_kmsKeyId = None,
      ao_reply = (\<lambda>_ bs. if bs = harmful then ''stream: Eicar FOUND'' else ''stream: OK'')\<rparr>"

definition race_job :: scan_job where
  "race_job = \<lparr>sj_attachmentId = 5, sj_scanVersion = 1\<rparr>"

abbreviation alone :: attach_options where
  "alone \<equiv> race_options (\<lambda>_ d. d) (\<lambda>_ os. os)"

lemma others_ok_unchanged: "others_ok (race_options (\<lambda>_ d. d) f)"
  by (simp add: others_ok_def race_options_def)

lemma race_world_ok: "attachments_ok nat_string (aw_db race_world)"
  by (auto simp: attachments_ok_def race_world_def upload_row_ok_def race_row_def race_key_def project_attachments_def
      MAX_PROJECT_ATTACHMENTS_def MAX_ATTACHMENT_BYTES_def ALLOWED_ATTACHMENT_MIME_TYPES_def)

lemma race_options_text [simp]: "ao_text_of (race_options e f) = nat_string"
  by (simp add: race_options_def)

lemma attachments_invariant_witness:
  "attachments_ok nat_string (aw_db (serve alone (ScanDelivery race_job 1 3) race_world)) \<and>
   rows_later (aw_db race_world) (aw_db (serve alone (ScanDelivery race_job 1 3) race_world))"
  using attachments_invariant [OF others_ok_unchanged, where w = race_world and q = "ScanDelivery race_job 1 3"] race_world_ok
  by simp

lemma clean_run: "fst (process_scan alone race_job 1 3 race_world) = Inr OutcomeClean"
  by code_simp

lemma clean_scan_outcome_witness:
  "\<exists>b (ob :: stored_object). attachment_of (aw_db (snd (process_scan alone race_job 1 3 race_world))) (sj_attachmentId race_job) = Some b \<and>
     at_sha256 b = Some (ao_hash alone (so_bytes ob)) \<and> detectAttachmentMimeType (so_bytes ob) = Some (at_declaredContentType b)"
proof -
  have run: "process_scan alone race_job 1 3 race_world = (Inr OutcomeClean, snd (process_scan alone race_job 1 3 race_world))"
    using clean_run by (metis prod.collapse)
  have "attachments_ok (ao_text_of alone) (aw_db race_world)" using race_world_ok by simp
  from clean_scan_outcome [OF others_ok_unchanged this run] show ?thesis
    by (elim exE conjE) (intro exI conjI; assumption)
qed

definition snapshot_world :: attach_world where
  "snapshot_world = race_world\<lparr>aw_db := sample_db\<lparr>run_attachments :=
     [\<lparr>ra_runId = 3, ra_attachmentId = 5, ra_fileName = ''a.txt'', ra_contentType = ''text/plain'', ra_sizeBytes = 2,
       ra_sha256 = ''104105'', ra_objectKey = race_key\<rparr>]\<rparr>\<rparr>"

lemma load_attachments_code [code]:
  "load_attachments A runId =
     bind_act (attach_read A (\<lambda>_. run_snapshots runId)) (\<lambda>snapshots.
     if 5 < int (length snapshots) \<or> 52428800 < int (sum_list (map ra_sizeBytes snapshots))
     then throw_act (throw_node (plain_error ClsError ''RangeError'' ''Run attachment snapshot exceeds platform limits''))
     else load_each A snapshots)"
  by (auto simp: load_attachments_def MAX_PROJECT_ATTACHMENTS_def MAX_COMBINED_ATTACHMENT_BYTES_def MAX_ATTACHMENT_BYTES_def
      intro!: arg_cong [where f = "bind_act _"])

lemma loaded_run:
  "fst (load_attachments alone 3 snapshot_world) =
     Inr [\<lparr>rf_id = 5, rf_kind = FileReference, rf_fileName = ''a.txt'', rf_mimeType = ''text/plain'', rf_dataBase64 = ''aGk=''\<rparr>]"
  by code_simp

lemma references_are_snapshot_witness:
  "\<exists>bs. length bs = 2 \<and> ao_hash alone bs = ''104105'' \<and> ''aGk='' = base64 bs"
proof -
  have run: "load_attachments alone 3 snapshot_world =
     (Inr [\<lparr>rf_id = 5, rf_kind = FileReference, rf_fileName = ''a.txt'', rf_mimeType = ''text/plain'', rf_dataBase64 = ''aGk=''\<rparr>],
      snd (load_attachments alone 3 snapshot_world))"
    using loaded_run by (metis prod.collapse)
  have rows: "run_snapshots 3 (ao_env_db alone (aw_tick snapshot_world) (aw_db snapshot_world)) =
     [\<lparr>ra_runId = 3, ra_attachmentId = 5, ra_fileName = ''a.txt'', ra_contentType = ''text/plain'', ra_sizeBytes = 2,
       ra_sha256 = ''104105'', ra_objectKey = race_key\<rparr>]"
    by (simp add: run_snapshots_def snapshot_world_def race_options_def)
  show ?thesis using references_are_snapshot [OF run] unfolding rows by auto
qed

section \<open>What the scan does not hold on to\<close>

text \<open>The holder of the signed address writes the object again, with the declared size and type, after it was read.\<close>

definition write_again :: "nat \<Rightarrow> object_store \<Rightarrow> object_store" where
  "write_again n os = (if n = 3 then os(race_key \<mapsto> text_object harmful) else os)"

text \<open>A second delivery of the same job has read the object; the first delivery commits before it does.\<close>

definition first_commit :: "db \<Rightarrow> db" where
  "first_commit d =
     (case attachment_of d 5 of
        None \<Rightarrow> d
      | Some a \<Rightarrow>
          (case completeClean \<lparr>cn_attachmentId = 5, cn_scanVersion = 1, cn_detectedContentType = at_declaredContentType a,
                  cn_sha256 = ''104105'', cn_cleanObjectKey = clean_key nat_string (at_workspaceId a) (at_projectId a) 5 ''104105'',
                  cn_metadata = JObj [(''scanner'', JStr ''clamav'')], cn_now = 500\<rparr> d of
             Inl _ \<Rightarrow> d | Inr (_, d') \<Rightarrow> d'))"

definition delivered_twice :: "nat \<Rightarrow> db \<Rightarrow> db" where
  "delivered_twice n d = (if n = 4 then first_commit d else d)"

lemma first_commit_run: "attach_run nat_string d (first_commit d)"
proof (cases "attachment_of d 5")
  case (Some a)
  show ?thesis
    unfolding first_commit_def Some option.case
    by (auto split: sum.split intro!: completeClean_run simp: clean_input_ok_def Some)
qed (simp add: first_commit_def)

abbreviation swapped :: attach_options where
  "swapped \<equiv> race_options (\<lambda>_ d. d) write_again"

abbreviation redelivered :: attach_options where
  "redelivered \<equiv> race_options delivered_twice (\<lambda>_ os. os)"

definition clean_location :: "attach_world \<Rightarrow> string option" where
  "clean_location w =
     Option.bind (attachment_of (aw_db w) 5) (\<lambda>b. if at_status b = AT_CLEAN then at_cleanObjectKey b else None)"

definition clean_bytes :: "attach_world \<Rightarrow> bytes option" where
  "clean_bytes w = Option.bind (clean_location w) (\<lambda>key. map_option so_bytes (aw_objects w key))"


end
