(* ===== verification/Spec2Isabelle.thy ===== *)
theory Spec2Isabelle
  imports SandboxProperties RouteCoverage ProcessorProperties BudgetProperties ControlProperties
    GatewayProperties ValidationLaws DatabaseLife Reconciler DatabaseSafety WorkspaceProperties EventStreamProperties
    ReleaseRoutes PreviewLifeProperties AttachmentProperties
begin

text \<open>
  A model of the atoms platform, a service in which teams of agents build web applications from a
  prompt, and the theorems that make its core correct.

  \<^bold>\<open>The program.\<close> A user creates a run of a project through the HTTP API (\<open>apps/control-api\<close>), which
  stores it in PostgreSQL and puts a job on a queue. A worker (\<open>apps/orchestrator-worker\<close>) executes the
  job: the run graph calls the agents in order, stores their tasks and files, stops for the approval of
  the plan, lets a sandbox service validate the generated project, repairs it a bounded number of times, publishes a
  preview and assesses the release. The preview gateway (\<open>apps/preview-gateway\<close>) serves a preview under a
  signed host name. The web page (\<open>apps/web\<close>) follows a run over an event stream. Beside the runs the
  worker provisions databases for the projects, reconciles them with the provider, and scans uploaded
  attachments; sweepers expire, remind and purge. All parts meet in the tables of the database,
  and each table row carries the version or the status that fences a writer that is late.

  \<^bold>\<open>How the code is modelled.\<close> A table is an association list of rows in a record, a row a record
  with the columns as fields, an enumeration a datatype. A transaction is a function from the
  store to an error or a result with the new store; one that throws leaves the store alone. An asynchronous
  function is an action (\<open>Prelude\<close>) that takes a world to a result, thrown or returned, and the world it
  leaves. What other processes commit between two transactions, and between two statements of a transaction
  where the isolation level allows it, is an argument of the definitions; the theorems hold for every such
  interference, which they only require to consist of the same transactions. Identifiers are numbers
  handed out by the store, times are milliseconds as integers, strings are lists of code units of
  the range 0 to 255, versions and counters are natural numbers; bytes and signed hosts are kept at
  their width.

  \<^bold>\<open>Theories and sources.\<close>
  \<^item> \<open>Prelude\<close>, \<open>Contracts\<close>, \<open>WorkerErrors\<close>, \<open>Database\<close>, \<open>Samples\<close>: actions and results; \<open>packages/contracts\<close>
    and the agents' output schemas; \<open>errors.ts\<close> with its cause chains; the tables of \<open>schema.prisma\<close>; the store the
    witnesses run on.
  \<^item> \<open>RunRepository\<close>, \<open>RunTransactions\<close>, \<open>SandboxRepository\<close>, \<open>SandboxLaws\<close>, \<open>SandboxProperties\<close>: the worker's
    \<open>repository.ts\<close>; its tasks write only what they plan, a stale worker writes nothing, and the tables
    of sandboxes and previews keep their invariant.
  \<^item> \<open>RunGraph\<close>, \<open>GraphLaws\<close>, \<open>GraphProperties\<close>, \<open>RouteCoverage\<close>, \<open>Repair\<close>, \<open>Processor\<close>,
    \<open>ProcessorProperties\<close>: \<open>graph.ts\<close>, \<open>route-coverage.ts\<close>, \<open>repair.ts\<close> and \<open>processor.ts\<close>; which agent may be
    called when, that no code is generated without the approval, what each outcome of a job says about
    the store, and how many validations a job may cost.
  \<^item> \<open>Budget\<close>, \<open>BudgetProperties\<close>: \<open>model-budget.ts\<close>; what is spent stays below the ceiling.
  \<^item> \<open>ControlRepository\<close>, \<open>ControlApi\<close>, \<open>Expiry\<close>, \<open>ExpiryLaws\<close>, \<open>RunLifecycle\<close>, \<open>SystemSteps\<close>,
    \<open>SystemProperties\<close>, \<open>SystemActors\<close>, \<open>LifecycleProperties\<close>, \<open>ControlProperties\<close>: \<open>repository.ts\<close> and
    \<open>app.ts\<close> of the API, \<open>approval-expiry.ts\<close>; every interleaving of the API, the workers and the
    sweepers moves each run along the abstract machine \<open>run_edge\<close>, the refinement the development rests on.
  \<^item> \<open>PreviewTicket\<close>, \<open>TicketProperties\<close>, \<open>PreviewGateway\<close>, \<open>GatewayProperties\<close>: \<open>packages/preview\<close> and
    \<open>gateway.ts\<close>; a host verifies if and only if it was issued and has not expired, and a request is forwarded
    to the origin of its own preview only.
  \<^item> \<open>ValidationRunner\<close>, \<open>ValidationLaws\<close>, \<open>PreviewLife\<close>, \<open>PreviewLifeProperties\<close>:
    \<open>project-validation-runner.ts\<close>, \<open>validation.ts\<close>, \<open>preview-reopen.ts\<close>; a validated project has passed
    every gate, a failed validation leaves no sandbox and no published target, and a ready preview can be routed.
  \<^item> \<open>DatabaseStore\<close>, \<open>DatabaseControl\<close>, \<open>DatabaseOperations\<close>, \<open>Reconciliation\<close>, \<open>Reconciler\<close> and, over them,
    \<open>DatabaseLaws\<close>, \<open>DatabaseLife\<close>, \<open>DatabaseSteps\<close>, \<open>DatabaseInvariant\<close>, \<open>ReconciliationInvariant\<close>,
    \<open>DatabaseRuns\<close>, \<open>DatabaseProperties\<close>, \<open>DatabaseJobs\<close>, \<open>DatabaseSafety\<close>: the provisioned databases in the API
    and the worker; their life cycle as a refinement, the invariant of their tables, the fencing of superseded
    executions, the revocation of leases, and that only approved orphans are destroyed.
  \<^item> \<open>RunEvents\<close>, \<open>WorkspaceState\<close>, \<open>WorkspaceProperties\<close>, \<open>EventStream\<close>, \<open>EventStreamProperties\<close>: the events, the
    stream between \<open>app.ts\<close> and \<open>control-api.ts\<close> of the page, and \<open>workspace-state.ts\<close>; what is written is
    what is read, in any chunks, and every event reaches the page once and in order.
  \<^item> \<open>Quality\<close>, \<open>QualityProperties\<close>, \<open>ReleaseAssessor\<close>, \<open>ReleaseStore\<close>, \<open>ReleaseProperties\<close>, \<open>ReleaseRoutes\<close>:
    \<open>packages/quality\<close>, \<open>release-assessor.ts\<close> and the release tables; the evaluator is equivalent to its
    specification, and an assessment is always recorded.
  \<^item> \<open>Attachments\<close>, \<open>AttachmentFlow\<close>, \<open>AttachmentLaws\<close>, \<open>AttachmentProperties\<close>: the attachment routes, the
    scan and the loader, with \<open>packages/storage-provider\<close>; the invariant of the table under all of them, what
    a clean outcome says about the bytes, and two races the scan allows.

  \<^bold>\<open>Interfaces.\<close> The locales state what several operations share, and each is interpreted on the definitions
  of the model: fenced transactions (\<open>RunTransactions\<close>, \<open>SandboxLaws\<close>), relations that every action keeps
  (\<open>GraphLaws\<close>, \<open>DatabaseRuns\<close>, \<open>AttachmentLaws\<close>), due changes of a sweep (\<open>ExpiryLaws\<close>) and the budget
  store (\<open>BudgetProperties\<close>).

  \<^bold>\<open>Bounds and fuel.\<close> The walks of a cause chain stop after ten objects, as the code's do. The loops of
  retries, of repairs and of the wait for a healthy database recurse on the number of attempts the
  configuration gives. A sweep recurses on the batches of due rows it has read. The stream is a list of
  connections and of turns, so that a theorem holds for any number of them. Nothing else is bounded.

  \<^bold>\<open>Parameters.\<close> Code outside the repository is an argument: the agents, the sandbox, database, storage,
  scanning and session services, the message authentication code and the digests, the clock, random
  identifiers, the formats of Zod (identifiers, dates, addresses), and \<open>JSON.parse\<close> with \<open>JSON.stringify\<close>.
  Hypotheses on them state documented behaviour: that a code reads what it has written, that a digest
  has its fixed length, that what others commit consists of transactions of the program.

  \<^bold>\<open>Not modelled.\<close> The go-to-market, meeting and administration tables and routes, the hand-off of won
  deals and the document memory, which share no state with the runs; the adapters to the providers, the
  queue and the identity provider, which only pass requests on; the entry points, which read the
  environment; rendering in the browser; the scripts of the deployment. Connections, timers and logs
  are left out of the modelled parts, and so are the columns nobody reads.
\<close>

end
